(* ===== verification/Prelude.thy ===== *)
theory Prelude
  imports Main "HOL-Library.List_Lexorder" "HOL-Library.Char_ord"
begin

text \<open>
  Shared ground of the development: the JavaScript values that reach the validators of
  the program as \<open>unknown\<close>, its exceptions, the result type of a function that may
  throw, the state-passing type of an asynchronous function, and the generic lemmas on
  lists that the component theories use.

  Strings are \<^typ>\<open>string\<close>, one \<^typ>\<open>char\<close> per UTF-16 code unit below 256. The relational
  operators of JavaScript on strings compare code units lexicographically, which is the
  order of \<^theory_text>\<open>HOL-Library.List_Lexorder\<close> over \<^theory_text>\<open>HOL-Library.Char_ord\<close>.
\<close>

named_theorems result_simps "rewrite rules for results and state-passing results"

section \<open>Values\<close>

text \<open>
  Property keys are strings or symbols (\<open>Reflect.ownKeys\<close> returns both). A number is an
  integral double or something else (fractional, infinite, NaN): every numeric check of the
  modelled code (\<open>Number.isSafeInteger\<close>, \<open>Number.isInteger\<close>) rejects all the others alike.
  A date carries its time value, \<^const>\<open>None\<close> for an Invalid Date. An object carries
  whether its prototype is \<open>Object.prototype\<close> or null, and its own properties in order.
\<close>

datatype jskey = KStr string | KSym string

datatype jsval =
    JUndefined
  | JNull
  | JBool bool
  | JNum int
  | JNumOther
  | JStr string
  | JDate "int option"
  | JArr "jsval list"
  | JObj bool "(jskey \<times> jsval) list"

text \<open>An object literal: plain prototype, string keys.\<close>

definition literal_obj :: "(string \<times> jsval) list \<Rightarrow> jsval" where
  "literal_obj fields = JObj True (map (\<lambda>(k, v). (KStr k, v)) fields)"

fun own_keys :: "jsval \<Rightarrow> jskey list" where
  "own_keys (JObj _ ps) = map fst ps"
| "own_keys _ = []"

definition has_own :: "jsval \<Rightarrow> string \<Rightarrow> bool" where
  "has_own v k \<longleftrightarrow> KStr k \<in> set (own_keys v)"

text \<open>Property access; a missing property reads as undefined.\<close>

fun get_prop :: "jsval \<Rightarrow> string \<Rightarrow> jsval" where
  "get_prop (JObj _ ps) k = (case map_of ps (KStr k) of Some v \<Rightarrow> v | None \<Rightarrow> JUndefined)"
| "get_prop _ _ = JUndefined"

text \<open>\<open>Object.keys\<close>: the own string keys.\<close>

fun key_strings :: "jskey list \<Rightarrow> string list" where
  "key_strings [] = []"
| "key_strings (KStr k # ks) = k # key_strings ks"
| "key_strings (KSym _ # ks) = key_strings ks"

definition object_keys :: "jsval \<Rightarrow> string list" where
  "object_keys v = key_strings (own_keys v)"

text \<open>\<open>typeof v === "object" && v !== null && !Array.isArray(v)\<close>\<close>

fun is_object :: "jsval \<Rightarrow> bool" where
  "is_object (JObj _ _) = True"
| "is_object (JDate _) = True"
| "is_object _ = False"

fun is_plain_object :: "jsval \<Rightarrow> bool" where
  "is_plain_object (JObj p _) = p"
| "is_plain_object _ = False"

fun key_in :: "string list \<Rightarrow> jskey \<Rightarrow> bool" where
  "key_in fields (KStr k) = (k \<in> set fields)"
| "key_in fields (KSym _) = False"

text \<open>
  \<open>String(value) === name\<close> for a name of letters and underscores: a string equals it, or an array
  whose single element does (an array converts to its joined elements).
\<close>

fun string_is :: "string \<Rightarrow> jsval \<Rightarrow> bool" where
  "string_is name (JStr v) = (v = name)"
| "string_is name (JArr [v]) = string_is name v"
| "string_is name _ = False"

text \<open>The test \<open>hasExactFields\<close>, which several modules of the source repeat.\<close>

definition hasExactFields :: "jsval \<Rightarrow> string list \<Rightarrow> bool" where
  "hasExactFields input expectedFields \<longleftrightarrow>
     length (own_keys input) = length expectedFields \<and>
     list_all (has_own input) expectedFields \<and>
     list_all (key_in expectedFields) (own_keys input)"

named_theorems literal_simps "reading the properties of an object literal"

lemma own_keys_literal [literal_simps]: "own_keys (literal_obj ps) = map (\<lambda>p. KStr (fst p)) ps"
  by (auto simp: literal_obj_def)

lemma is_object_literal [literal_simps]: "is_object (literal_obj ps)"
  by (simp add: literal_obj_def)

lemma is_plain_object_literal [literal_simps]: "is_plain_object (literal_obj ps)"
  by (simp add: literal_obj_def)

lemma get_prop_literal [literal_simps]:
  "get_prop (literal_obj ps) k = (case map_of ps k of Some v \<Rightarrow> v | None \<Rightarrow> JUndefined)"
proof -
  have "map_of (map (\<lambda>(k, v). (KStr k, v)) ps) (KStr k) = map_of ps k" by (induction ps) auto
  then show ?thesis by (simp add: literal_obj_def)
qed

section \<open>Exceptions\<close>

text \<open>
  One constructor per error class the modelled code throws, with the class's \<open>code\<close> where
  it has one; \<open>NamedError\<close> is any further class, by its name and code. \<open>PlainError\<close> is \<open>new Error(message)\<close>; \<open>PortError\<close> is whatever an adapter
  outside the model rejects with.
\<close>

datatype js_error =
    ServiceScheduleValidationError string
  | ServiceScheduleTimezoneValidationError
  | ServiceAvailabilityModeValidationError string
  | ServiceAvailabilityPolicyValidationError
  | ServiceAvailabilityEvaluationError
  | ServiceAvailabilityOverrideValidationError string
  | ServiceAvailabilityTransitionCalculationError string
  | DependencyValidationError string
  | ReadinessPolicyValidationError string
  | ManagementConfigurationValidationError string
  | RegisteredServiceValidationError string
  | RegisteredServiceCatalogError string
  | RegisteredServiceControlResultValidationError string
  | RegisteredServiceStatusValidationError string
  | RegisteredServiceNotFoundError
  | ControlRegisteredServiceError
  | RegisteredServicesStopResultError string
  | RegisteredServiceAvailabilityIntervalValidationError string
  | RegisteredServiceOrchestrationStatusError string
  | RegisteredServiceOrchestrationPlanError
  | OrchestrationOperationNotSupportedError string
  | UnavailableDependencyBlockedError string
  | RegisteredServiceReadinessTimeoutError string
  | InvalidReadinessPolicyError string
  | ServiceAvailabilityReconciliationDecisionError
  | ServiceAvailabilityReconciliationOccurrenceValidationError string
  | ServiceAvailabilityReconciliationSchedulerCursorValidationError string
  | ServiceAvailabilityReconciliationSchedulerCursorStoreError string
  | ServiceAvailabilityReconciliationSchedulerCycleError string
  | NamedError string string
  | RangeError
  | PlainError string
  | PortError string

section \<open>Results: functions that may throw\<close>

type_synonym 'a result = "js_error + 'a"

fun bindR :: "'a result \<Rightarrow> ('a \<Rightarrow> 'b result) \<Rightarrow> 'b result" where
  "bindR (Inl e) f = Inl e"
| "bindR (Inr x) f = f x"

lemma bindR_eq_Inr [result_simps]:
  "bindR m f = Inr y \<longleftrightarrow> (\<exists>x. m = Inr x \<and> f x = Inr y)"
  by (cases m) auto

lemma bindR_eq_Inl [result_simps]:
  "bindR m f = Inl e \<longleftrightarrow> m = Inl e \<or> (\<exists>x. m = Inr x \<and> f x = Inl e)"
  by (cases m) auto

text \<open>\<open>array.map\<close> with a callback that may throw: the first exception ends it.\<close>

fun mapR :: "('a \<Rightarrow> 'b result) \<Rightarrow> 'a list \<Rightarrow> 'b list result" where
  "mapR f [] = Inr []"
| "mapR f (x # xs) = bindR (f x) (\<lambda>y. bindR (mapR f xs) (\<lambda>ys. Inr (y # ys)))"

lemma mapR_eq_Inr: "mapR f xs = Inr ys \<longleftrightarrow> list_all2 (\<lambda>x y. f x = Inr y) xs ys"
proof (induction xs arbitrary: ys)
  case Nil
  show ?case by (auto simp: list_all2_Nil)
next
  case (Cons x xs)
  show ?case by (auto simp: result_simps Cons.IH list_all2_Cons1)
qed

lemma mapR_length: "mapR f xs = Inr ys \<Longrightarrow> length ys = length xs"
  by (auto simp: mapR_eq_Inr dest: list_all2_lengthD)

lemma mapR_set:
  assumes "mapR f xs = Inr ys" and "y \<in> set ys"
  obtains x where "x \<in> set xs" and "f x = Inr y"
proof -
  from assms obtain i where "i < length xs" and "f (xs ! i) = Inr y"
    by (auto simp: mapR_eq_Inr list_all2_conv_all_nth in_set_conv_nth)
  then show thesis using that nth_mem by blast
qed

lemma mapR_cong: "(\<And>x. x \<in> set xs \<Longrightarrow> f x = g x) \<Longrightarrow> mapR f xs = mapR g xs"
  by (induction xs) auto

lemma mapR_cong_Inr: "(\<And>x. x \<in> set xs \<Longrightarrow> f x = Inr (g x)) \<Longrightarrow> mapR f xs = Inr (map g xs)"
  by (induction xs) auto

section \<open>State-passing results: asynchronous functions\<close>

text \<open>
  An awaited call takes the state of the world and returns its result, or the error it
  rejects with, and the state it leaves behind: a call that fails may have had an effect.
\<close>

type_synonym ('w, 'a) io = "'w \<Rightarrow> 'a result \<times> 'w"

definition retIO :: "'a \<Rightarrow> ('w, 'a) io" where
  "retIO x = (\<lambda>w. (Inr x, w))"

definition throwIO :: "js_error \<Rightarrow> ('w, 'a) io" where
  "throwIO e = (\<lambda>w. (Inl e, w))"

definition liftIO :: "'a result \<Rightarrow> ('w, 'a) io" where
  "liftIO r = (\<lambda>w. (r, w))"

definition bindIO :: "('w, 'a) io \<Rightarrow> ('a \<Rightarrow> ('w, 'b) io) \<Rightarrow> ('w, 'b) io" where
  "bindIO m f = (\<lambda>w. case m w of (Inl e, w') \<Rightarrow> (Inl e, w') | (Inr x, w') \<Rightarrow> f x w')"

text \<open>\<open>try { ... } catch (error) { ... }\<close>: the handler runs in the state the failure left.\<close>

definition catchIO :: "('w, 'a) io \<Rightarrow> (js_error \<Rightarrow> ('w, 'a) io) \<Rightarrow> ('w, 'a) io" where
  "catchIO m h = (\<lambda>w. case m w of (Inl e, w') \<Rightarrow> h e w' | (Inr x, w') \<Rightarrow> (Inr x, w'))"

lemmas io_defs = retIO_def throwIO_def liftIO_def bindIO_def catchIO_def

lemma bindIO_Inr:
  "bindIO m f w = (Inr y, w') \<longleftrightarrow> (\<exists>x w1. m w = (Inr x, w1) \<and> f x w1 = (Inr y, w'))"
  by (auto simp: bindIO_def split: prod.splits sum.splits)

lemma retIO_Inr [simp]: "retIO x w = (r, w') \<longleftrightarrow> r = Inr x \<and> w' = w"
  by (auto simp: retIO_def)

lemma throwIO_Inl [simp]: "throwIO e w = (r, w') \<longleftrightarrow> r = Inl e \<and> w' = w"
  by (auto simp: throwIO_def)

lemma liftIO_eq [simp]: "liftIO r w = (r', w') \<longleftrightarrow> r' = r \<and> w' = w"
  by (auto simp: liftIO_def)

text \<open>Invariants of the world that a call keeps, whether it returns or fails.\<close>

definition preserves :: "('w \<Rightarrow> bool) \<Rightarrow> ('w, 'a) io \<Rightarrow> bool" where
  "preserves I m \<longleftrightarrow> (\<forall>w. I w \<longrightarrow> I (snd (m w)))"

named_theorems preserves_intros "rules for invariants of state-passing programs"

lemma preservesI: "(\<And>w. I w \<Longrightarrow> I (snd (m w))) \<Longrightarrow> preserves I m"
  by (simp add: preserves_def)

lemma preservesD: "preserves I m \<Longrightarrow> I w \<Longrightarrow> m w = (r, w') \<Longrightarrow> I w'"
  unfolding preserves_def by (metis snd_conv)

lemma preserves_ret [preserves_intros]: "preserves I (retIO x)"
  by (simp add: preserves_def retIO_def)

lemma preserves_throw [preserves_intros]: "preserves I (throwIO e)"
  by (simp add: preserves_def throwIO_def)

lemma preserves_lift [preserves_intros]: "preserves I (liftIO r)"
  by (simp add: preserves_def liftIO_def)

lemma preserves_bind [preserves_intros]:
  "preserves I m \<Longrightarrow> (\<And>x. preserves I (f x)) \<Longrightarrow> preserves I (bindIO m f)"
  unfolding preserves_def bindIO_def by (auto split: prod.splits sum.splits)

lemma preserves_catch [preserves_intros]:
  "preserves I m \<Longrightarrow> (\<And>e. preserves I (h e)) \<Longrightarrow> preserves I (catchIO m h)"
  unfolding preserves_def catchIO_def by (auto split: prod.splits sum.splits)

lemma preserves_if [preserves_intros]:
  "(b \<Longrightarrow> preserves I m) \<Longrightarrow> (\<not> b \<Longrightarrow> preserves I n) \<Longrightarrow> preserves I (if b then m else n)"
  by simp

lemma preserves_option [preserves_intros]:
  "preserves I m \<Longrightarrow> (\<And>x. preserves I (f x)) \<Longrightarrow> preserves I (case v of None \<Rightarrow> m | Some x \<Rightarrow> f x)"
  by (simp split: option.splits)

lemma preserves_prod [preserves_intros]:
  "(\<And>x y. preserves I (f x y)) \<Longrightarrow> preserves I (case p of (x, y) \<Rightarrow> f x y)"
  by (simp split: prod.splits)

section \<open>Sorting with a comparator\<close>

text \<open>
  \<open>Array.prototype.sort\<close> is a stable sort; an insertion sort that never moves an element
  past an equal one computes the same array.
\<close>

fun js_insert :: "('a \<Rightarrow> 'a \<Rightarrow> int) \<Rightarrow> 'a \<Rightarrow> 'a list \<Rightarrow> 'a list" where
  "js_insert cmp x [] = [x]"
| "js_insert cmp x (y # ys) = (if cmp x y \<le> 0 then x # y # ys else y # js_insert cmp x ys)"

fun js_sort :: "('a \<Rightarrow> 'a \<Rightarrow> int) \<Rightarrow> 'a list \<Rightarrow> 'a list" where
  "js_sort cmp [] = []"
| "js_sort cmp (x # xs) = js_insert cmp x (js_sort cmp xs)"

lemma set_js_insert [simp]: "set (js_insert cmp x xs) = insert x (set xs)"
  by (induction xs) auto

lemma set_js_sort [simp]: "set (js_sort cmp xs) = set xs"
  by (induction xs) auto

lemma length_js_insert [simp]: "length (js_insert cmp x xs) = Suc (length xs)"
  by (induction xs) auto

lemma length_js_sort [simp]: "length (js_sort cmp xs) = length xs"
  by (induction xs) auto

text \<open>
  A comparator is consistent on a list when it is a total preorder there: the sign of a
  comparison flips with its arguments and "not after" is transitive.
\<close>

definition consistent_comparator :: "('a \<Rightarrow> 'a \<Rightarrow> int) \<Rightarrow> bool" where
  "consistent_comparator cmp \<longleftrightarrow>
     (\<forall>x y. cmp x y \<le> 0 \<or> cmp y x \<le> 0) \<and>
     (\<forall>x y z. cmp x y \<le> 0 \<longrightarrow> cmp y z \<le> 0 \<longrightarrow> cmp x z \<le> 0)"

lemma sorted_js_insert:
  assumes "consistent_comparator cmp" and "sorted_wrt (\<lambda>x y. cmp x y \<le> 0) xs"
  shows "sorted_wrt (\<lambda>x y. cmp x y \<le> 0) (js_insert cmp x xs)"
  using assms(2)
proof (induction xs)
  case Nil
  show ?case by simp
next
  case (Cons y ys)
  from assms(1) show ?case
    using Cons by (auto simp: consistent_comparator_def)
qed

lemma sorted_js_sort:
  "consistent_comparator cmp \<Longrightarrow> sorted_wrt (\<lambda>x y. cmp x y \<le> 0) (js_sort cmp xs)"
  by (induction xs) (auto intro: sorted_js_insert)

lemma js_insert_first: "\<forall>y \<in> set xs. cmp x y \<le> 0 \<Longrightarrow> js_insert cmp x xs = x # xs"
  by (cases xs) auto

lemma js_sort_sorted: "sorted_wrt (\<lambda>x y. cmp x y \<le> 0) xs \<Longrightarrow> js_sort cmp xs = xs"
  by (induction xs) (auto simp: js_insert_first)

section \<open>Sets built in insertion order\<close>

text \<open>\<open>set.add\<close> on a JavaScript Set, whose iteration order is the order of insertion.\<close>

definition set_add :: "'a \<Rightarrow> 'a list \<Rightarrow> 'a list" where
  "set_add x xs = (if x \<in> set xs then xs else xs @ [x])"

lemma set_set_add [simp]: "set (set_add x xs) = insert x (set xs)"
  by (auto simp: set_add_def)

lemma distinct_set_add [simp]: "distinct xs \<Longrightarrow> distinct (set_add x xs)"
  by (auto simp: set_add_def)

definition set_of_array :: "'a list \<Rightarrow> 'a list" where
  "set_of_array xs = fold set_add xs []"

lemma set_fold_set_add [simp]: "set (fold set_add xs ys) = set xs \<union> set ys"
  by (induction xs arbitrary: ys) auto

lemma distinct_fold_set_add: "distinct ys \<Longrightarrow> distinct (fold set_add xs ys)"
  by (induction xs arbitrary: ys) auto

lemma set_set_of_array [simp]: "set (set_of_array xs) = set xs"
  by (simp add: set_of_array_def)

lemma distinct_set_of_array [simp]: "distinct (set_of_array xs)"
  by (simp add: set_of_array_def distinct_fold_set_add)

lemma fold_set_add_distinct:
  "distinct (ys @ xs) \<Longrightarrow> fold set_add xs ys = ys @ xs"
  by (induction xs arbitrary: ys) (auto simp: set_add_def)

lemma set_of_array_distinct: "distinct xs \<Longrightarrow> set_of_array xs = xs"
  by (simp add: set_of_array_def fold_set_add_distinct)

section \<open>Lists in order\<close>

text \<open>\<open>before xs a b\<close>: some occurrence of \<open>a\<close> comes strictly before one of \<open>b\<close>.\<close>

definition before :: "'a list \<Rightarrow> 'a \<Rightarrow> 'a \<Rightarrow> bool" where
  "before xs a b \<longleftrightarrow> (\<exists>i j. i < j \<and> j < length xs \<and> xs ! i = a \<and> xs ! j = b)"

lemma before_append_right: "a \<in> set xs \<Longrightarrow> b \<in> set ys \<Longrightarrow> before (xs @ ys) a b"
proof -
  assume "a \<in> set xs" and "b \<in> set ys"
  then obtain i j where "i < length xs" "xs ! i = a" "j < length ys" "ys ! j = b"
    by (auto simp: in_set_conv_nth)
  then show ?thesis
    unfolding before_def by (intro exI[of _ i] exI[of _ "length xs + j"]) (auto simp: nth_append)
qed

lemma before_appendI1: "before xs a b \<Longrightarrow> before (xs @ ys) a b"
  unfolding before_def by (metis length_append nth_append order.strict_trans trans_less_add1)

lemma before_appendI2: "before ys a b \<Longrightarrow> before (xs @ ys) a b"
proof -
  assume "before ys a b"
  then obtain i j where "i < j" "j < length ys" "ys ! i = a" "ys ! j = b"
    by (auto simp: before_def)
  then show ?thesis
    unfolding before_def
    by (intro exI[of _ "length xs + i"] exI[of _ "length xs + j"]) (auto simp: nth_append)
qed

lemma before_rev: "before xs a b \<Longrightarrow> before (rev xs) b a"
proof -
  assume "before xs a b"
  then obtain i j where "i < j" "j < length xs" "xs ! i = a" "xs ! j = b"
    by (auto simp: before_def)
  then show ?thesis
    unfolding before_def
    by (intro exI[of _ "length xs - Suc j"] exI[of _ "length xs - Suc i"]) (auto simp: rev_nth)
qed

lemma before_in_set: "before xs a b \<Longrightarrow> a \<in> set xs \<and> b \<in> set xs"
  unfolding before_def by (auto intro: nth_mem)

lemma before_irrefl: "distinct xs \<Longrightarrow> \<not> before xs a a"
  by (auto simp: before_def nth_eq_iff_index_eq)

lemma before_trans:
  assumes "distinct xs" and "before xs a b" and "before xs b c"
  shows "before xs a c"
proof -
  obtain i j where ij: "i < j" "j < length xs" "xs ! i = a" "xs ! j = b"
    using assms(2) by (auto simp: before_def)
  obtain k l where kl: "k < l" "l < length xs" "xs ! k = b" "xs ! l = c"
    using assms(3) by (auto simp: before_def)
  have "j = k" using assms(1) ij kl by (auto simp: nth_eq_iff_index_eq[symmetric])
  then have "i < l" using ij kl by simp
  then show ?thesis using ij kl unfolding before_def by blast
qed

lemma before_asym: "distinct xs \<Longrightarrow> before xs a b \<Longrightarrow> \<not> before xs b a"
  using before_trans[of xs a b a] before_irrefl[of xs a] by auto

text \<open>An element that comes before no other is the last one.\<close>

lemma last_if_not_before:
  assumes "a \<in> set xs" and "\<And>b. \<not> before xs a b"
  shows "\<exists>ys. xs = ys @ [a]"
proof -
  obtain ys zs where xs: "xs = ys @ a # zs" using split_list[OF assms(1)] by blast
  have "zs = []"
  proof (rule ccontr)
    assume "zs \<noteq> []"
    then have "before (a # zs) a (hd zs)" using before_append_right[of a "[a]" "hd zs" zs] by simp
    then show False using assms(2) before_appendI2 by (metis xs)
  qed
  then show ?thesis using xs by blast
qed

lemma before_split: "before xs a b \<Longrightarrow> \<exists>us vs. xs = us @ a # vs \<and> b \<in> set vs"
proof -
  assume "before xs a b"
  then obtain i j where ij: "i < j" "j < length xs" "xs ! i = a" "xs ! j = b"
    by (auto simp: before_def)
  have "xs = take i xs @ a # drop (Suc i) xs" using ij id_take_nth_drop[of i xs] by simp
  moreover have "b \<in> set (drop (Suc i) xs)"
    using ij by (auto simp: in_set_conv_nth intro!: exI[of _ "j - Suc i"])
  ultimately show ?thesis by blast
qed

lemma before_concat_map:
  assumes "before xs a b" and "x \<in> set (f a)" and "y \<in> set (f b)"
  shows "before (concat (map f xs)) x y"
proof -
  obtain us vs where xs: "xs = us @ a # vs" "b \<in> set vs" using before_split[OF assms(1)] by blast
  then have "before (f a @ concat (map f vs)) x y" using assms(2,3) by (intro before_append_right) auto
  then show ?thesis by (simp add: xs before_appendI2)
qed

lemma before_Cons: "b \<in> set xs \<Longrightarrow> before (a # xs) a b"
  using before_append_right[of a "[a]" b xs] by simp

lemma before_map: "before xs a b \<Longrightarrow> before (map f xs) (f a) (f b)"
  unfolding before_def by (metis length_map nth_map order.strict_trans)

lemma find_SomeD: "find P xs = Some x \<Longrightarrow> P x \<and> x \<in> set xs"
  by (induction xs) (auto split: if_splits)

lemma find_None: "find P xs = None \<longleftrightarrow> (\<forall>x \<in> set xs. \<not> P x)"
  by (induction xs) auto

end
