(* ===== verification/Weekly_Schedule.thy ===== *)
theory Weekly_Schedule
  imports Prelude
begin

text \<open>
  The weekly schedules and availability policies of \<open>service-scheduling/domain\<close>: weekdays,
  local times, windows, schedules, time zones, modes and policies, each with the
  constructor that validates an unknown value. The invariant \<open>wf_schedule\<close> says what an
  accepted schedule guarantees: between one and 64 windows, each non-empty and within one
  day, in canonical order and pairwise disjoint.
\<close>

section \<open>Weekdays and local times\<close>

datatype ServiceScheduleWeekday =
  monday | tuesday | wednesday | thursday | friday | saturday | sunday

definition SERVICE_SCHEDULE_WEEKDAYS :: "ServiceScheduleWeekday list" where
  "SERVICE_SCHEDULE_WEEKDAYS = [monday, tuesday, wednesday, thursday, friday, saturday, sunday]"

fun weekday_string :: "ServiceScheduleWeekday \<Rightarrow> string" where
  "weekday_string monday = ''monday''"
| "weekday_string tuesday = ''tuesday''"
| "weekday_string wednesday = ''wednesday''"
| "weekday_string thursday = ''thursday''"
| "weekday_string friday = ''friday''"
| "weekday_string saturday = ''saturday''"
| "weekday_string sunday = ''sunday''"

definition createServiceScheduleWeekday :: "jsval \<Rightarrow> ServiceScheduleWeekday result" where
  "createServiceScheduleWeekday value =
     (case find (\<lambda>d. value = JStr (weekday_string d)) SERVICE_SCHEDULE_WEEKDAYS of
        None \<Rightarrow> Inl (ServiceScheduleValidationError ''invalid_schedule_weekday'')
      | Some d \<Rightarrow> Inr d)"

text \<open>The pattern \<open>^(?:[01][0-9]|2[0-3]):[0-5][0-9]$\<close>.\<close>

fun LOCAL_TIME_PATTERN :: "string \<Rightarrow> bool" where
  "LOCAL_TIME_PATTERN [h1, h2, c, m1, m2] \<longleftrightarrow>
     ((h1 = CHR ''0'' \<or> h1 = CHR ''1'') \<and> CHR ''0'' \<le> h2 \<and> h2 \<le> CHR ''9'' \<or>
      h1 = CHR ''2'' \<and> CHR ''0'' \<le> h2 \<and> h2 \<le> CHR ''3'') \<and>
     c = CHR '':'' \<and> CHR ''0'' \<le> m1 \<and> m1 \<le> CHR ''5'' \<and> CHR ''0'' \<le> m2 \<and> m2 \<le> CHR ''9''"
| "LOCAL_TIME_PATTERN _ \<longleftrightarrow> False"

fun createServiceScheduleLocalTime :: "jsval \<Rightarrow> string result" where
  "createServiceScheduleLocalTime (JStr value) =
     (if LOCAL_TIME_PATTERN value then Inr value
      else Inl (ServiceScheduleValidationError ''invalid_schedule_local_time''))"
| "createServiceScheduleLocalTime _ =
     Inl (ServiceScheduleValidationError ''invalid_schedule_local_time'')"

section \<open>Windows\<close>

record WeeklyAvailabilityWindow =
  weekday :: ServiceScheduleWeekday
  window_start :: string
  window_end :: string

definition WINDOW_FIELDS :: "string list" where
  "WINDOW_FIELDS = [''weekday'', ''start'', ''end'']"

definition hasExactWindowShape :: "jsval \<Rightarrow> bool" where
  "hasExactWindowShape input \<longleftrightarrow> is_object input \<and> hasExactFields input WINDOW_FIELDS"

definition createWeeklyAvailabilityWindow :: "jsval \<Rightarrow> WeeklyAvailabilityWindow result" where
  "createWeeklyAvailabilityWindow input =
     (if \<not> hasExactWindowShape input
      then Inl (ServiceScheduleValidationError ''invalid_weekly_availability_window'')
      else bindR (createServiceScheduleWeekday (get_prop input ''weekday'')) (\<lambda>d.
           bindR (createServiceScheduleLocalTime (get_prop input ''start'')) (\<lambda>s.
           bindR (createServiceScheduleLocalTime (get_prop input ''end'')) (\<lambda>e.
           if s \<ge> e
           then Inl (ServiceScheduleValidationError ''invalid_weekly_availability_window'')
           else Inr \<lparr>weekday = d, window_start = s, window_end = e\<rparr>))))"

section \<open>Schedules\<close>

record WeeklyAvailabilitySchedule =
  windows :: "WeeklyAvailabilityWindow list"

definition MAXIMUM_WEEKLY_WINDOWS :: nat where
  "MAXIMUM_WEEKLY_WINDOWS = 64"

fun getWeekdayOrder :: "ServiceScheduleWeekday \<Rightarrow> int" where
  "getWeekdayOrder monday = 0"
| "getWeekdayOrder tuesday = 1"
| "getWeekdayOrder wednesday = 2"
| "getWeekdayOrder thursday = 3"
| "getWeekdayOrder friday = 4"
| "getWeekdayOrder saturday = 5"
| "getWeekdayOrder sunday = 6"

definition compareCanonicalValues :: "string \<Rightarrow> string \<Rightarrow> int" where
  "compareCanonicalValues left right =
     (if left < right then - 1 else if left > right then 1 else 0)"

definition compareWindows :: "WeeklyAvailabilityWindow \<Rightarrow> WeeklyAvailabilityWindow \<Rightarrow> int" where
  "compareWindows left right =
     (let weekdayDifference = getWeekdayOrder (weekday left) - getWeekdayOrder (weekday right) in
      if weekdayDifference \<noteq> 0 then weekdayDifference
      else let startDifference = compareCanonicalValues (window_start left) (window_start right) in
           if startDifference \<noteq> 0 then startDifference
           else compareCanonicalValues (window_end left) (window_end right))"

fun rejectOverlappingWindows :: "WeeklyAvailabilityWindow list \<Rightarrow> unit result" where
  "rejectOverlappingWindows (previous # current # rest) =
     (if weekday previous = weekday current \<and> window_start current < window_end previous
      then Inl (ServiceScheduleValidationError ''overlapping_weekly_availability_windows'')
      else rejectOverlappingWindows (current # rest))"
| "rejectOverlappingWindows _ = Inr ()"

fun createWeeklyAvailabilitySchedule :: "jsval \<Rightarrow> WeeklyAvailabilitySchedule result" where
  "createWeeklyAvailabilitySchedule (JArr ws) =
     (if length ws = 0
      then Inl (ServiceScheduleValidationError ''empty_weekly_availability_schedule'')
      else if length ws > MAXIMUM_WEEKLY_WINDOWS
      then Inl (ServiceScheduleValidationError ''weekly_availability_schedule_limit_exceeded'')
      else bindR (mapR createWeeklyAvailabilityWindow ws) (\<lambda>created.
           let canonicalWindows = js_sort compareWindows created in
           bindR (rejectOverlappingWindows canonicalWindows) (\<lambda>_.
           Inr \<lparr>windows = canonicalWindows\<rparr>)))"
| "createWeeklyAvailabilitySchedule _ =
     Inl (ServiceScheduleValidationError ''invalid_weekly_availability_window'')"

section \<open>Time zones, modes and policies\<close>

definition SERVICE_SCHEDULE_TIMEZONES :: "string list" where
  "SERVICE_SCHEDULE_TIMEZONES = [''America/Sao_Paulo'']"

definition createServiceScheduleTimezone :: "jsval \<Rightarrow> string result" where
  "createServiceScheduleTimezone value =
     (case find (\<lambda>tz. value = JStr tz) SERVICE_SCHEDULE_TIMEZONES of
        None \<Rightarrow> Inl ServiceScheduleTimezoneValidationError
      | Some tz \<Rightarrow> Inr tz)"

datatype ServiceAvailabilityMode = always | scheduled | manual | disabled

definition SERVICE_AVAILABILITY_MODES :: "ServiceAvailabilityMode list" where
  "SERVICE_AVAILABILITY_MODES = [always, scheduled, manual, disabled]"

fun mode_string :: "ServiceAvailabilityMode \<Rightarrow> string" where
  "mode_string always = ''always''"
| "mode_string scheduled = ''scheduled''"
| "mode_string manual = ''manual''"
| "mode_string disabled = ''disabled''"

definition createServiceAvailabilityMode :: "jsval \<Rightarrow> ServiceAvailabilityMode result" where
  "createServiceAvailabilityMode value =
     (case find (\<lambda>m. value = JStr (mode_string m)) SERVICE_AVAILABILITY_MODES of
        None \<Rightarrow> Inl (ServiceAvailabilityModeValidationError ''invalid_availability_mode'')
      | Some m \<Rightarrow> Inr m)"

text \<open>
  A policy is a mode with, for the scheduled mode only, a time zone and a schedule.
\<close>

datatype ServiceAvailabilityPolicy =
    AlwaysPolicy
  | ManualPolicy
  | DisabledPolicy
  | ScheduledPolicy string WeeklyAvailabilitySchedule

fun policy_mode :: "ServiceAvailabilityPolicy \<Rightarrow> ServiceAvailabilityMode" where
  "policy_mode AlwaysPolicy = always"
| "policy_mode ManualPolicy = manual"
| "policy_mode DisabledPolicy = disabled"
| "policy_mode (ScheduledPolicy _ _) = scheduled"

definition NON_SCHEDULED_POLICY_FIELDS :: "string list" where
  "NON_SCHEDULED_POLICY_FIELDS = [''mode'']"

definition SCHEDULED_POLICY_FIELDS :: "string list" where
  "SCHEDULED_POLICY_FIELDS = [''mode'', ''timezone'', ''windows'']"

definition createServiceAvailabilityPolicy :: "jsval \<Rightarrow> ServiceAvailabilityPolicy result" where
  "createServiceAvailabilityPolicy input =
     (if \<not> is_object input \<or> \<not> has_own input ''mode''
      then Inl ServiceAvailabilityPolicyValidationError
      else bindR (createServiceAvailabilityMode (get_prop input ''mode'')) (\<lambda>m.
        if m \<noteq> scheduled
        then (if \<not> hasExactFields input NON_SCHEDULED_POLICY_FIELDS
              then Inl ServiceAvailabilityPolicyValidationError
              else Inr (case m of always \<Rightarrow> AlwaysPolicy | manual \<Rightarrow> ManualPolicy
                                | _ \<Rightarrow> DisabledPolicy))
        else if \<not> hasExactFields input SCHEDULED_POLICY_FIELDS \<or>
                get_prop input ''timezone'' = JUndefined \<or> get_prop input ''windows'' = JUndefined
        then Inl ServiceAvailabilityPolicyValidationError
        else bindR (createServiceScheduleTimezone (get_prop input ''timezone'')) (\<lambda>tz.
             bindR (createWeeklyAvailabilitySchedule (get_prop input ''windows'')) (\<lambda>s.
             Inr (ScheduledPolicy tz s)))))"

text \<open>
  The value a policy is serialised to before it is validated again
  (\<open>serializeAvailabilityPolicy\<close> of \<open>registered-service.ts\<close>); the windows of a schedule are
  objects with the three fields.
\<close>

definition window_value :: "WeeklyAvailabilityWindow \<Rightarrow> jsval" where
  "window_value w = literal_obj [(''weekday'', JStr (weekday_string (weekday w))),
     (''start'', JStr (window_start w)), (''end'', JStr (window_end w))]"

fun serializeAvailabilityPolicy :: "ServiceAvailabilityPolicy \<Rightarrow> jsval" where
  "serializeAvailabilityPolicy (ScheduledPolicy tz s) =
     literal_obj [(''mode'', JStr (mode_string scheduled)), (''timezone'', JStr tz),
       (''windows'', JArr (map window_value (windows s)))]"
| "serializeAvailabilityPolicy p = literal_obj [(''mode'', JStr (mode_string (policy_mode p)))]"

section \<open>The invariant of schedules\<close>

definition wf_window :: "WeeklyAvailabilityWindow \<Rightarrow> bool" where
  "wf_window w \<longleftrightarrow> LOCAL_TIME_PATTERN (window_start w) \<and> LOCAL_TIME_PATTERN (window_end w) \<and>
     window_start w < window_end w"

text \<open>\<open>apart v w\<close>: \<open>v\<close> comes before \<open>w\<close> in the week and they do not overlap.\<close>

definition apart :: "WeeklyAvailabilityWindow \<Rightarrow> WeeklyAvailabilityWindow \<Rightarrow> bool" where
  "apart v w \<longleftrightarrow> getWeekdayOrder (weekday v) < getWeekdayOrder (weekday w) \<or>
     weekday v = weekday w \<and> window_end v \<le> window_start w"

definition wf_schedule :: "WeeklyAvailabilitySchedule \<Rightarrow> bool" where
  "wf_schedule s \<longleftrightarrow> 1 \<le> length (windows s) \<and> length (windows s) \<le> MAXIMUM_WEEKLY_WINDOWS \<and>
     list_all wf_window (windows s) \<and> sorted_wrt apart (windows s)"

fun wf_policy :: "ServiceAvailabilityPolicy \<Rightarrow> bool" where
  "wf_policy (ScheduledPolicy tz s) \<longleftrightarrow> tz \<in> set SERVICE_SCHEDULE_TIMEZONES \<and> wf_schedule s"
| "wf_policy _ \<longleftrightarrow> True"

text \<open>Two windows overlap when some local time of some day lies in both.\<close>

definition overlap :: "WeeklyAvailabilityWindow \<Rightarrow> WeeklyAvailabilityWindow \<Rightarrow> bool" where
  "overlap v w \<longleftrightarrow> weekday v = weekday w \<and> window_start v < window_end w \<and> window_start w < window_end v"

section \<open>What the constructors accept\<close>

lemma getWeekdayOrder_inject [simp]: "getWeekdayOrder d = getWeekdayOrder d' \<longleftrightarrow> d = d'"
  by (cases d; cases d') auto

lemma createServiceScheduleWeekday_string [simp]:
  "createServiceScheduleWeekday (JStr (weekday_string d)) = Inr d"
  by (cases d) (simp_all add: createServiceScheduleWeekday_def SERVICE_SCHEDULE_WEEKDAYS_def)

lemma createServiceScheduleWeekday_Inr:
  "createServiceScheduleWeekday v = Inr d \<longleftrightarrow> v = JStr (weekday_string d)"
  by (auto simp: createServiceScheduleWeekday_def split: option.splits dest: find_SomeD)
    (use createServiceScheduleWeekday_string[of d] in \<open>simp_all add: createServiceScheduleWeekday_def\<close>)

lemma createServiceScheduleLocalTime_Inr:
  "createServiceScheduleLocalTime v = Inr t \<longleftrightarrow> v = JStr t \<and> LOCAL_TIME_PATTERN t"
  by (cases v) auto

lemma createWeeklyAvailabilityWindow_wf:
  "createWeeklyAvailabilityWindow v = Inr w \<Longrightarrow> wf_window w"
  by (auto simp: createWeeklyAvailabilityWindow_def wf_window_def result_simps
      createServiceScheduleLocalTime_Inr split: if_splits)

lemma createWeeklyAvailabilityWindow_value:
  "wf_window w \<Longrightarrow> createWeeklyAvailabilityWindow (window_value w) = Inr w"
  by (simp add: createWeeklyAvailabilityWindow_def window_value_def literal_obj_def wf_window_def
      hasExactWindowShape_def hasExactFields_def WINDOW_FIELDS_def has_own_def not_le)

section \<open>Sorting and overlap\<close>

lemma compareWindows_le:
  "compareWindows v w \<le> 0 \<longleftrightarrow>
     getWeekdayOrder (weekday v) < getWeekdayOrder (weekday w) \<or> weekday v = weekday w \<and>
     (window_start v < window_start w \<or> window_start v = window_start w \<and> window_end v \<le> window_end w)"
proof (cases "weekday v = weekday w")
  case False
  then show ?thesis by (simp add: compareWindows_def Let_def order_le_less)
qed (auto simp: compareWindows_def compareCanonicalValues_def Let_def)

lemma consistent_compareWindows: "consistent_comparator compareWindows"
  unfolding consistent_comparator_def compareWindows_le
proof (intro conjI allI impI)
  fix v w :: WeeklyAvailabilityWindow
  show "(getWeekdayOrder (weekday v) < getWeekdayOrder (weekday w) \<or> weekday v = weekday w \<and>
      (window_start v < window_start w \<or> window_start v = window_start w \<and> window_end v \<le> window_end w)) \<or>
    (getWeekdayOrder (weekday w) < getWeekdayOrder (weekday v) \<or> weekday w = weekday v \<and>
      (window_start w < window_start v \<or> window_start w = window_start v \<and> window_end w \<le> window_end v))"
    by (metis getWeekdayOrder_inject linorder_less_linear linear)
qed (auto)

lemma apart_trans: "apart u v \<Longrightarrow> apart v w \<Longrightarrow> wf_window v \<Longrightarrow> apart u w"
  by (auto simp: apart_def wf_window_def)

lemma overlap_sym: "overlap v w \<longleftrightarrow> overlap w v"
  by (auto simp: overlap_def)

lemma apart_iff:
  "wf_window v \<Longrightarrow> wf_window w \<Longrightarrow> apart v w \<longleftrightarrow> compareWindows v w \<le> 0 \<and> \<not> overlap v w"
  unfolding apart_def compareWindows_le overlap_def wf_window_def by auto

lemma reject_iff_apart:
  assumes "sorted_wrt (\<lambda>v w. compareWindows v w \<le> 0) ws" and "list_all wf_window ws"
  shows "rejectOverlappingWindows ws = Inr () \<longleftrightarrow> sorted_wrt apart ws"
  using assms
proof (induction ws rule: rejectOverlappingWindows.induct)
  case (1 v w ws)
  have step: "apart v w \<longleftrightarrow> \<not> (weekday v = weekday w \<and> window_start w < window_end v)"
    using 1(2) by (auto simp: apart_def compareWindows_le)
  have "apart v x" if "apart v w" "x \<in> set ws" "sorted_wrt apart (w # ws)" for x
    using that 1(3) apart_trans[of v w x] by simp
  then show ?case using 1 step by auto
qed auto

lemma sorted_wrt_symmetric_insert:
  assumes "\<And>x y. R x y \<longleftrightarrow> R y x"
  shows "sorted_wrt R (js_insert cmp x xs) \<longleftrightarrow> sorted_wrt R (x # xs)"
  using assms by (induction xs) auto

lemma sorted_wrt_symmetric_sort:
  assumes "\<And>x y. R x y \<longleftrightarrow> R y x"
  shows "sorted_wrt R (js_sort cmp xs) \<longleftrightarrow> sorted_wrt R xs"
  using assms by (induction xs) (auto simp: sorted_wrt_symmetric_insert)

lemma sorted_wrt_apart_iff:
  assumes "list_all wf_window ws"
  shows "sorted_wrt apart ws \<longleftrightarrow>
    sorted_wrt (\<lambda>v w. compareWindows v w \<le> 0) ws \<and> sorted_wrt (\<lambda>v w. \<not> overlap v w) ws"
  using assms by (induction ws) (auto simp: list_all_iff apart_iff)

lemma created_windows_wf: "mapR createWeeklyAvailabilityWindow vs = Inr ws \<Longrightarrow> list_all wf_window ws"
  by (auto simp: list_all_iff elim!: mapR_set dest: createWeeklyAvailabilityWindow_wf)

lemma reject_sorted_iff:
  assumes "list_all wf_window ws"
  shows "rejectOverlappingWindows (js_sort compareWindows ws) = Inr () \<longleftrightarrow>
    sorted_wrt (\<lambda>v w. \<not> overlap v w) ws"
proof -
  define us where "us = js_sort compareWindows ws"
  have wf: "list_all wf_window us" using assms by (simp add: us_def list_all_iff)
  have sorted: "sorted_wrt (\<lambda>v w. compareWindows v w \<le> 0) us"
    unfolding us_def by (rule sorted_js_sort[OF consistent_compareWindows])
  have "sorted_wrt (\<lambda>v w. \<not> overlap v w) us \<longleftrightarrow> sorted_wrt (\<lambda>v w. \<not> overlap v w) ws"
    unfolding us_def by (rule sorted_wrt_symmetric_sort) (simp add: overlap_sym)
  with reject_iff_apart[OF sorted wf] sorted_wrt_apart_iff[OF wf] sorted show ?thesis
    by (simp add: us_def)
qed

lemma reject_created_iff:
  "mapR createWeeklyAvailabilityWindow vs = Inr ws \<Longrightarrow>
     rejectOverlappingWindows (js_sort compareWindows ws) = Inr () \<longleftrightarrow>
     sorted_wrt (\<lambda>v w. \<not> overlap v w) ws"
  by (rule reject_sorted_iff) (rule created_windows_wf)

lemma createWeeklyAvailabilitySchedule_Inr:
  "createWeeklyAvailabilitySchedule v = Inr s \<longleftrightarrow>
     (\<exists>vs ws. v = JArr vs \<and> vs \<noteq> [] \<and> length vs \<le> MAXIMUM_WEEKLY_WINDOWS \<and>
        mapR createWeeklyAvailabilityWindow vs = Inr ws \<and> sorted_wrt (\<lambda>v w. \<not> overlap v w) ws \<and>
        s = \<lparr>windows = js_sort compareWindows ws\<rparr>)"
  by (cases v) (auto simp: result_simps Let_def reject_created_iff)

declare createWeeklyAvailabilitySchedule.simps [simp del]

lemma createWeeklyAvailabilitySchedule_wf:
  assumes "createWeeklyAvailabilitySchedule v = Inr s"
  shows "wf_schedule s"
proof -
  from assms obtain vs ws where v: "vs \<noteq> []" "length vs \<le> MAXIMUM_WEEKLY_WINDOWS"
    "mapR createWeeklyAvailabilityWindow vs = Inr ws" "sorted_wrt (\<lambda>v w. \<not> overlap v w) ws"
    and s: "s = \<lparr>windows = js_sort compareWindows ws\<rparr>"
    by (auto simp: createWeeklyAvailabilitySchedule_Inr)
  have wf: "list_all wf_window (js_sort compareWindows ws)"
    using created_windows_wf[OF v(3)] by (simp add: list_all_iff)
  have "sorted_wrt apart (js_sort compareWindows ws)"
    using sorted_wrt_apart_iff[OF wf] sorted_js_sort[OF consistent_compareWindows]
      sorted_wrt_symmetric_sort[of "\<lambda>v w. \<not> overlap v w" compareWindows ws] v(4) overlap_sym
    by blast
  then show ?thesis
    using wf v mapR_length[OF v(3)] by (cases vs) (auto simp: wf_schedule_def s)
qed

lemma createWeeklyAvailabilitySchedule_value:
  assumes "wf_schedule s"
  shows "createWeeklyAvailabilitySchedule (JArr (map window_value (windows s))) = Inr s"
proof -
  have wf: "list_all wf_window (windows s)" and ap: "sorted_wrt apart (windows s)"
    using assms by (simp_all add: wf_schedule_def)
  have "mapR createWeeklyAvailabilityWindow (map window_value (windows s)) = Inr (windows s)"
    using wf by (auto simp: mapR_eq_Inr list_all2_conv_all_nth list_all_length
        createWeeklyAvailabilityWindow_value)
  moreover have "js_sort compareWindows (windows s) = windows s"
    using sorted_wrt_apart_iff[OF wf] ap by (simp add: js_sort_sorted)
  ultimately show ?thesis
    using assms sorted_wrt_apart_iff[OF wf] ap
    by (auto simp: createWeeklyAvailabilitySchedule_Inr wf_schedule_def)
qed

lemma createServiceAvailabilityMode_Inr:
  "createServiceAvailabilityMode v = Inr m \<longleftrightarrow> v = JStr (mode_string m)"
  by (cases m; cases v)
    (auto simp: createServiceAvailabilityMode_def SERVICE_AVAILABILITY_MODES_def split: if_splits)

lemma createServiceScheduleTimezone_Inr:
  "createServiceScheduleTimezone v = Inr tz \<longleftrightarrow> v = JStr tz \<and> tz \<in> set SERVICE_SCHEDULE_TIMEZONES"
  by (auto simp: createServiceScheduleTimezone_def SERVICE_SCHEDULE_TIMEZONES_def split: if_splits)

lemma createServiceAvailabilityPolicy_wf:
  "createServiceAvailabilityPolicy v = Inr p \<Longrightarrow> wf_policy p"
  by (auto simp: createServiceAvailabilityPolicy_def result_simps createServiceScheduleTimezone_Inr
      dest: createWeeklyAvailabilitySchedule_wf split: if_splits ServiceAvailabilityMode.splits)

lemma createServiceAvailabilityPolicy_serialize:
  "wf_policy p \<Longrightarrow> createServiceAvailabilityPolicy (serializeAvailabilityPolicy p) = Inr p"
proof (cases p)
  case (ScheduledPolicy tz s)
  assume "wf_policy p"
  then have "createServiceScheduleTimezone (JStr tz) = Inr tz"
    and "createWeeklyAvailabilitySchedule (JArr (map window_value (windows s))) = Inr s"
    using ScheduledPolicy
    by (simp_all add: createServiceScheduleTimezone_Inr createWeeklyAvailabilitySchedule_value)
  then show ?thesis
    using createServiceAvailabilityMode_Inr[of "JStr ''scheduled''" scheduled]
    by (simp add: ScheduledPolicy createServiceAvailabilityPolicy_def literal_obj_def has_own_def
        hasExactFields_def SCHEDULED_POLICY_FIELDS_def)
qed (simp_all add: createServiceAvailabilityPolicy_def literal_obj_def has_own_def
    createServiceAvailabilityMode_def SERVICE_AVAILABILITY_MODES_def
    hasExactFields_def NON_SCHEDULED_POLICY_FIELDS_def)

section \<open>Properties\<close>

text \<open>
  C31. A schedule is accepted exactly for an array of one to 64 valid windows no two of which
  overlap, in any order, although the code compares neighbours only; the accepted schedule holds
  the windows sorted and satisfies the schedule invariant.
\<close>

theorem schedule_accepts_disjoint_windows:
  assumes "mapR createWeeklyAvailabilityWindow vs = Inr ws"
  shows "((\<exists>s. createWeeklyAvailabilitySchedule (JArr vs) = Inr s) \<longleftrightarrow>
      vs \<noteq> [] \<and> length vs \<le> MAXIMUM_WEEKLY_WINDOWS \<and> sorted_wrt (\<lambda>v w. \<not> overlap v w) ws) \<and>
    (createWeeklyAvailabilitySchedule (JArr vs) = Inr s \<longrightarrow>
      wf_schedule s \<and> windows s = js_sort compareWindows ws)"
  using assms createWeeklyAvailabilitySchedule_wf[of "JArr vs" s]
  by (auto simp: createWeeklyAvailabilitySchedule_Inr)

theorem schedule_accepts_disjoint_windows_witness:
  "\<exists>s. createWeeklyAvailabilitySchedule (JArr
     [window_value \<lparr>weekday = friday, window_start = ''08:00'', window_end = ''12:00''\<rparr>,
      window_value \<lparr>weekday = monday, window_start = ''08:00'', window_end = ''12:00''\<rparr>,
      window_value \<lparr>weekday = friday, window_start = ''12:00'', window_end = ''23:59''\<rparr>]) = Inr s"
proof -
  let ?ws = "[\<lparr>weekday = friday, window_start = ''08:00'', window_end = ''12:00''\<rparr>,
      \<lparr>weekday = monday, window_start = ''08:00'', window_end = ''12:00''\<rparr>,
      \<lparr>weekday = friday, window_start = ''12:00'', window_end = ''23:59''\<rparr>]"
  have "mapR createWeeklyAvailabilityWindow (map window_value ?ws) = Inr ?ws" by code_simp
  moreover have "sorted_wrt (\<lambda>v w. \<not> overlap v w) ?ws" by (simp add: overlap_def)
  moreover have "map window_value ?ws \<noteq> []" "length (map window_value ?ws) \<le> MAXIMUM_WEEKLY_WINDOWS"
    by (simp_all add: MAXIMUM_WEEKLY_WINDOWS_def)
  ultimately have "\<exists>s. createWeeklyAvailabilitySchedule (JArr (map window_value ?ws)) = Inr s"
    using schedule_accepts_disjoint_windows by blast
  then show ?thesis by simp
qed

text \<open>
  Serialising an accepted availability policy and validating the result gives the policy
  back.
\<close>

theorem policy_round_trip:
  assumes "createServiceAvailabilityPolicy v = Inr p"
  shows "createServiceAvailabilityPolicy (serializeAvailabilityPolicy p) = Inr p"
  using createServiceAvailabilityPolicy_wf[OF assms] by (rule createServiceAvailabilityPolicy_serialize)

theorem policy_round_trip_witness:
  "createServiceAvailabilityPolicy (serializeAvailabilityPolicy ManualPolicy) = Inr ManualPolicy"
proof (rule policy_round_trip)
  show "createServiceAvailabilityPolicy (literal_obj [(''mode'', JStr ''manual'')]) = Inr ManualPolicy"
    by code_simp
qed

end
