(* ===== verification/Iso_Date.thy ===== *)
theory Iso_Date
  imports Prelude
begin

text \<open>
  Dates as the program uses them: time values in milliseconds since the epoch, the clipping
  of \<open>new Date(n)\<close>, \<open>toISOString\<close>, \<open>Date.parse\<close> on the strings \<open>toISOString\<close> produces,
  and the UTC field readers. Every timestamp the program stores or compares is such a
  string ("canonical"), and much of the program compares them as strings, so the central
  facts are that parsing inverts printing and that the string order is the time order on
  the years 0 to 9999. Time values stay below \<open>2 ^ 53\<close>, where doubles are exact integers.
\<close>

section \<open>The proleptic Gregorian calendar, as ECMAScript defines it\<close>

definition DayFromYear :: "int \<Rightarrow> int" where
  "DayFromYear y = 365 * (y - 1970) + (y - 1969) div 4 - (y - 1901) div 100 + (y - 1601) div 400"

definition leap_year :: "int \<Rightarrow> bool" where
  "leap_year y \<longleftrightarrow> y mod 4 = 0 \<and> (y mod 100 \<noteq> 0 \<or> y mod 400 = 0)"

definition YearFromDay :: "int \<Rightarrow> int" where
  "YearFromDay d =
     (let e = 1970 + (400 * d) div 146097
      in if d < DayFromYear e then e - 1
         else if DayFromYear (e + 1) \<le> d then e + 1 else e)"

definition leap_offset :: "bool \<Rightarrow> int" where
  "leap_offset l = (if l then 1 else 0)"

definition MonthStart :: "bool \<Rightarrow> int \<Rightarrow> int" where
  "MonthStart l m =
     (if m = 1 then 0 else if m = 2 then 31
      else leap_offset l +
        (if m = 3 then 59 else if m = 4 then 90 else if m = 5 then 120 else if m = 6 then 151
         else if m = 7 then 181 else if m = 8 then 212 else if m = 9 then 243
         else if m = 10 then 273 else if m = 11 then 304 else 334))"

text \<open>The month of a day of the year: one more than the later months that have begun.\<close>

definition passed :: "int \<Rightarrow> int \<Rightarrow> int" where
  "passed b yd = (if b \<le> yd then 1 else 0)"

definition MonthFromYearDay :: "bool \<Rightarrow> int \<Rightarrow> int" where
  "MonthFromYearDay l yd =
     1 + passed 31 yd +
     sum_list (map (\<lambda>b. passed (b + leap_offset l) yd)
       [59, 90, 120, 151, 181, 212, 243, 273, 304, 334])"

record civil =
  cYear :: int
  cMonth :: int
  cDate :: int

definition civil_of_day :: "int \<Rightarrow> civil" where
  "civil_of_day d =
     (let y = YearFromDay d; l = leap_year y; yd = d - DayFromYear y; m = MonthFromYearDay l yd
      in \<lparr>cYear = y, cMonth = m, cDate = yd - MonthStart l m + 1\<rparr>)"

definition day_of_civil :: "civil \<Rightarrow> int" where
  "day_of_civil c =
     DayFromYear (cYear c) + MonthStart (leap_year (cYear c)) (cMonth c) + cDate c - 1"

section \<open>Printing and parsing\<close>

definition dig :: "int \<Rightarrow> char" where
  "dig n = char_of (48 + n)"

definition undig :: "char \<Rightarrow> int option" where
  "undig c = (let n = of_char c - 48 in if 0 \<le> n \<and> n < 10 then Some n else None)"

text \<open>\<open>pad k n\<close>: the last \<open>k\<close> decimal digits of \<open>n\<close>, most significant first.\<close>

fun pad :: "nat \<Rightarrow> int \<Rightarrow> string" where
  "pad 0 n = []"
| "pad (Suc k) n = pad k (n div 10) @ [dig (n mod 10)]"

fun unpad_acc :: "int \<Rightarrow> string \<Rightarrow> int option" where
  "unpad_acc acc [] = Some acc"
| "unpad_acc acc (c # cs) =
     (case undig c of None \<Rightarrow> None | Some d \<Rightarrow> unpad_acc (10 * acc + d) cs)"

definition unpad :: "string \<Rightarrow> int option" where
  "unpad cs = unpad_acc 0 cs"

definition year_string :: "int \<Rightarrow> string" where
  "year_string y =
     (if 0 \<le> y \<and> y \<le> 9999 then pad 4 y
      else if y < 0 then CHR ''-'' # pad 6 (- y) else CHR ''+'' # pad 6 y)"

definition msPerDay :: int where
  "msPerDay = 86400000"

definition tail_fields :: "int \<Rightarrow> int \<Rightarrow> int \<Rightarrow> int \<Rightarrow> int \<Rightarrow> int \<Rightarrow> string" where
  "tail_fields m dd h mi s ms =
     CHR ''-'' # pad 2 m @ CHR ''-'' # pad 2 dd @ CHR ''T'' # pad 2 h @
     CHR '':'' # pad 2 mi @ CHR '':'' # pad 2 s @ CHR ''.'' # pad 3 ms @ ''Z''"

definition tail_string :: "int \<Rightarrow> int \<Rightarrow> int \<Rightarrow> string" where
  "tail_string m dd tod =
     tail_fields m dd (tod div 3600000) (tod div 60000 mod 60) (tod div 1000 mod 60) (tod mod 1000)"

text \<open>\<open>Date.prototype.toISOString\<close> on a valid time value.\<close>

definition iso :: "int \<Rightarrow> string" where
  "iso t =
     (let c = civil_of_day (t div msPerDay)
      in year_string (cYear c) @ tail_string (cMonth c) (cDate c) (t mod msPerDay))"

definition max_time :: int where
  "max_time = 8640000000000000"

text \<open>\<open>new Date(n)\<close> for an integral \<open>n\<close> (TimeClip).\<close>

definition new_date :: "int \<Rightarrow> int option" where
  "new_date n = (if \<bar>n\<bar> \<le> max_time then Some n else None)"

definition toISOString :: "int option \<Rightarrow> string result" where
  "toISOString d = (case d of None \<Rightarrow> Inl RangeError | Some t \<Rightarrow> Inr (iso t))"

text \<open>
  \<open>Date.parse\<close> restricted to canonical strings: the time value of the string's fields when
  printing it gives the string back, and \<^const>\<open>None\<close> for every other string. The program only
  parses strings that it also compares with \<open>toISOString()\<close> of the result, or that passed
  such a comparison before, so what \<open>Date.parse\<close> makes of other strings never matters.
\<close>

definition time_of_fields :: "int \<Rightarrow> int \<Rightarrow> int \<Rightarrow> int \<Rightarrow> int \<Rightarrow> int \<Rightarrow> int \<Rightarrow> int" where
  "time_of_fields y m dd h mi s ms =
     day_of_civil \<lparr>cYear = y, cMonth = m, cDate = dd\<rparr> * msPerDay +
     h * 3600000 + mi * 60000 + s * 1000 + ms"

definition split_year :: "string \<Rightarrow> (int \<times> string) option" where
  "split_year v =
     (case v of
        [] \<Rightarrow> None
      | c # cs \<Rightarrow>
          if c = CHR ''-'' then map_option (\<lambda>y. (- y, drop 6 cs)) (unpad (take 6 cs))
          else if c = CHR ''+'' then map_option (\<lambda>y. (y, drop 6 cs)) (unpad (take 6 cs))
          else map_option (\<lambda>y. (y, drop 4 v)) (unpad (take 4 v)))"

definition parse_tail :: "string \<Rightarrow> (int \<times> int \<times> int \<times> int \<times> int \<times> int) option" where
  "parse_tail r =
     (case (unpad (take 2 (drop 1 r)), unpad (take 2 (drop 4 r)), unpad (take 2 (drop 7 r)),
            unpad (take 2 (drop 10 r)), unpad (take 2 (drop 13 r)), unpad (take 3 (drop 16 r))) of
        (Some m, Some dd, Some h, Some mi, Some s, Some ms) \<Rightarrow> Some (m, dd, h, mi, s, ms)
      | _ \<Rightarrow> None)"

definition candidate_time :: "string \<Rightarrow> int option" where
  "candidate_time v =
     (case split_year v of
        None \<Rightarrow> None
      | Some (y, r) \<Rightarrow>
          (case parse_tail r of
             None \<Rightarrow> None
           | Some (m, dd, h, mi, s, ms) \<Rightarrow> Some (time_of_fields y m dd h mi s ms)))"

definition date_parse :: "string \<Rightarrow> int option" where
  "date_parse v =
     (case candidate_time v of
        None \<Rightarrow> None
      | Some t \<Rightarrow> if \<bar>t\<bar> \<le> max_time \<and> iso t = v then Some t else None)"

text \<open>The test of \<open>power-management/domain/canonical-timestamp.ts\<close>, repeated by every module
  that accepts a timestamp.\<close>

fun isCanonicalTimestamp :: "jsval \<Rightarrow> bool" where
  "isCanonicalTimestamp (JStr v) = (date_parse v \<noteq> None)"
| "isCanonicalTimestamp _ = False"

definition canonical :: "string \<Rightarrow> bool" where
  "canonical v \<longleftrightarrow> date_parse v \<noteq> None"

text \<open>The time value of a canonical string.\<close>

definition time_of :: "string \<Rightarrow> int" where
  "time_of v = (case date_parse v of Some t \<Rightarrow> t | None \<Rightarrow> 0)"

definition getUTCSeconds :: "int \<Rightarrow> int" where
  "getUTCSeconds t = t div 1000 mod 60"

definition getUTCMilliseconds :: "int \<Rightarrow> int" where
  "getUTCMilliseconds t = t mod 1000"

section \<open>The calendar functions are inverse to each other\<close>

lemma div_lower: "0 < n \<Longrightarrow> n * (a div n) \<le> a" for a n :: int
  using mult_div_mod_eq[of n a] pos_mod_sign[of n a] by linarith

lemma div_upper: "0 < n \<Longrightarrow> a + 1 \<le> n * (a div n) + n" for a n :: int
  using mult_div_mod_eq[of n a] pos_mod_bound[of n a] by linarith

lemma DayFromYear_1970:
  "DayFromYear (1970 + j) = 365 * j + (j + 1) div 4 - (j + 69) div 100 + (j + 369) div 400"
  by (simp add: DayFromYear_def algebra_simps)

lemma DayFromYear_bounds:
  "400 * DayFromYear (1970 + j) \<le> 146097 * j + 589"
  "146097 * j - 506 \<le> 400 * DayFromYear (1970 + j)"
proof -
  have "4 * ((j + 1) div 4) \<le> j + 1" "j + 1 + 1 \<le> 4 * ((j + 1) div 4) + 4"
    "100 * ((j + 69) div 100) \<le> j + 69" "j + 69 + 1 \<le> 100 * ((j + 69) div 100) + 100"
    "400 * ((j + 369) div 400) \<le> j + 369" "j + 369 + 1 \<le> 400 * ((j + 369) div 400) + 400"
    by (rule div_lower div_upper, simp)+
  moreover define p q r where "p = (j + 1) div 4" and "q = (j + 69) div 100" and "r = (j + 369) div 400"
  ultimately have "400 * (365 * j + p - q + r) \<le> 146097 * j + 589"
    and "146097 * j - 506 \<le> 400 * (365 * j + p - q + r)"
    by simp_all
  then show "400 * DayFromYear (1970 + j) \<le> 146097 * j + 589"
    and "146097 * j - 506 \<le> 400 * DayFromYear (1970 + j)"
    by (simp_all only: DayFromYear_1970 p_def q_def r_def)
qed

lemma YearFromDay_bounds:
  "DayFromYear (YearFromDay d) \<le> d \<and> d < DayFromYear (YearFromDay d + 1)"
proof -
  define k where "k = (400 * d) div 146097"
  have k: "146097 * k \<le> 400 * d" "400 * d + 1 \<le> 146097 * k + 146097"
    unfolding k_def by (rule div_lower div_upper, simp)+
  define e where "e = 1970 + k"
  have "DayFromYear (e - 1) \<le> d"
    using DayFromYear_bounds(1)[of "k - 1"] k by (simp add: e_def algebra_simps)
  moreover have "d < DayFromYear (e + 1 + 1)"
    using DayFromYear_bounds(2)[of "k + 2"] k by (simp add: e_def algebra_simps)
  ultimately show ?thesis
    unfolding YearFromDay_def k_def[symmetric] e_def[symmetric] Let_def by (auto split: if_splits)
qed

lemma div_add_one:
  fixes a n :: int
  assumes "0 < n"
  shows "(a + 1) div n = a div n + (if (a + 1) mod n = 0 then 1 else 0)"
proof -
  define q r where "q = a div n" and "r = a mod n"
  have a: "a = n * q + r" and r: "0 \<le> r" "r < n"
    using assms by (simp_all add: q_def r_def)
  show ?thesis
  proof (cases "r + 1 = n")
    case True
    then have "a + 1 = n * (q + 1)" using a by (simp add: algebra_simps)
    then show ?thesis using assms by (simp add: q_def)
  next
    case False
    then have "(a + 1) div n = q \<and> (a + 1) mod n = r + 1"
      using a r by (simp add: int_div_pos_eq[of _ n q "r + 1"] int_mod_pos_eq[of _ n q "r + 1"])
    then show ?thesis using r by (simp add: q_def)
  qed
qed

lemma leap_offset_indicators:
  "leap_offset (leap_year y) =
     (if y mod 4 = 0 then 1 else 0) - (if y mod 100 = 0 then 1 else 0) + (if y mod 400 = 0 then 1 else 0)"
proof -
  have "y mod 400 = 0 \<Longrightarrow> y mod 100 = 0" "y mod 100 = 0 \<Longrightarrow> y mod 4 = 0"
    by (auto simp: dvd_eq_mod_eq_0[symmetric] intro: dvd_trans)
  then show ?thesis
    unfolding leap_offset_def leap_year_def
    by (cases "y mod 4 = 0"; cases "y mod 100 = 0"; cases "y mod 400 = 0") simp_all
qed

lemma DayFromYear_Suc: "DayFromYear (y + 1) = DayFromYear y + 365 + leap_offset (leap_year y)"
proof -
  have m: "(y - 1969 + 1) mod 4 = y mod 4" "(y - 1901 + 1) mod 100 = y mod 100"
    "(y - 1601 + 1) mod 400 = y mod 400"
    by (simp, subst mod_diff_right_eq[symmetric], simp)+
  have "y + 1 - 1970 = y - 1970 + 1" "y + 1 - 1969 = y - 1969 + 1" "y + 1 - 1901 = y - 1901 + 1"
    "y + 1 - 1601 = y - 1601 + 1" by simp_all
  then show ?thesis
    unfolding DayFromYear_def leap_offset_indicators
    by (simp only: div_add_one[OF zero_less_numeral] m) (simp only: algebra_simps)
qed

lemma DayFromYear_mono: "y < y' \<Longrightarrow> DayFromYear (y + 1) \<le> DayFromYear y'"
proof -
  assume "y < y'"
  then obtain n where n: "y' = y + 1 + int n"
    by (metis zle_iff_zadd zless_imp_add1_zle)
  have "DayFromYear (y + 1) \<le> DayFromYear (y + 1 + int n)"
  proof (induction n)
    case (Suc n)
    have "DayFromYear (y + 1 + int (Suc n)) = DayFromYear ((y + 1 + int n) + 1)"
      by (simp add: algebra_simps)
    then show ?case using Suc DayFromYear_Suc[of "y + 1 + int n"] by (simp add: leap_offset_def)
  qed simp
  then show ?thesis using n by simp
qed

lemma YearFromDay_unique:
  "DayFromYear y \<le> d \<Longrightarrow> d < DayFromYear (y + 1) \<Longrightarrow> YearFromDay d = y"
  using YearFromDay_bounds[of d] DayFromYear_mono[of y "YearFromDay d"]
    DayFromYear_mono[of "YearFromDay d" y] by (cases "YearFromDay d" y rule: linorder_cases) auto

lemma YearFromDay_mono: "d \<le> d' \<Longrightarrow> YearFromDay d \<le> YearFromDay d'"
  using YearFromDay_bounds[of d] YearFromDay_bounds[of d']
    DayFromYear_mono[of "YearFromDay d'" "YearFromDay d"] by force

lemma day_of_civil_of_day: "day_of_civil (civil_of_day d) = d"
  by (simp add: day_of_civil_def civil_of_day_def Let_def)

lemma passed_mono: "yd \<le> yd' \<Longrightarrow> passed b yd \<le> passed b yd'"
  by (simp add: passed_def)

lemma MonthFromYearDay_mono: "yd \<le> yd' \<Longrightarrow> MonthFromYearDay l yd \<le> MonthFromYearDay l yd'"
  unfolding MonthFromYearDay_def by (intro add_mono sum_list_mono passed_mono) auto

lemma passed_range: "0 \<le> passed b yd" "passed b yd \<le> 1"
  by (simp_all add: passed_def)

lemma MonthFromYearDay_range: "1 \<le> MonthFromYearDay l yd" "MonthFromYearDay l yd \<le> 12"
  unfolding MonthFromYearDay_def
  using passed_range[of 31 yd] passed_range[of "59 + leap_offset l" yd]
    passed_range[of "90 + leap_offset l" yd] passed_range[of "120 + leap_offset l" yd]
    passed_range[of "151 + leap_offset l" yd] passed_range[of "181 + leap_offset l" yd]
    passed_range[of "212 + leap_offset l" yd] passed_range[of "243 + leap_offset l" yd]
    passed_range[of "273 + leap_offset l" yd] passed_range[of "304 + leap_offset l" yd]
    passed_range[of "334 + leap_offset l" yd]
  by simp_all

lemma MonthFromYearDay_date:
  assumes "0 \<le> yd" and "yd < 365 + leap_offset l"
  shows "0 \<le> yd - MonthStart l (MonthFromYearDay l yd) \<and>
    yd - MonthStart l (MonthFromYearDay l yd) < 31"
proof -
  define f where "f = leap_offset l"
  have f: "0 \<le> f" "f \<le> 1" by (simp_all add: f_def leap_offset_def)
  note defs = MonthFromYearDay_def MonthStart_def passed_def f_def[symmetric]
  show ?thesis
    using assms f unfolding f_def[symmetric]
    apply (cases "yd < 31", simp add: defs)
    apply (cases "yd < 59 + f", simp add: defs)
    apply (cases "yd < 90 + f", simp add: defs)
    apply (cases "yd < 120 + f", simp add: defs)
    apply (cases "yd < 151 + f", simp add: defs)
    apply (cases "yd < 181 + f", simp add: defs)
    apply (cases "yd < 212 + f", simp add: defs)
    apply (cases "yd < 243 + f", simp add: defs)
    apply (cases "yd < 273 + f", simp add: defs)
    apply (cases "yd < 304 + f", simp add: defs)
    apply (cases "yd < 334 + f", simp add: defs)
    by (simp add: defs)
qed

section \<open>Decimal fields\<close>

lemma undig_dig [simp]: "0 \<le> n \<Longrightarrow> n < 10 \<Longrightarrow> undig (dig n) = Some n"
  by (simp add: undig_def dig_def)

lemma length_pad [simp]: "length (pad k n) = k"
  by (induction k arbitrary: n) auto

lemma unpad_acc_append:
  "unpad_acc acc (xs @ ys) = (case unpad_acc acc xs of None \<Rightarrow> None | Some a \<Rightarrow> unpad_acc a ys)"
  by (induction xs arbitrary: acc) (auto split: option.splits)

lemma unpad_acc_pad: "unpad_acc acc (pad k n) = Some (10 ^ k * acc + n mod 10 ^ k)"
proof (induction k arbitrary: n)
  case (Suc k)
  have "n mod 10 ^ Suc k = 10 * (n div 10 mod 10 ^ k) + n mod 10"
    using mod_mult2_eq'[of n 10 "10 ^ k"] by (simp add: mult.commute)
  then show ?case by (simp add: unpad_acc_append Suc.IH algebra_simps)
qed simp

lemma unpad_pad [simp]: "0 \<le> n \<Longrightarrow> n < 10 ^ k \<Longrightarrow> unpad (pad k n) = Some n"
  by (simp add: unpad_def unpad_acc_pad)

lemma dig_less [simp]: "0 \<le> a \<Longrightarrow> a < 10 \<Longrightarrow> 0 \<le> b \<Longrightarrow> b < 10 \<Longrightarrow> dig a < dig b \<longleftrightarrow> a < b"
proof -
  assume "0 \<le> a" "a < 10" "0 \<le> b" "b < 10"
  moreover have "dig a < dig b \<longleftrightarrow> (of_char (dig a) :: int) < of_char (dig b)"
    by (simp only: less_char_def of_nat_of_char [where ?'a = int, symmetric] of_nat_less_iff)
  ultimately show ?thesis by (simp add: dig_def)
qed

lemma append_less_same_length:
  fixes xs ys :: "'a :: linorder list"
  assumes "length xs = length ys"
  shows "xs @ us < ys @ vs \<longleftrightarrow> xs < ys \<or> xs = ys \<and> us < vs"
  using assms by (induction xs ys rule: list_induct2) auto

lemma pad_less_imp:
  "0 \<le> n \<Longrightarrow> n < m \<Longrightarrow> m < 10 ^ k \<Longrightarrow> pad k n < pad k m"
proof (induction k arbitrary: n m)
  case (Suc k)
  from Suc.prems have "n div 10 \<le> m div 10" by (simp add: zdiv_mono1)
  moreover have "0 \<le> n div 10" "m div 10 < 10 ^ k" using Suc.prems by auto
  moreover have "n mod 10 < m mod 10" if "n div 10 = m div 10"
    using that Suc.prems mult_div_mod_eq[of 10 n] mult_div_mod_eq[of 10 m] by linarith
  ultimately show ?case
    using Suc.IH[of "n div 10" "m div 10"]
    by (cases "n div 10 = m div 10") (auto simp: append_less_same_length)
qed simp

section \<open>Parsing inverts printing\<close>

lemma set_pad: "c \<in> set (pad k n) \<Longrightarrow> \<exists>d. 0 \<le> d \<and> d < 10 \<and> c = dig d"
proof (induction k arbitrary: n)
  case (Suc k)
  have "0 \<le> n mod 10 \<and> n mod 10 < 10" by simp
  moreover have "c \<in> set (pad k (n div 10)) \<or> c = dig (n mod 10)" using Suc.prems by auto
  ultimately show ?case using Suc.IH by blast
qed simp

lemma dig_not_sign: "0 \<le> d \<Longrightarrow> d < 10 \<Longrightarrow> dig d \<noteq> CHR ''-'' \<and> dig d \<noteq> CHR ''+''"
  using undig_dig[of d] by (auto simp: undig_def)

lemma split_year_string:
  assumes "\<bar>y\<bar> < 1000000"
  shows "split_year (year_string y @ r) = Some (y, r)"
proof (cases "0 \<le> y \<and> y \<le> 9999")
  case True
  obtain c cs where c: "pad 4 y = c # cs" 
    using length_pad[of 4 y] by (cases "pad 4 y") auto
  then obtain d where "0 \<le> d" "d < 10" "c = dig d" using set_pad[of c 4 y] by auto
  then have "c \<noteq> CHR ''-''" "c \<noteq> CHR ''+''" using dig_not_sign[of d] by simp_all
  moreover have "take 4 (c # cs @ r) = c # cs" "drop 4 (c # cs @ r) = r"
    using length_pad[of 4 y] unfolding c by simp_all
  moreover have "unpad (c # cs) = Some y" using True unpad_pad[of y 4] unfolding c by simp
  ultimately show ?thesis
    using True unfolding split_year_def year_string_def c
    by (simp only: if_True if_False append_Cons list.case option.map conj_absorb simp_thms)
next
  case False
  then show ?thesis
    using assms unpad_pad[of "- y" 6] unpad_pad[of y 6]
    by (auto simp: split_year_def year_string_def)
qed

lemma parse_tail_fields:
  assumes "0 \<le> m" "m < 100" "0 \<le> dd" "dd < 100" "0 \<le> h" "h < 100" "0 \<le> mi" "mi < 100"
    "0 \<le> s" "s < 100" "0 \<le> ms" "ms < 1000"
  shows "parse_tail (tail_fields m dd h mi s ms) = Some (m, dd, h, mi, s, ms)"
  using assms by (simp add: parse_tail_def tail_fields_def)

lemma time_of_day_ranges:
  assumes "0 \<le> tod" "tod < msPerDay"
  shows "0 \<le> tod div 3600000" "tod div 3600000 < 100" "0 \<le> tod div 60000 mod 60"
    "tod div 60000 mod 60 < 100" "0 \<le> tod div 1000 mod 60" "tod div 1000 mod 60 < 100"
    "0 \<le> tod mod 1000" "tod mod 1000 < 1000"
proof -
  have "tod div 3600000 \<le> 86399999 div 3600000"
    using assms by (intro zdiv_mono1) (simp_all add: msPerDay_def)
  then show "tod div 3600000 < 100" by simp
  show "tod div 60000 mod 60 < 100" "tod div 1000 mod 60 < 100"
    by (rule order.strict_trans[OF pos_mod_bound]; simp)+
  show "0 \<le> tod div 3600000" using assms(1) by (simp add: pos_imp_zdiv_nonneg_iff)
  show "0 \<le> tod div 60000 mod 60" "0 \<le> tod div 1000 mod 60" "0 \<le> tod mod 1000"
    by (rule pos_mod_sign; simp)+
  show "tod mod 1000 < 1000" by (rule pos_mod_bound) simp
qed

lemma parse_tail_string:
  assumes "0 \<le> m" "m < 100" "0 \<le> dd" "dd < 100" "0 \<le> tod" "tod < msPerDay"
  shows "parse_tail (tail_string m dd tod) =
    Some (m, dd, tod div 3600000, tod div 60000 mod 60, tod div 1000 mod 60, tod mod 1000)"
  unfolding tail_string_def by (rule parse_tail_fields) (fact assms time_of_day_ranges[OF assms(5,6)])+

lemma div_60_1000: "(x :: int) div 1000 div 60 = x div 60000" "x div 60000 div 60 = x div 3600000"
  using zdiv_zmult2_eq[of 60 x 1000] zdiv_zmult2_eq[of 60 x 60000] by simp_all

lemma mixed_radix:
  "1000 * a + r = x \<Longrightarrow> 60 * b + q = a \<Longrightarrow> 60 * c + p = b \<Longrightarrow>
     c * 3600000 + p * 60000 + q * 1000 + r = (x :: int)"
  by auto

lemma time_of_day_fields:
  "tod div 3600000 * 3600000 + tod div 60000 mod 60 * 60000 + tod div 1000 mod 60 * 1000 + tod mod 1000
     = (tod :: int)"
  using mixed_radix[OF mult_div_mod_eq mult_div_mod_eq mult_div_mod_eq, of tod]
  unfolding div_60_1000 .

lemma day_of_civil_eta [simp]:
  "day_of_civil \<lparr>cYear = cYear c, cMonth = cMonth c, cDate = cDate c\<rparr> = day_of_civil c"
  by (simp add: day_of_civil_def)

lemma day_bounds: "\<bar>t\<bar> \<le> max_time \<Longrightarrow> - 100000000 \<le> t div msPerDay \<and> t div msPerDay \<le> 100000000"
  using zdiv_mono1[of "- max_time" t msPerDay] zdiv_mono1[of t max_time msPerDay]
  by (simp add: max_time_def msPerDay_def)

lemma year_bounds:
  assumes "\<bar>t\<bar> \<le> max_time"
  shows "\<bar>YearFromDay (t div msPerDay)\<bar> < 1000000"
proof -
  have "YearFromDay (- 100000000) = - 271821" "YearFromDay 100000000 = 275760"
    by (simp_all add: YearFromDay_def DayFromYear_def)
  then show ?thesis
    using YearFromDay_mono[of "- 100000000" "t div msPerDay"]
      YearFromDay_mono[of "t div msPerDay" 100000000] day_bounds[OF assms] by linarith
qed

lemma civil_of_day_range:
  "1 \<le> cMonth (civil_of_day d)" "cMonth (civil_of_day d) \<le> 12"
  "1 \<le> cDate (civil_of_day d)" "cDate (civil_of_day d) \<le> 31"
proof -
  define y where "y = YearFromDay d"
  have "0 \<le> d - DayFromYear y" "d - DayFromYear y < 365 + leap_offset (leap_year y)"
    using YearFromDay_bounds[of d] DayFromYear_Suc[of y] by (simp_all add: y_def)
  from MonthFromYearDay_date[OF this] MonthFromYearDay_range
  show "1 \<le> cMonth (civil_of_day d)" "cMonth (civil_of_day d) \<le> 12"
    "1 \<le> cDate (civil_of_day d)" "cDate (civil_of_day d) \<le> 31"
    by (auto simp: civil_of_day_def Let_def y_def)
qed

lemma candidate_time_iso:
  assumes "\<bar>t\<bar> \<le> max_time"
  shows "candidate_time (iso t) = Some t"
proof -
  define c where "c = civil_of_day (t div msPerDay)"
  define tod where "tod = t mod msPerDay"
  have tod: "0 \<le> tod" "tod < msPerDay" by (simp_all add: tod_def msPerDay_def)
  have "cYear c = YearFromDay (t div msPerDay)" by (simp add: c_def civil_of_day_def Let_def)
  then have y: "\<bar>cYear c\<bar> < 1000000" using year_bounds[OF assms] by simp
  have "time_of_fields (cYear c) (cMonth c) (cDate c) (tod div 3600000) (tod div 60000 mod 60)
      (tod div 1000 mod 60) (tod mod 1000) = day_of_civil c * msPerDay + tod"
    unfolding time_of_fields_def day_of_civil_eta
    by (subst time_of_day_fields[of tod, symmetric]) (simp only: add.assoc)
  also have "\<dots> = t" by (simp add: tod_def c_def day_of_civil_of_day)
  finally have t: "time_of_fields (cYear c) (cMonth c) (cDate c) (tod div 3600000)
      (tod div 60000 mod 60) (tod div 1000 mod 60) (tod mod 1000) = t" .
  have "parse_tail (tail_string (cMonth c) (cDate c) tod) =
    Some (cMonth c, cDate c, tod div 3600000, tod div 60000 mod 60, tod div 1000 mod 60, tod mod 1000)"
    by (rule parse_tail_string)
      (use civil_of_day_range[of "t div msPerDay"] tod in \<open>simp_all add: c_def\<close>)
  then show ?thesis
    unfolding candidate_time_def iso_def Let_def c_def[symmetric] tod_def[symmetric]
    by (simp only: split_year_string[OF y] option.case prod.case t)
qed

lemma date_parse_iso [simp]: "\<bar>t\<bar> \<le> max_time \<Longrightarrow> date_parse (iso t) = Some t"
  by (simp add: date_parse_def candidate_time_iso)

lemma date_parse_Some: "date_parse v = Some t \<longleftrightarrow> iso t = v \<and> \<bar>t\<bar> \<le> max_time"
proof
  show "date_parse v = Some t \<Longrightarrow> iso t = v \<and> \<bar>t\<bar> \<le> max_time"
    by (simp add: date_parse_def split: option.splits if_splits)
qed auto

lemma canonical_iff: "canonical v \<longleftrightarrow> (\<exists>t. \<bar>t\<bar> \<le> max_time \<and> v = iso t)"
  by (auto simp: canonical_def date_parse_Some)

lemma canonical_iso [simp]: "\<bar>t\<bar> \<le> max_time \<Longrightarrow> canonical (iso t)"
  by (auto simp: canonical_iff)

lemma time_of_iso [simp]: "\<bar>t\<bar> \<le> max_time \<Longrightarrow> time_of (iso t) = t"
  by (simp add: time_of_def)

lemma iso_time_of [simp]: "canonical v \<Longrightarrow> iso (time_of v) = v"
  by (auto simp: canonical_iff)

lemma canonical_date_parse: "canonical v \<Longrightarrow> date_parse v = Some (time_of v)"
  by (auto simp: canonical_iff)

lemma time_of_bound: "\<bar>time_of v\<bar> \<le> max_time"
  by (auto simp: time_of_def date_parse_Some max_time_def split: option.splits)

lemma iso_inject: "\<bar>t\<bar> \<le> max_time \<Longrightarrow> \<bar>u\<bar> \<le> max_time \<Longrightarrow> iso t = iso u \<longleftrightarrow> t = u"
  by (metis time_of_iso)

section \<open>The string order is the time order\<close>

text \<open>The time values with a four-digit year: 0000-01-01 up to the end of 9999.\<close>

definition four_digit_year :: "int \<Rightarrow> bool" where
  "four_digit_year t \<longleftrightarrow> - 62167219200000 \<le> t \<and> t < 253402300800000"

lemma four_digit_year_bound: "four_digit_year t \<Longrightarrow> \<bar>t\<bar> \<le> max_time"
  by (auto simp: four_digit_year_def max_time_def)

lemma four_digit_year_year:
  assumes "four_digit_year t"
  shows "0 \<le> YearFromDay (t div msPerDay)" "YearFromDay (t div msPerDay) \<le> 9999"
proof -
  have "- 719528 \<le> t div msPerDay" "t div msPerDay \<le> 2932896"
    using assms zdiv_mono1[of "- 62167219200000" t msPerDay] zdiv_mono1[of t 253402300799999 msPerDay]
    by (simp_all add: four_digit_year_def msPerDay_def)
  moreover have "YearFromDay (- 719528) = 0" "YearFromDay 2932896 = 9999"
    by (simp_all add: YearFromDay_def DayFromYear_def)
  ultimately show "0 \<le> YearFromDay (t div msPerDay)" "YearFromDay (t div msPerDay) \<le> 9999"
    using YearFromDay_mono by metis+
qed

lemma less_div_mod:
  fixes a b n :: int
  assumes "a < b" and "0 < n"
  shows "a div n < b div n \<or> a div n = b div n \<and> a mod n < b mod n"
proof (cases "a div n = b div n")
  case True
  then have "n * (b div n) + a mod n < n * (b div n) + b mod n"
    using assms(1) by (metis mult_div_mod_eq)
  then show ?thesis using True unfolding add_less_cancel_left by blast
next
  case False
  then show ?thesis using zdiv_mono1[of a b n] assms by auto
qed

lemma tail_string_less:
  assumes "0 \<le> m" "m' < 100" "0 \<le> dd" "dd' < 100"
    and tod: "0 \<le> tod" "tod < msPerDay" "0 \<le> tod'" "tod' < msPerDay"
    and order: "m < m' \<or> m = m' \<and> (dd < dd' \<or> dd = dd' \<and> tod < tod')"
  shows "tail_string m dd tod < tail_string m' dd' tod'"
proof -
  have time: "tod div 3600000 < tod' div 3600000 \<or>
      tod div 3600000 = tod' div 3600000 \<and> (tod div 60000 mod 60 < tod' div 60000 mod 60 \<or>
      tod div 60000 mod 60 = tod' div 60000 mod 60 \<and> (tod div 1000 mod 60 < tod' div 1000 mod 60 \<or>
      tod div 1000 mod 60 = tod' div 1000 mod 60 \<and> tod mod 1000 < tod' mod 1000))"
    if "tod < tod'"
  proof -
    have "tod div 60000 < tod' div 60000 \<or>
        tod div 60000 = tod' div 60000 \<and> tod div 1000 mod 60 < tod' div 1000 mod 60"
      if "tod div 1000 < tod' div 1000"
      using less_div_mod[OF that, of 60] unfolding div_60_1000 by simp
    moreover have "tod div 3600000 < tod' div 3600000 \<or>
        tod div 3600000 = tod' div 3600000 \<and> tod div 60000 mod 60 < tod' div 60000 mod 60"
      if "tod div 60000 < tod' div 60000"
      using less_div_mod[OF that, of 60] unfolding div_60_1000 by simp
    moreover have "tod div 1000 < tod' div 1000 \<or>
        tod div 1000 = tod' div 1000 \<and> tod mod 1000 < tod' mod 1000"
      using less_div_mod[OF that, of 1000] by simp
    ultimately show ?thesis by (metis div_60_1000)
  qed
  have less: "tail_fields m dd h mi s ms < tail_fields m' dd' h' mi' s' ms'"
    if "0 \<le> h" "h' < 100" "0 \<le> mi" "mi' < 100" "0 \<le> s" "s' < 100" "0 \<le> ms" "ms' < 1000"
      and "m < m' \<or> m = m' \<and> (dd < dd' \<or> dd = dd' \<and> (h < h' \<or> h = h' \<and>
        (mi < mi' \<or> mi = mi' \<and> (s < s' \<or> s = s' \<and> ms < ms'))))" for h mi s ms h' mi' s' ms'
    using that assms(1-4) by (auto simp: tail_fields_def append_less_same_length pad_less_imp)
  note r = time_of_day_ranges[OF tod(1,2)] and r' = time_of_day_ranges[OF tod(3,4)]
  show ?thesis
    unfolding tail_string_def
    by (rule less[OF r(1) r'(2) r(3) r'(4) r(5) r'(6) r(7) r'(8)]) (use order time in blast)
qed

lemma civil_of_day_less:
  assumes "d < d'" and "cYear (civil_of_day d) = cYear (civil_of_day d')"
  shows "cMonth (civil_of_day d) < cMonth (civil_of_day d') \<or>
    cMonth (civil_of_day d) = cMonth (civil_of_day d') \<and> cDate (civil_of_day d) < cDate (civil_of_day d')"
proof -
  define y where "y = YearFromDay d"
  have y': "YearFromDay d' = y" using assms(2) by (simp add: civil_of_day_def Let_def y_def)
  have "MonthFromYearDay (leap_year y) (d - DayFromYear y) \<le> MonthFromYearDay (leap_year y) (d' - DayFromYear y)"
    using assms(1) by (intro MonthFromYearDay_mono) simp
  then show ?thesis
    using assms(1) by (auto simp: civil_of_day_def Let_def y' y_def[symmetric])
qed

lemma iso_less_imp:
  assumes "t < u" and "four_digit_year t" and "four_digit_year u"
  shows "iso t < iso u"
proof -
  define c c' where "c = civil_of_day (t div msPerDay)" and "c' = civil_of_day (u div msPerDay)"
  have cy: "cYear c = YearFromDay (t div msPerDay)" "cYear c' = YearFromDay (u div msPerDay)"
    by (simp_all add: c_def c'_def civil_of_day_def Let_def)
  have y: "0 \<le> cYear c" "cYear c \<le> 9999" "0 \<le> cYear c'" "cYear c' \<le> 9999"
    using four_digit_year_year assms(2,3) by (simp_all add: cy)
  have dm: "t div msPerDay < u div msPerDay \<or>
      t div msPerDay = u div msPerDay \<and> t mod msPerDay < u mod msPerDay"
    using less_div_mod[OF assms(1)] by (simp add: msPerDay_def)
  then have "cYear c \<le> cYear c'" using YearFromDay_mono by (auto simp: cy)
  moreover have "pad 4 (cYear c) < pad 4 (cYear c')" if "cYear c < cYear c'"
    using that y by (intro pad_less_imp) simp_all
  moreover have "tail_string (cMonth c) (cDate c) (t mod msPerDay)
      < tail_string (cMonth c') (cDate c') (u mod msPerDay)" if "cYear c = cYear c'"
  proof (rule tail_string_less)
    show "cMonth c < cMonth c' \<or> cMonth c = cMonth c' \<and>
        (cDate c < cDate c' \<or> cDate c = cDate c' \<and> t mod msPerDay < u mod msPerDay)"
      using dm civil_of_day_less that by (auto simp: c_def c'_def)
    show "0 \<le> cMonth c" "0 \<le> cDate c" "cMonth c' < 100" "cDate c' < 100"
      using civil_of_day_range[of "t div msPerDay"] civil_of_day_range[of "u div msPerDay"]
      by (simp_all add: c_def c'_def)
    show "0 \<le> t mod msPerDay" "t mod msPerDay < msPerDay" "0 \<le> u mod msPerDay"
      "u mod msPerDay < msPerDay" by (simp_all add: msPerDay_def)
  qed
  ultimately show ?thesis
    using y unfolding iso_def Let_def c_def[symmetric] c'_def[symmetric]
    by (cases "cYear c = cYear c'") (auto simp: year_string_def append_less_same_length)
qed

lemma iso_less_iff [simp]:
  "four_digit_year t \<Longrightarrow> four_digit_year u \<Longrightarrow> iso t < iso u \<longleftrightarrow> t < u"
  using iso_less_imp[of t u] iso_less_imp[of u t] by (cases t u rule: linorder_cases) auto

lemma iso_le_iff [simp]:
  "four_digit_year t \<Longrightarrow> four_digit_year u \<Longrightarrow> iso t \<le> iso u \<longleftrightarrow> t \<le> u"
  using iso_less_iff[of u t] by (simp add: not_less[symmetric])

end
