(* ===== verification/Availability.thy ===== *)
theory Availability
  imports Weekly_Schedule Iso_Date
begin

text \<open>
  Evaluation of availability policies (\<open>service-scheduling/domain\<close>): what a policy expects of
  its service at an instant, temporary overrides, and the transitions of a scheduled policy
  over an interval. Local time comes from \<open>Intl.DateTimeFormat\<close>, whose time zone data is
  not part of the program: the formatter is a parameter, a function from a time zone and a
  time value to the formatted parts, and the locales \<open>local_formatter\<close> and
  \<open>minute_formatter\<close> state what the code relies on.
\<close>

type_synonym formatter = "string \<Rightarrow> int \<Rightarrow> (string \<times> string) list"

section \<open>Policies at an instant\<close>

datatype ServiceAvailabilityExpectation =
  ExpAvailable | ExpUnavailable | ExpManual | ExpDisabled

fun expectation_string :: "ServiceAvailabilityExpectation \<Rightarrow> string" where
  "expectation_string ExpAvailable = ''available''"
| "expectation_string ExpUnavailable = ''unavailable''"
| "expectation_string ExpManual = ''manual''"
| "expectation_string ExpDisabled = ''disabled''"

definition weekdayByEnglishName :: "string \<Rightarrow> ServiceScheduleWeekday option" where
  "weekdayByEnglishName name = map_of
     [(''Monday'', monday), (''Tuesday'', tuesday), (''Wednesday'', wednesday),
      (''Thursday'', thursday), (''Friday'', friday), (''Saturday'', saturday),
      (''Sunday'', sunday)] name"

definition getPart :: "(string \<times> string) list \<Rightarrow> string \<Rightarrow> string result" where
  "getPart parts type =
     (case find (\<lambda>part. fst part = type) parts of
        None \<Rightarrow> Inl ServiceAvailabilityEvaluationError
      | Some part \<Rightarrow> Inr (snd part))"

definition inside_window :: "ServiceScheduleWeekday \<Rightarrow> string \<Rightarrow> WeeklyAvailabilityWindow \<Rightarrow> bool" where
  "inside_window d localTime w \<longleftrightarrow>
     weekday w = d \<and> window_start w \<le> localTime \<and> localTime < window_end w"

definition evaluateScheduledPolicy ::
  "formatter \<Rightarrow> string \<Rightarrow> WeeklyAvailabilitySchedule \<Rightarrow> int \<Rightarrow> ServiceAvailabilityExpectation result" where
  "evaluateScheduledPolicy fmt timezone schedule timestamp =
     (let parts = fmt timezone timestamp in
      bindR (getPart parts ''weekday'') (\<lambda>weekdayName.
      bindR (getPart parts ''hour'') (\<lambda>hour.
      bindR (getPart parts ''minute'') (\<lambda>minute.
      case weekdayByEnglishName weekdayName of
        None \<Rightarrow> Inl ServiceAvailabilityEvaluationError
      | Some d \<Rightarrow>
          Inr (if list_ex (inside_window d (hour @ '':'' @ minute)) (windows schedule)
               then ExpAvailable else ExpUnavailable)))))"

text \<open>The check \<open>instant instanceof Date\<close> and \<open>Number.isFinite(instant.getTime())\<close>.\<close>

fun getServiceAvailabilityEvaluationTimestamp :: "jsval \<Rightarrow> int result" where
  "getServiceAvailabilityEvaluationTimestamp (JDate (Some t)) = Inr t"
| "getServiceAvailabilityEvaluationTimestamp _ = Inl ServiceAvailabilityEvaluationError"

definition evaluateServiceAvailabilityPolicy ::
  "formatter \<Rightarrow> ServiceAvailabilityPolicy \<Rightarrow> jsval \<Rightarrow> ServiceAvailabilityExpectation result" where
  "evaluateServiceAvailabilityPolicy fmt policy instant =
     bindR (getServiceAvailabilityEvaluationTimestamp instant) (\<lambda>timestamp.
     case policy of
       AlwaysPolicy \<Rightarrow> Inr ExpAvailable
     | ManualPolicy \<Rightarrow> Inr ExpManual
     | DisabledPolicy \<Rightarrow> Inr ExpDisabled
     | ScheduledPolicy tz s \<Rightarrow> evaluateScheduledPolicy fmt tz s timestamp)"

section \<open>Overrides\<close>

datatype ServiceAvailabilityOverrideKind = keep_available | suspend_schedule

record ServiceAvailabilityOverride =
  kind :: ServiceAvailabilityOverrideKind
  expiresAt :: string

definition isSameServiceAvailabilityOverride ::
  "ServiceAvailabilityOverride \<Rightarrow> ServiceAvailabilityOverride \<Rightarrow> bool" where
  "isSameServiceAvailabilityOverride left right \<longleftrightarrow>
     kind left = kind right \<and> expiresAt left = expiresAt right"

definition OVERRIDE_FIELDS :: "string list" where
  "OVERRIDE_FIELDS = [''kind'', ''expiresAt'']"

definition hasExactOverrideShape :: "jsval \<Rightarrow> bool" where
  "hasExactOverrideShape input \<longleftrightarrow> is_object input \<and> hasExactFields input OVERRIDE_FIELDS"

definition validateOverrideKind :: "jsval \<Rightarrow> ServiceAvailabilityOverrideKind result" where
  "validateOverrideKind value =
     (if value = JStr ''keep_available'' then Inr keep_available
      else if value = JStr ''suspend_schedule'' then Inr suspend_schedule
      else Inl (ServiceAvailabilityOverrideValidationError
                  ''invalid_service_availability_override_kind''))"

fun validateExpiration :: "jsval \<Rightarrow> (string \<times> int) result" where
  "validateExpiration (JStr value) =
     (case date_parse value of
        None \<Rightarrow> Inl (ServiceAvailabilityOverrideValidationError
                       ''invalid_service_availability_override_expiration'')
      | Some timestamp \<Rightarrow> Inr (value, timestamp))"
| "validateExpiration _ = Inl (ServiceAvailabilityOverrideValidationError
     ''invalid_service_availability_override_expiration'')"

fun validateReferenceInstant :: "jsval \<Rightarrow> int result" where
  "validateReferenceInstant (JDate (Some t)) = Inr t"
| "validateReferenceInstant _ = Inl (ServiceAvailabilityOverrideValidationError
     ''invalid_service_availability_override_reference_instant'')"

definition createServiceAvailabilityOverride ::
  "jsval \<Rightarrow> jsval \<Rightarrow> ServiceAvailabilityOverride result" where
  "createServiceAvailabilityOverride input referenceInstant =
     (if \<not> hasExactOverrideShape input
      then Inl (ServiceAvailabilityOverrideValidationError ''invalid_service_availability_override'')
      else bindR (validateOverrideKind (get_prop input ''kind'')) (\<lambda>k.
           bindR (validateExpiration (get_prop input ''expiresAt'')) (\<lambda>(canonicalValue, timestamp).
           bindR (validateReferenceInstant referenceInstant) (\<lambda>referenceTimestamp.
           if timestamp \<le> referenceTimestamp
           then Inl (ServiceAvailabilityOverrideValidationError
                       ''non_future_service_availability_override_expiration'')
           else Inr \<lparr>kind = k, expiresAt = canonicalValue\<rparr>))))"

text \<open>A comparison with NaN is false: an expiration that does not parse never expires.\<close>

definition isServiceAvailabilityOverrideExpiredAtTimestamp ::
  "ServiceAvailabilityOverride \<Rightarrow> int \<Rightarrow> bool" where
  "isServiceAvailabilityOverrideExpiredAtTimestamp override evaluationTimestamp \<longleftrightarrow>
     (case date_parse (expiresAt override) of
        None \<Rightarrow> False
      | Some e \<Rightarrow> evaluationTimestamp \<ge> e)"

definition isServiceAvailabilityOverrideExpiredAt ::
  "ServiceAvailabilityOverride \<Rightarrow> jsval \<Rightarrow> bool result" where
  "isServiceAvailabilityOverrideExpiredAt override instant =
     bindR (getServiceAvailabilityEvaluationTimestamp instant) (\<lambda>timestamp.
     Inr (isServiceAvailabilityOverrideExpiredAtTimestamp override timestamp))"

definition evaluateServiceAvailabilityWithOverride ::
  "formatter \<Rightarrow> ServiceAvailabilityPolicy \<Rightarrow> ServiceAvailabilityOverride option \<Rightarrow> jsval \<Rightarrow>
     ServiceAvailabilityExpectation result" where
  "evaluateServiceAvailabilityWithOverride fmt policy override instant =
     bindR (getServiceAvailabilityEvaluationTimestamp instant) (\<lambda>evaluationTimestamp.
     case override of
       None \<Rightarrow> evaluateServiceAvailabilityPolicy fmt policy (JDate (new_date evaluationTimestamp))
     | Some ov \<Rightarrow>
         if isServiceAvailabilityOverrideExpiredAtTimestamp ov evaluationTimestamp
         then evaluateServiceAvailabilityPolicy fmt policy (JDate (new_date evaluationTimestamp))
         else if policy_mode policy = disabled then Inr ExpDisabled
         else (case kind ov of
                 keep_available \<Rightarrow> Inr ExpAvailable
               | suspend_schedule \<Rightarrow> Inr ExpManual))"

section \<open>Transitions over an interval\<close>

datatype TransitionKind = became_available | became_unavailable

record ServiceAvailabilityPolicyTransition =
  transition_kind :: TransitionKind
  scheduledFor :: string

definition MINUTE_IN_MILLISECONDS :: int where
  "MINUTE_IN_MILLISECONDS = 60000"

definition MAXIMUM_INTERVAL_IN_MILLISECONDS :: int where
  "MAXIMUM_INTERVAL_IN_MILLISECONDS = 8 * 24 * 60 * MINUTE_IN_MILLISECONDS"

fun validateInterval :: "jsval \<Rightarrow> jsval \<Rightarrow> (int \<times> int) result" where
  "validateInterval (JDate (Some fromTimestamp)) (JDate (Some toTimestamp)) =
     (if toTimestamp \<le> fromTimestamp
      then Inl (ServiceAvailabilityTransitionCalculationError ''invalid_transition_interval'')
      else if getUTCSeconds fromTimestamp \<noteq> 0 \<or> getUTCMilliseconds fromTimestamp \<noteq> 0 \<or>
              getUTCSeconds toTimestamp \<noteq> 0 \<or> getUTCMilliseconds toTimestamp \<noteq> 0
      then Inl (ServiceAvailabilityTransitionCalculationError
                  ''transition_interval_not_minute_aligned'')
      else if toTimestamp - fromTimestamp > MAXIMUM_INTERVAL_IN_MILLISECONDS
      then Inl (ServiceAvailabilityTransitionCalculationError ''transition_interval_limit_exceeded'')
      else Inr (fromTimestamp, toTimestamp))"
| "validateInterval _ _ =
     Inl (ServiceAvailabilityTransitionCalculationError ''invalid_transition_interval'')"

definition createTransition ::
  "ServiceAvailabilityExpectation \<Rightarrow> int option \<Rightarrow> ServiceAvailabilityPolicyTransition result" where
  "createTransition expectation instant =
     bindR (toISOString instant) (\<lambda>text.
     Inr \<lparr>transition_kind = (if expectation = ExpAvailable then became_available else became_unavailable),
          scheduledFor = text\<rparr>)"

text \<open>The loop over the minutes of the interval, from \<open>timestamp\<close> on.\<close>

function transition_loop ::
  "formatter \<Rightarrow> ServiceAvailabilityPolicy \<Rightarrow> int \<Rightarrow> int \<Rightarrow> ServiceAvailabilityExpectation \<Rightarrow>
     ServiceAvailabilityPolicyTransition list result" where
  "transition_loop fmt policy toTimestamp timestamp previousExpectation =
     (if timestamp \<le> toTimestamp
      then let instant = new_date timestamp in
           bindR (evaluateServiceAvailabilityPolicy fmt policy (JDate instant)) (\<lambda>expectation.
           if expectation \<noteq> previousExpectation
           then bindR (createTransition expectation instant) (\<lambda>transition.
                bindR (transition_loop fmt policy toTimestamp
                         (timestamp + MINUTE_IN_MILLISECONDS) expectation) (\<lambda>rest.
                Inr (transition # rest)))
           else transition_loop fmt policy toTimestamp
                  (timestamp + MINUTE_IN_MILLISECONDS) previousExpectation)
      else Inr [])"
  by pat_completeness auto
termination
  by (relation "measure (\<lambda>(_, _, toT, t, _). nat (toT + 1 - t))") (auto simp: MINUTE_IN_MILLISECONDS_def)

definition calculateServiceAvailabilityPolicyTransitions ::
  "formatter \<Rightarrow> ServiceAvailabilityPolicy \<Rightarrow> jsval \<Rightarrow> jsval \<Rightarrow>
     ServiceAvailabilityPolicyTransition list result" where
  "calculateServiceAvailabilityPolicyTransitions fmt policy fromExclusive toInclusive =
     bindR (validateInterval fromExclusive toInclusive) (\<lambda>(fromTimestamp, toTimestamp).
     if policy_mode policy \<noteq> scheduled then Inr []
     else bindR (evaluateServiceAvailabilityPolicy fmt policy fromExclusive) (\<lambda>previousExpectation.
          transition_loop fmt policy toTimestamp (fromTimestamp + MINUTE_IN_MILLISECONDS)
            previousExpectation))"

declare transition_loop.simps [simp del]

section \<open>What the code relies on of the formatter\<close>

text \<open>
  For a time zone of the allowlist and a valid instant, the parts have a weekday with its
  long English name, an hour and a minute.
\<close>

definition local_parts_ok :: "(string \<times> string) list \<Rightarrow> bool" where
  "local_parts_ok parts \<longleftrightarrow>
     (\<exists>name d. getPart parts ''weekday'' = Inr name \<and> weekdayByEnglishName name = Some d) \<and>
     (\<exists>h. getPart parts ''hour'' = Inr h) \<and> (\<exists>m. getPart parts ''minute'' = Inr m)"

locale local_formatter =
  fixes fmt :: formatter
  assumes parts_ok: "tz \<in> set SERVICE_SCHEDULE_TIMEZONES \<Longrightarrow> \<bar>t\<bar> \<le> max_time \<Longrightarrow> local_parts_ok (fmt tz t)"

text \<open>
  The offset of the zone is a whole number of minutes, so the local time of an instant is
  that of the last full UTC minute. For the one zone of the code, America/Sao_Paulo, this holds since
  1914; the local mean time before (-3:06:28) violates it, so what rests on this locale says nothing of
  those years. The instance below has the zone's present offset.
\<close>

locale minute_formatter = local_formatter +
  assumes parts_minute: "tz \<in> set SERVICE_SCHEDULE_TIMEZONES \<Longrightarrow> \<bar>t\<bar> \<le> max_time \<Longrightarrow>
    fmt tz (t div MINUTE_IN_MILLISECONDS * MINUTE_IN_MILLISECONDS) = fmt tz t"

text \<open>
  A concrete formatter: a fixed offset from UTC, in minutes. America/Sao_Paulo has had the
  offset -180 since 2019.
\<close>

fun english_weekday :: "int \<Rightarrow> string" where
  "english_weekday n =
     (if n = 0 then ''Monday'' else if n = 1 then ''Tuesday'' else if n = 2 then ''Wednesday''
      else if n = 3 then ''Thursday'' else if n = 4 then ''Friday'' else if n = 5 then ''Saturday''
      else ''Sunday'')"

definition fixed_offset_formatter :: "int \<Rightarrow> formatter" where
  "fixed_offset_formatter offset tz t =
     (let local = t + offset * MINUTE_IN_MILLISECONDS; tod = local mod msPerDay
      in [(''weekday'', english_weekday ((local div msPerDay + 3) mod 7)),
          (''literal'', '' at ''),
          (''hour'', pad 2 (tod div 3600000)),
          (''literal'', '':''),
          (''minute'', pad 2 (tod div 60000 mod 60))])"

definition saoPauloFormatter :: formatter where
  "saoPauloFormatter = fixed_offset_formatter (- 180)"

section \<open>The expectation of a policy as a total function\<close>

text \<open>The expectation where evaluation succeeds, as it does under \<open>local_formatter\<close>.\<close>

definition expectation_at :: "formatter \<Rightarrow> ServiceAvailabilityPolicy \<Rightarrow> int \<Rightarrow> ServiceAvailabilityExpectation" where
  "expectation_at fmt policy t =
     (case evaluateServiceAvailabilityPolicy fmt policy (JDate (Some t)) of
        Inr e \<Rightarrow> e | Inl _ \<Rightarrow> ExpUnavailable)"

lemma new_date_Some [simp]: "\<bar>t\<bar> \<le> max_time \<Longrightarrow> new_date t = Some t"
  by (simp add: new_date_def)

lemma evaluateScheduledPolicy_Inr:
  "local_parts_ok (fmt tz t) \<Longrightarrow>
     evaluateScheduledPolicy fmt tz s t = Inr ExpAvailable \<or>
     evaluateScheduledPolicy fmt tz s t = Inr ExpUnavailable"
  by (auto simp: local_parts_ok_def evaluateScheduledPolicy_def Let_def split: if_splits)

context local_formatter
begin

lemma scheduled_evaluates:
  assumes "wf_policy (ScheduledPolicy tz s)" and "\<bar>t\<bar> \<le> max_time"
  shows "evaluateScheduledPolicy fmt tz s t = Inr ExpAvailable \<or>
     evaluateScheduledPolicy fmt tz s t = Inr ExpUnavailable"
proof -
  have "local_parts_ok (fmt tz t)" using parts_ok assms by simp
  then show ?thesis by (rule evaluateScheduledPolicy_Inr)
qed

lemma evaluate_total:
  assumes "wf_policy policy" and "\<bar>t\<bar> \<le> max_time"
  shows "evaluateServiceAvailabilityPolicy fmt policy (JDate (Some t)) = Inr (expectation_at fmt policy t)"
proof (cases policy)
  case (ScheduledPolicy tz s)
  then show ?thesis
    using scheduled_evaluates[of tz s t] assms
    by (auto simp: evaluateServiceAvailabilityPolicy_def expectation_at_def)
qed (simp_all add: evaluateServiceAvailabilityPolicy_def expectation_at_def)

lemma scheduled_expectation:
  assumes "wf_policy (ScheduledPolicy tz s)" and "\<bar>t\<bar> \<le> max_time"
  shows "expectation_at fmt (ScheduledPolicy tz s) t \<in> {ExpAvailable, ExpUnavailable}"
  using scheduled_evaluates[OF assms]
  by (auto simp: evaluateServiceAvailabilityPolicy_def expectation_at_def)

end

context minute_formatter
begin

lemma expectation_minute:
  assumes "wf_policy policy" and "\<bar>t\<bar> \<le> max_time"
  shows "expectation_at fmt policy (t div MINUTE_IN_MILLISECONDS * MINUTE_IN_MILLISECONDS) =
    expectation_at fmt policy t"
proof (cases policy)
  case (ScheduledPolicy tz s)
  then show ?thesis
    using parts_minute[of tz t] assms
    by (simp add: expectation_at_def evaluateServiceAvailabilityPolicy_def evaluateScheduledPolicy_def)
qed (simp_all add: expectation_at_def evaluateServiceAvailabilityPolicy_def)

end

section \<open>The loop against its specification\<close>

text \<open>The minutes \<open>t\<close>, \<open>t + 60000\<close>, ... up to \<open>b\<close>.\<close>

function minutes_from :: "int \<Rightarrow> int \<Rightarrow> int list" where
  "minutes_from t b = (if t \<le> b then t # minutes_from (t + MINUTE_IN_MILLISECONDS) b else [])"
  by pat_completeness auto
termination
  by (relation "measure (\<lambda>(t, b). nat (b + 1 - t))") (auto simp: MINUTE_IN_MILLISECONDS_def)

declare minutes_from.simps [simp del]

text \<open>The minutes at which a function of time has another value than one minute before.\<close>

definition change_minutes :: "(int \<Rightarrow> 'e) \<Rightarrow> int \<Rightarrow> int \<Rightarrow> int list" where
  "change_minutes f t b = filter (\<lambda>u. f u \<noteq> f (u - MINUTE_IN_MILLISECONDS)) (minutes_from t b)"

definition transition_at :: "(int \<Rightarrow> ServiceAvailabilityExpectation) \<Rightarrow> int \<Rightarrow> ServiceAvailabilityPolicyTransition" where
  "transition_at f t =
     \<lparr>transition_kind = (if f t = ExpAvailable then became_available else became_unavailable),
      scheduledFor = iso t\<rparr>"

lemma change_minutes_simps:
  "change_minutes f t b =
     (if t \<le> b
      then if f t \<noteq> f (t - MINUTE_IN_MILLISECONDS)
           then t # change_minutes f (t + MINUTE_IN_MILLISECONDS) b
           else change_minutes f (t + MINUTE_IN_MILLISECONDS) b
      else [])"
  by (subst change_minutes_def, subst minutes_from.simps) (simp add: change_minutes_def)

lemma minutes_from_lower: "u \<in> set (minutes_from t b) \<Longrightarrow> t \<le> u \<and> u \<le> b"
proof (induction t b rule: minutes_from.induct)
  case (1 t b)
  then show ?case
    by (subst (asm) (2) minutes_from.simps) (force split: if_splits simp: MINUTE_IN_MILLISECONDS_def)
qed

lemma sorted_minutes_from: "sorted_wrt (<) (minutes_from t b)"
proof (induction t b rule: minutes_from.induct)
  case (1 t b)
  then show ?case
    by (subst minutes_from.simps)
      (use minutes_from_lower in \<open>fastforce simp: MINUTE_IN_MILLISECONDS_def\<close>)
qed

lemma minute_pos: "0 < MINUTE_IN_MILLISECONDS"
  by (simp add: MINUTE_IN_MILLISECONDS_def)

definition aligned :: "int \<Rightarrow> bool" where
  "aligned t \<longleftrightarrow> t mod MINUTE_IN_MILLISECONDS = 0"

lemma aligned_plus [simp]: "aligned (t + MINUTE_IN_MILLISECONDS) \<longleftrightarrow> aligned t"
  by (simp add: aligned_def)

lemma minutes_from_append:
  assumes "a \<le> b" and "b \<le> c" and "aligned a" and "aligned b"
  shows "minutes_from (a + MINUTE_IN_MILLISECONDS) c =
    minutes_from (a + MINUTE_IN_MILLISECONDS) b @ minutes_from (b + MINUTE_IN_MILLISECONDS) c"
  using assms
proof (induction "nat (b - a)" arbitrary: a rule: less_induct)
  case less
  show ?case
  proof (cases "a = b")
    case True
    then show ?thesis by (subst (2) minutes_from.simps) (simp add: MINUTE_IN_MILLISECONDS_def)
  next
    case False
    obtain i j where ij: "a = i * MINUTE_IN_MILLISECONDS" "b = j * MINUTE_IN_MILLISECONDS"
      using less.prems by (metis aligned_def minus_mod_eq_div_mult diff_zero)
    have le: "a + MINUTE_IN_MILLISECONDS \<le> b"
      using False less.prems(1) ij by (auto simp: MINUTE_IN_MILLISECONDS_def)
    have "minutes_from (a + MINUTE_IN_MILLISECONDS + MINUTE_IN_MILLISECONDS) c =
      minutes_from (a + MINUTE_IN_MILLISECONDS + MINUTE_IN_MILLISECONDS) b @
      minutes_from (b + MINUTE_IN_MILLISECONDS) c"
      using less.prems le minute_pos by (intro less.hyps) auto
    then show ?thesis
      using le less.prems by (subst (1 2) minutes_from.simps) simp
  qed
qed

context local_formatter
begin

lemma transition_loop_changes:
  assumes "wf_policy policy" and "\<bar>b\<bar> \<le> max_time"
    and "- max_time \<le> t - MINUTE_IN_MILLISECONDS"
    and "e = expectation_at fmt policy (t - MINUTE_IN_MILLISECONDS)"
  shows "transition_loop fmt policy b t e =
    Inr (map (transition_at (expectation_at fmt policy)) (change_minutes (expectation_at fmt policy) t b))"
  using assms(3,4)
proof (induction "nat (b + 1 - t)" arbitrary: t e rule: less_induct)
  case less
  show ?case
  proof (cases "t \<le> b")
    case False
    then show ?thesis by (simp add: transition_loop.simps[of _ _ b t] change_minutes_simps[of _ t])
  next
    case True
    let ?f = "expectation_at fmt policy"
    have m: "\<bar>t\<bar> \<le> max_time"
      using True assms(2) less.prems by (simp add: MINUTE_IN_MILLISECONDS_def)
    have "transition_loop fmt policy b (t + MINUTE_IN_MILLISECONDS) (?f t) =
      Inr (map (transition_at ?f) (change_minutes ?f (t + MINUTE_IN_MILLISECONDS) b))"
      using True less.prems by (intro less.hyps) (auto simp: MINUTE_IN_MILLISECONDS_def)
    then show ?thesis
      using True m less.prems(2)
      by (cases "?f t = ?f (t - MINUTE_IN_MILLISECONDS)")
        (simp_all add: transition_loop.simps[of _ _ b t] change_minutes_simps[of _ t]
          evaluate_total[OF assms(1)] createTransition_def toISOString_def transition_at_def)
  qed
qed

end

section \<open>Replaying transitions\<close>

fun expectation_after :: "TransitionKind \<Rightarrow> ServiceAvailabilityExpectation" where
  "expectation_after became_available = ExpAvailable"
| "expectation_after became_unavailable = ExpUnavailable"

text \<open>
  What a consumer of the transitions knows at time \<open>t\<close>: the initial expectation, changed by
  every transition whose time has come.
\<close>

definition replay ::
  "ServiceAvailabilityExpectation \<Rightarrow> ServiceAvailabilityPolicyTransition list \<Rightarrow> int \<Rightarrow>
     ServiceAvailabilityExpectation" where
  "replay e trs t =
     fold (\<lambda>tr e. if time_of (scheduledFor tr) \<le> t then expectation_after (transition_kind tr) else e) trs e"

lemma fold_future:
  "\<forall>u \<in> set us. t < u \<Longrightarrow> fold (\<lambda>u e. if u \<le> t then f u else e) us e = e" for t :: int
  by (induction us) auto

lemma change_minutes_fold:
  fixes f :: "int \<Rightarrow> 'e"
  assumes const: "\<And>u. u \<le> t \<Longrightarrow> t < u + MINUTE_IN_MILLISECONDS \<Longrightarrow> aligned u \<Longrightarrow> f u = f t"
    and "t \<le> b" and "aligned u" and "u \<le> t + MINUTE_IN_MILLISECONDS"
  shows "fold (\<lambda>v e. if v \<le> t then f v else e) (change_minutes f u b) (f (u - MINUTE_IN_MILLISECONDS)) = f t"
  using assms(3,4)
proof (induction "nat (b + 1 - u)" arbitrary: u rule: less_induct)
  case less
  show ?case
  proof (cases "u \<le> t")
    case True
    have "fold (\<lambda>v e. if v \<le> t then f v else e) (change_minutes f (u + MINUTE_IN_MILLISECONDS) b)
        (f (u + MINUTE_IN_MILLISECONDS - MINUTE_IN_MILLISECONDS)) = f t"
      using True less.prems assms(2) minute_pos by (intro less.hyps) auto
    then show ?thesis
      using True assms(2) by (cases "f u = f (u - MINUTE_IN_MILLISECONDS)")
        (simp_all add: change_minutes_simps[of f u])
  next
    case False
    then have "\<forall>v \<in> set (change_minutes f u b). t < v"
      using minutes_from_lower[of _ u b] by (force simp: change_minutes_def)
    moreover have "f (u - MINUTE_IN_MILLISECONDS) = f t"
      using False less.prems aligned_plus[of "u - MINUTE_IN_MILLISECONDS"] by (intro const) auto
    ultimately show ?thesis by (simp add: fold_future)
  qed
qed

lemma replay_transition_at:
  assumes "\<forall>u \<in> set us. \<bar>u\<bar> \<le> max_time \<and> f u \<in> {ExpAvailable, ExpUnavailable}"
  shows "replay e (map (transition_at f) us) t = fold (\<lambda>v e. if v \<le> t then f v else e) us e"
  using assms unfolding replay_def
  by (induction us arbitrary: e) (auto simp: transition_at_def time_of_iso)

lemma div_minute_eq:
  assumes "u \<le> t" and "t < u + MINUTE_IN_MILLISECONDS" and "aligned u"
  shows "t div MINUTE_IN_MILLISECONDS * MINUTE_IN_MILLISECONDS = u"
proof -
  obtain k where k: "u = k * MINUTE_IN_MILLISECONDS"
    using assms(3) by (metis aligned_def minus_mod_eq_div_mult diff_zero)
  have "t = (t - u) + k * MINUTE_IN_MILLISECONDS" using k by simp
  then have "t div MINUTE_IN_MILLISECONDS = k"
    using assms(1,2) minute_pos
    by (metis add.commute add_0 diff_ge_0_iff_ge div_mult_self1 div_pos_pos_trivial less_diff_eq
        less_irrefl linorder_not_le diff_less_eq)
  then show ?thesis using k by simp
qed

section \<open>The fixed offset formatter meets both contracts\<close>

lemma fixed_offset_by_minute:
  "fixed_offset_formatter offset tz t =
     (let n = t div MINUTE_IN_MILLISECONDS + offset
      in [(''weekday'', english_weekday ((n div 1440 + 3) mod 7)), (''literal'', '' at ''),
          (''hour'', pad 2 (n mod 1440 div 60)), (''literal'', '':''),
          (''minute'', pad 2 (n mod 1440 mod 60))])"
proof -
  define l n where "l = t + offset * 60000" and "n = t div 60000 + offset"
  have n: "l div 60000 = n" unfolding l_def n_def by simp
  have day: "l div 86400000 = n div 1440"
    using zdiv_zmult2_eq[of 1440 l 60000] by (simp add: n)
  have tod: "l mod 86400000 div 60000 = n mod 1440"
    using zmod_zmult2_eq[of 1440 l 60000] by (simp add: n)
  have hour: "l mod 86400000 div 3600000 = l mod 86400000 div 60000 div 60"
    using zdiv_zmult2_eq[of 60 "l mod 86400000" 60000] by simp
  show ?thesis
    unfolding fixed_offset_formatter_def Let_def MINUTE_IN_MILLISECONDS_def msPerDay_def
      l_def[symmetric] n_def[symmetric] hour day tod ..
qed

lemma weekday_names:
  "weekdayByEnglishName ''Monday'' = Some monday" "weekdayByEnglishName ''Tuesday'' = Some tuesday"
  "weekdayByEnglishName ''Wednesday'' = Some wednesday" "weekdayByEnglishName ''Thursday'' = Some thursday"
  "weekdayByEnglishName ''Friday'' = Some friday" "weekdayByEnglishName ''Saturday'' = Some saturday"
  "weekdayByEnglishName ''Sunday'' = Some sunday"
  by (simp_all add: weekdayByEnglishName_def)

lemma english_weekday_known: "\<exists>d. weekdayByEnglishName (english_weekday n) = Some d"
  by (auto simp: weekday_names)

lemma fixed_offset_parts_ok: "local_parts_ok (fixed_offset_formatter offset tz t)"
  unfolding local_parts_ok_def fixed_offset_by_minute Let_def
  using english_weekday_known by (simp add: getPart_def del: english_weekday.simps)

interpretation sp: minute_formatter saoPauloFormatter
proof unfold_locales
  fix tz :: string and t :: int
  show "local_parts_ok (saoPauloFormatter tz t)"
    by (simp add: saoPauloFormatter_def fixed_offset_parts_ok)
  show "saoPauloFormatter tz (t div MINUTE_IN_MILLISECONDS * MINUTE_IN_MILLISECONDS) = saoPauloFormatter tz t"
    using minute_pos by (simp add: saoPauloFormatter_def fixed_offset_by_minute)
qed

section \<open>Accepted intervals\<close>

lemma aligned_iff_utc: "aligned t \<longleftrightarrow> getUTCSeconds t = 0 \<and> getUTCMilliseconds t = 0"
proof -
  define s m where "s = t div 1000 mod 60" and "m = t mod 1000"
  have "t mod (1000 * 60) = 1000 * s + m"
    unfolding s_def m_def by (rule zmod_zmult2_eq) simp
  moreover have "0 \<le> s" "0 \<le> m" unfolding s_def m_def by simp_all
  ultimately show ?thesis
    unfolding aligned_def getUTCSeconds_def getUTCMilliseconds_def MINUTE_IN_MILLISECONDS_def
      s_def[symmetric] m_def[symmetric] by auto
qed

lemma validateInterval_Inr:
  "validateInterval (JDate (Some a)) (JDate (Some b)) = Inr (a', b') \<longleftrightarrow>
     a' = a \<and> b' = b \<and> a < b \<and> aligned a \<and> aligned b \<and> b - a \<le> MAXIMUM_INTERVAL_IN_MILLISECONDS"
  by (auto simp: aligned_iff_utc)

text \<open>An interval the calculator accepts between two valid dates.\<close>

definition valid_interval :: "int \<Rightarrow> int \<Rightarrow> bool" where
  "valid_interval a b \<longleftrightarrow> \<bar>a\<bar> \<le> max_time \<and> \<bar>b\<bar> \<le> max_time \<and> a < b \<and> aligned a \<and> aligned b \<and>
     b - a \<le> MAXIMUM_INTERVAL_IN_MILLISECONDS"

context local_formatter
begin

lemma transitions_changes:
  assumes "wf_policy (ScheduledPolicy tz s)" and "valid_interval a b"
  shows "calculateServiceAvailabilityPolicyTransitions fmt (ScheduledPolicy tz s)
      (JDate (Some a)) (JDate (Some b)) =
    Inr (map (transition_at (expectation_at fmt (ScheduledPolicy tz s)))
          (change_minutes (expectation_at fmt (ScheduledPolicy tz s)) (a + MINUTE_IN_MILLISECONDS) b))"
proof -
  have "validateInterval (JDate (Some a)) (JDate (Some b)) = Inr (a, b)"
    using assms(2) by (simp only: validateInterval_Inr valid_interval_def simp_thms)
  moreover have "transition_loop fmt (ScheduledPolicy tz s) b (a + MINUTE_IN_MILLISECONDS)
      (expectation_at fmt (ScheduledPolicy tz s) a) =
    Inr (map (transition_at (expectation_at fmt (ScheduledPolicy tz s)))
          (change_minutes (expectation_at fmt (ScheduledPolicy tz s)) (a + MINUTE_IN_MILLISECONDS) b))"
    using assms by (intro transition_loop_changes) (auto simp: valid_interval_def)
  ultimately show ?thesis
    using evaluate_total[OF assms(1), of a] assms(2)
    by (simp add: calculateServiceAvailabilityPolicyTransitions_def valid_interval_def
        del: validateInterval.simps)
qed

end

context minute_formatter
begin

lemma replay_changes:
  assumes "wf_policy (ScheduledPolicy tz s)" and "valid_interval a b" and "a \<le> t" and "t \<le> b"
  shows "replay (expectation_at fmt (ScheduledPolicy tz s) a)
      (map (transition_at (expectation_at fmt (ScheduledPolicy tz s)))
        (change_minutes (expectation_at fmt (ScheduledPolicy tz s)) (a + MINUTE_IN_MILLISECONDS) b)) t =
    expectation_at fmt (ScheduledPolicy tz s) t" (is "replay (?f a) (map _ ?us) t = ?f t")
proof -
  have bounds: "\<bar>u\<bar> \<le> max_time" if "a \<le> u" "u \<le> b" for u
    using that assms(2) by (auto simp: valid_interval_def)
  have "a \<le> u \<and> u \<le> b" if "u \<in> set ?us" for u
    using that minutes_from_lower[of u "a + MINUTE_IN_MILLISECONDS" b] minute_pos
    by (auto simp: change_minutes_def)
  then have "\<forall>u \<in> set ?us. \<bar>u\<bar> \<le> max_time \<and> ?f u \<in> {ExpAvailable, ExpUnavailable}"
    using bounds scheduled_expectation[OF assms(1)] by blast
  then have "replay (?f a) (map (transition_at ?f) ?us) t =
      fold (\<lambda>v e. if v \<le> t then ?f v else e) ?us (?f (a + MINUTE_IN_MILLISECONDS - MINUTE_IN_MILLISECONDS))"
    by (simp add: replay_transition_at)
  also have "\<dots> = ?f t"
  proof (rule change_minutes_fold)
    fix u
    assume u: "u \<le> t" "t < u + MINUTE_IN_MILLISECONDS" "aligned u"
    show "?f u = ?f t"
      using expectation_minute[OF assms(1), of t] div_minute_eq[OF u] bounds assms(3,4) by simp
  qed (use assms in \<open>auto simp: valid_interval_def\<close>)
  finally show ?thesis .
qed

end

lemma change_minutes_first:
  "change_minutes f u b = v # vs \<Longrightarrow> f v \<noteq> f (u - MINUTE_IN_MILLISECONDS)"
proof (induction "nat (b + 1 - u)" arbitrary: u rule: less_induct)
  case less
  show ?case
  proof (cases "u \<le> b \<and> f u = f (u - MINUTE_IN_MILLISECONDS)")
    case True
    then have "f v \<noteq> f (u + MINUTE_IN_MILLISECONDS - MINUTE_IN_MILLISECONDS)"
      using less.prems minute_pos by (intro less.hyps) (auto simp: change_minutes_simps[of f u])
    then show ?thesis using True by simp
  next
    case False
    then show ?thesis using less.prems by (auto simp: change_minutes_simps[of f u] split: if_splits)
  qed
qed

lemma change_minutes_alternate: "successively (\<lambda>u v. f u \<noteq> f v) (change_minutes f u b)"
proof (induction "nat (b + 1 - u)" arbitrary: u rule: less_induct)
  case less
  show ?case
  proof (cases "u \<le> b")
    case True
    let ?rest = "change_minutes f (u + MINUTE_IN_MILLISECONDS) b"
    have "successively (\<lambda>u v. f u \<noteq> f v) ?rest" using True minute_pos by (intro less.hyps) auto
    moreover have "f (hd ?rest) \<noteq> f u" if "?rest \<noteq> []"
      using that change_minutes_first[of f "u + MINUTE_IN_MILLISECONDS" b "hd ?rest" "tl ?rest"] by simp
    ultimately show ?thesis
      using True by (auto simp: change_minutes_simps[of f u] successively_Cons)
  qed (simp add: change_minutes_simps[of f u])
qed

lemma sorted_change_minutes: "sorted_wrt (<) (change_minutes f u b)"
  by (simp add: change_minutes_def sorted_wrt_filter sorted_minutes_from)

section \<open>Properties\<close>

text \<open>
  C33. On a valid interval the calculator returns, for a scheduled policy, exactly one transition
  for each minute after \<open>fromExclusive\<close> up to \<open>toInclusive\<close> whose expectation differs from
  that of the minute before, in order of time, and it never fails.
\<close>

theorem transitions_are_the_changes:
  assumes "local_formatter fmt" and "wf_policy (ScheduledPolicy tz s)" and "valid_interval a b"
  shows "calculateServiceAvailabilityPolicyTransitions fmt (ScheduledPolicy tz s)
      (JDate (Some a)) (JDate (Some b)) =
    Inr (map (transition_at (expectation_at fmt (ScheduledPolicy tz s)))
          (change_minutes (expectation_at fmt (ScheduledPolicy tz s)) (a + MINUTE_IN_MILLISECONDS) b))"
  by (rule local_formatter.transitions_changes[OF assms])

text \<open>
  C27. Replaying the transitions of an interval from the expectation at its start gives the
  expectation of the policy at every instant of the interval, not only at full minutes.
\<close>

theorem transitions_determine_expectation:
  assumes "minute_formatter fmt" and "wf_policy (ScheduledPolicy tz s)" and "valid_interval a b"
    and "a \<le> t" and "t \<le> b"
    and "calculateServiceAvailabilityPolicyTransitions fmt (ScheduledPolicy tz s)
      (JDate (Some a)) (JDate (Some b)) = Inr trs"
  shows "evaluateServiceAvailabilityPolicy fmt (ScheduledPolicy tz s) (JDate (Some t)) =
    Inr (replay (expectation_at fmt (ScheduledPolicy tz s) a) trs t)"
proof -
  have l: "local_formatter fmt" using assms(1) by (simp add: minute_formatter_def)
  have "\<bar>t\<bar> \<le> max_time" using assms(3-5) by (auto simp: valid_interval_def)
  then show ?thesis
    using minute_formatter.replay_changes[OF assms(1-5)] local_formatter.evaluate_total[OF l assms(2), of t]
      local_formatter.transitions_changes[OF l assms(2,3)] assms(6) by simp
qed

text \<open>
  Splitting an interval at a full minute loses and duplicates nothing: the transitions of
  the two halves, one after the other, are those of the whole.
\<close>

theorem transitions_split:
  assumes "local_formatter fmt" and "wf_policy (ScheduledPolicy tz s)" and "valid_interval a c"
    and "a < b" and "b < c" and "aligned b"
  shows "calculateServiceAvailabilityPolicyTransitions fmt (ScheduledPolicy tz s)
      (JDate (Some a)) (JDate (Some c)) =
    bindR (calculateServiceAvailabilityPolicyTransitions fmt (ScheduledPolicy tz s)
             (JDate (Some a)) (JDate (Some b))) (\<lambda>first.
    bindR (calculateServiceAvailabilityPolicyTransitions fmt (ScheduledPolicy tz s)
             (JDate (Some b)) (JDate (Some c))) (\<lambda>second.
    Inr (first @ second)))"
proof -
  have "valid_interval a b" and "valid_interval b c"
    using assms(3-6) by (auto simp: valid_interval_def)
  then show ?thesis
    using assms minutes_from_append[of a b c]
    by (simp add: local_formatter.transitions_changes change_minutes_def valid_interval_def)
qed

text \<open>
  The transitions of an interval alternate in kind and are strictly increasing in time;
  each lies after \<open>fromExclusive\<close> and not after \<open>toInclusive\<close>.
\<close>

theorem transitions_alternate:
  assumes "local_formatter fmt" and "wf_policy (ScheduledPolicy tz s)" and "valid_interval a b"
    and "calculateServiceAvailabilityPolicyTransitions fmt (ScheduledPolicy tz s)
      (JDate (Some a)) (JDate (Some b)) = Inr trs"
  shows "successively (\<lambda>p q. transition_kind p \<noteq> transition_kind q) trs \<and>
    sorted_wrt (\<lambda>p q. time_of (scheduledFor p) < time_of (scheduledFor q)) trs \<and>
    (\<forall>p \<in> set trs. a < time_of (scheduledFor p) \<and> time_of (scheduledFor p) \<le> b)"
proof -
  define f us where "f = expectation_at fmt (ScheduledPolicy tz s)"
    and "us = change_minutes f (a + MINUTE_IN_MILLISECONDS) b"
  have trs: "trs = map (transition_at f) us"
    using local_formatter.transitions_changes[OF assms(1-3)] assms(4) by (simp add: f_def us_def)
  have range: "a < u \<and> u \<le> b" if "u \<in> set us" for u
    using that minutes_from_lower[of u "a + MINUTE_IN_MILLISECONDS" b] minute_pos
    by (auto simp: us_def change_minutes_def)
  have bound: "\<bar>u\<bar> \<le> max_time" if "u \<in> set us" for u
    using range[OF that] assms(3) by (auto simp: valid_interval_def)
  then have ok: "f u \<in> {ExpAvailable, ExpUnavailable}" if "u \<in> set us" for u
    using that local_formatter.scheduled_expectation[OF assms(1,2)] by (simp add: f_def)
  have time: "time_of (scheduledFor (transition_at f u)) = u" if "u \<in> set us" for u
    using bound[OF that] by (simp add: transition_at_def time_of_iso)
  have kind: "transition_kind (transition_at f u) \<noteq> transition_kind (transition_at f v)"
    if "u \<in> set us" "v \<in> set us" "f u \<noteq> f v" for u v
    using ok[OF that(1)] ok[OF that(2)] that(3) by (auto simp: transition_at_def)
  have "successively (\<lambda>u v. f u \<noteq> f v) us" and "sorted_wrt (<) us"
    by (simp_all add: us_def change_minutes_alternate sorted_change_minutes)
  then show ?thesis
    unfolding trs using range time kind
    by (auto simp: successively_map sorted_wrt_map intro: successively_mono sorted_wrt_mono_rel[rotated])
qed

text \<open>
  The concrete policy of the witnesses: Mondays from 08:00 to 18:00 in the one time zone of the
  allowlist. Monday 5 January 1970, 08:00 local time, is 385200000 ms after the epoch.
\<close>

definition monday_schedule :: WeeklyAvailabilitySchedule where
  "monday_schedule =
     \<lparr>windows = [\<lparr>weekday = monday, window_start = ''08:00'', window_end = ''18:00''\<rparr>]\<rparr>"

definition monday_policy :: ServiceAvailabilityPolicy where
  "monday_policy = ScheduledPolicy ''America/Sao_Paulo'' monday_schedule"

lemma monday_policy_wf: "wf_policy (ScheduledPolicy ''America/Sao_Paulo'' monday_schedule)"
  by code_simp

lemma monday_intervals:
  "valid_interval 385140000 385260000" "valid_interval 385140000 385200000" "aligned 385200000"
  by code_simp+

theorem transitions_are_the_changes_witness:
  "calculateServiceAvailabilityPolicyTransitions saoPauloFormatter monday_policy
      (JDate (Some 385140000)) (JDate (Some 385260000)) =
    Inr [\<lparr>transition_kind = became_available, scheduledFor = ''1970-01-05T11:00:00.000Z''\<rparr>]"
proof -
  have "map (transition_at (expectation_at saoPauloFormatter monday_policy))
      (change_minutes (expectation_at saoPauloFormatter monday_policy) (385140000 + MINUTE_IN_MILLISECONDS) 385260000) =
    [\<lparr>transition_kind = became_available, scheduledFor = ''1970-01-05T11:00:00.000Z''\<rparr>]"
    by code_simp
  then show ?thesis
    using transitions_are_the_changes[OF sp.local_formatter_axioms monday_policy_wf monday_intervals(1)]
    by (simp only: monday_policy_def)
qed

lemma monday_transitions:
  "calculateServiceAvailabilityPolicyTransitions saoPauloFormatter
      (ScheduledPolicy ''America/Sao_Paulo'' monday_schedule)
      (JDate (Some 385140000)) (JDate (Some 385260000)) =
    Inr [\<lparr>transition_kind = became_available, scheduledFor = ''1970-01-05T11:00:00.000Z''\<rparr>]"
  by code_simp

theorem transitions_determine_expectation_witness:
  "evaluateServiceAvailabilityPolicy saoPauloFormatter
      (ScheduledPolicy ''America/Sao_Paulo'' monday_schedule) (JDate (Some 385200123)) =
    Inr (replay
      (expectation_at saoPauloFormatter (ScheduledPolicy ''America/Sao_Paulo'' monday_schedule) 385140000)
      [\<lparr>transition_kind = became_available, scheduledFor = ''1970-01-05T11:00:00.000Z''\<rparr>] 385200123)"
  by (rule transitions_determine_expectation[OF sp.minute_formatter_axioms monday_policy_wf
        monday_intervals(1) _ _ monday_transitions]) simp_all

theorem transitions_split_witness:
  "calculateServiceAvailabilityPolicyTransitions saoPauloFormatter monday_policy
      (JDate (Some 385140000)) (JDate (Some 385260000)) =
    bindR (calculateServiceAvailabilityPolicyTransitions saoPauloFormatter monday_policy
             (JDate (Some 385140000)) (JDate (Some 385200000))) (\<lambda>first.
    bindR (calculateServiceAvailabilityPolicyTransitions saoPauloFormatter monday_policy
             (JDate (Some 385200000)) (JDate (Some 385260000))) (\<lambda>second.
    Inr (first @ second)))"
  unfolding monday_policy_def
  by (rule transitions_split[OF sp.local_formatter_axioms monday_policy_wf monday_intervals(1) _ _
        monday_intervals(3)]) simp_all

theorem transitions_alternate_witness:
  "385140000 < time_of ''1970-01-05T11:00:00.000Z'' \<and> time_of ''1970-01-05T11:00:00.000Z'' \<le> 385260000"
  using transitions_alternate[OF sp.local_formatter_axioms monday_policy_wf monday_intervals(1)
      monday_transitions] by simp

text \<open>
  An accepted override takes effect until its expiration and not after it: before it, a
  disabled service stays disabled, \<open>keep_available\<close> makes every other one available and
  \<open>suspend_schedule\<close> makes it manual; from the expiration on, the policy alone decides. At the
  instant it is created it has not expired.
\<close>

theorem override_until_expiration:
  assumes "createServiceAvailabilityOverride input (JDate (Some now)) = Inr ov" and "\<bar>t\<bar> \<le> max_time"
  shows "now < time_of (expiresAt ov) \<and>
    evaluateServiceAvailabilityWithOverride fmt policy (Some ov) (JDate (Some t)) =
      (if time_of (expiresAt ov) \<le> t
       then evaluateServiceAvailabilityPolicy fmt policy (JDate (Some t))
       else if policy_mode policy = disabled then Inr ExpDisabled
       else if kind ov = keep_available then Inr ExpAvailable
       else Inr ExpManual)"
proof -
  obtain v e where ov: "get_prop input ''expiresAt'' = JStr v" "date_parse v = Some e" "now < e"
      "expiresAt ov = v"
    using assms(1)
    by (cases "get_prop input ''expiresAt''")
      (auto simp: createServiceAvailabilityOverride_def result_simps split: if_splits option.splits)
  then show ?thesis
    using assms(2)
    by (cases "kind ov") (simp_all add: evaluateServiceAvailabilityWithOverride_def time_of_def
        isServiceAvailabilityOverrideExpiredAtTimestamp_def)
qed

theorem override_until_expiration_witness:
  "evaluateServiceAvailabilityWithOverride saoPauloFormatter monday_policy
      (Some \<lparr>kind = keep_available, expiresAt = ''1970-01-05T11:00:00.000Z''\<rparr>) (JDate (Some 5)) =
     Inr ExpAvailable \<and>
   evaluateServiceAvailabilityWithOverride saoPauloFormatter monday_policy
      (Some \<lparr>kind = keep_available, expiresAt = ''1970-01-05T11:00:00.000Z''\<rparr>) (JDate (Some 471600000)) =
     evaluateServiceAvailabilityPolicy saoPauloFormatter monday_policy (JDate (Some 471600000))"
proof -
  let ?ov = "\<lparr>kind = keep_available, expiresAt = ''1970-01-05T11:00:00.000Z''\<rparr>"
  have c: "createServiceAvailabilityOverride
      (literal_obj [(''kind'', JStr ''keep_available''), (''expiresAt'', JStr ''1970-01-05T11:00:00.000Z'')])
      (JDate (Some 0)) = Inr ?ov" by code_simp
  have e: "time_of (expiresAt ?ov) = 385200000" by code_simp
  show ?thesis
    using override_until_expiration[OF c, of 5 saoPauloFormatter monday_policy]
      override_until_expiration[OF c, of 471600000 saoPauloFormatter monday_policy] e
    by (simp add: max_time_def monday_policy_def)
qed

end
