(* ===== verification/Dependency_Graph.thy ===== *)
theory Dependency_Graph
  imports Prelude "HOL-Library.AList" "HOL-Library.Multiset"
begin

text \<open>
  The dependency graph of the registered services (\<open>service-management/domain/dependency-graph.ts\<close>):
  its construction with its checks, the transitive closures in both directions, and the two
  topological orders. A JavaScript Map is an association list in order of insertion;
  \<open>AList.update\<close> is \<open>map.set\<close>. \<open>array.sort()\<close> with no comparator is \<^const>\<open>sort\<close> on strings.

  The closures are the reachable services, the orders contain each service of the closure once
  and put every dependency before its dependents (or after them), and construction succeeds
  exactly on closed acyclic descriptions.
\<close>

section \<open>The graph and its construction\<close>

record GraphNode =
  serviceId :: string
  directDependencies :: "string list"
  directDependents :: "string list"

type_synonym node_map = "(string \<times> GraphNode) list"

record DependencyEntry =
  entry_serviceId :: string
  entry_dependencies :: "string list"

record RegisteredServiceDependencyGraph =
  graph :: node_map
  serviceIds :: "string list"

fun create_nodes :: "DependencyEntry list \<Rightarrow> node_map \<Rightarrow> node_map result" where
  "create_nodes [] nodeMap = Inr nodeMap"
| "create_nodes (entry # entries) nodeMap =
     (if entry_serviceId entry \<in> fst ` set nodeMap
      then Inl (DependencyValidationError ''duplicate_dependency'')
      else create_nodes entries
             (AList.update (entry_serviceId entry)
                \<lparr>serviceId = entry_serviceId entry, directDependencies = entry_dependencies entry,
                 directDependents = []\<rparr> nodeMap))"

fun link_dependencies :: "string \<Rightarrow> string list \<Rightarrow> node_map \<Rightarrow> node_map result" where
  "link_dependencies sid [] nodeMap = Inr nodeMap"
| "link_dependencies sid (depId # depIds) nodeMap =
     (case map_of nodeMap depId of
        None \<Rightarrow> Inl (DependencyValidationError ''unknown_dependency'')
      | Some depNode \<Rightarrow>
          link_dependencies sid depIds
            (AList.update depId (depNode\<lparr>directDependents := directDependents depNode @ [sid]\<rparr>) nodeMap))"

fun link_entries :: "DependencyEntry list \<Rightarrow> node_map \<Rightarrow> node_map result" where
  "link_entries [] nodeMap = Inr nodeMap"
| "link_entries (entry # entries) nodeMap =
     bindR (link_dependencies (entry_serviceId entry) (entry_dependencies entry) nodeMap)
       (link_entries entries)"

definition sort_dependents :: "node_map \<Rightarrow> node_map" where
  "sort_dependents nodeMap =
     map (\<lambda>(k, node). (k, node\<lparr>directDependents := sort (directDependents node)\<rparr>)) nodeMap"

section \<open>Degrees and queues\<close>

type_synonym degrees = "(string \<times> int) list"
type_synonym adjacency = "(string \<times> string list) list"

text \<open>\<open>map.get(k)?.push(v)\<close>\<close>

definition push_to :: "string \<Rightarrow> string \<Rightarrow> adjacency \<Rightarrow> adjacency" where
  "push_to k v m = (case map_of m k of None \<Rightarrow> m | Some vs \<Rightarrow> AList.update k (vs @ [v]) m)"

text \<open>\<open>map.get(k) ?? []\<close> and \<open>map.get(k) ?? d\<close>\<close>

definition list_at :: "adjacency \<Rightarrow> string \<Rightarrow> string list" where
  "list_at m k = (case map_of m k of None \<Rightarrow> [] | Some vs \<Rightarrow> vs)"

definition degree_at :: "int \<Rightarrow> degrees \<Rightarrow> string \<Rightarrow> int" where
  "degree_at d m k = (case map_of m k of None \<Rightarrow> d | Some n \<Rightarrow> n)"

text \<open>
  The inner loop that both traversals share: each neighbour loses one degree and is queued
  when none is left. \<open>reorder\<close> is what the code does to the queue after the push: nothing in
  \<open>topologicalSort\<close>, \<open>queue.sort()\<close> in \<open>detectCycles\<close>.
\<close>

fun relax ::
  "(string list \<Rightarrow> string list) \<Rightarrow> string list \<Rightarrow> degrees \<Rightarrow> string list \<Rightarrow> degrees \<times> string list" where
  "relax reorder [] inDegree queue = (inDegree, queue)"
| "relax reorder (neighbor # neighbors) inDegree queue =
     (let newDegree = degree_at 1 inDegree neighbor - 1;
          inDegree' = AList.update neighbor newDegree inDegree
      in relax reorder neighbors inDegree' (if newDegree = 0 then reorder (queue @ [neighbor]) else queue))"

text \<open>The work left: the positive degrees of the services that some list mentions.\<close>

definition targets :: "adjacency \<Rightarrow> string set" where
  "targets adj = (\<Union>(_, vs) \<in> set adj. set vs)"

definition work :: "string set \<Rightarrow> degrees \<Rightarrow> nat" where
  "work U m = (\<Sum>k \<in> U. nat (degree_at 1 m k))"

lemma finite_targets [simp]: "finite (targets adj)"
  by (auto simp: targets_def)

lemma list_at_targets: "set (list_at adj k) \<subseteq> targets adj"
  by (cases "map_of adj k") (auto simp: list_at_def targets_def dest!: map_of_SomeD)

lemma degree_at_update [simp]:
  "degree_at d (AList.update k n m) x = (if x = k then n else degree_at d m x)"
  by (simp add: degree_at_def update_conv')

lemma work_update:
  assumes "finite U" and "k \<in> U"
  shows "work U (AList.update k n m) + nat (degree_at 1 m k) = work U m + nat n"
  using sum.remove[OF assms, of "\<lambda>x. nat (degree_at 1 m x)"]
    sum.remove[OF assms, of "\<lambda>x. nat (degree_at 1 (AList.update k n m) x)"]
  by (simp add: work_def)

lemma relax_work:
  assumes "\<And>q. length (reorder q) = length q" and "finite U" and "set ns \<subseteq> U"
    and "relax reorder ns m q = (m', q')"
  shows "work U m' + length q' \<le> work U m + length q"
  using assms(3,4)
proof (induction ns arbitrary: m q)
  case (Cons n ns)
  define d where "d = degree_at 1 m n - 1"
  define m1 where "m1 = AList.update n d m"
  define q1 where "q1 = (if d = 0 then reorder (q @ [n]) else q)"
  have "work U m1 + nat (d + 1) = work U m + nat d"
    using work_update[OF assms(2), of n d m] Cons.prems by (simp add: m1_def d_def)
  moreover have "length q1 = length q + (if d = 0 then 1 else 0)" by (simp add: q1_def assms(1))
  ultimately have "work U m1 + length q1 \<le> work U m + length q"
    by (cases "d = 0"; cases "0 \<le> d") (simp_all add: nat_add_distrib)
  moreover have "relax reorder ns m1 q1 = (m', q')"
    using Cons.prems(2) by (simp add: Let_def d_def m1_def q1_def)
  ultimately show ?case
    using Cons.IH[of m1 q1] Cons.prems(1) by simp
qed simp

section \<open>Cycle detection\<close>

function cycle_loop :: "adjacency \<Rightarrow> string list \<Rightarrow> degrees \<Rightarrow> string list \<Rightarrow> string list" where
  "cycle_loop dependents [] indegree visited = visited"
| "cycle_loop dependents (current # queue) indegree visited =
     (case relax sort (list_at dependents current) indegree queue of
        (indegree', queue') \<Rightarrow> cycle_loop dependents queue' indegree' (visited @ [current]))"
  by pat_completeness auto
termination
proof (relation "measure (\<lambda>(adj, q, m, _). work (targets adj) m + length q)", goal_cases)
  case (2 adj c q m visited m' q')
  then show ?case
    using relax_work[of sort "targets adj" "list_at adj c" m q m' q'] list_at_targets[of adj c] by simp
qed simp

definition push_dependents :: "GraphNode \<Rightarrow> adjacency \<Rightarrow> adjacency" where
  "push_dependents node dependents =
     fold (\<lambda>dependency. push_to dependency (serviceId node)) (directDependencies node) dependents"

definition sources :: "degrees \<Rightarrow> string list" where
  "sources m = map fst (filter (\<lambda>(_, degree). degree = 0) m)"

text \<open>The counter \<open>visited\<close> of the code is the length of the list kept here.\<close>

definition detectCycles :: "node_map \<Rightarrow> unit result" where
  "detectCycles g =
     (let indegree = map (\<lambda>(k, node). (k, int (length (directDependencies node)))) g;
          dependents = fold push_dependents (map snd g) (map (\<lambda>(k, _). (k, [])) g);
          visited = cycle_loop dependents (sort (sources indegree)) indegree []
      in if length visited \<noteq> length g
         then Inl (DependencyValidationError ''circular_dependency'') else Inr ())"

definition createDependencyGraph :: "DependencyEntry list \<Rightarrow> RegisteredServiceDependencyGraph result" where
  "createDependencyGraph entries =
     bindR (create_nodes entries []) (\<lambda>nodeMap.
     bindR (link_entries entries nodeMap) (\<lambda>linked.
     let g = sort_dependents linked in
     bindR (detectCycles g) (\<lambda>_.
     Inr \<lparr>graph = g, serviceIds = sort (map fst nodeMap)\<rparr>)))"

definition hasService :: "RegisteredServiceDependencyGraph \<Rightarrow> string \<Rightarrow> bool" where
  "hasService g sid \<longleftrightarrow> sid \<in> fst ` set (graph g)"

datatype direction = Dependencies | Dependents

fun neighbors :: "direction \<Rightarrow> GraphNode \<Rightarrow> string list" where
  "neighbors Dependencies node = directDependencies node"
| "neighbors Dependents node = directDependents node"

definition directDependenciesOf :: "RegisteredServiceDependencyGraph \<Rightarrow> string \<Rightarrow> string list" where
  "directDependenciesOf g sid =
     (case map_of (graph g) sid of None \<Rightarrow> [] | Some node \<Rightarrow> directDependencies node)"

definition directDependentsOf :: "RegisteredServiceDependencyGraph \<Rightarrow> string \<Rightarrow> string list" where
  "directDependentsOf g sid =
     (case map_of (graph g) sid of None \<Rightarrow> [] | Some node \<Rightarrow> directDependents node)"

section \<open>Closures\<close>

text \<open>
  \<open>stack.push\<close> and \<open>stack.pop\<close> work at the head of the list. The loop body for one neighbour:
\<close>

fun closure_visit :: "string \<Rightarrow> string \<Rightarrow> string list \<times> string list \<Rightarrow> string list \<times> string list" where
  "closure_visit startId neighbor (res, stack) =
     (if neighbor \<notin> set res \<and> neighbor \<noteq> startId
      then (res @ [neighbor], neighbor # stack) else (res, stack))"

definition neighbors_of :: "node_map \<Rightarrow> direction \<Rightarrow> string \<Rightarrow> string list" where
  "neighbors_of g dir current = (case map_of g current of None \<Rightarrow> [] | Some node \<Rightarrow> neighbors dir node)"

definition all_neighbors :: "node_map \<Rightarrow> direction \<Rightarrow> string set" where
  "all_neighbors g dir = (\<Union>(_, node) \<in> set g. set (neighbors dir node))"

lemma finite_all_neighbors [simp]: "finite (all_neighbors g dir)"
  by (auto simp: all_neighbors_def)

lemma neighbors_of_subset: "set (neighbors_of g dir k) \<subseteq> all_neighbors g dir"
  by (cases "map_of g k") (auto simp: neighbors_of_def all_neighbors_def dest!: map_of_SomeD)

lemma closure_visit_fold:
  assumes "fold (closure_visit s) ns (res, stack) = (res', stack')"
  obtains added where "set added = set ns - set res - {s}" and "distinct added"
    and "res' = res @ added" and "stack' = rev added @ stack"
proof -
  have "\<exists>added. set added = set ns - set res - {s} \<and> distinct added \<and>
    res' = res @ added \<and> stack' = rev added @ stack"
    using assms
  proof (induction ns arbitrary: res stack)
    case (Cons n ns)
    show ?case
    proof (cases "n \<notin> set res \<and> n \<noteq> s")
      case True
      then have "fold (closure_visit s) ns (res @ [n], n # stack) = (res', stack')"
        using Cons.prems by simp
      from Cons.IH[OF this] obtain added where "set added = set ns - set (res @ [n]) - {s}"
        "distinct added" "res' = (res @ [n]) @ added" "stack' = rev added @ n # stack" by blast
      then show ?thesis using True by (intro exI[of _ "n # added"]) auto
    next
      case False
      then have "fold (closure_visit s) ns (res, stack) = (res', stack')"
        using Cons.prems by auto
      from Cons.IH[OF this] show ?thesis using False by auto
    qed
  qed simp
  then show thesis using that by blast
qed

text \<open>
  The loop. A service on the stack that is not in the graph has no neighbours (\<open>continue\<close>).
\<close>

function closure_loop ::
  "node_map \<Rightarrow> string \<Rightarrow> direction \<Rightarrow> string list \<Rightarrow> string list \<Rightarrow> string list" where
  "closure_loop g startId dir [] res = res"
| "closure_loop g startId dir (current # stack) res =
     (case fold (closure_visit startId) (neighbors_of g dir current) (res, stack) of
        (res', stack') \<Rightarrow> closure_loop g startId dir stack' res')"
  by pat_completeness auto
termination
proof (relation "measure (\<lambda>(g, s, dir, stack, res). 2 * card (all_neighbors g dir - set res) + length stack)",
    goal_cases)
  case (2 g s dir current stack res res' stack')
  then obtain added where a: "set added = set (neighbors_of g dir current) - set res - {s}"
    "distinct added" "res' = res @ added" "stack' = rev added @ stack"
    by (metis closure_visit_fold)
  have "set added \<subseteq> all_neighbors g dir - set res"
    using neighbors_of_subset[of g dir current] a(1) by blast
  then have "card (all_neighbors g dir - set res - set added) + card (set added) =
      card (all_neighbors g dir - set res)"
    by (metis card_Diff_subset card_mono finite_Diff finite_all_neighbors le_add_diff_inverse2 List.finite_set)
  moreover have "all_neighbors g dir - set res' = all_neighbors g dir - set res - set added"
    using a(3) by auto
  ultimately show ?case using a(2,4) by (simp add: distinct_card)
qed simp

definition computeClosure :: "node_map \<Rightarrow> string \<Rightarrow> direction \<Rightarrow> string list" where
  "computeClosure g startId dir = sort (closure_loop g startId dir [startId] [])"

definition transitiveDependenciesOf :: "RegisteredServiceDependencyGraph \<Rightarrow> string \<Rightarrow> string list" where
  "transitiveDependenciesOf g sid = computeClosure (graph g) sid Dependencies"

definition transitiveDependentsOf :: "RegisteredServiceDependencyGraph \<Rightarrow> string \<Rightarrow> string list" where
  "transitiveDependentsOf g sid = computeClosure (graph g) sid Dependents"

section \<open>Topological orders\<close>

datatype sort_direction = forward | reverse

text \<open>The set \<open>closure\<close>: first the closures of the requested services, then the services.\<close>

definition requested_closure :: "node_map \<Rightarrow> string list \<Rightarrow> sort_direction \<Rightarrow> string list" where
  "requested_closure g ids dir =
     fold set_add ids
       (fold (\<lambda>i closure. fold set_add
                (computeClosure g i (if dir = forward then Dependencies else Dependents)) closure)
          ids [])"

definition add_edge :: "string \<Rightarrow> string \<Rightarrow> degrees \<times> adjacency \<Rightarrow> degrees \<times> adjacency" where
  "add_edge i neighbor = (\<lambda>(inDegree, adj).
     (AList.update i (degree_at 0 inDegree i + 1) inDegree, push_to neighbor i adj))"

definition add_edges :: "node_map \<Rightarrow> string list \<Rightarrow> string \<Rightarrow> degrees \<times> adjacency \<Rightarrow> degrees \<times> adjacency" where
  "add_edges g closure i =
     fold (add_edge i) (filter (\<lambda>neighbor. neighbor \<in> set closure) (neighbors_of g Dependencies i))"

fun visit_batch ::
  "adjacency \<Rightarrow> string list \<Rightarrow> string list \<Rightarrow> degrees \<Rightarrow> string list \<Rightarrow> string list \<times> degrees \<times> string list" where
  "visit_batch adj [] res inDegree queue = (res, inDegree, queue)"
| "visit_batch adj (current # batch) res inDegree queue =
     (case relax (\<lambda>q. q) (list_at adj current) inDegree queue of
        (inDegree', queue') \<Rightarrow> visit_batch adj batch (res @ [current]) inDegree' queue')"

lemma visit_batch_work:
  "visit_batch adj batch res m q = (res', m', q') \<Longrightarrow>
     work (targets adj) m' + length q' \<le> work (targets adj) m + length q"
proof (induction batch arbitrary: res m q)
  case (Cons current batch)
  obtain m1 q1 where r: "relax (\<lambda>q. q) (list_at adj current) m q = (m1, q1)" by fastforce
  then have "work (targets adj) m' + length q' \<le> work (targets adj) m1 + length q1"
    using Cons.prems by (intro Cons.IH[of "res @ [current]"]) simp
  then show ?case
    using relax_work[OF _ finite_targets list_at_targets r] by simp
qed simp

function batch_loop :: "adjacency \<Rightarrow> string list \<Rightarrow> degrees \<Rightarrow> string list \<Rightarrow> string list" where
  "batch_loop adj [] inDegree res = res"
| "batch_loop adj (q # queue) inDegree res =
     (case visit_batch adj (sort (q # queue)) res inDegree [] of
        (res', inDegree', queue') \<Rightarrow> batch_loop adj queue' inDegree' res')"
  by pat_completeness auto
termination
proof (relation "measure (\<lambda>(adj, q, m, _). work (targets adj) m + length q)", goal_cases)
  case (2 adj q queue m res res' p m' q')
  then have "visit_batch adj (sort (q # queue)) res m [] = (res', m', q')" by simp
  from visit_batch_work[OF this] show ?case by simp
qed simp

definition topologicalSort :: "node_map \<Rightarrow> string list \<Rightarrow> sort_direction \<Rightarrow> string list" where
  "topologicalSort g ids dir =
     (let closure = requested_closure g ids dir;
          (inDegree, adj) = fold (add_edges g closure) closure
             (map (\<lambda>i. (i, 0)) closure, map (\<lambda>i. (i, [])) closure);
          res = batch_loop adj (sort (sources inDegree)) inDegree []
      in if dir = forward then res else rev res)"

definition topologicalDependenciesFirst :: "RegisteredServiceDependencyGraph \<Rightarrow> string list \<Rightarrow> string list" where
  "topologicalDependenciesFirst g ids = topologicalSort (graph g) ids forward"

definition topologicalDependentsFirst :: "RegisteredServiceDependencyGraph \<Rightarrow> string list \<Rightarrow> string list" where
  "topologicalDependentsFirst g ids = topologicalSort (graph g) ids reverse"

section \<open>The closures are the reachable services\<close>

definition edges :: "node_map \<Rightarrow> direction \<Rightarrow> (string \<times> string) set" where
  "edges g dir = {(a, b). b \<in> set (neighbors_of g dir a)}"

lemma closed_under_edges:
  assumes "\<forall>x \<in> S. set (neighbors_of g dir x) \<subseteq> S" and "s \<in> S" and "(s, x) \<in> (edges g dir)\<^sup>*"
  shows "x \<in> S"
  using assms(3,2) by induction (use assms(1) in \<open>auto simp: edges_def\<close>)

lemma closure_loop_reachable:
  assumes "set res \<subseteq> {x. (s, x) \<in> (edges g dir)\<^sup>+} - {s}" and "distinct res"
    and "set stack \<subseteq> insert s (set res)"
    and "\<forall>x \<in> insert s (set res) - set stack. set (neighbors_of g dir x) \<subseteq> insert s (set res)"
  shows "set (closure_loop g s dir stack res) = {x. (s, x) \<in> (edges g dir)\<^sup>+} - {s} \<and>
    distinct (closure_loop g s dir stack res)"
  using assms
proof (induction g s dir stack res rule: closure_loop.induct)
  case (1 g s dir res)
  have "x \<in> insert s (set res)" if "(s, x) \<in> (edges g dir)\<^sup>+" for x
    using 1(4) that by (intro closed_under_edges[of "insert s (set res)" g dir s x]) auto
  then show ?case using 1 by auto
next
  case (2 g s dir current stack res)
  obtain res' stack' where f:
    "fold (closure_visit s) (neighbors_of g dir current) (res, stack) = (res', stack')" by fastforce
  then obtain added where a: "set added = set (neighbors_of g dir current) - set res - {s}"
    "distinct added" "res' = res @ added" "stack' = rev added @ stack" by (rule closure_visit_fold)
  have "(s, x) \<in> (edges g dir)\<^sup>+" if "x \<in> set (neighbors_of g dir current)" for x
  proof -
    have "(s, current) \<in> (edges g dir)\<^sup>*" using "2.prems"(1,3) by (auto intro: trancl_into_rtrancl)
    moreover have "(current, x) \<in> edges g dir" using that by (simp add: edges_def)
    ultimately show ?thesis by (rule rtrancl_into_trancl1)
  qed
  then have "set res' \<subseteq> {x. (s, x) \<in> (edges g dir)\<^sup>+} - {s}" using "2.prems"(1) a by auto
  moreover have "distinct res'" "set stack' \<subseteq> insert s (set res')" using "2.prems" a by auto
  moreover have "\<forall>x \<in> insert s (set res') - set stack'. set (neighbors_of g dir x) \<subseteq> insert s (set res')"
  proof
    fix x
    assume x: "x \<in> insert s (set res') - set stack'"
    show "set (neighbors_of g dir x) \<subseteq> insert s (set res')"
      using x "2.prems"(4) a by (cases "x = current") auto
  qed
  ultimately show ?case using "2.IH"[OF f[symmetric]] f by simp
qed

lemma computeClosure_set: "set (computeClosure g s dir) = {x. (s, x) \<in> (edges g dir)\<^sup>+} - {s}"
  using closure_loop_reachable[of "[]" s g dir "[s]"] by (simp add: computeClosure_def)

lemma computeClosure_distinct: "distinct (computeClosure g s dir)"
  using closure_loop_reachable[of "[]" s g dir "[s]"] by (simp add: computeClosure_def)

lemma requested_closure_set:
  "set (requested_closure g ids dir) =
     {x. \<exists>i \<in> set ids. (i, x) \<in> (edges g (if dir = forward then Dependencies else Dependents))\<^sup>*}"
proof -
  have "set (fold (\<lambda>i closure. fold set_add (computeClosure g i d) closure) is acc) =
      set acc \<union> (\<Union>i \<in> set is. set (computeClosure g i d))" for "is" acc d
    by (induction "is" arbitrary: acc) auto
  then show ?thesis
    by (auto simp: requested_closure_def computeClosure_set rtrancl_eq_or_trancl)
qed

lemma requested_closure_distinct: "distinct (requested_closure g ids dir)"
proof -
  have "distinct acc \<Longrightarrow> distinct (fold (\<lambda>i closure. fold set_add (computeClosure g i d) closure) is acc)"
    for "is" acc d
    by (induction "is" arbitrary: acc) (auto simp: distinct_fold_set_add)
  then show ?thesis by (simp add: requested_closure_def distinct_fold_set_add)
qed

section \<open>The invariant of both queue traversals\<close>

text \<open>
  \<open>V\<close> is the set of services traversed, \<open>deps\<close> their dependencies inside \<open>V\<close>, \<open>visited\<close>
  the services taken from the queue so far and \<open>pending\<close> those still queued: a degree counts the
  dependencies not yet visited, the services without any are visited or pending, and every
  visited service comes after its dependencies.
\<close>

definition kahn_inv ::
  "string set \<Rightarrow> (string \<Rightarrow> string list) \<Rightarrow> string list \<Rightarrow> string list \<Rightarrow> degrees \<Rightarrow> bool" where
  "kahn_inv V deps visited pending m \<longleftrightarrow>
     distinct (visited @ pending) \<and> set (visited @ pending) \<subseteq> V \<and>
     (\<forall>x \<in> V. degree_at 1 m x = int (length (filter (\<lambda>d. d \<notin> set visited) (deps x)))) \<and>
     (\<forall>x \<in> V. degree_at 1 m x = 0 \<longleftrightarrow> x \<in> set (visited @ pending)) \<and>
     (\<forall>x d. x \<in> set visited \<longrightarrow> d \<in> set (deps x) \<longrightarrow> before visited d x)"

definition adjacent :: "string set \<Rightarrow> (string \<Rightarrow> string list) \<Rightarrow> adjacency \<Rightarrow> bool" where
  "adjacent V deps adj \<longleftrightarrow>
     (\<forall>c \<in> V. \<forall>x. count_list (list_at adj c) x = (if x \<in> V then count_list (deps x) c else 0))"

lemma kahn_invD:
  assumes "kahn_inv V deps R P m"
  shows "distinct (R @ P)" and "set (R @ P) \<subseteq> V"
    and "x \<in> V \<Longrightarrow> degree_at 1 m x = int (length (filter (\<lambda>d. d \<notin> set R) (deps x)))"
    and "x \<in> V \<Longrightarrow> degree_at 1 m x = 0 \<longleftrightarrow> x \<in> set (R @ P)"
    and "x \<in> set R \<Longrightarrow> d \<in> set (deps x) \<Longrightarrow> before R d x"
  using assms unfolding kahn_inv_def by blast+

lemma kahn_inv_pending:
  assumes "kahn_inv V deps R P m" and "mset P = mset P'"
  shows "kahn_inv V deps R P' m"
proof -
  have "set P = set P'" "distinct P = distinct P'"
    using assms(2) by (auto dest: mset_eq_setD mset_eq_imp_distinct_iff)
  then show ?thesis using assms(1) by (simp only: kahn_inv_def set_append distinct_append simp_thms) blast
qed

lemma relax_effect:
  assumes "\<And>q. mset (reorder q) = mset q"
    and "\<forall>x \<in> set ns. int (count_list ns x) \<le> degree_at 1 m x"
    and "relax reorder ns m q = (m', q')"
  shows "(\<forall>x. degree_at 1 m' x = degree_at 1 m x - int (count_list ns x)) \<and>
    mset q' = mset q + mset_set {x \<in> set ns. degree_at 1 m x = int (count_list ns x)}"
  using assms(2,3)
proof (induction ns arbitrary: m q)
  case (Cons n ns)
  define d where "d = degree_at 1 m n - 1"
  define m1 where "m1 = AList.update n d m"
  define q1 where "q1 = (if d = 0 then reorder (q @ [n]) else q)"
  have deg: "degree_at 1 m1 x = (if x = n then d else degree_at 1 m x)" for x by (simp add: m1_def)
  have le: "int (count_list ns n) \<le> d" using Cons.prems(1) by (simp add: d_def)
  have r: "relax reorder ns m1 q1 = (m', q')"
    using Cons.prems(2) by (simp add: Let_def d_def m1_def q1_def)
  have pre: "\<forall>x \<in> set ns. int (count_list ns x) \<le> degree_at 1 m1 x"
    using Cons.prems(1) le by (auto simp: deg)
  let ?S = "{x \<in> set ns. degree_at 1 m1 x = int (count_list ns x)}"
  let ?S' = "{x \<in> set (n # ns). degree_at 1 m x = int (count_list (n # ns) x)}"
  have "?S' = (if d = 0 then insert n ?S else ?S) \<and> (d = 0 \<longrightarrow> n \<notin> ?S)"
    using le by (auto simp: deg d_def count_list_0_iff)
  then have "mset q1 + mset_set ?S = mset q + mset_set ?S'"
    by (auto simp: q1_def assms(1))
  then show ?case
    using Cons.IH[OF pre r] by (auto simp: deg d_def)
qed simp

lemma length_filter_insert:
  "c \<notin> set R \<Longrightarrow> length (filter (\<lambda>d. d \<notin> set R) ds) =
     length (filter (\<lambda>d. d \<notin> set (R @ [c])) ds) + count_list ds c"
  by (induction ds) auto

lemma kahn_step:
  assumes inv: "kahn_inv V deps R (c # P @ q) m" and adj: "adjacent V deps adj"
    and "\<And>q. mset (reorder q) = mset q"
    and r: "relax reorder (list_at adj c) m q = (m', q')"
  shows "kahn_inv V deps (R @ [c]) (P @ q') m'"
proof -
  define ns where "ns = list_at adj c"
  have c: "c \<in> V" "c \<notin> set R" using kahn_invD(1,2)[OF inv] by auto
  have count: "count_list ns x = (if x \<in> V then count_list (deps x) c else 0)" for x
    using adj c by (simp add: adjacent_def ns_def)
  have nsV: "set ns \<subseteq> V" using count by (metis count_list_0_iff subsetI)
  have deg: "degree_at 1 m x = int (length (filter (\<lambda>d. d \<notin> set (R @ [c])) (deps x)) + count_list ns x)"
    if "x \<in> V" for x
    using kahn_invD(3)[OF inv that] length_filter_insert[OF c(2), of "deps x"] that by (simp add: count)
  have pre: "\<forall>x \<in> set ns. int (count_list ns x) \<le> degree_at 1 m x" using nsV deg by auto
  define S where "S = {x \<in> set ns. degree_at 1 m x = int (count_list ns x)}"
  have eff: "\<forall>x. degree_at 1 m' x = degree_at 1 m x - int (count_list ns x)"
      "mset q' = mset q + mset_set S"
    using relax_effect[OF assms(3) pre r[folded ns_def]] by (auto simp: S_def)
  have zero: "degree_at 1 m x = 0 \<longleftrightarrow> x \<in> set (R @ c # P @ q)" if "x \<in> V" for x
    using kahn_invD(4)[OF inv that] .
  have "x \<notin> S" if "x \<in> set (R @ c # P @ q)" for x
    using zero[of x] that kahn_invD(2)[OF inv] by (auto simp: S_def count_list_0_iff)
  moreover have finS: "finite S" by (simp add: S_def)
  ultimately have fresh: "set (R @ c # P @ q) \<inter> S = {}" by blast
  have setq: "set q' = set q \<union> S" using arg_cong[OF eff(2), of set_mset] finS by simp
  obtain ss where ss: "set ss = S" "distinct ss" using finite_distinct_list[OF finS] by blast
  then have "mset (R @ c # P @ q') = mset (R @ c # P @ q @ ss)"
    using eff(2) mset_set_set[OF ss(2)] by simp
  moreover have "distinct (R @ c # P @ q @ ss)" using kahn_invD(1)[OF inv] fresh ss by auto
  ultimately have dist: "distinct (R @ c # P @ q')" using mset_eq_imp_distinct_iff by blast
  have finished: "degree_at 1 m' x = 0 \<longleftrightarrow> x \<in> set (R @ c # P @ q) \<or> x \<in> S" if x: "x \<in> V" for x
  proof (cases "x \<in> set ns")
    case True
    then have "0 < count_list ns x" using count_list_0_iff[of ns x] by auto
    then show ?thesis using True zero[OF x] deg[OF x] eff(1) by (auto simp: S_def)
  next
    case False
    then show ?thesis using zero[OF x] eff(1) by (simp add: S_def count_list_0_iff)
  qed
  show ?thesis
    unfolding kahn_inv_def
  proof (intro conjI ballI allI impI)
    show "distinct ((R @ [c]) @ P @ q')" using dist by simp
    show "set ((R @ [c]) @ P @ q') \<subseteq> V" using kahn_invD(2)[OF inv] setq nsV by (auto simp: S_def)
    fix x
    assume x: "x \<in> V"
    show "degree_at 1 m' x = int (length (filter (\<lambda>d. d \<notin> set (R @ [c])) (deps x)))"
      using deg[OF x] eff(1) by simp
    show "degree_at 1 m' x = 0 \<longleftrightarrow> x \<in> set ((R @ [c]) @ P @ q')"
      using finished[OF x] setq by auto
  next
    fix x d
    assume xd: "x \<in> set (R @ [c])" "d \<in> set (deps x)"
    show "before (R @ [c]) d x"
    proof (cases "x = c")
      case True
      have "degree_at 1 m c = 0" using kahn_invD(4)[OF inv c(1)] by simp
      then have "set (deps c) \<subseteq> set R"
        using kahn_invD(3)[OF inv c(1)] by (auto simp: filter_empty_conv)
      then show ?thesis using True xd(2) by (intro before_append_right) auto
    next
      case False
      then show ?thesis using kahn_invD(5)[OF inv] xd by (auto intro: before_appendI1)
    qed
  qed
qed

lemma cycle_loop_inv:
  assumes "kahn_inv V deps visited queue m" and "adjacent V deps adj"
  shows "\<exists>m'. kahn_inv V deps (cycle_loop adj queue m visited) [] m'"
  using assms
proof (induction adj queue m visited rule: cycle_loop.induct)
  case (2 adj c queue m visited)
  obtain m' q' where r: "relax sort (list_at adj c) m queue = (m', q')" by fastforce
  have "kahn_inv V deps (visited @ [c]) q' m'"
    using kahn_step[of V deps visited c "[]" queue m adj sort m' q'] 2(2,3) r by simp
  then show ?case using "2.IH"[OF r[symmetric]] "2.prems"(2) r by simp
qed auto

lemma visit_batch_inv:
  assumes "kahn_inv V deps res (batch @ q) m" and "adjacent V deps adj"
    and "visit_batch adj batch res m q = (res', m', q')"
  shows "kahn_inv V deps res' q' m'"
  using assms(1,3)
proof (induction batch arbitrary: res m q)
  case (Cons c batch)
  obtain m1 q1 where r: "relax (\<lambda>q. q) (list_at adj c) m q = (m1, q1)" by fastforce
  then show ?case
    using Cons.IH[of "res @ [c]" q1 m1] Cons.prems kahn_step[of V deps res c batch q m adj "\<lambda>q. q" m1 q1] assms(2)
    by simp
qed simp

lemma batch_loop_inv:
  assumes "kahn_inv V deps res queue m" and "adjacent V deps adj"
  shows "\<exists>m'. kahn_inv V deps (batch_loop adj queue m res) [] m'"
  using assms
proof (induction adj queue m res rule: batch_loop.induct)
  case (2 adj q queue m res)
  obtain res' m' q' where b: "visit_batch adj (sort (q # queue)) res m [] = (res', m', q')"
    using prod_cases3 by blast
  have "kahn_inv V deps res (sort (q # queue) @ []) m"
    using kahn_inv_pending[OF "2.prems"(1), of "sort (q # queue) @ []"] by simp
  from visit_batch_inv[OF this "2.prems"(2) b] show ?case
    using "2.IH"[OF b[symmetric] refl] "2.prems"(2) b by simp
qed auto

lemma kahn_complete:
  assumes inv: "kahn_inv V deps R [] m" and "\<forall>x \<in> V. set (deps x) \<subseteq> V" and "finite V"
    and "acyclic {(d, x). x \<in> V \<and> d \<in> set (deps x)}" (is "acyclic ?E")
  shows "set R = V"
proof (rule ccontr)
  assume "set R \<noteq> V"
  then obtain x0 where x0: "x0 \<in> V - set R" using kahn_invD(2)[OF inv] by auto
  have "?E \<subseteq> V \<times> V" using assms(2) by auto
  then have "wf ?E" using assms(3,4) by (intro finite_acyclic_wf) (auto intro: finite_subset)
  then obtain x where x: "x \<in> V - set R" "\<And>d. (d, x) \<in> ?E \<Longrightarrow> d \<notin> V - set R"
    using x0 by (rule wfE_min) blast
  then have "set (deps x) \<subseteq> set R" using assms(2) by auto
  then have "degree_at 1 m x = 0"
    using kahn_invD(3)[OF inv, of x] x(1) by (auto simp: filter_empty_conv)
  then show False using kahn_invD(4)[OF inv, of x] x(1) by simp
qed

lemma before_acyclic:
  assumes "distinct R" and "\<And>d x. (d, x) \<in> E \<Longrightarrow> before R d x"
  shows "acyclic E"
proof -
  have "inv_into {..<length R} ((!) R) d < inv_into {..<length R} ((!) R) x" if "(d, x) \<in> E" for d x
  proof -
    from assms(2)[OF that] obtain i j where "i < j" "j < length R" "R ! i = d" "R ! j = x"
      by (auto simp: before_def)
    then show ?thesis
      using assms(1) by (auto simp: inj_on_nth inv_into_f_eq[of "(!) R"])
  qed
  then have "acyclic (E\<inverse>)" by (intro acyclicI_order[of _ "inv_into {..<length R} ((!) R)"]) auto
  then show ?thesis by (simp add: acyclic_converse)
qed

section \<open>Degrees and adjacency lists as the code fills them\<close>

lemma degree_at_Some: "distinct (map fst m) \<Longrightarrow> (k, n) \<in> set m \<Longrightarrow> degree_at d m k = n"
  by (simp add: degree_at_def)

lemma set_sources:
  "distinct (map fst m) \<Longrightarrow> set (sources m) = {k \<in> fst ` set m. degree_at 1 m k = 0}"
  by (auto simp: sources_def degree_at_Some image_iff)

lemma distinct_sources: "distinct (map fst m) \<Longrightarrow> distinct (sources m)"
  by (simp add: sources_def distinct_map_filter)

lemma kahn_start:
  assumes "distinct (map fst m)" and "fst ` set m = V"
    and "\<forall>x \<in> V. degree_at 1 m x = int (length (deps x))"
  shows "kahn_inv V deps [] (sort (sources m)) m"
  using assms by (auto simp: kahn_inv_def set_sources distinct_sources)

lemma keys_push_to [simp]: "fst ` set (push_to k v m) = fst ` set m"
  by (cases "map_of m k") (auto simp: push_to_def dom_update dest!: map_of_SomeD intro: rev_image_eqI)

lemma list_at_push_to:
  "c \<in> fst ` set m \<Longrightarrow> list_at (push_to k v m) c = list_at m c @ (if c = k then [v] else [])"
proof (cases "map_of m k")
  case None
  assume "c \<in> fst ` set m"
  then have "c \<noteq> k" using None by (auto simp: map_of_eq_None_iff)
  then show ?thesis using None by (simp add: push_to_def)
next
  case (Some vs)
  then show ?thesis by (simp add: push_to_def list_at_def update_conv')
qed

lemma fold_push_to:
  "fst ` set (fold (\<lambda>d. push_to d v) ds m) = fst ` set m \<and>
   (c \<in> fst ` set m \<longrightarrow>
     list_at (fold (\<lambda>d. push_to d v) ds m) c = list_at m c @ replicate (count_list ds c) v)"
  by (induction ds arbitrary: m) (auto simp: list_at_push_to replicate_app_Cons_same)

lemma count_replicate: "count_list (replicate k a) b = (if a = b then k else 0)"
  by (induction k) auto

lemma count_concat_replicate_none:
  "x \<notin> f ` set xs \<Longrightarrow> count_list (concat (map (\<lambda>n. replicate (h n) (f n)) xs)) x = 0"
  by (induction xs) (auto simp: count_replicate)

lemma count_concat_replicate:
  "distinct (map f xs) \<Longrightarrow> n \<in> set xs \<Longrightarrow>
     count_list (concat (map (\<lambda>n. replicate (h n) (f n)) xs)) (f n) = h n"
proof (induction xs)
  case (Cons y ys)
  show ?case
  proof (cases "n = y")
    case True
    then show ?thesis using Cons.prems by (simp add: count_replicate count_concat_replicate_none)
  next
    case False
    then have "n \<in> set ys" using Cons.prems(2) by simp
    moreover have "f y \<noteq> f n" using Cons.prems(1) calculation by auto
    ultimately show ?thesis using Cons by (simp add: count_replicate)
  qed
qed simp

lemma fold_push_dependents:
  "fst ` set (fold push_dependents nodes m) = fst ` set m \<and>
   (c \<in> fst ` set m \<longrightarrow>
     list_at (fold push_dependents nodes m) c =
     list_at m c @ concat (map (\<lambda>n. replicate (count_list (directDependencies n) c) (serviceId n)) nodes))"
proof (induction nodes arbitrary: m)
  case (Cons n nodes)
  show ?case
    using Cons.IH[of "push_dependents n m"] fold_push_to[where ds = "directDependencies n" and v = "serviceId n" and m = m and c = c]
    by (auto simp: push_dependents_def)
qed simp

lemma list_at_empty: "list_at (map (\<lambda>k. (k, [])) ks) c = []"
  by (auto simp: list_at_def split: option.splits dest!: map_of_SomeD)

lemma keys_empty: "fst ` set (map (\<lambda>k. (k, v)) ks) = set ks"
  by force

text \<open>A graph whose nodes carry their own key.\<close>

definition keyed :: "node_map \<Rightarrow> bool" where
  "keyed g \<longleftrightarrow> distinct (map fst g) \<and> (\<forall>(k, node) \<in> set g. serviceId node = k)"

lemma detect_adjacent:
  assumes "keyed g"
  shows "adjacent (fst ` set g) (neighbors_of g Dependencies)
    (fold push_dependents (map snd g) (map (\<lambda>(k, _). (k, [])) g))" (is "adjacent ?V ?deps ?adj")
  unfolding adjacent_def
proof (intro ballI allI)
  fix c x
  assume c: "c \<in> fst ` set g"
  have ids: "map serviceId (map snd g) = map fst g" using assms by (auto simp: keyed_def)
  then have d: "distinct (map serviceId (map snd g))" using assms by (simp only: keyed_def)
  have init: "map (\<lambda>(k, _). (k, [])) g = map (\<lambda>k. (k, [])) (map fst g)" by auto
  have l: "list_at ?adj c =
      concat (map (\<lambda>n. replicate (count_list (directDependencies n) c) (serviceId n)) (map snd g))"
    using fold_push_dependents[of "map snd g" "map (\<lambda>k. (k, [])) (map fst g)" c] c
    unfolding init list_at_empty append_Nil by (elim conjE, elim mp) (simp add: image_image)
  show "count_list (list_at ?adj c) x = (if x \<in> ?V then count_list (?deps x) c else 0)"
  proof (cases "x \<in> ?V")
    case True
    then obtain node where n: "(x, node) \<in> set g" by auto
    then have "serviceId node = x" "?deps x = directDependencies node" "node \<in> set (map snd g)"
      using assms by (auto simp: keyed_def neighbors_of_def intro: rev_image_eqI)
    then show ?thesis
      unfolding l using True
        count_concat_replicate[OF d, of node "\<lambda>n. count_list (directDependencies n) c"] by simp
  next
    case False
    then have "x \<notin> serviceId ` set (map snd g)" using ids by (metis list.set_map)
    then show ?thesis unfolding l
      using False count_concat_replicate_none[of x serviceId "map snd g" "\<lambda>n. count_list (directDependencies n) c"]
      by simp
  qed
qed

lemma kahn_inv_visits_all:
  assumes "kahn_inv V deps R [] m" and "\<forall>x \<in> V. set (deps x) \<subseteq> V" and "finite V"
  shows "set R = V \<longleftrightarrow> acyclic {(d, x). x \<in> V \<and> d \<in> set (deps x)}"
proof
  assume "set R = V"
  then show "acyclic {(d, x). x \<in> V \<and> d \<in> set (deps x)}"
    using kahn_invD(1,5)[OF assms(1)] by (intro before_acyclic[of R]) auto
qed (rule kahn_complete[OF assms])

definition closed_graph :: "node_map \<Rightarrow> bool" where
  "closed_graph g \<longleftrightarrow> (\<forall>x \<in> fst ` set g. set (neighbors_of g Dependencies x) \<subseteq> fst ` set g)"

lemma neighbors_of_outside: "x \<notin> fst ` set g \<Longrightarrow> neighbors_of g dir x = []"
  by (simp add: neighbors_of_def map_of_eq_None_iff[THEN iffD2])

lemma edges_inside:
  "{(d, x). x \<in> fst ` set g \<and> d \<in> set (neighbors_of g Dependencies x)} = (edges g Dependencies)\<inverse>"
  using neighbors_of_outside[of _ g Dependencies] by (fastforce simp: edges_def)

lemma detectCycles_Inr:
  assumes "keyed g" and "closed_graph g"
  shows "detectCycles g = Inr () \<longleftrightarrow> acyclic (edges g Dependencies)"
    and "detectCycles g \<noteq> Inr () \<Longrightarrow> detectCycles g = Inl (DependencyValidationError ''circular_dependency'')"
proof -
  let ?V = "fst ` set g" and ?deps = "neighbors_of g Dependencies"
  define m where "m = map (\<lambda>(k, node). (k, int (length (directDependencies node)))) g"
  define adj where "adj = fold push_dependents (map snd g) (map (\<lambda>(k, _). (k, [])) g)"
  have keys: "map fst m = map fst g" by (auto simp: m_def)
  have "degree_at 1 m x = int (length (?deps x))" if x: "x \<in> ?V" for x
  proof -
    obtain node where "(x, node) \<in> set g" using x by auto
    then have "(x, int (length (directDependencies node))) \<in> set m" "map_of g x = Some node"
      using assms(1) by (auto simp: m_def keyed_def intro: rev_image_eqI)
    then show ?thesis
      using assms(1) keys by (simp add: keyed_def neighbors_of_def degree_at_Some)
  qed
  moreover have "distinct (map fst m)" "fst ` set m = ?V"
    using assms(1) keys by (auto simp: keyed_def simp flip: set_map)
  ultimately have "kahn_inv ?V ?deps [] (sort (sources m)) m" by (intro kahn_start) auto
  then obtain m' where inv: "kahn_inv ?V ?deps (cycle_loop adj (sort (sources m)) m []) [] m'"
    using cycle_loop_inv[OF _ detect_adjacent[OF assms(1)]] unfolding adj_def by blast
  define R where "R = cycle_loop adj (sort (sources m)) m []"
  have R: "distinct R" "set R \<subseteq> ?V" using kahn_invD(1,2)[OF inv] by (simp_all add: R_def)
  have "length R = length g \<longleftrightarrow> set R = ?V"
    using R assms(1) card_subset_eq[of ?V "set R"] distinct_card[of R] distinct_card[of "map fst g"]
    by (auto simp: keyed_def)
  also have "\<dots> \<longleftrightarrow> acyclic (edges g Dependencies)"
    using kahn_inv_visits_all[OF inv] assms(2) unfolding edges_inside acyclic_converse R_def
    by (simp add: closed_graph_def)
  finally show "detectCycles g = Inr () \<longleftrightarrow> acyclic (edges g Dependencies)"
    by (auto simp: detectCycles_def Let_def m_def[symmetric] adj_def[symmetric] R_def[symmetric])
  show "detectCycles g \<noteq> Inr () \<Longrightarrow> detectCycles g = Inl (DependencyValidationError ''circular_dependency'')"
    by (auto simp: detectCycles_def Let_def)
qed

section \<open>The graph that construction returns\<close>

text \<open>The services that list \<open>k\<close> as a dependency, once per mention, in order of the entries.\<close>

definition dependents_in :: "DependencyEntry list \<Rightarrow> string \<Rightarrow> string list" where
  "dependents_in entries k =
     concat (map (\<lambda>e. replicate (count_list (entry_dependencies e) k) (entry_serviceId e)) entries)"

definition add_dependents :: "(string \<Rightarrow> string list) \<Rightarrow> node_map \<Rightarrow> node_map" where
  "add_dependents f g =
     map (\<lambda>(k, node). (k, node\<lparr>directDependents := directDependents node @ f k\<rparr>)) g"

definition entry_node :: "DependencyEntry \<Rightarrow> string list \<Rightarrow> string \<times> GraphNode" where
  "entry_node e ds =
     (entry_serviceId e,
      \<lparr>serviceId = entry_serviceId e, directDependencies = entry_dependencies e, directDependents = ds\<rparr>)"

lemma update_fresh: "k \<notin> fst ` set m \<Longrightarrow> AList.update k v m = m @ [(k, v)]"
  by (induction m) auto

lemma update_present:
  "distinct (map fst m) \<Longrightarrow> map_of m k = Some v \<Longrightarrow>
     AList.update k v' m = map (\<lambda>(k', w). (k', if k' = k then v' else w)) m"
proof (induction m)
  case (Cons p m)
  have id: "k \<notin> fst ` set m \<Longrightarrow> map (\<lambda>(k', w). (k', if k' = k then v' else w)) m = m"
    by (induction m) auto
  show ?case using Cons id by (cases p) auto
qed simp

lemma create_nodes_result:
  "create_nodes entries m =
     (if distinct (map entry_serviceId entries) \<and> set (map entry_serviceId entries) \<inter> fst ` set m = {}
      then Inr (m @ map (\<lambda>e. entry_node e []) entries)
      else Inl (DependencyValidationError ''duplicate_dependency''))"
proof (induction entries arbitrary: m)
  case (Cons e es)
  show ?case
    by (cases "entry_serviceId e \<in> fst ` set m")
      (auto simp: Cons.IH update_fresh entry_node_def)
qed simp

lemma keys_add_dependents [simp]: "map fst (add_dependents f g) = map fst g"
  by (auto simp: add_dependents_def)

lemma add_dependents_twice: "add_dependents h (add_dependents f g) = add_dependents (\<lambda>k. f k @ h k) g"
  by (auto simp: add_dependents_def)

lemma add_dependents_none: "(\<And>k. f k = []) \<Longrightarrow> add_dependents f g = g"
  by (induction g) (auto simp: add_dependents_def)

lemma link_dependencies_result:
  "distinct (map fst g) \<Longrightarrow> link_dependencies sid ds g =
     (if set ds \<subseteq> fst ` set g then Inr (add_dependents (\<lambda>k. replicate (count_list ds k) sid) g)
      else Inl (DependencyValidationError ''unknown_dependency''))"
proof (induction ds arbitrary: g)
  case (Cons d ds)
  show ?case
  proof (cases "map_of g d")
    case None
    then have "d \<notin> fst ` set g" by (simp add: map_of_eq_None_iff)
    then show ?thesis using None by simp
  next
    case (Some node)
    let ?g' = "AList.update d (node\<lparr>directDependents := directDependents node @ [sid]\<rparr>) g"
    have g': "?g' = add_dependents (\<lambda>k. if k = d then [sid] else []) g"
      using update_present[OF Cons.prems Some] Some map_of_is_SomeI[OF Cons.prems, of d]
      by (auto simp: add_dependents_def simp del: map_of_eq_Some_iff)
    have "d \<in> fst ` set g" using Some by (force dest: map_of_SomeD)
    moreover have "fst ` set ?g' = fst ` set g" using calculation by (auto simp: dom_update)
    moreover have "(\<lambda>k. (if k = d then [sid] else []) @ replicate (count_list ds k) sid) =
        (\<lambda>k. replicate (count_list (d # ds) k) sid)" by auto
    ultimately show ?thesis
      using Some Cons.IH[of ?g'] Cons.prems by (simp add: g' add_dependents_twice)
  qed
qed (simp add: add_dependents_none)

lemma link_entries_result:
  "distinct (map fst g) \<Longrightarrow> link_entries entries g =
     (if \<forall>e \<in> set entries. set (entry_dependencies e) \<subseteq> fst ` set g
      then Inr (add_dependents (dependents_in entries) g)
      else Inl (DependencyValidationError ''unknown_dependency''))"
proof (induction entries arbitrary: g)
  case (Cons e es)
  let ?g' = "add_dependents (\<lambda>k. replicate (count_list (entry_dependencies e) k) (entry_serviceId e)) g"
  have "fst ` set ?g' = fst ` set g" using keys_add_dependents by (metis list.set_map)
  then show ?case
    using Cons.IH[of ?g'] Cons.prems
    by (auto simp: link_dependencies_result add_dependents_twice dependents_in_def)
qed (simp add: add_dependents_none dependents_in_def)

text \<open>The dependency relation an entry list describes: \<open>(a, b)\<close> when \<open>a\<close> depends on \<open>b\<close>.\<close>

definition depends :: "DependencyEntry list \<Rightarrow> (string \<times> string) set" where
  "depends entries = {(entry_serviceId e, d) | e d. e \<in> set entries \<and> d \<in> set (entry_dependencies e)}"

definition built_graph :: "DependencyEntry list \<Rightarrow> node_map" where
  "built_graph entries =
     map (\<lambda>e. entry_node e (sort (dependents_in entries (entry_serviceId e)))) entries"

definition ids_of :: "DependencyEntry list \<Rightarrow> string set" where
  "ids_of entries = entry_serviceId ` set entries"

lemma built_graph_linked:
  "sort_dependents (add_dependents (dependents_in entries) (map (\<lambda>e. entry_node e []) entries)) =
     built_graph entries"
  by (auto simp: sort_dependents_def add_dependents_def entry_node_def built_graph_def)

lemma keys_built_graph: "map fst (built_graph entries) = map entry_serviceId entries"
  by (auto simp: built_graph_def entry_node_def)

lemma set_keys_built_graph [simp]: "fst ` set (built_graph entries) = ids_of entries"
  using keys_built_graph[of entries] by (metis ids_of_def list.set_map)

lemma keyed_built_graph: "distinct (map entry_serviceId entries) \<Longrightarrow> keyed (built_graph entries)"
  by (auto simp: keyed_def keys_built_graph) (auto simp: built_graph_def entry_node_def)

lemma map_of_built_graph:
  assumes "distinct (map entry_serviceId entries)" and "e \<in> set entries"
  shows "map_of (built_graph entries) (entry_serviceId e) =
    Some (snd (entry_node e (sort (dependents_in entries (entry_serviceId e)))))"
proof (rule map_of_is_SomeI)
  show "distinct (map fst (built_graph entries))" using assms(1) by (simp only: keys_built_graph)
  show "(entry_serviceId e, snd (entry_node e (sort (dependents_in entries (entry_serviceId e)))))
    \<in> set (built_graph entries)"
    using assms(2) by (auto simp: built_graph_def entry_node_def intro: rev_image_eqI)
qed

lemma neighbors_built_graph:
  assumes "distinct (map entry_serviceId entries)" and "e \<in> set entries"
  shows "neighbors_of (built_graph entries) Dependencies (entry_serviceId e) = entry_dependencies e"
    and "neighbors_of (built_graph entries) Dependents (entry_serviceId e) =
      sort (dependents_in entries (entry_serviceId e))"
  using map_of_built_graph[OF assms] by (simp_all add: neighbors_of_def entry_node_def)

lemma set_dependents_in: "x \<in> set (dependents_in entries k) \<longleftrightarrow> (x, k) \<in> depends entries"
  by (auto simp: dependents_in_def depends_def count_list_0_iff)

lemma edges_built_graph:
  assumes "distinct (map entry_serviceId entries)"
    and "\<forall>e \<in> set entries. set (entry_dependencies e) \<subseteq> ids_of entries"
  shows "edges (built_graph entries) Dependencies = depends entries"
    and "edges (built_graph entries) Dependents = (depends entries)\<inverse>"
proof -
  have outside: "neighbors_of (built_graph entries) dir a = []" if "a \<notin> ids_of entries" for a dir
    using that by (simp add: neighbors_of_outside)
  have known: "a \<in> ids_of entries \<and> b \<in> ids_of entries" if "(a, b) \<in> depends entries" for a b
    using that assms(2) by (auto simp: depends_def ids_of_def)
  have "b \<in> set (neighbors_of (built_graph entries) Dependencies a) \<longleftrightarrow> (a, b) \<in> depends entries" for a b
  proof (cases "a \<in> ids_of entries")
    case True
    then obtain e where e: "e \<in> set entries" "a = entry_serviceId e" by (auto simp: ids_of_def)
    have "e' = e" if "e' \<in> set entries" "entry_serviceId e' = entry_serviceId e" for e'
      using assms(1) that e(1) by (auto simp: distinct_map dest: inj_onD)
    then show ?thesis using e neighbors_built_graph(1)[OF assms(1) e(1)] by (auto simp: depends_def)
  qed (use known outside in auto)
  then show "edges (built_graph entries) Dependencies = depends entries" by (auto simp: edges_def)
  have "b \<in> set (neighbors_of (built_graph entries) Dependents a) \<longleftrightarrow> (b, a) \<in> depends entries" for a b
  proof (cases "a \<in> ids_of entries")
    case True
    then obtain e where e: "e \<in> set entries" "a = entry_serviceId e" by (auto simp: ids_of_def)
    then show ?thesis using neighbors_built_graph(2)[OF assms(1) e(1)] by (simp add: set_dependents_in)
  qed (use known outside in auto)
  then show "edges (built_graph entries) Dependents = (depends entries)\<inverse>" by (auto simp: edges_def)
qed

definition accepted :: "DependencyEntry list \<Rightarrow> bool" where
  "accepted entries \<longleftrightarrow> distinct (map entry_serviceId entries) \<and>
     (\<forall>e \<in> set entries. set (entry_dependencies e) \<subseteq> ids_of entries) \<and> acyclic (depends entries)"

lemma createDependencyGraph_result:
  "createDependencyGraph entries =
     (if \<not> distinct (map entry_serviceId entries)
      then Inl (DependencyValidationError ''duplicate_dependency'')
      else if \<not> (\<forall>e \<in> set entries. set (entry_dependencies e) \<subseteq> ids_of entries)
      then Inl (DependencyValidationError ''unknown_dependency'')
      else if \<not> acyclic (depends entries)
      then Inl (DependencyValidationError ''circular_dependency'')
      else Inr \<lparr>graph = built_graph entries, serviceIds = sort (map entry_serviceId entries)\<rparr>)"
proof (cases "distinct (map entry_serviceId entries)")
  case d: True
  define nodes where "nodes = map (\<lambda>e. entry_node e []) entries"
  have keys: "map fst nodes = map entry_serviceId entries" by (auto simp: nodes_def entry_node_def)
  then have keyset: "fst ` set nodes = ids_of entries" by (metis ids_of_def list.set_map)
  have create: "create_nodes entries [] = Inr nodes" using d by (simp add: create_nodes_result nodes_def)
  have link: "link_entries entries nodes =
     (if \<forall>e \<in> set entries. set (entry_dependencies e) \<subseteq> ids_of entries
      then Inr (add_dependents (dependents_in entries) nodes)
      else Inl (DependencyValidationError ''unknown_dependency''))"
    using link_entries_result[of nodes entries] d keys keyset by simp
  show ?thesis
  proof (cases "\<forall>e \<in> set entries. set (entry_dependencies e) \<subseteq> ids_of entries")
    case c: True
    have "keyed (built_graph entries)" by (rule keyed_built_graph[OF d])
    moreover have "closed_graph (built_graph entries)"
      using c neighbors_built_graph(1)[OF d] by (auto simp: closed_graph_def ids_of_def)
    ultimately have "detectCycles (built_graph entries) =
        (if acyclic (depends entries) then Inr ()
         else Inl (DependencyValidationError ''circular_dependency''))"
      using detectCycles_Inr[of "built_graph entries"] edges_built_graph[OF d c] by auto
    then show ?thesis
      using d c create link keys built_graph_linked[of entries]
      by (simp add: createDependencyGraph_def nodes_def[symmetric])
  next
    case False
    then show ?thesis using d create link by (auto simp: createDependencyGraph_def)
  qed
next
  case False
  then show ?thesis by (simp add: createDependencyGraph_def create_nodes_result)
qed

lemma createDependencyGraph_Inr:
  "createDependencyGraph entries = Inr g \<longleftrightarrow> accepted entries \<and>
     g = \<lparr>graph = built_graph entries, serviceIds = sort (map entry_serviceId entries)\<rparr>"
  by (auto simp: createDependencyGraph_result accepted_def)

section \<open>The topological orders\<close>

definition bump :: "string \<Rightarrow> degrees \<Rightarrow> degrees" where
  "bump i m = AList.update i (degree_at 0 m i + 1) m"

lemma fold_bump:
  "i \<in> fst ` set m \<Longrightarrow> map fst (fold (\<lambda>_. bump i) ns m) = map fst m \<and>
     degree_at 1 (fold (\<lambda>_. bump i) ns m) x = degree_at 1 m x + (if x = i then int (length ns) else 0)"
proof (induction ns arbitrary: m)
  case (Cons n ns)
  have "degree_at 0 m i = degree_at 1 m i"
    using Cons.prems by (auto simp: degree_at_def split: option.splits simp: map_of_eq_None_iff)
  moreover have "map fst (bump i m) = map fst m" using Cons.prems by (simp add: bump_def update_keys)
  moreover have "i \<in> fst ` set (bump i m)" by (simp add: bump_def dom_update)
  ultimately show ?case using Cons.IH[of "bump i m"] by (simp add: bump_def)
qed simp

lemma fold_add_edge:
  "fold (add_edge i) ns (m, adj) = (fold (\<lambda>_. bump i) ns m, fold (\<lambda>n. push_to n i) ns adj)"
  by (induction ns arbitrary: m adj) (simp_all add: add_edge_def bump_def)

definition inner_dependencies :: "node_map \<Rightarrow> string list \<Rightarrow> string \<Rightarrow> string list" where
  "inner_dependencies g closure i =
     filter (\<lambda>neighbor. neighbor \<in> set closure) (neighbors_of g Dependencies i)"

lemma add_edges_eq:
  "add_edges g closure i (m, adj) =
     (fold (\<lambda>_. bump i) (inner_dependencies g closure i) m,
      fold (\<lambda>n. push_to n i) (inner_dependencies g closure i) adj)"
  by (simp add: add_edges_def inner_dependencies_def fold_add_edge)

lemma fold_add_edges_degrees:
  assumes "distinct ids" and "set ids \<subseteq> fst ` set m"
    and "fold (add_edges g closure) ids (m, adj) = (m', adj')"
  shows "map fst m' = map fst m \<and>
    degree_at 1 m' x =
      degree_at 1 m x + (if x \<in> set ids then int (length (inner_dependencies g closure x)) else 0)"
  using assms
proof (induction ids arbitrary: m adj)
  case (Cons i ids)
  define m1 where "m1 = fold (\<lambda>_. bump i) (inner_dependencies g closure i) m"
  have m1: "map fst m1 = map fst m"
      "degree_at 1 m1 x = degree_at 1 m x + (if x = i then int (length (inner_dependencies g closure i)) else 0)"
    using fold_bump[of i m "inner_dependencies g closure i" x] Cons.prems(2) by (simp_all add: m1_def)
  then have "fst ` set m1 = fst ` set m" by (metis list.set_map)
  then show ?case
    using Cons.IH[of m1] Cons.prems m1 by (auto simp: add_edges_eq m1_def[symmetric])
qed simp

lemma fold_add_edges_lists:
  assumes "c \<in> fst ` set adj" and "fold (add_edges g closure) ids (m, adj) = (m', adj')"
  shows "list_at adj' c =
    list_at adj c @ concat (map (\<lambda>i. replicate (count_list (inner_dependencies g closure i) c) i) ids)"
  using assms
proof (induction ids arbitrary: m adj)
  case (Cons i ids)
  define adj1 where "adj1 = fold (\<lambda>n. push_to n i) (inner_dependencies g closure i) adj"
  have "fst ` set adj1 = fst ` set adj"
      "list_at adj1 c = list_at adj c @ replicate (count_list (inner_dependencies g closure i) c) i"
    using fold_push_to[of i "inner_dependencies g closure i" adj c] Cons.prems(1) by (simp_all add: adj1_def)
  then show ?case
    using Cons.IH[of adj1] Cons.prems by (auto simp: add_edges_eq adj1_def[symmetric])
qed simp

lemma kahn_sorts:
  fixes g :: node_map and closure :: "string list"
  defines "deps \<equiv> inner_dependencies g closure"
  assumes "distinct closure" and "acyclic (edges g Dependencies)"
    and f: "fold (add_edges g closure) closure (map (\<lambda>i. (i, 0)) closure, map (\<lambda>i. (i, [])) closure) = (m, adj)"
  defines "res \<equiv> batch_loop adj (sort (sources m)) m []"
  shows "distinct res" and "set res = set closure"
    and "x \<in> set closure \<Longrightarrow> d \<in> set closure \<Longrightarrow> (x, d) \<in> edges g Dependencies \<Longrightarrow> before res d x"
proof -
  let ?V = "set closure"
  have zero: "degree_at 1 (map (\<lambda>i. (i, 0)) closure) x = 0" if "x \<in> ?V" for x
    using that by (auto simp: degree_at_def map_of_map_restrict)
  have deg: "map fst m = closure" "\<forall>x \<in> ?V. degree_at 1 m x = int (length (deps x))"
    using fold_add_edges_degrees[OF assms(2) _ f] zero
    by (simp_all add: deps_def comp_def image_image)
  have keys: "distinct (map fst m)" "fst ` set m = ?V" using deg(1) assms(2) by (auto simp flip: list.set_map)
  have lists: "list_at adj c = concat (map (\<lambda>i. replicate (count_list (deps i) c) i) closure)"
    if "c \<in> ?V" for c
    using fold_add_edges_lists[OF _ f, of c] that by (simp add: deps_def list_at_empty image_image)
  have id: "distinct (map (\<lambda>i. i) closure)" using assms(2) by simp
  have "adjacent ?V deps adj"
    unfolding adjacent_def
    using lists count_concat_replicate[OF id] count_concat_replicate_none[of _ "\<lambda>i. i" closure]
    by simp
  then obtain m' where inv: "kahn_inv ?V deps res [] m'"
    using batch_loop_inv[OF kahn_start[OF keys deg(2)]] unfolding res_def by blast
  show "distinct res" using kahn_invD(1)[OF inv] by simp
  have sub: "{(d, x). x \<in> ?V \<and> d \<in> set (deps x)} \<subseteq> (edges g Dependencies)\<inverse>"
    by (auto simp: deps_def inner_dependencies_def edges_def)
  have "acyclic {(d, x). x \<in> ?V \<and> d \<in> set (deps x)}"
    using assms(3) by (intro acyclic_subset[OF _ sub]) (simp add: acyclic_converse)
  then show "set res = ?V"
    by (intro kahn_complete[OF inv]) (auto simp: deps_def inner_dependencies_def)
  then show "x \<in> ?V \<Longrightarrow> d \<in> ?V \<Longrightarrow> (x, d) \<in> edges g Dependencies \<Longrightarrow> before res d x"
    by (intro kahn_invD(5)[OF inv]) (auto simp: deps_def inner_dependencies_def edges_def)
qed

lemma topologicalSort_correct:
  assumes "acyclic (edges g Dependencies)"
  shows "distinct (topologicalSort g ids dir)"
    and "set (topologicalSort g ids dir) = set (requested_closure g ids dir)"
    and "x \<in> set (requested_closure g ids dir) \<Longrightarrow> d \<in> set (requested_closure g ids dir) \<Longrightarrow>
      (x, d) \<in> edges g Dependencies \<Longrightarrow>
      (if dir = forward then before (topologicalSort g ids dir) d x else before (topologicalSort g ids dir) x d)"
proof -
  define closure where "closure = requested_closure g ids dir"
  obtain m adj where f: "fold (add_edges g closure) closure
      (map (\<lambda>i. (i, 0)) closure, map (\<lambda>i. (i, [])) closure) = (m, adj)" by fastforce
  define res where "res = batch_loop adj (sort (sources m)) m []"
  have t: "topologicalSort g ids dir = (if dir = forward then res else rev res)"
    by (simp add: topologicalSort_def Let_def closure_def[symmetric] f res_def)
  note k = kahn_sorts[OF requested_closure_distinct[of g ids dir, folded closure_def] assms f, folded res_def]
  show "distinct (topologicalSort g ids dir)" using k(1) by (simp add: t)
  show "set (topologicalSort g ids dir) = set (requested_closure g ids dir)"
    using k(2) by (simp add: t closure_def)
  show "x \<in> set (requested_closure g ids dir) \<Longrightarrow> d \<in> set (requested_closure g ids dir) \<Longrightarrow>
      (x, d) \<in> edges g Dependencies \<Longrightarrow>
      (if dir = forward then before (topologicalSort g ids dir) d x else before (topologicalSort g ids dir) x d)"
    using k(3)[of x d] unfolding t closure_def by (simp add: before_rev)
qed

section \<open>The interface the planners rely on\<close>

text \<open>
  \<open>dep g\<close> holds the pairs \<open>(a, b)\<close> where \<open>a\<close> depends on \<open>b\<close>. The two orders contain the
  requested services with their dependencies (their dependents) once each, dependencies first
  (dependents first).
\<close>

locale dependency_order =
  fixes valid :: "'g \<Rightarrow> bool"
    and dep :: "'g \<Rightarrow> (string \<times> string) set"
    and depsOf :: "'g \<Rightarrow> string \<Rightarrow> string list"
    and dependentsOf :: "'g \<Rightarrow> string \<Rightarrow> string list"
    and depsFirst :: "'g \<Rightarrow> string list \<Rightarrow> string list"
    and dependentsFirst :: "'g \<Rightarrow> string list \<Rightarrow> string list"
  assumes acyclic_dep: "valid g \<Longrightarrow> acyclic (dep g)"
    and set_depsOf: "valid g \<Longrightarrow> set (depsOf g s) = (dep g)\<^sup>+ `` {s}"
    and set_dependentsOf: "valid g \<Longrightarrow> set (dependentsOf g s) = ((dep g)\<inverse>)\<^sup>+ `` {s}"
    and set_depsFirst: "valid g \<Longrightarrow> set (depsFirst g ids) = (dep g)\<^sup>* `` set ids"
    and set_dependentsFirst: "valid g \<Longrightarrow> set (dependentsFirst g ids) = ((dep g)\<inverse>)\<^sup>* `` set ids"
    and distinct_depsFirst: "valid g \<Longrightarrow> distinct (depsFirst g ids)"
    and distinct_dependentsFirst: "valid g \<Longrightarrow> distinct (dependentsFirst g ids)"
    and depsFirst_before: "valid g \<Longrightarrow> (a, b) \<in> dep g \<Longrightarrow> a \<in> set (depsFirst g ids) \<Longrightarrow>
      before (depsFirst g ids) b a"
    and dependentsFirst_before: "valid g \<Longrightarrow> (a, b) \<in> dep g \<Longrightarrow> b \<in> set (dependentsFirst g ids) \<Longrightarrow>
      before (dependentsFirst g ids) a b"
begin

lemma depsFirst_trancl:
  assumes "valid g" and "(a, b) \<in> (dep g)\<^sup>+" and "a \<in> set (depsFirst g ids)"
  shows "before (depsFirst g ids) b a"
  using assms(2)
proof induction
  case (base b)
  then show ?case by (rule depsFirst_before[OF assms(1) _ assms(3)])
next
  case (step b c)
  have cb: "before (depsFirst g ids) c b"
    using before_in_set[OF step.IH] depsFirst_before[OF assms(1) step.hyps(2)] by simp
  show ?case by (rule before_trans[OF distinct_depsFirst[OF assms(1)] cb step.IH])
qed

lemma dependentsFirst_trancl:
  assumes "valid g" and "(a, b) \<in> (dep g)\<^sup>+" and "b \<in> set (dependentsFirst g ids)"
  shows "before (dependentsFirst g ids) a b"
  using assms(2)
proof (induction rule: converse_trancl_induct)
  case (base a)
  then show ?case by (rule dependentsFirst_before[OF assms(1) _ assms(3)])
next
  case (step a c)
  have ac: "before (dependentsFirst g ids) a c"
    using before_in_set[OF step.IH] dependentsFirst_before[OF assms(1) step.hyps(1)] by simp
  show ?case by (rule before_trans[OF distinct_dependentsFirst[OF assms(1)] ac step.IH])
qed

lemma target_last_depsFirst:
  assumes "valid g"
  shows "\<exists>ds. depsFirst g (depsOf g t @ [t]) = ds @ [t] \<and> distinct ds \<and> set ds = set (depsOf g t)"
proof -
  have all: "set (depsFirst g (depsOf g t @ [t])) = insert t (set (depsOf g t))"
    using assms by (auto simp: set_depsFirst set_depsOf rtrancl_eq_or_trancl)
  have "\<not> before (depsFirst g (depsOf g t @ [t])) t x" for x
  proof
    assume b: "before (depsFirst g (depsOf g t @ [t])) t x"
    have "x \<noteq> t" using b before_irrefl[OF distinct_depsFirst[OF assms]] by auto
    then have "(t, x) \<in> (dep g)\<^sup>+" using before_in_set[OF b] all assms by (simp add: set_depsOf)
    then have "before (depsFirst g (depsOf g t @ [t])) x t"
      using depsFirst_trancl[OF assms] all by simp
    then show False using before_asym[OF distinct_depsFirst[OF assms] b] by simp
  qed
  then obtain ds where ds: "depsFirst g (depsOf g t @ [t]) = ds @ [t]"
    using last_if_not_before[of t "depsFirst g (depsOf g t @ [t])"] all by auto
  moreover have "t \<notin> set (depsOf g t)" using acyclic_dep[OF assms] assms by (simp add: set_depsOf acyclic_def)
  ultimately show ?thesis using all distinct_depsFirst[OF assms, of "depsOf g t @ [t]"] by auto
qed

lemma target_last_dependentsFirst:
  assumes "valid g"
  shows "\<exists>ds. dependentsFirst g (dependentsOf g t @ [t]) = ds @ [t] \<and> distinct ds \<and>
    set ds = set (dependentsOf g t)"
proof -
  have all: "set (dependentsFirst g (dependentsOf g t @ [t])) = insert t (set (dependentsOf g t))"
    using assms by (auto simp: set_dependentsFirst set_dependentsOf rtrancl_eq_or_trancl)
  have "\<not> before (dependentsFirst g (dependentsOf g t @ [t])) t x" for x
  proof
    assume b: "before (dependentsFirst g (dependentsOf g t @ [t])) t x"
    have "x \<noteq> t" using b before_irrefl[OF distinct_dependentsFirst[OF assms]] by auto
    then have "(x, t) \<in> (dep g)\<^sup>+"
      using before_in_set[OF b] all assms by (simp add: set_dependentsOf trancl_converse)
    then have "before (dependentsFirst g (dependentsOf g t @ [t])) x t"
      using dependentsFirst_trancl[OF assms] all by simp
    then show False using before_asym[OF distinct_dependentsFirst[OF assms] b] by simp
  qed
  then obtain ds where ds: "dependentsFirst g (dependentsOf g t @ [t]) = ds @ [t]"
    using last_if_not_before[of t "dependentsFirst g (dependentsOf g t @ [t])"] all by auto
  moreover have "t \<notin> set (dependentsOf g t)"
    using acyclic_dep[OF assms] assms by (simp add: set_dependentsOf acyclic_def trancl_converse)
  ultimately show ?thesis using all distinct_dependentsFirst[OF assms, of "dependentsOf g t @ [t]"] by auto
qed

end

section \<open>The built graph provides the interface\<close>

definition valid_graph :: "RegisteredServiceDependencyGraph \<Rightarrow> bool" where
  "valid_graph g \<longleftrightarrow> (\<exists>entries. createDependencyGraph entries = Inr g)"

definition depends_on :: "RegisteredServiceDependencyGraph \<Rightarrow> (string \<times> string) set" where
  "depends_on g = edges (graph g) Dependencies"

lemma valid_graph_edges:
  assumes "valid_graph g"
  shows "acyclic (edges (graph g) Dependencies)"
    and "edges (graph g) Dependents = (edges (graph g) Dependencies)\<inverse>"
  using assms edges_built_graph
  by (auto simp: valid_graph_def createDependencyGraph_Inr accepted_def)

lemma closure_without_self:
  assumes "acyclic E"
  shows "{x. (s, x) \<in> E\<^sup>+} - {s} = E\<^sup>+ `` {s}"
  using assms by (auto simp: acyclic_def)

interpretation dg: dependency_order valid_graph depends_on transitiveDependenciesOf
  transitiveDependentsOf topologicalDependenciesFirst topologicalDependentsFirst
proof
  fix g s ids a b
  assume v: "valid_graph g"
  note e = valid_graph_edges[OF v]
  have closures: "set (requested_closure (graph g) ids forward) = (depends_on g)\<^sup>* `` set ids"
      "set (requested_closure (graph g) ids reverse) = ((depends_on g)\<inverse>)\<^sup>* `` set ids"
    by (auto simp: requested_closure_set depends_on_def e(2))
  show "acyclic (depends_on g)" using e(1) by (simp add: depends_on_def)
  show "set (transitiveDependenciesOf g s) = (depends_on g)\<^sup>+ `` {s}"
    by (simp add: transitiveDependenciesOf_def computeClosure_set closure_without_self e depends_on_def)
  show "set (transitiveDependentsOf g s) = ((depends_on g)\<inverse>)\<^sup>+ `` {s}"
    by (simp add: transitiveDependentsOf_def computeClosure_set closure_without_self e depends_on_def
        acyclic_converse)
  show "set (topologicalDependenciesFirst g ids) = (depends_on g)\<^sup>* `` set ids"
    and "distinct (topologicalDependenciesFirst g ids)"
    by (simp_all add: topologicalDependenciesFirst_def topologicalSort_correct[OF e(1)] closures)
  show "set (topologicalDependentsFirst g ids) = ((depends_on g)\<inverse>)\<^sup>* `` set ids"
    and "distinct (topologicalDependentsFirst g ids)"
    by (simp_all add: topologicalDependentsFirst_def topologicalSort_correct[OF e(1)] closures)
  assume ab: "(a, b) \<in> depends_on g"
  show "before (topologicalDependenciesFirst g ids) b a" if "a \<in> set (topologicalDependenciesFirst g ids)"
  proof -
    have "a \<in> set (requested_closure (graph g) ids forward)"
      using that by (simp add: topologicalDependenciesFirst_def topologicalSort_correct[OF e(1)])
    moreover have "b \<in> set (requested_closure (graph g) ids forward)"
      using calculation ab by (auto simp: closures intro: rtrancl_into_rtrancl)
    ultimately show ?thesis
      using topologicalSort_correct(3)[OF e(1), of a ids forward b] ab
      by (simp add: topologicalDependenciesFirst_def depends_on_def)
  qed
  show "before (topologicalDependentsFirst g ids) a b" if "b \<in> set (topologicalDependentsFirst g ids)"
  proof -
    have "b \<in> set (requested_closure (graph g) ids reverse)"
      using that by (simp add: topologicalDependentsFirst_def topologicalSort_correct[OF e(1)])
    moreover have "a \<in> set (requested_closure (graph g) ids reverse)"
      using calculation ab by (auto simp: closures intro: rtrancl_into_rtrancl)
    ultimately show ?thesis
      using topologicalSort_correct(3)[OF e(1), of a ids reverse b] ab
      by (simp add: topologicalDependentsFirst_def depends_on_def)
  qed
qed

section \<open>Properties\<close>

lemma created_depends: "createDependencyGraph entries = Inr g \<Longrightarrow> depends_on g = depends entries"
  using edges_built_graph(1) by (auto simp: createDependencyGraph_Inr accepted_def depends_on_def)

lemma created_valid: "createDependencyGraph entries = Inr g \<Longrightarrow> valid_graph g"
  by (auto simp: valid_graph_def)

definition all_known :: "DependencyEntry list \<Rightarrow> bool" where
  "all_known entries \<longleftrightarrow> (\<forall>e \<in> set entries. set (entry_dependencies e) \<subseteq> ids_of entries)"

text \<open>
  C20. A dependency graph is built exactly when the service ids are distinct, every dependency is
  one of them and no service depends on itself through any chain; each of the three rejections
  has its own error, checked in this order.
\<close>

theorem createDependencyGraph_decides:
  "((\<exists>g. createDependencyGraph entries = Inr g) \<longleftrightarrow>
      distinct (map entry_serviceId entries) \<and> all_known entries \<and> acyclic (depends entries)) \<and>
   (createDependencyGraph entries = Inl (DependencyValidationError ''duplicate_dependency'') \<longleftrightarrow>
      \<not> distinct (map entry_serviceId entries)) \<and>
   (createDependencyGraph entries = Inl (DependencyValidationError ''unknown_dependency'') \<longleftrightarrow>
      distinct (map entry_serviceId entries) \<and> \<not> all_known entries) \<and>
   (createDependencyGraph entries = Inl (DependencyValidationError ''circular_dependency'') \<longleftrightarrow>
      distinct (map entry_serviceId entries) \<and> all_known entries \<and> \<not> acyclic (depends entries))"
  unfolding createDependencyGraph_result all_known_def[symmetric] by simp

text \<open>
  C32. The transitive dependencies (dependents) the graph reports are the services reachable
  along (against) the dependency relation, each once and in alphabetical order.
\<close>

theorem transitive_closures:
  assumes "createDependencyGraph entries = Inr g"
  shows "set (transitiveDependenciesOf g s) = (depends entries)\<^sup>+ `` {s} \<and>
    set (transitiveDependentsOf g s) = ((depends entries)\<inverse>)\<^sup>+ `` {s} \<and>
    distinct (transitiveDependenciesOf g s) \<and> sorted (transitiveDependenciesOf g s) \<and>
    distinct (transitiveDependentsOf g s) \<and> sorted (transitiveDependentsOf g s)"
  using dg.set_depsOf[OF created_valid[OF assms]] dg.set_dependentsOf[OF created_valid[OF assms]]
    computeClosure_distinct created_depends[OF assms]
  by (simp add: transitiveDependenciesOf_def transitiveDependentsOf_def) (simp add: computeClosure_def)

text \<open>
  C13. \<open>topologicalDependenciesFirst\<close> lists the requested services with everything they need,
  each once, every service after all it depends on; \<open>topologicalDependentsFirst\<close> lists them
  with everything that needs them, every service after all that depend on it.
\<close>

theorem topological_orders:
  assumes "createDependencyGraph entries = Inr g"
  shows "distinct (topologicalDependenciesFirst g ids) \<and>
    set (topologicalDependenciesFirst g ids) = (depends entries)\<^sup>* `` set ids \<and>
    (\<forall>(a, b) \<in> depends entries. a \<in> set (topologicalDependenciesFirst g ids) \<longrightarrow>
       before (topologicalDependenciesFirst g ids) b a) \<and>
    distinct (topologicalDependentsFirst g ids) \<and>
    set (topologicalDependentsFirst g ids) = ((depends entries)\<inverse>)\<^sup>* `` set ids \<and>
    (\<forall>(a, b) \<in> depends entries. b \<in> set (topologicalDependentsFirst g ids) \<longrightarrow>
       before (topologicalDependentsFirst g ids) a b)"
proof -
  note v = created_valid[OF assms] and d = created_depends[OF assms]
  have "before (topologicalDependenciesFirst g ids) b a"
    if "(a, b) \<in> depends entries" "a \<in> set (topologicalDependenciesFirst g ids)" for a b
    using dg.depsFirst_before[OF v] that d by simp
  moreover have "before (topologicalDependentsFirst g ids) a b"
    if "(a, b) \<in> depends entries" "b \<in> set (topologicalDependentsFirst g ids)" for a b
    using dg.dependentsFirst_before[OF v] that d by simp
  ultimately show ?thesis
    using dg.distinct_depsFirst[OF v] dg.distinct_dependentsFirst[OF v] dg.set_depsFirst[OF v] dg.set_dependentsFirst[OF v]
    unfolding d by blast
qed

text \<open>The entries of the witnesses: \<open>web\<close> needs \<open>api\<close> and \<open>cache\<close>, \<open>api\<close> needs \<open>db\<close>.\<close>

definition sample_entries :: "DependencyEntry list" where
  "sample_entries =
     [\<lparr>entry_serviceId = ''web'', entry_dependencies = [''api'', ''cache'']\<rparr>,
      \<lparr>entry_serviceId = ''db'', entry_dependencies = []\<rparr>,
      \<lparr>entry_serviceId = ''api'', entry_dependencies = [''db'']\<rparr>,
      \<lparr>entry_serviceId = ''cache'', entry_dependencies = []\<rparr>]"

definition sample_graph :: RegisteredServiceDependencyGraph where
  "sample_graph =
     \<lparr>graph =
        [(''web'', \<lparr>serviceId = ''web'', directDependencies = [''api'', ''cache''], directDependents = []\<rparr>),
         (''db'', \<lparr>serviceId = ''db'', directDependencies = [], directDependents = [''api'']\<rparr>),
         (''api'', \<lparr>serviceId = ''api'', directDependencies = [''db''], directDependents = [''web'']\<rparr>),
         (''cache'', \<lparr>serviceId = ''cache'', directDependencies = [], directDependents = [''web'']\<rparr>)],
      serviceIds = [''api'', ''cache'', ''db'', ''web'']\<rparr>"

lemma sample_created: "createDependencyGraph sample_entries = Inr sample_graph"
  by code_simp

theorem transitive_closures_witness:
  "transitiveDependenciesOf sample_graph ''web'' = [''api'', ''cache'', ''db''] \<and>
   set [''api'', ''cache'', ''db''] = (depends sample_entries)\<^sup>+ `` {''web''}"
proof -
  have "transitiveDependenciesOf sample_graph ''web'' = [''api'', ''cache'', ''db'']" by code_simp
  then show ?thesis using transitive_closures[OF sample_created, of "''web''"] by simp
qed

theorem topological_orders_witness:
  "topologicalDependenciesFirst sample_graph [''web''] = [''cache'', ''db'', ''api'', ''web''] \<and>
   before [''cache'', ''db'', ''api'', ''web''] ''db'' ''api''"
proof -
  have t: "topologicalDependenciesFirst sample_graph [''web''] = [''cache'', ''db'', ''api'', ''web'']"
    by code_simp
  have "(''api'', ''db'') \<in> depends sample_entries"
    unfolding set_dependents_in[symmetric] by code_simp
  moreover have "''api'' \<in> set (topologicalDependenciesFirst sample_graph [''web''])" by (simp add: t)
  ultimately have "before (topologicalDependenciesFirst sample_graph [''web'']) ''db'' ''api''"
    using topological_orders[OF sample_created, of "[''web'']"] by blast
  then show ?thesis by (simp only: t)
qed

end
