(* ===== verification/Registered_Service.thy ===== *)
theory Registered_Service
  imports Weekly_Schedule Iso_Date
begin

text \<open>
  The registered service and the value objects around it (\<open>service-management/domain\<close>): readiness
  policies, Docker Compose management configurations, the service with its validating
  constructor, runtime states, statuses and control results. \<open>wf_service\<close> is the invariant of
  every service that \<open>RegisteredService.create\<close> accepts.
\<close>

section \<open>Text helpers\<close>

text \<open>
  The pattern \<open>^[a-z0-9]+(?:-[a-z0-9]+)*$\<close>, as the automaton that remembers whether the last
  character belonged to a segment.
\<close>

definition id_char :: "char \<Rightarrow> bool" where
  "id_char c \<longleftrightarrow> CHR ''a'' \<le> c \<and> c \<le> CHR ''z'' \<or> CHR ''0'' \<le> c \<and> c \<le> CHR ''9''"

fun id_rest :: "bool \<Rightarrow> string \<Rightarrow> bool" where
  "id_rest in_segment [] = in_segment"
| "id_rest in_segment (c # cs) =
     (if id_char c then id_rest True cs
      else if c = CHR ''-'' \<and> in_segment then id_rest False cs else False)"

definition SERVICE_ID_PATTERN :: "string \<Rightarrow> bool" where
  "SERVICE_ID_PATTERN v = id_rest False v"

text \<open>\<open>String.prototype.trim\<close>: white space and line terminators below U+0100.\<close>

definition js_whitespace :: "char \<Rightarrow> bool" where
  "js_whitespace c \<longleftrightarrow> (of_char c :: nat) \<in> {9, 10, 11, 12, 13, 32, 160}"

definition js_trim :: "string \<Rightarrow> string" where
  "js_trim v = rev (dropWhile js_whitespace (rev (dropWhile js_whitespace v)))"

definition containsControlCharacter :: "string \<Rightarrow> bool" where
  "containsControlCharacter v \<longleftrightarrow>
     list_ex (\<lambda>c. (of_char c :: nat) \<le> 31 \<or> 127 \<le> (of_char c :: nat) \<and> (of_char c :: nat) \<le> 159) v"

lemma js_trim_idem [simp]: "js_trim (js_trim v) = js_trim v"
proof -
  have front: "dropWhile js_whitespace (js_trim v) = js_trim v"
  proof (cases "js_trim v")
    case (Cons c cs)
    define u where "u = dropWhile js_whitespace v"
    have "\<exists>ws. u = js_trim v @ ws"
      unfolding js_trim_def u_def[symmetric]
      by (metis rev_append rev_rev_ident takeWhile_dropWhile_id)
    then have "hd u = c" "u \<noteq> []" using Cons by auto
    then have "\<not> js_whitespace c" unfolding u_def by (metis hd_dropWhile)
    then show ?thesis using Cons by simp
  qed simp
  have "rev (dropWhile js_whitespace (rev (js_trim v))) = js_trim v"
    by (simp add: js_trim_def dropWhile_idem)
  with front show ?thesis by (simp add: js_trim_def[of "js_trim v"])
qed

lemma set_js_trim: "set (js_trim v) \<subseteq> set v"
proof -
  have drop: "set (dropWhile js_whitespace xs) \<subseteq> set xs" for xs by (auto dest: set_dropWhileD)
  show ?thesis
    using drop[of "rev (dropWhile js_whitespace v)"] drop[of v] by (auto simp: js_trim_def)
qed

lemma control_js_trim: "\<not> containsControlCharacter v \<Longrightarrow> \<not> containsControlCharacter (js_trim v)"
  using set_js_trim[of v] by (auto simp: containsControlCharacter_def list_ex_iff)

section \<open>Readiness policies\<close>

datatype ReadinessMode = runtime | health

record ReadinessPolicy =
  readiness_mode :: ReadinessMode
  timeoutMilliseconds :: int
  pollIntervalMilliseconds :: int

definition DEFAULT_TIMEOUT_MS :: int where "DEFAULT_TIMEOUT_MS = 30000"
definition DEFAULT_POLL_INTERVAL_MS :: int where "DEFAULT_POLL_INTERVAL_MS = 500"
definition MIN_TIMEOUT_MS :: int where "MIN_TIMEOUT_MS = 1000"
definition MAX_TIMEOUT_MS :: int where "MAX_TIMEOUT_MS = 120000"
definition MIN_POLL_INTERVAL_MS :: int where "MIN_POLL_INTERVAL_MS = 100"
definition MAX_POLL_INTERVAL_MS :: int where "MAX_POLL_INTERVAL_MS = 5000"

definition isSafeInteger :: "int \<Rightarrow> bool" where
  "isSafeInteger n \<longleftrightarrow> \<bar>n\<bar> \<le> 9007199254740991"

definition validateMode :: "jsval \<Rightarrow> ReadinessMode result" where
  "validateMode value =
     (if value = JStr ''runtime'' then Inr runtime
      else if value = JStr ''health'' then Inr health
      else Inl (ReadinessPolicyValidationError ''invalid_mode''))"

fun validateTimeout :: "jsval \<Rightarrow> int result" where
  "validateTimeout JUndefined = Inr DEFAULT_TIMEOUT_MS"
| "validateTimeout (JNum n) =
     (if \<not> isSafeInteger n \<or> n < MIN_TIMEOUT_MS \<or> n > MAX_TIMEOUT_MS
      then Inl (ReadinessPolicyValidationError ''invalid_timeout'') else Inr n)"
| "validateTimeout _ = Inl (ReadinessPolicyValidationError ''invalid_timeout'')"

fun validatePollInterval :: "jsval \<Rightarrow> int \<Rightarrow> int result" where
  "validatePollInterval JUndefined timeout = Inr DEFAULT_POLL_INTERVAL_MS"
| "validatePollInterval (JNum n) timeout =
     (if \<not> isSafeInteger n \<or> n < MIN_POLL_INTERVAL_MS \<or> n > MAX_POLL_INTERVAL_MS
      then Inl (ReadinessPolicyValidationError ''invalid_poll_interval'')
      else if n > timeout
      then Inl (ReadinessPolicyValidationError ''poll_interval_exceeds_timeout'') else Inr n)"
| "validatePollInterval _ timeout = Inl (ReadinessPolicyValidationError ''invalid_poll_interval'')"

definition readiness_fields :: "string list" where
  "readiness_fields = [''mode'', ''timeoutMilliseconds'', ''pollIntervalMilliseconds'']"

definition createReadinessPolicy :: "jsval \<Rightarrow> ReadinessPolicy result" where
  "createReadinessPolicy input =
     (if list_ex (\<lambda>field. field \<notin> set readiness_fields) (object_keys input)
      then Inl (ReadinessPolicyValidationError ''invalid_field'')
      else bindR (validateMode (get_prop input ''mode'')) (\<lambda>m.
           bindR (validateTimeout (get_prop input ''timeoutMilliseconds'')) (\<lambda>timeout.
           bindR (validatePollInterval (get_prop input ''pollIntervalMilliseconds'') timeout) (\<lambda>interval.
           Inr \<lparr>readiness_mode = m, timeoutMilliseconds = timeout, pollIntervalMilliseconds = interval\<rparr>))))"

definition defaultReadinessPolicy :: ReadinessPolicy where
  "defaultReadinessPolicy =
     \<lparr>readiness_mode = runtime, timeoutMilliseconds = DEFAULT_TIMEOUT_MS,
      pollIntervalMilliseconds = DEFAULT_POLL_INTERVAL_MS\<rparr>"

lemmas readiness_limits = DEFAULT_TIMEOUT_MS_def DEFAULT_POLL_INTERVAL_MS_def MIN_TIMEOUT_MS_def
  MAX_TIMEOUT_MS_def MIN_POLL_INTERVAL_MS_def MAX_POLL_INTERVAL_MS_def

definition wf_readiness :: "ReadinessPolicy \<Rightarrow> bool" where
  "wf_readiness p \<longleftrightarrow>
     MIN_TIMEOUT_MS \<le> timeoutMilliseconds p \<and> timeoutMilliseconds p \<le> MAX_TIMEOUT_MS \<and>
     MIN_POLL_INTERVAL_MS \<le> pollIntervalMilliseconds p \<and>
     pollIntervalMilliseconds p \<le> MAX_POLL_INTERVAL_MS \<and>
     pollIntervalMilliseconds p \<le> timeoutMilliseconds p"

lemma validateTimeout_range:
  "validateTimeout v = Inr n \<Longrightarrow> MIN_TIMEOUT_MS \<le> n \<and> n \<le> MAX_TIMEOUT_MS"
  by (cases v rule: validateTimeout.cases) (auto simp: readiness_limits split: if_splits)

lemma validatePollInterval_range:
  "validatePollInterval v timeout = Inr n \<Longrightarrow> MIN_TIMEOUT_MS \<le> timeout \<Longrightarrow>
     MIN_POLL_INTERVAL_MS \<le> n \<and> n \<le> MAX_POLL_INTERVAL_MS \<and> n \<le> timeout"
  by (cases v rule: validateTimeout.cases) (auto simp: readiness_limits split: if_splits)

lemma createReadinessPolicy_wf: "createReadinessPolicy v = Inr p \<Longrightarrow> wf_readiness p"
  using validateTimeout_range validatePollInterval_range
  by (fastforce simp: createReadinessPolicy_def wf_readiness_def result_simps split: if_splits)

lemma defaultReadinessPolicy_wf: "wf_readiness defaultReadinessPolicy"
  by (simp add: wf_readiness_def defaultReadinessPolicy_def readiness_limits)

section \<open>Paths\<close>

text \<open>\<open>isAbsolute\<close> and \<open>normalize\<close> of \<open>node:path\<close> on POSIX, for absolute paths.\<close>

fun isAbsolute :: "string \<Rightarrow> bool" where
  "isAbsolute (c # _) \<longleftrightarrow> c = CHR ''/''"
| "isAbsolute [] \<longleftrightarrow> False"

fun split_path :: "string \<Rightarrow> string list" where
  "split_path [] = [[]]"
| "split_path (c # cs) =
     (if c = CHR ''/'' then [] # split_path cs
      else (case split_path cs of s # ss \<Rightarrow> (c # s) # ss | [] \<Rightarrow> [[c]]))"

text \<open>Empty and \<open>.\<close> segments vanish, \<open>..\<close> removes the segment before it, if any.\<close>

fun resolve_segment :: "string \<Rightarrow> string list \<Rightarrow> string list" where
  "resolve_segment seg acc =
     (if seg = [] \<or> seg = ''.'' then acc else if seg = ''..'' then drop 1 acc else seg # acc)"

definition path_segments :: "string \<Rightarrow> string list" where
  "path_segments p = rev (fold resolve_segment (split_path p) [])"

definition join_path :: "string list \<Rightarrow> string" where
  "join_path segs = concat (map (\<lambda>seg. CHR ''/'' # seg) segs)"

definition normalize_path :: "string \<Rightarrow> string" where
  "normalize_path p =
     (let segs = path_segments p in
      if segs = [] then ''/''
      else join_path segs @ (if last p = CHR ''/'' then ''/'' else []))"

definition proper_segment :: "string \<Rightarrow> bool" where
  "proper_segment seg \<longleftrightarrow> seg \<noteq> [] \<and> seg \<noteq> ''.'' \<and> seg \<noteq> ''..'' \<and> CHR ''/'' \<notin> set seg"

lemma split_path_nonempty: "split_path p \<noteq> []"
  by (induction p) (auto split: list.splits)

lemma split_path_no_slash: "seg \<in> set (split_path p) \<Longrightarrow> CHR ''/'' \<notin> set seg"
proof (induction p arbitrary: seg)
  case (Cons c cs)
  then show ?case by (cases "split_path cs") (auto split: if_splits)
qed simp

lemma fold_resolve_proper:
  "list_all proper_segment acc \<Longrightarrow> (\<And>seg. seg \<in> set segs \<Longrightarrow> CHR ''/'' \<notin> set seg) \<Longrightarrow>
     list_all proper_segment (fold resolve_segment segs acc)"
proof (induction segs arbitrary: acc)
  case (Cons seg segs)
  have "list_all proper_segment (drop 1 acc)" using Cons.prems(1) by (cases acc) auto
  moreover have "seg \<noteq> [] \<Longrightarrow> seg \<noteq> ''.'' \<Longrightarrow> seg \<noteq> ''..'' \<Longrightarrow> proper_segment seg"
    using Cons.prems(2) by (simp add: proper_segment_def)
  ultimately have "list_all proper_segment (resolve_segment seg acc)"
    using Cons.prems(1) by simp
  then show ?case using Cons.IH Cons.prems(2) by simp
qed simp

lemma path_segments_proper: "list_all proper_segment (path_segments p)"
  using fold_resolve_proper[of "[]" "split_path p"] split_path_no_slash
  by (auto simp: path_segments_def list_all_iff)

lemma split_path_app: "CHR ''/'' \<notin> set seg \<Longrightarrow> split_path (seg @ CHR ''/'' # p) = seg # split_path p"
  by (induction seg) auto

lemma split_path_plain: "CHR ''/'' \<notin> set seg \<Longrightarrow> split_path seg = [seg]"
  by (induction seg) auto

lemma split_join:
  "list_all proper_segment segs \<Longrightarrow> segs \<noteq> [] \<Longrightarrow>
     split_path (join_path segs) = [] # segs \<and> split_path (join_path segs @ ''/'') = [] # segs @ [[]]"
proof (induction segs)
  case (Cons seg segs)
  then have seg: "CHR ''/'' \<notin> set seg" by (simp add: proper_segment_def)
  show ?case
  proof (cases segs)
    case Nil
    then show ?thesis
      using seg split_path_app[OF seg, of "[]"] by (simp add: join_path_def split_path_plain)
  next
    case (Cons s ss)
    then have "join_path segs = CHR ''/'' # (s @ join_path ss)" by (simp add: join_path_def)
    moreover have "join_path (seg # segs) = CHR ''/'' # seg @ join_path segs" by (simp add: join_path_def)
    ultimately show ?thesis
      using Cons.IH Cons.prems Cons seg split_path_app[OF seg, of "s @ join_path ss"]
        split_path_app[OF seg, of "s @ join_path ss @ ''/''"] by simp
  qed
qed simp

lemma fold_resolve_id: "list_all proper_segment segs \<Longrightarrow> fold resolve_segment segs acc = rev segs @ acc"
  by (induction segs arbitrary: acc) (auto simp: proper_segment_def)

lemma path_segments_normalize_path: "path_segments (normalize_path p) = path_segments p"
proof (cases "path_segments p = []")
  case True
  then show ?thesis by (simp add: normalize_path_def path_segments_def)
next
  case False
  note proper = path_segments_proper[of p]
  show ?thesis
    using False split_join[OF proper False] fold_resolve_id[OF proper]
    by (auto simp: normalize_path_def Let_def path_segments_def[of "_ @ _"] path_segments_def[of "join_path _"])
qed

lemma last_join_path:
  assumes "list_all proper_segment segs" and "segs \<noteq> []"
  shows "last (join_path segs) \<noteq> CHR ''/'' \<and> join_path segs \<noteq> []"
proof -
  obtain ss seg where segs: "segs = ss @ [seg]" using assms(2) by (metis rev_exhaust)
  then have "seg \<noteq> []" "CHR ''/'' \<notin> set seg" using assms(1) by (simp_all add: proper_segment_def)
  moreover have "last seg \<noteq> CHR ''/''" using calculation last_in_set by metis
  ultimately show ?thesis by (simp add: segs join_path_def)
qed

lemma normalize_path_idem: "normalize_path (normalize_path p) = normalize_path p"
proof (cases "path_segments p = []")
  case True
  then show ?thesis using path_segments_normalize_path[of p] by (simp add: normalize_path_def)
next
  case False
  then have "last (normalize_path p) = CHR ''/'' \<longleftrightarrow> last p = CHR ''/''"
    using last_join_path[OF path_segments_proper False] by (auto simp: normalize_path_def Let_def)
  then show ?thesis
    using False path_segments_normalize_path[of p] by (simp add: normalize_path_def[of "normalize_path p"]) (simp add: normalize_path_def)
qed

lemma isAbsolute_normalize_path [simp]: "isAbsolute (normalize_path p)"
  by (cases "path_segments p") (auto simp: normalize_path_def join_path_def)

section \<open>Management configurations\<close>

record DockerComposeManagementConfiguration =
  composeFile :: string
  projectDirectory :: string

definition validatePath :: "string \<Rightarrow> string \<Rightarrow> string result" where
  "validatePath code value =
     (if value \<noteq> js_trim value \<or> containsControlCharacter value \<or> length value = 0
      then Inl (ManagementConfigurationValidationError code) else Inr value)"

definition validateComposePath :: "string \<Rightarrow> string result" where
  "validateComposePath = validatePath ''invalid_compose_file''"

definition validateProjectPath :: "string \<Rightarrow> string result" where
  "validateProjectPath = validatePath ''invalid_project_directory''"

definition starts_with :: "string \<Rightarrow> string \<Rightarrow> bool" where
  "starts_with v prefix \<longleftrightarrow> take (length prefix) v = prefix"

definition checkComposePaths :: "string \<Rightarrow> string \<Rightarrow> DockerComposeManagementConfiguration result" where
  "checkComposePaths compose dir =
     (if length compose > 4096 \<or> length dir > 4096
      then Inl (ManagementConfigurationValidationError ''invalid_compose_file'')
      else if \<not> isAbsolute compose
      then Inl (ManagementConfigurationValidationError ''invalid_compose_file'')
      else if \<not> isAbsolute dir
      then Inl (ManagementConfigurationValidationError ''invalid_project_directory'')
      else if compose = dir
      then Inl (ManagementConfigurationValidationError ''path_escape'')
      else let normalizedCompose = normalize_path compose; normalizedDir = normalize_path dir in
        if \<not> isAbsolute normalizedCompose \<or> \<not> isAbsolute normalizedDir \<or> normalizedCompose = ''/'' \<or>
           \<not> starts_with normalizedCompose (normalizedDir @ ''/'')
        then Inl (ManagementConfigurationValidationError ''path_escape'')
        else Inr \<lparr>composeFile = normalizedCompose, projectDirectory = normalizedDir\<rparr>)"

definition validateDockerComposeManagementConfiguration ::
  "jsval \<Rightarrow> DockerComposeManagementConfiguration result" where
  "validateDockerComposeManagementConfiguration input =
     (if \<not> is_plain_object input
      then Inl (ManagementConfigurationValidationError ''invalid_input_type'')
      else let keys = object_keys input in
        if list_ex (\<lambda>key. key \<noteq> ''composeFile'' \<and> key \<noteq> ''projectDirectory'') keys
        then Inl (ManagementConfigurationValidationError ''unknown_field'')
        else if length keys \<noteq> 2
        then Inl (ManagementConfigurationValidationError ''missing_for_adapter'')
        else case get_prop input ''composeFile'' of
          JStr rawCompose \<Rightarrow>
            (case get_prop input ''projectDirectory'' of
               JStr rawDir \<Rightarrow>
                 bindR (validateComposePath rawCompose) (\<lambda>compose.
                 bindR (validateProjectPath rawDir) (\<lambda>dir.
                 checkComposePaths compose dir))
             | _ \<Rightarrow> Inl (ManagementConfigurationValidationError ''invalid_project_directory''))
        | _ \<Rightarrow> Inl (ManagementConfigurationValidationError ''invalid_compose_file''))"

text \<open>
  An accepted compose file lies in the project directory: both paths are normalized and the
  segments of the file extend those of the directory. They are the same only when the compose
  file is the directory with a trailing slash.
\<close>

definition inside_directory :: "DockerComposeManagementConfiguration \<Rightarrow> bool" where
  "inside_directory c \<longleftrightarrow>
     (\<exists>rest. path_segments (composeFile c) = path_segments (projectDirectory c) @ rest \<and>
        (rest \<noteq> [] \<or> last (composeFile c) = CHR ''/'')) \<and>
     composeFile c = normalize_path (composeFile c) \<and> projectDirectory c = normalize_path (projectDirectory c)"

lemma starts_with_iff: "starts_with v p \<longleftrightarrow> (\<exists>rest. v = p @ rest)"
  unfolding starts_with_def by (metis append_eq_conv_conj append_take_drop_id)

lemma join_path_prefix:
  assumes "list_all proper_segment cs" and "list_all proper_segment ds"
    and "join_path cs @ e = join_path ds @ CHR ''/'' # rest" and "e = [] \<or> e = ''/''"
  shows "\<exists>r. cs = ds @ r"
  using assms(1-3)
proof (induction ds arbitrary: cs)
  case (Cons d ds)
  have d: "CHR ''/'' \<notin> set d" "d \<noteq> []" using Cons.prems(2) by (simp_all add: proper_segment_def)
  obtain c cs' where cs: "cs = c # cs'"
    using Cons.prems(3) assms(4) d by (cases cs) (auto simp: join_path_def)
  have c: "CHR ''/'' \<notin> set c" "c \<noteq> []" using Cons.prems(1) by (simp_all add: cs proper_segment_def)
  have eq: "c @ join_path cs' @ e = d @ join_path ds @ CHR ''/'' # rest"
    using Cons.prems(3) by (simp add: cs join_path_def)
  have tl: "x = [] \<or> hd x = CHR ''/''" if "x = join_path cs' @ e" for x
    using that assms(4) by (cases cs') (auto simp: join_path_def)
  have hd: "hd (join_path ds @ CHR ''/'' # rest) = CHR ''/''"
    by (cases ds) (auto simp: join_path_def)
  have "takeWhile (\<lambda>x. x \<noteq> CHR ''/'') (c @ join_path cs' @ e) = c"
    using c(1) tl[OF refl] by (cases "join_path cs' @ e") (auto simp: takeWhile_append takeWhile_eq_all_conv)
  moreover have "takeWhile (\<lambda>x. x \<noteq> CHR ''/'') (d @ join_path ds @ CHR ''/'' # rest) = d"
    using d(1) hd by (cases "join_path ds @ CHR ''/'' # rest") (auto simp: takeWhile_append takeWhile_eq_all_conv)
  ultimately have "c = d" using eq by simp
  then show ?case using Cons.IH[of cs'] Cons.prems eq by (auto simp: cs)
qed simp

lemma join_path_no_double_slash:
  assumes "list_all proper_segment cs" and "e = [] \<or> e = ''/''"
  shows "join_path cs @ e \<noteq> CHR ''/'' # CHR ''/'' # rest"
proof (cases cs)
  case (Cons c cs')
  then obtain x c' where "c = x # c'" "x \<noteq> CHR ''/''"
    using assms(1) by (cases c) (auto simp: proper_segment_def)
  then show ?thesis by (simp add: Cons join_path_def)
qed (use assms(2) in \<open>auto simp: join_path_def\<close>)

lemma accepted_paths:
  assumes "starts_with (normalize_path p) (normalize_path d @ ''/'')" and "normalize_path p \<noteq> ''/''"
  shows "normalize_path d = join_path (path_segments d) \<and>
    (\<exists>rest. path_segments p = path_segments d @ rest \<and> (rest \<noteq> [] \<or> last (normalize_path p) = CHR ''/''))"
proof -
  define cs ds where "cs = path_segments p" and "ds = path_segments d"
  have proper: "list_all proper_segment cs" "list_all proper_segment ds"
    by (simp_all add: cs_def ds_def path_segments_proper)
  obtain e where np: "normalize_path p = join_path cs @ e" "e = [] \<or> e = ''/''"
    using assms(2) by (auto simp: normalize_path_def Let_def cs_def split: if_splits)
  obtain rest where rest: "join_path cs @ e = normalize_path d @ CHR ''/'' # rest"
    using assms(1) np(1) by (auto simp: starts_with_iff)
  have nd: "normalize_path d = join_path ds"
  proof (rule ccontr)
    assume "normalize_path d \<noteq> join_path ds"
    then have "normalize_path d = join_path ds @ ''/''"
      by (auto simp: normalize_path_def Let_def ds_def join_path_def split: if_splits)
    then have double: "join_path cs @ e = join_path ds @ CHR ''/'' # CHR ''/'' # rest" using rest by simp
    then obtain r where "cs = ds @ r" using join_path_prefix[OF proper double np(2)] by blast
    then have "join_path r @ e = CHR ''/'' # CHR ''/'' # rest" using double by (simp add: join_path_def)
    then show False
      using join_path_no_double_slash[of r e rest] np(2) proper(1) \<open>cs = ds @ r\<close> by simp
  qed
  then have eq: "join_path cs @ e = join_path ds @ CHR ''/'' # rest" using rest by simp
  then obtain r where r: "cs = ds @ r" using join_path_prefix[OF proper eq np(2)] by blast
  have "r \<noteq> [] \<or> last (normalize_path p) = CHR ''/''"
    using eq np r by (cases r) (auto simp: join_path_def)
  then show ?thesis using nd r by (auto simp: cs_def ds_def)
qed

lemma checkComposePaths_inside:
  assumes "checkComposePaths compose dir = Inr c"
  shows "inside_directory c"
proof -
  have c: "c = \<lparr>composeFile = normalize_path compose, projectDirectory = normalize_path dir\<rparr>"
      "normalize_path compose \<noteq> ''/''" "starts_with (normalize_path compose) (normalize_path dir @ ''/'')"
    using assms by (auto simp: checkComposePaths_def Let_def split: if_splits)
  then show ?thesis
    using conjunct2[OF accepted_paths[OF c(3,2)]]
    by (simp add: inside_directory_def path_segments_normalize_path normalize_path_idem)
qed

lemma validateDockerCompose_Inr:
  assumes "validateDockerComposeManagementConfiguration v = Inr c"
  obtains compose dir where "validateComposePath compose = Inr compose" "validateProjectPath dir = Inr dir"
    "checkComposePaths compose dir = Inr c"
  using assms
  by (auto simp: validateDockerComposeManagementConfiguration_def Let_def result_simps
      validateComposePath_def validateProjectPath_def validatePath_def
      split: if_splits jsval.splits)

text \<open>The object that stands for an accepted configuration when it is validated again.\<close>

definition configuration_value :: "DockerComposeManagementConfiguration \<Rightarrow> jsval" where
  "configuration_value c =
     literal_obj [(''composeFile'', JStr (composeFile c)), (''projectDirectory'', JStr (projectDirectory c))]"

definition path_size :: "string list \<Rightarrow> nat" where
  "path_size segs = sum_list (map (\<lambda>seg. Suc (length seg)) segs)"

lemma path_size_resolve: "path_size (fold resolve_segment segs acc) \<le> path_size segs + path_size acc"
proof (induction segs arbitrary: acc)
  case (Cons seg segs)
  have "path_size (drop 1 acc) \<le> path_size acc" by (cases acc) (auto simp: path_size_def)
  then have "path_size (resolve_segment seg acc) \<le> path_size [seg] + path_size acc"
    by (auto simp: path_size_def)
  then show ?case using Cons.IH[of "resolve_segment seg acc"] by (auto simp: path_size_def)
qed simp

lemma path_size_Nil: "path_size [] = 0"
  by (simp add: path_size_def)

lemma path_size_split: "path_size (split_path p) = Suc (length p)"
proof (induction p)
  case (Cons c cs)
  then show ?case by (cases "split_path cs") (auto simp: path_size_def)
qed (simp add: path_size_def)

lemma length_join_path: "length (join_path segs) = path_size segs"
  by (induction segs) (auto simp: join_path_def path_size_def)

lemma path_size_rev [simp]: "path_size (rev segs) = path_size segs"
  by (simp add: path_size_def rev_map[symmetric])

lemma split_path_trailing: "p \<noteq> [] \<Longrightarrow> last p = CHR ''/'' \<Longrightarrow> \<exists>s ss. split_path p = s # ss @ [[]]"
proof (induction p)
  case (Cons c cs)
  show ?case
  proof (cases "cs = []")
    case True
    then show ?thesis using Cons.prems by simp
  next
    case False
    then obtain s ss where "split_path cs = s # ss @ [[]]" using Cons by auto
    then show ?thesis by auto
  qed
qed simp

lemma length_normalize_path:
  assumes "isAbsolute p"
  shows "length (normalize_path p) \<le> length p"
proof (cases "path_segments p = []")
  case True
  then show ?thesis using assms by (cases p) (auto simp: normalize_path_def)
next
  case False
  obtain q where p: "p = CHR ''/'' # q" using assms by (cases p) auto
  have segs: "path_segments p = rev (fold resolve_segment (split_path q) [])"
    by (simp add: path_segments_def p)
  show ?thesis
  proof (cases "last p = CHR ''/''")
    case trailing: True
    have "q \<noteq> []" using False by (auto simp: segs)
    then obtain s ss where q: "split_path q = s # ss @ [[]]"
      using split_path_trailing[of q] trailing by (auto simp: p)
    then have "path_segments p = rev (fold resolve_segment (s # ss) [])" by (simp add: segs)
    then have "length (join_path (path_segments p)) \<le> path_size (s # ss)"
      using path_size_resolve[of "s # ss" "[]"] by (simp only: length_join_path path_size_rev path_size_Nil add_0_right)
    moreover have "path_size (s # ss) = length q" using path_size_split[of q] by (simp add: q path_size_def)
    ultimately show ?thesis using False trailing by (simp add: normalize_path_def p)
  next
    case no_trailing: False
    have "length (join_path (path_segments p)) \<le> Suc (length q)"
      unfolding length_join_path segs path_size_rev
      using path_size_resolve[of "split_path q" "[]"] path_size_split[of q] by (simp add: path_size_def)
    then show ?thesis using False no_trailing by (simp add: normalize_path_def p)
  qed
qed

lemma set_split_path: "seg \<in> set (split_path p) \<Longrightarrow> set seg \<subseteq> set p"
proof (induction p arbitrary: seg)
  case (Cons c cs)
  then show ?case
    using Cons.IH by (cases "split_path cs") (fastforce split: if_splits)+
qed simp

lemma set_fold_resolve: "set (fold resolve_segment segs acc) \<subseteq> set segs \<union> set acc"
proof (induction segs arbitrary: acc)
  case (Cons seg segs)
  have "set (resolve_segment seg acc) \<subseteq> insert seg (set acc)" by (auto dest: in_set_dropD)
  then show ?case using Cons.IH[of "resolve_segment seg acc"] by auto
qed simp

lemma set_normalize_path: "isAbsolute p \<Longrightarrow> set (normalize_path p) \<subseteq> set p"
proof -
  assume "isAbsolute p"
  then have slash: "CHR ''/'' \<in> set p" by (cases p) auto
  have "set seg \<subseteq> set p" if "seg \<in> set (path_segments p)" for seg
    using that set_fold_resolve[of "split_path p" "[]"] set_split_path[of seg p]
    by (auto simp: path_segments_def)
  then show ?thesis using slash by (auto simp: normalize_path_def Let_def join_path_def)
qed

lemma control_normalize_path:
  "isAbsolute p \<Longrightarrow> \<not> containsControlCharacter p \<Longrightarrow> \<not> containsControlCharacter (normalize_path p)"
  using set_normalize_path[of p] by (auto simp: containsControlCharacter_def list_ex_iff)

text \<open>
  Validating an accepted configuration again gives it back, provided its normalized paths do
  not end in white space (normalization can uncover some: \<open>/srv/a /.\<close> becomes \<open>/srv/a \<close>).
\<close>

definition trimmed_paths :: "DockerComposeManagementConfiguration \<Rightarrow> bool" where
  "trimmed_paths c \<longleftrightarrow> js_trim (composeFile c) = composeFile c \<and> js_trim (projectDirectory c) = projectDirectory c"

lemma validateDockerCompose_again:
  assumes "validateDockerComposeManagementConfiguration v = Inr c" and "trimmed_paths c"
  shows "validateDockerComposeManagementConfiguration (configuration_value c) = Inr c"
proof -
  obtain compose dir where v: "validateComposePath compose = Inr compose" "validateProjectPath dir = Inr dir"
    and k: "checkComposePaths compose dir = Inr c" using assms(1) by (rule validateDockerCompose_Inr)
  have c: "c = \<lparr>composeFile = normalize_path compose, projectDirectory = normalize_path dir\<rparr>"
      "isAbsolute compose" "isAbsolute dir" "length compose \<le> 4096" "length dir \<le> 4096"
      "normalize_path compose \<noteq> ''/''" "starts_with (normalize_path compose) (normalize_path dir @ ''/'')"
    using k by (auto simp: checkComposePaths_def Let_def split: if_splits)
  have ne: "normalize_path compose \<noteq> normalize_path dir" using c(7) by (auto simp: starts_with_iff)
  have "\<not> containsControlCharacter (normalize_path compose)" "\<not> containsControlCharacter (normalize_path dir)"
    using v c(2,3) control_normalize_path
    by (auto simp: validateComposePath_def validateProjectPath_def validatePath_def split: if_splits)
  moreover have "length (normalize_path compose) \<le> 4096" "length (normalize_path dir) \<le> 4096"
    using length_normalize_path[OF c(2)] length_normalize_path[OF c(3)] c(4,5) by auto
  moreover have "normalize_path compose \<noteq> []" "normalize_path dir \<noteq> []"
    using isAbsolute_normalize_path by (metis isAbsolute.simps(2))+
  moreover have "checkComposePaths (normalize_path compose) (normalize_path dir) = Inr c"
    using calculation c ne by (simp add: checkComposePaths_def normalize_path_idem)
  ultimately show ?thesis
    using assms(2)
    by (simp add: c(1) trimmed_paths_def validateDockerComposeManagementConfiguration_def
        configuration_value_def literal_obj_def object_keys_def validateComposePath_def
        validateProjectPath_def validatePath_def)
qed

section \<open>Registered services\<close>

datatype ServiceManagementAdapter = mock | pm2 | docker | docker_compose

definition adapter_string :: "ServiceManagementAdapter \<Rightarrow> string" where
  "adapter_string a =
     (case a of mock \<Rightarrow> ''mock'' | pm2 \<Rightarrow> ''pm2'' | docker \<Rightarrow> ''docker'' | docker_compose \<Rightarrow> ''docker-compose'')"

definition SERVICE_MANAGEMENT_ADAPTERS :: "ServiceManagementAdapter list" where
  "SERVICE_MANAGEMENT_ADAPTERS = [mock, pm2, docker, docker_compose]"

datatype SupportedServiceOperation = readStatus | readLogs | start | stop | restart

definition operation_string :: "SupportedServiceOperation \<Rightarrow> string" where
  "operation_string op =
     (case op of readStatus \<Rightarrow> ''readStatus'' | readLogs \<Rightarrow> ''readLogs'' | start \<Rightarrow> ''start''
      | stop \<Rightarrow> ''stop'' | restart \<Rightarrow> ''restart'')"

definition SUPPORTED_SERVICE_OPERATIONS :: "SupportedServiceOperation list" where
  "SUPPORTED_SERVICE_OPERATIONS = [readStatus, readLogs, start, stop, restart]"

record RegisteredService =
  service_id :: string
  displayName :: string
  managementAdapter :: ServiceManagementAdapter
  externalResourceId :: string
  supportedOperations :: "SupportedServiceOperation list"
  availabilityPolicy :: ServiceAvailabilityPolicy
  managementConfiguration :: "DockerComposeManagementConfiguration option"
  dependencies :: "string list"
  readinessPolicy :: ReadinessPolicy

text \<open>The input; an absent optional field is undefined.\<close>

record CreateRegisteredServiceInput =
  input_id :: string
  input_displayName :: string
  input_managementAdapter :: string
  input_externalResourceId :: string
  input_supportedOperations :: "string list"
  input_availabilityPolicy :: jsval
  input_managementConfiguration :: jsval
  input_dependencies :: jsval
  input_readinessPolicy :: jsval

definition validateServiceId :: "string \<Rightarrow> string result" where
  "validateServiceId i =
     (if length i < 1 \<or> length i > 64 \<or> \<not> SERVICE_ID_PATTERN i
      then Inl (RegisteredServiceValidationError ''invalid_id'') else Inr i)"

definition validateTrimmed :: "string \<Rightarrow> nat \<Rightarrow> string \<Rightarrow> string result" where
  "validateTrimmed code limit value =
     (if containsControlCharacter value then Inl (RegisteredServiceValidationError code)
      else let trimmed = js_trim value in
        if length trimmed < 1 \<or> length trimmed > limit
        then Inl (RegisteredServiceValidationError code) else Inr trimmed)"

definition validateDisplayName :: "string \<Rightarrow> string result" where
  "validateDisplayName = validateTrimmed ''invalid_display_name'' 100"

definition validateExternalResourceId :: "string \<Rightarrow> string result" where
  "validateExternalResourceId = validateTrimmed ''invalid_external_resource_id'' 128"

definition validateManagementAdapter :: "string \<Rightarrow> ServiceManagementAdapter result" where
  "validateManagementAdapter v =
     (case find (\<lambda>a. adapter_string a = v) SERVICE_MANAGEMENT_ADAPTERS of
        None \<Rightarrow> Inl (RegisteredServiceValidationError ''invalid_management_adapter'')
      | Some a \<Rightarrow> Inr a)"

fun collect_operations ::
  "string list \<Rightarrow> SupportedServiceOperation list \<Rightarrow> SupportedServiceOperation list result" where
  "collect_operations [] unique = Inr unique"
| "collect_operations (v # vs) unique =
     (case find (\<lambda>op. operation_string op = v) SUPPORTED_SERVICE_OPERATIONS of
        None \<Rightarrow> Inl (RegisteredServiceValidationError ''invalid_supported_operations'')
      | Some op \<Rightarrow>
          if op \<in> set unique
          then Inl (RegisteredServiceValidationError ''invalid_supported_operations'')
          else collect_operations vs (unique @ [op]))"

definition validateSupportedOperations :: "string list \<Rightarrow> SupportedServiceOperation list result" where
  "validateSupportedOperations operations =
     (if length operations = 0
      then Inl (RegisteredServiceValidationError ''invalid_supported_operations'')
      else bindR (collect_operations operations []) (\<lambda>unique.
           if readStatus \<notin> set unique
           then Inl (RegisteredServiceValidationError ''invalid_supported_operations'')
           else Inr unique))"

fun is_policy_error :: "js_error \<Rightarrow> bool" where
  "is_policy_error (ServiceAvailabilityModeValidationError _) = True"
| "is_policy_error ServiceAvailabilityPolicyValidationError = True"
| "is_policy_error ServiceScheduleTimezoneValidationError = True"
| "is_policy_error (ServiceScheduleValidationError _) = True"
| "is_policy_error _ = False"

definition validateAvailabilityPolicy :: "jsval \<Rightarrow> ServiceAvailabilityPolicy result" where
  "validateAvailabilityPolicy input =
     (case createServiceAvailabilityPolicy input of
        Inr p \<Rightarrow> Inr p
      | Inl e \<Rightarrow> if is_policy_error e
                then Inl (RegisteredServiceValidationError ''invalid_availability_policy'') else Inl e)"

definition validateAndGetManagementConfiguration ::
  "ServiceManagementAdapter \<Rightarrow> jsval \<Rightarrow> DockerComposeManagementConfiguration option result" where
  "validateAndGetManagementConfiguration adapter config =
     (if adapter = docker_compose
      then if config = JUndefined
           then Inl (RegisteredServiceValidationError ''invalid_management_configuration'')
           else case validateDockerComposeManagementConfiguration config of
             Inr c \<Rightarrow> Inr (Some c)
           | Inl (ManagementConfigurationValidationError _) \<Rightarrow>
               Inl (RegisteredServiceValidationError ''invalid_management_configuration'')
           | Inl e \<Rightarrow> Inl e
      else if config \<noteq> JUndefined
      then Inl (RegisteredServiceValidationError ''invalid_management_configuration'')
      else Inr None)"

definition MAX_DIRECT_DEPENDENCIES_PER_SERVICE :: nat where
  "MAX_DIRECT_DEPENDENCIES_PER_SERVICE = 16"

fun check_dependencies :: "string \<Rightarrow> string list \<Rightarrow> string list \<Rightarrow> unit result" where
  "check_dependencies ownId [] seen = Inr ()"
| "check_dependencies ownId (dep # deps) seen =
     (if js_trim dep \<noteq> dep \<or> length dep = 0 \<or> \<not> SERVICE_ID_PATTERN dep \<or> length dep > 64 \<or>
         dep = ownId \<or> dep \<in> set seen
      then Inl (RegisteredServiceValidationError ''invalid_dependencies'')
      else check_dependencies ownId deps (seen @ [dep]))"

fun string_value :: "jsval \<Rightarrow> string option" where
  "string_value (JStr v) = Some v"
| "string_value _ = None"

fun validateDependencies :: "jsval \<Rightarrow> string \<Rightarrow> string list result" where
  "validateDependencies JUndefined ownId = Inr []"
| "validateDependencies (JArr vs) ownId =
     (if \<not> list_all (\<lambda>v. string_value v \<noteq> None) vs
      then Inl (RegisteredServiceValidationError ''invalid_dependencies'')
      else let deps = map (\<lambda>v. the (string_value v)) vs in
        if length deps > MAX_DIRECT_DEPENDENCIES_PER_SERVICE
        then Inl (RegisteredServiceValidationError ''invalid_dependencies'')
        else bindR (check_dependencies ownId deps []) (\<lambda>_. Inr deps))"
| "validateDependencies _ ownId = Inl (RegisteredServiceValidationError ''invalid_dependencies'')"

definition validateReadinessPolicy :: "jsval \<Rightarrow> ReadinessPolicy result" where
  "validateReadinessPolicy input =
     (if input = JUndefined then Inr defaultReadinessPolicy
      else if \<not> is_plain_object input
      then Inl (RegisteredServiceValidationError ''invalid_readiness_policy'')
      else case createReadinessPolicy input of
        Inr p \<Rightarrow> Inr p
      | Inl (ReadinessPolicyValidationError _) \<Rightarrow>
          Inl (RegisteredServiceValidationError ''invalid_readiness_policy'')
      | Inl e \<Rightarrow> Inl e)"

definition create_RegisteredService :: "CreateRegisteredServiceInput \<Rightarrow> RegisteredService result" where
  "create_RegisteredService input =
     bindR (validateServiceId (input_id input)) (\<lambda>i.
     bindR (validateDisplayName (input_displayName input)) (\<lambda>name.
     bindR (validateManagementAdapter (input_managementAdapter input)) (\<lambda>adapter.
     bindR (validateExternalResourceId (input_externalResourceId input)) (\<lambda>ext.
     bindR (validateSupportedOperations (input_supportedOperations input)) (\<lambda>ops.
     bindR (validateAvailabilityPolicy (input_availabilityPolicy input)) (\<lambda>policy.
     bindR (validateAndGetManagementConfiguration adapter (input_managementConfiguration input)) (\<lambda>config.
     bindR (validateDependencies (input_dependencies input) i) (\<lambda>deps.
     bindR (validateReadinessPolicy (input_readinessPolicy input)) (\<lambda>readiness.
     if readiness_mode readiness = health \<and> adapter \<noteq> docker \<and> adapter \<noteq> docker_compose
     then Inl (RegisteredServiceValidationError ''invalid_readiness_policy'')
     else Inr \<lparr>service_id = i, displayName = name, managementAdapter = adapter, externalResourceId = ext,
               supportedOperations = ops, availabilityPolicy = policy, managementConfiguration = config,
               dependencies = deps, readinessPolicy = readiness\<rparr>)))))))))"

definition readiness_value :: "ReadinessPolicy \<Rightarrow> jsval" where
  "readiness_value p =
     literal_obj
       [(''mode'', JStr (case readiness_mode p of runtime \<Rightarrow> ''runtime'' | health \<Rightarrow> ''health'')),
        (''timeoutMilliseconds'', JNum (timeoutMilliseconds p)),
        (''pollIntervalMilliseconds'', JNum (pollIntervalMilliseconds p))]"

definition withRegisteredServiceAvailabilityPolicy ::
  "RegisteredService \<Rightarrow> ServiceAvailabilityPolicy \<Rightarrow> RegisteredService result" where
  "withRegisteredServiceAvailabilityPolicy service policy =
     create_RegisteredService
       \<lparr>input_id = service_id service, input_displayName = displayName service,
        input_managementAdapter = adapter_string (managementAdapter service),
        input_externalResourceId = externalResourceId service,
        input_supportedOperations = map operation_string (supportedOperations service),
        input_availabilityPolicy = serializeAvailabilityPolicy policy,
        input_managementConfiguration =
          (case managementConfiguration service of None \<Rightarrow> JUndefined | Some c \<Rightarrow> configuration_value c),
        input_dependencies = JArr (map JStr (dependencies service)),
        input_readinessPolicy = readiness_value (readinessPolicy service)\<rparr>"

text \<open>The invariant of an accepted service.\<close>

definition trimmed_text :: "nat \<Rightarrow> string \<Rightarrow> bool" where
  "trimmed_text limit v \<longleftrightarrow> js_trim v = v \<and> \<not> containsControlCharacter v \<and> 1 \<le> length v \<and> length v \<le> limit"

definition service_id_ok :: "string \<Rightarrow> bool" where
  "service_id_ok i \<longleftrightarrow> 1 \<le> length i \<and> length i \<le> 64 \<and> SERVICE_ID_PATTERN i"

definition wf_service :: "RegisteredService \<Rightarrow> bool" where
  "wf_service s \<longleftrightarrow>
     service_id_ok (service_id s) \<and>
     trimmed_text 100 (displayName s) \<and> trimmed_text 128 (externalResourceId s) \<and>
     distinct (supportedOperations s) \<and> readStatus \<in> set (supportedOperations s) \<and>
     wf_policy (availabilityPolicy s) \<and>
     (managementAdapter s = docker_compose) = (managementConfiguration s \<noteq> None) \<and>
     (case managementConfiguration s of None \<Rightarrow> True | Some c \<Rightarrow> inside_directory c) \<and>
     length (dependencies s) \<le> MAX_DIRECT_DEPENDENCIES_PER_SERVICE \<and> distinct (dependencies s) \<and>
     service_id s \<notin> set (dependencies s) \<and> list_all service_id_ok (dependencies s) \<and>
     wf_readiness (readinessPolicy s) \<and>
     (readiness_mode (readinessPolicy s) = health) \<le> (managementAdapter s \<in> {docker, docker_compose})"

lemma id_char_not_whitespace: "id_char c \<Longrightarrow> \<not> js_whitespace c"
proof -
  assume "id_char c"
  then have "97 \<le> (of_char c :: nat) \<and> (of_char c :: nat) \<le> 122 \<or> 48 \<le> (of_char c :: nat) \<and> (of_char c :: nat) \<le> 57"
    by (auto simp: id_char_def less_eq_char_def)
  then show ?thesis by (auto simp: js_whitespace_def)
qed

lemma id_rest_no_whitespace: "id_rest b v \<Longrightarrow> c \<in> set v \<Longrightarrow> \<not> js_whitespace c"
proof (induction b v rule: id_rest.induct)
  case (2 b d v)
  have "\<not> js_whitespace CHR ''-''" by (simp add: js_whitespace_def)
  then show ?case using 2 id_char_not_whitespace[of d] by (auto split: if_splits)
qed simp

lemma js_trim_pattern: "SERVICE_ID_PATTERN v \<Longrightarrow> js_trim v = v"
proof -
  assume "SERVICE_ID_PATTERN v"
  then have "\<forall>c \<in> set v. \<not> js_whitespace c"
    using id_rest_no_whitespace by (auto simp: SERVICE_ID_PATTERN_def)
  then have "v = [] \<or> \<not> js_whitespace (hd v) \<and> \<not> js_whitespace (last v)"
    by (cases v) (simp, simp only: hd_in_set last_in_set list.distinct simp_thms)
  then show ?thesis by (auto simp: js_trim_def dropWhile_eq_self_iff[THEN iffD2] hd_rev)
qed

lemma validateTrimmed_Inr:
  "validateTrimmed code limit v = Inr t \<Longrightarrow> trimmed_text limit t"
  by (auto simp: validateTrimmed_def Let_def trimmed_text_def control_js_trim Suc_le_eq split: if_splits)

lemma validateTrimmed_again: "trimmed_text limit v \<Longrightarrow> validateTrimmed code limit v = Inr v"
  by (auto simp: validateTrimmed_def trimmed_text_def)

lemma adapter_again: "validateManagementAdapter (adapter_string a) = Inr a"
  by (cases a) (simp_all add: validateManagementAdapter_def SERVICE_MANAGEMENT_ADAPTERS_def adapter_string_def)

lemma find_operation:
  "find (\<lambda>op. operation_string op = operation_string o') SUPPORTED_SERVICE_OPERATIONS = Some o'"
  by (cases o') (simp_all add: SUPPORTED_SERVICE_OPERATIONS_def operation_string_def)

lemma collect_operations_distinct:
  "collect_operations vs acc = Inr ops \<Longrightarrow> distinct acc \<Longrightarrow> distinct ops"
  by (induction vs arbitrary: acc) (auto split: option.splits if_splits)

lemma collect_operations_again:
  "distinct (acc @ ops) \<Longrightarrow> collect_operations (map operation_string ops) acc = Inr (acc @ ops)"
  by (induction ops arbitrary: acc) (auto simp: find_operation)

lemma validateSupportedOperations_Inr:
  "validateSupportedOperations vs = Inr ops \<Longrightarrow> distinct ops \<and> readStatus \<in> set ops"
  by (auto simp: validateSupportedOperations_def result_simps split: if_splits
      dest: collect_operations_distinct)

lemma validateSupportedOperations_again:
  "distinct ops \<Longrightarrow> readStatus \<in> set ops \<Longrightarrow>
     validateSupportedOperations (map operation_string ops) = Inr ops"
  using collect_operations_again[of "[]" ops] by (cases ops) (auto simp: validateSupportedOperations_def)

lemma check_dependencies_iff:
  "check_dependencies own deps seen = Inr () \<longleftrightarrow>
     list_all service_id_ok deps \<and> own \<notin> set deps \<and> distinct deps \<and> set deps \<inter> set seen = {}"
  by (induction own deps seen rule: check_dependencies.induct)
    (auto simp: service_id_ok_def js_trim_pattern Suc_le_eq)

lemma validateDependencies_Inr:
  assumes "validateDependencies v own = Inr deps"
  shows "length deps \<le> MAX_DIRECT_DEPENDENCIES_PER_SERVICE \<and> distinct deps \<and> own \<notin> set deps \<and>
    list_all service_id_ok deps"
  using assms by (cases "(v, own)" rule: validateDependencies.cases)
    (auto simp: Let_def result_simps check_dependencies_iff split: if_splits)

lemma validateDependencies_again:
  assumes "length deps \<le> MAX_DIRECT_DEPENDENCIES_PER_SERVICE" and "distinct deps" and "own \<notin> set deps"
    and "list_all service_id_ok deps"
  shows "validateDependencies (JArr (map JStr deps)) own = Inr deps"
proof -
  have strings: "list_all (\<lambda>v. string_value v \<noteq> None) (map JStr deps)" by (simp add: list_all_iff)
  have vals: "map (\<lambda>v. the (string_value v)) (map JStr deps) = deps" by (simp add: comp_def)
  have "check_dependencies own deps [] = Inr ()" using assms by (simp add: check_dependencies_iff)
  then show ?thesis
    using assms(1) unfolding validateDependencies.simps Let_def vals by (simp add: strings[simplified])
qed

lemma validateAvailabilityPolicy_Inr: "validateAvailabilityPolicy v = Inr p \<Longrightarrow> wf_policy p"
  by (auto simp: validateAvailabilityPolicy_def createServiceAvailabilityPolicy_wf split: sum.splits if_splits)

lemma validateAvailabilityPolicy_again:
  "wf_policy p \<Longrightarrow> validateAvailabilityPolicy (serializeAvailabilityPolicy p) = Inr p"
  by (simp add: validateAvailabilityPolicy_def createServiceAvailabilityPolicy_serialize)

lemma validateReadinessPolicy_Inr: "validateReadinessPolicy v = Inr p \<Longrightarrow> wf_readiness p"
  by (auto simp: validateReadinessPolicy_def defaultReadinessPolicy_wf createReadinessPolicy_wf
      split: if_splits sum.splits js_error.splits)

lemma validateReadinessPolicy_again:
  assumes "wf_readiness p"
  shows "validateReadinessPolicy (readiness_value p) = Inr p"
proof -
  have "createReadinessPolicy (readiness_value p) = Inr p"
    using assms
    by (cases "readiness_mode p") (simp_all add: createReadinessPolicy_def readiness_value_def literal_obj_def
        object_keys_def readiness_fields_def validateMode_def wf_readiness_def readiness_limits isSafeInteger_def)
  then show ?thesis by (simp add: validateReadinessPolicy_def readiness_value_def literal_obj_def)
qed

lemma validateConfiguration_Inr:
  "validateAndGetManagementConfiguration adapter v = Inr config \<Longrightarrow>
     (adapter = docker_compose) = (config \<noteq> None) \<and>
     (case config of None \<Rightarrow> True
      | Some c \<Rightarrow> validateDockerComposeManagementConfiguration v = Inr c)"
  by (auto simp: validateAndGetManagementConfiguration_def split: if_splits sum.splits js_error.splits)

lemma validateConfiguration_inside:
  assumes "validateDockerComposeManagementConfiguration v = Inr c"
  shows "inside_directory c"
  using assms by (elim validateDockerCompose_Inr) (rule checkComposePaths_inside)

lemma create_RegisteredService_parts:
  assumes "create_RegisteredService input = Inr s"
  shows "validateServiceId (input_id input) = Inr (service_id s)"
    and "validateDisplayName (input_displayName input) = Inr (displayName s)"
    and "validateExternalResourceId (input_externalResourceId input) = Inr (externalResourceId s)"
    and "validateSupportedOperations (input_supportedOperations input) = Inr (supportedOperations s)"
    and "validateAvailabilityPolicy (input_availabilityPolicy input) = Inr (availabilityPolicy s)"
    and "validateAndGetManagementConfiguration (managementAdapter s) (input_managementConfiguration input) =
      Inr (managementConfiguration s)"
    and "validateDependencies (input_dependencies input) (service_id s) = Inr (dependencies s)"
    and "validateReadinessPolicy (input_readinessPolicy input) = Inr (readinessPolicy s)"
    and "\<not> (readiness_mode (readinessPolicy s) = health \<and> managementAdapter s \<noteq> docker \<and>
      managementAdapter s \<noteq> docker_compose)"
  using assms unfolding create_RegisteredService_def
  by (auto simp: result_simps simp flip: not_None_eq split: if_splits)

lemma create_RegisteredService_wf:
  assumes "create_RegisteredService input = Inr s"
  shows "wf_service s"
proof -
  note parts = create_RegisteredService_parts[OF assms]
  have "service_id_ok (service_id s)"
    using parts(1) by (auto simp: validateServiceId_def service_id_ok_def Suc_le_eq split: if_splits)
  moreover have "trimmed_text 100 (displayName s)" "trimmed_text 128 (externalResourceId s)"
    using parts(2,3) by (auto simp: validateDisplayName_def validateExternalResourceId_def intro: validateTrimmed_Inr)
  moreover have "case managementConfiguration s of None \<Rightarrow> True | Some c \<Rightarrow> inside_directory c"
    using validateConfiguration_Inr[OF parts(6)] validateConfiguration_inside
    by (auto split: option.splits)
  ultimately show ?thesis
    using validateSupportedOperations_Inr[OF parts(4)] validateAvailabilityPolicy_Inr[OF parts(5)]
      validateConfiguration_Inr[OF parts(6)] validateDependencies_Inr[OF parts(7)]
      validateReadinessPolicy_Inr[OF parts(8)] parts(9)
    by (simp only: wf_service_def le_bool_def insert_iff empty_iff simp_thms) auto
qed

text \<open>What makes a stored configuration stable under another validation.\<close>

definition revalidates :: "RegisteredService \<Rightarrow> bool" where
  "revalidates s \<longleftrightarrow> (case managementConfiguration s of None \<Rightarrow> True | Some c \<Rightarrow>
     validateDockerComposeManagementConfiguration (configuration_value c) = Inr c)"

lemma with_policy_again:
  assumes wf: "wf_service s" and "revalidates s" and p: "wf_policy p"
  shows "withRegisteredServiceAvailabilityPolicy s p = Inr (s\<lparr>availabilityPolicy := p\<rparr>)"
proof -
  have i: "validateServiceId (service_id s) = Inr (service_id s)"
    using wf by (cases "service_id s") (simp_all add: wf_service_def validateServiceId_def service_id_ok_def)
  have texts: "validateDisplayName (displayName s) = Inr (displayName s)"
      "validateExternalResourceId (externalResourceId s) = Inr (externalResourceId s)"
    using wf by (simp_all add: wf_service_def validateDisplayName_def validateExternalResourceId_def
        validateTrimmed_again)
  have ops: "validateSupportedOperations (map operation_string (supportedOperations s)) = Inr (supportedOperations s)"
    using wf by (intro validateSupportedOperations_again) (simp_all add: wf_service_def)
  have config: "validateAndGetManagementConfiguration (managementAdapter s)
      (case managementConfiguration s of None \<Rightarrow> JUndefined | Some c \<Rightarrow> configuration_value c) =
      Inr (managementConfiguration s)"
    using assms(1,2) by (cases "managementConfiguration s")
      (auto simp: wf_service_def revalidates_def validateAndGetManagementConfiguration_def
        configuration_value_def literal_obj_def)
  have deps: "validateDependencies (JArr (map JStr (dependencies s))) (service_id s) = Inr (dependencies s)"
    using wf by (intro validateDependencies_again) (simp_all add: wf_service_def)
  have readiness: "validateReadinessPolicy (readiness_value (readinessPolicy s)) = Inr (readinessPolicy s)"
    using wf by (intro validateReadinessPolicy_again) (simp add: wf_service_def)
  have "\<not> (readiness_mode (readinessPolicy s) = health \<and> managementAdapter s \<noteq> docker \<and>
      managementAdapter s \<noteq> docker_compose)"
    using wf by (auto simp: wf_service_def)
  then show ?thesis
    unfolding withRegisteredServiceAvailabilityPolicy_def create_RegisteredService_def
    by (simp add: i texts adapter_again ops validateAvailabilityPolicy_again[OF p] config deps readiness
        del: validateDependencies.simps)
qed

section \<open>Runtime states, statuses and control results\<close>

datatype ServiceRuntimeState = running | stopped | failed | unknown

definition runtime_string :: "ServiceRuntimeState \<Rightarrow> string" where
  "runtime_string s =
     (case s of running \<Rightarrow> ''running'' | stopped \<Rightarrow> ''stopped'' | failed \<Rightarrow> ''failed'' | unknown \<Rightarrow> ''unknown'')"

definition SERVICE_RUNTIME_STATES :: "ServiceRuntimeState list" where
  "SERVICE_RUNTIME_STATES = [running, stopped, failed, unknown]"

record RegisteredServiceStatus =
  status_serviceId :: string
  status_state :: ServiceRuntimeState
  status_observedAt :: string

definition create_RegisteredServiceStatus ::
  "string \<Rightarrow> string \<Rightarrow> string \<Rightarrow> RegisteredServiceStatus result" where
  "create_RegisteredServiceStatus sid state observedAt =
     (if length sid < 1 \<or> length sid > 64 \<or> \<not> SERVICE_ID_PATTERN sid
      then Inl (RegisteredServiceStatusValidationError ''invalid_service_status'')
      else case find (\<lambda>s. runtime_string s = state) SERVICE_RUNTIME_STATES of
        None \<Rightarrow> Inl (RegisteredServiceStatusValidationError ''invalid_service_status'')
      | Some s \<Rightarrow>
          if \<not> canonical observedAt
          then Inl (RegisteredServiceStatusValidationError ''invalid_observation_timestamp'')
          else Inr \<lparr>status_serviceId = sid, status_state = s, status_observedAt = observedAt\<rparr>)"

record RegisteredServiceControlResult =
  result_serviceId :: string
  result_operation :: SupportedServiceOperation
  result_completedAt :: string

definition SERVICE_CONTROL_OPERATIONS :: "SupportedServiceOperation list" where
  "SERVICE_CONTROL_OPERATIONS = [start, stop, restart]"

definition create_RegisteredServiceControlResult ::
  "string \<Rightarrow> string \<Rightarrow> string \<Rightarrow> RegisteredServiceControlResult result" where
  "create_RegisteredServiceControlResult sid operation completedAt =
     (if length sid < 1 \<or> length sid > 64 \<or> \<not> SERVICE_ID_PATTERN sid
      then Inl (RegisteredServiceControlResultValidationError ''invalid_service_id'')
      else case find (\<lambda>op. operation_string op = operation) SERVICE_CONTROL_OPERATIONS of
        None \<Rightarrow> Inl (RegisteredServiceControlResultValidationError ''invalid_control_operation'')
      | Some op \<Rightarrow>
          if \<not> canonical completedAt
          then Inl (RegisteredServiceControlResultValidationError ''invalid_completion_timestamp'')
          else Inr \<lparr>result_serviceId = sid, result_operation = op, result_completedAt = completedAt\<rparr>)"

section \<open>Properties\<close>

text \<open>
  C38. Every service that \<open>RegisteredService.create\<close> accepts satisfies the service invariant:
  a well-formed id, trimmed names within their limits, distinct operations that include
  \<open>readStatus\<close>, a well-formed policy, a compose configuration inside its project directory for the
  Docker Compose adapter and none otherwise, at most 16 distinct dependencies other than itself
  and readiness limits in range.
\<close>

theorem created_service_wf:
  assumes "create_RegisteredService input = Inr s"
  shows "wf_service s"
  using assms by (rule create_RegisteredService_wf)

definition sample_input :: CreateRegisteredServiceInput where
  "sample_input =
     \<lparr>input_id = ''media-web'', input_displayName = '' Media '', input_managementAdapter = ''docker-compose'',
      input_externalResourceId = ''media'', input_supportedOperations = [''readStatus'', ''start'', ''stop''],
      input_availabilityPolicy = literal_obj [(''mode'', JStr ''always'')],
      input_managementConfiguration = literal_obj
        [(''composeFile'', JStr ''/srv/media/../media/compose.yml''), (''projectDirectory'', JStr ''/srv/media'')],
      input_dependencies = JArr [JStr ''db''], input_readinessPolicy = JUndefined\<rparr>"

definition sample_service :: RegisteredService where
  "sample_service =
     \<lparr>service_id = ''media-web'', displayName = ''Media'', managementAdapter = docker_compose,
      externalResourceId = ''media'', supportedOperations = [readStatus, start, stop],
      availabilityPolicy = AlwaysPolicy,
      managementConfiguration =
        Some \<lparr>composeFile = ''/srv/media/compose.yml'', projectDirectory = ''/srv/media''\<rparr>,
      dependencies = [''db''], readinessPolicy = defaultReadinessPolicy\<rparr>"

lemma sample_service_created: "create_RegisteredService sample_input = Inr sample_service"
  by code_simp

theorem created_service_wf_witness: "wf_service sample_service"
  by (rule created_service_wf[OF sample_service_created])

text \<open>
  Replacing the availability policy of an accepted service, which validates all its fields
  again, succeeds and changes the policy only, whenever the normalized paths of its compose
  configuration (if it has one) carry no white space at their ends.
\<close>

theorem policy_replacement:
  assumes "create_RegisteredService input = Inr s" and "wf_policy p"
    and "case managementConfiguration s of None \<Rightarrow> True | Some c \<Rightarrow> trimmed_paths c"
  shows "withRegisteredServiceAvailabilityPolicy s p = Inr (s\<lparr>availabilityPolicy := p\<rparr>)"
proof (rule with_policy_again[OF create_RegisteredService_wf[OF assms(1)] _ assms(2)])
  show "revalidates s"
    using validateConfiguration_Inr[OF create_RegisteredService_parts(6)[OF assms(1)]] assms(3)
      validateDockerCompose_again
    by (auto simp: revalidates_def split: option.splits)
qed

theorem policy_replacement_witness:
  "withRegisteredServiceAvailabilityPolicy sample_service ManualPolicy =
     Inr (sample_service\<lparr>availabilityPolicy := ManualPolicy\<rparr>)"
  by (rule policy_replacement[OF sample_service_created]) code_simp+

text \<open>
  White space that normalization uncovers at the end of a compose path makes a service
  that \<open>create\<close> accepted impossible to give another policy: the same fields, validated again,
  are rejected.
\<close>

theorem policy_replacement_rejected:
  "\<exists>input s. create_RegisteredService input = Inr s \<and>
     withRegisteredServiceAvailabilityPolicy s (availabilityPolicy s) =
       Inl (RegisteredServiceValidationError ''invalid_management_configuration'')"
proof -
  let ?input = "sample_input\<lparr>input_managementConfiguration := literal_obj
     [(''composeFile'', JStr ''/srv/media/x /.''), (''projectDirectory'', JStr ''/srv/media'')]\<rparr>"
  let ?s = "sample_service\<lparr>managementConfiguration :=
     Some \<lparr>composeFile = ''/srv/media/x '', projectDirectory = ''/srv/media''\<rparr>\<rparr>"
  have "create_RegisteredService ?input = Inr ?s" by code_simp
  moreover have "withRegisteredServiceAvailabilityPolicy ?s (availabilityPolicy ?s) =
       Inl (RegisteredServiceValidationError ''invalid_management_configuration'')" by code_simp
  ultimately show ?thesis by blast
qed

text \<open>
  A compose file that is the project directory itself with a trailing slash passes the
  check that the two differ and lie one below the other.
\<close>

theorem compose_file_may_be_directory:
  "\<exists>v c. validateDockerComposeManagementConfiguration v = Inr c \<and>
     path_segments (composeFile c) = path_segments (projectDirectory c)"
proof -
  let ?c = "\<lparr>composeFile = ''/srv/media/'', projectDirectory = ''/srv/media''\<rparr>"
  have "validateDockerComposeManagementConfiguration (literal_obj
     [(''composeFile'', JStr ''/srv/media/''), (''projectDirectory'', JStr ''/srv/media'')]) = Inr ?c"
    by code_simp
  moreover have "path_segments (composeFile ?c) = path_segments (projectDirectory ?c)" by code_simp
  ultimately show ?thesis by blast
qed

end
