(* ===== verification/Orchestration_Plan.thy ===== *)
theory Orchestration_Plan
  imports Dependency_Graph Registered_Service
begin

text \<open>
  Planning of start, stop and restart over the dependency graph
  (\<open>application/plan-registered-service-orchestration.ts\<close>, \<open>domain/orchestration-plan.ts\<close>). A plan
  is a list of steps, each a control operation or a wait for readiness. The lemmas describe the
  plan of each operation and the order of its steps against the dependency relation.
\<close>

section \<open>Steps and snapshots\<close>

datatype OrchestrationStepKind = control | wait_for_readiness

record OrchestrationStep =
  step_kind :: OrchestrationStepKind
  step_serviceId :: string
  step_operation :: "SupportedServiceOperation option"

record OrchestrationPlan =
  targetServiceId :: string
  requestedOperation :: SupportedServiceOperation
  steps :: "OrchestrationStep list"

definition createOrchestrationPlan ::
  "string \<Rightarrow> SupportedServiceOperation \<Rightarrow> OrchestrationStep list \<Rightarrow> OrchestrationPlan" where
  "createOrchestrationPlan target operation sts =
     \<lparr>targetServiceId = target, requestedOperation = operation, steps = sts\<rparr>"

record RegisteredServiceRuntimeSnapshot =
  snapshot_serviceId :: string
  snapshot_state :: ServiceRuntimeState
  snapshot_operations :: "SupportedServiceOperation list"

type_synonym snapshots = "string \<rightharpoonup> RegisteredServiceRuntimeSnapshot"

text \<open>The operations a plan can be asked for are \<open>start\<close>, \<open>stop\<close> and \<open>restart\<close>.\<close>

record PlanRegisteredServiceOrchestrationInput =
  plan_target :: string
  plan_operation :: SupportedServiceOperation
  plan_graph :: RegisteredServiceDependencyGraph
  plan_snapshots :: snapshots

definition control_step :: "SupportedServiceOperation \<Rightarrow> string \<Rightarrow> OrchestrationStep" where
  "control_step op sid = \<lparr>step_kind = control, step_serviceId = sid, step_operation = Some op\<rparr>"

definition skip_step :: "string \<Rightarrow> OrchestrationStep" where
  "skip_step sid = \<lparr>step_kind = control, step_serviceId = sid, step_operation = None\<rparr>"

definition wait_step :: "string \<Rightarrow> OrchestrationStep" where
  "wait_step sid = \<lparr>step_kind = wait_for_readiness, step_serviceId = sid, step_operation = None\<rparr>"

section \<open>The planner\<close>

definition getCandidateServiceIds ::
  "string \<Rightarrow> SupportedServiceOperation \<Rightarrow> RegisteredServiceDependencyGraph \<Rightarrow> string list" where
  "getCandidateServiceIds target operation g =
     (if operation = start
      then topologicalDependenciesFirst g (transitiveDependenciesOf g target @ [target])
      else let ordered = topologicalDependentsFirst g (transitiveDependentsOf g target @ [target])
           in if target \<in> set ordered then ordered else ordered @ [target])"

text \<open>
  \<open>snapshots.get(serviceId)!\<close>: the planner has checked that every candidate has a snapshot;
  without one the property access would throw a TypeError.
\<close>

definition snapshot_of :: "snapshots \<Rightarrow> string \<Rightarrow> RegisteredServiceRuntimeSnapshot result" where
  "snapshot_of snaps sid = (case snaps sid of None \<Rightarrow> Inl (PlainError ''TypeError'') | Some s \<Rightarrow> Inr s)"

fun start_steps :: "snapshots \<Rightarrow> string list \<Rightarrow> OrchestrationStep list result" where
  "start_steps snaps [] = Inr []"
| "start_steps snaps (sid # ordered) =
     bindR (snapshot_of snaps sid) (\<lambda>snapshot.
     if snapshot_state snapshot = running
     then bindR (start_steps snaps ordered) (\<lambda>rest. Inr (wait_step sid # rest))
     else if snapshot_state snapshot = failed \<or> snapshot_state snapshot = unknown
     then Inl (RegisteredServiceOrchestrationStatusError sid)
     else bindR (start_steps snaps ordered) (\<lambda>rest.
          Inr (control_step start sid # wait_step sid # rest)))"

definition planStart :: "PlanRegisteredServiceOrchestrationInput \<Rightarrow> OrchestrationStep list result" where
  "planStart input =
     start_steps (plan_snapshots input)
       (getCandidateServiceIds (plan_target input) (plan_operation input) (plan_graph input))"

definition planStop :: "PlanRegisteredServiceOrchestrationInput \<Rightarrow> OrchestrationStep list result" where
  "planStop input =
     mapR (\<lambda>sid. bindR (snapshot_of (plan_snapshots input) sid) (\<lambda>snapshot.
             Inr (if snapshot_state snapshot = stopped then skip_step sid else control_step stop sid)))
       (getCandidateServiceIds (plan_target input) (plan_operation input) (plan_graph input))"

fun filterR :: "('a \<Rightarrow> bool result) \<Rightarrow> 'a list \<Rightarrow> 'a list result" where
  "filterR p [] = Inr []"
| "filterR p (x # xs) =
     bindR (p x) (\<lambda>b. bindR (filterR p xs) (\<lambda>ys. Inr (if b then x # ys else ys)))"

definition planRestart :: "PlanRegisteredServiceOrchestrationInput \<Rightarrow> OrchestrationStep list result" where
  "planRestart input =
     (let g = plan_graph input; target = plan_target input;
          dependents = transitiveDependentsOf g target in
      bindR (filterR (\<lambda>sid. bindR (snapshot_of (plan_snapshots input) sid) (\<lambda>snapshot.
               Inr (snapshot_state snapshot = running \<or> snapshot_state snapshot = failed \<or>
                    snapshot_state snapshot = unknown))) dependents) (\<lambda>activeDependents.
      let stopOrder = topologicalDependentsFirst g activeDependents;
          restoreOrder = rev stopOrder
      in Inr (map (control_step stop) stopOrder @
              [control_step restart target, wait_step target] @
              concat (map (\<lambda>sid. [control_step start sid, wait_step sid]) restoreOrder))))"

fun kind_string :: "OrchestrationStepKind \<Rightarrow> string" where
  "kind_string control = ''control''"
| "kind_string wait_for_readiness = ''wait_for_readiness''"

definition step_key :: "OrchestrationStep \<Rightarrow> string" where
  "step_key step =
     kind_string (step_kind step) @ '':'' @ step_serviceId step @ '':'' @
     (case step_operation step of None \<Rightarrow> [] | Some op \<Rightarrow> operation_string op)"

fun validatePlannedOperations :: "snapshots \<Rightarrow> OrchestrationStep list \<Rightarrow> string list \<Rightarrow> unit result" where
  "validatePlannedOperations snaps [] seen = Inr ()"
| "validatePlannedOperations snaps (step # rest) seen =
     (case snaps (step_serviceId step) of
        None \<Rightarrow> Inl RegisteredServiceOrchestrationPlanError
      | Some snapshot \<Rightarrow>
          if step_key step \<in> set seen then Inl RegisteredServiceOrchestrationPlanError
          else if (case step_operation step of None \<Rightarrow> False
                   | Some op \<Rightarrow> op \<notin> set (snapshot_operations snapshot))
          then Inl RegisteredServiceOrchestrationPlanError
          else validatePlannedOperations snaps rest (seen @ [step_key step]))"

definition plan_execute :: "PlanRegisteredServiceOrchestrationInput \<Rightarrow> OrchestrationPlan result" where
  "plan_execute input =
     (if \<not> hasService (plan_graph input) (plan_target input)
      then Inl RegisteredServiceOrchestrationPlanError
      else if list_ex (\<lambda>sid. plan_snapshots input sid = None)
                (getCandidateServiceIds (plan_target input) (plan_operation input) (plan_graph input))
      then Inl RegisteredServiceOrchestrationPlanError
      else bindR (if plan_operation input = start then planStart input
                  else if plan_operation input = stop then planStop input
                  else planRestart input) (\<lambda>sts.
           bindR (validatePlannedOperations (plan_snapshots input) sts []) (\<lambda>_.
           Inr (createOrchestrationPlan (plan_target input) (plan_operation input) sts))))"

section \<open>Validation of the steps\<close>

definition step_supported :: "snapshots \<Rightarrow> OrchestrationStep \<Rightarrow> bool" where
  "step_supported snaps step \<longleftrightarrow>
     (\<exists>s. snaps (step_serviceId step) = Some s \<and>
        (\<forall>op. step_operation step = Some op \<longrightarrow> op \<in> set (snapshot_operations s)))"

lemma operation_suffix:
  assumes "s @ CHR '':'' # o1 = s' @ CHR '':'' # o2"
    and "CHR '':'' \<notin> set o1" and "CHR '':'' \<notin> set o2"
  shows "s = s' \<and> o1 = o2"
proof -
  have "takeWhile (\<lambda>c. c \<noteq> CHR '':'') (rev (s @ CHR '':'' # o1)) = rev o1"
    using assms(2) by (simp add: takeWhile_append takeWhile_eq_all_conv)
  moreover have "takeWhile (\<lambda>c. c \<noteq> CHR '':'') (rev (s' @ CHR '':'' # o2)) = rev o2"
    using assms(3) by (simp add: takeWhile_append takeWhile_eq_all_conv)
  ultimately have "rev o1 = rev o2" using assms(1) by simp
  then show ?thesis using assms(1) by simp
qed

lemma step_key_inject: "step_key a = step_key b \<longleftrightarrow> a = b"
proof
  assume eq: "step_key a = step_key b"
  have kinds: "step_kind a = step_kind b"
    using eq by (cases "step_kind a"; cases "step_kind b") (simp_all add: step_key_def)
  define oa ob where "oa = (case step_operation a of None \<Rightarrow> [] | Some op \<Rightarrow> operation_string op)"
    and "ob = (case step_operation b of None \<Rightarrow> [] | Some op \<Rightarrow> operation_string op)"
  have no_colon: "CHR '':'' \<notin> set oa" "CHR '':'' \<notin> set ob"
    unfolding oa_def ob_def
    by (auto simp: operation_string_def split: option.splits SupportedServiceOperation.splits)
  have "step_serviceId a @ CHR '':'' # oa = step_serviceId b @ CHR '':'' # ob"
    using eq kinds by (simp add: step_key_def oa_def ob_def)
  from operation_suffix[OF this no_colon] have ids: "step_serviceId a = step_serviceId b" "oa = ob" by auto
  have "step_operation a = step_operation b"
    using ids(2) unfolding oa_def ob_def
    by (cases "step_operation a"; cases "step_operation b")
      (auto simp: operation_string_def split: SupportedServiceOperation.splits)
  then show "a = b" using kinds ids(1) by (cases a; cases b) simp
qed simp

lemma validatePlannedOperations_iff:
  "validatePlannedOperations snaps sts seen = Inr () \<longleftrightarrow>
     list_all (step_supported snaps) sts \<and> distinct sts \<and> set (map step_key sts) \<inter> set seen = {}"
proof (induction snaps sts seen rule: validatePlannedOperations.induct)
  case (2 snaps step rest seen)
  show ?case
  proof (cases "snaps (step_serviceId step)")
    case (Some s)
    then show ?thesis
      using 2 by (auto simp: step_supported_def step_key_inject image_iff split: option.splits)
  qed (simp add: step_supported_def)
qed simp

section \<open>The plan of each operation\<close>

definition ready_to_plan :: "snapshots \<Rightarrow> string \<Rightarrow> bool" where
  "ready_to_plan snaps sid \<longleftrightarrow> (\<exists>s. snaps sid = Some s \<and> snapshot_state s \<in> {running, stopped})"

definition start_block :: "snapshots \<Rightarrow> string \<Rightarrow> OrchestrationStep list" where
  "start_block snaps sid =
     (if map_option snapshot_state (snaps sid) = Some running then [wait_step sid]
      else [control_step start sid, wait_step sid])"

definition stop_block :: "snapshots \<Rightarrow> string \<Rightarrow> OrchestrationStep" where
  "stop_block snaps sid =
     (if map_option snapshot_state (snaps sid) = Some stopped then skip_step sid else control_step stop sid)"

definition restart_steps :: "string \<Rightarrow> string list \<Rightarrow> OrchestrationStep list" where
  "restart_steps target stopOrder =
     map (control_step stop) stopOrder @ [control_step restart target, wait_step target] @
     concat (map (\<lambda>sid. [control_step start sid, wait_step sid]) (rev stopOrder))"

definition is_active :: "snapshots \<Rightarrow> string \<Rightarrow> bool" where
  "is_active snaps sid \<longleftrightarrow> (case snaps sid of None \<Rightarrow> False | Some s \<Rightarrow> snapshot_state s \<in> {running, failed, unknown})"

lemmas step_constructors = control_step_def skip_step_def wait_step_def

lemma start_steps_Inr:
  "start_steps snaps ids = Inr sts \<longleftrightarrow>
     list_all (ready_to_plan snaps) ids \<and> sts = concat (map (start_block snaps) ids)"
proof (induction ids arbitrary: sts)
  case (Cons sid ids)
  show ?case
  proof (cases "snaps sid")
    case (Some s)
    then show ?thesis
      by (cases "snapshot_state s")
        (auto simp: result_simps snapshot_of_def Cons.IH ready_to_plan_def start_block_def)
  qed (simp add: snapshot_of_def ready_to_plan_def)
qed auto

lemma stop_mapR:
  "\<forall>sid \<in> set ids. snaps sid \<noteq> None \<Longrightarrow>
     mapR (\<lambda>sid. bindR (snapshot_of snaps sid) (\<lambda>snapshot.
             Inr (if snapshot_state snapshot = stopped then skip_step sid else control_step stop sid))) ids =
     Inr (map (stop_block snaps) ids)"
  by (rule mapR_cong_Inr) (auto simp: snapshot_of_def stop_block_def)

lemma restart_filterR:
  "\<forall>sid \<in> set ids. snaps sid \<noteq> None \<Longrightarrow>
     filterR (\<lambda>sid. bindR (snapshot_of snaps sid) (\<lambda>snapshot.
               Inr (snapshot_state snapshot = running \<or> snapshot_state snapshot = failed \<or>
                    snapshot_state snapshot = unknown))) ids =
     Inr (filter (is_active snaps) ids)"
  by (induction ids) (auto simp: snapshot_of_def is_active_def)

lemma distinct_start_blocks: "distinct ids \<Longrightarrow> distinct (concat (map (start_block snaps) ids))"
  by (induction ids) (auto simp: start_block_def step_constructors split: if_splits)

lemma distinct_stop_blocks: "distinct ids \<Longrightarrow> distinct (map (stop_block snaps) ids)"
  by (auto simp: distinct_map inj_on_def stop_block_def step_constructors split: if_splits)

lemma distinct_restart_steps: "distinct ids \<Longrightarrow> target \<notin> set ids \<Longrightarrow> distinct (restart_steps target ids)"
proof -
  assume d: "distinct ids" "target \<notin> set ids"
  have "distinct (concat (map (\<lambda>sid. [control_step start sid, wait_step sid]) xs))" if "distinct xs" for xs
    using that by (induction xs) (auto simp: step_constructors)
  then show ?thesis
    using d by (auto simp: restart_steps_def distinct_map inj_on_def step_constructors)
qed

lemma candidates_start:
  assumes "valid_graph g"
  shows "\<exists>ds. getCandidateServiceIds t start g = ds @ [t] \<and> distinct (ds @ [t]) \<and>
    set ds = set (transitiveDependenciesOf g t)"
proof -
  obtain ds where "getCandidateServiceIds t start g = ds @ [t]" "set ds = set (transitiveDependenciesOf g t)"
    using dg.target_last_depsFirst[OF assms, of t] by (auto simp: getCandidateServiceIds_def)
  then show ?thesis
    using dg.distinct_depsFirst[OF assms, of "transitiveDependenciesOf g t @ [t]"]
    by (auto simp: getCandidateServiceIds_def)
qed

lemma candidates_dependents:
  assumes "valid_graph g" and "op \<noteq> start"
  shows "\<exists>ds. getCandidateServiceIds t op g = ds @ [t] \<and> distinct (ds @ [t]) \<and>
    set ds = set (transitiveDependentsOf g t)"
    and "getCandidateServiceIds t op g = topologicalDependentsFirst g (transitiveDependentsOf g t @ [t])"
proof -
  obtain ds where ds: "topologicalDependentsFirst g (transitiveDependentsOf g t @ [t]) = ds @ [t]"
      "set ds = set (transitiveDependentsOf g t)"
    using dg.target_last_dependentsFirst[OF assms(1), of t] by auto
  show eq: "getCandidateServiceIds t op g = topologicalDependentsFirst g (transitiveDependentsOf g t @ [t])"
    using assms(2) ds by (simp add: getCandidateServiceIds_def)
  show "\<exists>ds. getCandidateServiceIds t op g = ds @ [t] \<and> distinct (ds @ [t]) \<and>
    set ds = set (transitiveDependentsOf g t)"
    using eq ds dg.distinct_dependentsFirst[OF assms(1)] by metis
qed

definition supports :: "snapshots \<Rightarrow> SupportedServiceOperation \<Rightarrow> string \<Rightarrow> bool" where
  "supports snaps op sid \<longleftrightarrow> (\<exists>s. snaps sid = Some s \<and> op \<in> set (snapshot_operations s))"

definition state_in :: "snapshots \<Rightarrow> ServiceRuntimeState \<Rightarrow> string \<Rightarrow> bool" where
  "state_in snaps st sid \<longleftrightarrow> map_option snapshot_state (snaps sid) = Some st"

definition plan_input ::
  "string \<Rightarrow> SupportedServiceOperation \<Rightarrow> RegisteredServiceDependencyGraph \<Rightarrow> snapshots \<Rightarrow>
     PlanRegisteredServiceOrchestrationInput" where
  "plan_input t op g snaps =
     \<lparr>plan_target = t, plan_operation = op, plan_graph = g, plan_snapshots = snaps\<rparr>"

lemma start_block_supported:
  "ready_to_plan snaps sid \<Longrightarrow>
     list_all (step_supported snaps) (start_block snaps sid) \<longleftrightarrow>
     state_in snaps running sid \<or> supports snaps start sid"
  by (auto simp: start_block_def step_supported_def supports_def state_in_def ready_to_plan_def
      step_constructors)

lemma stop_block_supported:
  "snaps sid \<noteq> None \<Longrightarrow> step_supported snaps (stop_block snaps sid) \<longleftrightarrow>
     state_in snaps stopped sid \<or> supports snaps stop sid"
  by (auto simp: stop_block_def step_supported_def supports_def state_in_def step_constructors)

lemma control_step_supported: "step_supported snaps (control_step op sid) \<longleftrightarrow> supports snaps op sid"
  by (simp add: step_supported_def supports_def step_constructors)

lemma wait_step_supported: "step_supported snaps (wait_step sid) \<longleftrightarrow> snaps sid \<noteq> None"
  by (auto simp: step_supported_def step_constructors)

lemma plan_start_Inr:
  fixes t :: string
  assumes "valid_graph g"
  defines "ids \<equiv> getCandidateServiceIds t start g"
  shows "plan_execute (plan_input t start g snaps) = Inr plan \<longleftrightarrow>
    hasService g t \<and> list_all (ready_to_plan snaps) ids \<and>
    list_all (\<lambda>sid. state_in snaps running sid \<or> supports snaps start sid) ids \<and>
    plan = createOrchestrationPlan t start (concat (map (start_block snaps) ids))"
proof -
  have d: "distinct ids" using candidates_start[OF assms(1), of t] by (auto simp: ids_def)
  have known: "list_all (ready_to_plan snaps) ids \<Longrightarrow> \<not> list_ex (\<lambda>sid. snaps sid = None) ids"
    by (auto simp: list_all_iff list_ex_iff ready_to_plan_def)
  have "list_all (step_supported snaps) (concat (map (start_block snaps) ids)) \<longleftrightarrow>
      list_all (\<lambda>sid. state_in snaps running sid \<or> supports snaps start sid) ids"
    if "list_all (ready_to_plan snaps) ids"
    using that by (induction ids) (auto simp: start_block_supported)
  then show ?thesis
    using known distinct_start_blocks[OF d]
    by (auto simp: plan_execute_def plan_input_def planStart_def ids_def[symmetric] result_simps
        start_steps_Inr validatePlannedOperations_iff)
qed

lemma plan_stop_Inr:
  fixes t :: string
  assumes "valid_graph g"
  defines "ids \<equiv> getCandidateServiceIds t stop g"
  shows "plan_execute (plan_input t stop g snaps) = Inr plan \<longleftrightarrow>
    hasService g t \<and>
    list_all (\<lambda>sid. state_in snaps stopped sid \<or> supports snaps stop sid) ids \<and>
    plan = createOrchestrationPlan t stop (map (stop_block snaps) ids)"
proof (cases "list_ex (\<lambda>sid. snaps sid = None) ids")
  case True
  then have "\<not> list_all (\<lambda>sid. state_in snaps stopped sid \<or> supports snaps stop sid) ids"
    by (induction ids) (auto simp: state_in_def supports_def)
  then show ?thesis using True by (simp add: plan_execute_def plan_input_def ids_def[symmetric])
next
  case False
  then have known: "\<forall>sid \<in> set ids. snaps sid \<noteq> None" by (auto simp: list_ex_iff)
  have d: "distinct ids" using candidates_dependents(1)[OF assms(1), of stop t] by (auto simp: ids_def)
  have "list_all (step_supported snaps) (map (stop_block snaps) ids) \<longleftrightarrow>
      list_all (\<lambda>sid. state_in snaps stopped sid \<or> supports snaps stop sid) ids"
    using known stop_block_supported by (auto simp: list_all_iff)
  then show ?thesis
    using False distinct_stop_blocks[OF d] stop_mapR[OF known]
    by (auto simp: plan_execute_def plan_input_def planStop_def ids_def[symmetric] result_simps
        validatePlannedOperations_iff)
qed

text \<open>The services a restart stops and starts again: the active dependents with their dependents.\<close>

definition restart_order :: "RegisteredServiceDependencyGraph \<Rightarrow> snapshots \<Rightarrow> string \<Rightarrow> string list" where
  "restart_order g snaps t =
     topologicalDependentsFirst g (filter (is_active snaps) (transitiveDependentsOf g t))"

lemma restart_order_set:
  assumes "valid_graph g"
  shows "set (restart_order g snaps t) \<subseteq> set (transitiveDependentsOf g t)"
    and "distinct (restart_order g snaps t)" and "t \<notin> set (restart_order g snaps t)"
proof -
  show sub: "set (restart_order g snaps t) \<subseteq> set (transitiveDependentsOf g t)"
    using assms
    by (auto simp: restart_order_def dg.set_dependentsFirst dg.set_dependentsOf intro: trancl_rtrancl_trancl)
  show "distinct (restart_order g snaps t)"
    by (simp add: restart_order_def dg.distinct_dependentsFirst[OF assms])
  show "t \<notin> set (restart_order g snaps t)"
    using sub dg.acyclic_dep[OF assms] assms
    by (auto simp: dg.set_dependentsOf acyclic_def trancl_converse)
qed

lemma plan_restart_Inr:
  fixes t :: string
  assumes "valid_graph g"
  defines "ids \<equiv> getCandidateServiceIds t restart g"
  shows "plan_execute (plan_input t restart g snaps) = Inr plan \<longleftrightarrow>
    hasService g t \<and> list_all (\<lambda>sid. snaps sid \<noteq> None) ids \<and> supports snaps restart t \<and>
    list_all (\<lambda>sid. supports snaps stop sid \<and> supports snaps start sid) (restart_order g snaps t) \<and>
    plan = createOrchestrationPlan t restart (restart_steps t (restart_order g snaps t))"
proof (cases "list_ex (\<lambda>sid. snaps sid = None) ids")
  case True
  then show ?thesis
    by (auto simp: plan_execute_def plan_input_def ids_def[symmetric] list_all_iff list_ex_iff)
next
  case False
  then have known: "\<forall>sid \<in> set ids. snaps sid \<noteq> None" by (auto simp: list_ex_iff)
  obtain ds where ds: "ids = ds @ [t]" "set ds = set (transitiveDependentsOf g t)"
    using candidates_dependents(1)[OF assms(1), of restart t] by (auto simp: ids_def)
  then have "\<forall>sid \<in> set (transitiveDependentsOf g t). snaps sid \<noteq> None" using known by auto
  note filter = restart_filterR[OF this]
  have snap: "snaps sid \<noteq> None" if "sid \<in> set (restart_order g snaps t) \<or> sid = t" for sid
    using that restart_order_set(1)[OF assms(1), of snaps t] ds known by auto
  have "list_all (step_supported snaps) (restart_steps t (restart_order g snaps t)) \<longleftrightarrow>
      supports snaps restart t \<and>
      list_all (\<lambda>sid. supports snaps stop sid \<and> supports snaps start sid) (restart_order g snaps t)"
    using snap
    by (simp add: restart_steps_def list_all_iff ball_Un control_step_supported wait_step_supported) blast
  moreover have "distinct (restart_steps t (restart_order g snaps t))"
    by (rule distinct_restart_steps[OF restart_order_set(2,3)[OF assms(1)]])
  moreover have "list_all (\<lambda>sid. snaps sid \<noteq> None) ids" using known by (simp add: list_all_iff)
  moreover have "planRestart (plan_input t restart g snaps) = Inr (restart_steps t (restart_order g snaps t))"
    by (simp add: planRestart_def plan_input_def Let_def filter restart_order_def restart_steps_def)
  ultimately show ?thesis
    using False
    by (auto simp: plan_execute_def plan_input_def ids_def[symmetric] result_simps
        validatePlannedOperations_iff)
qed

section \<open>Properties\<close>

lemma wait_in_start_block: "wait_step sid \<in> set (start_block snaps sid)"
  by (simp add: start_block_def)

lemma control_in_start_blocks:
  "control_step op a \<in> set (concat (map (start_block snaps) ids)) \<longleftrightarrow>
     op = start \<and> a \<in> set ids \<and> \<not> state_in snaps running a"
  by (auto simp: start_block_def step_constructors state_in_def split: if_splits)

lemma start_plan_order_lemma:
  assumes "createDependencyGraph entries = Inr g"
    and "plan_execute (plan_input t start g snaps) = Inr plan"
  shows "last (steps plan) = wait_step t \<and>
    (control_step op a \<in> set (steps plan) \<longleftrightarrow>
       op = start \<and> (t, a) \<in> (depends entries)\<^sup>* \<and> \<not> state_in snaps running a) \<and>
    (control_step start a \<in> set (steps plan) \<longrightarrow> (a, b) \<in> depends entries \<longrightarrow>
       before (steps plan) (wait_step b) (control_step start a))"
proof -
  define ids where "ids = getCandidateServiceIds t start g"
  note v = created_valid[OF assms(1)]
  have sts: "steps plan = concat (map (start_block snaps) ids)"
    using assms(2) by (auto simp: plan_start_Inr[OF v] ids_def createOrchestrationPlan_def)
  obtain ds where ds: "ids = ds @ [t]" "set ds = set (transitiveDependenciesOf g t)"
    using candidates_start[OF v, of t] by (auto simp: ids_def)
  have setids: "set ids = (depends entries)\<^sup>* `` {t}"
    using ds dg.set_depsOf[OF v, of t] created_depends[OF assms(1)] by (auto simp: rtrancl_eq_or_trancl)
  have "before ids b a" if "a \<in> set ids" "(a, b) \<in> depends entries"
    using dg.depsFirst_before[OF v, of a b] that created_depends[OF assms(1)]
    by (simp add: ids_def getCandidateServiceIds_def)
  then have "before (steps plan) (wait_step b) (control_step start a)"
    if "control_step start a \<in> set (steps plan)" "(a, b) \<in> depends entries"
    using that unfolding sts control_in_start_blocks
    by (intro before_concat_map[of ids b a]) (auto simp: wait_in_start_block start_block_def state_in_def)
  moreover have "last (steps plan) = wait_step t" by (simp add: sts ds start_block_def)
  moreover have "control_step op a \<in> set (steps plan) \<longleftrightarrow>
      op = start \<and> (t, a) \<in> (depends entries)\<^sup>* \<and> \<not> state_in snaps running a"
    unfolding sts control_in_start_blocks setids by simp
  ultimately show ?thesis by blast
qed

text \<open>
  C6. A start plan starts exactly the services among the target and its transitive dependencies
  that are not running, stops and restarts none, ends by waiting for the target, and starts a
  service only after waiting for the readiness of each of its direct dependencies.
\<close>

theorem start_plan_order:
  assumes "createDependencyGraph entries = Inr g"
    and "plan_execute (plan_input t start g snaps) = Inr plan"
  shows "last (steps plan) = wait_step t \<and>
    (control_step op a \<in> set (steps plan) \<longleftrightarrow>
       op = start \<and> (t, a) \<in> (depends entries)\<^sup>* \<and> \<not> state_in snaps running a) \<and>
    (control_step start a \<in> set (steps plan) \<longrightarrow> (a, b) \<in> depends entries \<longrightarrow>
       before (steps plan) (wait_step b) (control_step start a))"
  by (rule start_plan_order_lemma[OF assms])

text \<open>
  The planner produces a start plan exactly when the target is in the graph, every service
  it needs (itself included) was observed running or stopped, and every one not running supports
  \<open>start\<close>; the duplicate check never rejects a plan.
\<close>

theorem start_plan_exists:
  assumes "createDependencyGraph entries = Inr g"
  shows "(\<exists>plan. plan_execute (plan_input t start g snaps) = Inr plan) \<longleftrightarrow>
    hasService g t \<and>
    (depends entries)\<^sup>* `` {t} \<subseteq>
      {sid. ready_to_plan snaps sid \<and> (state_in snaps running sid \<or> supports snaps start sid)}"
proof -
  note v = created_valid[OF assms]
  obtain ds where "getCandidateServiceIds t start g = ds @ [t]" "set ds = set (transitiveDependenciesOf g t)"
    using candidates_start[OF v, of t] by auto
  then have "set (getCandidateServiceIds t start g) = (depends entries)\<^sup>* `` {t}"
    using dg.set_depsOf[OF v, of t] created_depends[OF assms] by (auto simp: rtrancl_eq_or_trancl)
  then show ?thesis by (auto simp: plan_start_Inr[OF v] list_all_iff)
qed

lemma stop_block_id [simp]: "step_serviceId (stop_block snaps sid) = sid"
  by (simp add: stop_block_def step_constructors)

lemma stop_block_eq:
  "stop_block snaps sid = (if state_in snaps stopped sid then skip_step sid else control_step stop sid)"
  by (simp add: stop_block_def state_in_def)

text \<open>
  C36. A stop plan has one step for the target and for each service that depends on it, directly
  or not, dependents first and the target last; it skips the services observed stopped and stops
  all the others.
\<close>

theorem stop_plan_order:
  assumes "createDependencyGraph entries = Inr g"
    and "plan_execute (plan_input t stop g snaps) = Inr plan"
  shows "set (map step_serviceId (steps plan)) = ((depends entries)\<inverse>)\<^sup>* `` {t} \<and>
    distinct (map step_serviceId (steps plan)) \<and> last (map step_serviceId (steps plan)) = t \<and>
    list_all (\<lambda>step. step = (if state_in snaps stopped (step_serviceId step)
                           then skip_step (step_serviceId step)
                           else control_step stop (step_serviceId step))) (steps plan) \<and>
    ((a, b) \<in> depends entries \<longrightarrow> b \<in> set (map step_serviceId (steps plan)) \<longrightarrow>
       before (map step_serviceId (steps plan)) a b)"
proof -
  define ids where "ids = getCandidateServiceIds t stop g"
  note v = created_valid[OF assms(1)]
  have sts: "steps plan = map (stop_block snaps) ids"
    using assms(2) by (auto simp: plan_stop_Inr[OF v] ids_def createOrchestrationPlan_def)
  then have ids: "map step_serviceId (steps plan) = ids" by (simp add: comp_def)
  obtain ds where ds: "ids = ds @ [t]" "distinct (ds @ [t])" "set ds = set (transitiveDependentsOf g t)"
    using candidates_dependents(1)[OF v, of stop t] by (auto simp: ids_def)
  have all: "set ids = ((depends entries)\<inverse>)\<^sup>* `` {t}"
    using ds dg.set_dependentsOf[OF v, of t] created_depends[OF assms(1)] by (auto simp: rtrancl_eq_or_trancl)
  have kinds: "list_all (\<lambda>step. step = (if state_in snaps stopped (step_serviceId step)
      then skip_step (step_serviceId step) else control_step stop (step_serviceId step))) (steps plan)"
    unfolding sts list.pred_map comp_def stop_block_id stop_block_eq[symmetric] by (simp add: list_all_iff)
  have order: "before ids a b" if "(a, b) \<in> depends entries" "b \<in> set ids"
    using dg.dependentsFirst_before[OF v, of a b] that created_depends[OF assms(1)]
      candidates_dependents(2)[OF v, of stop t] by (simp add: ids_def)
  have "distinct ids" "last ids = t" using ds by simp_all
  then show ?thesis
    unfolding ids by (intro conjI impI all kinds order)
qed

text \<open>
  A restart plan stops the services of \<open>restart_order\<close> (dependents first), restarts the
  target, waits for it, and starts the same services again in the opposite order: a service is
  started only after the target and each of its dependencies among them was waited for.
\<close>

theorem restart_plan_order:
  assumes "createDependencyGraph entries = Inr g"
    and "plan_execute (plan_input t restart g snaps) = Inr plan"
    and "a \<in> set (restart_order g snaps t)"
  shows "before (steps plan) (control_step stop a) (control_step restart t) \<and>
    before (steps plan) (control_step restart t) (wait_step t) \<and>
    before (steps plan) (wait_step t) (control_step start a) \<and>
    before (steps plan) (control_step start a) (wait_step a) \<and>
    ((a, b) \<in> depends entries \<longrightarrow> b \<in> set (restart_order g snaps t) \<longrightarrow>
       before (steps plan) (control_step stop a) (control_step stop b) \<and>
       before (steps plan) (wait_step b) (control_step start a))"
proof -
  define ids where "ids = restart_order g snaps t"
  define block where "block = (\<lambda>sid. [control_step start sid, wait_step sid])"
  note v = created_valid[OF assms(1)]
  have sts: "steps plan = map (control_step stop) ids @
      [control_step restart t, wait_step t] @ concat (map block (rev ids))"
    using assms(2)
    by (auto simp: plan_restart_Inr[OF v] ids_def block_def createOrchestrationPlan_def restart_steps_def)
  have blocks: "control_step start a \<in> set (concat (map block (rev ids)))"
    using assms(3) by (auto simp: ids_def block_def)
  have "before (steps plan) (control_step stop a) (control_step restart t)"
    unfolding sts by (rule before_append_right) (use assms(3) in \<open>auto simp: ids_def\<close>)
  moreover have "before (steps plan) (control_step restart t) (wait_step t)"
    unfolding sts by (rule before_appendI2, rule before_appendI1, rule before_Cons) simp
  moreover have "before (steps plan) (wait_step t) (control_step start a)"
    unfolding sts by (rule before_appendI2, rule before_append_right) (use blocks in auto)
  moreover have "before (steps plan) (control_step start a) (wait_step a)"
  proof -
    obtain us vs where "rev ids = us @ a # vs" using split_list[of a "rev ids"] assms(3) by (auto simp: ids_def)
    then have split: "concat (map block (rev ids)) =
        concat (map block us) @ [control_step start a, wait_step a] @ concat (map block vs)"
      by (simp add: block_def)
    have "before ([control_step start a, wait_step a] @ concat (map block vs))
        (control_step start a) (wait_step a)" by (rule before_appendI1, rule before_Cons) simp
    then show ?thesis
      unfolding sts split by (rule before_appendI2[OF before_appendI2[OF before_appendI2]])
  qed
  moreover have "before (steps plan) (control_step stop a) (control_step stop b) \<and>
      before (steps plan) (wait_step b) (control_step start a)"
    if "(a, b) \<in> depends entries" "b \<in> set ids"
  proof -
    have ab: "before ids a b"
      using dg.dependentsFirst_before[OF v, of a b] that created_depends[OF assms(1)]
      by (simp add: ids_def restart_order_def)
    have "before (concat (map block (rev ids))) (wait_step b) (control_step start a)"
      by (rule before_concat_map[OF before_rev[OF ab]]) (simp_all add: block_def)
    then have "before (steps plan) (wait_step b) (control_step start a)"
      unfolding sts by (rule before_appendI2[OF before_appendI2])
    moreover have "before (steps plan) (control_step stop a) (control_step stop b)"
      unfolding sts by (rule before_appendI1[OF before_map[OF ab]])
    ultimately show ?thesis by simp
  qed
  ultimately show ?thesis unfolding ids_def by blast
qed

text \<open>The snapshots of the witnesses: \<open>db\<close> runs, the other services of the sample do not.\<close>

definition sample_snapshot :: "string \<Rightarrow> ServiceRuntimeState \<Rightarrow> RegisteredServiceRuntimeSnapshot" where
  "sample_snapshot sid st =
     \<lparr>snapshot_serviceId = sid, snapshot_state = st,
      snapshot_operations = [readStatus, start, stop, restart]\<rparr>"

definition sample_snapshots :: "(string \<times> ServiceRuntimeState) list \<Rightarrow> snapshots" where
  "sample_snapshots states = map_of (map (\<lambda>(sid, st). (sid, sample_snapshot sid st)) states)"

definition some_running :: snapshots where
  "some_running = sample_snapshots
     [(''db'', running), (''api'', stopped), (''cache'', stopped), (''web'', running)]"

lemma sample_start_plan:
  "plan_execute (plan_input ''api'' start sample_graph some_running) =
     Inr \<lparr>targetServiceId = ''api'', requestedOperation = start,
          steps = [wait_step ''db'', control_step start ''api'', wait_step ''api'']\<rparr>"
  by code_simp

lemma sample_stop_plan:
  "plan_execute (plan_input ''db'' stop sample_graph some_running) =
     Inr \<lparr>targetServiceId = ''db'', requestedOperation = stop,
          steps = [control_step stop ''web'', skip_step ''api'', control_step stop ''db'']\<rparr>"
  by code_simp

lemma sample_restart_plan:
  "plan_execute (plan_input ''db'' restart sample_graph some_running) =
     Inr \<lparr>targetServiceId = ''db'', requestedOperation = restart,
          steps = [control_step stop ''web'', control_step restart ''db'', wait_step ''db'',
                   control_step start ''web'', wait_step ''web'']\<rparr>"
  by code_simp

lemma sample_depends: "(''api'', ''db'') \<in> depends sample_entries"
  unfolding set_dependents_in[symmetric] by code_simp

theorem start_plan_order_witness:
  "before [wait_step ''db'', control_step start ''api'', wait_step ''api'']
     (wait_step ''db'') (control_step start ''api'')"
  using start_plan_order[OF sample_created sample_start_plan, of start "''api''" "''db''"] sample_depends
  by simp

theorem start_plan_exists_witness:
  "hasService sample_graph ''api'' \<and>
   (depends sample_entries)\<^sup>* `` {''api''} \<subseteq>
     {sid. ready_to_plan some_running sid \<and>
           (state_in some_running running sid \<or> supports some_running start sid)}"
  using start_plan_exists[OF sample_created, of "''api''" some_running] sample_start_plan by blast

theorem stop_plan_order_witness:
  "set [''web'', ''api'', ''db''] = ((depends sample_entries)\<inverse>)\<^sup>* `` {''db''}"
  using stop_plan_order[OF sample_created sample_stop_plan]
  by (simp add: control_step_def skip_step_def)

theorem restart_plan_order_witness:
  "before [control_step stop ''web'', control_step restart ''db'', wait_step ''db'',
           control_step start ''web'', wait_step ''web'']
     (wait_step ''db'') (control_step start ''web'')"
proof -
  have "''web'' \<in> set (restart_order sample_graph some_running ''db'')" by code_simp
  from restart_plan_order[OF sample_created sample_restart_plan this] show ?thesis by simp
qed

text \<open>
  A restart may start a service that was stopped before it: the planner keeps only the active
  dependents of the target, but the order it computes for them includes their own dependents,
  active or not.
\<close>

theorem restart_starts_stopped_service:
  "\<exists>entries g snaps plan. createDependencyGraph entries = Inr g \<and>
     plan_execute (plan_input ''db'' restart g snaps) = Inr plan \<and>
     state_in snaps stopped ''web'' \<and> control_step start ''web'' \<in> set (steps plan)"
proof -
  let ?snaps = "sample_snapshots [(''db'', running), (''api'', running), (''cache'', running), (''web'', stopped)]"
  let ?plan = "\<lparr>targetServiceId = ''db'', requestedOperation = restart,
      steps = restart_steps ''db'' [''web'', ''api'']\<rparr>"
  have "plan_execute (plan_input ''db'' restart sample_graph ?snaps) = Inr ?plan" by code_simp
  moreover have "state_in ?snaps stopped ''web''" by code_simp
  moreover have "control_step start ''web'' \<in> set (steps ?plan)" by code_simp
  ultimately show ?thesis using sample_created by blast
qed

end
