(* ===== verification/Orchestration.thy ===== *)
theory Orchestration
  imports Orchestration_Plan Availability
begin

text \<open>
  Execution of orchestration plans (\<open>application/orchestrate-registered-service-control.ts\<close>), the
  bounded wait for readiness (\<open>application/wait-for-registered-service-readiness.ts\<close>) and direct
  control of one service (\<open>application/control-registered-service.ts\<close>). The ports of the
  application layer are parameters: functions over a world of any type, which may fail.
\<close>

section \<open>Ports\<close>

text \<open>
  \<open>now\<close> is \<open>clock.now()\<close>, a date that may be invalid. The status reader and the direct control are
  optional constructor arguments. A wait for readiness returns the time it observed, or nothing.
\<close>

record 'w OrchestrationPorts =
  findById :: "string \<Rightarrow> ('w, RegisteredService option) io"
  controller :: "RegisteredService \<Rightarrow> SupportedServiceOperation \<Rightarrow> ('w, unit) io"
  getGraph :: "('w, RegisteredServiceDependencyGraph) io"
  waitForReadiness :: "string \<Rightarrow> ('w, string option) io"
  now :: "('w, int option) io"
  getEffectiveAvailability :: "string \<Rightarrow> ('w, ServiceAvailabilityExpectation) io"
  statusReader :: "(RegisteredService \<Rightarrow> ('w, ServiceRuntimeState) io) option"
  directControl :: "(string \<Rightarrow> SupportedServiceOperation \<Rightarrow> ('w, RegisteredServiceControlResult) io) option"

definition now_iso :: "('w, int option) io \<Rightarrow> ('w, string) io" where
  "now_iso clock = bindIO clock (\<lambda>d. liftIO (toISOString d))"

section \<open>Direct control\<close>

definition ControlRegisteredService_execute ::
  "(string \<Rightarrow> ('w, RegisteredService option) io) \<Rightarrow>
   (RegisteredService \<Rightarrow> SupportedServiceOperation \<Rightarrow> ('w, unit) io) \<Rightarrow> ('w, int option) io \<Rightarrow>
   string \<Rightarrow> SupportedServiceOperation \<Rightarrow> ('w, RegisteredServiceControlResult) io" where
  "ControlRegisteredService_execute lookup ctl clock sid operation =
     bindIO (lookup sid) (\<lambda>found.
     case found of
       None \<Rightarrow> throwIO RegisteredServiceNotFoundError
     | Some service \<Rightarrow>
         if operation \<notin> set (supportedOperations service) then throwIO ControlRegisteredServiceError
         else bindIO (ctl service operation) (\<lambda>_.
              bindIO (now_iso clock) (\<lambda>completedAt.
              liftIO (create_RegisteredServiceControlResult (service_id service)
                        (operation_string operation) completedAt))))"

section \<open>Waiting for readiness\<close>

text \<open>\<open>Math.ceil(timeout / poll) + 1\<close>; the two limits are integers, so the first two checks pass.\<close>

definition computeMaxAttempts :: "int \<Rightarrow> int \<Rightarrow> int result" where
  "computeMaxAttempts timeout poll =
     (if timeout \<le> 0 then Inl (InvalidReadinessPolicyError ''timeout must be positive'')
      else if poll \<le> 0 then Inl (InvalidReadinessPolicyError ''pollInterval must be positive'')
      else Inr (- ((- timeout) div poll) + 1))"

text \<open>
  The readiness reader returns whether the service is ready and when it looked; \<open>getTime\<close> of an
  invalid date is NaN, for which every comparison of the loop is false, and the sleep is then for
  NaN milliseconds: the clock of the model is required to be valid there and fails otherwise.
\<close>

record 'w ReadinessPorts =
  readiness_findById :: "string \<Rightarrow> ('w, RegisteredService option) io"
  check :: "RegisteredService \<Rightarrow> ('w, bool \<times> string) io"
  sleep :: "int \<Rightarrow> ('w, unit) io"
  readiness_now :: "('w, int) io"

fun readiness_loop ::
  "'w ReadinessPorts \<Rightarrow> RegisteredService \<Rightarrow> string \<Rightarrow> int \<Rightarrow> nat \<Rightarrow> ('w, string \<times> string) io" where
  "readiness_loop ports service sid deadline 0 = throwIO (RegisteredServiceReadinessTimeoutError sid)"
| "readiness_loop ports service sid deadline (Suc attempts) =
     bindIO (check ports service) (\<lambda>(ready, observedAt).
     if ready then retIO (sid, observedAt)
     else bindIO (readiness_now ports) (\<lambda>nowTime.
       if nowTime \<ge> deadline then throwIO (RegisteredServiceReadinessTimeoutError sid)
       else let remaining = deadline - nowTime;
                waitTime = min (pollIntervalMilliseconds (readinessPolicy service)) remaining in
         if waitTime < 1 then throwIO (RegisteredServiceReadinessTimeoutError sid)
         else bindIO (sleep ports waitTime) (\<lambda>_.
              readiness_loop ports service sid deadline attempts)))"

definition WaitForReadiness_execute :: "'w ReadinessPorts \<Rightarrow> string \<Rightarrow> ('w, string \<times> string) io" where
  "WaitForReadiness_execute ports sid =
     bindIO (readiness_findById ports sid) (\<lambda>found.
     case found of
       None \<Rightarrow> throwIO RegisteredServiceNotFoundError
     | Some service \<Rightarrow>
         let policy = readinessPolicy service in
         bindIO (liftIO (computeMaxAttempts (timeoutMilliseconds policy) (pollIntervalMilliseconds policy)))
           (\<lambda>maxAttempts.
         bindIO (readiness_now ports) (\<lambda>startTime.
         readiness_loop ports service sid (startTime + timeoutMilliseconds policy) (nat maxAttempts))))"

section \<open>Results of an orchestration\<close>

datatype OrchestrationStepOutcome =
    Executed string
  | Skipped string
  | Ready string
  | Failed string

record CompletedOrchestrationStep =
  completed_serviceId :: string
  completed_kind :: OrchestrationStepKind
  completed_operation :: "SupportedServiceOperation option"
  completed_outcome :: OrchestrationStepOutcome

record OrchestrationResult =
  result_targetServiceId :: string
  result_requestedOperation :: SupportedServiceOperation
  startedAt :: string
  completedAt :: string
  result_steps :: "CompletedOrchestrationStep list"
  successful :: bool

fun is_failed :: "OrchestrationStepOutcome \<Rightarrow> bool" where
  "is_failed (Failed _) = True"
| "is_failed _ = False"

fun sanitizeOrchestrationError :: "js_error \<Rightarrow> string" where
  "sanitizeOrchestrationError RegisteredServiceOrchestrationPlanError = ''plan_invalid''"
| "sanitizeOrchestrationError (UnavailableDependencyBlockedError _) = ''dependency_unavailable''"
| "sanitizeOrchestrationError (OrchestrationOperationNotSupportedError _) = ''operation_not_supported''"
| "sanitizeOrchestrationError (RegisteredServiceOrchestrationStatusError _) = ''dependency_status_failed''"
| "sanitizeOrchestrationError (RegisteredServiceReadinessTimeoutError _) = ''dependency_readiness_timeout''"
| "sanitizeOrchestrationError _ = ''orchestration_step_failed''"

definition fallbackState :: "SupportedServiceOperation \<Rightarrow> ServiceRuntimeState" where
  "fallbackState operation = (if operation = start then stopped else running)"

definition createOrchestrationResult ::
  "string \<Rightarrow> SupportedServiceOperation \<Rightarrow> string \<Rightarrow> string \<Rightarrow> CompletedOrchestrationStep list \<Rightarrow> bool \<Rightarrow>
     OrchestrationResult" where
  "createOrchestrationResult target operation started completed sts ok =
     \<lparr>result_targetServiceId = target, result_requestedOperation = operation, startedAt = started,
      completedAt = completed, result_steps = sts, successful = ok\<rparr>"

section \<open>Executing a plan\<close>

definition readRuntimeState ::
  "'w OrchestrationPorts \<Rightarrow> (RegisteredService \<Rightarrow> ('w, ServiceRuntimeState) io) \<Rightarrow> string \<Rightarrow>
     ('w, ServiceRuntimeState) io" where
  "readRuntimeState ports reader sid =
     bindIO (findById ports sid) (\<lambda>found.
     case found of
       None \<Rightarrow> throwIO RegisteredServiceNotFoundError
     | Some service \<Rightarrow>
         catchIO (reader service) (\<lambda>_. throwIO (RegisteredServiceOrchestrationStatusError sid)))"

fun capture_loop ::
  "'w OrchestrationPorts \<Rightarrow> SupportedServiceOperation \<Rightarrow> string list \<Rightarrow> snapshots \<Rightarrow> ('w, snapshots) io" where
  "capture_loop ports operation [] snaps = retIO snaps"
| "capture_loop ports operation (sid # ids) snaps =
     bindIO (findById ports sid) (\<lambda>found.
     case found of
       None \<Rightarrow> throwIO RegisteredServiceNotFoundError
     | Some service \<Rightarrow>
         bindIO (case statusReader ports of
                   None \<Rightarrow> retIO (fallbackState operation)
                 | Some reader \<Rightarrow> readRuntimeState ports reader sid) (\<lambda>state.
         capture_loop ports operation ids
           (snaps(sid \<mapsto> \<lparr>snapshot_serviceId = sid, snapshot_state = state,
                           snapshot_operations = supportedOperations service\<rparr>))))"

definition captureSnapshots ::
  "'w OrchestrationPorts \<Rightarrow> string \<Rightarrow> SupportedServiceOperation \<Rightarrow> RegisteredServiceDependencyGraph \<Rightarrow>
     ('w, snapshots) io" where
  "captureSnapshots ports target operation g =
     capture_loop ports operation (getCandidateServiceIds target operation g) Map.empty"

fun validate_dependencies_available ::
  "'w OrchestrationPorts \<Rightarrow> string list \<Rightarrow> ('w, unit) io" where
  "validate_dependencies_available ports [] = retIO ()"
| "validate_dependencies_available ports (dep # deps) =
     bindIO (getEffectiveAvailability ports dep) (\<lambda>availability.
     if availability = ExpUnavailable \<or> availability = ExpDisabled
     then throwIO (UnavailableDependencyBlockedError dep)
     else validate_dependencies_available ports deps)"

definition validateScheduledDependencyAvailability ::
  "'w OrchestrationPorts \<Rightarrow> string \<Rightarrow> RegisteredServiceDependencyGraph \<Rightarrow> ('w, unit) io" where
  "validateScheduledDependencyAvailability ports target g =
     validate_dependencies_available ports (transitiveDependenciesOf g target)"

definition executeControl ::
  "'w OrchestrationPorts \<Rightarrow> string \<Rightarrow> SupportedServiceOperation \<Rightarrow> ('w, unit) io" where
  "executeControl ports sid operation =
     bindIO (findById ports sid) (\<lambda>found.
     case found of
       None \<Rightarrow> throwIO RegisteredServiceNotFoundError
     | Some service \<Rightarrow>
         if operation \<notin> set (supportedOperations service)
         then throwIO (OrchestrationOperationNotSupportedError sid)
         else (case directControl ports of
                 Some direct \<Rightarrow> bindIO (direct sid operation) (\<lambda>_. retIO ())
               | None \<Rightarrow> controller ports service operation))"

text \<open>The body of the loop over the steps, before its catch.\<close>

definition perform_step ::
  "'w OrchestrationPorts \<Rightarrow> OrchestrationStep \<Rightarrow> ('w, CompletedOrchestrationStep) io" where
  "perform_step ports step =
     (if step_kind step = wait_for_readiness
      then bindIO (waitForReadiness ports (step_serviceId step)) (\<lambda>readiness.
           bindIO (case readiness of Some observed \<Rightarrow> retIO observed | None \<Rightarrow> now_iso (now ports)) (\<lambda>observedAt.
           retIO \<lparr>completed_serviceId = step_serviceId step, completed_kind = step_kind step,
                  completed_operation = None, completed_outcome = Ready observedAt\<rparr>))
      else case step_operation step of
        Some operation \<Rightarrow>
          bindIO (executeControl ports (step_serviceId step) operation) (\<lambda>_.
          bindIO (now_iso (now ports)) (\<lambda>completed.
          retIO \<lparr>completed_serviceId = step_serviceId step, completed_kind = step_kind step,
                 completed_operation = Some operation, completed_outcome = Executed completed\<rparr>))
      | None \<Rightarrow>
          retIO \<lparr>completed_serviceId = step_serviceId step, completed_kind = step_kind step,
                 completed_operation = None, completed_outcome = Skipped ''already_stopped''\<rparr>)"

definition failed_step :: "OrchestrationStep \<Rightarrow> js_error \<Rightarrow> CompletedOrchestrationStep" where
  "failed_step step e =
     \<lparr>completed_serviceId = step_serviceId step, completed_kind = step_kind step,
      completed_operation = step_operation step, completed_outcome = Failed (sanitizeOrchestrationError e)\<rparr>"

fun run_steps ::
  "'w OrchestrationPorts \<Rightarrow> OrchestrationStep list \<Rightarrow> CompletedOrchestrationStep list \<Rightarrow> 'w \<Rightarrow>
     CompletedOrchestrationStep list \<times> 'w" where
  "run_steps ports [] completedSteps w = (completedSteps, w)"
| "run_steps ports (step # rest) completedSteps w =
     (case perform_step ports step w of
        (Inr c, w') \<Rightarrow> run_steps ports rest (completedSteps @ [c]) w'
      | (Inl e, w') \<Rightarrow> (completedSteps @ [failed_step step e], w'))"

datatype OrchestrationAuthority = manual_authority | scheduled_authority

definition createFailedResult ::
  "'w OrchestrationPorts \<Rightarrow> string \<Rightarrow> SupportedServiceOperation \<Rightarrow> string \<Rightarrow> js_error \<Rightarrow>
     ('w, OrchestrationResult) io" where
  "createFailedResult ports target operation started e =
     bindIO (now_iso (now ports)) (\<lambda>completed.
     retIO (createOrchestrationResult target operation started completed
       [\<lparr>completed_serviceId = target, completed_kind = control, completed_operation = Some operation,
         completed_outcome = Failed (sanitizeOrchestrationError e)\<rparr>] False))"

text \<open>The method \<open>execute\<close> in two parts: what follows the checks, and the whole.\<close>

definition orchestrate_run ::
  "'w OrchestrationPorts \<Rightarrow> string \<Rightarrow> SupportedServiceOperation \<Rightarrow> string \<Rightarrow> RegisteredServiceDependencyGraph \<Rightarrow>
     ('w, OrchestrationResult) io" where
  "orchestrate_run ports target operation started g =
     bindIO (captureSnapshots ports target operation g) (\<lambda>snaps.
     case plan_execute (plan_input target operation g snaps) of
       Inl e \<Rightarrow> createFailedResult ports target operation started e
     | Inr plan \<Rightarrow>
         bindIO (\<lambda>w. case run_steps ports (steps plan) [] w of (done_steps, w') \<Rightarrow> (Inr done_steps, w'))
           (\<lambda>completedSteps.
         bindIO (now_iso (now ports)) (\<lambda>completed.
         retIO (createOrchestrationResult target operation started completed completedSteps
           (\<not> list_ex (\<lambda>c. is_failed (completed_outcome c)) completedSteps)))))"

definition orchestrate_execute ::
  "'w OrchestrationPorts \<Rightarrow> string \<Rightarrow> SupportedServiceOperation \<Rightarrow> OrchestrationAuthority \<Rightarrow>
     ('w, OrchestrationResult) io" where
  "orchestrate_execute ports target operation authority =
     bindIO (findById ports target) (\<lambda>found.
     if found = None then throwIO RegisteredServiceNotFoundError
     else bindIO (now_iso (now ports)) (\<lambda>started.
          bindIO (getGraph ports) (\<lambda>g.
          bindIO (if operation = start \<and> authority = scheduled_authority
                  then validateScheduledDependencyAvailability ports target g else retIO ()) (\<lambda>_.
          orchestrate_run ports target operation started g))))"

section \<open>The loop over the steps\<close>

text \<open>The step a completed step stands for.\<close>

definition step_of :: "CompletedOrchestrationStep \<Rightarrow> OrchestrationStep" where
  "step_of c = \<lparr>step_kind = completed_kind c, step_serviceId = completed_serviceId c,
     step_operation = completed_operation c\<rparr>"

definition wait_without_operation :: "OrchestrationStep \<Rightarrow> bool" where
  "wait_without_operation step \<longleftrightarrow> step_kind step = control \<or> step_operation step = None"

definition outcome_fits :: "CompletedOrchestrationStep \<Rightarrow> bool" where
  "outcome_fits c \<longleftrightarrow> (case completed_outcome c of
       Ready _ \<Rightarrow> completed_kind c = wait_for_readiness
     | Executed _ \<Rightarrow> completed_kind c = control \<and> completed_operation c \<noteq> None
     | Skipped _ \<Rightarrow> completed_kind c = control \<and> completed_operation c = None
     | Failed _ \<Rightarrow> False)"

lemma perform_step_Inr:
  assumes "perform_step ports step w = (Inr c, w')" and "wait_without_operation step"
  shows "step_of c = step \<and> outcome_fits c"
  using assms
  by (cases step; cases "step_kind step"; cases "step_operation step")
    (auto simp: perform_step_def bindIO_Inr step_of_def wait_without_operation_def outcome_fits_def)

lemma failed_step_simps [simp]:
  "step_of (failed_step step e) = step" "is_failed (completed_outcome (failed_step step e))"
  by (simp_all add: failed_step_def step_of_def)

lemma outcome_fits_not_failed: "outcome_fits c \<Longrightarrow> \<not> is_failed (completed_outcome c)"
  by (auto simp: outcome_fits_def split: OrchestrationStepOutcome.splits)

text \<open>
  The completed steps are a prefix of the plan in which only the last may have failed, and all
  of the plan when none has.
\<close>

lemma run_steps_prefix:
  assumes "list_all wait_without_operation sts" and "run_steps ports sts acc w = (cs, w')"
  shows "\<exists>ds. cs = acc @ ds \<and>
    (map step_of ds = sts \<and> list_all outcome_fits ds \<or>
     (\<exists>es f rest. ds = es @ [f] \<and> map step_of ds @ rest = sts \<and> list_all outcome_fits es \<and>
        is_failed (completed_outcome f)))"
  using assms
proof (induction sts arbitrary: acc w)
  case (Cons step sts)
  obtain r w1 where p: "perform_step ports step w = (r, w1)" by fastforce
  show ?case
  proof (cases r)
    case (Inl e)
    then have "cs = acc @ [failed_step step e]" using Cons.prems p by simp
    then show ?thesis by (intro exI[of _ "[failed_step step e]"]) auto
  next
    case (Inr c)
    have c: "step_of c = step" "outcome_fits c"
      using perform_step_Inr[of ports step w c w1] p Inr Cons.prems(1) by simp_all
    have r: "run_steps ports sts (acc @ [c]) w1 = (cs, w')" using Cons.prems(2) p Inr by simp
    have "list_all wait_without_operation sts" using Cons.prems(1) by simp
    from Cons.IH[OF this r] obtain ds where ds: "cs = (acc @ [c]) @ ds" and
      alt: "map step_of ds = sts \<and> list_all outcome_fits ds \<or>
       (\<exists>es f rest. ds = es @ [f] \<and> map step_of ds @ rest = sts \<and> list_all outcome_fits es \<and>
          is_failed (completed_outcome f))"
      by (elim exE conjE)
    from alt show ?thesis
    proof
      assume "map step_of ds = sts \<and> list_all outcome_fits ds"
      then show ?thesis using ds c by (intro exI[of _ "c # ds"]) simp
    next
      assume "\<exists>es f rest. ds = es @ [f] \<and> map step_of ds @ rest = sts \<and> list_all outcome_fits es \<and>
          is_failed (completed_outcome f)"
      then obtain es f rest where "ds = es @ [f]" "map step_of ds @ rest = sts" "list_all outcome_fits es"
        "is_failed (completed_outcome f)" by blast
      then have "c # ds = (c # es) @ [f] \<and> map step_of (c # ds) @ rest = step # sts \<and>
        list_all outcome_fits (c # es) \<and> is_failed (completed_outcome f)" using c by simp
      moreover have "cs = acc @ (c # ds)" using ds by simp
      ultimately show ?thesis by blast
    qed
  qed
qed simp

lemma start_blocks_wait: "list_all wait_without_operation (concat (map (start_block snaps) ids))"
  by (induction ids) (auto simp: start_block_def step_constructors wait_without_operation_def)

lemma stop_blocks_wait: "list_all wait_without_operation (map (stop_block snaps) ids)"
  by (induction ids) (auto simp: stop_block_def step_constructors wait_without_operation_def)

lemma restart_steps_wait: "list_all wait_without_operation (restart_steps t ids)"
  by (auto simp: restart_steps_def list_all_iff step_constructors wait_without_operation_def)

lemma plan_waits:
  assumes "plan_execute (plan_input t op g snaps) = Inr plan"
  shows "list_all wait_without_operation (steps plan)"
proof -
  have "list_all wait_without_operation sts"
    if "(if op = start then planStart (plan_input t op g snaps)
         else if op = stop then planStop (plan_input t op g snaps)
         else planRestart (plan_input t op g snaps)) = Inr sts" for sts
  proof -
    have mapR_wait: "list_all wait_without_operation sts"
      if "mapR (\<lambda>sid. bindR (snapshot_of snaps sid) (\<lambda>snapshot. Inr (if snapshot_state snapshot = stopped
        then skip_step sid else control_step stop sid))) ids = Inr sts" for ids
      using that
      by (auto simp: list_all_iff result_simps step_constructors wait_without_operation_def elim!: mapR_set
          split: if_splits)
    show ?thesis
      using that start_blocks_wait restart_steps_wait[of t] mapR_wait
      by (auto simp: planStart_def planStop_def planRestart_def plan_input_def start_steps_Inr result_simps
          Let_def restart_steps_def split: if_splits)
  qed
  then show ?thesis
    using assms
    by (auto simp: plan_execute_def plan_input_def createOrchestrationPlan_def result_simps split: if_splits)
qed

lemma orchestrate_Inr:
  assumes "orchestrate_execute ports t op auth w = (Inr res, w')"
  obtains (plan_failed) e where "result_steps res =
      [\<lparr>completed_serviceId = t, completed_kind = control, completed_operation = Some op,
        completed_outcome = Failed (sanitizeOrchestrationError e)\<rparr>]" "\<not> successful res"
  | (ran) w1 g w2 snaps plan w3 w4 where "getGraph ports w1 = (Inr g, w2)"
      "plan_execute (plan_input t op g snaps) = Inr plan"
      "run_steps ports (steps plan) [] w3 = (result_steps res, w4)"
      "successful res = (\<not> list_ex (\<lambda>c. is_failed (completed_outcome c)) (result_steps res))"
proof -
  obtain g w1 w2 w3 snaps started where g: "getGraph ports w1 = (Inr g, w2)" and
    rest: "(case plan_execute (plan_input t op g snaps) of
            Inl e \<Rightarrow> createFailedResult ports t op started e
          | Inr plan \<Rightarrow>
              bindIO (\<lambda>w. case run_steps ports (steps plan) [] w of (ds, w') \<Rightarrow> (Inr ds, w'))
                (\<lambda>completedSteps.
              bindIO (now_iso (now ports)) (\<lambda>completed.
              retIO (createOrchestrationResult t op started completed completedSteps
                (\<not> list_ex (\<lambda>c. is_failed (completed_outcome c)) completedSteps))))) w3 = (Inr res, w')"
    using assms unfolding orchestrate_execute_def orchestrate_run_def by (auto simp: bindIO_Inr split: if_splits)
  show thesis
  proof (cases "plan_execute (plan_input t op g snaps)")
    case (Inl e)
    then show thesis
      using rest plan_failed
      by (auto simp: createFailedResult_def bindIO_Inr createOrchestrationResult_def)
  next
    case (Inr plan)
    then show thesis
      using rest ran[OF g Inr]
      by (auto simp: bindIO_Inr createOrchestrationResult_def split: prod.splits)
  qed
qed

lemma prefix_before_nth:
  assumes "before (xs @ ys) a b" and "distinct (xs @ ys)" and "j < length xs" and "xs ! j = b"
  shows "\<exists>i < j. xs ! i = a"
proof -
  obtain i k where ik: "i < k" "k < length (xs @ ys)" "(xs @ ys) ! i = a" "(xs @ ys) ! k = b"
    using assms(1) by (auto simp: before_def)
  have "(xs @ ys) ! j = b" using assms(3,4) by (simp add: nth_append)
  then have "k = j" using assms(2,3) ik nth_eq_iff_index_eq[of "xs @ ys" k j] by simp
  then show ?thesis using ik assms(3) by (auto simp: nth_append)
qed

lemma run_steps_shape:
  assumes "list_all wait_without_operation sts" and "run_steps ports sts [] w = (cs, w')"
  obtains es fs rest where "cs = es @ fs" and "length fs \<le> 1" and "list_all outcome_fits es"
    and "list_all (\<lambda>c. is_failed (completed_outcome c)) fs" and "map step_of cs @ rest = sts"
    and "fs = [] \<longrightarrow> rest = []"
proof -
  have "(map step_of cs = sts \<and> list_all outcome_fits cs) \<or>
     (\<exists>es f rest. cs = es @ [f] \<and> map step_of cs @ rest = sts \<and> list_all outcome_fits es \<and>
        is_failed (completed_outcome f))"
    using run_steps_prefix[OF assms] by simp
  then show thesis
  proof (elim disjE conjE exE)
    assume "map step_of cs = sts" "list_all outcome_fits cs"
    then show thesis using that[of cs "[]" "[]"] by simp
  next
    fix es f rest
    assume "cs = es @ [f]" "map step_of cs @ rest = sts" "list_all outcome_fits es"
      "is_failed (completed_outcome f)"
    then show thesis using that[of es "[f]" rest] by simp
  qed
qed

lemma run_steps_ready_before:
  assumes "list_all wait_without_operation sts" and "distinct sts"
    and "run_steps ports sts [] w = (cs, w')"
    and "before sts (wait_step b) (control_step op a)"
    and "j < length cs" and "step_of (cs ! j) = control_step op a"
  shows "\<exists>i < j. completed_serviceId (cs ! i) = b \<and> (\<exists>t. completed_outcome (cs ! i) = Ready t)"
proof -
  obtain es fs rest where cs: "cs = es @ fs" "length fs \<le> 1" "list_all outcome_fits es"
      "map step_of cs @ rest = sts"
    using assms(1,3) by (rule run_steps_shape)
  have "\<exists>i < j. map step_of cs ! i = wait_step b"
    using prefix_before_nth[of "map step_of cs" rest "wait_step b" "control_step op a" j] cs(4) assms by simp
  then obtain i where i: "i < j" "step_of (cs ! i) = wait_step b" using assms(5) by auto
  have "i < length es" using i(1) assms(5) cs(1,2) by simp
  then have "outcome_fits (cs ! i)" using cs(1,3) by (auto simp: list_all_length nth_append)
  moreover have "completed_kind (cs ! i) = wait_for_readiness" "completed_serviceId (cs ! i) = b"
    "completed_operation (cs ! i) = None"
    using i(2) by (simp_all add: step_of_def wait_step_def)
  ultimately show ?thesis
    using i(1) by (auto simp: outcome_fits_def split: OrchestrationStepOutcome.splits)
qed

lemma run_steps_member:
  assumes "list_all wait_without_operation sts" and "run_steps ports sts [] w = (cs, w')"
    and "j < length cs"
  shows "step_of (cs ! j) \<in> set sts" and "\<not> is_failed (completed_outcome (cs ! j)) \<Longrightarrow> outcome_fits (cs ! j)"
proof -
  obtain es fs rest where cs: "cs = es @ fs" "list_all outcome_fits es"
      "list_all (\<lambda>c. is_failed (completed_outcome c)) fs" "map step_of cs @ rest = sts"
    using assms(1,2) by (rule run_steps_shape)
  show "step_of (cs ! j) \<in> set sts" using assms(3) cs(4) nth_mem[of j cs] by (auto simp flip: cs(4))
  have "cs ! j \<in> set es \<or> cs ! j \<in> set fs" using assms(3) nth_mem[of j cs] by (simp add: cs(1))
  then show "\<not> is_failed (completed_outcome (cs ! j)) \<Longrightarrow> outcome_fits (cs ! j)"
    using cs(2,3) by (auto simp: list_all_iff)
qed

lemma plan_distinct:
  assumes "plan_execute (plan_input t op g snaps) = Inr plan"
  shows "distinct (steps plan)"
  using assms
  by (auto simp: plan_execute_def plan_input_def createOrchestrationPlan_def result_simps
      validatePlannedOperations_iff split: if_splits)

section \<open>Properties of execution\<close>

text \<open>
  C5. When an orchestrated start reports that it executed \<open>start\<close> on a service, it has reported
  each direct dependency of that service ready at an earlier step.
\<close>

theorem orchestrated_start_after_dependencies:
  assumes "orchestrate_execute ports t start auth w = (Inr res, w')"
    and "\<And>u g u'. getGraph ports u = (Inr g, u') \<Longrightarrow> createDependencyGraph entries = Inr g"
    and "(a, b) \<in> depends entries"
    and "j < length (result_steps res)"
    and "completed_serviceId (result_steps res ! j) = a"
    and "completed_outcome (result_steps res ! j) = Executed at"
  shows "\<exists>i < j. completed_serviceId (result_steps res ! i) = b \<and>
    (\<exists>observed. completed_outcome (result_steps res ! i) = Ready observed)"
  using assms(1)
proof (cases rule: orchestrate_Inr)
  case (plan_failed e)
  then show ?thesis using assms(4,6) by simp
next
  case (ran w1 g w2 snaps plan w3 w4)
  note g = assms(2)[OF ran(1)]
  have sts: "step_of (result_steps res ! j) \<in> set (steps plan)" "outcome_fits (result_steps res ! j)"
    using run_steps_member[OF plan_waits[OF ran(2)] ran(3) assms(4)] assms(6) by simp_all
  obtain op where op: "step_of (result_steps res ! j) = control_step op a"
    using sts(2) assms(5,6) by (auto simp: outcome_fits_def step_of_def control_step_def)
  have "op = start" "before (steps plan) (wait_step b) (control_step start a)"
    using start_plan_order_lemma[OF g ran(2), of op a b] sts(1) op assms(3) by auto
  then show ?thesis
    using run_steps_ready_before[OF plan_waits[OF ran(2)] plan_distinct[OF ran(2)] ran(3) _ assms(4)] op
    by simp
qed

text \<open>
  C15. The steps an orchestration reports all succeeded, except that the last one may have failed;
  it is successful exactly when none has; and a successful start ends with the target reported
  ready.
\<close>

theorem orchestration_outcome:
  assumes "orchestrate_execute ports t op auth w = (Inr res, w')"
    and "\<And>u g u'. getGraph ports u = (Inr g, u') \<Longrightarrow> createDependencyGraph entries = Inr g"
  shows "list_all (\<lambda>c. \<not> is_failed (completed_outcome c)) (butlast (result_steps res)) \<and>
    successful res = (\<not> list_ex (\<lambda>c. is_failed (completed_outcome c)) (result_steps res)) \<and>
    (op = start \<longrightarrow> successful res \<longrightarrow>
       completed_serviceId (last (result_steps res)) = t \<and>
       (\<exists>observed. completed_outcome (last (result_steps res)) = Ready observed))"
  using assms(1)
proof (cases rule: orchestrate_Inr)
  case (plan_failed e)
  then show ?thesis by simp
next
  case (ran w1 g w2 snaps plan w3 w4)
  obtain es fs rest where cs: "result_steps res = es @ fs" "length fs \<le> 1" "list_all outcome_fits es"
      "list_all (\<lambda>c. is_failed (completed_outcome c)) fs" "map step_of (result_steps res) @ rest = steps plan"
      "fs = [] \<longrightarrow> rest = []"
    using plan_waits[OF ran(2)] ran(3) by (rule run_steps_shape)
  have ok: "list_all (\<lambda>c. \<not> is_failed (completed_outcome c)) es"
    using cs(3) outcome_fits_not_failed by (auto simp: list_all_iff)
  have "butlast (result_steps res) = (if fs = [] then butlast es else es)"
    using cs(1,2) by (cases fs) (auto simp: butlast_append)
  then have butlast: "list_all (\<lambda>c. \<not> is_failed (completed_outcome c)) (butlast (result_steps res))"
    using ok by (auto simp: list_all_iff dest: in_set_butlastD)
  have "completed_serviceId (last (result_steps res)) = t \<and>
      (\<exists>observed. completed_outcome (last (result_steps res)) = Ready observed)"
    if "op = start" "successful res"
  proof -
    have "fs = []" using that(2) ran(4) cs(1,4) by (cases fs) auto
    then have all: "map step_of es = steps plan" "result_steps res = es" using cs(1,5,6) by simp_all
    have last: "last (steps plan) = wait_step t"
      using start_plan_order_lemma[OF assms(2)[OF ran(1)]] ran(2) that(1) by blast
    have "steps plan \<noteq> []"
    proof -
      note v = created_valid[OF assms(2)[OF ran(1)]]
      obtain ds where "getCandidateServiceIds t start g = ds @ [t]" using candidates_start[OF v, of t] by auto
      then have "steps plan = concat (map (start_block snaps) (ds @ [t]))"
        using ran(2) that(1) by (auto simp: plan_start_Inr[OF v] createOrchestrationPlan_def)
      then have "wait_step t \<in> set (steps plan)" using wait_in_start_block[of t snaps] by simp
      then show ?thesis by auto
    qed
    then have ne: "es \<noteq> []" using all(1) by auto
    then have "step_of (last es) = wait_step t" using all(1) last by (metis last_map)
    moreover have "outcome_fits (last es)" using cs(3) ne by (simp add: list_all_iff)
    ultimately show ?thesis
      unfolding all(2)
      by (auto simp: step_of_def wait_step_def outcome_fits_def split: OrchestrationStepOutcome.splits)
  qed
  then show ?thesis using butlast ran(4) by blast
qed

text \<open>
  The availability of services read one after the other between two worlds, each neither unavailable nor
  disabled.
\<close>

fun available_in_turn :: "'w OrchestrationPorts \<Rightarrow> string list \<Rightarrow> 'w \<Rightarrow> 'w \<Rightarrow> bool" where
  "available_in_turn ports [] w w' \<longleftrightarrow> w' = w"
| "available_in_turn ports (d # ds) w w' \<longleftrightarrow>
     (\<exists>availability v. getEffectiveAvailability ports d w = (Inr availability, v) \<and>
        availability \<noteq> ExpUnavailable \<and> availability \<noteq> ExpDisabled \<and> available_in_turn ports ds v w')"

lemma validate_available:
  "validate_dependencies_available ports deps w = (Inr (), w') \<Longrightarrow> available_in_turn ports deps w w'"
  by (induction deps arbitrary: w) (auto simp: bindIO_Inr split: if_splits)

lemma validate_other_ports:
  "validate_dependencies_available (ports\<lparr>controller := controls, waitForReadiness := wait, statusReader := reader,
     directControl := direct\<rparr>) deps = validate_dependencies_available ports deps"
  by (induction deps) (simp_all cong: if_cong)

text \<open>
  C34. A scheduled start goes ahead only when every transitive dependency of the target was found neither
  unavailable nor disabled. Whatever the ports answer, it either fails in a way that does not depend on the
  ports that read states, control services and wait for them, so none of these was used; or it found
  the target, read the availability of its transitive dependencies one after the other, each neither
  unavailable nor disabled, and only then, in the world this left, read states, planned and ran the steps.
\<close>

theorem scheduled_start_needs_available_dependencies:
  assumes "orchestrate_execute ports t start scheduled_authority w = (r, w')"
    and "\<And>u g u'. getGraph ports u = (Inr g, u') \<Longrightarrow> createDependencyGraph entries = Inr g"
  shows "(\<exists>e. r = Inl e \<and> (\<forall>controls wait reader direct.
      orchestrate_execute (ports\<lparr>controller := controls, waitForReadiness := wait, statusReader := reader,
        directControl := direct\<rparr>) t start scheduled_authority w = (r, w'))) \<or>
    (\<exists>service started g ds w0 w1 w2 w3.
       findById ports t w = (Inr (Some service), w0) \<and> now_iso (now ports) w0 = (Inr started, w1) \<and>
       getGraph ports w1 = (Inr g, w2) \<and>
       set ds = (depends entries)\<^sup>+ `` {t} \<and> available_in_turn ports ds w2 w3 \<and>
       (r, w') = orchestrate_run ports t start started g w3)"
proof -
  let ?checks = "bindIO (findById ports t) (\<lambda>found. if found = None then throwIO RegisteredServiceNotFoundError
     else bindIO (now_iso (now ports)) (\<lambda>started. bindIO (getGraph ports) (\<lambda>g.
          bindIO (validateScheduledDependencyAvailability ports t g) (\<lambda>_. retIO (started, g)))))"
  have split: "orchestrate_execute p t start scheduled_authority = bindIO ?checks (\<lambda>(started, g).
      orchestrate_run p t start started g)"
    if "p = ports\<lparr>controller := controls, waitForReadiness := wait, statusReader := reader, directControl := direct\<rparr>"
    for p controls wait reader direct
    by (rule ext) (simp add: that orchestrate_execute_def validateScheduledDependencyAvailability_def validate_other_ports
        bindIO_def retIO_def throwIO_def split: prod.splits sum.splits)
  have same: "ports = ports\<lparr>controller := controller ports, waitForReadiness := waitForReadiness ports,
      statusReader := statusReader ports, directControl := directControl ports\<rparr>" by simp
  obtain a w3 where a: "?checks w = (a, w3)" by fastforce
  show ?thesis
  proof (cases a)
    case (Inl e)
    then have "orchestrate_execute (ports\<lparr>controller := controls, waitForReadiness := wait, statusReader := reader,
        directControl := direct\<rparr>) t start scheduled_authority w = (Inl e, w3)" for controls wait reader direct
      using a by (simp add: split[OF refl] bindIO_def)
    moreover have "(r, w') = (Inl e, w3)"
      using a Inl assms(1) unfolding split[OF same] by (simp add: bindIO_def)
    ultimately show ?thesis by blast
  next
    case (Inr sg)
    obtain started g where sg: "sg = (started, g)" by fastforce
    obtain service w0 w1 w2 where parts: "findById ports t w = (Inr (Some service), w0)"
        "now_iso (now ports) w0 = (Inr started, w1)" "getGraph ports w1 = (Inr g, w2)"
        "validateScheduledDependencyAvailability ports t g w2 = (Inr (), w3)"
      using a unfolding Inr sg by (auto simp: bindIO_Inr split: if_splits)
    have "set (transitiveDependenciesOf g t) = (depends entries)\<^sup>+ `` {t}"
      using dg.set_depsOf[OF created_valid[OF assms(2)[OF parts(3)]]] created_depends[OF assms(2)[OF parts(3)]] by simp
    moreover have "available_in_turn ports (transitiveDependenciesOf g t) w2 w3"
      using validate_available parts(4) by (simp add: validateScheduledDependencyAvailability_def)
    moreover have "(r, w') = orchestrate_run ports t start started g w3"
      using a assms(1) unfolding split[OF same] by (simp add: bindIO_def Inr sg)
    ultimately show ?thesis using parts(1-3) by blast
  qed
qed

section \<open>The wait for readiness is bounded\<close>

lemma computeMaxAttempts_bound:
  assumes "wf_readiness p" and "computeMaxAttempts (timeoutMilliseconds p) (pollIntervalMilliseconds p) = Inr n"
  shows "nat n \<le> 1201"
proof -
  define T P where "T = timeoutMilliseconds p" and "P = pollIntervalMilliseconds p"
  have b: "T \<le> 120000" "100 \<le> P" "0 < T"
    using assms(1) by (simp_all add: wf_readiness_def readiness_limits T_def P_def)
  have "(- 1200 * P) div P \<le> (- T) div P" using b by (intro zdiv_mono1) simp_all
  moreover have "(- 1200 * P) div P = - 1200" using b(2) by (intro nonzero_mult_div_cancel_right) simp
  ultimately have "- 1200 \<le> (- T) div P" by simp
  moreover have "n = - ((- T) div P) + 1"
    using assms(2) b by (simp add: computeMaxAttempts_def T_def P_def)
  ultimately show ?thesis by simp
qed

lemma readiness_loop_checks:
  assumes "\<And>s u r u'. check ports s u = (r, u') \<Longrightarrow> cnt u' \<le> cnt u + (1::nat)"
    and "\<And>u r u'. readiness_now ports u = (r, u') \<Longrightarrow> cnt u' = cnt u"
    and "\<And>d u r u'. sleep ports d u = (r, u') \<Longrightarrow> cnt u' = cnt u"
  shows "readiness_loop ports service sid deadline n u = (r, u') \<Longrightarrow> cnt u' \<le> cnt u + n"
proof (induction n arbitrary: u)
  case 0
  then show ?case by simp
next
  case (Suc n)
  obtain c u1 where c: "check ports service u = (c, u1)" by fastforce
  obtain t u2 where t: "readiness_now ports u1 = (t, u2)" by fastforce
  have "cnt u1 \<le> cnt u + 1" "cnt u2 = cnt u1" using assms(1)[OF c] assms(2)[OF t] by simp_all
  moreover have "cnt u' \<le> cnt u1 + n"
  proof (cases "u' = u1 \<or> u' = u2")
    case True
    then show ?thesis using calculation(2) by auto
  next
    case False
    then obtain d v u3 where d: "sleep ports d u2 = (v, u3)"
        "u' = u3 \<or> readiness_loop ports service sid deadline n u3 = (r, u')"
      using Suc.prems c t
      by (auto simp: bindIO_def Let_def throwIO_def retIO_def split: sum.splits prod.splits if_splits)
    then show ?thesis using assms(3)[OF d(1)] calculation(2) Suc.IH[of u3] by auto
  qed
  ultimately show ?case by simp
qed

text \<open>
  C35. Waiting for a service makes at most 1201 readiness checks, whatever the reader, the clock
  and the timer answer, for every readiness policy that the constructor accepts.
\<close>

theorem readiness_wait_bounded:
  assumes "\<And>s u r u'. check ports s u = (r, u') \<Longrightarrow> cnt u' \<le> cnt u + (1::nat)"
    and "\<And>u r u'. readiness_now ports u = (r, u') \<Longrightarrow> cnt u' = cnt u"
    and "\<And>d u r u'. sleep ports d u = (r, u') \<Longrightarrow> cnt u' = cnt u"
    and "\<And>i u r u'. readiness_findById ports i u = (r, u') \<Longrightarrow> cnt u' = cnt u"
    and "\<And>i u s u'. readiness_findById ports i u = (Inr (Some s), u') \<Longrightarrow> wf_service s"
    and "WaitForReadiness_execute ports sid w = (r, w')"
  shows "cnt w' \<le> cnt w + 1201"
proof -
  obtain f w1 where f: "readiness_findById ports sid w = (f, w1)" by fastforce
  note cw1 = assms(4)[OF f]
  show ?thesis
  proof (cases "\<exists>service n. f = Inr (Some service) \<and> computeMaxAttempts
      (timeoutMilliseconds (readinessPolicy service)) (pollIntervalMilliseconds (readinessPolicy service)) = Inr n")
    case False
    then have "w' = w1"
      using assms(6) f
      by (auto simp: WaitForReadiness_execute_def bindIO_def Let_def liftIO_def throwIO_def
          split: sum.splits option.splits prod.splits)
    then show ?thesis using cw1 by simp
  next
    case True
    then obtain service n where s: "f = Inr (Some service)" and n: "computeMaxAttempts
      (timeoutMilliseconds (readinessPolicy service)) (pollIntervalMilliseconds (readinessPolicy service)) = Inr n"
      by blast
    obtain t w2 where t: "readiness_now ports w1 = (t, w2)" by fastforce
    have bound: "nat n \<le> 1201"
      using assms(5) f s n by (intro computeMaxAttempts_bound[OF _ n]) (auto simp: wf_service_def)
    show ?thesis
    proof (cases t)
      case (Inl e)
      then show ?thesis
        using assms(6) f s n t cw1 assms(2)[OF t]
        by (simp add: WaitForReadiness_execute_def bindIO_def Let_def liftIO_def)
    next
      case (Inr st)
      then have loop: "readiness_loop ports service sid
          (st + timeoutMilliseconds (readinessPolicy service)) (nat n) w2 = (r, w')"
        using assms(6) f s n t by (simp add: WaitForReadiness_execute_def bindIO_def Let_def liftIO_def)
      have "cnt w' \<le> cnt w2 + nat n"
        by (rule readiness_loop_checks[of ports cnt, OF _ _ _ loop]) (fact assms(1-3))+
      then show ?thesis using bound cw1 assms(2)[OF t] by simp
    qed
  qed
qed

section \<open>A concrete run\<close>

text \<open>
  The ports of the witnesses: the world is the log of control calls, the services of the sample
  graph support every operation, \<open>db\<close> runs and the others are stopped.
\<close>

type_synonym control_log = "(string \<times> SupportedServiceOperation) list"

definition plain_service :: "string \<Rightarrow> RegisteredService" where
  "plain_service sid =
     \<lparr>service_id = sid, displayName = sid, managementAdapter = mock, externalResourceId = sid,
      supportedOperations = [readStatus, start, stop, restart], availabilityPolicy = AlwaysPolicy,
      managementConfiguration = None, dependencies = [], readinessPolicy = defaultReadinessPolicy\<rparr>"

definition sample_lookup :: "string \<Rightarrow> (control_log, RegisteredService option) io" where
  "sample_lookup sid =
     retIO (if sid \<in> set [''web'', ''db'', ''api'', ''cache''] then Some (plain_service sid) else None)"

definition sample_ports :: "control_log OrchestrationPorts" where
  "sample_ports =
     \<lparr>findById = sample_lookup,
      controller = (\<lambda>service operation log. (Inr (), log @ [(service_id service, operation)])),
      getGraph = retIO sample_graph,
      waitForReadiness = (\<lambda>sid. retIO (Some ''1970-01-01T00:00:00.000Z'')),
      now = retIO (Some 0),
      getEffectiveAvailability = (\<lambda>sid. retIO ExpAvailable),
      statusReader = Some (\<lambda>service. retIO (if service_id service = ''db'' then running else stopped)),
      directControl = None\<rparr>"

definition sample_result :: OrchestrationResult where
  "sample_result =
     createOrchestrationResult ''api'' start ''1970-01-01T00:00:00.000Z'' ''1970-01-01T00:00:00.000Z''
       [\<lparr>completed_serviceId = ''db'', completed_kind = wait_for_readiness, completed_operation = None,
         completed_outcome = Ready ''1970-01-01T00:00:00.000Z''\<rparr>,
        \<lparr>completed_serviceId = ''api'', completed_kind = control, completed_operation = Some start,
         completed_outcome = Executed ''1970-01-01T00:00:00.000Z''\<rparr>,
        \<lparr>completed_serviceId = ''api'', completed_kind = wait_for_readiness, completed_operation = None,
         completed_outcome = Ready ''1970-01-01T00:00:00.000Z''\<rparr>] True"

lemma sample_run:
  "orchestrate_execute sample_ports ''api'' start scheduled_authority [] =
     (Inr sample_result, [(''api'', start)])"
  by code_simp

lemma sample_getGraph: "getGraph sample_ports u = (Inr g, u') \<Longrightarrow> createDependencyGraph sample_entries = Inr g"
  using sample_created by (simp add: sample_ports_def)

theorem orchestrated_start_after_dependencies_witness:
  "\<exists>i < 1. completed_serviceId (result_steps sample_result ! i) = ''db'' \<and>
    (\<exists>observed. completed_outcome (result_steps sample_result ! i) = Ready observed)"
  by (rule orchestrated_start_after_dependencies[OF sample_run sample_getGraph sample_depends,
        where at = "''1970-01-01T00:00:00.000Z''"])
    (simp_all add: sample_result_def createOrchestrationResult_def)

theorem orchestration_outcome_witness:
  "completed_serviceId (last (result_steps sample_result)) = ''api''"
proof -
  have "successful sample_result" by (simp add: sample_result_def createOrchestrationResult_def)
  moreover have "successful sample_result \<longrightarrow> completed_serviceId (last (result_steps sample_result)) = ''api''"
    using orchestration_outcome[where entries = sample_entries, OF sample_run] sample_getGraph by blast
  ultimately show ?thesis by blast
qed

theorem scheduled_start_needs_available_dependencies_witness:
  "\<exists>ds w0 w1. ''db'' \<in> set ds \<and> available_in_turn sample_ports ds w0 w1"
proof -
  have "''db'' \<in> (depends sample_entries)\<^sup>+ `` {''api''}" using r_into_trancl[OF sample_depends] by blast
  then show ?thesis
    using scheduled_start_needs_available_dependencies[where entries = sample_entries, OF sample_run] sample_getGraph
    by fastforce
qed

text \<open>A reader that counts its checks and never reports a service ready, with a clock that stands still.\<close>

definition counting_ports :: "nat ReadinessPorts" where
  "counting_ports =
     \<lparr>readiness_findById = (\<lambda>sid. retIO (Some (plain_service ''db''))),
      check = (\<lambda>service n. (Inr (False, ''1970-01-01T00:00:00.000Z''), n + 1)),
      sleep = (\<lambda>d. retIO ()), readiness_now = retIO 0\<rparr>"

lemma plain_service_wf: "wf_service (plain_service ''db'')"
  unfolding wf_service_def plain_service_def
  by (intro conjI) ((simp; fail) | code_simp)+

theorem readiness_wait_bounded_witness: "snd (WaitForReadiness_execute counting_ports ''db'' 0) \<le> 0 + 1201"
  by (rule readiness_wait_bounded[of counting_ports "\<lambda>n. n" "''db''" 0
        "fst (WaitForReadiness_execute counting_ports ''db'' 0)"])
    (simp_all add: counting_ports_def retIO_def plain_service_wf)

end
