(* ===== verification/Services_Stop.thy ===== *)
theory Services_Stop
  imports Orchestration
begin

text \<open>
  Stopping a set of services before a machine shutdown
  (\<open>application/orchestrate-registered-services-stop.ts\<close>) and the validated record of what
  happened (\<open>domain/registered-services-stop-result.ts\<close>).
\<close>

section \<open>The stop result\<close>

fun shape_char :: "char \<Rightarrow> char \<Rightarrow> bool" where
  "shape_char p c = (if p = CHR ''d'' then undig c \<noteq> None else p = c)"

text \<open>The pattern of the timestamp, with \<open>d\<close> for a digit, and the round trip through a date.\<close>

fun isStopTimestamp :: "jsval \<Rightarrow> bool" where
  "isStopTimestamp (JStr v) =
     (list_all2 shape_char ''dddd-dd-ddTdd:dd:dd.dddZ'' v \<and> date_parse v \<noteq> None)"
| "isStopTimestamp _ = False"

fun isServiceId :: "jsval \<Rightarrow> bool" where
  "isServiceId (JStr v) = SERVICE_ID_PATTERN v"
| "isServiceId _ = False"

record RegisteredServiceStopStep =
  stop_serviceId :: string
  stop_outcome :: jsval
  stop_failureCode :: "jsval option"

record RegisteredServicesStopResult =
  stop_authority :: string
  stop_requestedAt :: string
  stop_steps :: "RegisteredServiceStopStep list"
  stop_successful :: bool

definition STOP_OUTCOMES :: "string list" where
  "STOP_OUTCOMES = [''stopped'', ''already_stopped'', ''failed'']"

definition STOP_FAILURE_CODES :: "string list" where
  "STOP_FAILURE_CODES =
     [''service_status_failed'', ''service_stop_not_supported'', ''service_stop_failed'', ''service_plan_invalid'']"

fun text_of :: "jsval \<Rightarrow> string" where
  "text_of (JStr v) = v"
| "text_of _ = []"

definition create_stop_step :: "jsval \<Rightarrow> RegisteredServiceStopStep result" where
  "create_stop_step v =
     (let sid = get_prop v ''serviceId''; outcome = get_prop v ''outcome'' in
      if \<not> is_object v \<or> \<not> list_all (key_in [''serviceId'', ''outcome'', ''failureCode'']) (own_keys v) \<or>
         \<not> isServiceId sid \<or> \<not> list_ex (\<lambda>name. string_is name outcome) STOP_OUTCOMES
      then Inl (RegisteredServicesStopResultError ''invalid_step'')
      else if outcome = JStr ''failed'' \<and>
              \<not> list_ex (\<lambda>name. string_is name (get_prop v ''failureCode'')) STOP_FAILURE_CODES
      then Inl (RegisteredServicesStopResultError ''invalid_step'')
      else if outcome \<noteq> JStr ''failed'' \<and> has_own v ''failureCode''
      then Inl (RegisteredServicesStopResultError ''invalid_step'')
      else Inr \<lparr>stop_serviceId = text_of sid, stop_outcome = outcome,
                stop_failureCode = (if outcome = JStr ''failed'' then Some (get_prop v ''failureCode'') else None)\<rparr>)"

definition stop_failed :: "RegisteredServiceStopStep \<Rightarrow> bool" where
  "stop_failed s \<longleftrightarrow> stop_outcome s = JStr ''failed''"

fun is_array :: "jsval \<Rightarrow> bool" where
  "is_array (JArr _) = True"
| "is_array _ = False"

fun is_boolean :: "jsval \<Rightarrow> bool" where
  "is_boolean (JBool _) = True"
| "is_boolean _ = False"

fun elements :: "jsval \<Rightarrow> jsval list" where
  "elements (JArr vs) = vs"
| "elements _ = []"

definition createRegisteredServicesStopResult :: "jsval \<Rightarrow> RegisteredServicesStopResult result" where
  "createRegisteredServicesStopResult input =
     (if \<not> is_object input \<or> \<not> isStopTimestamp (get_prop input ''requestedAt'') \<or>
         get_prop input ''authority'' \<noteq> JStr ''machine_shutdown'' \<or>
         \<not> is_array (get_prop input ''steps'') \<or> \<not> is_boolean (get_prop input ''successful'')
      then Inl (RegisteredServicesStopResultError ''invalid_result'')
      else if \<not> list_all (key_in [''authority'', ''requestedAt'', ''steps'', ''successful'']) (own_keys input)
      then Inl (RegisteredServicesStopResultError ''invalid_result'')
      else bindR (mapR create_stop_step (elements (get_prop input ''steps''))) (\<lambda>ss.
        if length ss < 1 \<or> length ss > 64 \<or> length (set_of_array (map stop_serviceId ss)) \<noteq> length ss
        then Inl (RegisteredServicesStopResultError ''invalid_result'')
        else let hasFailure = list_ex stop_failed ss in
          if get_prop input ''successful'' = JBool hasFailure
          then Inl (RegisteredServicesStopResultError ''invalid_result'')
          else if hasFailure \<and> \<not> stop_failed (last ss)
          then Inl (RegisteredServicesStopResultError ''invalid_result'')
          else Inr \<lparr>stop_authority = ''machine_shutdown'',
                    stop_requestedAt = text_of (get_prop input ''requestedAt''), stop_steps = ss,
                    stop_successful = (get_prop input ''successful'' = JBool True)\<rparr>))"

section \<open>Stopping in order\<close>

record 'w StopPorts =
  catalog_list :: "('w, RegisteredService list) io"
  read_status :: "RegisteredService \<Rightarrow> ('w, ServiceRuntimeState) io"
  stop_controller :: "RegisteredService \<Rightarrow> SupportedServiceOperation \<Rightarrow> ('w, unit) io"
  stop_getGraph :: "('w, RegisteredServiceDependencyGraph) io"
  stop_now :: "('w, int option) io"

fun valid_id_list :: "jsval \<Rightarrow> bool" where
  "valid_id_list (JArr vs) = (1 \<le> length vs \<and> length vs \<le> 64 \<and> list_all isServiceId vs)"
| "valid_id_list _ = False"

definition validateInput :: "jsval \<Rightarrow> string list result" where
  "validateInput input =
     (if \<not> is_object input \<or> get_prop input ''authority'' \<noteq> JStr ''machine_shutdown'' \<or>
         \<not> valid_id_list (get_prop input ''serviceIds'')
      then Inl (PlainError ''service_plan_invalid'')
      else let ids = map text_of (elements (get_prop input ''serviceIds'')) in
        if length (set_of_array ids) \<noteq> length ids \<or>
           \<not> list_all (key_in [''serviceIds'', ''authority'']) (own_keys input)
        then Inl (PlainError ''service_plan_invalid'')
        else Inr ids)"

definition ready_to_stop :: "RegisteredServiceDependencyGraph \<Rightarrow> string list \<Rightarrow> string list" where
  "ready_to_stop g remaining =
     sort (filter (\<lambda>i. list_all (\<lambda>dependent. dependent \<notin> set remaining) (directDependentsOf g i)) remaining)"

lemma set_ready_to_stop:
  "set (ready_to_stop g remaining) =
     {i \<in> set remaining. \<forall>d \<in> set (directDependentsOf g i). d \<notin> set remaining}"
  by (auto simp: ready_to_stop_def list_all_iff)

lemma remaining_decreases:
  assumes "ready_to_stop g remaining \<noteq> []"
  shows "length (filter (\<lambda>i. i \<notin> set (ready_to_stop g remaining)) remaining) < length remaining"
proof -
  obtain i where i: "i \<in> set (ready_to_stop g remaining)" using assms by (cases "ready_to_stop g remaining") auto
  then have "i \<in> set remaining" by (simp add: set_ready_to_stop)
  then show ?thesis using i by (intro length_filter_less) auto
qed

function stop_order_loop ::
  "RegisteredServiceDependencyGraph \<Rightarrow> string list \<Rightarrow> string list \<Rightarrow> string list result" where
  "stop_order_loop g remaining res =
     (if remaining = [] then Inr res
      else let ready = ready_to_stop g remaining in
        if ready = [] then Inl (PlainError ''service_plan_invalid'')
        else stop_order_loop g (filter (\<lambda>i. i \<notin> set ready) remaining) (res @ ready))"
  by pat_completeness auto
termination
  by (relation "measure (\<lambda>(g, remaining, res). length remaining)") (simp_all add: remaining_decreases)

declare stop_order_loop.simps [simp del]

definition dependentFirstRequestedOrder ::
  "string list \<Rightarrow> RegisteredServiceDependencyGraph \<Rightarrow> string list result" where
  "dependentFirstRequestedOrder requested g = stop_order_loop g (set_of_array requested) []"

type_synonym service_map = "string \<rightharpoonup> RegisteredService"

text \<open>\<open>new Map(pairs)\<close>: a later pair replaces an earlier one with the same key.\<close>

definition services_by_id :: "RegisteredService list \<Rightarrow> service_map" where
  "services_by_id services = map_of (rev (map (\<lambda>s. (service_id s, s)) services))"

fun stop_snapshots ::
  "'w StopPorts \<Rightarrow> service_map \<Rightarrow> string list \<Rightarrow> (string \<rightharpoonup> ServiceRuntimeState) \<Rightarrow>
     ('w, string \<rightharpoonup> ServiceRuntimeState) io" where
  "stop_snapshots ports services [] snaps = retIO snaps"
| "stop_snapshots ports services (i # ids) snaps =
     bindIO (catchIO (case services i of
                        None \<Rightarrow> throwIO (PlainError ''TypeError'')
                      | Some service \<Rightarrow> read_status ports service) (\<lambda>_. retIO unknown)) (\<lambda>state.
     stop_snapshots ports services ids (snaps(i \<mapsto> state)))"

definition stop_step :: "string \<Rightarrow> string \<Rightarrow> RegisteredServiceStopStep" where
  "stop_step sid outcome = \<lparr>stop_serviceId = sid, stop_outcome = JStr outcome, stop_failureCode = None\<rparr>"

definition failed_stop_step :: "string \<Rightarrow> string \<Rightarrow> RegisteredServiceStopStep" where
  "failed_stop_step sid code =
     \<lparr>stop_serviceId = sid, stop_outcome = JStr ''failed'', stop_failureCode = Some (JStr code)\<rparr>"

text \<open>The body of the loop over the services in order: it breaks after a failed step.\<close>

definition stop_service ::
  "'w StopPorts \<Rightarrow> service_map \<Rightarrow> (string \<rightharpoonup> ServiceRuntimeState) \<Rightarrow> string \<Rightarrow>
     ('w, RegisteredServiceStopStep) io" where
  "stop_service ports services snaps i =
     (case snaps i of
        None \<Rightarrow> retIO (failed_stop_step i ''service_plan_invalid'')
      | Some state \<Rightarrow>
          if state = stopped then retIO (stop_step i ''already_stopped'')
          else if state \<noteq> running then retIO (failed_stop_step i ''service_status_failed'')
          else (case services i of
                  None \<Rightarrow> throwIO (PlainError ''TypeError'')
                | Some service \<Rightarrow>
                    if stop \<notin> set (supportedOperations service)
                    then retIO (failed_stop_step i ''service_stop_not_supported'')
                    else catchIO (bindIO (stop_controller ports service stop) (\<lambda>_. retIO (stop_step i ''stopped'')))
                           (\<lambda>_. retIO (failed_stop_step i ''service_stop_failed''))))"

fun stop_loop ::
  "'w StopPorts \<Rightarrow> service_map \<Rightarrow> (string \<rightharpoonup> ServiceRuntimeState) \<Rightarrow> string list \<Rightarrow>
     RegisteredServiceStopStep list \<Rightarrow> ('w, RegisteredServiceStopStep list) io" where
  "stop_loop ports services snaps [] ss = retIO ss"
| "stop_loop ports services snaps (i # ids) ss =
     bindIO (stop_service ports services snaps i) (\<lambda>s.
     if stop_failed s then retIO (ss @ [s]) else stop_loop ports services snaps ids (ss @ [s]))"

definition stop_step_value :: "RegisteredServiceStopStep \<Rightarrow> jsval" where
  "stop_step_value s =
     literal_obj ([(''serviceId'', JStr (stop_serviceId s)), (''outcome'', stop_outcome s)] @
       (case stop_failureCode s of None \<Rightarrow> [] | Some code \<Rightarrow> [(''failureCode'', code)]))"

definition stop_result_value :: "string \<Rightarrow> RegisteredServiceStopStep list \<Rightarrow> bool \<Rightarrow> jsval" where
  "stop_result_value at ss ok =
     literal_obj [(''authority'', JStr ''machine_shutdown''), (''requestedAt'', JStr at),
       (''steps'', JArr (map stop_step_value ss)), (''successful'', JBool ok)]"

definition failedResult :: "string \<Rightarrow> string \<Rightarrow> RegisteredServicesStopResult result" where
  "failedResult at sid =
     createRegisteredServicesStopResult (stop_result_value at [failed_stop_step sid ''service_plan_invalid''] False)"

definition stop_services_execute ::
  "'w StopPorts \<Rightarrow> jsval \<Rightarrow> string option \<Rightarrow> ('w, RegisteredServicesStopResult) io" where
  "stop_services_execute ports input requestedAt =
     bindIO (case requestedAt of Some at \<Rightarrow> retIO at | None \<Rightarrow> now_iso (stop_now ports)) (\<lambda>at.
     bindIO (liftIO (validateInput input)) (\<lambda>ids w.
     case catalog_list ports w of
       (Inl _, w1) \<Rightarrow> (failedResult at (hd ids), w1)
     | (Inr listed, w1) \<Rightarrow>
         let services = services_by_id listed in
         if list_ex (\<lambda>i. services i = None) ids then (Inl (PlainError ''service_plan_invalid''), w1)
         else bindIO (stop_snapshots ports services ids Map.empty) (\<lambda>snaps w2.
           case stop_getGraph ports w2 of
             (Inl _, w3) \<Rightarrow> (failedResult at (hd ids), w3)
           | (Inr g, w3) \<Rightarrow>
               (case dependentFirstRequestedOrder ids g of
                  Inl _ \<Rightarrow> (failedResult at (hd ids), w3)
                | Inr order \<Rightarrow>
                    bindIO (stop_loop ports services snaps order []) (\<lambda>ss.
                    liftIO (createRegisteredServicesStopResult
                      (stop_result_value at ss (\<not> list_ex stop_failed ss)))) w3)) w1))"

section \<open>The order of the stops\<close>

lemma set_directDependentsOf:
  "valid_graph g \<Longrightarrow> set (directDependentsOf g i) = {a. (a, i) \<in> depends_on g}"
proof -
  assume "valid_graph g"
  then have e: "edges (graph g) Dependents = (depends_on g)\<inverse>"
    using valid_graph_edges(2) by (simp add: depends_on_def)
  have "a \<in> set (directDependentsOf g i) \<longleftrightarrow> (i, a) \<in> edges (graph g) Dependents" for a
    by (auto simp: directDependentsOf_def edges_def neighbors_of_def split: option.splits)
  then show ?thesis by (auto simp: e)
qed

lemma ready_to_stop_nonempty:
  assumes "valid_graph g" and "remaining \<noteq> []"
  shows "ready_to_stop g remaining \<noteq> []"
proof -
  let ?r = "depends_on g \<inter> set remaining \<times> set remaining"
  have "acyclic ?r" using dg.acyclic_dep[OF assms(1)] by (rule acyclic_subset) simp
  moreover have "finite ?r" by simp
  ultimately have "wf ?r" by (simp add: finite_acyclic_wf)
  moreover obtain i where "i \<in> set remaining" using assms(2) by (cases remaining) auto
  ultimately obtain z where z: "z \<in> set remaining" and "\<And>y. (y, z) \<in> ?r \<Longrightarrow> y \<notin> set remaining"
    using wfE_min[of ?r i "set remaining"] by blast
  then have "\<forall>d \<in> set (directDependentsOf g z). d \<notin> set remaining"
    unfolding set_directDependentsOf[OF assms(1)] by blast
  then have "z \<in> set (ready_to_stop g remaining)" using z unfolding set_ready_to_stop by blast
  then show ?thesis by (metis empty_iff empty_set)
qed

lemma distinct_ready_to_stop: "distinct remaining \<Longrightarrow> distinct (ready_to_stop g remaining)"
  by (simp add: ready_to_stop_def)

lemma stop_order_loop_sound:
  assumes "stop_order_loop g remaining res = Inr full" and "distinct remaining"
  shows "\<exists>order. full = res @ order \<and> set order = set remaining \<and> distinct order \<and>
    (\<forall>a b. a \<in> set (directDependentsOf g b) \<longrightarrow> a \<in> set remaining \<longrightarrow> b \<in> set remaining \<longrightarrow> before order a b)"
  using assms
proof (induction "length remaining" arbitrary: remaining res rule: less_induct)
  case less
  show ?case
  proof (cases "remaining = []")
    case True
    then show ?thesis using less.prems(1) by (simp add: stop_order_loop.simps)
  next
    case False
    let ?ready = "ready_to_stop g remaining"
    let ?rest = "filter (\<lambda>i. i \<notin> set ?ready) remaining"
    have ready: "?ready \<noteq> []" and run: "stop_order_loop g ?rest (res @ ?ready) = Inr full"
      using less.prems(1) False by (subst (asm) stop_order_loop.simps; simp add: Let_def split: if_splits)+
    have "distinct ?rest" using less.prems(2) by simp
    from less.hyps[OF remaining_decreases[OF ready] run this]
    obtain order where order: "full = (res @ ?ready) @ order" "set order = set ?rest" "distinct order"
      "\<And>a b. a \<in> set (directDependentsOf g b) \<Longrightarrow> a \<in> set ?rest \<Longrightarrow> b \<in> set ?rest \<Longrightarrow> before order a b" by blast
    have sub: "set ?ready \<subseteq> set remaining" by (auto simp: set_ready_to_stop)
    have "before (?ready @ order) a b"
      if ab: "a \<in> set (directDependentsOf g b)" "a \<in> set remaining" "b \<in> set remaining" for a b
    proof -
      have "b \<notin> set ?ready" using ab by (auto simp: set_ready_to_stop)
      then show ?thesis
        using ab order(2) order(4)[of a b] before_appendI2[of order a b ?ready]
          before_append_right[of a ?ready b order]
        by (cases "a \<in> set ?ready") auto
    qed
    moreover have "set (?ready @ order) = set remaining" using order(2) sub by auto
    moreover have "distinct (?ready @ order)"
      using order(2,3) less.prems(2) distinct_ready_to_stop by auto
    ultimately show ?thesis using order(1) by (intro exI[of _ "?ready @ order"]) simp
  qed
qed

lemma stop_order_sound:
  assumes "dependentFirstRequestedOrder requested g = Inr order"
  shows "set order = set requested" "distinct order"
    and "a \<in> set (directDependentsOf g b) \<Longrightarrow> a \<in> set requested \<Longrightarrow> b \<in> set requested \<Longrightarrow> before order a b"
  using stop_order_loop_sound[OF _ distinct_set_of_array, of g requested "[]" order] assms
  by (auto simp: dependentFirstRequestedOrder_def)

text \<open>On the graph of registered services, which has no cycle, there is always a service to stop next.\<close>

lemma stop_order_loop_returns:
  assumes "valid_graph g"
  shows "\<exists>full. stop_order_loop g remaining res = Inr full"
proof (induction "length remaining" arbitrary: remaining res rule: less_induct)
  case less
  show ?case
  proof (cases "remaining = []")
    case False
    note ready = ready_to_stop_nonempty[OF assms False]
    show ?thesis
      using less.hyps[OF remaining_decreases[OF ready]] ready False
      by (subst stop_order_loop.simps) (simp add: Let_def)
  qed (simp add: stop_order_loop.simps)
qed

lemma stop_order_exists: "valid_graph g \<Longrightarrow> \<exists>order. dependentFirstRequestedOrder requested g = Inr order"
  by (simp add: dependentFirstRequestedOrder_def stop_order_loop_returns)

section \<open>The steps and their record\<close>

definition stop_outcome_ok :: "RegisteredServiceStopStep \<Rightarrow> bool" where
  "stop_outcome_ok s \<longleftrightarrow>
     s \<in> {stop_step (stop_serviceId s) ''stopped'', stop_step (stop_serviceId s) ''already_stopped''} \<union>
         failed_stop_step (stop_serviceId s) ` set STOP_FAILURE_CODES"

lemma stop_steps_simps [simp]:
  "stop_serviceId (stop_step i v) = i" "stop_serviceId (failed_stop_step i v) = i"
  "stop_failed (failed_stop_step i v)" "stop_failed (stop_step i v) \<longleftrightarrow> v = ''failed''"
  by (simp_all add: stop_step_def failed_stop_step_def stop_failed_def)

lemma stop_outcome_stop_step [simp]: "stop_outcome (stop_step i v) = JStr v"
  by (simp add: stop_step_def)

lemma stop_outcome_okD:
  assumes "stop_outcome_ok s" and "\<not> stop_failed s"
  shows "s \<in> {stop_step (stop_serviceId s) ''stopped'', stop_step (stop_serviceId s) ''already_stopped''}"
proof (rule ccontr)
  assume "\<not> ?thesis"
  then obtain code where "s = failed_stop_step (stop_serviceId s) code"
    using assms(1) unfolding stop_outcome_ok_def by blast
  then show False using assms(2) stop_steps_simps(3) by metis
qed

lemma stop_service_Inr:
  assumes "stop_service ports services snaps i w = (Inr s, w')"
  shows "stop_serviceId s = i \<and> stop_outcome_ok s"
  using assms
  by (auto simp: stop_service_def stop_outcome_ok_def STOP_FAILURE_CODES_def catchIO_def bindIO_def
      split: option.splits if_splits prod.splits sum.splits)

lemma stop_service_returns:
  assumes "services i \<noteq> None"
  shows "\<exists>s w'. stop_service ports services snaps i w = (Inr s, w')"
  using assms
  by (auto simp: stop_service_def catchIO_def bindIO_def retIO_def
      split: option.splits if_splits prod.splits sum.splits)

lemma stop_loop_returns:
  assumes "list_all (\<lambda>i. services i \<noteq> None) order"
  shows "\<exists>ss w'. stop_loop ports services snaps order acc w = (Inr ss, w')"
  using assms
proof (induction order arbitrary: acc w)
  case (Cons i order)
  obtain s w1 where "stop_service ports services snaps i w = (Inr s, w1)"
    using stop_service_returns[of services i ports snaps w] Cons.prems by auto
  then show ?case using Cons by (simp add: bindIO_def retIO_def)
qed (simp add: retIO_def)

lemma stop_loop_prefix:
  assumes "stop_loop ports services snaps order acc w = (Inr ss, w')"
  shows "\<exists>ds rest. ss = acc @ ds \<and> map stop_serviceId ds @ rest = order \<and> list_all stop_outcome_ok ds \<and>
    list_all (\<lambda>s. \<not> stop_failed s) (butlast ds) \<and> (list_all (\<lambda>s. \<not> stop_failed s) ds \<longrightarrow> rest = []) \<and>
    (ds = [] \<longrightarrow> order = [])"
  using assms
proof (induction order arbitrary: acc w)
  case (Cons i order)
  then obtain s w1 where s: "stop_service ports services snaps i w = (Inr s, w1)"
    by (auto simp: bindIO_Inr)
  note ok = stop_service_Inr[OF s]
  show ?case
  proof (cases "stop_failed s")
    case True
    then have "ss = acc @ [s]" using Cons.prems s by (auto simp: bindIO_Inr)
    then show ?thesis using ok True by (intro exI[of _ "[s]"] exI[of _ order]) simp
  next
    case False
    then have "stop_loop ports services snaps order (acc @ [s]) w1 = (Inr ss, w')"
      using Cons.prems s by (auto simp: bindIO_Inr)
    from Cons.IH[OF this] obtain ds rest where ds: "ss = (acc @ [s]) @ ds" "map stop_serviceId ds @ rest = order"
      "list_all stop_outcome_ok ds" "list_all (\<lambda>s. \<not> stop_failed s) (butlast ds)"
      "list_all (\<lambda>s. \<not> stop_failed s) ds \<longrightarrow> rest = []" "ds = [] \<longrightarrow> order = []" by blast
    then show ?thesis using ok False by (intro exI[of _ "s # ds"] exI[of _ rest]) auto
  qed
qed auto

lemma create_stop_step_value:
  assumes "stop_outcome_ok s" and "SERVICE_ID_PATTERN (stop_serviceId s)"
  shows "create_stop_step (stop_step_value s) = Inr s"
proof -
  consider "s = stop_step (stop_serviceId s) ''stopped''" | "s = stop_step (stop_serviceId s) ''already_stopped''"
    | code where "code \<in> set STOP_FAILURE_CODES" "s = failed_stop_step (stop_serviceId s) code"
    using assms(1) unfolding stop_outcome_ok_def by blast
  then show ?thesis
  proof cases
    case 1
    show ?thesis
      by (subst 1, subst (2) 1)
        (simp add: create_stop_step_def stop_step_value_def stop_step_def literal_simps assms(2)
          STOP_OUTCOMES_def has_own_def Let_def)
  next
    case 2
    show ?thesis
      by (subst 2, subst (2) 2)
        (simp add: create_stop_step_def stop_step_value_def stop_step_def literal_simps assms(2)
          STOP_OUTCOMES_def has_own_def Let_def)
  next
    case 3
    have ok: "list_ex (\<lambda>name. name = code) STOP_FAILURE_CODES" using 3(1) by (auto simp: list_ex_iff)
    show ?thesis
      by (subst 3(2), subst (2) 3(2))
        (use ok in \<open>simp add: create_stop_step_def stop_step_value_def failed_stop_step_def literal_simps assms(2)
          STOP_OUTCOMES_def has_own_def Let_def eq_commute\<close>)
  qed
qed

lemma list_ex_last:
  assumes "list_all (\<lambda>s. \<not> P s) (butlast xs)" and "list_ex P xs"
  shows "P (last xs)"
  using assms by (cases xs rule: rev_cases) (auto simp: list_all_iff list_ex_iff)

lemma stop_result_created:
  assumes "isStopTimestamp (JStr at)" and "list_all stop_outcome_ok ss"
    and "list_all SERVICE_ID_PATTERN (map stop_serviceId ss)" and "1 \<le> length ss" and "length ss \<le> 64"
    and "distinct (map stop_serviceId ss)" and "list_all (\<lambda>s. \<not> stop_failed s) (butlast ss)"
  shows "createRegisteredServicesStopResult (stop_result_value at ss (\<not> list_ex stop_failed ss)) =
    Inr \<lparr>stop_authority = ''machine_shutdown'', stop_requestedAt = at, stop_steps = ss,
      stop_successful = (\<not> list_ex stop_failed ss)\<rparr>"
proof -
  have m: "mapR create_stop_step (map stop_step_value ss) = Inr ss"
    unfolding mapR_eq_Inr list_all2_map1
    using assms(2,3) create_stop_step_value by (auto simp: list_all2_same list_all_iff)
  have n: "length (set_of_array (map stop_serviceId ss)) = length ss"
    using assms(6) by (simp add: set_of_array_distinct)
  have l: "list_ex stop_failed ss \<Longrightarrow> stop_failed (last ss)" using list_ex_last[OF assms(7)] .
  have "ss \<noteq> []" using assms(4) by auto
  then show ?thesis
    using assms(1,4,5) m n l
    by (simp add: createRegisteredServicesStopResult_def stop_result_value_def literal_simps Let_def
        del: isStopTimestamp.simps)
qed

lemma failedResult_created:
  assumes "isStopTimestamp (JStr at)" and "SERVICE_ID_PATTERN sid"
  shows "failedResult at sid = Inr \<lparr>stop_authority = ''machine_shutdown'', stop_requestedAt = at,
    stop_steps = [failed_stop_step sid ''service_plan_invalid''], stop_successful = False\<rparr>"
  using stop_result_created[OF assms(1), of "[failed_stop_step sid ''service_plan_invalid'']"] assms(2)
  by (simp add: failedResult_def stop_outcome_ok_def STOP_FAILURE_CODES_def)

lemma validateInput_Inr:
  assumes "validateInput input = Inr ids"
  shows "distinct ids \<and> 1 \<le> length ids \<and> length ids \<le> 64 \<and> list_all SERVICE_ID_PATTERN ids"
proof -
  obtain vs where vs: "get_prop input ''serviceIds'' = JArr vs" "1 \<le> length vs" "length vs \<le> 64"
      "list_all isServiceId vs" and ids: "ids = map text_of vs" "length (set_of_array ids) = length ids"
    using assms
    by (cases "get_prop input ''serviceIds''") (auto simp: validateInput_def Let_def split: if_splits)
  have "SERVICE_ID_PATTERN (text_of v)" if "isServiceId v" for v using that by (cases v) auto
  then have "list_all SERVICE_ID_PATTERN ids" using vs(4) ids(1) by (auto simp: list_all_iff)
  moreover have "distinct ids"
    using ids(2) by (metis card_distinct distinct_card distinct_set_of_array set_set_of_array)
  ultimately show ?thesis using vs ids by simp
qed

section \<open>Whole runs\<close>

text \<open>
  A run that returns a result either recorded one failed step for the first requested service, or
  went through the requested services in order up to the first failure.
\<close>

definition stop_run :: "string list \<Rightarrow> RegisteredServicesStopResult \<Rightarrow> bool" where
  "stop_run order res \<longleftrightarrow>
     list_all stop_outcome_ok (stop_steps res) \<and>
     stop_successful res = (\<not> list_ex stop_failed (stop_steps res)) \<and>
     list_all (\<lambda>s. \<not> stop_failed s) (butlast (stop_steps res)) \<and>
     (\<exists>rest. map stop_serviceId (stop_steps res) @ rest = order \<and> (stop_successful res \<longrightarrow> rest = []))"

lemma failed_run:
  assumes "failedResult at sid = Inr res" and "isStopTimestamp (JStr at)" and "SERVICE_ID_PATTERN sid"
  shows "stop_steps res = [failed_stop_step sid ''service_plan_invalid''] \<and> \<not> stop_successful res \<and>
    stop_requestedAt res = at"
  using assms(1) failedResult_created[OF assms(2,3)] by auto

lemma stop_snapshots_returns: "\<exists>snaps' w'. stop_snapshots ports services ids snaps w = (Inr snaps', w')"
proof (induction ids arbitrary: snaps w)
  case (Cons i ids)
  show ?case
    using Cons.IH
    by (cases "case services i of None \<Rightarrow> throwIO (PlainError ''TypeError'') w
          | Some service \<Rightarrow> read_status ports service w")
      (auto simp: bindIO_def catchIO_def retIO_def split: option.splits sum.splits prod.splits)
qed (simp add: retIO_def)

lemma stopped_in_order:
  assumes "stop_loop ports services snaps order [] w = (Inr ss, w')" and "isStopTimestamp (JStr at)"
    and "distinct order" and "order \<noteq> []" and "length order \<le> 64" and "list_all SERVICE_ID_PATTERN order"
  shows "\<exists>res. createRegisteredServicesStopResult (stop_result_value at ss (\<not> list_ex stop_failed ss)) = Inr res \<and>
    stop_run order res \<and> stop_requestedAt res = at"
proof -
  obtain rest where r: "map stop_serviceId ss @ rest = order" "list_all stop_outcome_ok ss"
      "list_all (\<lambda>s. \<not> stop_failed s) (butlast ss)" "list_all (\<lambda>s. \<not> stop_failed s) ss \<longrightarrow> rest = []"
      "ss \<noteq> []"
    using stop_loop_prefix[OF assms(1)] assms(4) by auto
  have "distinct (map stop_serviceId ss)" "list_all SERVICE_ID_PATTERN (map stop_serviceId ss)" "length ss \<le> 64"
    using assms(3,5,6) unfolding r(1)[symmetric] by auto
  moreover have "1 \<le> length ss" using r(5) by (cases ss) auto
  ultimately have "createRegisteredServicesStopResult (stop_result_value at ss (\<not> list_ex stop_failed ss)) =
      Inr \<lparr>stop_authority = ''machine_shutdown'', stop_requestedAt = at, stop_steps = ss,
        stop_successful = (\<not> list_ex stop_failed ss)\<rparr>"
    using stop_result_created[OF assms(2) r(2)] r(3) by blast
  then show ?thesis using r by (auto simp: stop_run_def list_all_iff list_ex_iff)
qed

lemma stop_execute_cases:
  assumes "stop_services_execute ports input (Some at) w = (r, w')" and "validateInput input = Inr ids"
    and "isStopTimestamp (JStr at)"
  obtains (not_listed) listed w1 where "r = Inl (PlainError ''service_plan_invalid'')"
      "catalog_list ports w = (Inr listed, w1)" "list_ex (\<lambda>i. services_by_id listed i = None) ids"
  | (not_run) res where "r = Inr res" "stop_steps res = [failed_stop_step (hd ids) ''service_plan_invalid'']"
      "\<not> stop_successful res" "stop_requestedAt res = at"
  | (ran) res w1 g w2 order where "r = Inr res" "stop_getGraph ports w1 = (Inr g, w2)"
      "dependentFirstRequestedOrder ids g = Inr order" "stop_run order res" "stop_requestedAt res = at"
proof -
  note ids = validateInput_Inr[OF assms(2)]
  have "ids \<noteq> []" using ids by auto
  then have hd: "SERVICE_ID_PATTERN (hd ids)" using ids by (cases ids) auto
  have failed: thesis if "r = failedResult at (hd ids)"
    by (rule not_run[OF that[unfolded failedResult_created[OF assms(3) hd]]]) simp_all
  obtain l w1 where l: "catalog_list ports w = (l, w1)" by fastforce
  show thesis
  proof (cases l)
    case (Inl e)
    then show thesis
      using assms(1,2) l by (intro failed) (simp add: stop_services_execute_def bindIO_def retIO_def liftIO_def)
  next
    case listed: (Inr listed)
    let ?services = "services_by_id listed"
    show thesis
    proof (cases "list_ex (\<lambda>i. ?services i = None) ids")
      case True
      then show thesis
        using assms(1,2) l listed not_listed
        by (auto simp: stop_services_execute_def bindIO_def retIO_def liftIO_def)
    next
      case known: False
      obtain snaps w2 where snaps: "stop_snapshots ports ?services ids Map.empty w1 = (Inr snaps, w2)"
        using stop_snapshots_returns[of ports ?services ids Map.empty w1] by auto
      obtain gr w3 where g: "stop_getGraph ports w2 = (gr, w3)" by fastforce
      let ?after = "case gr of Inl _ \<Rightarrow> (failedResult at (hd ids), w3)
        | Inr g \<Rightarrow> (case dependentFirstRequestedOrder ids g of
              Inl _ \<Rightarrow> (failedResult at (hd ids), w3)
            | Inr order \<Rightarrow> bindIO (stop_loop ports ?services snaps order []) (\<lambda>ss.
                liftIO (createRegisteredServicesStopResult
                  (stop_result_value at ss (\<not> list_ex stop_failed ss)))) w3)"
      have after: "?after = (r, w')"
        using assms(1,2) l listed known snaps g
        by (simp add: stop_services_execute_def bindIO_def retIO_def liftIO_def Let_def split: sum.splits)
      show thesis
      proof (cases "\<exists>g order. gr = Inr g \<and> dependentFirstRequestedOrder ids g = Inr order")
        case False
        then show thesis
          using after by (intro failed) (auto split: sum.splits)
      next
        case True
        then obtain g' order where o: "gr = Inr g'" "dependentFirstRequestedOrder ids g' = Inr order" by blast
        note so = stop_order_sound[OF o(2)]
        have facts: "order \<noteq> []" "length order \<le> 64" "list_all SERVICE_ID_PATTERN order"
            "list_all (\<lambda>i. ?services i \<noteq> None) order"
          using ids so(1,2) known distinct_card[OF so(2)] distinct_card[of ids] \<open>ids \<noteq> []\<close>
          by (auto simp: list_all_iff list_ex_iff)
        obtain ss w4 where ss: "stop_loop ports ?services snaps order [] w3 = (Inr ss, w4)"
          using stop_loop_returns[OF facts(4), of ports snaps "[]" w3] by auto
        from stopped_in_order[OF ss assms(3) so(2) facts(1-3)] obtain res where
          "createRegisteredServicesStopResult (stop_result_value at ss (\<not> list_ex stop_failed ss)) = Inr res"
          "stop_run order res" "stop_requestedAt res = at" by blast
        then show thesis
          using ran[of res w2 g' w3 order] after o g ss by (simp add: bindIO_def liftIO_def)
      qed
    qed
  qed
qed

section \<open>Properties\<close>

lemma nth_prefix: "map f xs @ ys = zs \<Longrightarrow> j < length xs \<Longrightarrow> zs ! j = f (xs ! j)"
  by (auto simp: nth_append)

lemma not_failed_before:
  assumes "list_all (\<lambda>s. \<not> stop_failed s) (butlast ss)" and "i < j" and "j < length ss"
  shows "\<not> stop_failed (ss ! i)"
proof -
  have "i < length (butlast ss)" using assms(2,3) by simp
  then show ?thesis using assms(1) by (simp add: list_all_length nth_butlast)
qed

text \<open>
  C26. Services are stopped dependents first: when the step of a requested service \<open>b\<close> records that
  it was stopped, an earlier step records that each requested service which depends on it directly
  was stopped or had already been.
\<close>

theorem stopped_after_dependents:
  assumes "stop_services_execute ports input (Some at) w = (Inr res, w')"
    and "validateInput input = Inr ids" and "isStopTimestamp (JStr at)"
    and "\<And>u g u'. stop_getGraph ports u = (Inr g, u') \<Longrightarrow> createDependencyGraph entries = Inr g"
    and "(a, b) \<in> depends entries" and "a \<in> set ids"
    and "j < length (stop_steps res)" and "stop_steps res ! j = stop_step b ''stopped''"
  shows "\<exists>i < j. stop_steps res ! i \<in> {stop_step a ''stopped'', stop_step a ''already_stopped''}"
  using assms(1-3)
proof (cases rule: stop_execute_cases)
  case (not_run res')
  then show ?thesis using assms(7,8) by (simp add: stop_step_def failed_stop_step_def)
next
  case (ran res' w1 g w2 order)
  then have ran: "stop_getGraph ports w1 = (Inr g, w2)" "dependentFirstRequestedOrder ids g = Inr order"
    "stop_run order res" by simp_all
  note created = assms(4)[OF ran(1)] and sound = stop_order_sound[OF ran(2)]
  obtain rest where rest: "map stop_serviceId (stop_steps res) @ rest = order"
    and run: "list_all stop_outcome_ok (stop_steps res)"
      "list_all (\<lambda>s. \<not> stop_failed s) (butlast (stop_steps res))"
    using ran(3) by (auto simp: stop_run_def)
  have b: "map stop_serviceId (stop_steps res) ! j = b" using assms(7,8) by simp
  then have "b \<in> set ids" using rest assms(7) sound(1) by (metis Un_iff length_map nth_mem set_append)
  moreover have "a \<in> set (directDependentsOf g b)"
    using assms(5) created_depends[OF created] set_directDependentsOf[OF created_valid[OF created]] by simp
  ultimately have "before (map stop_serviceId (stop_steps res) @ rest) a b"
    unfolding rest using sound(3) assms(6) by blast
  then obtain i where i: "i < j" "map stop_serviceId (stop_steps res) ! i = a"
    using prefix_before_nth[of "map stop_serviceId (stop_steps res)" rest a b j] sound(2) rest assms(7) b by auto
  then have "stop_serviceId (stop_steps res ! i) = a" using assms(7) by simp
  moreover have "\<not> stop_failed (stop_steps res ! i)" using not_failed_before[OF run(2) i(1) assms(7)] .
  moreover have "stop_outcome_ok (stop_steps res ! i)" using run(1) i(1) assms(7) by (simp add: list_all_length)
  ultimately show ?thesis using i(1) stop_outcome_okD by metis
qed simp

text \<open>
  Whatever the ports do, an accepted request with a valid time either is rejected because the
  catalog does not list a requested service, or ends with a recorded result; a successful
  result has one step for each requested service and each was stopped or had already been.
\<close>

theorem stop_request_recorded:
  assumes "validateInput input = Inr ids" and "isStopTimestamp (JStr at)"
    and "\<And>listed w1. catalog_list ports w = (Inr listed, w1) \<Longrightarrow> set ids \<subseteq> service_id ` set listed"
  shows "\<exists>res. fst (stop_services_execute ports input (Some at) w) = Inr res \<and> stop_requestedAt res = at \<and>
    (stop_successful res \<longrightarrow> set (map stop_serviceId (stop_steps res)) = set ids \<and>
       list_all (\<lambda>s. stop_outcome s \<in> {JStr ''stopped'', JStr ''already_stopped''}) (stop_steps res))"
proof -
  obtain r w' where ex: "stop_services_execute ports input (Some at) w = (r, w')" by fastforce
  from ex assms(1,2) show ?thesis
  proof (cases rule: stop_execute_cases)
    case (not_listed listed w1)
    have "services_by_id listed i \<noteq> None" if "i \<in> set ids" for i
      using assms(3)[OF not_listed(2)] that
      by (auto simp: services_by_id_def map_of_eq_None_iff image_image rev_map[symmetric])
    then have False using not_listed(3) unfolding list_ex_iff by blast
    then show ?thesis ..
  next
    case (not_run res)
    then show ?thesis using ex by simp
  next
    case (ran res w1 g w2 order)
    have "stop_outcome s \<in> {JStr ''stopped'', JStr ''already_stopped''}"
      if "stop_outcome_ok s" "\<not> stop_failed s" for s
      using stop_outcome_okD[OF that] stop_outcome_stop_step by (metis insert_iff singletonD)
    then show ?thesis
      using ran ex stop_order_sound(1)[OF ran(3)]
      by (auto simp: stop_run_def list_all_iff list_ex_iff)
  qed
qed

text \<open>
  The order looks at direct dependents that were requested: with \<open>web\<close> depending on \<open>api\<close> and
  \<open>api\<close> on \<open>db\<close>, a request for \<open>web\<close> and \<open>db\<close> alone stops \<open>db\<close> before its transitive dependent \<open>web\<close>.
\<close>

theorem stop_order_ignores_unrequested:
  "dependentFirstRequestedOrder [''web'', ''db''] sample_graph = Inr [''db'', ''web''] \<and>
   (''web'', ''db'') \<in> (depends sample_entries)\<^sup>+"
proof -
  have "(''web'', ''api'') \<in> depends sample_entries" unfolding set_dependents_in[symmetric] by code_simp
  then have "(''web'', ''db'') \<in> (depends sample_entries)\<^sup>+"
    using sample_depends by (meson r_into_trancl trancl_into_trancl)
  moreover have "dependentFirstRequestedOrder [''web'', ''db''] sample_graph = Inr [''db'', ''web'']" by code_simp
  ultimately show ?thesis by simp
qed

section \<open>A concrete run\<close>

definition sample_stop_input :: jsval where
  "sample_stop_input = literal_obj [(''serviceIds'', JArr [JStr ''db'', JStr ''api'']),
     (''authority'', JStr ''machine_shutdown'')]"

definition sample_stop_ports :: "control_log StopPorts" where
  "sample_stop_ports =
     \<lparr>catalog_list = retIO (map plain_service [''web'', ''db'', ''api'', ''cache'']),
      read_status = (\<lambda>service. retIO running),
      stop_controller = (\<lambda>service operation log. (Inr (), log @ [(service_id service, operation)])),
      stop_getGraph = retIO sample_graph,
      stop_now = retIO (Some 0)\<rparr>"

definition sample_stop_result :: RegisteredServicesStopResult where
  "sample_stop_result =
     \<lparr>stop_authority = ''machine_shutdown'', stop_requestedAt = ''1970-01-01T00:00:00.000Z'',
      stop_steps = [stop_step ''api'' ''stopped'', stop_step ''db'' ''stopped''], stop_successful = True\<rparr>"

lemma sample_stop_run:
  "stop_services_execute sample_stop_ports sample_stop_input (Some ''1970-01-01T00:00:00.000Z'') [] =
     (Inr sample_stop_result, [(''api'', stop), (''db'', stop)])"
  by code_simp

lemma sample_stop_valid:
  "validateInput sample_stop_input = Inr [''db'', ''api'']" "isStopTimestamp (JStr ''1970-01-01T00:00:00.000Z'')"
  by code_simp+

theorem stopped_after_dependents_witness:
  "\<exists>i < 1. stop_steps sample_stop_result ! i \<in> {stop_step ''api'' ''stopped'', stop_step ''api'' ''already_stopped''}"
proof (rule stopped_after_dependents[OF sample_stop_run sample_stop_valid _ sample_depends])
  show "createDependencyGraph sample_entries = Inr g" if "stop_getGraph sample_stop_ports u = (Inr g, u')" for u g u'
    using that sample_created by (simp add: sample_stop_ports_def)
qed (simp_all add: sample_stop_result_def)

theorem stop_request_recorded_witness:
  "\<exists>res. fst (stop_services_execute sample_stop_ports sample_stop_input (Some ''1970-01-01T00:00:00.000Z'') []) =
     Inr res \<and> stop_requestedAt res = ''1970-01-01T00:00:00.000Z''"
  using stop_request_recorded[OF sample_stop_valid, of sample_stop_ports "[]"]
  by (force simp: sample_stop_ports_def plain_service_def)

end
