(* ===== verification/Reconciliation_Domain.thy ===== *)
theory Reconciliation_Domain
  imports Registered_Service Availability
begin

text \<open>
  The domain of availability reconciliation (\<open>service-management/domain\<close>): the decision what to do
  with a service whose runtime state differs from its expected availability, the occurrence of a
  scheduled transition, and the cursor up to which the scheduler has worked.
\<close>

section \<open>Decisions\<close>

datatype ServiceAvailabilityReconciliationDecision =
    ExecuteDecision SupportedServiceOperation
  | NoDecision

definition SERVICE_AVAILABILITY_EXPECTATIONS :: "ServiceAvailabilityExpectation list" where
  "SERVICE_AVAILABILITY_EXPECTATIONS = [ExpAvailable, ExpUnavailable, ExpManual, ExpDisabled]"

definition decideValidatedReconciliation ::
  "ServiceAvailabilityExpectation \<Rightarrow> ServiceRuntimeState \<Rightarrow> ServiceAvailabilityReconciliationDecision" where
  "decideValidatedReconciliation expectation runtimeState =
     (if expectation = ExpAvailable \<and> runtimeState = stopped then ExecuteDecision start
      else if expectation = ExpUnavailable \<and> runtimeState = running then ExecuteDecision stop
      else NoDecision)"

definition decideServiceAvailabilityReconciliation ::
  "jsval \<Rightarrow> jsval \<Rightarrow> ServiceAvailabilityReconciliationDecision result" where
  "decideServiceAvailabilityReconciliation expectation runtimeState =
     (case (find (\<lambda>e. expectation = JStr (expectation_string e)) SERVICE_AVAILABILITY_EXPECTATIONS,
            find (\<lambda>r. runtimeState = JStr (runtime_string r)) SERVICE_RUNTIME_STATES) of
        (Some e, Some r) \<Rightarrow> Inr (decideValidatedReconciliation e r)
      | _ \<Rightarrow> Inl ServiceAvailabilityReconciliationDecisionError)"

lemma decide_typed [simp]:
  "decideServiceAvailabilityReconciliation (JStr (expectation_string e)) (JStr (runtime_string r)) =
     Inr (decideValidatedReconciliation e r)"
  by (cases e; cases r)
    (simp_all add: decideServiceAvailabilityReconciliation_def SERVICE_AVAILABILITY_EXPECTATIONS_def
      SERVICE_RUNTIME_STATES_def runtime_string_def)

section \<open>Occurrences\<close>

record CreateOccurrenceInput =
  input_serviceId :: jsval
  input_operation :: jsval
  input_scheduledFor :: jsval

record ServiceAvailabilityReconciliationOccurrence =
  occurrence_serviceId :: string
  occurrence_operation :: SupportedServiceOperation
  scheduledFor :: string

fun validateOccurrenceServiceId :: "jsval \<Rightarrow> string result" where
  "validateOccurrenceServiceId (JStr v) =
     (if length v < 1 \<or> length v > 64 \<or> \<not> SERVICE_ID_PATTERN v
      then Inl (ServiceAvailabilityReconciliationOccurrenceValidationError ''invalid_service_id'')
      else Inr v)"
| "validateOccurrenceServiceId _ =
     Inl (ServiceAvailabilityReconciliationOccurrenceValidationError ''invalid_service_id'')"

definition validateOperation :: "jsval \<Rightarrow> SupportedServiceOperation result" where
  "validateOperation v =
     (case find (\<lambda>op. v = JStr (operation_string op)) [start, stop] of
        None \<Rightarrow> Inl (ServiceAvailabilityReconciliationOccurrenceValidationError ''invalid_operation'')
      | Some op \<Rightarrow> Inr op)"

fun validateScheduledFor :: "jsval \<Rightarrow> string result" where
  "validateScheduledFor (JStr v) =
     (if date_parse v = None
      then Inl (ServiceAvailabilityReconciliationOccurrenceValidationError ''invalid_scheduled_for'')
      else Inr v)"
| "validateScheduledFor _ =
     Inl (ServiceAvailabilityReconciliationOccurrenceValidationError ''invalid_scheduled_for'')"

definition create_Occurrence ::
  "CreateOccurrenceInput \<Rightarrow> ServiceAvailabilityReconciliationOccurrence result" where
  "create_Occurrence input =
     bindR (validateOccurrenceServiceId (input_serviceId input)) (\<lambda>sid.
     bindR (validateOperation (input_operation input)) (\<lambda>op.
     bindR (validateScheduledFor (input_scheduledFor input)) (\<lambda>at.
     Inr \<lparr>occurrence_serviceId = sid, occurrence_operation = op, scheduledFor = at\<rparr>)))"

definition isSameOccurrence ::
  "ServiceAvailabilityReconciliationOccurrence \<Rightarrow> ServiceAvailabilityReconciliationOccurrence \<Rightarrow> bool" where
  "isSameOccurrence left right \<longleftrightarrow>
     occurrence_serviceId left = occurrence_serviceId right \<and>
     occurrence_operation left = occurrence_operation right \<and> scheduledFor left = scheduledFor right"

lemma isSameOccurrence_eq: "isSameOccurrence a b \<longleftrightarrow> a = b"
  by (cases a; cases b) (simp add: isSameOccurrence_def)

definition wf_occurrence :: "ServiceAvailabilityReconciliationOccurrence \<Rightarrow> bool" where
  "wf_occurrence oc \<longleftrightarrow> service_id_ok (occurrence_serviceId oc) \<and>
     occurrence_operation oc \<in> {start, stop} \<and> canonical (scheduledFor oc)"

lemma create_Occurrence_wf: "create_Occurrence input = Inr oc \<Longrightarrow> wf_occurrence oc"
  by (cases "input_serviceId input"; cases "input_scheduledFor input")
    (auto simp: create_Occurrence_def result_simps wf_occurrence_def service_id_ok_def canonical_def
      validateOperation_def Suc_le_eq split: if_splits option.splits)

lemma create_Occurrence_typed:
  assumes "service_id_ok sid" and "op = start \<or> op = stop" and "canonical at"
  shows "create_Occurrence \<lparr>input_serviceId = JStr sid, input_operation = JStr (operation_string op),
      input_scheduledFor = JStr at\<rparr> =
    Inr \<lparr>occurrence_serviceId = sid, occurrence_operation = op, scheduledFor = at\<rparr>"
proof -
  have "validateOperation (JStr (operation_string op)) = Inr op"
    using assms(2) by (auto simp: validateOperation_def operation_string_def)
  then show ?thesis
    using assms by (auto simp: create_Occurrence_def service_id_ok_def canonical_def)
qed

section \<open>The cursor\<close>

record ServiceAvailabilityReconciliationSchedulerCursor =
  completedThrough :: string

fun validateCompletedThrough :: "jsval \<Rightarrow> string result" where
  "validateCompletedThrough (JStr v) =
     (case date_parse v of
        None \<Rightarrow> Inl (ServiceAvailabilityReconciliationSchedulerCursorValidationError ''invalid_completed_through'')
      | Some t \<Rightarrow>
          if getUTCSeconds t \<noteq> 0 \<or> getUTCMilliseconds t \<noteq> 0
          then Inl (ServiceAvailabilityReconciliationSchedulerCursorValidationError ''invalid_completed_through'')
          else Inr v)"
| "validateCompletedThrough _ =
     Inl (ServiceAvailabilityReconciliationSchedulerCursorValidationError ''invalid_completed_through'')"

definition create_Cursor :: "jsval \<Rightarrow> ServiceAvailabilityReconciliationSchedulerCursor result" where
  "create_Cursor v = bindR (validateCompletedThrough v) (\<lambda>at. Inr \<lparr>completedThrough = at\<rparr>)"

fun isSameCursor ::
  "ServiceAvailabilityReconciliationSchedulerCursor option \<Rightarrow>
   ServiceAvailabilityReconciliationSchedulerCursor option \<Rightarrow> bool" where
  "isSameCursor (Some left) (Some right) = (completedThrough left = completedThrough right)"
| "isSameCursor left right = (left = right)"

lemma isSameCursor_eq: "isSameCursor a b \<longleftrightarrow> a = b"
  by (cases "(a, b)" rule: isSameCursor.cases) (auto simp: ServiceAvailabilityReconciliationSchedulerCursor.equality)

definition wf_cursor :: "ServiceAvailabilityReconciliationSchedulerCursor \<Rightarrow> bool" where
  "wf_cursor c \<longleftrightarrow> canonical (completedThrough c) \<and> aligned (time_of (completedThrough c))"

lemma create_Cursor_wf: "create_Cursor v = Inr c \<Longrightarrow> wf_cursor c"
  by (cases v) (auto simp: create_Cursor_def result_simps wf_cursor_def canonical_def time_of_def aligned_iff_utc
      split: option.splits if_splits)

lemma create_Cursor_iso:
  assumes "\<bar>t\<bar> \<le> max_time" and "aligned t"
  shows "create_Cursor (JStr (iso t)) = Inr \<lparr>completedThrough = iso t\<rparr>"
  using assms by (simp add: create_Cursor_def aligned_iff_utc)

end
