(* ===== verification/Stores.thy ===== *)
theory Stores
  imports Reconciliation_Domain "HOL-Library.AList"
begin

text \<open>
  The in-memory stores (\<open>service-management/infrastructure\<close>): the catalog of registered services,
  the stores of overrides and policies, the claims of occurrences, the scheduler cursor, and the
  catalog that applies stored policies. Each contract that the application layer relies on is a
  locale, interpreted on the store that provides it.
\<close>

section \<open>Contracts\<close>

text \<open>A store of one value per key.\<close>

locale keyed_store =
  fixes lookup :: "'k \<Rightarrow> 's \<Rightarrow> 'v option"
    and save :: "'k \<Rightarrow> 'v \<Rightarrow> 's \<Rightarrow> 's"
    and remove :: "'k \<Rightarrow> 's \<Rightarrow> 's"
  assumes lookup_save: "lookup k (save k' v s) = (if k = k' then Some v else lookup k s)"
    and lookup_remove: "lookup k (remove k' s) = (if k = k' then None else lookup k s)"
begin

lemma lookup_save_same [simp]: "lookup k (save k v s) = Some v"
  by (simp add: lookup_save)

lemma lookup_saves: "lookup k (fold (\<lambda>(k, v). save k v) kvs s) =
    (case map_of (rev kvs) k of Some v \<Rightarrow> Some v | None \<Rightarrow> lookup k s)"
  by (induction kvs arbitrary: s) (auto simp: lookup_save map_add_def split: option.splits)

lemma save_remove_other:
  "k \<noteq> k' \<Longrightarrow> lookup k (remove k' (save k v s)) = Some v \<and> lookup k' (remove k' (save k v s)) = None"
  by (simp add: lookup_save lookup_remove)

end

text \<open>
  A store that removes only what the caller has seen: between a read and a conditional removal
  another write may have come, and must not be lost.
\<close>

locale conditional_store = keyed_store lookup save remove
  for lookup :: "'k \<Rightarrow> 's \<Rightarrow> 'v option" and save :: "'k \<Rightarrow> 'v \<Rightarrow> 's \<Rightarrow> 's" and remove :: "'k \<Rightarrow> 's \<Rightarrow> 's" +
  fixes remove_if :: "'k \<Rightarrow> 'v \<Rightarrow> 's \<Rightarrow> bool \<times> 's"
  assumes remove_if: "remove_if k v s = (if lookup k s = Some v then (True, remove k s) else (False, s))"
begin

lemma lookup_remove_if:
  "lookup k' (snd (remove_if k v s)) = (if k' = k \<and> lookup k s = Some v then None else lookup k' s)"
  by (simp add: remove_if lookup_remove)

lemma remove_if_keeps_newer:
  "v' \<noteq> v \<Longrightarrow> remove_if k v (save k v' s) = (False, save k v' s)"
  by (simp add: remove_if lookup_save)

end

text \<open>
  A store of claims: a claim is granted to the first that asks, until it is pruned. \<open>covered c x\<close>
  says that pruning through \<open>c\<close> forgets \<open>x\<close>.
\<close>

locale claim_store =
  fixes valid :: "'s \<Rightarrow> bool"
    and claimed :: "'s \<Rightarrow> 'o \<Rightarrow> bool"
    and claim :: "'o \<Rightarrow> 's \<Rightarrow> bool \<times> 's"
    and prune :: "'c \<Rightarrow> 's \<Rightarrow> bool \<times> 's"
    and covered :: "'c \<Rightarrow> 'o \<Rightarrow> bool"
  assumes valid_claim: "valid s \<Longrightarrow> valid (snd (claim x s))"
    and valid_prune: "valid s \<Longrightarrow> valid (snd (prune c s))"
    and claim_granted: "valid s \<Longrightarrow> fst (claim x s) \<longleftrightarrow> \<not> claimed s x"
    and claimed_claim: "valid s \<Longrightarrow> claimed (snd (claim x s)) y \<longleftrightarrow> y = x \<or> claimed s y"
    and claimed_prune: "valid s \<Longrightarrow> claimed (snd (prune c s)) y \<longleftrightarrow> claimed s y \<and> \<not> covered c y"
    and prune_changed: "valid s \<Longrightarrow> fst (prune c s) \<longleftrightarrow> (\<exists>y. claimed s y \<and> covered c y)"
begin

text \<open>A history of calls, each a claim or a pruning, and the claims it grants, in order.\<close>

fun granted :: "('o + 'c) list \<Rightarrow> 's \<Rightarrow> 'o list" where
  "granted [] s = []"
| "granted (Inl x # calls) s = (if fst (claim x s) then [x] else []) @ granted calls (snd (claim x s))"
| "granted (Inr c # calls) s = granted calls (snd (prune c s))"

lemma granted_not_claimed:
  assumes "valid s" and "claimed s x" and "\<forall>c \<in> Inr -` set calls. \<not> covered c x"
  shows "x \<notin> set (granted calls s)"
  using assms
proof (induction calls s rule: granted.induct)
  case (2 y calls s)
  then show ?case by (auto simp: claim_granted claimed_claim valid_claim)
next
  case (3 c calls s)
  then show ?case by (auto simp: claimed_prune valid_prune)
qed simp

text \<open>As long as nothing that covers it is pruned, an occurrence is granted to one claimant.\<close>

lemma granted_once:
  assumes "valid s" and "\<forall>c \<in> Inr -` set calls. \<not> covered c x"
  shows "length (filter (\<lambda>y. y = x) (granted calls s)) \<le> 1"
  using assms
proof (induction calls s rule: granted.induct)
  case (2 y calls s)
  show ?case
  proof (cases "y = x")
    case True
    then have "x \<notin> set (granted calls (snd (claim y s)))"
      using granted_not_claimed[of "snd (claim y s)" x calls] 2(2,3) by (auto simp: claimed_claim valid_claim)
    then have "filter (\<lambda>y. y = x) (granted calls (snd (claim y s))) = []" by (auto simp: filter_empty_conv)
    then show ?thesis by simp
  next
    case False
    then show ?thesis using 2 by (simp add: valid_claim)
  qed
qed (simp_all add: valid_prune)

end

text \<open>
  A store of one cursor that is replaced by compare-and-set and only forwards. \<open>pos\<close> is the place
  of a cursor in their order.
\<close>

locale cursor_store =
  fixes read :: "'s \<Rightarrow> 'c option"
    and advance :: "'c option \<Rightarrow> 'c \<Rightarrow> 's \<Rightarrow> ('e + bool) \<times> 's"
    and pos :: "'c \<Rightarrow> 'p::linorder"
    and proper :: "'c \<Rightarrow> bool"
  assumes advance_success: "pred_option proper (read s) \<Longrightarrow> fst (advance expected next s) = Inr True \<longleftrightarrow>
      proper next \<and> read s = expected \<and> (case expected of None \<Rightarrow> True | Some c \<Rightarrow> pos c < pos next)"
    and advance_conflict: "pred_option proper (read s) \<Longrightarrow> proper next \<Longrightarrow>
      fst (advance expected next s) = Inr False \<longleftrightarrow> read s \<noteq> expected"
    and read_advance: "pred_option proper (read s) \<Longrightarrow> read (snd (advance expected next s)) =
      (if fst (advance expected next s) = Inr True then Some next else read s)"
begin

definition position_le :: "'c option \<Rightarrow> 'c option \<Rightarrow> bool" where
  "position_le a b \<longleftrightarrow> (case a of None \<Rightarrow> True | Some c \<Rightarrow> (case b of None \<Rightarrow> False | Some d \<Rightarrow> pos c \<le> pos d))"

lemma position_le_refl: "position_le a a"
  by (simp add: position_le_def split: option.splits)

lemma position_le_trans: "position_le a b \<Longrightarrow> position_le b c \<Longrightarrow> position_le a c"
  by (auto simp: position_le_def split: option.splits)

lemma advance_proper:
  "pred_option proper (read s) \<Longrightarrow> pred_option proper (read (snd (advance expected next s)))"
  using advance_success[of s expected "next"] by (simp add: read_advance)

lemma advance_forward:
  assumes "pred_option proper (read s)"
  shows "position_le (read s) (read (snd (advance expected next s)))"
proof (cases "fst (advance expected next s) = Inr True")
  case True
  then show ?thesis
    using advance_success[OF assms, of expected "next"] assms
    by (auto simp: read_advance position_le_def split: option.splits)
qed (simp add: read_advance assms position_le_refl)

lemma advances_forward:
  assumes "pred_option proper (read s)"
  shows "position_le (read s) (read (fold (\<lambda>(e, n) s. snd (advance e n s)) calls s))"
  using assms
proof (induction calls arbitrary: s)
  case (Cons a calls)
  obtain e n where a: "a = (e, n)" by (cases a)
  have "position_le (read s) (read (snd (advance e n s)))" by (rule advance_forward[OF Cons.prems])
  then show ?case
    using Cons.IH[of "snd (advance e n s)"] advance_proper[OF Cons.prems] position_le_trans by (simp add: a)
qed (simp add: position_le_refl)

lemma one_of_two_advances:
  assumes "pred_option proper (read s)" and "fst (advance expected n1 s) = Inr True"
    and "fst (advance expected n2 (snd (advance expected n1 s))) = Inr True"
  shows "False"
proof -
  have "Some n1 = expected"
    using advance_success[OF advance_proper[OF assms(1), of expected n1], of expected n2] assms by (simp add: read_advance)
  then show ?thesis using assms advance_success[of s expected n1] by auto
qed

end

section \<open>The catalog\<close>

text \<open>
  The catalog is a list of services whose ids are distinct and whose external resources are
  distinct per adapter. \<open>resources\<close> is the map from adapters to the resources seen; the elements
  have the class's type already, so the check \<open>instanceof\<close> passes.
\<close>

type_synonym InMemoryRegisteredServiceCatalog = "RegisteredService list"

fun validateServices ::
  "RegisteredService list \<Rightarrow> string list \<Rightarrow> (ServiceManagementAdapter \<Rightarrow> string list) \<Rightarrow> unit result" where
  "validateServices [] ids resources = Inr ()"
| "validateServices (service # services) ids resources =
     (if service_id service \<in> set ids then Inl (RegisteredServiceCatalogError ''duplicate_service_id'')
      else let adapterResources = resources (managementAdapter service) in
        if externalResourceId service \<in> set adapterResources
        then Inl (RegisteredServiceCatalogError ''duplicate_external_resource'')
        else validateServices services (service_id service # ids)
               (resources(managementAdapter service := externalResourceId service # adapterResources)))"

definition create_Catalog :: "RegisteredService list \<Rightarrow> InMemoryRegisteredServiceCatalog result" where
  "create_Catalog services = bindR (validateServices services [] (\<lambda>_. [])) (\<lambda>_. Inr services)"

definition catalog_findById :: "InMemoryRegisteredServiceCatalog \<Rightarrow> string \<Rightarrow> RegisteredService option" where
  "catalog_findById services sid = find (\<lambda>service. service_id service = sid) services"

definition resource_key :: "RegisteredService \<Rightarrow> ServiceManagementAdapter \<times> string" where
  "resource_key s = (managementAdapter s, externalResourceId s)"

lemma validateServices_Inr:
  "validateServices services ids resources = Inr () \<longleftrightarrow>
     distinct (map service_id services) \<and> set (map service_id services) \<inter> set ids = {} \<and>
     distinct (map resource_key services) \<and>
     (\<forall>s \<in> set services. externalResourceId s \<notin> set (resources (managementAdapter s)))"
proof (induction services ids resources rule: validateServices.induct)
  case (2 service services ids resources)
  let ?upd = "resources(managementAdapter service :=
    externalResourceId service # resources (managementAdapter service))"
  have "externalResourceId s \<notin> set (?upd (managementAdapter s)) \<longleftrightarrow>
      resource_key service \<noteq> resource_key s \<and> externalResourceId s \<notin> set (resources (managementAdapter s))" for s
    by (cases "managementAdapter s = managementAdapter service") (auto simp: resource_key_def)
  then have key: "(\<forall>s \<in> set services. externalResourceId s \<notin> set (?upd (managementAdapter s))) \<longleftrightarrow>
      resource_key service \<notin> resource_key ` set services \<and>
      (\<forall>s \<in> set services. externalResourceId s \<notin> set (resources (managementAdapter s)))"
    by (simp only: image_iff) blast
  show ?case
  proof (cases "service_id service \<in> set ids \<or>
      externalResourceId service \<in> set (resources (managementAdapter service))")
    case True
    then show ?thesis by (auto simp: Let_def)
  next
    case False
    then have "validateServices (service # services) ids resources = Inr () \<longleftrightarrow>
        validateServices services (service_id service # ids) ?upd = Inr ()" by (simp add: Let_def)
    also have "\<dots> \<longleftrightarrow> distinct (map service_id services) \<and>
        set (map service_id services) \<inter> set (service_id service # ids) = {} \<and>
        distinct (map resource_key services) \<and>
        (\<forall>s \<in> set services. externalResourceId s \<notin> set (?upd (managementAdapter s)))"
      by (rule 2) (use False in simp_all)
    finally have step: "validateServices (service # services) ids resources = Inr () \<longleftrightarrow>
        distinct (map service_id services) \<and>
        set (map service_id services) \<inter> set (service_id service # ids) = {} \<and>
        distinct (map resource_key services) \<and> resource_key service \<notin> resource_key ` set services \<and>
        (\<forall>s \<in> set services. externalResourceId s \<notin> set (resources (managementAdapter s)))"
      by (simp only: key)
    show ?thesis unfolding step using False by (simp add: conj_ac)
  qed
qed simp

lemma create_Catalog_Inr:
  "create_Catalog services = Inr c \<longleftrightarrow>
     c = services \<and> distinct (map service_id services) \<and> distinct (map resource_key services)"
  by (auto simp: create_Catalog_def result_simps validateServices_Inr)

lemma find_distinct_key:
  "distinct (map f xs) \<Longrightarrow> x \<in> set xs \<Longrightarrow> find (\<lambda>y. f y = f x) xs = Some x"
  by (induction xs) auto

lemma catalog_findById_iff:
  assumes "create_Catalog services = Inr c"
  shows "catalog_findById c sid = Some s \<longleftrightarrow> s \<in> set services \<and> service_id s = sid"
  using assms find_distinct_key[of service_id services s]
  by (auto simp: create_Catalog_Inr catalog_findById_def dest: find_SomeD)

section \<open>Overrides and policies\<close>

type_synonym override_store = "string \<rightharpoonup> ServiceAvailabilityOverride"

definition override_findByServiceId :: "string \<Rightarrow> override_store \<Rightarrow> ServiceAvailabilityOverride option" where
  "override_findByServiceId sid overrides = overrides sid"

definition override_save :: "string \<Rightarrow> ServiceAvailabilityOverride \<Rightarrow> override_store \<Rightarrow> override_store" where
  "override_save sid ov overrides = overrides(sid \<mapsto> ov)"

definition override_removeByServiceId :: "string \<Rightarrow> override_store \<Rightarrow> override_store" where
  "override_removeByServiceId sid overrides = overrides(sid := None)"

text \<open>The Boolean is whether the override was removed.\<close>

definition override_removeByServiceIdIfMatches ::
  "string \<Rightarrow> ServiceAvailabilityOverride \<Rightarrow> override_store \<Rightarrow> bool \<times> override_store" where
  "override_removeByServiceIdIfMatches sid expected overrides =
     (case overrides sid of
        None \<Rightarrow> (False, overrides)
      | Some current \<Rightarrow>
          if \<not> isSameServiceAvailabilityOverride current expected then (False, overrides)
          else (True, overrides(sid := None)))"

lemma isSameOverride_eq: "isSameServiceAvailabilityOverride a b \<longleftrightarrow> a = b"
  by (cases a; cases b) (simp add: isSameServiceAvailabilityOverride_def)

interpretation ovs: conditional_store override_findByServiceId override_save override_removeByServiceId
  override_removeByServiceIdIfMatches
  by unfold_locales
    (auto simp: override_findByServiceId_def override_save_def override_removeByServiceId_def
      override_removeByServiceIdIfMatches_def isSameOverride_eq split: option.splits)

type_synonym policy_store = "string \<rightharpoonup> ServiceAvailabilityPolicy"

definition policy_findByServiceId :: "string \<Rightarrow> policy_store \<Rightarrow> ServiceAvailabilityPolicy option" where
  "policy_findByServiceId sid policies = policies sid"

fun policy_findByServiceIds :: "string list \<Rightarrow> policy_store \<Rightarrow> policy_store \<Rightarrow> policy_store" where
  "policy_findByServiceIds [] found policies = found"
| "policy_findByServiceIds (sid # ids) found policies =
     policy_findByServiceIds ids
       (case policies sid of None \<Rightarrow> found | Some policy \<Rightarrow> found(sid \<mapsto> policy)) policies"

definition policy_save :: "string \<Rightarrow> ServiceAvailabilityPolicy \<Rightarrow> policy_store \<Rightarrow> policy_store" where
  "policy_save sid policy policies = policies(sid \<mapsto> policy)"

definition policy_removeByServiceId :: "string \<Rightarrow> policy_store \<Rightarrow> policy_store" where
  "policy_removeByServiceId sid policies = policies(sid := None)"

interpretation ps: keyed_store policy_findByServiceId policy_save policy_removeByServiceId
  by unfold_locales (auto simp: policy_findByServiceId_def policy_save_def policy_removeByServiceId_def)

lemma policy_findByServiceIds:
  "policy_findByServiceIds ids found policies sid =
     (if sid \<in> set ids \<and> policies sid \<noteq> None then policies sid else found sid)"
  by (induction ids arbitrary: found) (auto split: option.splits)

section \<open>The catalog with stored policies\<close>

definition apply_policy ::
  "RegisteredService \<Rightarrow> ServiceAvailabilityPolicy option \<Rightarrow> RegisteredService result" where
  "apply_policy service policy =
     (case policy of None \<Rightarrow> Inr service
      | Some p \<Rightarrow> withRegisteredServiceAvailabilityPolicy service p)"

definition policy_aware_list ::
  "InMemoryRegisteredServiceCatalog \<Rightarrow> policy_store \<Rightarrow> RegisteredService list result" where
  "policy_aware_list services policies =
     (let stored = policy_findByServiceIds (map service_id services) Map.empty policies in
      mapR (\<lambda>service. apply_policy service (stored (service_id service))) services)"

definition policy_aware_findById ::
  "InMemoryRegisteredServiceCatalog \<Rightarrow> policy_store \<Rightarrow> string \<Rightarrow> RegisteredService option result" where
  "policy_aware_findById services policies sid =
     (case catalog_findById services sid of
        None \<Rightarrow> Inr None
      | Some service \<Rightarrow>
          bindR (apply_policy service (policy_findByServiceId (service_id service) policies)) (\<lambda>s. Inr (Some s)))"

lemma apply_policy_id: "apply_policy s p = Inr s' \<Longrightarrow> service_id s' = service_id s"
  using create_RegisteredService_parts(1)
  by (fastforce simp: apply_policy_def withRegisteredServiceAvailabilityPolicy_def validateServiceId_def
      split: option.splits if_splits)

lemma find_mapR:
  assumes "mapR f xs = Inr ys" and "\<And>x y. f x = Inr y \<Longrightarrow> k y = k x"
  shows "(case find (\<lambda>x. k x = i) xs of None \<Rightarrow> Inr None | Some x \<Rightarrow> bindR (f x) (\<lambda>y. Inr (Some y))) =
    Inr (find (\<lambda>y. k y = i) ys)"
  using assms(1)
proof (induction xs arbitrary: ys)
  case (Cons x xs)
  then obtain y ys' where "f x = Inr y" "mapR f xs = Inr ys'" "ys = y # ys'" by (auto simp: result_simps)
  then show ?case using Cons.IH assms(2) by auto
qed simp

section \<open>Claims of occurrences\<close>

text \<open>
  The claims are a map from service ids to maps from operations to sets of instants, as lists in
  the order of insertion. The Boolean results are \<open>claimed\<close> (against \<open>duplicate\<close>) and
  \<open>pruned\<close> (against \<open>unchanged\<close>).
\<close>

type_synonym claims = "(string \<times> (SupportedServiceOperation \<times> string list) list) list"

definition claims_get :: "('k \<times> 'v list) list \<Rightarrow> 'k \<Rightarrow> 'v list" where
  "claims_get m k = (case map_of m k of None \<Rightarrow> [] | Some v \<Rightarrow> v)"

definition claim_occurrence :: "ServiceAvailabilityReconciliationOccurrence \<Rightarrow> claims \<Rightarrow> bool \<times> claims" where
  "claim_occurrence oc claims =
     (let claimsByOperation = claims_get claims (occurrence_serviceId oc);
          scheduledInstants = claims_get claimsByOperation (occurrence_operation oc);
          store = (\<lambda>instants. AList.update (occurrence_serviceId oc)
                    (AList.update (occurrence_operation oc) instants claimsByOperation) claims) in
      if scheduledFor oc \<in> set scheduledInstants then (False, store scheduledInstants)
      else (True, store (scheduledInstants @ [scheduledFor oc])))"

definition map_values :: "('v \<Rightarrow> 'v) \<Rightarrow> ('k \<times> 'v) list \<Rightarrow> ('k \<times> 'v) list" where
  "map_values f m = map (\<lambda>(k, v). (k, f v)) m"

definition drop_empty :: "('k \<times> 'v list) list \<Rightarrow> ('k \<times> 'v list) list" where
  "drop_empty m = filter (\<lambda>(_, v). v \<noteq> []) m"

definition prune_operation ::
  "string \<Rightarrow> (SupportedServiceOperation \<times> string list) list \<Rightarrow> (SupportedServiceOperation \<times> string list) list" where
  "prune_operation through byOperation =
     drop_empty (map_values (filter (\<lambda>at. \<not> at \<le> through)) byOperation)"

definition pruneCompletedThrough ::
  "ServiceAvailabilityReconciliationSchedulerCursor \<Rightarrow> claims \<Rightarrow> bool \<times> claims" where
  "pruneCompletedThrough cursor claims =
     (list_ex (\<lambda>(_, byOperation). list_ex (\<lambda>(_, instants). list_ex (\<lambda>at. at \<le> completedThrough cursor) instants)
        byOperation) claims,
      drop_empty (map_values (prune_operation (completedThrough cursor)) claims))"

text \<open>The keys of a JavaScript map are distinct.\<close>

definition wf_claims :: "claims \<Rightarrow> bool" where
  "wf_claims claims \<longleftrightarrow>
     distinct (map fst claims) \<and> list_all (\<lambda>(_, byOperation). distinct (map fst byOperation)) claims"

definition is_claimed :: "claims \<Rightarrow> ServiceAvailabilityReconciliationOccurrence \<Rightarrow> bool" where
  "is_claimed claims oc \<longleftrightarrow>
     scheduledFor oc \<in> set (claims_get (claims_get claims (occurrence_serviceId oc)) (occurrence_operation oc))"

lemma claims_get_update [simp]:
  "claims_get (AList.update k v m) k' = (if k' = k then v else claims_get m k')"
  by (simp add: claims_get_def update_conv')

lemma map_of_map_values: "map_of (map_values f m) k = map_option f (map_of m k)"
  by (induction m) (auto simp: map_values_def)

lemma claims_get_drop_empty: "distinct (map fst m) \<Longrightarrow> claims_get (drop_empty m) k = claims_get m k"
  by (induction m)
    (auto simp: drop_empty_def claims_get_def map_of_eq_None_iff[THEN iffD2] image_iff split: option.splits)

lemma claims_get_map_values: "f [] = [] \<Longrightarrow> claims_get (map_values f m) k = f (claims_get m k)"
  by (simp add: claims_get_def map_of_map_values split: option.splits)

lemma keys_map_values [simp]: "map fst (map_values f m) = map fst m"
  by (induction m) (auto simp: map_values_def)

lemma keys_drop_empty: "distinct (map fst m) \<Longrightarrow> distinct (map fst (drop_empty m))"
  by (induction m) (auto simp: drop_empty_def image_iff)

lemma claims_get_prune_operation:
  "distinct (map fst m) \<Longrightarrow>
     claims_get (prune_operation through m) op = filter (\<lambda>at. \<not> at \<le> through) (claims_get m op)"
  by (simp add: prune_operation_def claims_get_drop_empty claims_get_map_values)

lemma distinct_prune_operation: "distinct (map fst m) \<Longrightarrow> distinct (map fst (prune_operation through m))"
  by (simp add: prune_operation_def keys_drop_empty)

lemma wf_claims_get: "wf_claims claims \<Longrightarrow> distinct (map fst (claims_get claims sid))"
  by (auto simp: wf_claims_def claims_get_def list_all_iff dest: map_of_SomeD split: option.splits)

lemma prune_operation_Nil: "prune_operation through [] = []"
  by (simp add: prune_operation_def map_values_def drop_empty_def)

lemma claims_get_pruned:
  assumes "wf_claims claims"
  shows "claims_get (claims_get (snd (pruneCompletedThrough cursor claims)) sid) op =
    filter (\<lambda>at. \<not> at \<le> completedThrough cursor) (claims_get (claims_get claims sid) op)"
proof -
  have "claims_get (snd (pruneCompletedThrough cursor claims)) sid =
      prune_operation (completedThrough cursor) (claims_get claims sid)"
    using assms
    by (simp add: pruneCompletedThrough_def claims_get_drop_empty claims_get_map_values wf_claims_def
        prune_operation_Nil)
  then show ?thesis using claims_get_prune_operation[OF wf_claims_get[OF assms]] by simp
qed

lemma set_drop_empty: "set (drop_empty m) \<subseteq> set m"
  by (auto simp: drop_empty_def)

lemma wf_claims_pruned:
  assumes "wf_claims claims"
  shows "wf_claims (snd (pruneCompletedThrough cursor claims))"
proof -
  let ?m = "map_values (prune_operation (completedThrough cursor)) claims"
  have "distinct (map fst (drop_empty ?m))" using assms by (intro keys_drop_empty) (simp add: wf_claims_def)
  moreover have "list_all (\<lambda>(_, byOperation). distinct (map fst byOperation)) ?m"
    using assms by (auto simp: wf_claims_def list_all_iff map_values_def distinct_prune_operation)
  then have "list_all (\<lambda>(_, byOperation). distinct (map fst byOperation)) (drop_empty ?m)"
    using set_drop_empty[of ?m] by (auto simp: list_all_iff)
  ultimately show ?thesis by (simp add: wf_claims_def pruneCompletedThrough_def)
qed

lemma set_update: "set (AList.update k v m) \<subseteq> insert (k, v) (set m)"
  by (induction m) auto

lemma wf_claims_update:
  "wf_claims claims \<Longrightarrow> distinct (map fst m) \<Longrightarrow> wf_claims (AList.update sid m claims)"
  using set_update[of sid m claims] by (fastforce simp: wf_claims_def list_all_iff distinct_update)

lemma map_of_claims: "distinct (map fst m) \<Longrightarrow> (k, v) \<in> set m \<Longrightarrow> claims_get m k = v"
  by (simp add: claims_get_def)

lemma in_claims_get: "x \<in> set (claims_get m k) \<Longrightarrow> \<exists>v. (k, v) \<in> set m \<and> x \<in> set v"
  by (cases "map_of m k") (auto simp: claims_get_def dest: map_of_SomeD)

lemma pruned_flag:
  assumes "wf_claims claims"
  shows "fst (pruneCompletedThrough cursor claims) \<longleftrightarrow>
    (\<exists>oc. is_claimed claims oc \<and> scheduledFor oc \<le> completedThrough cursor)" (is "?l \<longleftrightarrow> ?r")
proof
  assume ?l
  then obtain sid m op ts at where "(sid, m) \<in> set claims" "(op, ts) \<in> set m" "at \<in> set ts" "at \<le> completedThrough cursor"
    by (auto simp: pruneCompletedThrough_def list_ex_iff)
  moreover from this have "claims_get claims sid = m" "claims_get m op = ts"
    using assms by (auto simp: wf_claims_def list_all_iff intro!: map_of_claims)
  ultimately have "is_claimed claims \<lparr>occurrence_serviceId = sid, occurrence_operation = op, scheduledFor = at\<rparr>"
    by (simp add: is_claimed_def)
  then show ?r using \<open>at \<le> completedThrough cursor\<close>
    by (intro exI[of _ "\<lparr>occurrence_serviceId = sid, occurrence_operation = op, scheduledFor = at\<rparr>"]) simp
next
  assume ?r
  then show ?l
    by (auto simp: pruneCompletedThrough_def is_claimed_def list_ex_iff dest!: in_claims_get) fastforce
qed

interpretation cs: claim_store wf_claims is_claimed claim_occurrence pruneCompletedThrough
  "\<lambda>cursor oc. scheduledFor oc \<le> completedThrough cursor"
proof
  fix claims :: claims and x y :: ServiceAvailabilityReconciliationOccurrence
    and c :: ServiceAvailabilityReconciliationSchedulerCursor
  assume wf: "wf_claims claims"
  show "wf_claims (snd (claim_occurrence x claims))"
    using wf by (auto simp: claim_occurrence_def Let_def intro!: wf_claims_update distinct_update wf_claims_get)
  show "wf_claims (snd (pruneCompletedThrough c claims))" by (rule wf_claims_pruned[OF wf])
  show "fst (claim_occurrence x claims) \<longleftrightarrow> \<not> is_claimed claims x"
    by (simp add: claim_occurrence_def is_claimed_def Let_def)
  show "is_claimed (snd (claim_occurrence x claims)) y \<longleftrightarrow> y = x \<or> is_claimed claims y"
    by (cases x; cases y) (auto simp: claim_occurrence_def is_claimed_def Let_def)
  show "is_claimed (snd (pruneCompletedThrough c claims)) y \<longleftrightarrow>
      is_claimed claims y \<and> \<not> scheduledFor y \<le> completedThrough c"
    using wf by (auto simp: is_claimed_def claims_get_pruned)
  show "fst (pruneCompletedThrough c claims) \<longleftrightarrow> (\<exists>y. is_claimed claims y \<and> scheduledFor y \<le> completedThrough c)"
    by (rule pruned_flag[OF wf])
qed

section \<open>The scheduler cursor\<close>

type_synonym cursor_state = "ServiceAvailabilityReconciliationSchedulerCursor option"

text \<open>The Boolean is \<open>advanced\<close> against \<open>conflict\<close>; both results carry the cursor the store then holds.\<close>

definition advance_cursor ::
  "ServiceAvailabilityReconciliationSchedulerCursor option \<Rightarrow> ServiceAvailabilityReconciliationSchedulerCursor \<Rightarrow>
     cursor_state \<Rightarrow> bool result \<times> cursor_state" where
  "advance_cursor expected next cursor =
     (if \<not> isSameCursor expected cursor then (Inr False, cursor)
      else if (case cursor of None \<Rightarrow> False | Some c \<Rightarrow> completedThrough next \<le> completedThrough c)
      then (Inl (ServiceAvailabilityReconciliationSchedulerCursorStoreError ''non_forward_cursor''), cursor)
      else (Inr True, Some next))"

interpretation cur: cursor_store "\<lambda>c. c" advance_cursor completedThrough "\<lambda>_. True"
  by unfold_locales (auto simp: advance_cursor_def isSameCursor_eq split: option.splits)

lemma proper_cursor [simp]: "pred_option (\<lambda>_. True) c"
  by (cases c) simp_all

section \<open>Properties\<close>

text \<open>
  The catalog that applies stored policies answers a lookup with exactly the service it lists
  under that id: applying the policies one by one and in one batch is the same, the ids and their
  order are those of the source catalog, and a service with a stored policy has that policy.
\<close>

theorem policy_aware_catalog_agrees:
  assumes "create_Catalog services = Inr c" and "policy_aware_list c policies = Inr listed"
  shows "map service_id listed = map service_id services \<and>
    policy_aware_findById c policies sid = Inr (find (\<lambda>s. service_id s = sid) listed) \<and>
    (\<forall>s \<in> set listed. \<forall>p. policies (service_id s) = Some p \<longrightarrow> wf_policy p \<longrightarrow> availabilityPolicy s = p)"
proof -
  let ?f = "\<lambda>service. apply_policy service (policies (service_id service))"
  have stored: "policy_findByServiceIds (map service_id c) Map.empty policies (service_id s) = policies (service_id s)"
    if "s \<in> set c" for s
    using that by (auto simp: policy_findByServiceIds)
  have "mapR (\<lambda>s. apply_policy s (policy_findByServiceIds (map service_id c) Map.empty policies (service_id s))) c =
      mapR ?f c"
    by (rule mapR_cong) (simp add: stored)
  then have m: "mapR ?f c = Inr listed" using assms(2) by (simp add: policy_aware_list_def Let_def)
  have c: "c = services" using assms(1) by (simp add: create_Catalog_Inr)
  have "map service_id listed = map service_id c"
    using m by (auto simp: mapR_eq_Inr list_all2_conv_all_nth apply_policy_id intro!: nth_equalityI)
  moreover have "policy_aware_findById c policies sid = Inr (find (\<lambda>s. service_id s = sid) listed)"
    unfolding policy_aware_findById_def catalog_findById_def policy_findByServiceId_def
    by (rule find_mapR[OF m]) (rule apply_policy_id)
  moreover have "availabilityPolicy s = p"
    if s: "s \<in> set listed" and p: "policies (service_id s) = Some p" "wf_policy p" for s p
  proof -
    obtain s0 where s0: "?f s0 = Inr s" using mapR_set[OF m s] by blast
    then have "withRegisteredServiceAvailabilityPolicy s0 p = Inr s"
      using apply_policy_id[OF s0] p(1) by (simp add: apply_policy_def)
    then have "validateAvailabilityPolicy (serializeAvailabilityPolicy p) = Inr (availabilityPolicy s)"
      using create_RegisteredService_parts(5) by (fastforce simp: withRegisteredServiceAvailabilityPolicy_def)
    then show ?thesis using validateAvailabilityPolicy_again[OF p(2)] by simp
  qed
  ultimately show ?thesis using c by blast
qed

theorem policy_aware_catalog_agrees_witness:
  "policy_aware_findById [sample_service] [service_id sample_service \<mapsto> ManualPolicy] (service_id sample_service) =
     Inr (Some (sample_service\<lparr>availabilityPolicy := ManualPolicy\<rparr>))"
proof -
  have l: "policy_aware_list [sample_service] [service_id sample_service \<mapsto> ManualPolicy] =
      Inr [sample_service\<lparr>availabilityPolicy := ManualPolicy\<rparr>]" by code_simp
  have "create_Catalog [sample_service] = Inr [sample_service]" by code_simp
  from policy_aware_catalog_agrees[OF this l, of "service_id sample_service"] show ?thesis by simp
qed

text \<open>
  Whatever sequence of attempts to advance it, the scheduler cursor never moves back, and of two
  attempts that expect the same cursor at most one succeeds.
\<close>

theorem cursor_only_forward:
  "(case cursor of None \<Rightarrow> True | Some c \<Rightarrow>
      (case fold (\<lambda>(expected, next) s. snd (advance_cursor expected next s)) calls cursor of
         None \<Rightarrow> False | Some d \<Rightarrow> completedThrough c \<le> completedThrough d)) \<and>
   \<not> (fst (advance_cursor expected a cursor) = Inr True \<and>
      fst (advance_cursor expected b (snd (advance_cursor expected a cursor))) = Inr True)"
proof (rule conjI)
  show "case cursor of None \<Rightarrow> True | Some c \<Rightarrow>
      (case fold (\<lambda>(expected, next) s. snd (advance_cursor expected next s)) calls cursor of
         None \<Rightarrow> False | Some d \<Rightarrow> completedThrough c \<le> completedThrough d)"
    using cur.advances_forward[of cursor calls] by (simp add: cur.position_le_def)
  show "\<not> (fst (advance_cursor expected a cursor) = Inr True \<and>
      fst (advance_cursor expected b (snd (advance_cursor expected a cursor))) = Inr True)"
    using cur.one_of_two_advances[of cursor expected a b] by auto
qed

end
