(* ===== verification/Reconciliation.thy ===== *)
theory Reconciliation
  imports Stores Orchestration "HOL-Library.Multiset"
begin

text \<open>
  Availability reconciliation (\<open>service-management/application\<close>): planning and executing what a
  service needs, generating the occurrences of scheduled transitions, the tick that executes them
  in dependency order, the scheduler cycle around it, the pruning of overrides and claims, and
  the operations on overrides and policies. Everything outside is a port over a world of any type;
  the last sections run the cycle on the in-memory stores.
\<close>

section \<open>Ports\<close>

record 'w ReconciliationPorts =
  rc_findById :: "string \<Rightarrow> ('w, RegisteredService option) io"
  rc_list :: "('w, RegisteredService list) io"
  rc_getGraph :: "('w, RegisteredServiceDependencyGraph) io"
  rc_now :: "('w, int option) io"
  rc_status :: "RegisteredService \<Rightarrow> ('w, ServiceRuntimeState) io"
  rc_orchestrate :: "string \<Rightarrow> SupportedServiceOperation \<Rightarrow> OrchestrationAuthority \<Rightarrow> ('w, OrchestrationResult) io"
  rc_findOverride :: "string \<Rightarrow> ('w, ServiceAvailabilityOverride option) io"
  rc_saveOverride :: "string \<Rightarrow> ServiceAvailabilityOverride \<Rightarrow> ('w, unit) io"
  rc_removeOverride :: "string \<Rightarrow> ('w, unit) io"
  rc_removeOverrideIfMatches :: "string \<Rightarrow> ServiceAvailabilityOverride \<Rightarrow> ('w, bool) io"
  rc_savePolicy :: "string \<Rightarrow> ServiceAvailabilityPolicy \<Rightarrow> ('w, unit) io"
  rc_removePolicy :: "string \<Rightarrow> ('w, unit) io"
  rc_claim :: "ServiceAvailabilityReconciliationOccurrence \<Rightarrow> ('w, bool) io"
  rc_pruneClaims :: "ServiceAvailabilityReconciliationSchedulerCursor \<Rightarrow> ('w, bool) io"
  rc_readCursor :: "('w, ServiceAvailabilityReconciliationSchedulerCursor option) io"
  rc_advanceCursor :: "ServiceAvailabilityReconciliationSchedulerCursor option \<Rightarrow>
     ServiceAvailabilityReconciliationSchedulerCursor \<Rightarrow>
     ('w, bool \<times> ServiceAvailabilityReconciliationSchedulerCursor option) io"

definition with_service ::
  "'w ReconciliationPorts \<Rightarrow> string \<Rightarrow> (RegisteredService \<Rightarrow> ('w, 'a) io) \<Rightarrow> ('w, 'a) io" where
  "with_service ports sid f =
     bindIO (rc_findById ports sid) (\<lambda>found.
     case found of None \<Rightarrow> throwIO RegisteredServiceNotFoundError | Some service \<Rightarrow> f service)"

section \<open>Overrides, policies and effective availability\<close>

definition SetOverride_execute ::
  "'w ReconciliationPorts \<Rightarrow> string \<Rightarrow> jsval \<Rightarrow> ('w, ServiceAvailabilityOverride) io" where
  "SetOverride_execute ports sid overrideInput =
     with_service ports sid (\<lambda>service.
     bindIO (rc_now ports) (\<lambda>referenceInstant.
     bindIO (liftIO (createServiceAvailabilityOverride overrideInput (JDate referenceInstant))) (\<lambda>ov.
     bindIO (rc_saveOverride ports (service_id service) ov) (\<lambda>_. retIO ov))))"

definition CancelOverride_execute :: "'w ReconciliationPorts \<Rightarrow> string \<Rightarrow> ('w, unit) io" where
  "CancelOverride_execute ports sid =
     with_service ports sid (\<lambda>service. rc_removeOverride ports (service_id service))"

definition UpdatePolicy_execute ::
  "'w ReconciliationPorts \<Rightarrow> string \<Rightarrow> jsval \<Rightarrow> ('w, ServiceAvailabilityPolicy) io" where
  "UpdatePolicy_execute ports sid input =
     with_service ports sid (\<lambda>service.
     bindIO (liftIO (createServiceAvailabilityPolicy input)) (\<lambda>policy.
     bindIO (rc_savePolicy ports (service_id service) policy) (\<lambda>_. retIO policy)))"

definition RemovePolicy_execute :: "'w ReconciliationPorts \<Rightarrow> string \<Rightarrow> ('w, unit) io" where
  "RemovePolicy_execute ports sid =
     with_service ports sid (\<lambda>service. rc_removePolicy ports (service_id service))"

definition resolve_availability ::
  "formatter \<Rightarrow> 'w ReconciliationPorts \<Rightarrow> string \<Rightarrow>
     ('w, ServiceAvailabilityExpectation \<times> ServiceAvailabilityOverride option) io" where
  "resolve_availability fmt ports sid =
     with_service ports sid (\<lambda>service.
     bindIO (rc_findOverride ports (service_id service)) (\<lambda>ov.
     bindIO (rc_now ports) (\<lambda>evaluationInstant.
     bindIO (liftIO (evaluateServiceAvailabilityWithOverride fmt (availabilityPolicy service) ov
                       (JDate evaluationInstant))) (\<lambda>expectation.
     bindIO (case ov of
               None \<Rightarrow> retIO None
             | Some o' \<Rightarrow> bindIO (liftIO (isServiceAvailabilityOverrideExpiredAt o' (JDate evaluationInstant)))
                           (\<lambda>expired. retIO (if \<not> expired then Some o' else None))) (\<lambda>activeOverride.
     retIO (expectation, activeOverride))))))"

definition GetEffectiveAvailability_execute ::
  "formatter \<Rightarrow> 'w ReconciliationPorts \<Rightarrow> string \<Rightarrow> ('w, ServiceAvailabilityExpectation) io" where
  "GetEffectiveAvailability_execute fmt ports sid =
     bindIO (resolve_availability fmt ports sid) (\<lambda>(expectation, _). retIO expectation)"

section \<open>Planning and executing\<close>

definition PlanReconciliation_execute ::
  "formatter \<Rightarrow> 'w ReconciliationPorts \<Rightarrow> string \<Rightarrow> ('w, ServiceAvailabilityReconciliationDecision) io" where
  "PlanReconciliation_execute fmt ports sid =
     with_service ports sid (\<lambda>service.
     bindIO (rc_findOverride ports (service_id service)) (\<lambda>ov.
     bindIO (rc_status ports service) (\<lambda>runtimeState.
     bindIO (rc_now ports) (\<lambda>reconciliationInstant.
     bindIO (liftIO (evaluateServiceAvailabilityWithOverride fmt (availabilityPolicy service) ov
                       (JDate reconciliationInstant))) (\<lambda>expectation.
     liftIO (decideServiceAvailabilityReconciliation (JStr (expectation_string expectation))
               (JStr (runtime_string runtimeState))))))))"

text \<open>\<open>ExecuteRegisteredServiceAvailabilityReconciliation\<close>: \<^const>\<open>None\<close> is the result \<open>none\<close>.\<close>

definition ExecuteReconciliation_execute ::
  "formatter \<Rightarrow> 'w ReconciliationPorts \<Rightarrow>
     (string \<Rightarrow> SupportedServiceOperation \<Rightarrow> ('w, RegisteredServiceControlResult) io) \<Rightarrow> string \<Rightarrow>
     ('w, RegisteredServiceControlResult option) io" where
  "ExecuteReconciliation_execute fmt ports control_service sid =
     bindIO (PlanReconciliation_execute fmt ports sid) (\<lambda>decision.
     case decision of
       NoDecision \<Rightarrow> retIO None
     | ExecuteDecision operation \<Rightarrow>
         bindIO (control_service sid operation) (\<lambda>controlResult. retIO (Some controlResult)))"

datatype ExecuteOccurrenceResult =
    OccurrenceNone
  | OccurrenceDuplicate
  | OccurrenceExecuted OrchestrationResult

definition ExecuteOccurrence_execute ::
  "formatter \<Rightarrow> 'w ReconciliationPorts \<Rightarrow> ServiceAvailabilityReconciliationOccurrence \<Rightarrow>
     ('w, ExecuteOccurrenceResult) io" where
  "ExecuteOccurrence_execute fmt ports oc =
     bindIO (PlanReconciliation_execute fmt ports (occurrence_serviceId oc)) (\<lambda>decision.
     if decision \<noteq> ExecuteDecision (occurrence_operation oc) then retIO OccurrenceNone
     else bindIO (rc_claim ports oc) (\<lambda>claimed.
          if \<not> claimed then retIO OccurrenceDuplicate
          else bindIO (rc_orchestrate ports (occurrence_serviceId oc) (occurrence_operation oc) scheduled_authority)
                 (\<lambda>orchestrationResult.
               if \<not> successful orchestrationResult then throwIO (PlainError ''Orchestration failed'')
               else retIO (OccurrenceExecuted orchestrationResult))))"

section \<open>Generating occurrences\<close>

definition mapTransitionToOperation :: "TransitionKind \<Rightarrow> SupportedServiceOperation" where
  "mapTransitionToOperation k = (if k = became_available then start else stop)"

definition occurrence_of ::
  "RegisteredService \<Rightarrow> ServiceAvailabilityPolicyTransition \<Rightarrow> ServiceAvailabilityReconciliationOccurrence result" where
  "occurrence_of service transition = create_Occurrence
     \<lparr>input_serviceId = JStr (service_id service),
      input_operation = JStr (operation_string (mapTransitionToOperation (transition_kind transition))),
      input_scheduledFor = JStr (Availability.scheduledFor transition)\<rparr>"

definition GenerateOccurrences_execute ::
  "formatter \<Rightarrow> 'w ReconciliationPorts \<Rightarrow> string \<Rightarrow> int option \<Rightarrow> int option \<Rightarrow>
     ('w, ServiceAvailabilityReconciliationOccurrence list) io" where
  "GenerateOccurrences_execute fmt ports sid fromExclusive toInclusive =
     with_service ports sid (\<lambda>service.
     bindIO (liftIO (calculateServiceAvailabilityPolicyTransitions fmt (availabilityPolicy service)
                       (JDate fromExclusive) (JDate toInclusive))) (\<lambda>transitions.
     liftIO (mapR (occurrence_of service) transitions)))"

lemma occurrence_of_parts:
  assumes "occurrence_of service tr = Inr oc"
  shows "occurrence_serviceId oc = service_id service \<and> scheduledFor oc = Availability.scheduledFor tr \<and>
    occurrence_operation oc = mapTransitionToOperation (transition_kind tr)"
proof -
  have "validateOperation (JStr (operation_string (mapTransitionToOperation k))) =
      Inr (mapTransitionToOperation k)" for k
    by (simp add: validateOperation_def mapTransitionToOperation_def operation_string_def)
  then show ?thesis
    using assms by (auto simp: occurrence_of_def create_Occurrence_def result_simps split: if_splits)
qed

section \<open>The tick\<close>

datatype TickOccurrenceResult =
    OccurrenceCompleted ServiceAvailabilityReconciliationOccurrence ExecuteOccurrenceResult
  | OccurrenceFailed ServiceAvailabilityReconciliationOccurrence js_error

datatype TickServiceResult =
    TickCompleted string "TickOccurrenceResult list"
  | TickFailed string js_error

record CollectedOccurrence =
  collected_occurrence :: ServiceAvailabilityReconciliationOccurrence
  collected_serviceId :: string

text \<open>The first loop of the tick: the collected occurrences and the failures of generation.\<close>

fun collect_occurrences ::
  "formatter \<Rightarrow> 'w ReconciliationPorts \<Rightarrow> int option \<Rightarrow> int option \<Rightarrow> RegisteredService list \<Rightarrow>
     CollectedOccurrence list \<Rightarrow> (string \<times> js_error) list \<Rightarrow> 'w \<Rightarrow>
     (CollectedOccurrence list \<times> (string \<times> js_error) list) \<times> 'w" where
  "collect_occurrences fmt ports from to [] allOccurrences failures w = ((allOccurrences, failures), w)"
| "collect_occurrences fmt ports from to (service # services) allOccurrences failures w =
     (case GenerateOccurrences_execute fmt ports (service_id service) from to w of
        (Inr occurrences, w') \<Rightarrow>
          collect_occurrences fmt ports from to services
            (allOccurrences @ map (\<lambda>oc. \<lparr>collected_occurrence = oc, collected_serviceId = service_id service\<rparr>)
               occurrences) failures w'
      | (Inl e, w') \<Rightarrow>
          collect_occurrences fmt ports from to services allOccurrences (failures @ [(service_id service, e)]) w')"

definition collected_key :: "CollectedOccurrence \<Rightarrow> string" where
  "collected_key c = scheduledFor (collected_occurrence c)"

text \<open>
  The entries of the services in an order of ids. The ids of a topological order are distinct, so
  no entry is met twice and the test \<open>includes\<close> never skips one.
\<close>

definition in_id_order :: "string list \<Rightarrow> CollectedOccurrence list \<Rightarrow> CollectedOccurrence list" where
  "in_id_order ids entries = concat (map (\<lambda>i. filter (\<lambda>c. collected_serviceId c = i) entries) ids)"

definition order_group ::
  "RegisteredServiceDependencyGraph \<Rightarrow> CollectedOccurrence list \<Rightarrow> CollectedOccurrence list" where
  "order_group g grp =
     (let stops = filter (\<lambda>c. occurrence_operation (collected_occurrence c) = stop) grp;
          starts = filter (\<lambda>c. occurrence_operation (collected_occurrence c) = start) grp in
      (if stops \<noteq> [] then in_id_order (topologicalDependentsFirst g (map collected_serviceId stops)) stops else []) @
      (if starts \<noteq> [] then in_id_order (topologicalDependenciesFirst g (map collected_serviceId starts)) starts else []))"

definition orderCollectedOccurrences ::
  "CollectedOccurrence list \<Rightarrow> RegisteredServiceDependencyGraph \<Rightarrow> CollectedOccurrence list" where
  "orderCollectedOccurrences collected g =
     concat (map (\<lambda>key. order_group g (filter (\<lambda>c. collected_key c = key) collected))
       (sort (set_of_array (map collected_key collected))))"

type_synonym service_results = "(string \<times> TickOccurrenceResult list) list"

definition record_result :: "string \<Rightarrow> TickOccurrenceResult \<Rightarrow> service_results \<Rightarrow> service_results" where
  "record_result sid r m = AList.update sid (claims_get m sid @ [r]) m"

fun execute_ordered ::
  "formatter \<Rightarrow> 'w ReconciliationPorts \<Rightarrow> CollectedOccurrence list \<Rightarrow> service_results \<Rightarrow> 'w \<Rightarrow>
     service_results \<times> 'w" where
  "execute_ordered fmt ports [] results w = (results, w)"
| "execute_ordered fmt ports (c # cs) results w =
     (case ExecuteOccurrence_execute fmt ports (collected_occurrence c) w of
        (Inr r, w') \<Rightarrow> execute_ordered fmt ports cs
           (record_result (collected_serviceId c) (OccurrenceCompleted (collected_occurrence c) r) results) w'
      | (Inl e, w') \<Rightarrow> execute_ordered fmt ports cs
           (record_result (collected_serviceId c) (OccurrenceFailed (collected_occurrence c) e) results) w')"

definition service_report ::
  "service_results \<Rightarrow> (string \<times> js_error) list \<Rightarrow> string \<Rightarrow> TickServiceResult list" where
  "service_report results failures sid =
     (case map_of results sid of
        Some occurrenceResults \<Rightarrow> [TickCompleted sid occurrenceResults]
      | None \<Rightarrow> if sid \<in> fst ` set failures then [] else [TickCompleted sid []])"

definition Tick_execute ::
  "formatter \<Rightarrow> 'w ReconciliationPorts \<Rightarrow> int option \<Rightarrow> int option \<Rightarrow> ('w, TickServiceResult list) io" where
  "Tick_execute fmt ports fromExclusive toInclusive =
     bindIO (rc_list ports) (\<lambda>services.
     bindIO (rc_getGraph ports) (\<lambda>g w.
     case collect_occurrences fmt ports fromExclusive toInclusive services [] [] w of
       ((allOccurrences, failures), w1) \<Rightarrow>
         (case execute_ordered fmt ports (orderCollectedOccurrences allOccurrences g) [] w1 of
            (results, w2) \<Rightarrow>
              (Inr (map (\<lambda>(sid, e). TickFailed sid e) failures @
                    concat (map (\<lambda>service. service_report results failures (service_id service)) services)), w2))))"

section \<open>Pruning\<close>

datatype PruneOverrideResult =
    NoOverride string
  | ActiveOverride string
  | RemovedOverride string
  | NotRemovedOverride string
  | FailedOverride string js_error

definition prune_override ::
  "'w ReconciliationPorts \<Rightarrow> int option \<Rightarrow> string \<Rightarrow> ('w, PruneOverrideResult) io" where
  "prune_override ports pruningInstant sid =
     catchIO
       (bindIO (rc_findOverride ports sid) (\<lambda>found.
        case found of
          None \<Rightarrow> retIO (NoOverride sid)
        | Some ov \<Rightarrow>
            bindIO (liftIO (isServiceAvailabilityOverrideExpiredAt ov (JDate pruningInstant))) (\<lambda>expired.
            if \<not> expired then retIO (ActiveOverride sid)
            else bindIO (rc_removeOverrideIfMatches ports sid ov) (\<lambda>removed.
                 retIO (if removed then RemovedOverride sid else NotRemovedOverride sid)))))
       (\<lambda>e. retIO (FailedOverride sid e))"

fun prune_overrides_loop ::
  "'w ReconciliationPorts \<Rightarrow> int option \<Rightarrow> RegisteredService list \<Rightarrow> PruneOverrideResult list \<Rightarrow>
     ('w, PruneOverrideResult list) io" where
  "prune_overrides_loop ports pruningInstant [] results = retIO results"
| "prune_overrides_loop ports pruningInstant (service # services) results =
     bindIO (prune_override ports pruningInstant (service_id service)) (\<lambda>r.
     prune_overrides_loop ports pruningInstant services (results @ [r]))"

definition PruneExpiredOverrides_execute :: "'w ReconciliationPorts \<Rightarrow> ('w, PruneOverrideResult list) io" where
  "PruneExpiredOverrides_execute ports =
     bindIO (rc_list ports) (\<lambda>services.
     bindIO (rc_now ports) (\<lambda>pruningInstant.
     bindIO (liftIO (getServiceAvailabilityEvaluationTimestamp (JDate pruningInstant))) (\<lambda>_.
     prune_overrides_loop ports pruningInstant services [])))"

datatype PruneClaimsResult = NoCursor | ClaimsPruned | ClaimsUnchanged

definition PruneClaims_execute :: "'w ReconciliationPorts \<Rightarrow> ('w, PruneClaimsResult) io" where
  "PruneClaims_execute ports =
     bindIO (rc_readCursor ports) (\<lambda>cursor.
     case cursor of
       None \<Rightarrow> retIO NoCursor
     | Some c \<Rightarrow> bindIO (rc_pruneClaims ports c) (\<lambda>pruned. retIO (if pruned then ClaimsPruned else ClaimsUnchanged)))"

section \<open>The scheduler cycle\<close>

datatype CycleResult =
    CycleIdle ServiceAvailabilityReconciliationSchedulerCursor
  | CycleIncomplete "ServiceAvailabilityReconciliationSchedulerCursor option" "TickServiceResult list"
      "PruneOverrideResult list" "PruneClaimsResult option"
  | CycleAdvanced "ServiceAvailabilityReconciliationSchedulerCursor option" "TickServiceResult list"
      "PruneOverrideResult list" PruneClaimsResult
  | CycleConflict "ServiceAvailabilityReconciliationSchedulerCursor option" "TickServiceResult list"
      "PruneOverrideResult list" PruneClaimsResult

definition getCanonicalTargetTimestamp :: "int option \<Rightarrow> int result" where
  "getCanonicalTargetTimestamp clockTime =
     (case clockTime of
        None \<Rightarrow> Inl (ServiceAvailabilityReconciliationSchedulerCycleError ''invalid_clock_time'')
      | Some t \<Rightarrow> Inr (t div MINUTE_IN_MILLISECONDS * MINUTE_IN_MILLISECONDS))"

fun occurrence_result_failed :: "TickOccurrenceResult \<Rightarrow> bool" where
  "occurrence_result_failed (OccurrenceFailed _ _) = True"
| "occurrence_result_failed (OccurrenceCompleted _ _) = False"

fun service_result_failed :: "TickServiceResult \<Rightarrow> bool" where
  "service_result_failed (TickFailed _ _) = True"
| "service_result_failed (TickCompleted _ rs) = list_ex occurrence_result_failed rs"

definition isIncompleteReconciliationReport :: "TickServiceResult list \<Rightarrow> bool" where
  "isIncompleteReconciliationReport report \<longleftrightarrow> list_ex service_result_failed report"

fun prune_result_failed :: "PruneOverrideResult \<Rightarrow> bool" where
  "prune_result_failed (FailedOverride _ _) = True"
| "prune_result_failed _ = False"

definition isIncompletePruningReport :: "PruneOverrideResult list \<Rightarrow> bool" where
  "isIncompletePruningReport report \<longleftrightarrow> list_ex prune_result_failed report"

text \<open>The cycle from the interval on: tick, prunings, advance.\<close>

definition cycle_interval ::
  "formatter \<Rightarrow> 'w ReconciliationPorts \<Rightarrow> ServiceAvailabilityReconciliationSchedulerCursor option \<Rightarrow> int \<Rightarrow> int \<Rightarrow>
     ('w, CycleResult) io" where
  "cycle_interval fmt ports currentCursor fromTimestamp toTimestamp =
     (let toInclusive = new_date toTimestamp in
      bindIO (Tick_execute fmt ports (new_date fromTimestamp) toInclusive) (\<lambda>report.
      bindIO (PruneExpiredOverrides_execute ports) (\<lambda>pruningReport.
      if isIncompletePruningReport pruningReport
      then retIO (CycleIncomplete currentCursor report pruningReport None)
      else bindIO (PruneClaims_execute ports) (\<lambda>claimPruning.
        if isIncompleteReconciliationReport report
        then retIO (CycleIncomplete currentCursor report pruningReport (Some claimPruning))
        else bindIO (liftIO (toISOString toInclusive)) (\<lambda>text.
             bindIO (liftIO (create_Cursor (JStr text))) (\<lambda>candidateCursor.
             bindIO (rc_advanceCursor ports currentCursor candidateCursor) (\<lambda>(advanced, cursor).
             retIO (if advanced then CycleAdvanced cursor report pruningReport claimPruning
                    else CycleConflict cursor report pruningReport claimPruning))))))))"

text \<open>A stored cursor is canonical, so parsing it never gives NaN; otherwise the model fails.\<close>

definition cursor_timestamp :: "ServiceAvailabilityReconciliationSchedulerCursor \<Rightarrow> int result" where
  "cursor_timestamp c =
     (case date_parse (completedThrough c) of
        None \<Rightarrow> Inl (PlainError ''NaN'')
      | Some t \<Rightarrow> Inr t)"

definition Cycle_execute :: "formatter \<Rightarrow> 'w ReconciliationPorts \<Rightarrow> ('w, CycleResult) io" where
  "Cycle_execute fmt ports =
     bindIO (rc_readCursor ports) (\<lambda>currentCursor.
     bindIO (rc_now ports) (\<lambda>clockTime.
     bindIO (liftIO (getCanonicalTargetTimestamp clockTime)) (\<lambda>targetTimestamp.
     case currentCursor of
       None \<Rightarrow>
         let fromTimestamp = targetTimestamp - MINUTE_IN_MILLISECONDS in
         cycle_interval fmt ports None fromTimestamp
           (min targetTimestamp (fromTimestamp + MAXIMUM_INTERVAL_IN_MILLISECONDS))
     | Some c \<Rightarrow>
         bindIO (liftIO (cursor_timestamp c)) (\<lambda>currentTimestamp.
         if targetTimestamp < currentTimestamp
         then throwIO (ServiceAvailabilityReconciliationSchedulerCycleError ''clock_before_cursor'')
         else if targetTimestamp = currentTimestamp then retIO (CycleIdle c)
         else cycle_interval fmt ports (Some c) currentTimestamp
                (min targetTimestamp (currentTimestamp + MAXIMUM_INTERVAL_IN_MILLISECONDS))))))"

section \<open>The order of execution\<close>

lemma mset_groups:
  assumes "distinct ks" and "f ` set xs \<subseteq> set ks"
  shows "mset (concat (map (\<lambda>k. filter (\<lambda>x. f x = k) xs) ks)) = mset xs"
  using assms
proof (induction ks arbitrary: xs)
  case (Cons k ks)
  let ?rest = "filter (\<lambda>x. f x \<noteq> k) xs"
  have "map (\<lambda>j. filter (\<lambda>x. f x = j) xs) ks = map (\<lambda>j. filter (\<lambda>x. f x = j) ?rest) ks"
    using Cons.prems(1) by (auto intro!: filter_cong)
  moreover have "mset (concat (map (\<lambda>j. filter (\<lambda>x. f x = j) ?rest) ks)) = mset ?rest"
    using Cons.prems by (intro Cons.IH) auto
  ultimately have "mset (concat (map (\<lambda>j. filter (\<lambda>x. f x = j) xs) ks)) = mset ?rest" by (simp only:)
  moreover have "mset (filter (\<lambda>x. f x = k) xs) + mset ?rest = mset xs"
    by (simp add: multiset_partition[symmetric])
  ultimately show ?case by simp
qed simp

lemma mset_in_id_order:
  "distinct ids \<Longrightarrow> collected_serviceId ` set cs \<subseteq> set ids \<Longrightarrow> mset (in_id_order ids cs) = mset cs"
  unfolding in_id_order_def by (rule mset_groups)

lemma order_group_eq:
  "order_group g cs =
     (let stops = filter (\<lambda>c. occurrence_operation (collected_occurrence c) = stop) cs;
          starts = filter (\<lambda>c. occurrence_operation (collected_occurrence c) = start) cs in
      in_id_order (topologicalDependentsFirst g (map collected_serviceId stops)) stops @
      in_id_order (topologicalDependenciesFirst g (map collected_serviceId starts)) starts)"
proof -
  have "in_id_order ids [] = []" for ids by (simp add: in_id_order_def)
  then show ?thesis by (simp add: order_group_def Let_def)
qed

definition start_or_stop :: "CollectedOccurrence \<Rightarrow> bool" where
  "start_or_stop c \<longleftrightarrow> occurrence_operation (collected_occurrence c) \<in> {start, stop}"

lemma topological_ids:
  assumes "valid_graph g"
  shows "set ids \<subseteq> set (topologicalDependentsFirst g ids)" "set ids \<subseteq> set (topologicalDependenciesFirst g ids)"
  using dg.set_dependentsFirst[OF assms, of ids] dg.set_depsFirst[OF assms, of ids] by auto

lemma mset_order_group:
  assumes "valid_graph g" and "list_all start_or_stop cs"
  shows "mset (order_group g cs) = mset cs"
proof -
  let ?stops = "filter (\<lambda>c. occurrence_operation (collected_occurrence c) = stop) cs"
  let ?starts = "filter (\<lambda>c. occurrence_operation (collected_occurrence c) = start) cs"
  have "mset (in_id_order (topologicalDependentsFirst g (map collected_serviceId ?stops)) ?stops) = mset ?stops"
    using topological_ids(1)[OF assms(1), of "map collected_serviceId ?stops"]
    by (intro mset_in_id_order dg.distinct_dependentsFirst[OF assms(1)]) (simp only: set_map)
  moreover have "mset (in_id_order (topologicalDependenciesFirst g (map collected_serviceId ?starts)) ?starts) = mset ?starts"
    using topological_ids(2)[OF assms(1), of "map collected_serviceId ?starts"]
    by (intro mset_in_id_order dg.distinct_depsFirst[OF assms(1)]) (simp only: set_map)
  moreover have "mset ?stops + mset ?starts = mset cs"
  proof -
    have "?starts = filter (\<lambda>c. \<not> occurrence_operation (collected_occurrence c) = stop) cs"
      using assms(2) by (auto simp: list_all_iff start_or_stop_def intro!: filter_cong)
    then show ?thesis by (simp add: multiset_partition[symmetric])
  qed
  ultimately show ?thesis unfolding order_group_eq Let_def mset_append by (simp only:)
qed

lemma mset_concat_map_cong: "(\<And>k. k \<in> set ks \<Longrightarrow> mset (f k) = mset (g k)) \<Longrightarrow>
    mset (concat (map f ks)) = mset (concat (map g ks))"
  by (induction ks) auto

lemma mset_orderCollected:
  assumes "valid_graph g" and "list_all start_or_stop cs"
  shows "mset (orderCollectedOccurrences cs g) = mset cs"
proof -
  let ?ks = "sort (set_of_array (map collected_key cs))"
  have "mset (orderCollectedOccurrences cs g) = mset (concat (map (\<lambda>k. filter (\<lambda>c. collected_key c = k) cs) ?ks))"
    unfolding orderCollectedOccurrences_def
    using assms by (intro mset_concat_map_cong mset_order_group) (auto simp: list_all_iff)
  also have "\<dots> = mset cs" by (rule mset_groups) auto
  finally show ?thesis .
qed

lemma sorted_concat_groups:
  assumes "sorted ks" and "\<And>k x. k \<in> set ks \<Longrightarrow> x \<in> set (f k) \<Longrightarrow> key x = k"
  shows "sorted (map key (concat (map f ks)))"
  using assms
proof (induction ks)
  case (Cons k ks)
  have "sorted (map key (f k))"
    using Cons.prems(2)[of k] by (auto simp: sorted_iff_nth_mono)
  moreover have "\<forall>x \<in> set (f k). \<forall>y \<in> set (concat (map f ks)). key x \<le> key y"
    using Cons.prems by fastforce
  ultimately show ?case using Cons by (auto simp: sorted_append)
qed simp

lemma before_in_id_order:
  assumes "before ids (collected_serviceId c) (collected_serviceId d)" and "c \<in> set cs" and "d \<in> set cs"
  shows "before (in_id_order ids cs) c d"
  unfolding in_id_order_def using assms by (intro before_concat_map) auto

text \<open>Within a group: stops before starts, dependents before dependencies in stops, the reverse in starts.\<close>

definition rank_before :: "RegisteredServiceDependencyGraph \<Rightarrow> CollectedOccurrence \<Rightarrow> CollectedOccurrence \<Rightarrow> bool" where
  "rank_before g c d \<longleftrightarrow>
     (case (occurrence_operation (collected_occurrence c), occurrence_operation (collected_occurrence d)) of
        (stop, start) \<Rightarrow> True
      | (stop, stop) \<Rightarrow> (collected_serviceId c, collected_serviceId d) \<in> (depends_on g)\<^sup>+
      | (start, start) \<Rightarrow> (collected_serviceId d, collected_serviceId c) \<in> (depends_on g)\<^sup>+
      | _ \<Rightarrow> False)"

lemma before_order_group:
  assumes "valid_graph g" and "c \<in> set cs" and "d \<in> set cs" and "rank_before g c d"
  shows "before (order_group g cs) c d"
proof -
  define stops where "stops = filter (\<lambda>c. occurrence_operation (collected_occurrence c) = stop) cs"
  define starts where "starts = filter (\<lambda>c. occurrence_operation (collected_occurrence c) = start) cs"
  let ?A = "in_id_order (topologicalDependentsFirst g (map collected_serviceId stops)) stops"
  let ?B = "in_id_order (topologicalDependenciesFirst g (map collected_serviceId starts)) starts"
  have grp: "order_group g cs = ?A @ ?B" unfolding order_group_eq Let_def stops_def starts_def ..
  have setA: "set ?A = set stops"
    using topological_ids(1)[OF assms(1), of "map collected_serviceId stops"] by (auto simp: in_id_order_def)
  have setB: "set ?B = set starts"
    using topological_ids(2)[OF assms(1), of "map collected_serviceId starts"] by (auto simp: in_id_order_def)
  consider (mixed) "c \<in> set stops" "d \<in> set starts"
    | (stops) "c \<in> set stops" "d \<in> set stops" "(collected_serviceId c, collected_serviceId d) \<in> (depends_on g)\<^sup>+"
    | (starts) "c \<in> set starts" "d \<in> set starts" "(collected_serviceId d, collected_serviceId c) \<in> (depends_on g)\<^sup>+"
    using assms(2-4) by (auto simp: rank_before_def stops_def starts_def split: SupportedServiceOperation.splits)
  then show ?thesis
  proof cases
    case mixed
    then show ?thesis unfolding grp by (intro before_append_right) (simp_all only: setA setB)
  next
    case stops
    then have "collected_serviceId d \<in> set (topologicalDependentsFirst g (map collected_serviceId stops))"
      using topological_ids(1)[OF assms(1), of "map collected_serviceId stops"] by auto
    from dg.dependentsFirst_trancl[OF assms(1) stops(3) this]
    have "before ?A c d" using stops(1,2) by (intro before_in_id_order)
    then show ?thesis unfolding grp by (rule before_appendI1)
  next
    case starts
    then have "collected_serviceId d \<in> set (topologicalDependenciesFirst g (map collected_serviceId starts))"
      using topological_ids(2)[OF assms(1), of "map collected_serviceId starts"] by auto
    from dg.depsFirst_trancl[OF assms(1) starts(3) this]
    have "before ?B c d" using starts(1,2) by (intro before_in_id_order)
    then show ?thesis unfolding grp by (rule before_appendI2)
  qed
qed

lemma orderCollected_before:
  assumes "valid_graph g" and "list_all start_or_stop cs" and "c \<in> set cs" and "d \<in> set cs"
    and same: "collected_key c = collected_key d" "rank_before g c d"
  shows "before (orderCollectedOccurrences cs g) c d"
proof -
  let ?ks = "sort (set_of_array (map collected_key cs))"
  let ?grp = "\<lambda>key. filter (\<lambda>c. collected_key c = key) cs"
  have "before (order_group g (?grp (collected_key c))) c d"
    using assms(3,4) same by (intro before_order_group[OF assms(1)]) auto
  moreover obtain us vs where "?ks = us @ collected_key c # vs"
    using split_list[of "collected_key c" ?ks] assms(3) by auto
  ultimately show ?thesis
    unfolding orderCollectedOccurrences_def
    by (simp only: map_append list.map concat_append concat.simps) (intro before_appendI2[OF before_appendI1])
qed

lemma sorted_orderCollected:
  assumes "valid_graph g" and "list_all start_or_stop cs"
  shows "sorted (map collected_key (orderCollectedOccurrences cs g))"
proof -
  let ?grp = "\<lambda>key. filter (\<lambda>c. collected_key c = key) cs"
  have "set (order_group g (?grp k)) \<subseteq> set (?grp k)" for k
    using mset_order_group[OF assms(1), of "?grp k"] assms(2) mset_eq_setD by (fastforce simp: list_all_iff)
  then show ?thesis
    unfolding orderCollectedOccurrences_def by (intro sorted_concat_groups) auto
qed

section \<open>What a tick runs\<close>

text \<open>
  The generations of the occurrences of the services between two worlds, one after the other: what
  they answered, together, and the failures.
\<close>

fun generations ::
  "formatter \<Rightarrow> 'w ReconciliationPorts \<Rightarrow> int option \<Rightarrow> int option \<Rightarrow> RegisteredService list \<Rightarrow>
     CollectedOccurrence list \<Rightarrow> (string \<times> js_error) list \<Rightarrow> 'w \<Rightarrow> 'w \<Rightarrow> bool" where
  "generations fmt ports from to [] cs failures w w' \<longleftrightarrow> cs = [] \<and> failures = [] \<and> w' = w"
| "generations fmt ports from to (service # services) cs failures w w' \<longleftrightarrow>
     (\<exists>answer v cs' failures'.
        GenerateOccurrences_execute fmt ports (service_id service) from to w = (answer, v) \<and>
        generations fmt ports from to services cs' failures' v w' \<and>
        (case answer of
           Inl e \<Rightarrow> cs = cs' \<and> failures = (service_id service, e) # failures'
         | Inr occurrences \<Rightarrow>
             cs = map (\<lambda>oc. \<lparr>collected_occurrence = oc, collected_serviceId = service_id service\<rparr>) occurrences @ cs' \<and>
             failures = failures'))"

text \<open>The executions of occurrences between two worlds, one after the other, each in the world the one before left.\<close>

fun executions ::
  "formatter \<Rightarrow> 'w ReconciliationPorts \<Rightarrow> CollectedOccurrence list \<Rightarrow> TickOccurrenceResult list \<Rightarrow> 'w \<Rightarrow> 'w \<Rightarrow> bool" where
  "executions fmt ports [] rs w w' \<longleftrightarrow> rs = [] \<and> w' = w"
| "executions fmt ports (c # cs) rs w w' \<longleftrightarrow>
     (\<exists>answer v rs'.
        ExecuteOccurrence_execute fmt ports (collected_occurrence c) w = (answer, v) \<and>
        executions fmt ports cs rs' v w' \<and>
        rs = (case answer of
                Inl e \<Rightarrow> OccurrenceFailed (collected_occurrence c) e
              | Inr r \<Rightarrow> OccurrenceCompleted (collected_occurrence c) r) # rs')"

text \<open>The results of the occurrences of a service, in the order of their execution.\<close>

fun results_of :: "string \<Rightarrow> CollectedOccurrence list \<Rightarrow> TickOccurrenceResult list \<Rightarrow> TickOccurrenceResult list" where
  "results_of sid (c # cs) (r # rs) = (if collected_serviceId c = sid then r # results_of sid cs rs else results_of sid cs rs)"
| "results_of sid _ _ = []"

lemma collect_generations:
  assumes "collect_occurrences fmt ports from to services acc fs w = ((cs, failures), w')"
  shows "\<exists>cs' failures'. cs = acc @ cs' \<and> failures = fs @ failures' \<and>
    generations fmt ports from to services cs' failures' w w'"
  using assms
proof (induction services arbitrary: acc fs w)
  case (Cons service services)
  obtain answer v where g: "GenerateOccurrences_execute fmt ports (service_id service) from to w = (answer, v)" by fastforce
  show ?case
  proof (cases answer)
    case (Inl e)
    then have "collect_occurrences fmt ports from to services acc (fs @ [(service_id service, e)]) v = ((cs, failures), w')"
      using Cons.prems g by simp
    from Cons.IH[OF this] obtain cs' failures' where "cs = acc @ cs'" "failures = (fs @ [(service_id service, e)]) @ failures'"
        "generations fmt ports from to services cs' failures' v w'" by blast
    then show ?thesis using g Inl by (intro exI[of _ cs'] exI[of _ "(service_id service, e) # failures'"]) auto
  next
    case (Inr occurrences)
    let ?new = "map (\<lambda>oc. \<lparr>collected_occurrence = oc, collected_serviceId = service_id service\<rparr>) occurrences"
    have "collect_occurrences fmt ports from to services (acc @ ?new) fs v = ((cs, failures), w')"
      using Cons.prems g Inr by simp
    from Cons.IH[OF this] obtain cs' failures' where "cs = (acc @ ?new) @ cs'" "failures = fs @ failures'"
        "generations fmt ports from to services cs' failures' v w'" by blast
    then show ?thesis using g Inr by (intro exI[of _ "?new @ cs'"] exI[of _ failures']) auto
  qed
qed simp

lemma generations_members:
  assumes "generations fmt ports from to services cs failures w w'"
  shows "list_all start_or_stop cs \<and> collected_serviceId ` set cs \<subseteq> service_id ` set services"
  using assms
proof (induction services arbitrary: cs failures w)
  case (Cons service services)
  obtain answer v cs' failures' where g: "GenerateOccurrences_execute fmt ports (service_id service) from to w = (answer, v)"
      "generations fmt ports from to services cs' failures' v w'"
    and parts: "case answer of Inl e \<Rightarrow> cs = cs' \<and> failures = (service_id service, e) # failures'
      | Inr occurrences \<Rightarrow> cs = map (\<lambda>oc. \<lparr>collected_occurrence = oc, collected_serviceId = service_id service\<rparr>) occurrences @ cs' \<and>
          failures = failures'"
    using Cons.prems by auto
  have kind: "occurrence_operation oc = start \<or> occurrence_operation oc = stop" if ans: "answer = Inr occurrences" and mem: "oc \<in> set occurrences" for occurrences oc
  proof -
    obtain service' transitions where "mapR (occurrence_of service') transitions = Inr occurrences"
      using g(1)[unfolded ans]
      by (auto simp: GenerateOccurrences_execute_def with_service_def bindIO_def liftIO_def throwIO_def
          split: prod.splits sum.splits option.splits)
    then obtain tr where "occurrence_of service' tr = Inr oc" using mem by (auto elim: mapR_set)
    then show ?thesis by (simp add: occurrence_of_parts mapTransitionToOperation_def)
  qed
  have rest: "list_all start_or_stop cs'" "collected_serviceId ` set cs' \<subseteq> service_id ` set services"
    using Cons.IH[OF g(2)] by simp_all
  show ?case
  proof (cases answer)
    case (Inl e)
    then show ?thesis using parts rest by auto
  next
    case (Inr occurrences)
    then have "list_all start_or_stop (map (\<lambda>oc. \<lparr>collected_occurrence = oc, collected_serviceId = service_id service\<rparr>) occurrences)"
      using kind by (simp add: list_all_iff start_or_stop_def)
    then show ?thesis using parts rest Inr by auto
  qed
qed simp

lemma execute_ordered_executions:
  assumes "execute_ordered fmt ports cs m w = (m', w')"
  shows "\<exists>rs. executions fmt ports cs rs w w' \<and>
    (\<forall>sid. claims_get m' sid = claims_get m sid @ results_of sid cs rs) \<and> fst ` set m' = fst ` set m \<union> collected_serviceId ` set cs"
  using assms
proof (induction cs arbitrary: m w)
  case (Cons c cs)
  obtain answer v where a: "ExecuteOccurrence_execute fmt ports (collected_occurrence c) w = (answer, v)" by fastforce
  define r where "r = (case answer of Inl e \<Rightarrow> OccurrenceFailed (collected_occurrence c) e
    | Inr r \<Rightarrow> OccurrenceCompleted (collected_occurrence c) r)"
  have "execute_ordered fmt ports cs (record_result (collected_serviceId c) r m) v = (m', w')"
    using Cons.prems a by (cases answer) (simp_all add: r_def)
  from Cons.IH[OF this] obtain rs where rs: "executions fmt ports cs rs v w'"
      "\<forall>sid. claims_get m' sid = claims_get (record_result (collected_serviceId c) r m) sid @ results_of sid cs rs"
      "fst ` set m' = fst ` set (record_result (collected_serviceId c) r m) \<union> collected_serviceId ` set cs" by blast
  have "claims_get (record_result (collected_serviceId c) r m) sid =
      claims_get m sid @ (if collected_serviceId c = sid then [r] else [])" for sid
    by (simp add: record_result_def claims_get_def update_conv')
  moreover have "fst ` set (record_result (collected_serviceId c) r m) = insert (collected_serviceId c) (fst ` set m)"
    by (simp add: record_result_def dom_map_of_conv_image_fst[symmetric] update_conv')
  ultimately show ?case
    using rs a by (intro exI[of _ "r # rs"]) (auto simp: r_def[symmetric])
qed simp

text \<open>
  C11. A tick executes every occurrence it collects exactly once, in the right order. Whatever its ports
  do, it generates the occurrences of each listed service in turn and then executes all of them, each
  once and in the world the execution before left: in the order of their instants, and at one instant stops
  before starts, stops of dependents before those of the services they depend on, and starts of
  services after those of the services they depend on, directly or not. It answers with the result of
  each execution and the failure of each generation; a failure of one does not keep the others from
  being executed.
\<close>

theorem occurrences_in_order:
  assumes "createDependencyGraph entries = Inr g"
    and "rc_list ports w = (Inr services, w0)" and "rc_getGraph ports w0 = (Inr g, w1)"
  shows "\<exists>cs failures w2 ordered rs w' report.
    generations fmt ports from to services cs failures w1 w2 \<and>
    executions fmt ports ordered rs w2 w' \<and> mset ordered = mset cs \<and> sorted (map collected_key ordered) \<and>
    (\<forall>c \<in> set cs. \<forall>d \<in> set cs. collected_key c = collected_key d \<and> rank_before g c d \<longrightarrow> before ordered c d) \<and>
    Tick_execute fmt ports from to w = (Inr report, w') \<and>
    (\<forall>c \<in> set cs. TickCompleted (collected_serviceId c) (results_of (collected_serviceId c) ordered rs) \<in> set report) \<and>
    (\<forall>(sid, e) \<in> set failures. TickFailed sid e \<in> set report)"
proof -
  note v = created_valid[OF assms(1)]
  obtain cs failures w2 where c: "collect_occurrences fmt ports from to services [] [] w1 = ((cs, failures), w2)"
    by (metis surj_pair)
  then have gen: "generations fmt ports from to services cs failures w1 w2" using collect_generations[OF c] by simp
  note members = generations_members[OF gen]
  let ?ordered = "orderCollectedOccurrences cs g"
  have same: "mset ?ordered = mset cs" using mset_orderCollected[OF v] members by blast
  obtain m w' where m: "execute_ordered fmt ports ?ordered [] w2 = (m, w')" by fastforce
  from execute_ordered_executions[OF m] obtain rs where rs: "executions fmt ports ?ordered rs w2 w'"
      "\<forall>sid. claims_get m sid = results_of sid ?ordered rs" "fst ` set m = collected_serviceId ` set ?ordered"
    by (auto simp: claims_get_def)
  let ?report = "map (\<lambda>(sid, e). TickFailed sid e) failures @
    concat (map (\<lambda>service. service_report m failures (service_id service)) services)"
  have tick: "Tick_execute fmt ports from to w = (Inr ?report, w')"
    by (simp add: Tick_execute_def bindIO_def assms(2,3) c m)
  have "TickCompleted (collected_serviceId d) (results_of (collected_serviceId d) ?ordered rs) \<in> set ?report"
    if "d \<in> set cs" for d
  proof -
    have "d \<in> set ?ordered" using that same mset_eq_setD by blast
    then have "collected_serviceId d \<in> fst ` set m" using rs(3) by blast
    then obtain occurrenceResults where o': "map_of m (collected_serviceId d) = Some occurrenceResults"
      by (auto simp: dom_map_of_conv_image_fst[symmetric])
    then have results: "occurrenceResults = results_of (collected_serviceId d) ?ordered rs"
      using rs(2)[rule_format, of "collected_serviceId d"] by (simp add: claims_get_def)
    have "collected_serviceId d \<in> service_id ` set services" using members that by blast
    then obtain service where service: "service \<in> set services" "collected_serviceId d = service_id service"
      by (elim imageE)
    have "service_report m failures (service_id service) = [TickCompleted (service_id service) occurrenceResults]"
      using o' service(2) by (simp add: service_report_def)
    then have "TickCompleted (collected_serviceId d) occurrenceResults \<in>
        set (concat (map (\<lambda>service. service_report m failures (service_id service)) services))"
      using service(1) unfolding service(2) by (auto intro!: bexI[of _ service])
    then show ?thesis unfolding results by simp
  qed
  moreover have "\<forall>(sid, e) \<in> set failures. TickFailed sid e \<in> set ?report" by (simp add: split_def image_iff) (metis prod.collapse)
  moreover have "\<forall>c \<in> set cs. \<forall>d \<in> set cs. collected_key c = collected_key d \<and> rank_before g c d \<longrightarrow> before ?ordered c d"
    using orderCollected_before[OF v] members by blast
  moreover have "sorted (map collected_key ?ordered)" using sorted_orderCollected[OF v] members by blast
  ultimately show ?thesis
    using gen rs(1) same tick
    by (intro exI[of _ cs] exI[of _ failures] exI[of _ w2] exI[of _ ?ordered] exI[of _ rs] exI[of _ w'] exI[of _ ?report] conjI) blast+
qed

text \<open>
  The tick of the witness: \<open>api\<close>, which needs \<open>db\<close>, and \<open>db\<close> are both scheduled on Mondays from 08:00, and the
  world lists the services orchestrated.
\<close>

definition tick_services :: "RegisteredService list" where
  "tick_services = map (\<lambda>sid. plain_service sid\<lparr>availabilityPolicy := monday_policy\<rparr>) [''api'', ''db'']"

definition tick_ports :: "string list ReconciliationPorts" where
  "tick_ports =
     \<lparr>rc_findById = (\<lambda>sid. retIO (find (\<lambda>service. service_id service = sid) tick_services)),
      rc_list = retIO tick_services, rc_getGraph = retIO sample_graph, rc_now = retIO (Some 385200000),
      rc_status = (\<lambda>_. retIO stopped),
      rc_orchestrate = (\<lambda>sid _ _ log. (Inr (sample_result\<lparr>result_targetServiceId := sid\<rparr>), log @ [sid])),
      rc_findOverride = (\<lambda>_. retIO None), rc_saveOverride = (\<lambda>_ _. retIO ()), rc_removeOverride = (\<lambda>_. retIO ()),
      rc_removeOverrideIfMatches = (\<lambda>_ _. retIO False), rc_savePolicy = (\<lambda>_ _. retIO ()), rc_removePolicy = (\<lambda>_. retIO ()),
      rc_claim = (\<lambda>_. retIO True), rc_pruneClaims = (\<lambda>_. retIO False), rc_readCursor = retIO None,
      rc_advanceCursor = (\<lambda>_ cursor. retIO (True, Some cursor))\<rparr>"

lemma tick_starts:
  "snd (Tick_execute saoPauloFormatter tick_ports (Some 385140000) (Some 385200000) []) = [''db'', ''api'']"
  by code_simp

theorem occurrences_in_order_witness:
  "\<exists>cs failures w ordered rs.
     generations saoPauloFormatter tick_ports (Some 385140000) (Some 385200000) tick_services cs failures [] w \<and>
     executions saoPauloFormatter tick_ports ordered rs w [''db'', ''api''] \<and> mset ordered = mset cs \<and>
     sorted (map collected_key ordered)"
proof -
  have "rc_list tick_ports [] = (Inr tick_services, [])" "rc_getGraph tick_ports [] = (Inr sample_graph, [])"
    by (simp_all add: tick_ports_def retIO_def)
  from occurrences_in_order[OF sample_created this, of saoPauloFormatter "Some 385140000" "Some 385200000"]
  obtain cs failures w ordered rs w' report where
    "generations saoPauloFormatter tick_ports (Some 385140000) (Some 385200000) tick_services cs failures [] w"
    "executions saoPauloFormatter tick_ports ordered rs w w'" "mset ordered = mset cs" "sorted (map collected_key ordered)"
    and tick: "Tick_execute saoPauloFormatter tick_ports (Some 385140000) (Some 385200000) [] = (Inr report, w')"
    by blast
  moreover have "w' = [''db'', ''api'']" using tick_starts by (simp add: tick)
  ultimately show ?thesis by blast
qed

end
