(* ===== verification/Memory_Scheduler.thy ===== *)
theory Memory_Scheduler
  imports Reconciliation
begin

text \<open>
  The reconciliation cycle on the in-memory stores (the wiring of
  \<open>service-management/composition/create-service-management.ts\<close> with those stores), and the
  invariant behind its central promise: every scheduled occurrence is orchestrated at most once,
  whatever fails, and however cycles and changes of overrides and policies interleave, within a cycle,
  too: at every call it waits for.
\<close>

section \<open>The world\<close>

text \<open>
  The stores, what lies outside (clock, runtime, orchestrator), and two history variables: the
  occurrences whose claim was granted and the orchestrations requested, in order.
\<close>

record 'x MemoryWorld =
  mw_services :: InMemoryRegisteredServiceCatalog
  mw_overrides :: override_store
  mw_policies :: policy_store
  mw_claims :: claims
  mw_cursor :: cursor_state
  mw_outside :: 'x
  mw_grants :: "ServiceAvailabilityReconciliationOccurrence list"
  mw_orchestrations :: "(string \<times> SupportedServiceOperation) list"

text \<open>
  What handlers over HTTP may change while a cycle waits: the overrides, the policies and everything
  outside. Only the cycle claims occurrences, moves the cursor and requests orchestrations, and the loop
  runs one cycle at a time. So every port outside may change the shared part as it likes, and after every
  awaited call of a store the others get their turn, whose effect \<open>out_others\<close> is arbitrary.
\<close>

type_synonym 'x shared = "override_store \<times> policy_store \<times> 'x"

record 'x OutsidePorts =
  out_now :: "('x shared, int option) io"
  out_status :: "RegisteredService \<Rightarrow> ('x shared, ServiceRuntimeState) io"
  out_graph :: "('x shared, RegisteredServiceDependencyGraph) io"
  out_orchestrate :: "string \<Rightarrow> SupportedServiceOperation \<Rightarrow> OrchestrationAuthority \<Rightarrow> ('x shared, OrchestrationResult) io"
  out_others :: "'x shared \<Rightarrow> 'x shared"

definition on_outside :: "('x shared, 'a) io \<Rightarrow> ('x MemoryWorld, 'a) io" where
  "on_outside m w =
     (case m (mw_overrides w, mw_policies w, mw_outside w) of
        (r, overrides, policies, x) \<Rightarrow> (r, w\<lparr>mw_overrides := overrides, mw_policies := policies, mw_outside := x\<rparr>))"

definition others :: "'x OutsidePorts \<Rightarrow> 'x MemoryWorld \<Rightarrow> 'x MemoryWorld" where
  "others outs w = snd (on_outside (\<lambda>s. (Inr (), out_others outs s)) w)"

definition awaited :: "'x OutsidePorts \<Rightarrow> ('x MemoryWorld, 'a) io \<Rightarrow> ('x MemoryWorld, 'a) io" where
  "awaited outs m w = (case m w of (r, w') \<Rightarrow> (r, others outs w'))"

definition memory_orchestrate ::
  "'x OutsidePorts \<Rightarrow> string \<Rightarrow> SupportedServiceOperation \<Rightarrow> OrchestrationAuthority \<Rightarrow>
     ('x MemoryWorld, OrchestrationResult) io" where
  "memory_orchestrate outs sid operation authority w =
     on_outside (out_orchestrate outs sid operation authority)
       (w\<lparr>mw_orchestrations := mw_orchestrations w @ [(sid, operation)]\<rparr>)"

definition memory_claim :: "ServiceAvailabilityReconciliationOccurrence \<Rightarrow> ('x MemoryWorld, bool) io" where
  "memory_claim oc w =
     (case claim_occurrence oc (mw_claims w) of
        (granted, claims) \<Rightarrow>
          (Inr granted, w\<lparr>mw_claims := claims, mw_grants := mw_grants w @ (if granted then [oc] else [])\<rparr>))"

definition memory_prune :: "ServiceAvailabilityReconciliationSchedulerCursor \<Rightarrow> ('x MemoryWorld, bool) io" where
  "memory_prune cursor w =
     (case pruneCompletedThrough cursor (mw_claims w) of (pruned, claims) \<Rightarrow> (Inr pruned, w\<lparr>mw_claims := claims\<rparr>))"

definition memory_advance ::
  "ServiceAvailabilityReconciliationSchedulerCursor option \<Rightarrow> ServiceAvailabilityReconciliationSchedulerCursor \<Rightarrow>
     ('x MemoryWorld, bool \<times> ServiceAvailabilityReconciliationSchedulerCursor option) io" where
  "memory_advance expected next w =
     (case advance_cursor expected next (mw_cursor w) of
        (Inl e, cursor) \<Rightarrow> (Inl e, w\<lparr>mw_cursor := cursor\<rparr>)
      | (Inr advanced, cursor) \<Rightarrow> (Inr (advanced, cursor), w\<lparr>mw_cursor := cursor\<rparr>))"

definition memory_ports :: "'x OutsidePorts \<Rightarrow> 'x MemoryWorld ReconciliationPorts" where
  "memory_ports outs =
     \<lparr>rc_findById = (\<lambda>sid. awaited outs (\<lambda>w. (policy_aware_findById (mw_services w) (mw_policies w) sid, w))),
      rc_list = awaited outs (\<lambda>w. (policy_aware_list (mw_services w) (mw_policies w), w)),
      rc_getGraph = on_outside (out_graph outs),
      rc_now = on_outside (out_now outs),
      rc_status = (\<lambda>service. on_outside (out_status outs service)),
      rc_orchestrate = memory_orchestrate outs,
      rc_findOverride = (\<lambda>sid. awaited outs (\<lambda>w. (Inr (override_findByServiceId sid (mw_overrides w)), w))),
      rc_saveOverride = (\<lambda>sid ov. awaited outs (\<lambda>w.
        (Inr (), w\<lparr>mw_overrides := override_save sid ov (mw_overrides w)\<rparr>))),
      rc_removeOverride = (\<lambda>sid. awaited outs (\<lambda>w.
        (Inr (), w\<lparr>mw_overrides := override_removeByServiceId sid (mw_overrides w)\<rparr>))),
      rc_removeOverrideIfMatches = (\<lambda>sid ov. awaited outs (\<lambda>w.
        case override_removeByServiceIdIfMatches sid ov (mw_overrides w) of
          (removed, overrides) \<Rightarrow> (Inr removed, w\<lparr>mw_overrides := overrides\<rparr>))),
      rc_savePolicy = (\<lambda>sid policy. awaited outs (\<lambda>w.
        (Inr (), w\<lparr>mw_policies := policy_save sid policy (mw_policies w)\<rparr>))),
      rc_removePolicy = (\<lambda>sid. awaited outs (\<lambda>w.
        (Inr (), w\<lparr>mw_policies := policy_removeByServiceId sid (mw_policies w)\<rparr>))),
      rc_claim = (\<lambda>oc. awaited outs (memory_claim oc)),
      rc_pruneClaims = (\<lambda>cursor. awaited outs (memory_prune cursor)),
      rc_readCursor = awaited outs (\<lambda>w. (Inr (mw_cursor w), w)),
      rc_advanceCursor = (\<lambda>expected next. awaited outs (memory_advance expected next))\<rparr>"

text \<open>
  One step: a scheduler cycle, an operation on the overrides or policies, or a change outside. Within a
  cycle the changes of the others happen at its awaited calls.
\<close>

inductive memory_step :: "formatter \<Rightarrow> 'x OutsidePorts \<Rightarrow> 'x MemoryWorld \<Rightarrow> 'x MemoryWorld \<Rightarrow> bool"
  for fmt :: formatter and outs :: "'x OutsidePorts" where
  cycle: "memory_step fmt outs w (snd (Cycle_execute fmt (memory_ports outs) w))"
| set_override: "memory_step fmt outs w (snd (SetOverride_execute (memory_ports outs) sid v w))"
| cancel_override: "memory_step fmt outs w (snd (CancelOverride_execute (memory_ports outs) sid w))"
| update_policy: "memory_step fmt outs w (snd (UpdatePolicy_execute (memory_ports outs) sid v w))"
| remove_policy: "memory_step fmt outs w (snd (RemovePolicy_execute (memory_ports outs) sid w))"
| outside: "memory_step fmt outs w (w\<lparr>mw_outside := x\<rparr>)"

definition initial_world :: "InMemoryRegisteredServiceCatalog \<Rightarrow> 'x \<Rightarrow> 'x MemoryWorld" where
  "initial_world services x =
     \<lparr>mw_services = services, mw_overrides = Map.empty, mw_policies = Map.empty, mw_claims = [],
      mw_cursor = None, mw_outside = x, mw_grants = [], mw_orchestrations = []\<rparr>"

section \<open>The invariant\<close>

text \<open>An occurrence the cursor has passed: its claim may be forgotten.\<close>

definition passed_by :: "cursor_state \<Rightarrow> ServiceAvailabilityReconciliationOccurrence \<Rightarrow> bool" where
  "passed_by cursor oc \<longleftrightarrow> (case cursor of None \<Rightarrow> False | Some c \<Rightarrow> scheduledFor oc \<le> completedThrough c)"

definition cursor_in_range :: "cursor_state \<Rightarrow> bool" where
  "cursor_in_range cursor \<longleftrightarrow>
     (case cursor of None \<Rightarrow> True | Some c \<Rightarrow> \<exists>t. four_digit_year t \<and> aligned t \<and> completedThrough c = iso t)"

definition once_inv :: "'x MemoryWorld \<Rightarrow> bool" where
  "once_inv w \<longleftrightarrow>
     wf_claims (mw_claims w) \<and> cursor_in_range (mw_cursor w) \<and> distinct (mw_grants w) \<and>
     (\<forall>oc \<in> set (mw_grants w). is_claimed (mw_claims w) oc \<or> passed_by (mw_cursor w) oc) \<and>
     mw_orchestrations w = map (\<lambda>oc. (occurrence_serviceId oc, occurrence_operation oc)) (mw_grants w)"

text \<open>The invariant together with a fixed cursor, which everything but the last step of a cycle keeps.\<close>

definition once_at :: "cursor_state \<Rightarrow> 'x MemoryWorld \<Rightarrow> bool" where
  "once_at cursor w \<longleftrightarrow> once_inv w \<and> mw_cursor w = cursor"

lemma once_at_simps [simp]:
  "once_at cursor (w\<lparr>mw_outside := x\<rparr>) = once_at cursor w"
  "once_at cursor (w\<lparr>mw_overrides := ovs\<rparr>) = once_at cursor w"
  "once_at cursor (w\<lparr>mw_policies := ps\<rparr>) = once_at cursor w"
  by (simp_all add: once_at_def once_inv_def)

lemma preserves_outside [preserves_intros]: "preserves (once_at cursor) (on_outside m)"
  by (rule preservesI) (simp add: on_outside_def split: prod.splits)

lemma others_simps [simp]:
  "mw_claims (others outs w) = mw_claims w" "mw_cursor (others outs w) = mw_cursor w"
  "mw_grants (others outs w) = mw_grants w" "mw_orchestrations (others outs w) = mw_orchestrations w"
  by (simp_all add: others_def on_outside_def split: prod.splits)

lemma others_inv [simp]:
  "once_inv (others outs w) = once_inv w" "once_at cursor (others outs w) = once_at cursor w"
  by (simp_all add: once_inv_def once_at_def)

lemma preserves_awaited: "preserves (once_at cursor) m \<Longrightarrow> preserves (once_at cursor) (awaited outs m)"
  by (auto simp: preserves_def awaited_def split: prod.splits)

lemma preserves_memory_ports [preserves_intros]:
  "preserves (once_at cursor) (rc_findById (memory_ports outs) sid)"
  "preserves (once_at cursor) (rc_list (memory_ports outs))"
  "preserves (once_at cursor) (rc_getGraph (memory_ports outs))"
  "preserves (once_at cursor) (rc_now (memory_ports outs))"
  "preserves (once_at cursor) (rc_status (memory_ports outs) service)"
  "preserves (once_at cursor) (rc_findOverride (memory_ports outs) sid)"
  "preserves (once_at cursor) (rc_saveOverride (memory_ports outs) sid ov)"
  "preserves (once_at cursor) (rc_removeOverride (memory_ports outs) sid)"
  "preserves (once_at cursor) (rc_removeOverrideIfMatches (memory_ports outs) sid ov)"
  "preserves (once_at cursor) (rc_savePolicy (memory_ports outs) sid policy)"
  "preserves (once_at cursor) (rc_removePolicy (memory_ports outs) sid)"
  by (auto simp: memory_ports_def preserves_outside awaited_def intro!: preservesI split: prod.splits)

lemma preserves_with_service [preserves_intros]:
  "(\<And>s. preserves (once_at cursor) (f s)) \<Longrightarrow> preserves (once_at cursor) (with_service (memory_ports outs) sid f)"
  unfolding with_service_def by (intro preserves_intros)

lemma preserves_administration:
  "preserves (once_at cursor) (SetOverride_execute (memory_ports outs) sid v)"
  "preserves (once_at cursor) (CancelOverride_execute (memory_ports outs) sid)"
  "preserves (once_at cursor) (UpdatePolicy_execute (memory_ports outs) sid v)"
  "preserves (once_at cursor) (RemovePolicy_execute (memory_ports outs) sid)"
  unfolding SetOverride_execute_def CancelOverride_execute_def UpdatePolicy_execute_def RemovePolicy_execute_def
  by (intro preserves_intros)+

lemma preserves_plan [preserves_intros]:
  "preserves (once_at cursor) (PlanReconciliation_execute fmt (memory_ports outs) sid)"
  unfolding PlanReconciliation_execute_def by (intro preserves_intros)

lemma preserves_generate [preserves_intros]:
  "preserves (once_at cursor) (GenerateOccurrences_execute fmt (memory_ports outs) sid from to)"
  unfolding GenerateOccurrences_execute_def by (intro preserves_intros)

lemma preserves_prune_overrides [preserves_intros]:
  "preserves (once_at cursor) (PruneExpiredOverrides_execute (memory_ports outs))"
proof -
  have "preserves (once_at cursor) (prune_overrides_loop (memory_ports outs) at services rs)" for at services rs
    by (induction services arbitrary: rs) (simp_all add: prune_override_def preserves_intros)
  then show ?thesis unfolding PruneExpiredOverrides_execute_def by (intro preserves_intros)
qed

section \<open>Claims and orchestrations\<close>

lemma claim_then_orchestrate:
  assumes "once_at cursor w" and "\<not> passed_by cursor oc" and "memory_claim oc w = (Inr granted, w1)"
  shows "if granted then once_at cursor (w1\<lparr>mw_orchestrations := mw_orchestrations w1 @
      [(occurrence_serviceId oc, occurrence_operation oc)]\<rparr>) else once_at cursor w1"
proof -
  have inv: "wf_claims (mw_claims w)" "mw_cursor w = cursor" "distinct (mw_grants w)" "cursor_in_range cursor"
      "\<forall>oc \<in> set (mw_grants w). is_claimed (mw_claims w) oc \<or> passed_by cursor oc"
      "mw_orchestrations w = map (\<lambda>oc. (occurrence_serviceId oc, occurrence_operation oc)) (mw_grants w)"
    using assms(1) by (auto simp: once_at_def once_inv_def)
  obtain cl where cl: "claim_occurrence oc (mw_claims w) = (granted, cl)"
      and w1: "w1 = w\<lparr>mw_claims := cl, mw_grants := mw_grants w @ (if granted then [oc] else [])\<rparr>"
    using assms(3) by (auto simp: memory_claim_def split: prod.splits)
  have wf: "wf_claims cl" and claimed: "\<And>y. is_claimed cl y \<longleftrightarrow> y = oc \<or> is_claimed (mw_claims w) y"
      and granted: "granted \<longleftrightarrow> \<not> is_claimed (mw_claims w) oc"
    using cs.valid_claim[OF inv(1), of oc] cs.claimed_claim[OF inv(1), of oc] cs.claim_granted[OF inv(1), of oc] cl
    by simp_all
  have fresh: "granted \<Longrightarrow> oc \<notin> set (mw_grants w)" using granted inv(5) assms(2) by blast
  show ?thesis
    using inv wf claimed fresh by (auto simp: w1 once_at_def once_inv_def)
qed

lemma preserves_execute_occurrence:
  assumes "\<not> passed_by cursor oc"
  shows "preserves (once_at cursor) (ExecuteOccurrence_execute fmt (memory_ports outs) oc)"
proof (rule preservesI)
  fix w :: "'a MemoryWorld"
  assume w: "once_at cursor w"
  obtain d w0 where d: "PlanReconciliation_execute fmt (memory_ports outs) (occurrence_serviceId oc) w = (d, w0)"
    by fastforce
  have w0: "once_at cursor w0" by (rule preservesD[OF preserves_plan w d])
  obtain granted w1 where c: "memory_claim oc w0 = (Inr granted, w1)"
    by (cases "claim_occurrence oc (mw_claims w0)") (simp add: memory_claim_def)
  note step = claim_then_orchestrate[OF w0 assms c]
  have claim: "rc_claim (memory_ports outs) oc w0 = (Inr granted, others outs w1)"
      "rc_orchestrate (memory_ports outs) = memory_orchestrate outs" using c by (simp_all add: memory_ports_def awaited_def)
  have "once_at cursor (others outs w1\<lparr>mw_orchestrations := xs\<rparr>) = once_at cursor (w1\<lparr>mw_orchestrations := xs\<rparr>)" for xs
    by (simp add: once_at_def once_inv_def)
  moreover note d w0 step
  ultimately show "once_at cursor (snd (ExecuteOccurrence_execute fmt (memory_ports outs) oc w))"
    by (auto simp: ExecuteOccurrence_execute_def bindIO_def retIO_def throwIO_def claim memory_orchestrate_def
        on_outside_def split: sum.splits prod.splits if_splits)
qed

section \<open>The tick\<close>

lemma execute_ordered_inv:
  assumes "once_at cursor w" and "\<forall>c \<in> set entries. \<not> passed_by cursor (collected_occurrence c)"
    and "execute_ordered fmt (memory_ports outs) entries results w = (r, w')"
  shows "once_at cursor w'"
  using assms
proof (induction entries arbitrary: results w)
  case (Cons c entries)
  obtain e w1 where e: "ExecuteOccurrence_execute fmt (memory_ports outs) (collected_occurrence c) w = (e, w1)"
    by fastforce
  have "once_at cursor w1"
    using preservesD[OF preserves_execute_occurrence Cons.prems(1) e] Cons.prems(2) by simp
  then show ?case using Cons e by (auto split: sum.splits)
qed simp

lemma transition_loop_times:
  assumes "transition_loop fmt policy to t e = Inr ts" and "tr \<in> set ts"
  shows "\<exists>u. t \<le> u \<and> u \<le> to \<and> Availability.scheduledFor tr = iso u"
  using assms
proof (induction fmt policy to t e arbitrary: ts rule: transition_loop.induct)
  case (1 fmt policy to t e)
  note ih = "1.IH"
  show ?case
  proof (cases "t \<le> to")
    case False
    then show ?thesis using "1.prems" by (simp add: transition_loop.simps)
  next
    case True
    obtain e' where e': "evaluateServiceAvailabilityPolicy fmt policy (JDate (new_date t)) = Inr e'"
      using "1.prems"(1) True by (subst (asm) transition_loop.simps) (auto simp: Let_def result_simps)
    have step: "\<exists>u. t \<le> u \<and> u \<le> to \<and> Availability.scheduledFor tr = iso u"
      if "\<exists>u. t + MINUTE_IN_MILLISECONDS \<le> u \<and> u \<le> to \<and> Availability.scheduledFor tr = iso u"
    proof -
      from that obtain u where "t + MINUTE_IN_MILLISECONDS \<le> u" "u \<le> to" "Availability.scheduledFor tr = iso u" by blast
      moreover have "t \<le> u" using calculation(1) minute_pos by linarith
      ultimately show ?thesis by blast
    qed
    show ?thesis
    proof (cases "e' = e")
      case same: True
      then have "transition_loop fmt policy to (t + MINUTE_IN_MILLISECONDS) e = Inr ts"
        using "1.prems"(1) True e' by (subst (asm) transition_loop.simps) (simp add: Let_def)
      then show ?thesis using ih(2)[OF True refl, of e'] same "1.prems"(2) step by blast
    next
      case diff: False
      then obtain first rest where r: "createTransition e' (new_date t) = Inr first"
          "transition_loop fmt policy to (t + MINUTE_IN_MILLISECONDS) e' = Inr rest" "ts = first # rest"
        using "1.prems"(1) True e' by (subst (asm) transition_loop.simps) (auto simp: Let_def result_simps)
      show ?thesis
      proof (cases "tr = first")
        case True': True
        then have "Availability.scheduledFor tr = iso t"
          using r(1) by (auto simp: createTransition_def toISOString_def new_date_def result_simps split: if_splits)
        then show ?thesis using True by blast
      next
        case False
        then have "tr \<in> set rest" using "1.prems"(2) r(3) by simp
        then show ?thesis using ih(1)[OF True refl diff r(2)] step by blast
      qed
    qed
  qed
qed

text \<open>Every generated occurrence lies in the interval, after its start.\<close>

lemma generated_times:
  assumes "GenerateOccurrences_execute fmt ports sid (Some from) (Some to) w = (Inr ocs, w')" and "oc \<in> set ocs"
  shows "\<exists>u. from < u \<and> u \<le> to \<and> scheduledFor oc = iso u"
proof -
  obtain service ts where ts: "calculateServiceAvailabilityPolicyTransitions fmt (availabilityPolicy service)
        (JDate (Some from)) (JDate (Some to)) = Inr ts"
      and ocs: "mapR (occurrence_of service) ts = Inr ocs"
    using assms(1)
    by (auto simp: GenerateOccurrences_execute_def with_service_def bindIO_Inr split: option.splits) metis
  obtain tr where tr: "tr \<in> set ts" "scheduledFor oc = Availability.scheduledFor tr"
    using mapR_set[OF ocs assms(2)] occurrence_of_parts by metis
  have "ts = [] \<or> (\<exists>e. transition_loop fmt (availabilityPolicy service) to (from + MINUTE_IN_MILLISECONDS) e = Inr ts)"
    using ts by (auto simp: calculateServiceAvailabilityPolicyTransitions_def result_simps split: if_splits)
  then obtain e where "transition_loop fmt (availabilityPolicy service) to (from + MINUTE_IN_MILLISECONDS) e = Inr ts"
    using tr(1) by auto
  from transition_loop_times[OF this tr(1)] obtain u where
    u: "from + MINUTE_IN_MILLISECONDS \<le> u" "u \<le> to" "Availability.scheduledFor tr = iso u" by blast
  moreover have "from < u" using u(1) minute_pos by linarith
  ultimately show ?thesis using tr(2) by auto
qed

definition in_interval :: "int \<Rightarrow> int \<Rightarrow> CollectedOccurrence \<Rightarrow> bool" where
  "in_interval from to c \<longleftrightarrow> (\<exists>u. from < u \<and> u \<le> to \<and> scheduledFor (collected_occurrence c) = iso u)"

lemma collect_occurrences_inv:
  assumes "once_at cursor w" and "\<forall>c \<in> set acc. in_interval from to c"
    and "collect_occurrences fmt (memory_ports outs) (Some from) (Some to) services acc failures w = ((ocs, fs), w')"
  shows "once_at cursor w' \<and> (\<forall>c \<in> set ocs. in_interval from to c)"
  using assms
proof (induction services arbitrary: acc failures w)
  case (Cons service services)
  obtain r w1 where r: "GenerateOccurrences_execute fmt (memory_ports outs) (service_id service) (Some from) (Some to) w =
      (r, w1)" by fastforce
  have w1: "once_at cursor w1" by (rule preservesD[OF preserves_generate Cons.prems(1) r])
  show ?case
  proof (cases r)
    case (Inl e)
    then show ?thesis using Cons.IH[OF w1 Cons.prems(2)] Cons.prems(3) r by simp
  next
    case (Inr new)
    let ?new = "map (\<lambda>oc. \<lparr>collected_occurrence = oc, collected_serviceId = service_id service\<rparr>) new"
    have "\<forall>c \<in> set (acc @ ?new). in_interval from to c"
      using Cons.prems(2) generated_times[OF r[unfolded Inr]] by (auto simp: in_interval_def)
    from Cons.IH[OF w1 this] show ?thesis using Cons.prems(3) r Inr by simp
  qed
qed simp

lemma set_in_id_order: "set (in_id_order ids cs) \<subseteq> set cs"
  by (auto simp: in_id_order_def)

lemma set_order_group: "set (order_group g cs) \<subseteq> set cs"
  using set_in_id_order by (fastforce simp: order_group_def Let_def split: if_splits)

lemma set_orderCollected: "set (orderCollectedOccurrences cs g) \<subseteq> set cs"
  using set_order_group by (fastforce simp: orderCollectedOccurrences_def)

lemma not_passed_by:
  assumes "in_interval from to c" and "four_digit_year to"
    and "cursor = None \<or> (\<exists>k. cursor = Some k \<and> completedThrough k = iso from \<and> four_digit_year from)"
  shows "\<not> passed_by cursor (collected_occurrence c)"
proof (cases cursor)
  case (Some k)
  obtain u where u: "from < u" "u \<le> to" "scheduledFor (collected_occurrence c) = iso u"
    using assms(1) by (auto simp: in_interval_def)
  have k: "completedThrough k = iso from" "four_digit_year from" using assms(3) Some by auto
  then have "four_digit_year u" using u(1,2) assms(2) by (simp add: four_digit_year_def)
  then show ?thesis using Some u k by (simp add: passed_by_def)
qed (simp add: passed_by_def)

lemma preserves_tick:
  assumes "four_digit_year to"
    and "cursor = None \<or> (\<exists>k. cursor = Some k \<and> completedThrough k = iso from \<and> four_digit_year from)"
  shows "preserves (once_at cursor) (Tick_execute fmt (memory_ports outs) (Some from) (Some to))"
  unfolding Tick_execute_def
proof (intro preserves_bind preserves_memory_ports preservesI)
  fix services g and w :: "'a MemoryWorld"
  assume w: "once_at cursor w"
  obtain ocs fs w1 where c: "collect_occurrences fmt (memory_ports outs) (Some from) (Some to) services [] [] w =
      ((ocs, fs), w1)" by (metis surj_pair)
  obtain res w2 where e: "execute_ordered fmt (memory_ports outs) (orderCollectedOccurrences ocs g) [] w1 = (res, w2)"
    by fastforce
  have collected: "once_at cursor w1" "\<forall>c \<in> set ocs. in_interval from to c"
    using collect_occurrences_inv[OF w _ c] by simp_all
  have "\<forall>c \<in> set (orderCollectedOccurrences ocs g). \<not> passed_by cursor (collected_occurrence c)"
    using collected(2) set_orderCollected[of ocs g] not_passed_by[OF _ assms] by blast
  from execute_ordered_inv[OF collected(1) this e]
  show "once_at cursor (snd (case collect_occurrences fmt (memory_ports outs) (Some from) (Some to) services [] [] w of
       ((allOccurrences, failures), w1) \<Rightarrow>
         (case execute_ordered fmt (memory_ports outs) (orderCollectedOccurrences allOccurrences g) [] w1 of
            (results, w2) \<Rightarrow>
              (Inr (map (\<lambda>(sid, e). TickFailed sid e) failures @
                    concat (map (\<lambda>service. service_report results failures (service_id service)) services)), w2))))"
    by (simp add: c e)
qed

section \<open>The cycle\<close>

lemma preserves_memory_prune: "preserves (once_at (Some c)) (memory_prune c)"
proof (rule preservesI)
  fix w :: "'a MemoryWorld"
  assume w: "once_at (Some c) w"
  have inv: "wf_claims (mw_claims w)" "\<forall>oc \<in> set (mw_grants w). is_claimed (mw_claims w) oc \<or> passed_by (Some c) oc"
    using w by (auto simp: once_at_def once_inv_def)
  obtain pruned cl where p: "pruneCompletedThrough c (mw_claims w) = (pruned, cl)" by fastforce
  have "wf_claims cl" "\<And>y. is_claimed cl y \<longleftrightarrow> is_claimed (mw_claims w) y \<and> \<not> scheduledFor y \<le> completedThrough c"
    using cs.valid_prune[OF inv(1), of c] cs.claimed_prune[OF inv(1), of c] p by simp_all
  then have "once_at (Some c) (w\<lparr>mw_claims := cl\<rparr>)"
    using w inv(2) by (auto simp: once_at_def once_inv_def passed_by_def)
  then show "once_at (Some c) (snd (memory_prune c w))" using p by (simp add: memory_prune_def)
qed

lemma preserves_prune_claims: "preserves (once_at cursor) (PruneClaims_execute (memory_ports outs))"
proof (rule preservesI)
  fix w :: "'a MemoryWorld"
  assume w: "once_at cursor w"
  then have w1: "once_at cursor (others outs w)" and cursor: "mw_cursor w = cursor" by (simp_all add: once_at_def)
  have run: "PruneClaims_execute (memory_ports outs) w = (case cursor of
      None \<Rightarrow> (Inr NoCursor, others outs w)
    | Some c \<Rightarrow> bindIO (awaited outs (memory_prune c)) (\<lambda>pruned. retIO (if pruned then ClaimsPruned else ClaimsUnchanged)) (others outs w))"
    using cursor by (simp add: PruneClaims_execute_def memory_ports_def awaited_def bindIO_def retIO_def split: option.splits)
  show "once_at cursor (snd (PruneClaims_execute (memory_ports outs) w))"
  proof (cases cursor)
    case None
    then show ?thesis using w1 by (simp add: run)
  next
    case (Some c)
    have "preserves (once_at (Some c)) (bindIO (awaited outs (memory_prune c))
        (\<lambda>pruned. retIO (if pruned then ClaimsPruned else ClaimsUnchanged)))"
      by (intro preserves_intros preserves_awaited preserves_memory_prune)
    then show ?thesis using w1 Some by (simp add: run preserves_def)
  qed
qed

lemma passed_by_forward:
  assumes "advance_cursor expected next cursor = (r, cursor')" and "passed_by cursor oc"
  shows "passed_by cursor' oc"
  using assms by (auto simp: advance_cursor_def passed_by_def split: option.splits if_splits)

lemma advance_inv:
  assumes "once_at cursor w" and "four_digit_year t" and "completedThrough next = iso t" and "aligned t"
  shows "once_inv (snd (memory_advance expected next w))"
proof -
  obtain r cursor' where a: "advance_cursor expected next (mw_cursor w) = (r, cursor')" by fastforce
  have "cursor_in_range cursor'"
    using a assms by (auto simp: advance_cursor_def cursor_in_range_def once_at_def once_inv_def split: if_splits)
  then have "once_inv (w\<lparr>mw_cursor := cursor'\<rparr>)"
    using assms(1) passed_by_forward[OF a] by (auto simp: once_at_def once_inv_def)
  then show ?thesis using a by (cases r) (simp_all add: memory_advance_def)
qed

lemma cycle_interval_inv:
  assumes "once_at cursor w" and "four_digit_year to" and "\<bar>from\<bar> \<le> max_time"
    and "cursor = None \<or> (\<exists>k. cursor = Some k \<and> completedThrough k = iso from \<and> four_digit_year from)"
  shows "once_inv (snd (cycle_interval fmt (memory_ports outs) cursor from to w))"
proof -
  let ?P = "memory_ports outs"
  have dates: "new_date from = Some from" "new_date to = Some to"
    using assms(2,3) four_digit_year_bound by simp_all
  obtain rep w1 where t: "Tick_execute fmt ?P (Some from) (Some to) w = (rep, w1)" by fastforce
  obtain pr w2 where p: "PruneExpiredOverrides_execute ?P w1 = (pr, w2)" by fastforce
  obtain cl w3 where c: "PruneClaims_execute ?P w2 = (cl, w3)" by fastforce
  have w1: "once_at cursor w1" by (rule preservesD[OF preserves_tick[OF assms(2,4)] assms(1) t])
  have w2: "once_at cursor w2" by (rule preservesD[OF preserves_prune_overrides w1 p])
  have w3: "once_at cursor w3" by (rule preservesD[OF preserves_prune_claims w2 c])
  have advance: "once_inv (snd (memory_advance cursor next w3))" if "create_Cursor (JStr (iso to)) = Inr next" for "next"
  proof -
    have "completedThrough next = iso to" "aligned to"
      using that four_digit_year_bound[OF assms(2)]
      by (auto simp: create_Cursor_def result_simps aligned_iff_utc split: option.splits if_splits)
    then show ?thesis by (rule advance_inv[OF w3 assms(2)])
  qed
  have "once_inv w1" "once_inv w2" "once_inv w3" using w1 w2 w3 by (simp_all add: once_at_def)
  moreover have "rc_advanceCursor ?P cursor next = awaited outs (memory_advance cursor next)" for "next"
    by (simp add: memory_ports_def)
  moreover have "once_inv w4" if "awaited outs (memory_advance cursor next) w3 = (r, w4)" "create_Cursor (JStr (iso to)) = Inr next"
    for "next" r w4 using advance[OF that(2)] that(1) by (auto simp: awaited_def split: prod.splits)
  ultimately show ?thesis
    using t p c
    by (auto simp: cycle_interval_def Let_def dates toISOString_def bindIO_def retIO_def liftIO_def
        split: prod.splits sum.splits if_splits)
qed

lemma four_digit_floor:
  assumes "four_digit_year t"
  shows "four_digit_year (t div MINUTE_IN_MILLISECONDS * MINUTE_IN_MILLISECONDS)"
proof -
  have "(- 62167219200000) div 60000 \<le> t div 60000" using assms by (intro zdiv_mono1) (simp_all add: four_digit_year_def)
  moreover have "60000 * (t div 60000) \<le> t" by (rule div_lower) simp
  ultimately show ?thesis using assms by (simp add: four_digit_year_def MINUTE_IN_MILLISECONDS_def)
qed

definition clock_in_range :: "'x OutsidePorts \<Rightarrow> bool" where
  "clock_in_range outs \<longleftrightarrow> (\<forall>u t u'. out_now outs u = (Inr (Some t), u') \<longrightarrow> four_digit_year t)"

lemma clock_read:
  assumes "clock_in_range outs" and "rc_now (memory_ports outs) w = (Inr (Some t), w')"
  shows "four_digit_year t"
proof -
  have "out_now outs (mw_overrides w, mw_policies w, mw_outside w) =
      (Inr (Some t), snd (out_now outs (mw_overrides w, mw_policies w, mw_outside w)))"
    using assms(2) by (auto simp: memory_ports_def on_outside_def split: prod.splits)
  then show ?thesis using assms(1) unfolding clock_in_range_def by blast
qed

lemma cycle_inv:
  assumes "clock_in_range outs" and "once_inv w"
  shows "once_inv (snd (Cycle_execute fmt (memory_ports outs) w))"
proof -
  let ?P = "memory_ports outs" and ?M = MINUTE_IN_MILLISECONDS and ?X = MAXIMUM_INTERVAL_IN_MILLISECONDS
  obtain n w1 where n: "rc_now ?P (others outs w) = (n, w1)" by fastforce
  have at: "once_at (mw_cursor w) (others outs w)" using assms(2) by (simp add: once_at_def)
  have w1: "once_at (mw_cursor w) w1" by (rule preservesD[OF preserves_memory_ports(4) at n])
  then have inv1: "once_inv w1" by (simp add: once_at_def)
  have read: "rc_readCursor ?P w = (Inr (mw_cursor w), others outs w)" by (simp add: memory_ports_def awaited_def)
  have range: "four_digit_year t" if "n = Inr (Some t)" for t
    using clock_read[OF assms(1)] n that by blast
  show ?thesis
  proof (cases "\<exists>t. n = Inr (Some t)")
    case False
    then show ?thesis
      using inv1 n read
      by (auto simp: Cycle_execute_def bindIO_def liftIO_def getCanonicalTargetTimestamp_def
          split: sum.splits option.splits)
  next
    case True
    then obtain t where t: "n = Inr (Some t)" by blast
    define target where "target = t div ?M * ?M"
    have ft: "four_digit_year target" unfolding target_def by (rule four_digit_floor[OF range[OF t]])
    show ?thesis
    proof (cases "mw_cursor w")
      case None
      have "target = min target (target - ?M + ?X)"
        by (simp add: MINUTE_IN_MILLISECONDS_def MAXIMUM_INTERVAL_IN_MILLISECONDS_def)
      moreover have "\<bar>target - ?M\<bar> \<le> max_time"
        using ft by (auto simp: four_digit_year_def max_time_def MINUTE_IN_MILLISECONDS_def)
      ultimately have "once_inv (snd (cycle_interval fmt ?P None (target - ?M) (min target (target - ?M + ?X)) w1))"
        using cycle_interval_inv[of None w1 target "target - ?M"] w1 None ft by simp
      then show ?thesis
        using n read t None
        by (simp add: Cycle_execute_def bindIO_def liftIO_def getCanonicalTargetTimestamp_def Let_def target_def)
    next
      case (Some c)
      obtain fr where f: "four_digit_year fr" "completedThrough c = iso fr" "aligned fr"
        using assms(2) Some by (auto simp: once_inv_def cursor_in_range_def)
      then have ct: "cursor_timestamp c = Inr fr"
        using four_digit_year_bound by (simp add: cursor_timestamp_def)
      have step: "once_inv (snd (cycle_interval fmt ?P (Some c) fr (min target (fr + ?X)) w1))" if "fr < target"
      proof (rule cycle_interval_inv)
        show "once_at (Some c) w1" using w1 Some by simp
        show "four_digit_year (min target (fr + ?X))"
          using ft f(1) that by (auto simp: four_digit_year_def min_def MINUTE_IN_MILLISECONDS_def MAXIMUM_INTERVAL_IN_MILLISECONDS_def)
        show "\<bar>fr\<bar> \<le> max_time" by (rule four_digit_year_bound[OF f(1)])
        show "Some c = None \<or> (\<exists>k. Some c = Some k \<and> completedThrough k = iso fr \<and> four_digit_year fr)"
          using f by simp
      qed
      have "snd (Cycle_execute fmt ?P w) =
          snd (if target < fr then (Inl (ServiceAvailabilityReconciliationSchedulerCycleError ''clock_before_cursor''), w1)
               else if target = fr then (Inr (CycleIdle c), w1)
               else cycle_interval fmt ?P (Some c) fr (min target (fr + ?X)) w1)"
        using n read t Some ct
        by (simp add: Cycle_execute_def bindIO_def liftIO_def throwIO_def retIO_def getCanonicalTargetTimestamp_def
            target_def)
      then show ?thesis using step inv1 by (cases target fr rule: linorder_cases) simp_all
    qed
  qed
qed

lemma once_inv_preserved: "preserves (once_at (mw_cursor w)) m \<Longrightarrow> once_inv w \<Longrightarrow> once_inv (snd (m w))"
  by (auto simp: preserves_def once_at_def)

lemma step_inv:
  assumes "clock_in_range outs" and "memory_step fmt outs w w'" and "once_inv w"
  shows "once_inv w'"
  using assms(2)
proof cases
  case cycle
  then show ?thesis using cycle_inv[OF assms(1,3)] by simp
next
  case outside
  then show ?thesis using assms(3) by (simp add: once_inv_def)
qed (simp_all add: once_inv_preserved[OF _ assms(3)] preserves_administration)

section \<open>What a cycle does to the cursor\<close>

definition complete :: "TickServiceResult list \<Rightarrow> PruneOverrideResult list \<Rightarrow> bool" where
  "complete report pruning \<longleftrightarrow> \<not> isIncompleteReconciliationReport report \<and> \<not> isIncompletePruningReport pruning"

definition interval_outcome :: "cursor_state \<Rightarrow> int \<Rightarrow> CycleResult \<Rightarrow> 'x MemoryWorld \<Rightarrow> bool" where
  "interval_outcome cursor to res w \<longleftrightarrow>
     (case res of
        CycleIncomplete _ report pruning _ \<Rightarrow> mw_cursor w = cursor \<and> \<not> complete report pruning
      | CycleAdvanced _ report pruning _ \<Rightarrow>
          mw_cursor w = Some \<lparr>completedThrough = iso to\<rparr> \<and> complete report pruning
      | _ \<Rightarrow> False)"

lemma cycle_interval_outcome:
  assumes "once_at cursor w" and "four_digit_year to" and "\<bar>from\<bar> \<le> max_time"
    and "cursor = None \<or> (\<exists>k. cursor = Some k \<and> completedThrough k = iso from \<and> four_digit_year from)"
    and "aligned to"
    and "cycle_interval fmt (memory_ports outs) cursor from to w = (Inr res, w')"
  shows "interval_outcome cursor to res w'"
proof -
  let ?P = "memory_ports outs"
  have dates: "new_date from = Some from" "new_date to = Some to"
    using assms(2,3) four_digit_year_bound by simp_all
  note made = create_Cursor_iso[OF four_digit_year_bound[OF assms(2)] assms(5)]
  obtain report w1 where t: "Tick_execute fmt ?P (Some from) (Some to) w = (Inr report, w1)"
    using assms(6) by (auto simp: cycle_interval_def Let_def dates bindIO_Inr)
  then obtain pruning w2 where p: "PruneExpiredOverrides_execute ?P w1 = (Inr pruning, w2)"
    using assms(6) by (auto simp: cycle_interval_def Let_def dates bindIO_Inr)
  have w1: "once_at cursor w1" by (rule preservesD[OF preserves_tick[OF assms(2,4)] assms(1) t])
  have w2: "once_at cursor w2" by (rule preservesD[OF preserves_prune_overrides w1 p])
  obtain cl w3 where c: "PruneClaims_execute ?P w2 = (cl, w3)" by fastforce
  have w3: "once_at cursor w3" by (rule preservesD[OF preserves_prune_claims w2 c])
  have cursors: "mw_cursor w2 = cursor" "mw_cursor w3 = cursor" using w2 w3 by (simp_all add: once_at_def)
  have adv: "rc_advanceCursor ?P cursor next = awaited outs (memory_advance cursor next)" for "next"
    by (simp add: memory_ports_def)
  have "awaited outs (memory_advance cursor \<lparr>completedThrough = iso to\<rparr>) w3 = (Inr (advanced, cursor'), w4) \<Longrightarrow>
      advanced \<and> mw_cursor w4 = Some \<lparr>completedThrough = iso to\<rparr>" for advanced cursor' w4
    by (auto simp: awaited_def memory_advance_def advance_cursor_def cursors isSameCursor_eq split: if_splits)
  then show ?thesis
    using assms(6) t p c cursors made
    by (auto simp: cycle_interval_def Let_def dates toISOString_def bindIO_Inr adv interval_outcome_def complete_def
        split: if_splits)
qed

text \<open>What a cycle reports is what its tick over the interval, and then its pruning, answered.\<close>

definition reported :: "CycleResult \<Rightarrow> TickServiceResult list \<Rightarrow> PruneOverrideResult list \<Rightarrow> bool" where
  "reported res report pruning \<longleftrightarrow>
     (case res of
        CycleIdle _ \<Rightarrow> False
      | CycleIncomplete _ r p _ \<Rightarrow> r = report \<and> p = pruning
      | CycleAdvanced _ r p _ \<Rightarrow> r = report \<and> p = pruning
      | CycleConflict _ r p _ \<Rightarrow> r = report \<and> p = pruning)"

lemma cycle_interval_runs:
  assumes "cycle_interval fmt ports cursor from to w = (Inr res, w')"
  shows "\<exists>report pruning w1 w2. Tick_execute fmt ports (new_date from) (new_date to) w = (Inr report, w1) \<and>
    PruneExpiredOverrides_execute ports w1 = (Inr pruning, w2) \<and> reported res report pruning"
  using assms by (auto simp: cycle_interval_def Let_def bindIO_Inr reported_def split: if_splits)

text \<open>The interval of a cycle: from the cursor, or one minute back, at most eight days on.\<close>

lemma cycle_cases:
  assumes "clock_in_range outs" and "once_inv w" and "Cycle_execute fmt (memory_ports outs) w = (Inr res, w')"
  obtains (idle) c where "res = CycleIdle c" "mw_cursor w' = mw_cursor w"
  | (ran) fr to w1 where "once_at (mw_cursor w) w1" "four_digit_year to" "\<bar>fr\<bar> \<le> max_time" "aligned to" "aligned fr"
      "mw_cursor w = None \<and> to = fr + MINUTE_IN_MILLISECONDS \<or>
       mw_cursor w = Some \<lparr>completedThrough = iso fr\<rparr> \<and> four_digit_year fr"
      "fr < to" "\<exists>t. rc_now (memory_ports outs) (others outs w) = (Inr (Some t), w1) \<and>
        to = min (t div MINUTE_IN_MILLISECONDS * MINUTE_IN_MILLISECONDS) (fr + MAXIMUM_INTERVAL_IN_MILLISECONDS)"
      "cycle_interval fmt (memory_ports outs) (mw_cursor w) fr to w1 = (Inr res, w')"
proof -
  let ?P = "memory_ports outs" and ?M = MINUTE_IN_MILLISECONDS and ?X = MAXIMUM_INTERVAL_IN_MILLISECONDS
  have read: "rc_readCursor ?P w = (Inr (mw_cursor w), others outs w)" by (simp add: memory_ports_def awaited_def)
  obtain clock w1 where clock: "rc_now ?P (others outs w) = (clock, w1)" by fastforce
  have "\<exists>t. clock = Inr (Some t)"
    using assms(3) read clock
    by (auto simp: Cycle_execute_def bindIO_def liftIO_def getCanonicalTargetTimestamp_def
        split: sum.splits option.splits)
  then obtain t where n: "rc_now ?P (others outs w) = (Inr (Some t), w1)" using clock by blast
  have "once_at (mw_cursor w) (others outs w)" using assms(2) by (simp add: once_at_def)
  from preservesD[OF preserves_memory_ports(4) this n] have w1: "once_at (mw_cursor w) w1" .
  have "four_digit_year t"
    by (rule clock_read[OF assms(1) n])
  define target where "target = t div ?M * ?M"
  have ft: "four_digit_year target" unfolding target_def by (rule four_digit_floor) fact
  have al: "aligned target" "aligned ?X" "aligned ?M"
    by (simp_all add: target_def aligned_def MAXIMUM_INTERVAL_IN_MILLISECONDS_def MINUTE_IN_MILLISECONDS_def)
  show thesis
  proof (cases "mw_cursor w")
    case None
    have "min target (target - ?M + ?X) = target"
      by (simp add: MINUTE_IN_MILLISECONDS_def MAXIMUM_INTERVAL_IN_MILLISECONDS_def)
    then have run: "cycle_interval fmt ?P (mw_cursor w) (target - ?M) target w1 = (Inr res, w')"
      using assms(3) n read None
      by (simp add: Cycle_execute_def bindIO_def liftIO_def getCanonicalTargetTimestamp_def Let_def target_def)
    show thesis
    proof (rule ran[OF w1 ft _ al(1) _ _ _ _ run])
      show "\<bar>target - ?M\<bar> \<le> max_time"
        using ft by (auto simp: four_digit_year_def max_time_def MINUTE_IN_MILLISECONDS_def)
      show "aligned (target - ?M)" using aligned_plus[of "target - ?M"] al(1) by simp
      show "\<exists>t. rc_now ?P (others outs w) = (Inr (Some t), w1) \<and> target = min (t div ?M * ?M) (target - ?M + ?X)"
        using n by (intro exI[of _ t]) (simp add: target_def MINUTE_IN_MILLISECONDS_def MAXIMUM_INTERVAL_IN_MILLISECONDS_def)
    qed (use None in \<open>simp_all add: MINUTE_IN_MILLISECONDS_def\<close>)
  next
    case (Some c)
    obtain fr where f: "four_digit_year fr" "completedThrough c = iso fr" "aligned fr"
      using assms(2) Some by (auto simp: once_inv_def cursor_in_range_def)
    then have ct: "cursor_timestamp c = Inr fr" using four_digit_year_bound by (simp add: cursor_timestamp_def)
    have ex: "(if target < fr then (Inl (ServiceAvailabilityReconciliationSchedulerCycleError ''clock_before_cursor''), w1)
        else if target = fr then (Inr (CycleIdle c), w1)
        else cycle_interval fmt ?P (mw_cursor w) fr (min target (fr + ?X)) w1) = (Inr res, w')"
      using assms(3) n read Some ct
      by (simp add: Cycle_execute_def bindIO_def liftIO_def throwIO_def retIO_def getCanonicalTargetTimestamp_def
          target_def split: if_splits)
    show thesis
    proof (cases target fr rule: linorder_cases)
      case less
      then show thesis using ex by simp
    next
      case equal
      then show thesis using ex w1 by (intro idle[of c]) (auto simp: once_at_def)
    next
      case greater
      then have run: "cycle_interval fmt ?P (mw_cursor w) fr (min target (fr + ?X)) w1 = (Inr res, w')"
        using ex by simp
      show thesis
      proof (rule ran[OF w1 _ _ _ _ _ _ _ run])
        show "four_digit_year (min target (fr + ?X))"
          using ft f(1) greater
          by (auto simp: four_digit_year_def min_def MINUTE_IN_MILLISECONDS_def MAXIMUM_INTERVAL_IN_MILLISECONDS_def)
        show "aligned (min target (fr + ?X))"
          using al f(3) by (simp add: min_def aligned_def mod_add_eq[symmetric])
        show "\<bar>fr\<bar> \<le> max_time" by (rule four_digit_year_bound[OF f(1)])
        have "c = \<lparr>completedThrough = iso fr\<rparr>" using f(2) by (cases c) simp
        then show "mw_cursor w = None \<and> min target (fr + ?X) = fr + ?M \<or>
            mw_cursor w = Some \<lparr>completedThrough = iso fr\<rparr> \<and> four_digit_year fr"
          using Some f(1) by simp
        show "\<exists>t. rc_now ?P (others outs w) = (Inr (Some t), w1) \<and> min target (fr + ?X) = min (t div ?M * ?M) (fr + ?X)"
          using n by (intro exI[of _ t]) (simp add: target_def)
      qed (use greater f(3) in \<open>simp_all add: MINUTE_IN_MILLISECONDS_def MAXIMUM_INTERVAL_IN_MILLISECONDS_def\<close>)
    qed
  qed
qed

lemma reachable_inv:
  assumes "clock_in_range outs" and "(memory_step fmt outs)\<^sup>*\<^sup>* (initial_world services x) w"
  shows "once_inv w"
  using assms(2)
proof (induction rule: rtranclp_induct)
  case base
  show ?case by (simp add: initial_world_def once_inv_def wf_claims_def cursor_in_range_def)
next
  case (step v w)
  show ?case by (rule step_inv[OF assms(1) step.hyps(2) step.IH])
qed

section \<open>Properties\<close>

text \<open>
  C2. However scheduler cycles, changes of overrides and policies and changes outside interleave,
  and whatever calls fail, each scheduled occurrence is granted and orchestrated at most once: the
  orchestrations requested are exactly those of the granted occurrences, which are all different.
\<close>

theorem occurrences_orchestrated_once:
  assumes "clock_in_range outs" and "(memory_step fmt outs)\<^sup>*\<^sup>* (initial_world services x) w"
  shows "distinct (mw_grants w) \<and>
    mw_orchestrations w = map (\<lambda>oc. (occurrence_serviceId oc, occurrence_operation oc)) (mw_grants w)"
  using reachable_inv[OF assms] by (simp add: once_inv_def)

text \<open>
  C9. The cursor moves exactly over what was worked through. A cycle that returns is idle and leaves the
  cursor, or runs the tick over the whole interval that starts at the cursor (or one minute before the
  last full minute of the clock, when there is none) and ends at that minute, or eight days after the
  cursor if that is earlier, and then prunes the overrides. What it reports is what these answered; it
  leaves the cursor where it was if anything in this failed, and moves it to the end of that interval
  otherwise; in one process the advance never conflicts. So no minute is skipped and none is left behind
  a failure.
\<close>

theorem cycle_moves_cursor_contiguously:
  assumes "clock_in_range outs" and "(memory_step fmt outs)\<^sup>*\<^sup>* (initial_world services x) w"
    and "Cycle_execute fmt (memory_ports outs) w = (Inr res, w')"
  shows "(\<exists>c. res = CycleIdle c \<and> mw_cursor w' = mw_cursor w) \<or>
    (\<exists>t fr to report pruning w1 w2 w3.
       rc_now (memory_ports outs) (others outs w) = (Inr (Some t), w1) \<and>
       to = min (t div MINUTE_IN_MILLISECONDS * MINUTE_IN_MILLISECONDS) (fr + MAXIMUM_INTERVAL_IN_MILLISECONDS) \<and>
       fr < to \<and> aligned fr \<and>
       (mw_cursor w = Some \<lparr>completedThrough = iso fr\<rparr> \<or> mw_cursor w = None \<and> to = fr + MINUTE_IN_MILLISECONDS) \<and>
       Tick_execute fmt (memory_ports outs) (Some fr) (Some to) w1 = (Inr report, w2) \<and>
       PruneExpiredOverrides_execute (memory_ports outs) w2 = (Inr pruning, w3) \<and>
       reported res report pruning \<and>
       (case res of
          CycleIncomplete _ _ _ _ \<Rightarrow> mw_cursor w' = mw_cursor w \<and> \<not> complete report pruning
        | CycleAdvanced _ _ _ _ \<Rightarrow> mw_cursor w' = Some \<lparr>completedThrough = iso to\<rparr> \<and> complete report pruning
        | _ \<Rightarrow> False))"
  using assms(1) reachable_inv[OF assms(1,2)] assms(3)
proof (cases rule: cycle_cases)
  case (idle c)
  then show ?thesis by simp
next
  case (ran fr to w1)
  have "mw_cursor w = None \<or> (\<exists>k. mw_cursor w = Some k \<and> completedThrough k = iso fr \<and> four_digit_year fr)"
    using ran(6) by auto
  from cycle_interval_outcome[OF ran(1-3) this ran(4,9)] have outcome: "interval_outcome (mw_cursor w) to res w'" .
  have dates: "new_date fr = Some fr" "new_date to = Some to"
    using ran(2,3) four_digit_year_bound by simp_all
  obtain report pruning w2 w3 where run: "Tick_execute fmt (memory_ports outs) (Some fr) (Some to) w1 = (Inr report, w2)"
      "PruneExpiredOverrides_execute (memory_ports outs) w2 = (Inr pruning, w3)" "reported res report pruning"
    using cycle_interval_runs[OF ran(9)] unfolding dates by blast
  have result: "case res of
      CycleIncomplete _ _ _ _ \<Rightarrow> mw_cursor w' = mw_cursor w \<and> \<not> complete report pruning
    | CycleAdvanced _ _ _ _ \<Rightarrow> mw_cursor w' = Some \<lparr>completedThrough = iso to\<rparr> \<and> complete report pruning
    | _ \<Rightarrow> False"
    using outcome run(3) by (cases res) (auto simp: interval_outcome_def reported_def)
  have start: "mw_cursor w = Some \<lparr>completedThrough = iso fr\<rparr> \<or> mw_cursor w = None \<and> to = fr + MINUTE_IN_MILLISECONDS"
    using ran(6) by blast
  show ?thesis using ran(5,7,8) start run result by blast
qed

text \<open>
  The run of the witness: the service \<open>api\<close> is scheduled on Mondays from 08:00, stands still and the
  clock shows that minute; one cycle starts it.
\<close>

definition monday_outs :: "unit OutsidePorts" where
  "monday_outs =
     \<lparr>out_now = retIO (Some 385200000),
      out_status = (\<lambda>service. retIO stopped),
      out_graph = retIO sample_graph,
      out_orchestrate = (\<lambda>sid operation authority. retIO (sample_result\<lparr>result_targetServiceId := sid\<rparr>)),
      out_others = (\<lambda>s. s)\<rparr>"

definition monday_world :: "unit MemoryWorld" where
  "monday_world = initial_world [plain_service ''api''\<lparr>availabilityPolicy := monday_policy\<rparr>] ()"

definition monday_occurrence :: ServiceAvailabilityReconciliationOccurrence where
  "monday_occurrence = \<lparr>occurrence_serviceId = ''api'', occurrence_operation = start,
     scheduledFor = ''1970-01-05T11:00:00.000Z''\<rparr>"

lemma monday_grants:
  "mw_grants (snd (Cycle_execute saoPauloFormatter (memory_ports monday_outs) monday_world)) = [monday_occurrence]"
  by code_simp

lemma monday_clock: "clock_in_range monday_outs"
  by (auto simp: clock_in_range_def monday_outs_def four_digit_year_def)

theorem occurrences_orchestrated_once_witness:
  "mw_orchestrations (snd (Cycle_execute saoPauloFormatter (memory_ports monday_outs) monday_world)) = [(''api'', start)]"
proof -
  have "(memory_step saoPauloFormatter monday_outs)\<^sup>*\<^sup>* monday_world
      (snd (Cycle_execute saoPauloFormatter (memory_ports monday_outs) monday_world))"
    by (rule r_into_rtranclp) (rule memory_step.cycle)
  from occurrences_orchestrated_once[OF monday_clock this[unfolded monday_world_def]]
  show ?thesis using monday_grants by (simp add: monday_world_def monday_occurrence_def)
qed

theorem cycle_moves_cursor_contiguously_witness:
  "mw_cursor (snd (Cycle_execute saoPauloFormatter (memory_ports monday_outs) monday_world)) \<noteq> None"
proof -
  let ?r = "fst (Cycle_execute saoPauloFormatter (memory_ports monday_outs) monday_world)"
  have adv: "case ?r of Inr (CycleAdvanced _ _ _ _) \<Rightarrow> True | _ \<Rightarrow> False" by code_simp
  then obtain c rep pr cl where r: "?r = Inr (CycleAdvanced c rep pr cl)"
    by (cases ?r) (auto split: CycleResult.splits)
  then have "Cycle_execute saoPauloFormatter (memory_ports monday_outs) monday_world =
      (Inr (CycleAdvanced c rep pr cl), snd (Cycle_execute saoPauloFormatter (memory_ports monday_outs) monday_world))"
    by (metis prod.collapse)
  from cycle_moves_cursor_contiguously[OF monday_clock _ this[unfolded monday_world_def]] show ?thesis
    by (auto simp: monday_world_def)
qed

end
