(* ===== verification/Scheduler_Loop.thy ===== *)
theory Scheduler_Loop
  imports Reconciliation
begin

text \<open>
  The scheduler loops (\<open>application/service-availability-reconciliation-scheduler-loop.ts\<close> and
  \<open>power-management/application/machine-power-scheduler-loop.ts\<close>, the same machine over different
  results): one cycle at a time, a timer between two cycles, one completion. Every handler runs to
  its end before the next, so the loop is a step relation whose events come in any order: calls of
  \<open>start\<close> and \<open>stop\<close>, the end of a cycle, and timer callbacks, late and repeated ones included.
\<close>

section \<open>State and handlers\<close>

datatype 'r loop_completion =
    LoopStopped
  | LoopBlocked 'r
  | LoopIncomplete 'r
  | LoopConflict 'r
  | LoopFailed js_error

text \<open>
  \<open>completion\<close> is what the promise was resolved with (the flag \<open>#completed\<close> is that it was),
  \<open>pendingTimer\<close> the number of the callback whose handle is held. \<open>callbacks\<close> counts the callbacks
  created and \<open>consumed\<close> holds those whose \<open>callbackConsumed\<close> is set; \<open>unfinished\<close> counts the cycles
  that have begun and not ended, and \<open>cycles\<close> those that have begun.
\<close>

record 'r loop_state =
  started :: bool
  stopRequested :: bool
  completion :: "'r loop_completion option"
  cycleInFlight :: bool
  pendingTimer :: "nat option"
  callbacks :: nat
  consumed :: "nat list"
  unfinished :: nat
  cycles :: nat

definition initial_loop :: "'r loop_state" where
  "initial_loop =
     \<lparr>started = False, stopRequested = False, completion = None, cycleInFlight = False, pendingTimer = None,
      callbacks = 0, consumed = [], unfinished = 0, cycles = 0\<rparr>"

definition loop_complete :: "'r loop_completion \<Rightarrow> 'r loop_state \<Rightarrow> 'r loop_state" where
  "loop_complete c s = (if completion s \<noteq> None then s else s\<lparr>completion := Some c\<rparr>)"

text \<open>The argument is the error that \<open>runCycle.execute()\<close> throws before it returns a promise, if any.\<close>

definition runNextCycle :: "js_error option \<Rightarrow> 'r loop_state \<Rightarrow> 'r loop_state" where
  "runNextCycle thrown s =
     (if completion s \<noteq> None \<or> stopRequested s \<or> cycleInFlight s then s
      else let s1 = s\<lparr>cycleInFlight := True\<rparr> in
        (case thrown of
           Some e \<Rightarrow> loop_complete (LoopFailed e) (s1\<lparr>cycleInFlight := False\<rparr>)
         | None \<Rightarrow> s1\<lparr>unfinished := unfinished s + 1, cycles := cycles s + 1\<rparr>))"

definition loop_start :: "js_error option \<Rightarrow> 'r loop_state \<Rightarrow> 'r loop_state" where
  "loop_start thrown s =
     (if \<not> started s \<and> completion s = None then runNextCycle thrown (s\<lparr>started := True\<rparr>) else s)"

text \<open>The argument is the error that \<open>pendingTimer.cancel()\<close> throws, if any.\<close>

definition loop_stop :: "js_error option \<Rightarrow> 'r loop_state \<Rightarrow> 'r loop_state" where
  "loop_stop thrown s =
     (if completion s \<noteq> None then s
      else let s1 = s\<lparr>stopRequested := True\<rparr> in
        if \<not> started s1 then loop_complete LoopStopped (s1\<lparr>started := True\<rparr>)
        else (case pendingTimer s1 of
                Some k \<Rightarrow>
                  let s2 = s1\<lparr>pendingTimer := None\<rparr> in
                  (case thrown of
                     Some e \<Rightarrow> loop_complete (LoopFailed e) s2
                   | None \<Rightarrow> loop_complete LoopStopped s2)
              | None \<Rightarrow> if \<not> cycleInFlight s1 then loop_complete LoopStopped s1 else s1))"

text \<open>The argument is the error that \<open>timer.schedule\<close> throws, if any.\<close>

definition scheduleNextCycle :: "js_error option \<Rightarrow> 'r loop_state \<Rightarrow> 'r loop_state" where
  "scheduleNextCycle thrown s =
     (let s1 = s\<lparr>callbacks := callbacks s + 1\<rparr> in
      case thrown of
        Some e \<Rightarrow> loop_complete (LoopFailed e) s1
      | None \<Rightarrow> s1\<lparr>pendingTimer := Some (callbacks s)\<rparr>)"

text \<open>
  \<open>classify\<close> says which results end the loop; a result it accepts lets the loop go on unless a
  stop was requested meanwhile.
\<close>

definition handleCycleResult ::
  "('r \<Rightarrow> 'r loop_completion option) \<Rightarrow> js_error option \<Rightarrow> 'r \<Rightarrow> 'r loop_state \<Rightarrow> 'r loop_state" where
  "handleCycleResult classify thrown r s =
     (case classify r of
        Some c \<Rightarrow> loop_complete c s
      | None \<Rightarrow> if stopRequested s then loop_complete LoopStopped s else scheduleNextCycle thrown s)"

definition cycle_resolved ::
  "('r \<Rightarrow> 'r loop_completion option) \<Rightarrow> js_error option \<Rightarrow> 'r \<Rightarrow> 'r loop_state \<Rightarrow> 'r loop_state" where
  "cycle_resolved classify thrown r s =
     handleCycleResult classify thrown r (s\<lparr>unfinished := unfinished s - 1, cycleInFlight := False\<rparr>)"

definition cycle_rejected :: "js_error \<Rightarrow> 'r loop_state \<Rightarrow> 'r loop_state" where
  "cycle_rejected e s = loop_complete (LoopFailed e) (s\<lparr>unfinished := unfinished s - 1, cycleInFlight := False\<rparr>)"

definition timer_callback :: "nat \<Rightarrow> js_error option \<Rightarrow> 'r loop_state \<Rightarrow> 'r loop_state" where
  "timer_callback k thrown s =
     (if k \<in> set (consumed s) then s
      else let s1 = s\<lparr>consumed := k # consumed s, pendingTimer := None\<rparr> in
        if completion s1 = None \<and> \<not> stopRequested s1 then runNextCycle thrown s1 else s1)"

text \<open>
  A callback exists once it has been created; even one whose \<open>schedule\<close> threw may have been
  registered.
\<close>

inductive loop_step :: "('r \<Rightarrow> 'r loop_completion option) \<Rightarrow> 'r loop_state \<Rightarrow> 'r loop_state \<Rightarrow> bool"
  for classify :: "'r \<Rightarrow> 'r loop_completion option" where
  start_called: "loop_step classify s (loop_start thrown s)"
| stop_called: "loop_step classify s (loop_stop thrown s)"
| resolved: "0 < unfinished s \<Longrightarrow> loop_step classify s (cycle_resolved classify thrown r s)"
| rejected: "0 < unfinished s \<Longrightarrow> loop_step classify s (cycle_rejected e s)"
| fired: "k < callbacks s \<Longrightarrow> loop_step classify s (timer_callback k thrown s)"

inductive_cases loop_stepE: "loop_step classify s s'"

lemmas loop_defs = loop_complete_def runNextCycle_def loop_start_def loop_stop_def scheduleNextCycle_def
  handleCycleResult_def cycle_resolved_def cycle_rejected_def timer_callback_def Let_def

section \<open>The invariant\<close>

text \<open>
  One cycle at a time; before the start nothing has happened; while the loop has not completed,
  exactly one of a cycle and a fresh timer is under way; the timer held is the last one created.
\<close>

definition loop_inv :: "'r loop_state \<Rightarrow> bool" where
  "loop_inv s \<longleftrightarrow>
     unfinished s = (if cycleInFlight s then 1 else 0) \<and>
     (\<not> started s \<longrightarrow> \<not> cycleInFlight s \<and> pendingTimer s = None \<and> callbacks s = 0 \<and> completion s = None \<and>
        \<not> stopRequested s \<and> cycles s = 0) \<and>
     (\<forall>k. pendingTimer s = Some k \<longrightarrow> Suc k = callbacks s \<and> k \<notin> set (consumed s) \<and> \<not> cycleInFlight s) \<and>
     (completion s = None \<longrightarrow> started s \<longrightarrow> cycleInFlight s \<or> pendingTimer s \<noteq> None) \<and>
     (completion s = None \<longrightarrow> (\<forall>k < callbacks s. pendingTimer s = Some k \<or> k \<in> set (consumed s))) \<and>
     (completion s = None \<longrightarrow> stopRequested s \<longrightarrow> cycleInFlight s) \<and>
     set (consumed s) \<subseteq> {..< callbacks s}"

lemma loop_inv_initial: "loop_inv initial_loop"
  by (simp add: loop_inv_def initial_loop_def)

lemma loop_inv_complete:
  "loop_inv s \<Longrightarrow> started s \<Longrightarrow> loop_inv (loop_complete c s)"
  by (auto simp: loop_inv_def loop_complete_def)

lemma loop_inv_start: "loop_inv s \<Longrightarrow> loop_inv (loop_start thrown s)"
  by (cases thrown) (auto simp: loop_inv_def loop_start_def runNextCycle_def loop_complete_def Let_def)

lemma loop_inv_stop: "loop_inv s \<Longrightarrow> loop_inv (loop_stop thrown s)"
  by (cases thrown; cases "pendingTimer s")
    (auto simp: loop_inv_def loop_stop_def loop_complete_def Let_def)

lemma unfinished_started: "loop_inv s \<Longrightarrow> 0 < unfinished s \<Longrightarrow> started s \<and> cycleInFlight s \<and> pendingTimer s = None"
  by (auto simp: loop_inv_def split: if_splits)

lemma loop_inv_resolved:
  assumes "loop_inv s" and "0 < unfinished s"
  shows "loop_inv (cycle_resolved classify thrown r s)"
  using assms(1) unfinished_started[OF assms]
  by (cases thrown; cases "classify r")
    (auto simp: loop_inv_def cycle_resolved_def handleCycleResult_def scheduleNextCycle_def loop_complete_def Let_def
      less_Suc_eq)

lemma loop_inv_rejected:
  assumes "loop_inv s" and "0 < unfinished s"
  shows "loop_inv (cycle_rejected e s)"
  using assms(1) unfinished_started[OF assms]
  by (auto simp: loop_inv_def cycle_rejected_def loop_complete_def)

lemma loop_inv_fired:
  assumes "loop_inv s" and "k < callbacks s"
  shows "loop_inv (timer_callback k thrown s)"
  using assms
  by (cases thrown; cases "pendingTimer s"; cases "completion s")
    (auto simp: loop_inv_def timer_callback_def runNextCycle_def loop_complete_def Let_def)

lemma loop_inv_step: "loop_step classify s s' \<Longrightarrow> loop_inv s \<Longrightarrow> loop_inv s'"
  by (erule loop_stepE)
    (simp_all add: loop_inv_start loop_inv_stop loop_inv_resolved loop_inv_rejected loop_inv_fired)

lemma loop_inv_reachable: "(loop_step classify)\<^sup>*\<^sup>* initial_loop s \<Longrightarrow> loop_inv s"
  by (induction rule: rtranclp_induct) (auto intro: loop_inv_initial loop_inv_step)

section \<open>What a completed or stopped loop keeps\<close>

lemma completion_final: "loop_step classify s s' \<Longrightarrow> completion s = Some c \<Longrightarrow> completion s' = Some c \<and> cycles s' = cycles s"
  by (erule loop_stepE) (auto simp: loop_defs split: option.splits)

lemma stop_final: "loop_step classify s s' \<Longrightarrow> stopRequested s \<Longrightarrow> started s \<Longrightarrow>
    stopRequested s' \<and> started s' \<and> cycles s' = cycles s"
  by (erule loop_stepE) (auto simp: loop_defs split: option.splits)

lemma completion_final_run:
  assumes "(loop_step classify)\<^sup>*\<^sup>* s s'" and "completion s = Some c"
  shows "completion s' = Some c \<and> cycles s' = cycles s"
  using assms by (induction rule: rtranclp_induct) (auto dest: completion_final)

lemma stop_final_run:
  assumes "(loop_step classify)\<^sup>*\<^sup>* s s'" and "stopRequested s" and "started s"
  shows "stopRequested s' \<and> started s' \<and> cycles s' = cycles s"
  using assms by (induction rule: rtranclp_induct) (auto dest: stop_final)

lemma stop_effect:
  assumes "loop_inv s"
  shows "cycles (loop_stop thrown s) = cycles s \<and> started (loop_stop thrown s) \<and>
    (stopRequested (loop_stop thrown s) \<or> completion s \<noteq> None)"
  using assms by (auto simp: loop_stop_def loop_complete_def loop_inv_def Let_def split: option.splits)

section \<open>The contract of a loop\<close>

text \<open>The results that end a loop end it with a completion of their own, never as stopped.\<close>

locale scheduler_loop =
  fixes classify :: "'r \<Rightarrow> 'r loop_completion option"
  assumes own_completion: "classify r \<noteq> Some LoopStopped"
begin

abbreviation reachable :: "'r loop_state \<Rightarrow> bool" where
  "reachable s \<equiv> (loop_step classify)\<^sup>*\<^sup>* initial_loop s"

lemma stopped_step:
  assumes "loop_step classify s s'" and "loop_inv s"
    and "completion s = Some LoopStopped \<Longrightarrow> stopRequested s" and "completion s' = Some LoopStopped"
  shows "stopRequested s'"
  using assms own_completion
  by (cases rule: loop_step.cases) (auto simp: loop_defs split: option.splits if_splits)

lemma stopped_requested: "reachable s \<Longrightarrow> completion s = Some LoopStopped \<Longrightarrow> stopRequested s"
proof (induction rule: rtranclp_induct)
  case base
  then show ?case by (simp add: initial_loop_def)
next
  case (step s s')
  show ?case
    by (rule stopped_step[OF step.hyps(2) loop_inv_reachable[OF step.hyps(1)] step.IH step.prems])
qed

lemma one_cycle: "reachable s \<Longrightarrow> unfinished s \<le> 1"
  by (drule loop_inv_reachable) (auto simp: loop_inv_def)

lemma never_stuck:
  assumes "reachable s" and "started s" and "completion s = None"
  shows "cycleInFlight s \<or>
    (\<exists>k. pendingTimer s = Some k \<and> k < callbacks s \<and> cycles (timer_callback k None s) = cycles s + 1)"
proof (cases "pendingTimer s")
  case None
  then show ?thesis using loop_inv_reachable[OF assms(1)] assms(2,3) by (auto simp: loop_inv_def)
next
  case (Some k)
  then have "k < callbacks s" "k \<notin> set (consumed s)" "\<not> cycleInFlight s" "\<not> stopRequested s"
    using loop_inv_reachable[OF assms(1)] assms(2,3) by (auto simp: loop_inv_def)
  then show ?thesis using Some assms(3) by (simp add: timer_callback_def runNextCycle_def Let_def)
qed

lemma stop_completes:
  assumes "reachable s" and "(loop_step classify)\<^sup>*\<^sup>* (loop_stop thrown s) s'"
  shows "cycles s' = cycles s \<and>
    (completion s' \<noteq> None \<or>
     cycleInFlight s' \<and> (\<forall>e. completion (cycle_rejected e s') \<noteq> None) \<and>
       (\<forall>t r. completion (cycle_resolved classify t r s') \<noteq> None))"
proof -
  note inv = loop_inv_reachable[OF assms(1)]
  note eff = stop_effect[OF inv, of thrown]
  have reach: "reachable s'"
    using assms by (meson rtranclp.rtrancl_into_rtrancl rtranclp_trans loop_step.stop_called)
  show ?thesis
  proof (cases "completion s")
    case (Some c)
    then have "loop_stop thrown s = s" by (simp add: loop_stop_def)
    then show ?thesis using completion_final_run assms(2) Some by fastforce
  next
    case None
    then have "stopRequested s' \<and> cycles s' = cycles s"
      using stop_final_run[OF assms(2)] eff by auto
    moreover have "completion (cycle_rejected e s') \<noteq> None" for e
      by (simp add: cycle_rejected_def loop_complete_def)
    moreover have "completion (cycle_resolved classify t r s') \<noteq> None" if "stopRequested s'" for t r
      using that by (simp add: cycle_resolved_def handleCycleResult_def loop_complete_def split: option.splits)
    ultimately show ?thesis
      using loop_inv_reachable[OF reach] stop_final_run[OF assms(2)] eff None by (auto simp: loop_inv_def)
  qed
qed

end

section \<open>The loop of the service scheduler\<close>

definition service_classify :: "CycleResult \<Rightarrow> CycleResult loop_completion option" where
  "service_classify r =
     (case r of
        CycleIncomplete _ _ _ _ \<Rightarrow> Some (LoopIncomplete r)
      | CycleConflict _ _ _ _ \<Rightarrow> Some (LoopConflict r)
      | _ \<Rightarrow> None)"

interpretation sl: scheduler_loop service_classify
  by unfold_locales (auto simp: service_classify_def split: CycleResult.splits)

text \<open>
  C28. The service scheduler never overlaps two cycles and never gets stuck: however the calls, ends of
  cycles and timer callbacks come, at most one cycle has begun and not ended, and a started loop
  that has not completed either runs one or holds the timer whose callback begins the next.
\<close>

theorem scheduler_loop_one_cycle:
  assumes "(loop_step service_classify)\<^sup>*\<^sup>* initial_loop s"
  shows "unfinished s \<le> 1 \<and>
    (started s \<and> completion s = None \<longrightarrow> cycleInFlight s \<or>
      (\<exists>k. pendingTimer s = Some k \<and> k < callbacks s \<and> cycles (timer_callback k None s) = cycles s + 1)) \<and>
    (completion s = Some LoopStopped \<longrightarrow> stopRequested s)"
  using sl.one_cycle[OF assms] sl.never_stuck[OF assms] sl.stopped_requested[OF assms] by blast

text \<open>
  C29. After a call of \<open>stop\<close> no further cycle begins, whatever happens next, and the loop has
  completed, or completes when the cycle in flight ends, however it ends.
\<close>

theorem scheduler_loop_stops:
  assumes "(loop_step service_classify)\<^sup>*\<^sup>* initial_loop s"
    and "(loop_step service_classify)\<^sup>*\<^sup>* (loop_stop thrown s) s'"
  shows "cycles s' = cycles s \<and>
    (completion s' \<noteq> None \<or>
     cycleInFlight s' \<and> (\<forall>e. completion (cycle_rejected e s') \<noteq> None) \<and>
       (\<forall>t r. completion (cycle_resolved service_classify t r s') \<noteq> None))"
  by (rule sl.stop_completes[OF assms])

lemma sample_loop_reachable:
  "(loop_step service_classify)\<^sup>*\<^sup>* initial_loop (loop_start None initial_loop)"
  by (rule r_into_rtranclp) (rule loop_step.start_called)

theorem scheduler_loop_one_cycle_witness: "unfinished (loop_start None initial_loop :: CycleResult loop_state) \<le> 1"
  using scheduler_loop_one_cycle[OF sample_loop_reachable] by blast

theorem scheduler_loop_stops_witness:
  "cycles (loop_stop None (loop_start None initial_loop :: CycleResult loop_state)) = 1"
proof -
  have "cycles (loop_start None initial_loop :: CycleResult loop_state) = 1"
    by (simp add: loop_start_def runNextCycle_def initial_loop_def Let_def)
  then show ?thesis
    using scheduler_loop_stops[OF sample_loop_reachable, of None "loop_stop None (loop_start None initial_loop)"] by simp
qed

end
