(* ===== verification/Availability_Interval.thy ===== *)
theory Availability_Interval
  imports Reconciliation
begin

text \<open>
  Whether a registered service is required during an interval
  (\<open>domain/registered-service-availability-interval.ts\<close>), the question a machine shutdown asks of
  every service, and the two use cases that ask it for a stored and for a candidate policy.
\<close>

section \<open>The evaluator\<close>

definition MAX_RENDERED_TRANSITIONS :: nat where
  "MAX_RENDERED_TRANSITIONS = 5"

text \<open>
  \<open>required\<close> is the outcome, \<open>firstRequiredAt\<close> is absent unless required, and an empty list of
  transitions stands for the absent field.
\<close>

record RegisteredServiceAvailabilityInterval =
  interval_serviceId :: string
  startsAt :: string
  endsAt :: string
  required :: bool
  firstRequiredAt :: "string option"
  interval_transitions :: "ServiceAvailabilityPolicyTransition list"

definition floorToMinute :: "int \<Rightarrow> int option" where
  "floorToMinute t = new_date (t div 60000 * 60000)"

definition ceilToMinute :: "int \<Rightarrow> int option" where
  "ceilToMinute t = new_date (- ((- t) div 60000) * 60000)"

text \<open>
  The comparison of the two times is false when one of them is invalid; the calculator then
  rejects the interval, and every rejection gives the empty list.
\<close>

definition computeUpcomingTransitions ::
  "formatter \<Rightarrow> ServiceAvailabilityPolicy \<Rightarrow> int \<Rightarrow> int \<Rightarrow> ServiceAvailabilityPolicyTransition list" where
  "computeUpcomingTransitions fmt policy start_time end_time =
     (if policy_mode policy \<noteq> scheduled then []
      else let fr = floorToMinute start_time; to = ceilToMinute end_time in
        if (case (fr, to) of (Some a, Some b) \<Rightarrow> b \<le> a | _ \<Rightarrow> False) then []
        else (case calculateServiceAvailabilityPolicyTransitions fmt policy (JDate fr) (JDate to) of
                Inl _ \<Rightarrow> []
              | Inr transitions \<Rightarrow> take MAX_RENDERED_TRANSITIONS transitions))"

text \<open>\<open>point < Date.parse(override.expiresAt)\<close>, false for a time that does not parse.\<close>

definition before_expiry :: "int \<Rightarrow> ServiceAvailabilityOverride option \<Rightarrow> bool" where
  "before_expiry point ov \<longleftrightarrow>
     (case ov of None \<Rightarrow> False
      | Some o' \<Rightarrow> (case date_parse (expiresAt o') of None \<Rightarrow> False | Some e \<Rightarrow> point < e))"

function required_loop ::
  "formatter \<Rightarrow> ServiceAvailabilityPolicy \<Rightarrow> ServiceAvailabilityOverride option \<Rightarrow> int \<Rightarrow> int \<Rightarrow> int \<Rightarrow> int \<Rightarrow>
     int option result" where
  "required_loop fmt policy ov first candidate end_time instant =
     (if instant < end_time
      then let point = (if instant = first then first else max instant candidate) in
        if end_time \<le> point then Inr None
        else bindR (if before_expiry point ov then Inr ExpManual
                    else evaluateServiceAvailabilityWithOverride fmt policy None (JDate (new_date point)))
               (\<lambda>expectation.
                if expectation = ExpAvailable then Inr (Some point)
                else required_loop fmt policy ov first candidate end_time (instant + 60000))
      else Inr None)"
  by pat_completeness auto
termination
  by (relation "measure (\<lambda>(_, _, _, _, _, end_time, instant). nat (end_time - instant))") auto

declare required_loop.simps [simp del]

definition findRequiredAt ::
  "formatter \<Rightarrow> ServiceAvailabilityPolicy \<Rightarrow> int \<Rightarrow> int \<Rightarrow> ServiceAvailabilityOverride option \<Rightarrow> bool \<Rightarrow>
     int option result" where
  "findRequiredAt fmt policy start_time end_time ov evaluateBase =
     (if evaluateBase \<and> policy_mode policy = always then Inr (Some start_time)
      else let candidate = - ((- start_time) div 60000) * 60000 in
        required_loop fmt policy ov start_time candidate end_time start_time)"

definition interval_result ::
  "string \<Rightarrow> string \<Rightarrow> string \<Rightarrow> ServiceAvailabilityPolicyTransition list \<Rightarrow> int option \<Rightarrow>
     RegisteredServiceAvailabilityInterval result" where
  "interval_result sid starts ends transitions at =
     (case at of
        None \<Rightarrow> Inr \<lparr>interval_serviceId = sid, startsAt = starts, endsAt = ends, required = False,
                   firstRequiredAt = None, interval_transitions = transitions\<rparr>
      | Some t \<Rightarrow> bindR (toISOString (new_date t)) (\<lambda>text.
          Inr \<lparr>interval_serviceId = sid, startsAt = starts, endsAt = ends, required = True,
               firstRequiredAt = Some text, interval_transitions = transitions\<rparr>))"

definition evaluateRegisteredServiceAvailabilityForInterval ::
  "formatter \<Rightarrow> string \<Rightarrow> ServiceAvailabilityPolicy \<Rightarrow> ServiceAvailabilityOverride option \<Rightarrow> string \<Rightarrow> string \<Rightarrow>
     RegisteredServiceAvailabilityInterval result" where
  "evaluateRegisteredServiceAvailabilityForInterval fmt sid policy ov starts ends =
     (if \<not> SERVICE_ID_PATTERN sid
      then Inl (RegisteredServiceAvailabilityIntervalValidationError ''invalid_service_id'')
      else case (date_parse starts, date_parse ends) of
        (Some start_time, Some end_time) \<Rightarrow>
          if end_time \<le> start_time \<or> end_time - start_time > 8 * 24 * 60 * 60 * 1000
          then Inl (RegisteredServiceAvailabilityIntervalValidationError ''invalid_interval'')
          else let transitions = computeUpcomingTransitions fmt policy start_time end_time;
                   at_start = Inr \<lparr>interval_serviceId = sid, startsAt = starts, endsAt = ends, required = True,
                     firstRequiredAt = Some starts, interval_transitions = transitions\<rparr> in
            if policy_mode policy = disabled \<or> policy_mode policy = manual
            then interval_result sid starts ends transitions None
            else if before_expiry start_time ov
            then (case ov of
                    None \<Rightarrow> Inl (PlainError ''unreachable'')
                  | Some o' \<Rightarrow>
                      if kind o' = keep_available then at_start
                      else let after = (case date_parse (expiresAt o') of Some e \<Rightarrow> max start_time e | None \<Rightarrow> start_time) in
                        bindR (findRequiredAt fmt policy after end_time ov False)
                          (interval_result sid starts ends transitions))
            else if policy_mode policy = always then at_start
            else bindR (findRequiredAt fmt policy start_time end_time None True)
                   (interval_result sid starts ends transitions)
      | _ \<Rightarrow> Inl (RegisteredServiceAvailabilityIntervalValidationError ''invalid_interval''))"

definition GetAvailabilityForInterval_execute ::
  "formatter \<Rightarrow> 'w ReconciliationPorts \<Rightarrow> string \<Rightarrow> string \<Rightarrow> string \<Rightarrow>
     ('w, RegisteredServiceAvailabilityInterval) io" where
  "GetAvailabilityForInterval_execute fmt ports sid starts ends =
     with_service ports sid (\<lambda>service.
     bindIO (rc_findOverride ports (service_id service)) (\<lambda>ov.
     liftIO (evaluateRegisteredServiceAvailabilityForInterval fmt (service_id service)
               (availabilityPolicy service) ov starts ends)))"

text \<open>The result of a preview carries the tag \<open>candidate_preview\<close> besides the interval.\<close>

definition PreviewPolicy_execute ::
  "formatter \<Rightarrow> 'w ReconciliationPorts \<Rightarrow> string \<Rightarrow> jsval \<Rightarrow> string \<Rightarrow> string \<Rightarrow>
     ('w, RegisteredServiceAvailabilityInterval \<times> string) io" where
  "PreviewPolicy_execute fmt ports sid policyInput starts ends =
     with_service ports sid (\<lambda>service.
     bindIO (liftIO (createServiceAvailabilityPolicy policyInput)) (\<lambda>policy.
     bindIO (rc_findOverride ports (service_id service)) (\<lambda>ov.
     bindIO (liftIO (evaluateRegisteredServiceAvailabilityForInterval fmt (service_id service)
                       policy ov starts ends)) (\<lambda>interval.
     retIO (interval, ''candidate_preview'')))))"

section \<open>The sampling loop is exact on full minutes\<close>

lemma same_minute:
  assumes "aligned a" and "a \<le> t" and "t < a + MINUTE_IN_MILLISECONDS"
  shows "t div MINUTE_IN_MILLISECONDS * MINUTE_IN_MILLISECONDS = a"
proof -
  have M: "(0::int) < MINUTE_IN_MILLISECONDS" by (rule minute_pos)
  obtain k where a: "a = k * MINUTE_IN_MILLISECONDS"
    using assms(1) by (metis aligned_def minus_mod_eq_div_mult diff_zero)
  have "t div MINUTE_IN_MILLISECONDS = k"
    using assms(2,3) M unfolding a by (intro int_div_pos_eq[of _ _ _ "t - k * MINUTE_IN_MILLISECONDS"]) (simp_all add: mult.commute)
  then show ?thesis using a by simp
qed

text \<open>\<open>first_available f a b r\<close>: \<open>r\<close> is the first instant of \<open>[a, b)\<close> where \<open>f\<close> is available, if any.\<close>

definition first_available ::
  "(int \<Rightarrow> ServiceAvailabilityExpectation) \<Rightarrow> int \<Rightarrow> int \<Rightarrow> int option \<Rightarrow> bool" where
  "first_available f a b r \<longleftrightarrow>
     (case r of
        None \<Rightarrow> \<forall>t. a \<le> t \<and> t < b \<longrightarrow> f t \<noteq> ExpAvailable
      | Some p \<Rightarrow> a \<le> p \<and> p < b \<and> f p = ExpAvailable \<and> (\<forall>t. a \<le> t \<and> t < p \<longrightarrow> f t \<noteq> ExpAvailable))"

lemma first_available_later:
  assumes "first_available f c b r" and "a \<le> c" and "\<And>t. a \<le> t \<Longrightarrow> t < c \<Longrightarrow> t < b \<Longrightarrow> f t \<noteq> ExpAvailable"
  shows "first_available f a b r"
proof (cases r)
  case None
  then show ?thesis using assms by (auto simp: first_available_def) (metis not_le)
next
  case (Some p)
  then show ?thesis using assms by (auto simp: first_available_def) (metis not_le order.strict_trans)
qed

context minute_formatter
begin

lemma required_loop_first:
  assumes "wf_policy policy" and "aligned instant" and "first \<le> instant" and "candidate \<le> instant"
    and "- max_time \<le> first" and "end_time \<le> max_time" and "\<And>p. first \<le> p \<Longrightarrow> \<not> before_expiry p ov"
  shows "\<exists>r. required_loop fmt policy ov first candidate end_time instant = Inr r \<and>
    first_available (expectation_at fmt policy) instant end_time r"
  using assms(2-4)
proof (induction "nat (end_time - instant)" arbitrary: instant rule: less_induct)
  case less
  let ?f = "expectation_at fmt policy"
  show ?case
  proof (cases "instant < end_time")
    case False
    then show ?thesis by (subst required_loop.simps) (auto simp: first_available_def)
  next
    case True
    have bound: "\<bar>instant\<bar> \<le> max_time" using True less.prems assms(5,6) by linarith
    have point: "(if instant = first then first else max instant candidate) = instant" using less.prems by simp
    have ev: "evaluateServiceAvailabilityWithOverride fmt policy None (JDate (new_date instant)) = Inr (?f instant)"
      using evaluate_total[OF assms(1) bound] bound by (simp add: evaluateServiceAvailabilityWithOverride_def)
    have step: "required_loop fmt policy ov first candidate end_time instant =
        (if ?f instant = ExpAvailable then Inr (Some instant)
         else required_loop fmt policy ov first candidate end_time (instant + 60000))"
      using True assms(7)[OF less.prems(2)] ev by (subst required_loop.simps) (simp add: point Let_def)
    show ?thesis
    proof (cases "?f instant = ExpAvailable")
      case av: True
      then show ?thesis using step True by (auto simp: first_available_def)
    next
      case no: False
      have "aligned (instant + 60000)"
        using less.prems(1) aligned_plus[of instant] by (simp add: MINUTE_IN_MILLISECONDS_def)
      then obtain r where r: "required_loop fmt policy ov first candidate end_time (instant + 60000) = Inr r"
          "first_available ?f (instant + 60000) end_time r"
        using less.hyps[of "instant + 60000"] less.prems True by fastforce
      have "first_available ?f instant end_time r"
      proof (rule first_available_later[OF r(2)])
        fix t assume t: "instant \<le> t" "t < instant + 60000" "t < end_time"
        have "\<bar>t\<bar> \<le> max_time" using t less.prems assms(5,6) by linarith
        from expectation_minute[OF assms(1) this] have "?f t = ?f instant"
          using same_minute[OF less.prems(1) t(1)] t(2) by (simp add: MINUTE_IN_MILLISECONDS_def)
        then show "?f t \<noteq> ExpAvailable" using no by simp
      qed simp
      then show ?thesis using step no r(1) by simp
    qed
  qed
qed

end

text \<open>The expectation with an override, as a total function of the time.\<close>

definition effective_at ::
  "formatter \<Rightarrow> ServiceAvailabilityPolicy \<Rightarrow> ServiceAvailabilityOverride option \<Rightarrow> int \<Rightarrow> ServiceAvailabilityExpectation" where
  "effective_at fmt policy ov t =
     (case evaluateServiceAvailabilityWithOverride fmt policy ov (JDate (Some t)) of
        Inr e \<Rightarrow> e | Inl _ \<Rightarrow> ExpUnavailable)"

lemma effective_at_eq:
  assumes "\<bar>t\<bar> \<le> max_time"
  shows "effective_at fmt policy ov t =
    (case ov of None \<Rightarrow> expectation_at fmt policy t
     | Some o' \<Rightarrow> if isServiceAvailabilityOverrideExpiredAtTimestamp o' t then expectation_at fmt policy t
         else if policy_mode policy = disabled then ExpDisabled
         else if kind o' = keep_available then ExpAvailable else ExpManual)"
  using assms
  by (auto simp: effective_at_def expectation_at_def evaluateServiceAvailabilityWithOverride_def
      split: option.splits ServiceAvailabilityOverrideKind.splits)

text \<open>The expiration of an override, when it has one, is a full minute.\<close>

definition expires_on_minute :: "ServiceAvailabilityOverride option \<Rightarrow> bool" where
  "expires_on_minute ov \<longleftrightarrow>
     (case ov of None \<Rightarrow> True | Some o' \<Rightarrow> canonical (expiresAt o') \<and> aligned (time_of (expiresAt o')))"

lemma first_available_cong:
  assumes "first_available f a b r" and "\<And>t. a \<le> t \<Longrightarrow> t < b \<Longrightarrow> g t = f t"
  shows "first_available g a b r"
proof (cases r)
  case None
  then show ?thesis using assms by (auto simp: first_available_def)
next
  case (Some p)
  then show ?thesis using assms by (auto simp: first_available_def)
qed

lemma first_available_start: "a < b \<Longrightarrow> f a = ExpAvailable \<Longrightarrow> first_available f a b (Some a)"
  by (auto simp: first_available_def)

lemma ceil_aligned: "aligned a \<Longrightarrow> - ((- a) div 60000) * 60000 = a"
proof -
  assume "aligned a"
  then obtain k where "a = k * 60000"
    by (metis MINUTE_IN_MILLISECONDS_def aligned_def minus_mod_eq_div_mult diff_zero)
  moreover have "- (k * 60000) div 60000 = - k" for k :: int
    by (metis mult_minus_left nonzero_mult_div_cancel_right zero_neq_numeral)
  ultimately show ?thesis by simp
qed

lemma interval_result_Inr:
  assumes "\<And>t. at = Some t \<Longrightarrow> \<bar>t\<bar> \<le> max_time"
  shows "\<exists>res. interval_result sid starts ends ts at = Inr res \<and> required res = (at \<noteq> None) \<and>
    firstRequiredAt res = map_option iso at"
  using assms by (cases at) (simp_all add: interval_result_def toISOString_def)

context minute_formatter
begin

lemma findRequiredAt_first:
  assumes "wf_policy policy" and "aligned a" and "\<bar>a\<bar> \<le> max_time" and "b \<le> max_time"
    and "\<And>p. a \<le> p \<Longrightarrow> \<not> before_expiry p ov" and "base \<longrightarrow> policy_mode policy \<noteq> always"
  shows "\<exists>r. findRequiredAt fmt policy a b ov base = Inr r \<and> first_available (expectation_at fmt policy) a b r"
  using required_loop_first[OF assms(1,2), of a a b ov] assms(3-6) ceil_aligned[OF assms(2)]
  by (auto simp: findRequiredAt_def Let_def)

lemma evaluation_exact:
  assumes wf: "wf_policy policy" and mode: "policy_mode policy = always \<or> policy_mode policy = scheduled"
    and a: "aligned a" "\<bar>a\<bar> \<le> max_time" and b: "a < b" "b \<le> max_time" "b - a \<le> 691200000"
    and ov: "expires_on_minute ov" and sid: "SERVICE_ID_PATTERN sid"
  shows "\<exists>at res. evaluateRegisteredServiceAvailabilityForInterval fmt sid policy ov (iso a) (iso b) = Inr res \<and>
    first_available (effective_at fmt policy ov) a b at \<and> required res = (at \<noteq> None) \<and>
    firstRequiredAt res = map_option iso at"
proof -
  let ?ts = "computeUpcomingTransitions fmt policy a b"
  let ?eval = "evaluateRegisteredServiceAvailabilityForInterval fmt sid policy ov (iso a) (iso b)"
  have bb: "\<bar>b\<bar> \<le> max_time" using a(2) b(1,2) by linarith
  note base = sid a(2) bb b date_parse_iso[OF a(2)] date_parse_iso[OF bb]
  have modes: "policy_mode policy \<noteq> disabled" "policy_mode policy \<noteq> manual" using mode by auto
  have start: ?thesis if "?eval = Inr \<lparr>interval_serviceId = sid, startsAt = iso a, endsAt = iso b, required = True,
      firstRequiredAt = Some (iso a), interval_transitions = ?ts\<rparr>" "effective_at fmt policy ov a = ExpAvailable"
    using that first_available_start[OF b(1), of "effective_at fmt policy ov"] by (intro exI[of _ "Some a"]) auto
  have found: ?thesis if "?eval = interval_result sid (iso a) (iso b) ?ts r"
      "first_available (effective_at fmt policy ov) a b r" for r
  proof -
    have "\<bar>t\<bar> \<le> max_time" if "r = Some t" for t
      using that \<open>first_available _ _ _ r\<close> a(2) b(2) by (auto simp: first_available_def)
    from interval_result_Inr[OF this] show ?thesis using that by metis
  qed
  have eff: "effective_at fmt policy ov t = expectation_at fmt policy t"
    if "\<not> before_expiry t ov" "a \<le> t" "t < b" for t
    using that a(2) b(2) ov effective_at_eq[of t fmt policy ov]
    by (auto simp: before_expiry_def expires_on_minute_def canonical_def
        isServiceAvailabilityOverrideExpiredAtTimestamp_def split: option.splits)
  have mono: "\<not> before_expiry t ov" if "\<not> before_expiry u ov" "u \<le> t" for t u
    using that by (auto simp: before_expiry_def split: option.splits)
  show ?thesis
  proof (cases "before_expiry a ov")
    case False
    note no = mono[OF this]
    show ?thesis
    proof (cases "policy_mode policy = always")
      case True
      then have "policy = AlwaysPolicy" by (cases policy) auto
      then have "expectation_at fmt policy a = ExpAvailable"
        by (simp add: expectation_at_def evaluateServiceAvailabilityPolicy_def)
      then show ?thesis
        using False True base eff[OF False] modes
        by (intro start) (simp_all add: evaluateRegisteredServiceAvailabilityForInterval_def Let_def)
    next
      case sch: False
      obtain r where r: "findRequiredAt fmt policy a b None True = Inr r"
          "first_available (expectation_at fmt policy) a b r"
        using findRequiredAt_first[OF wf a b(2), of None True] sch by (auto simp: before_expiry_def)
      show ?thesis
      proof (rule found)
        show "?eval = interval_result sid (iso a) (iso b) ?ts r"
          using False sch base modes r(1)
          by (simp add: evaluateRegisteredServiceAvailabilityForInterval_def Let_def)
        show "first_available (effective_at fmt policy ov) a b r"
          by (rule first_available_cong[OF r(2)]) (simp add: eff no)
      qed
    qed
  next
    case True
    then obtain o' e where o': "ov = Some o'" "date_parse (expiresAt o') = Some e" "a < e"
      by (auto simp: before_expiry_def split: option.splits)
    have unexpired: "effective_at fmt policy ov t = (if kind o' = keep_available then ExpAvailable else ExpManual)"
      if "a \<le> t" "t < e" "t < b" for t
      using that a(2) b(2) o' effective_at_eq[of t fmt policy ov] modes
      by (auto simp: isServiceAvailabilityOverrideExpiredAtTimestamp_def)
    show ?thesis
    proof (cases "kind o' = keep_available")
      case keep: True
      then show ?thesis
        using True base modes o' unexpired[of a] b(1)
        by (intro start) (simp_all add: evaluateRegisteredServiceAvailabilityForInterval_def Let_def)
    next
      case susp: False
      have e: "aligned e" "\<bar>e\<bar> \<le> max_time"
        using ov o' time_of_bound[of "expiresAt o'"] by (auto simp: expires_on_minute_def time_of_def)
      have after: "\<not> before_expiry p ov" if "e \<le> p" for p using that o' by (simp add: before_expiry_def)
      obtain r where r: "findRequiredAt fmt policy e b ov False = Inr r"
          "first_available (expectation_at fmt policy) e b r"
        using findRequiredAt_first[OF wf e b(2) after, of False] by auto
      show ?thesis
      proof (rule found)
        show "?eval = interval_result sid (iso a) (iso b) ?ts r"
          using True susp base modes r(1) o'
          by (simp add: evaluateRegisteredServiceAvailabilityForInterval_def Let_def)
        have "first_available (effective_at fmt policy ov) e b r"
          by (rule first_available_cong[OF r(2)]) (use o'(3) in \<open>simp add: eff after\<close>)
        then show "first_available (effective_at fmt policy ov) a b r"
          by (rule first_available_later) (use o'(3) susp unexpired in auto)
      qed
    qed
  qed
qed

end

section \<open>Properties\<close>

text \<open>
  C30. For an always or scheduled policy, an interval that starts on a full minute and lasts at most
  eight days, and an override that expires on a full minute (if there is one), the evaluator of
  intervals never fails, and it is exact: the service is reported as required exactly when it is
  available at some instant of the interval, and the reported time is the first such instant,
  although the loop evaluates the policy only once a minute.
\<close>

theorem interval_required_exact:
  assumes "minute_formatter fmt" and "wf_policy policy"
    and "policy_mode policy = always \<or> policy_mode policy = scheduled"
    and "aligned a" and "\<bar>a\<bar> \<le> max_time" and "a < b" and "b \<le> max_time" and "b - a \<le> 691200000"
    and "expires_on_minute ov" and "SERVICE_ID_PATTERN sid"
  shows "\<exists>at res. evaluateRegisteredServiceAvailabilityForInterval fmt sid policy ov (iso a) (iso b) = Inr res \<and>
    first_available (effective_at fmt policy ov) a b at \<and> required res = (at \<noteq> None) \<and>
    firstRequiredAt res = map_option iso at"
  by (rule minute_formatter.evaluation_exact[OF assms])

lemma monday_interval_facts:
  "aligned 385140000" "\<bar>385140000\<bar> \<le> max_time" "(385260000::int) \<le> max_time" "expires_on_minute None"
  "SERVICE_ID_PATTERN ''api''" "policy_mode (ScheduledPolicy ''America/Sao_Paulo'' monday_schedule) = scheduled"
  by code_simp+

theorem interval_required_exact_witness:
  "\<exists>at res. evaluateRegisteredServiceAvailabilityForInterval saoPauloFormatter ''api''
      (ScheduledPolicy ''America/Sao_Paulo'' monday_schedule) None (iso 385140000) (iso 385260000) = Inr res \<and>
    first_available (effective_at saoPauloFormatter (ScheduledPolicy ''America/Sao_Paulo'' monday_schedule) None)
      385140000 385260000 at \<and> required res = (at \<noteq> None) \<and> firstRequiredAt res = map_option iso at"
  by (rule interval_required_exact[OF sp.minute_formatter_axioms monday_policy_wf disjI2[OF monday_interval_facts(6)]
        monday_interval_facts(1,2) _ monday_interval_facts(3) _ monday_interval_facts(4,5)]) simp_all

text \<open>
  The full minute matters: the loop steps by one minute from the start of the interval, so for
  an interval from 10:58:30 to 11:00:20 UTC it evaluates the policy at 10:58:30 and 10:59:30 only and
  reports a service that opens at 11:00 as not required, although it is available at 11:00:00.
\<close>

theorem interval_misses_last_minute:
  "bindR (evaluateRegisteredServiceAvailabilityForInterval saoPauloFormatter ''api'' monday_policy None
      ''1970-01-05T10:58:30.000Z'' ''1970-01-05T11:00:20.000Z'') (\<lambda>res. Inr (required res)) = Inr False \<and>
   evaluateServiceAvailabilityPolicy saoPauloFormatter monday_policy
      (JDate (date_parse ''1970-01-05T11:00:00.000Z'')) = Inr ExpAvailable"
  by code_simp

text \<open>
  The mode matters too: under a manual policy an unexpired \<open>keep_available\<close> override makes the
  service available at every instant, and the evaluator of intervals reports it as not required.
\<close>

theorem interval_ignores_override_of_manual:
  "bindR (evaluateRegisteredServiceAvailabilityForInterval saoPauloFormatter ''api'' ManualPolicy
      (Some \<lparr>kind = keep_available, expiresAt = ''1970-01-05T12:00:00.000Z''\<rparr>)
      ''1970-01-05T10:58:00.000Z'' ''1970-01-05T11:00:00.000Z'') (\<lambda>res. Inr (required res)) = Inr False \<and>
   evaluateServiceAvailabilityWithOverride saoPauloFormatter ManualPolicy
      (Some \<lparr>kind = keep_available, expiresAt = ''1970-01-05T12:00:00.000Z''\<rparr>)
      (JDate (date_parse ''1970-01-05T10:58:00.000Z'')) = Inr ExpAvailable"
  by code_simp

end
