(* ===== verification/Machine_Schedule.thy ===== *)
theory Machine_Schedule
  imports Availability
begin

text \<open>
  The operating schedules and policies of the machine
  (\<open>power-management/domain/machine-weekly-operating-schedule.ts\<close> and
  \<open>machine-operating-policy.ts\<close>). The module repeats the weekly schedules of the services with
  its own validation; \<open>as_schedule\<close> and \<open>as_policy\<close> read a machine schedule as a service
  schedule, and what the machine's constructors accept is what the service invariant demands.
\<close>

section \<open>Windows and schedules\<close>

text \<open>The literals of \<open>MACHINE_OPERATING_WEEKDAYS\<close> are those of the service weekdays, in the same order.\<close>

type_synonym MachineOperatingWeekday = ServiceScheduleWeekday

record MachineOperatingWindow =
  dayOfWeek :: MachineOperatingWeekday
  op_start :: string
  op_end :: string

record MachineWeeklyOperatingSchedule =
  op_windows :: "MachineOperatingWindow list"

abbreviation MachineWeeklyOperatingScheduleValidationError :: "string \<Rightarrow> js_error" where
  "MachineWeeklyOperatingScheduleValidationError \<equiv> NamedError ''MachineWeeklyOperatingScheduleValidationError''"

definition OPERATING_WINDOW_FIELDS :: "string list" where
  "OPERATING_WINDOW_FIELDS = [''dayOfWeek'', ''start'', ''end'']"

definition SCHEDULE_FIELDS :: "string list" where
  "SCHEDULE_FIELDS = [''windows'']"

definition MAXIMUM_WINDOWS :: nat where
  "MAXIMUM_WINDOWS = 64"

definition isMachineOperatingWeekday :: "jsval \<Rightarrow> MachineOperatingWeekday option" where
  "isMachineOperatingWeekday value = find (\<lambda>d. value = JStr (weekday_string d)) SERVICE_SCHEDULE_WEEKDAYS"

fun isLocalTime :: "jsval \<Rightarrow> string option" where
  "isLocalTime (JStr value) = (if LOCAL_TIME_PATTERN value then Some value else None)"
| "isLocalTime _ = None"

definition createMachineOperatingWindow :: "jsval \<Rightarrow> MachineOperatingWindow result" where
  "createMachineOperatingWindow input =
     (if \<not> is_plain_object input \<or> \<not> hasExactFields input OPERATING_WINDOW_FIELDS
      then Inl (MachineWeeklyOperatingScheduleValidationError ''invalid_window'')
      else case isMachineOperatingWeekday (get_prop input ''dayOfWeek'') of
        None \<Rightarrow> Inl (MachineWeeklyOperatingScheduleValidationError ''invalid_day_of_week'')
      | Some d \<Rightarrow>
          (case (isLocalTime (get_prop input ''start''), isLocalTime (get_prop input ''end'')) of
             (Some s, Some e) \<Rightarrow>
               if s = e then Inl (MachineWeeklyOperatingScheduleValidationError ''zero_length_window'')
               else if s > e then Inl (MachineWeeklyOperatingScheduleValidationError ''reversed_window'')
               else Inr \<lparr>dayOfWeek = d, op_start = s, op_end = e\<rparr>
           | _ \<Rightarrow> Inl (MachineWeeklyOperatingScheduleValidationError ''invalid_local_time'')))"

definition compareMachineWindows :: "MachineOperatingWindow \<Rightarrow> MachineOperatingWindow \<Rightarrow> int" where
  "compareMachineWindows left right =
     (let dayDifference = getWeekdayOrder (dayOfWeek left) - getWeekdayOrder (dayOfWeek right) in
      if dayDifference \<noteq> 0 then dayDifference
      else let startDifference = compareCanonicalValues (op_start left) (op_start right) in
           if startDifference \<noteq> 0 then startDifference
           else compareCanonicalValues (op_end left) (op_end right))"

fun rejectDuplicateWindows :: "MachineOperatingWindow list \<Rightarrow> unit result" where
  "rejectDuplicateWindows (previous # current # rest) =
     (if dayOfWeek previous = dayOfWeek current \<and> op_start previous = op_start current \<and>
         op_end previous = op_end current
      then Inl (MachineWeeklyOperatingScheduleValidationError ''duplicate_window'')
      else rejectDuplicateWindows (current # rest))"
| "rejectDuplicateWindows _ = Inr ()"

fun rejectOverlappingMachineWindows :: "MachineOperatingWindow list \<Rightarrow> unit result" where
  "rejectOverlappingMachineWindows (previous # current # rest) =
     (if dayOfWeek previous = dayOfWeek current \<and> op_start current < op_end previous
      then Inl (MachineWeeklyOperatingScheduleValidationError ''overlapping_windows'')
      else rejectOverlappingMachineWindows (current # rest))"
| "rejectOverlappingMachineWindows _ = Inr ()"

definition createMachineWeeklyOperatingSchedule :: "jsval \<Rightarrow> MachineWeeklyOperatingSchedule result" where
  "createMachineWeeklyOperatingSchedule input =
     (if \<not> is_plain_object input then Inl (MachineWeeklyOperatingScheduleValidationError ''invalid_record'')
      else if \<not> hasExactFields input SCHEDULE_FIELDS
      then Inl (MachineWeeklyOperatingScheduleValidationError ''invalid_field'')
      else case get_prop input ''windows'' of
        JArr ws \<Rightarrow>
          if length ws = 0 then Inl (MachineWeeklyOperatingScheduleValidationError ''empty_windows'')
          else if length ws > MAXIMUM_WINDOWS
          then Inl (MachineWeeklyOperatingScheduleValidationError ''windows_limit_exceeded'')
          else bindR (mapR createMachineOperatingWindow ws) (\<lambda>created.
               let canonicalWindows = js_sort compareMachineWindows created in
               bindR (rejectDuplicateWindows canonicalWindows) (\<lambda>_.
               bindR (rejectOverlappingMachineWindows canonicalWindows) (\<lambda>_.
               Inr \<lparr>op_windows = canonicalWindows\<rparr>)))
      | _ \<Rightarrow> Inl (MachineWeeklyOperatingScheduleValidationError ''invalid_windows''))"

section \<open>Policies\<close>

datatype MachineOperatingMode = always_on | scheduled_mode | manual_mode

fun machine_mode_string :: "MachineOperatingMode \<Rightarrow> string" where
  "machine_mode_string always_on = ''always_on''"
| "machine_mode_string scheduled_mode = ''scheduled''"
| "machine_mode_string manual_mode = ''manual''"

definition MACHINE_OPERATING_MODES :: "MachineOperatingMode list" where
  "MACHINE_OPERATING_MODES = [always_on, scheduled_mode, manual_mode]"

definition MACHINE_OPERATING_TIMEZONES :: "string list" where
  "MACHINE_OPERATING_TIMEZONES = [''America/Sao_Paulo'']"

datatype MachineOperatingPolicy =
    AlwaysOnPolicy
  | ManualMachinePolicy
  | ScheduledMachinePolicy string MachineWeeklyOperatingSchedule

abbreviation MachineOperatingPolicyValidationError :: "string \<Rightarrow> js_error" where
  "MachineOperatingPolicyValidationError \<equiv> NamedError ''MachineOperatingPolicyValidationError''"

definition isMachineOperatingMode :: "jsval \<Rightarrow> MachineOperatingMode option" where
  "isMachineOperatingMode value = find (\<lambda>m. value = JStr (machine_mode_string m)) MACHINE_OPERATING_MODES"

definition createMachineOperatingPolicy :: "jsval \<Rightarrow> MachineOperatingPolicy result" where
  "createMachineOperatingPolicy input =
     (if \<not> is_plain_object input then Inl (MachineOperatingPolicyValidationError ''invalid_record'')
      else if \<not> has_own input ''mode'' then Inl (MachineOperatingPolicyValidationError ''missing_mode'')
      else case isMachineOperatingMode (get_prop input ''mode'') of
        None \<Rightarrow> Inl (MachineOperatingPolicyValidationError ''invalid_mode'')
      | Some m \<Rightarrow>
          if m \<noteq> scheduled_mode
          then (if \<not> hasExactFields input [''mode'']
                then Inl (MachineOperatingPolicyValidationError ''invalid_field'')
                else Inr (if m = always_on then AlwaysOnPolicy else ManualMachinePolicy))
          else if \<not> has_own input ''timezone''
          then Inl (MachineOperatingPolicyValidationError ''missing_timezone'')
          else (case get_prop input ''timezone'' of
            JStr tz \<Rightarrow>
              if tz \<notin> set MACHINE_OPERATING_TIMEZONES
              then Inl (MachineOperatingPolicyValidationError ''invalid_timezone'')
              else if \<not> has_own input ''weeklySchedule''
              then Inl (MachineOperatingPolicyValidationError ''missing_weekly_schedule'')
              else if \<not> hasExactFields input [''mode'', ''timezone'', ''weeklySchedule'']
              then Inl (MachineOperatingPolicyValidationError ''invalid_field'')
              else bindR (createMachineWeeklyOperatingSchedule (get_prop input ''weeklySchedule''))
                     (\<lambda>s. Inr (ScheduledMachinePolicy tz s))
          | _ \<Rightarrow> Inl (MachineOperatingPolicyValidationError ''invalid_timezone'')))"

section \<open>Machine schedules as service schedules\<close>

definition as_window :: "MachineOperatingWindow \<Rightarrow> WeeklyAvailabilityWindow" where
  "as_window w = \<lparr>weekday = dayOfWeek w, window_start = op_start w, window_end = op_end w\<rparr>"

definition as_schedule :: "MachineWeeklyOperatingSchedule \<Rightarrow> WeeklyAvailabilitySchedule" where
  "as_schedule s = \<lparr>windows = map as_window (op_windows s)\<rparr>"

definition wf_machine_schedule :: "MachineWeeklyOperatingSchedule \<Rightarrow> bool" where
  "wf_machine_schedule s \<longleftrightarrow> wf_schedule (as_schedule s)"

fun wf_machine_policy :: "MachineOperatingPolicy \<Rightarrow> bool" where
  "wf_machine_policy (ScheduledMachinePolicy tz s) \<longleftrightarrow>
     tz \<in> set MACHINE_OPERATING_TIMEZONES \<and> wf_machine_schedule s"
| "wf_machine_policy _ \<longleftrightarrow> True"

lemma as_window_sel [simp]:
  "weekday (as_window w) = dayOfWeek w" "window_start (as_window w) = op_start w"
  "window_end (as_window w) = op_end w"
  by (simp_all add: as_window_def)

lemma windows_as_schedule [simp]: "windows (as_schedule s) = map as_window (op_windows s)"
  by (simp add: as_schedule_def)

lemma timezones_same: "MACHINE_OPERATING_TIMEZONES = SERVICE_SCHEDULE_TIMEZONES"
  by (simp add: MACHINE_OPERATING_TIMEZONES_def SERVICE_SCHEDULE_TIMEZONES_def)

lemma compare_as_window: "compareWindows (as_window v) (as_window w) = compareMachineWindows v w"
  by (simp add: compareWindows_def compareMachineWindows_def Let_def)

lemma js_insert_map:
  assumes "\<And>x y. cmp' (f x) (f y) = cmp x y"
  shows "map f (js_insert cmp x xs) = js_insert cmp' (f x) (map f xs)"
  using assms by (induction xs) auto

lemma js_sort_map:
  assumes "\<And>x y. cmp' (f x) (f y) = cmp x y"
  shows "map f (js_sort cmp xs) = js_sort cmp' (map f xs)"
  using assms by (induction xs) (simp_all add: js_insert_map[of cmp' f cmp])

lemma sort_as_window:
  "map as_window (js_sort compareMachineWindows ws) = js_sort compareWindows (map as_window ws)"
  by (rule js_sort_map) (rule compare_as_window)

lemma reject_as_window:
  "rejectOverlappingMachineWindows ws = Inr () \<longleftrightarrow> rejectOverlappingWindows (map as_window ws) = Inr ()"
  by (induction ws rule: rejectOverlappingMachineWindows.induct) auto

lemma reject_duplicate_weaker:
  assumes "list_all (\<lambda>w. wf_window (as_window w)) ws" and "rejectOverlappingMachineWindows ws = Inr ()"
  shows "rejectDuplicateWindows ws = Inr ()"
  using assms
  by (induction ws rule: rejectDuplicateWindows.induct) (auto simp: wf_window_def split: if_splits)

lemma isMachineOperatingWeekday_Some: "isMachineOperatingWeekday v = Some d \<longleftrightarrow> v = JStr (weekday_string d)"
  using createServiceScheduleWeekday_Inr[of v d]
  by (auto simp: createServiceScheduleWeekday_def isMachineOperatingWeekday_def split: option.splits)

lemma isLocalTime_Some: "isLocalTime v = Some t \<longleftrightarrow> v = JStr t \<and> LOCAL_TIME_PATTERN t"
  by (cases v) auto

lemma createMachineOperatingWindow_wf:
  "createMachineOperatingWindow v = Inr w \<Longrightarrow> wf_window (as_window w)"
  by (auto simp: createMachineOperatingWindow_def wf_window_def isLocalTime_Some split: if_splits option.splits)

lemma created_machine_windows_wf:
  "mapR createMachineOperatingWindow vs = Inr ws \<Longrightarrow> list_all wf_window (map as_window ws)"
  by (auto simp: list_all_iff elim!: mapR_set dest: createMachineOperatingWindow_wf)

text \<open>What the constructor accepts: one to 64 windows of which no two overlap, in any order.\<close>

lemma createMachineWeeklyOperatingSchedule_Inr:
  "createMachineWeeklyOperatingSchedule v = Inr s \<longleftrightarrow>
     (\<exists>vs ws. is_plain_object v \<and> hasExactFields v SCHEDULE_FIELDS \<and> get_prop v ''windows'' = JArr vs \<and>
        vs \<noteq> [] \<and> length vs \<le> MAXIMUM_WINDOWS \<and> mapR createMachineOperatingWindow vs = Inr ws \<and>
        sorted_wrt (\<lambda>v w. \<not> overlap v w) (map as_window ws) \<and>
        s = \<lparr>op_windows = js_sort compareMachineWindows ws\<rparr>)"
proof -
  have accept: "rejectDuplicateWindows us = Inr () \<and> rejectOverlappingMachineWindows us = Inr () \<longleftrightarrow>
      sorted_wrt (\<lambda>v w. \<not> overlap v w) (map as_window ws)"
    if "mapR createMachineOperatingWindow vs = Inr ws" "us = js_sort compareMachineWindows ws" for vs ws us
  proof -
    have wf: "list_all wf_window (map as_window ws)" by (rule created_machine_windows_wf[OF that(1)])
    then have "list_all (\<lambda>w. wf_window (as_window w)) us" by (simp add: that(2) list_all_iff)
    moreover have "rejectOverlappingMachineWindows us = Inr () \<longleftrightarrow>
        sorted_wrt (\<lambda>v w. \<not> overlap v w) (map as_window ws)"
      using reject_sorted_iff[OF wf] by (simp add: reject_as_window sort_as_window that(2))
    ultimately show ?thesis using reject_duplicate_weaker by blast
  qed
  show ?thesis
    by (auto simp: createMachineWeeklyOperatingSchedule_def result_simps Let_def not_less accept
        split: jsval.splits) (use accept in blast)+
qed

lemma createMachineWeeklyOperatingSchedule_wf:
  assumes "createMachineWeeklyOperatingSchedule v = Inr s"
  shows "wf_machine_schedule s"
proof -
  from assms obtain vs ws where v: "vs \<noteq> []" "length vs \<le> MAXIMUM_WINDOWS"
      "mapR createMachineOperatingWindow vs = Inr ws" "sorted_wrt (\<lambda>v w. \<not> overlap v w) (map as_window ws)"
    and s: "s = \<lparr>op_windows = js_sort compareMachineWindows ws\<rparr>"
    by (auto simp: createMachineWeeklyOperatingSchedule_Inr)
  let ?us = "js_sort compareWindows (map as_window ws)"
  have wf: "list_all wf_window ?us" using created_machine_windows_wf[OF v(3)] by (simp add: list_all_iff)
  have "sorted_wrt apart ?us"
    using sorted_wrt_apart_iff[OF wf] sorted_js_sort[OF consistent_compareWindows]
      sorted_wrt_symmetric_sort[of "\<lambda>v w. \<not> overlap v w" compareWindows "map as_window ws"] v(4) overlap_sym
    by blast
  then show ?thesis
    using wf v(1,2) mapR_length[OF v(3)]
    by (cases vs) (auto simp: wf_machine_schedule_def wf_schedule_def s sort_as_window
        MAXIMUM_WINDOWS_def MAXIMUM_WEEKLY_WINDOWS_def)
qed

lemma createMachineOperatingPolicy_wf: "createMachineOperatingPolicy v = Inr p \<Longrightarrow> wf_machine_policy p"
  by (auto simp: createMachineOperatingPolicy_def result_simps split: if_splits option.splits jsval.splits
      dest: createMachineWeeklyOperatingSchedule_wf)

end
