(* ===== verification/Machine_Power_Plan.thy ===== *)
theory Machine_Power_Plan
  imports Machine_Schedule
begin

text \<open>
  The power plan of the machine and its shutdown occurrences (\<open>power-management/domain\<close>): the plan
  announces the next shutdown and the next wake, the occurrences of an interval are what the
  scheduler executes. Both sample the operating policy once a minute over at most eight days.
\<close>

section \<open>Transition plans and power plans\<close>

datatype MachinePowerTransitionPlan = NotPlanned | Planned string

abbreviation MachinePowerTransitionPlanValidationError :: "string \<Rightarrow> js_error" where
  "MachinePowerTransitionPlanValidationError \<equiv> NamedError ''MachinePowerTransitionPlanValidationError''"

fun canonical_string :: "jsval \<Rightarrow> string option" where
  "canonical_string (JStr v) = (if canonical v then Some v else None)"
| "canonical_string _ = None"

definition createMachinePowerTransitionPlan :: "jsval \<Rightarrow> MachinePowerTransitionPlan result" where
  "createMachinePowerTransitionPlan input =
     (if \<not> is_plain_object input then Inl (MachinePowerTransitionPlanValidationError ''invalid_record'')
      else if \<not> list_all (key_in [''state'', ''scheduledFor'']) (own_keys input)
      then Inl (MachinePowerTransitionPlanValidationError ''invalid_field'')
      else let state = get_prop input ''state''; hasScheduledFor = has_own input ''scheduledFor'' in
        if state \<noteq> JStr ''planned'' \<and> state \<noteq> JStr ''not_planned''
        then Inl (MachinePowerTransitionPlanValidationError ''invalid_state'')
        else if state = JStr ''planned''
        then (if \<not> hasScheduledFor
              then Inl (MachinePowerTransitionPlanValidationError ''missing_scheduled_for'')
              else case canonical_string (get_prop input ''scheduledFor'') of
                None \<Rightarrow> Inl (MachinePowerTransitionPlanValidationError ''invalid_scheduled_for'')
              | Some t \<Rightarrow> Inr (Planned t))
        else if hasScheduledFor
        then Inl (MachinePowerTransitionPlanValidationError ''unexpected_scheduled_for'')
        else Inr NotPlanned)"

datatype MachinePowerExpectation = operating | offline | manual_power

fun power_expectation_string :: "MachinePowerExpectation \<Rightarrow> string" where
  "power_expectation_string operating = ''operating''"
| "power_expectation_string offline = ''offline''"
| "power_expectation_string manual_power = ''manual''"

definition MACHINE_POWER_EXPECTATIONS :: "MachinePowerExpectation list" where
  "MACHINE_POWER_EXPECTATIONS = [operating, offline, manual_power]"

record MachinePowerPlan =
  plan_evaluatedAt :: string
  plan_expectation :: MachinePowerExpectation
  nextShutdown :: MachinePowerTransitionPlan
  nextWake :: MachinePowerTransitionPlan

abbreviation MachinePowerPlanValidationError :: "string \<Rightarrow> js_error" where
  "MachinePowerPlanValidationError \<equiv> NamedError ''MachinePowerPlanValidationError''"

definition PLAN_FIELDS :: "string list" where
  "PLAN_FIELDS = [''evaluatedAt'', ''expectation'', ''nextShutdown'', ''nextWake'']"

definition isMachinePowerExpectation :: "jsval \<Rightarrow> MachinePowerExpectation option" where
  "isMachinePowerExpectation value =
     find (\<lambda>e. value = JStr (power_expectation_string e)) MACHINE_POWER_EXPECTATIONS"

text \<open>Only the validation error of the transition is translated.\<close>

definition createPowerTransition :: "jsval \<Rightarrow> string \<Rightarrow> MachinePowerTransitionPlan result" where
  "createPowerTransition input errorCode =
     (case createMachinePowerTransitionPlan input of
        Inr t \<Rightarrow> Inr t
      | Inl (NamedError name c) \<Rightarrow>
          if name = ''MachinePowerTransitionPlanValidationError'' then Inl (MachinePowerPlanValidationError errorCode)
          else Inl (NamedError name c)
      | Inl e \<Rightarrow> Inl e)"

definition validateTransitionCombination ::
  "string \<Rightarrow> MachinePowerExpectation \<Rightarrow> MachinePowerTransitionPlan \<Rightarrow> MachinePowerTransitionPlan \<Rightarrow> unit result" where
  "validateTransitionCombination evaluatedAt expectation shutdown wake =
     (let invalid = Inl (MachinePowerPlanValidationError ''invalid_transition_combination'') in
      if expectation = manual_power
      then if shutdown \<noteq> NotPlanned \<or> wake \<noteq> NotPlanned then invalid else Inr ()
      else case (shutdown, wake) of
        (Planned s, Planned w) \<Rightarrow>
          if expectation = operating
          then if \<not> (time_of evaluatedAt < time_of s \<and> time_of s < time_of w) then invalid else Inr ()
          else if \<not> (time_of evaluatedAt < time_of w \<and> time_of w < time_of s) then invalid else Inr ()
      | _ \<Rightarrow> if expectation = operating \<and> shutdown = NotPlanned \<and> wake = NotPlanned then Inr () else invalid)"

definition createMachinePowerPlan :: "jsval \<Rightarrow> MachinePowerPlan result" where
  "createMachinePowerPlan input =
     (if \<not> is_plain_object input then Inl (MachinePowerPlanValidationError ''invalid_record'')
      else if \<not> hasExactFields input PLAN_FIELDS then Inl (MachinePowerPlanValidationError ''invalid_field'')
      else case canonical_string (get_prop input ''evaluatedAt'') of
        None \<Rightarrow> Inl (MachinePowerPlanValidationError ''invalid_evaluated_at'')
      | Some evaluatedAt \<Rightarrow>
          (case isMachinePowerExpectation (get_prop input ''expectation'') of
             None \<Rightarrow> Inl (MachinePowerPlanValidationError ''invalid_expectation'')
           | Some expectation \<Rightarrow>
               bindR (createPowerTransition (get_prop input ''nextShutdown'') ''invalid_next_shutdown'') (\<lambda>shutdown.
               bindR (createPowerTransition (get_prop input ''nextWake'') ''invalid_next_wake'') (\<lambda>wake.
               bindR (validateTransitionCombination evaluatedAt expectation shutdown wake) (\<lambda>_.
               Inr \<lparr>plan_evaluatedAt = evaluatedAt, plan_expectation = expectation,
                    nextShutdown = shutdown, nextWake = wake\<rparr>)))))"

text \<open>The objects the evaluator builds, and a plan as the object it is.\<close>

fun transition_value :: "MachinePowerTransitionPlan \<Rightarrow> jsval" where
  "transition_value NotPlanned = literal_obj [(''state'', JStr ''not_planned'')]"
| "transition_value (Planned t) = literal_obj [(''state'', JStr ''planned''), (''scheduledFor'', JStr t)]"

definition plan_value :: "MachinePowerPlan \<Rightarrow> jsval" where
  "plan_value p = literal_obj
     [(''evaluatedAt'', JStr (plan_evaluatedAt p)),
      (''expectation'', JStr (power_expectation_string (plan_expectation p))),
      (''nextShutdown'', transition_value (nextShutdown p)), (''nextWake'', transition_value (nextWake p))]"

section \<open>The evaluator of power plans\<close>

abbreviation MachinePowerPlanEvaluationError :: "string \<Rightarrow> js_error" where
  "MachinePowerPlanEvaluationError \<equiv> NamedError ''MachinePowerPlanEvaluationError''"

definition MAXIMUM_SEARCH_IN_MILLISECONDS :: int where
  "MAXIMUM_SEARCH_IN_MILLISECONDS = 8 * 24 * 60 * MINUTE_IN_MILLISECONDS"

text \<open>\<open>formatToParts(new Date(timestamp))\<close>, which rejects an invalid date.\<close>

definition formatToParts :: "formatter \<Rightarrow> string \<Rightarrow> int \<Rightarrow> (string \<times> string) list result" where
  "formatToParts fmt timezone timestamp =
     (case new_date timestamp of None \<Rightarrow> Inl RangeError | Some t \<Rightarrow> Inr (fmt timezone t))"

definition find_part :: "(string \<times> string) list \<Rightarrow> string \<Rightarrow> string option" where
  "find_part parts type = map_option snd (find (\<lambda>part. fst part = type) parts)"

definition getPowerPart :: "(string \<times> string) list \<Rightarrow> string \<Rightarrow> string result" where
  "getPowerPart parts type =
     (case find_part parts type of
        None \<Rightarrow> Inl (MachinePowerPlanEvaluationError ''transition_search_exhausted'')
      | Some v \<Rightarrow> Inr v)"

definition inside_operating_window :: "MachineOperatingWeekday \<Rightarrow> string \<Rightarrow> MachineOperatingWindow \<Rightarrow> bool" where
  "inside_operating_window d localTime w \<longleftrightarrow> dayOfWeek w = d \<and> op_start w \<le> localTime \<and> localTime < op_end w"

definition evaluateScheduledExpectation ::
  "formatter \<Rightarrow> string \<Rightarrow> MachineWeeklyOperatingSchedule \<Rightarrow> int \<Rightarrow> MachinePowerExpectation result" where
  "evaluateScheduledExpectation fmt tz schedule timestamp =
     bindR (formatToParts fmt tz timestamp) (\<lambda>parts.
     bindR (getPowerPart parts ''weekday'') (\<lambda>weekdayName.
     bindR (getPowerPart parts ''hour'') (\<lambda>hour.
     bindR (getPowerPart parts ''minute'') (\<lambda>minute.
     case weekdayByEnglishName weekdayName of
       None \<Rightarrow> Inl (MachinePowerPlanEvaluationError ''transition_search_exhausted'')
     | Some d \<Rightarrow>
         Inr (if list_ex (inside_operating_window d (hour @ '':'' @ minute)) (op_windows schedule)
              then operating else offline)))))"

text \<open>The loop stops at the second transition; a transition is an expectation and its time.\<close>

function next_transitions_loop ::
  "formatter \<Rightarrow> string \<Rightarrow> MachineWeeklyOperatingSchedule \<Rightarrow> int \<Rightarrow> int \<Rightarrow> MachinePowerExpectation \<Rightarrow>
     (MachinePowerExpectation \<times> string) list \<Rightarrow> (MachinePowerExpectation \<times> string) list result" where
  "next_transitions_loop fmt tz schedule lastCandidate candidate previousExpectation transitions =
     (if candidate \<le> lastCandidate
      then bindR (evaluateScheduledExpectation fmt tz schedule candidate) (\<lambda>expectation.
           if expectation \<noteq> previousExpectation
           then bindR (toISOString (new_date candidate)) (\<lambda>text.
                let ts = transitions @ [(expectation, text)] in
                if length ts = 2 then Inr ts
                else next_transitions_loop fmt tz schedule lastCandidate (candidate + MINUTE_IN_MILLISECONDS)
                       expectation ts)
           else next_transitions_loop fmt tz schedule lastCandidate (candidate + MINUTE_IN_MILLISECONDS)
                  previousExpectation transitions)
      else Inr transitions)"
  by pat_completeness auto
termination
  by (relation "measure (\<lambda>(_, _, _, l, c, _, _). nat (l + 1 - c))") (auto simp: MINUTE_IN_MILLISECONDS_def)

declare next_transitions_loop.simps [simp del]

definition findNextTransitions ::
  "formatter \<Rightarrow> string \<Rightarrow> MachineWeeklyOperatingSchedule \<Rightarrow> int \<Rightarrow> MachinePowerExpectation \<Rightarrow>
     (MachinePowerExpectation \<times> string) list result" where
  "findNextTransitions fmt tz schedule evaluatedTimestamp initialExpectation =
     next_transitions_loop fmt tz schedule (evaluatedTimestamp + MAXIMUM_SEARCH_IN_MILLISECONDS)
       (evaluatedTimestamp div MINUTE_IN_MILLISECONDS * MINUTE_IN_MILLISECONDS + MINUTE_IN_MILLISECONDS)
       initialExpectation []"

definition evaluateScheduledPowerPlan ::
  "formatter \<Rightarrow> string \<Rightarrow> MachineWeeklyOperatingSchedule \<Rightarrow> string \<Rightarrow> MachinePowerPlan result" where
  "evaluateScheduledPowerPlan fmt tz schedule evaluatedAt =
     (let evaluatedTimestamp = time_of evaluatedAt in
      bindR (evaluateScheduledExpectation fmt tz schedule evaluatedTimestamp) (\<lambda>initialExpectation.
      bindR (findNextTransitions fmt tz schedule evaluatedTimestamp initialExpectation) (\<lambda>transitions.
      case transitions of
        first # second # _ \<Rightarrow>
          if initialExpectation = operating
          then createMachinePowerPlan (plan_value \<lparr>plan_evaluatedAt = evaluatedAt,
                 plan_expectation = initialExpectation, nextShutdown = Planned (snd first),
                 nextWake = Planned (snd second)\<rparr>)
          else createMachinePowerPlan (plan_value \<lparr>plan_evaluatedAt = evaluatedAt,
                 plan_expectation = initialExpectation, nextShutdown = Planned (snd second),
                 nextWake = Planned (snd first)\<rparr>)
      | _ \<Rightarrow> Inl (MachinePowerPlanEvaluationError ''transition_search_exhausted''))))"

definition evaluateMachinePowerPlan :: "formatter \<Rightarrow> MachineOperatingPolicy \<Rightarrow> string \<Rightarrow> MachinePowerPlan result" where
  "evaluateMachinePowerPlan fmt policy evaluatedAt =
     (if \<not> canonical evaluatedAt then Inl (MachinePowerPlanEvaluationError ''invalid_evaluated_at'')
      else case policy of
        AlwaysOnPolicy \<Rightarrow> createMachinePowerPlan (plan_value \<lparr>plan_evaluatedAt = evaluatedAt,
          plan_expectation = operating, nextShutdown = NotPlanned, nextWake = NotPlanned\<rparr>)
      | ManualMachinePolicy \<Rightarrow> createMachinePowerPlan (plan_value \<lparr>plan_evaluatedAt = evaluatedAt,
          plan_expectation = manual_power, nextShutdown = NotPlanned, nextWake = NotPlanned\<rparr>)
      | ScheduledMachinePolicy tz schedule \<Rightarrow> evaluateScheduledPowerPlan fmt tz schedule evaluatedAt)"

section \<open>Shutdown occurrences\<close>

record MachineShutdownOccurrence =
  shutdown_scheduledFor :: string
  wakeScheduledFor :: string

abbreviation MachineShutdownOccurrenceValidationError :: "string \<Rightarrow> js_error" where
  "MachineShutdownOccurrenceValidationError \<equiv> NamedError ''MachineShutdownOccurrenceValidationError''"

definition createMachineShutdownOccurrence :: "jsval \<Rightarrow> MachineShutdownOccurrence result" where
  "createMachineShutdownOccurrence input =
     (if \<not> is_plain_object input then Inl (MachineShutdownOccurrenceValidationError ''invalid_record'')
      else if length (own_keys input) \<noteq> 3 \<or>
        \<not> list_all (key_in [''operation'', ''scheduledFor'', ''wakeScheduledFor'']) (own_keys input)
      then Inl (MachineShutdownOccurrenceValidationError ''invalid_field'')
      else if get_prop input ''operation'' \<noteq> JStr ''shutdown''
      then Inl (MachineShutdownOccurrenceValidationError ''invalid_operation'')
      else case canonical_string (get_prop input ''scheduledFor'') of
        None \<Rightarrow> Inl (MachineShutdownOccurrenceValidationError ''invalid_scheduled_for'')
      | Some s \<Rightarrow>
          (case canonical_string (get_prop input ''wakeScheduledFor'') of
             None \<Rightarrow> Inl (MachineShutdownOccurrenceValidationError ''invalid_wake_scheduled_for'')
           | Some w \<Rightarrow>
               if time_of s \<ge> time_of w
               then Inl (MachineShutdownOccurrenceValidationError ''invalid_timestamp_order'')
               else Inr \<lparr>shutdown_scheduledFor = s, wakeScheduledFor = w\<rparr>))"

definition isSameMachineShutdownOccurrence :: "MachineShutdownOccurrence \<Rightarrow> MachineShutdownOccurrence \<Rightarrow> bool" where
  "isSameMachineShutdownOccurrence left right \<longleftrightarrow>
     shutdown_scheduledFor left = shutdown_scheduledFor right \<and> wakeScheduledFor left = wakeScheduledFor right"

text \<open>An occurrence as the object it is, with its constant operation.\<close>

definition shutdown_value :: "MachineShutdownOccurrence \<Rightarrow> jsval" where
  "shutdown_value o' = literal_obj [(''operation'', JStr ''shutdown''),
     (''scheduledFor'', JStr (shutdown_scheduledFor o')), (''wakeScheduledFor'', JStr (wakeScheduledFor o'))]"

section \<open>The planned occurrence\<close>

datatype MachineShutdownOccurrencePlan = NoOccurrence | OccurrencePlanned MachineShutdownOccurrence

abbreviation MachineShutdownOccurrencePlanValidationError :: "string \<Rightarrow> js_error" where
  "MachineShutdownOccurrencePlanValidationError \<equiv> NamedError ''MachineShutdownOccurrencePlanValidationError''"

definition createMachineShutdownOccurrencePlan :: "jsval \<Rightarrow> MachineShutdownOccurrencePlan result" where
  "createMachineShutdownOccurrencePlan input =
     (if \<not> is_plain_object input then Inl (MachineShutdownOccurrencePlanValidationError ''invalid_record'')
      else if \<not> list_all (key_in [''state'', ''occurrence'']) (own_keys input)
      then Inl (MachineShutdownOccurrencePlanValidationError ''invalid_field'')
      else let state = get_prop input ''state''; has = has_own input ''occurrence'' in
        if state \<noteq> JStr ''planned'' \<and> state \<noteq> JStr ''not_planned''
        then Inl (MachineShutdownOccurrencePlanValidationError ''invalid_state'')
        else if state = JStr ''planned''
        then (if \<not> has then Inl (MachineShutdownOccurrencePlanValidationError ''missing_occurrence'')
              else case createMachineShutdownOccurrence (get_prop input ''occurrence'') of
                Inr o' \<Rightarrow> Inr (OccurrencePlanned o')
              | Inl (NamedError name c) \<Rightarrow>
                  if name = ''MachineShutdownOccurrenceValidationError''
                  then Inl (MachineShutdownOccurrencePlanValidationError ''invalid_occurrence'')
                  else Inl (NamedError name c)
              | Inl e \<Rightarrow> Inl e)
        else if has then Inl (MachineShutdownOccurrencePlanValidationError ''unexpected_occurrence'')
        else Inr NoOccurrence)"

text \<open>The last handler only translates errors other than those of the constructor, which has no other.\<close>

definition planMachineShutdownOccurrence :: "jsval \<Rightarrow> MachineShutdownOccurrencePlan result" where
  "planMachineShutdownOccurrence input =
     (case createMachinePowerPlan input of
        Inl (NamedError name c) \<Rightarrow>
          if name = ''MachinePowerPlanValidationError''
          then Inl (MachineShutdownOccurrencePlanValidationError ''invalid_power_plan'')
          else Inl (NamedError name c)
      | Inl e \<Rightarrow> Inl e
      | Inr plan \<Rightarrow>
          (case (plan_expectation plan, nextShutdown plan, nextWake plan) of
             (operating, Planned s, Planned w) \<Rightarrow>
               (case createMachineShutdownOccurrencePlan (literal_obj [(''state'', JStr ''planned''),
                    (''occurrence'', shutdown_value \<lparr>shutdown_scheduledFor = s, wakeScheduledFor = w\<rparr>)]) of
                  Inr p \<Rightarrow> Inr p
                | Inl (NamedError name c) \<Rightarrow>
                    if name = ''MachineShutdownOccurrencePlanValidationError'' then Inl (NamedError name c)
                    else Inl (MachineShutdownOccurrencePlanValidationError ''invalid_occurrence'')
                | Inl e \<Rightarrow> Inl (MachineShutdownOccurrencePlanValidationError ''invalid_occurrence''))
           | _ \<Rightarrow> createMachineShutdownOccurrencePlan (literal_obj [(''state'', JStr ''not_planned'')])))"

text \<open>\<open>GetMachinePowerPlan\<close> and \<open>PlanNextMachineShutdownOccurrence\<close> for the time the clock returns.\<close>

definition GetMachinePowerPlan_execute ::
  "formatter \<Rightarrow> MachineOperatingPolicy \<Rightarrow> int option \<Rightarrow> MachinePowerPlan result" where
  "GetMachinePowerPlan_execute fmt policy now =
     bindR (toISOString now) (\<lambda>evaluatedAt. evaluateMachinePowerPlan fmt policy evaluatedAt)"

definition PlanNextMachineShutdownOccurrence_execute ::
  "formatter \<Rightarrow> MachineOperatingPolicy \<Rightarrow> int option \<Rightarrow> MachineShutdownOccurrencePlan result" where
  "PlanNextMachineShutdownOccurrence_execute fmt policy now =
     bindR (GetMachinePowerPlan_execute fmt policy now) (\<lambda>plan. planMachineShutdownOccurrence (plan_value plan))"

section \<open>The occurrences of an interval\<close>

abbreviation MachineShutdownOccurrenceIntervalError :: "string \<Rightarrow> js_error" where
  "MachineShutdownOccurrenceIntervalError \<equiv> NamedError ''MachineShutdownOccurrenceIntervalError''"

definition HORIZON :: int where
  "HORIZON = 8 * 24 * 60 * MINUTE_IN_MILLISECONDS"

text \<open>A missing part, and a weekday that is not in the table, mean not operating here.\<close>

definition isOperating ::
  "formatter \<Rightarrow> string \<Rightarrow> MachineWeeklyOperatingSchedule \<Rightarrow> int \<Rightarrow> bool result" where
  "isOperating fmt tz schedule timestamp =
     bindR (formatToParts fmt tz timestamp) (\<lambda>parts.
     case (find_part parts ''weekday'', find_part parts ''hour'', find_part parts ''minute'') of
       (Some weekdayName, Some hour, Some minute) \<Rightarrow>
         Inr (list_ex (\<lambda>w. weekdayByEnglishName weekdayName = Some (dayOfWeek w) \<and>
                         op_start w \<le> hour @ '':'' @ minute \<and> hour @ '':'' @ minute < op_end w)
                (op_windows schedule))
     | _ \<Rightarrow> Inr False)"

text \<open>\<open>findNextOperatingStart\<close> from its first candidate on.\<close>

function operating_start_loop ::
  "formatter \<Rightarrow> string \<Rightarrow> MachineWeeklyOperatingSchedule \<Rightarrow> int \<Rightarrow> int \<Rightarrow> int option result" where
  "operating_start_loop fmt tz schedule limit candidate =
     (if candidate \<le> limit
      then bindR (isOperating fmt tz schedule (candidate - MINUTE_IN_MILLISECONDS)) (\<lambda>was.
           if was then operating_start_loop fmt tz schedule limit (candidate + MINUTE_IN_MILLISECONDS)
           else bindR (isOperating fmt tz schedule candidate) (\<lambda>now.
                if now then Inr (Some candidate)
                else operating_start_loop fmt tz schedule limit (candidate + MINUTE_IN_MILLISECONDS)))
      else Inr None)"
  by pat_completeness auto
termination
  by (relation "measure (\<lambda>(_, _, _, l, c). nat (l + 1 - c))") (auto simp: MINUTE_IN_MILLISECONDS_def)

declare operating_start_loop.simps [simp del]

definition findNextOperatingStart ::
  "formatter \<Rightarrow> string \<Rightarrow> MachineWeeklyOperatingSchedule \<Rightarrow> int \<Rightarrow> int \<Rightarrow> int option result" where
  "findNextOperatingStart fmt tz schedule from_time limit =
     operating_start_loop fmt tz schedule limit (from_time + MINUTE_IN_MILLISECONDS)"

definition shutdown_occurrence_of ::
  "formatter \<Rightarrow> string \<Rightarrow> MachineWeeklyOperatingSchedule \<Rightarrow> int \<Rightarrow> MachineShutdownOccurrence result" where
  "shutdown_occurrence_of fmt tz schedule candidate =
     bindR (findNextOperatingStart fmt tz schedule candidate (candidate + HORIZON)) (\<lambda>wake.
     case wake of
       None \<Rightarrow> Inl (MachineShutdownOccurrenceIntervalError ''search_exhausted'')
     | Some w \<Rightarrow>
         bindR (toISOString (new_date candidate)) (\<lambda>scheduled_text.
         bindR (toISOString (new_date w)) (\<lambda>wake_text.
         createMachineShutdownOccurrence
           (shutdown_value \<lparr>shutdown_scheduledFor = scheduled_text, wakeScheduledFor = wake_text\<rparr>))))"

function occurrences_loop ::
  "formatter \<Rightarrow> string \<Rightarrow> MachineWeeklyOperatingSchedule \<Rightarrow> int \<Rightarrow> int \<Rightarrow> MachineShutdownOccurrence list result" where
  "occurrences_loop fmt tz schedule upper candidate =
     (if candidate \<le> upper
      then bindR (isOperating fmt tz schedule (candidate - MINUTE_IN_MILLISECONDS)) (\<lambda>was.
           bindR (if was then isOperating fmt tz schedule candidate else Inr True) (\<lambda>now.
           if was \<and> \<not> now
           then bindR (shutdown_occurrence_of fmt tz schedule candidate) (\<lambda>o'.
                bindR (occurrences_loop fmt tz schedule upper (candidate + MINUTE_IN_MILLISECONDS)) (\<lambda>rest.
                Inr (o' # rest)))
           else occurrences_loop fmt tz schedule upper (candidate + MINUTE_IN_MILLISECONDS)))
      else Inr [])"
  by pat_completeness auto
termination
  by (relation "measure (\<lambda>(_, _, _, u, c). nat (u + 1 - c))") (auto simp: MINUTE_IN_MILLISECONDS_def)

declare occurrences_loop.simps [simp del]

definition createMachineShutdownOccurrencesForInterval ::
  "formatter \<Rightarrow> MachineOperatingPolicy \<Rightarrow> string \<Rightarrow> string \<Rightarrow> MachineShutdownOccurrence list result" where
  "createMachineShutdownOccurrencesForInterval fmt policy completedThrough tickedThrough =
     (if \<not> canonical completedThrough
      then Inl (MachineShutdownOccurrenceIntervalError ''invalid_completed_through'')
      else if \<not> canonical tickedThrough
      then Inl (MachineShutdownOccurrenceIntervalError ''invalid_ticked_through'')
      else let lower = time_of completedThrough; upper = time_of tickedThrough in
        if upper < lower then Inl (MachineShutdownOccurrenceIntervalError ''reversed_interval'')
        else if upper - lower > HORIZON then Inl (MachineShutdownOccurrenceIntervalError ''interval_too_large'')
        else case policy of
          ScheduledMachinePolicy tz schedule \<Rightarrow>
            if upper = lower then Inr []
            else occurrences_loop fmt tz schedule upper
                   (lower div MINUTE_IN_MILLISECONDS * MINUTE_IN_MILLISECONDS + MINUTE_IN_MILLISECONDS)
        | _ \<Rightarrow> Inr [])"

section \<open>The operating state as a function of time\<close>

definition operates_at :: "formatter \<Rightarrow> string \<Rightarrow> MachineWeeklyOperatingSchedule \<Rightarrow> int \<Rightarrow> bool" where
  "operates_at fmt tz schedule t \<longleftrightarrow> expectation_at fmt (ScheduledPolicy tz (as_schedule schedule)) t = ExpAvailable"

abbreviation expect :: "bool \<Rightarrow> MachinePowerExpectation" where
  "expect on \<equiv> if on then operating else offline"

lemma getPart_find_part:
  "getPart parts type = (case find_part parts type of None \<Rightarrow> Inl ServiceAvailabilityEvaluationError | Some v \<Rightarrow> Inr v)"
  by (simp add: getPart_def find_part_def split: option.splits)

lemma wf_as_policy:
  "wf_machine_policy (ScheduledMachinePolicy tz s) \<Longrightarrow> wf_policy (ScheduledPolicy tz (as_schedule s))"
  by (simp add: timezones_same wf_machine_schedule_def)

lemma local_parts_find:
  assumes "local_parts_ok parts"
  obtains name d hour minute where "find_part parts ''weekday'' = Some name" "weekdayByEnglishName name = Some d"
    "find_part parts ''hour'' = Some hour" "find_part parts ''minute'' = Some minute"
  using assms by (auto simp: local_parts_ok_def getPart_find_part split: option.splits)

context local_formatter
begin

lemma machine_evaluates:
  assumes "wf_machine_policy (ScheduledMachinePolicy tz s)" and "\<bar>t\<bar> \<le> max_time"
  shows "isOperating fmt tz s t = Inr (operates_at fmt tz s t)"
    and "evaluateScheduledExpectation fmt tz s t = Inr (expect (operates_at fmt tz s t))"
proof -
  have "local_parts_ok (fmt tz t)" using parts_ok assms by (simp add: timezones_same)
  then obtain name d hour minute where parts: "find_part (fmt tz t) ''weekday'' = Some name"
      "weekdayByEnglishName name = Some d" "find_part (fmt tz t) ''hour'' = Some hour"
      "find_part (fmt tz t) ''minute'' = Some minute"
    by (rule local_parts_find)
  have on: "operates_at fmt tz s t \<longleftrightarrow> list_ex (inside_operating_window d (hour @ '':'' @ minute)) (op_windows s)"
    using parts by (simp add: operates_at_def expectation_at_def evaluateServiceAvailabilityPolicy_def
        evaluateScheduledPolicy_def getPart_find_part list_ex_iff inside_window_def inside_operating_window_def)
  show "isOperating fmt tz s t = Inr (operates_at fmt tz s t)"
    using assms(2) parts unfolding on
    by (auto simp: isOperating_def formatToParts_def list_ex_iff inside_operating_window_def)
  show "evaluateScheduledExpectation fmt tz s t = Inr (expect (operates_at fmt tz s t))"
    using assms(2) parts unfolding on
    by (simp add: evaluateScheduledExpectation_def formatToParts_def getPowerPart_def)
qed

end

section \<open>Signals that are constant on minutes\<close>

definition minute_constant :: "(int \<Rightarrow> bool) \<Rightarrow> bool" where
  "minute_constant f \<longleftrightarrow> (\<forall>x. \<bar>x\<bar> \<le> max_time \<longrightarrow> f (x div MINUTE_IN_MILLISECONDS * MINUTE_IN_MILLISECONDS) = f x)"

text \<open>\<open>first_change f a b\<close>: \<open>b\<close> is the first instant after \<open>a\<close> at which \<open>f\<close> is not what it was at \<open>a\<close>.\<close>

definition first_change :: "(int \<Rightarrow> bool) \<Rightarrow> int \<Rightarrow> int \<Rightarrow> bool" where
  "first_change f a b \<longleftrightarrow> a < b \<and> f b \<noteq> f a \<and> (\<forall>u. a \<le> u \<and> u < b \<longrightarrow> f u = f a)"

lemma first_changeD:
  "first_change f a b \<Longrightarrow> a < b" "first_change f a b \<Longrightarrow> f b = (\<not> f a)"
  "first_change f a b \<Longrightarrow> a \<le> x \<Longrightarrow> x < b \<Longrightarrow> f x = f a"
  unfolding first_change_def by blast+

lemma first_changeI: "a < b \<Longrightarrow> f b = (\<not> f a) \<Longrightarrow> (\<And>u. a \<le> u \<Longrightarrow> u < b \<Longrightarrow> f u = f a) \<Longrightarrow> first_change f a b"
  unfolding first_change_def by blast

lemma first_change_unique: "first_change f a b \<Longrightarrow> first_change f a c \<Longrightarrow> b = c"
  unfolding first_change_def by (metis linorder_less_linear order_less_imp_le)

lemma operates_minute_constant:
  assumes "minute_formatter fmt" and "wf_machine_policy (ScheduledMachinePolicy tz s)"
  shows "minute_constant (operates_at fmt tz s)"
  using minute_formatter.expectation_minute[OF assms(1) wf_as_policy[OF assms(2)]]
  by (simp add: minute_constant_def operates_at_def)

lemma minute_constantD:
  assumes "minute_constant f" and "aligned u" and "u \<le> x" and "x < u + MINUTE_IN_MILLISECONDS" and "\<bar>x\<bar> \<le> max_time"
  shows "f x = f u"
  using assms(1,5) div_minute_eq[OF assms(3,4,2)] by (metis minute_constant_def)

lemma change_minutes_Nil:
  assumes "minute_constant f" and "b \<le> max_time" and "aligned u" and "- max_time \<le> u - MINUTE_IN_MILLISECONDS"
    and "change_minutes f u b = []" and "u - MINUTE_IN_MILLISECONDS \<le> x" and "x \<le> b"
  shows "f x = f (u - MINUTE_IN_MILLISECONDS)"
  using assms(3-6)
proof (induction "nat (b + 1 - u)" arbitrary: u rule: less_induct)
  case less
  have al: "aligned (u - MINUTE_IN_MILLISECONDS)" using less.prems(1) aligned_plus[of "u - MINUTE_IN_MILLISECONDS"] by simp
  show ?case
  proof (cases "x < u")
    case True
    then show ?thesis
      using less.prems(2,4) assms(2,7) by (intro minute_constantD[OF assms(1) al]) auto
  next
    case False
    then have ub: "u \<le> b" using assms(7) by simp
    then have same: "f u = f (u - MINUTE_IN_MILLISECONDS)"
      and rest: "change_minutes f (u + MINUTE_IN_MILLISECONDS) b = []"
      using less.prems(3) by (simp_all add: change_minutes_simps[of f u] split: if_splits)
    have "f x = f (u + MINUTE_IN_MILLISECONDS - MINUTE_IN_MILLISECONDS)"
      using less.prems False ub rest minute_pos by (intro less.hyps) auto
    then show ?thesis using same by simp
  qed
qed

lemma change_minutes_Cons:
  assumes "minute_constant f" and "b \<le> max_time" and "aligned u" and "- max_time \<le> u - MINUTE_IN_MILLISECONDS"
    and "change_minutes f u b = v # vs"
  shows "first_change f (u - MINUTE_IN_MILLISECONDS) v \<and> u \<le> v \<and> v \<le> b \<and> aligned v \<and>
    vs = change_minutes f (v + MINUTE_IN_MILLISECONDS) b"
  using assms(3-5)
proof (induction "nat (b + 1 - u)" arbitrary: u rule: less_induct)
  case less
  have al: "aligned (u - MINUTE_IN_MILLISECONDS)" using less.prems(1) aligned_plus[of "u - MINUTE_IN_MILLISECONDS"] by simp
  have ub: "u \<le> b" using less.prems(3) by (simp add: change_minutes_simps[of f u] split: if_splits)
  have before: "f x = f (u - MINUTE_IN_MILLISECONDS)" if "u - MINUTE_IN_MILLISECONDS \<le> x" "x < u" for x
    using that less.prems(2) assms(2) ub by (intro minute_constantD[OF assms(1) al]) auto
  show ?case
  proof (cases "f u = f (u - MINUTE_IN_MILLISECONDS)")
    case True
    have "first_change f (u + MINUTE_IN_MILLISECONDS - MINUTE_IN_MILLISECONDS) v \<and> u + MINUTE_IN_MILLISECONDS \<le> v \<and>
        v \<le> b \<and> aligned v \<and> vs = change_minutes f (v + MINUTE_IN_MILLISECONDS) b"
      using less.prems ub True minute_pos
      by (intro less.hyps) (auto simp: change_minutes_simps[of f u])
    then have v: "first_change f u v" "u + MINUTE_IN_MILLISECONDS \<le> v" "v \<le> b" "aligned v"
        "vs = change_minutes f (v + MINUTE_IN_MILLISECONDS) b"
      by simp_all
    have "first_change f (u - MINUTE_IN_MILLISECONDS) v"
    proof (rule first_changeI)
      show "u - MINUTE_IN_MILLISECONDS < v" using v(2) minute_pos by simp
      show "f v = (\<not> f (u - MINUTE_IN_MILLISECONDS))"
        using first_changeD(2)[OF v(1)] by (simp only: True)
      fix x
      assume x: "u - MINUTE_IN_MILLISECONDS \<le> x" "x < v"
      show "f x = f (u - MINUTE_IN_MILLISECONDS)"
        using before[OF x(1)] first_changeD(3)[OF v(1) _ x(2)] True by (cases "x < u") simp_all
    qed
    then show ?thesis using v minute_pos by simp
  next
    case False
    then have "v = u" "vs = change_minutes f (u + MINUTE_IN_MILLISECONDS) b"
      using less.prems(3) ub False by (auto simp: change_minutes_simps[of f u])
    moreover have "first_change f (u - MINUTE_IN_MILLISECONDS) u"
      unfolding first_change_def using False before minute_pos by (metis diff_less_eq less_add_same_cancel1)
    ultimately show ?thesis using less.prems(1) ub by simp
  qed
qed

section \<open>Objects and what is read back from them\<close>

lemma canonical_string_Some [simp]: "canonical_string (JStr v) = Some w \<longleftrightarrow> v = w \<and> canonical v"
  by auto

fun canonical_plan :: "MachinePowerTransitionPlan \<Rightarrow> bool" where
  "canonical_plan NotPlanned \<longleftrightarrow> True"
| "canonical_plan (Planned v) \<longleftrightarrow> canonical v"

lemma createMachinePowerTransitionPlan_value:
  assumes "canonical_plan t"
  shows "createMachinePowerTransitionPlan (transition_value t) = Inr t"
  using assms by (cases t) (simp_all add: createMachinePowerTransitionPlan_def literal_simps has_own_def Let_def)

lemma createMachinePowerPlan_value:
  assumes "canonical (plan_evaluatedAt p)"
    and "canonical_plan (nextShutdown p)" and "canonical_plan (nextWake p)"
  shows "createMachinePowerPlan (plan_value p) =
    bindR (validateTransitionCombination (plan_evaluatedAt p) (plan_expectation p) (nextShutdown p) (nextWake p))
      (\<lambda>_. Inr p)"
proof -
  have "isMachinePowerExpectation (JStr (power_expectation_string e)) = Some e" for e
    by (cases e) (simp_all add: isMachinePowerExpectation_def MACHINE_POWER_EXPECTATIONS_def)
  moreover have "hasExactFields (plan_value p) PLAN_FIELDS"
    by (simp add: plan_value_def literal_simps hasExactFields_def has_own_def PLAN_FIELDS_def)
  ultimately show ?thesis
    using assms createMachinePowerTransitionPlan_value[of "nextShutdown p"]
      createMachinePowerTransitionPlan_value[of "nextWake p"]
    by (cases p) (simp add: createMachinePowerPlan_def createPowerTransition_def plan_value_def literal_simps)
qed

lemma createMachinePowerPlan_planned:
  assumes "\<bar>t\<bar> \<le> max_time" "\<bar>u\<bar> \<le> max_time" "\<bar>v\<bar> \<le> max_time" "t < u" "u < v"
  shows "createMachinePowerPlan (plan_value \<lparr>plan_evaluatedAt = iso t, plan_expectation = operating,
      nextShutdown = Planned (iso u), nextWake = Planned (iso v)\<rparr>) =
    Inr \<lparr>plan_evaluatedAt = iso t, plan_expectation = operating, nextShutdown = Planned (iso u), nextWake = Planned (iso v)\<rparr>"
    and "createMachinePowerPlan (plan_value \<lparr>plan_evaluatedAt = iso t, plan_expectation = offline,
      nextShutdown = Planned (iso v), nextWake = Planned (iso u)\<rparr>) =
    Inr \<lparr>plan_evaluatedAt = iso t, plan_expectation = offline, nextShutdown = Planned (iso v), nextWake = Planned (iso u)\<rparr>"
  using assms by (simp_all add: createMachinePowerPlan_value validateTransitionCombination_def Let_def)

lemma createMachineShutdownOccurrence_value:
  assumes "canonical (shutdown_scheduledFor o')" and "canonical (wakeScheduledFor o')"
    and "time_of (shutdown_scheduledFor o') < time_of (wakeScheduledFor o')"
  shows "createMachineShutdownOccurrence (shutdown_value o') = Inr o'"
  using assms by (simp add: createMachineShutdownOccurrence_def shutdown_value_def literal_simps)

definition wf_shutdown :: "MachineShutdownOccurrence \<Rightarrow> bool" where
  "wf_shutdown o' \<longleftrightarrow> canonical (shutdown_scheduledFor o') \<and> canonical (wakeScheduledFor o') \<and>
     time_of (shutdown_scheduledFor o') < time_of (wakeScheduledFor o')"

lemma createMachineShutdownOccurrence_wf: "createMachineShutdownOccurrence v = Inr o' \<Longrightarrow> wf_shutdown o'"
  by (auto simp: createMachineShutdownOccurrence_def wf_shutdown_def not_le
      elim!: canonical_string.elims split: if_splits option.splits)

lemma create_shutdown_value: "wf_shutdown o' \<Longrightarrow> createMachineShutdownOccurrence (shutdown_value o') = Inr o'"
  by (simp add: wf_shutdown_def createMachineShutdownOccurrence_value)

section \<open>The loops\<close>

context local_formatter
begin

lemma next_transitions_changes:
  assumes "wf_machine_policy (ScheduledMachinePolicy tz s)" and "b \<le> max_time"
    and "- max_time \<le> c - MINUTE_IN_MILLISECONDS" and "length ts < 2"
    and "e = expect (operates_at fmt tz s (c - MINUTE_IN_MILLISECONDS))"
  shows "next_transitions_loop fmt tz s b c e ts =
    Inr (ts @ map (\<lambda>u. (expect (operates_at fmt tz s u), iso u))
      (take (2 - length ts) (change_minutes (operates_at fmt tz s) c b)))"
  using assms(3-5)
proof (induction "nat (b + 1 - c)" arbitrary: c e ts rule: less_induct)
  case less
  let ?f = "operates_at fmt tz s"
  show ?case
  proof (cases "c \<le> b")
    case False
    then show ?thesis by (simp add: next_transitions_loop.simps[of _ _ _ b c] change_minutes_simps[of _ c])
  next
    case True
    have m: "\<bar>c\<bar> \<le> max_time" using True assms(2) less.prems(1) minute_pos by simp
    have ih: "next_transitions_loop fmt tz s b (c + MINUTE_IN_MILLISECONDS) (expect (?f c)) us =
        Inr (us @ map (\<lambda>u. (expect (?f u), iso u))
          (take (2 - length us) (change_minutes ?f (c + MINUTE_IN_MILLISECONDS) b)))" if "length us < 2" for us
      using True less.prems(1) that minute_pos by (intro less.hyps) auto
    show ?thesis
    proof (cases "?f c = ?f (c - MINUTE_IN_MILLISECONDS)")
      case same: True
      then have "expect (?f c) = e" using less.prems(3) by simp
      then show ?thesis
        using True m same ih[OF less.prems(2)]
        by (simp add: next_transitions_loop.simps[of _ _ _ b c] change_minutes_simps[of _ c] machine_evaluates[OF assms(1)])
    next
      case False
      then have "expect (?f c) \<noteq> e" using less.prems(3) by simp
      then show ?thesis
        using True m False less.prems(2) ih[of "ts @ [(expect (?f c), iso c)]"]
        by (cases ts) (simp_all add: next_transitions_loop.simps[of _ _ _ b c] change_minutes_simps[of _ c]
            machine_evaluates[OF assms(1)] toISOString_def)
    qed
  qed
qed

lemma operating_start_changes:
  assumes "wf_machine_policy (ScheduledMachinePolicy tz s)" and "b \<le> max_time"
    and "- max_time \<le> c - MINUTE_IN_MILLISECONDS" and "\<not> operates_at fmt tz s (c - MINUTE_IN_MILLISECONDS)"
  shows "operating_start_loop fmt tz s b c =
    Inr (case change_minutes (operates_at fmt tz s) c b of [] \<Rightarrow> None | w # _ \<Rightarrow> Some w)"
  using assms(3,4)
proof (induction "nat (b + 1 - c)" arbitrary: c rule: less_induct)
  case less
  let ?f = "operates_at fmt tz s"
  show ?case
  proof (cases "c \<le> b")
    case False
    then show ?thesis by (simp add: operating_start_loop.simps[of _ _ _ b c] change_minutes_simps[of _ c])
  next
    case True
    have m: "\<bar>c\<bar> \<le> max_time" "\<bar>c - MINUTE_IN_MILLISECONDS\<bar> \<le> max_time"
      using True assms(2) less.prems(1) minute_pos by simp_all
    note step = operating_start_loop.simps[of _ _ _ b c] change_minutes_simps[of _ c]
      machine_evaluates(1)[OF assms(1) m(1)] machine_evaluates(1)[OF assms(1) m(2)]
    show ?thesis
    proof (cases "?f c")
      case False
      have "operating_start_loop fmt tz s b (c + MINUTE_IN_MILLISECONDS) =
          Inr (case change_minutes ?f (c + MINUTE_IN_MILLISECONDS) b of [] \<Rightarrow> None | w # _ \<Rightarrow> Some w)"
        using True False less.prems(1) minute_pos by (intro less.hyps) auto
      then show ?thesis using True False less.prems(2) by (simp add: step)
    qed (use True less.prems(2) in \<open>simp add: step\<close>)
  qed
qed

end

text \<open>The minutes at which a signal falls, and the occurrence of such a minute.\<close>

definition falling_minutes :: "(int \<Rightarrow> bool) \<Rightarrow> int \<Rightarrow> int \<Rightarrow> int list" where
  "falling_minutes f t b = filter (\<lambda>u. f (u - MINUTE_IN_MILLISECONDS) \<and> \<not> f u) (minutes_from t b)"

definition falling_occurrence :: "(int \<Rightarrow> bool) \<Rightarrow> int \<Rightarrow> MachineShutdownOccurrence result" where
  "falling_occurrence f u =
     (case change_minutes f (u + MINUTE_IN_MILLISECONDS) (u + HORIZON) of
        [] \<Rightarrow> Inl (MachineShutdownOccurrenceIntervalError ''search_exhausted'')
      | w # _ \<Rightarrow> Inr \<lparr>shutdown_scheduledFor = iso u, wakeScheduledFor = iso w\<rparr>)"

lemma falling_minutes_simps:
  "falling_minutes f t b =
     (if t \<le> b
      then if f (t - MINUTE_IN_MILLISECONDS) \<and> \<not> f t then t # falling_minutes f (t + MINUTE_IN_MILLISECONDS) b
           else falling_minutes f (t + MINUTE_IN_MILLISECONDS) b
      else [])"
  by (subst falling_minutes_def, subst minutes_from.simps) (simp add: falling_minutes_def)

context local_formatter
begin

lemma shutdown_occurrence_of_falling:
  assumes "wf_machine_policy (ScheduledMachinePolicy tz s)" and "u + HORIZON \<le> max_time" and "- max_time \<le> u"
    and "\<not> operates_at fmt tz s u"
  shows "shutdown_occurrence_of fmt tz s u = falling_occurrence (operates_at fmt tz s) u"
proof -
  have bound: "\<bar>u\<bar> \<le> max_time" using assms(2,3) minute_pos by (simp add: HORIZON_def)
  have found: "findNextOperatingStart fmt tz s u (u + HORIZON) =
      Inr (case change_minutes (operates_at fmt tz s) (u + MINUTE_IN_MILLISECONDS) (u + HORIZON) of
        [] \<Rightarrow> None | w # _ \<Rightarrow> Some w)"
    unfolding findNextOperatingStart_def by (rule operating_start_changes[OF assms(1,2)]) (use assms in simp_all)
  show ?thesis
  proof (cases "change_minutes (operates_at fmt tz s) (u + MINUTE_IN_MILLISECONDS) (u + HORIZON)")
    case (Cons w ws)
    then have "w \<in> set (change_minutes (operates_at fmt tz s) (u + MINUTE_IN_MILLISECONDS) (u + HORIZON))" by simp
    then have "u + MINUTE_IN_MILLISECONDS \<le> w \<and> w \<le> u + HORIZON"
      using minutes_from_lower[of w "u + MINUTE_IN_MILLISECONDS" "u + HORIZON"] by (simp add: change_minutes_def)
    then have "\<bar>w\<bar> \<le> max_time" "u < w" using assms(2) bound minute_pos by auto
    then show ?thesis
      using found bound
      by (simp add: shutdown_occurrence_of_def Cons falling_occurrence_def toISOString_def createMachineShutdownOccurrence_value)
  qed (simp add: shutdown_occurrence_of_def found falling_occurrence_def)
qed

lemma occurrences_loop_falling:
  assumes "wf_machine_policy (ScheduledMachinePolicy tz s)" and "b + HORIZON \<le> max_time"
    and "- max_time \<le> c - MINUTE_IN_MILLISECONDS"
  shows "occurrences_loop fmt tz s b c =
    mapR (falling_occurrence (operates_at fmt tz s)) (falling_minutes (operates_at fmt tz s) c b)"
  using assms(3)
proof (induction "nat (b + 1 - c)" arbitrary: c rule: less_induct)
  case less
  let ?f = "operates_at fmt tz s"
  show ?case
  proof (cases "c \<le> b")
    case False
    then show ?thesis by (simp add: occurrences_loop.simps[of _ _ _ b c] falling_minutes_simps[of _ c])
  next
    case True
    have "0 < HORIZON" using minute_pos by (simp add: HORIZON_def)
    then have m: "\<bar>c\<bar> \<le> max_time" "\<bar>c - MINUTE_IN_MILLISECONDS\<bar> \<le> max_time"
      using True assms(2) less.prems minute_pos by simp_all
    have ih: "occurrences_loop fmt tz s b (c + MINUTE_IN_MILLISECONDS) =
        mapR (falling_occurrence ?f) (falling_minutes ?f (c + MINUTE_IN_MILLISECONDS) b)"
      using True less.prems minute_pos by (intro less.hyps) auto
    note step = occurrences_loop.simps[of _ _ _ b c] falling_minutes_simps[of _ c]
      machine_evaluates(1)[OF assms(1) m(1)] machine_evaluates(1)[OF assms(1) m(2)]
    show ?thesis
    proof (cases "?f (c - MINUTE_IN_MILLISECONDS) \<and> \<not> ?f c")
      case fall: True
      have "shutdown_occurrence_of fmt tz s c = falling_occurrence ?f c"
        using fall True assms(2) m(1) by (intro shutdown_occurrence_of_falling[OF assms(1)]) auto
      then show ?thesis using True fall by (simp add: step ih)
    next
      case False
      then show ?thesis using True by (cases "?f (c - MINUTE_IN_MILLISECONDS)") (simp_all add: step ih)
    qed
  qed
qed

end

section \<open>Changes of the signal after an instant\<close>

abbreviation floor_minute :: "int \<Rightarrow> int" where
  "floor_minute t \<equiv> t div MINUTE_IN_MILLISECONDS * MINUTE_IN_MILLISECONDS"

lemma floor_minute_bounds: "floor_minute t \<le> t" "t < floor_minute t + MINUTE_IN_MILLISECONDS"
proof -
  have "floor_minute t = t - t mod MINUTE_IN_MILLISECONDS" by (simp add: minus_mod_eq_div_mult)
  moreover have "0 \<le> t mod MINUTE_IN_MILLISECONDS" "t mod MINUTE_IN_MILLISECONDS < MINUTE_IN_MILLISECONDS"
    using minute_pos by simp_all
  ultimately show "floor_minute t \<le> t" "t < floor_minute t + MINUTE_IN_MILLISECONDS" by linarith+
qed

lemma aligned_floor [simp]: "aligned (floor_minute t)"
  by (simp add: aligned_def)

lemma floor_minute_lower:
  assumes "- max_time \<le> t"
  shows "- max_time \<le> floor_minute t"
proof -
  have "- max_time = - 144000000000 * MINUTE_IN_MILLISECONDS"
    by (simp add: max_time_def MINUTE_IN_MILLISECONDS_def)
  then have low: "- 144000000000 * MINUTE_IN_MILLISECONDS \<le> t" and same: "- max_time = - 144000000000 * MINUTE_IN_MILLISECONDS"
    using assms by simp_all
  have "- 144000000000 * MINUTE_IN_MILLISECONDS div MINUTE_IN_MILLISECONDS \<le> t div MINUTE_IN_MILLISECONDS"
    using low minute_pos by (rule zdiv_mono1)
  then have "- 144000000000 \<le> t div MINUTE_IN_MILLISECONDS"
    using minute_pos by (simp only: nonzero_mult_div_cancel_right less_irrefl)
  then show ?thesis
    unfolding same using minute_pos by (intro mult_right_mono) simp_all
qed

lemma first_change_from: "first_change f a b \<Longrightarrow> a \<le> t \<Longrightarrow> t < b \<Longrightarrow> first_change f t b"
  unfolding first_change_def by (metis order.trans)

lemma change_minutes_after:
  assumes "minute_constant f" and "- max_time \<le> t" and "b \<le> max_time" and "t \<le> b"
  shows "(case change_minutes f (floor_minute t + MINUTE_IN_MILLISECONDS) b of
      [] \<Rightarrow> \<nexists>c. first_change f t c \<and> c \<le> b
    | c # cs \<Rightarrow> first_change f t c \<and> t < c \<and> c \<le> b \<and> aligned c \<and>
        cs = change_minutes f (floor_minute c + MINUTE_IN_MILLISECONDS) b)"
proof (cases "change_minutes f (floor_minute t + MINUTE_IN_MILLISECONDS) b")
  case Nil
  have same: "f x = f (floor_minute t)" if "t \<le> x" "x \<le> b" for x
    using change_minutes_Nil[OF assms(1,3) _ _ Nil, of x] floor_minute_lower[OF assms(2)] floor_minute_bounds[of t] that
    by simp
  have "\<not> first_change f t c" if "c \<le> b" for c
  proof
    assume c: "first_change f t c"
    have "f c = f t" using same[of c] same[of t] first_changeD(1)[OF c] that assms(4) by simp
    then show False using first_changeD(2)[OF c] by simp
  qed
  then show ?thesis unfolding Nil list.case by blast
next
  case (Cons c cs)
  have c: "first_change f (floor_minute t) c" "floor_minute t + MINUTE_IN_MILLISECONDS \<le> c" "c \<le> b" "aligned c"
      "cs = change_minutes f (c + MINUTE_IN_MILLISECONDS) b"
    using change_minutes_Cons[OF assms(1,3) _ _ Cons] floor_minute_lower[OF assms(2)] by simp_all
  have "t < c" using c(2) floor_minute_bounds(2)[of t] by linarith
  moreover have "floor_minute c = c" using div_minute_eq[of c c] c(4) minute_pos by simp
  ultimately show ?thesis
    using first_change_from[OF c(1) floor_minute_bounds(1)] c unfolding Cons by simp
qed

section \<open>The plan announces the next two changes\<close>

definition announced_plan :: "(int \<Rightarrow> bool) \<Rightarrow> int \<Rightarrow> int \<Rightarrow> int \<Rightarrow> MachinePowerPlan" where
  "announced_plan f t c1 c2 =
     (if f t then \<lparr>plan_evaluatedAt = iso t, plan_expectation = operating,
                   nextShutdown = Planned (iso c1), nextWake = Planned (iso c2)\<rparr>
      else \<lparr>plan_evaluatedAt = iso t, plan_expectation = offline,
            nextShutdown = Planned (iso c2), nextWake = Planned (iso c1)\<rparr>)"

context minute_formatter
begin

lemma local_formatter_fmt: "local_formatter fmt"
  by unfold_locales

lemma plan_from_changes:
  assumes wf: "wf_machine_policy (ScheduledMachinePolicy tz s)"
    and t: "- max_time \<le> t" "t + MAXIMUM_SEARCH_IN_MILLISECONDS \<le> max_time"
  shows "evaluateMachinePowerPlan fmt (ScheduledMachinePolicy tz s) (iso t) =
    (case change_minutes (operates_at fmt tz s) (floor_minute t + MINUTE_IN_MILLISECONDS)
            (t + MAXIMUM_SEARCH_IN_MILLISECONDS) of
       c1 # c2 # _ \<Rightarrow> Inr (announced_plan (operates_at fmt tz s) t c1 c2)
     | _ \<Rightarrow> Inl (MachinePowerPlanEvaluationError ''transition_search_exhausted''))"
proof -
  define f b where "f = operates_at fmt tz s" and "b = t + MAXIMUM_SEARCH_IN_MILLISECONDS"
  define cs where "cs = change_minutes f (floor_minute t + MINUTE_IN_MILLISECONDS) b"
  have tb: "t < b" "b \<le> max_time" using t minute_pos by (simp_all add: b_def MAXIMUM_SEARCH_IN_MILLISECONDS_def)
  then have bound: "\<bar>t\<bar> \<le> max_time" using t by simp
  have mc: "minute_constant f"
    using operates_minute_constant[OF minute_formatter_axioms wf] by (simp add: f_def)
  have "findNextTransitions fmt tz s t (expect (f t)) = Inr (map (\<lambda>u. (expect (f u), iso u)) (take 2 cs))"
  proof -
    have "f (floor_minute t) = f t" using mc bound by (simp add: minute_constant_def)
    then show ?thesis
      using next_transitions_changes[OF wf, of b "floor_minute t + MINUTE_IN_MILLISECONDS" "[]" "expect (f t)"] tb
        floor_minute_lower[OF t(1)]
      by (simp add: findNextTransitions_def f_def b_def cs_def)
  qed
  then have eval: "evaluateMachinePowerPlan fmt (ScheduledMachinePolicy tz s) (iso t) =
      (case map (\<lambda>u. (expect (f u), iso u)) (take 2 cs) of
         first # second # _ \<Rightarrow>
           if f t then createMachinePowerPlan (plan_value \<lparr>plan_evaluatedAt = iso t, plan_expectation = operating,
                 nextShutdown = Planned (snd first), nextWake = Planned (snd second)\<rparr>)
           else createMachinePowerPlan (plan_value \<lparr>plan_evaluatedAt = iso t, plan_expectation = offline,
                 nextShutdown = Planned (snd second), nextWake = Planned (snd first)\<rparr>)
       | _ \<Rightarrow> Inl (MachinePowerPlanEvaluationError ''transition_search_exhausted''))"
    using machine_evaluates(2)[OF wf bound] bound
    by (simp add: evaluateMachinePowerPlan_def evaluateScheduledPowerPlan_def f_def split: list.split)
  have sorted: "sorted_wrt (<) cs" by (simp add: cs_def sorted_change_minutes)
  have range: "t < u \<and> u \<le> b" if "u \<in> set cs" for u
    using that minutes_from_lower[of u "floor_minute t + MINUTE_IN_MILLISECONDS" b] floor_minute_bounds(2)[of t]
    by (simp add: cs_def change_minutes_def)
  have "(case map (\<lambda>u. (expect (f u), iso u)) (take 2 cs) of
         first # second # _ \<Rightarrow>
           if f t then createMachinePowerPlan (plan_value \<lparr>plan_evaluatedAt = iso t, plan_expectation = operating,
                 nextShutdown = Planned (snd first), nextWake = Planned (snd second)\<rparr>)
           else createMachinePowerPlan (plan_value \<lparr>plan_evaluatedAt = iso t, plan_expectation = offline,
                 nextShutdown = Planned (snd second), nextWake = Planned (snd first)\<rparr>)
       | _ \<Rightarrow> Inl (MachinePowerPlanEvaluationError ''transition_search_exhausted'')) =
    (case cs of c1 # c2 # _ \<Rightarrow> Inr (announced_plan f t c1 c2)
     | _ \<Rightarrow> Inl (MachinePowerPlanEvaluationError ''transition_search_exhausted''))"
  proof (cases cs rule: remdups_adj.cases)
    case (3 c1 c2 rest)
    then have "t < c1" "c1 < c2" "\<bar>c1\<bar> \<le> max_time" "\<bar>c2\<bar> \<le> max_time"
      using sorted range[of c1] range[of c2] tb t by auto
    then show ?thesis
      using bound by (simp add: 3 announced_plan_def createMachinePowerPlan_planned)
  qed simp_all
  then show ?thesis using eval by (simp only: cs_def f_def b_def)
qed

end

end
