(* ===== verification/Machine_Shutdown_Schedule.thy ===== *)
theory Machine_Shutdown_Schedule
  imports Machine_Power_Plan
begin

text \<open>
  What the sampling loops of the power plan and of the shutdown occurrences compute, stated on
  instants: the plan announces the next two changes of the operating state, the occurrences of an
  interval are the periods of rest that begin in it, and the two agree.
\<close>

section \<open>Periods of rest\<close>

text \<open>\<open>off_period f s w\<close>: the machine operates until just before \<open>s\<close>, rests from \<open>s\<close> on and operates again at \<open>w\<close>.\<close>

definition off_period :: "(int \<Rightarrow> bool) \<Rightarrow> int \<Rightarrow> int \<Rightarrow> bool" where
  "off_period f s w \<longleftrightarrow> f (s - 1) \<and> \<not> f s \<and> first_change f s w"

lemma minutes_from_mem:
  "aligned t \<Longrightarrow> u \<in> set (minutes_from t b) \<longleftrightarrow> aligned u \<and> t \<le> u \<and> u \<le> b"
proof (induction t b rule: minutes_from.induct)
  case (1 t b)
  have next_minute: "t + MINUTE_IN_MILLISECONDS \<le> u" if "aligned u" "t \<le> u" "u \<noteq> t" for u
  proof (rule ccontr)
    assume "\<not> ?thesis"
    then have "floor_minute u = t" using div_minute_eq[of t u] that 1(2) by simp
    moreover have "floor_minute u = u" using div_minute_eq[of u u] that(1) minute_pos by simp
    ultimately show False using that(3) by simp
  qed
  show ?case
  proof (cases "t \<le> b")
    case True
    then have "u \<in> set (minutes_from (t + MINUTE_IN_MILLISECONDS) b) \<longleftrightarrow>
        aligned u \<and> t + MINUTE_IN_MILLISECONDS \<le> u \<and> u \<le> b"
      using 1 by simp
    then show ?thesis
      using True 1(2) next_minute[of u] minute_pos by (subst minutes_from.simps) auto
  qed (subst minutes_from.simps, auto)
qed

lemma change_aligned:
  assumes "minute_constant f" and "\<bar>x\<bar> \<le> max_time" and "\<bar>x - 1\<bar> \<le> max_time" and "f x = (\<not> f (x - 1))"
  shows "aligned x"
proof (rule ccontr)
  assume "\<not> aligned x"
  then have "floor_minute x \<noteq> x" using aligned_floor[of x] by metis
  then have "floor_minute x \<le> x - 1" using floor_minute_bounds(1)[of x] by simp
  then have "f (x - 1) = f (floor_minute x)"
    using floor_minute_bounds(2)[of x] assms(1,3) by (intro minute_constantD) auto
  moreover have "f x = f (floor_minute x)"
    using floor_minute_bounds[of x] assms(1,2) by (intro minute_constantD) auto
  ultimately show False using assms(4) by simp
qed

lemma before_minute:
  assumes "minute_constant f" and "aligned x" and "\<bar>x - 1\<bar> \<le> max_time"
  shows "f (x - MINUTE_IN_MILLISECONDS) = f (x - 1)"
proof -
  have "aligned (x - MINUTE_IN_MILLISECONDS)" using aligned_plus[of "x - MINUTE_IN_MILLISECONDS"] assms(2) by simp
  then show ?thesis using assms(1,3) minute_pos by (intro minute_constantD[symmetric]) auto
qed

lemma falling_minutes_mem:
  assumes "minute_constant f" and "- max_time \<le> a" and "b \<le> max_time"
  shows "s \<in> set (falling_minutes f (floor_minute a + MINUTE_IN_MILLISECONDS) b) \<longleftrightarrow>
    a < s \<and> s \<le> b \<and> f (s - 1) \<and> \<not> f s"
proof (cases "a < s \<and> s \<le> b")
  case True
  then have bounds: "\<bar>s\<bar> \<le> max_time" "\<bar>s - 1\<bar> \<le> max_time" using assms by auto
  have start: "aligned s \<Longrightarrow> floor_minute a + MINUTE_IN_MILLISECONDS \<le> s"
  proof (rule ccontr)
    assume s: "aligned s" "\<not> floor_minute a + MINUTE_IN_MILLISECONDS \<le> s"
    then have "floor_minute s = floor_minute a"
      using True floor_minute_bounds(1)[of a] by (intro div_minute_eq) auto
    moreover have "floor_minute s = s" using div_minute_eq[of s s] s(1) minute_pos by simp
    ultimately show False using True floor_minute_bounds(1)[of a] by simp
  qed
  show ?thesis
    using True start change_aligned[OF assms(1) bounds] before_minute[OF assms(1) _ bounds(2)]
    by (auto simp: falling_minutes_def minutes_from_mem)
next
  case False
  then show ?thesis
    using floor_minute_bounds(2)[of a] by (auto simp: falling_minutes_def minutes_from_mem)
qed

lemma falling_occurrence_first:
  assumes "minute_constant f" and "aligned u" and "- max_time \<le> u" and "u + HORIZON \<le> max_time"
  shows "(\<exists>w. falling_occurrence f u = Inr \<lparr>shutdown_scheduledFor = iso u, wakeScheduledFor = iso w\<rparr> \<and>
      first_change f u w \<and> w \<le> u + HORIZON) \<or>
    falling_occurrence f u = Inl (MachineShutdownOccurrenceIntervalError ''search_exhausted'') \<and>
      (\<nexists>w. first_change f u w \<and> w \<le> u + HORIZON)"
proof -
  have "floor_minute u = u" using div_minute_eq[of u u] assms(2) minute_pos by simp
  then show ?thesis
    using change_minutes_after[OF assms(1,3,4)] minute_pos
    by (auto simp: falling_occurrence_def HORIZON_def split: list.splits)
qed

section \<open>Intervals\<close>

lemma mapR_Inl: "mapR f xs = Inl e \<Longrightarrow> \<exists>x \<in> set xs. f x = Inl e"
  by (induction xs) (auto simp: result_simps)

lemma mapR_append:
  "mapR f (xs @ ys) = bindR (mapR f xs) (\<lambda>us. bindR (mapR f ys) (\<lambda>vs. Inr (us @ vs)))"
proof (induction xs)
  case Nil
  show ?case by (cases "mapR f ys") simp_all
next
  case (Cons x xs)
  show ?case
    by (cases "f x"; cases "mapR f xs"; cases "mapR f ys") (simp_all add: Cons.IH)
qed

lemma sorted_falling_minutes: "sorted_wrt (<) (falling_minutes f t b)"
  by (simp add: falling_minutes_def sorted_wrt_filter sorted_minutes_from)

lemma strictly_sorted_unique:
  fixes xs :: "int list"
  assumes "sorted_wrt (<) xs" and "sorted_wrt (<) ys" and "set xs = set ys"
  shows "xs = ys"
  using assms by (meson strict_sorted_equal)

context minute_formatter
begin

lemma interval_falling:
  assumes "wf_machine_policy (ScheduledMachinePolicy tz s)" and "- max_time \<le> a" and "a \<le> b"
    and "b + HORIZON \<le> max_time" and "b - a \<le> HORIZON"
  shows "createMachineShutdownOccurrencesForInterval fmt (ScheduledMachinePolicy tz s) (iso a) (iso b) =
    mapR (falling_occurrence (operates_at fmt tz s))
      (falling_minutes (operates_at fmt tz s) (floor_minute a + MINUTE_IN_MILLISECONDS) b)"
proof -
  have "0 < HORIZON" using minute_pos by (simp add: HORIZON_def)
  then have bounds: "\<bar>a\<bar> \<le> max_time" "\<bar>b\<bar> \<le> max_time" using assms by auto
  show ?thesis
  proof (cases "a = b")
    case True
    then have "falling_minutes (operates_at fmt tz s) (floor_minute a + MINUTE_IN_MILLISECONDS) b = []"
      using floor_minute_bounds(2)[of a] by (subst falling_minutes_simps) simp
    then show ?thesis
      using True bounds \<open>0 < HORIZON\<close> by (simp add: createMachineShutdownOccurrencesForInterval_def Let_def)
  next
    case False
    then show ?thesis
      using assms bounds floor_minute_lower[OF assms(2)]
        occurrences_loop_falling[OF assms(1,4), of "floor_minute a + MINUTE_IN_MILLISECONDS"]
      by (simp add: createMachineShutdownOccurrencesForInterval_def Let_def)
  qed
qed

lemma occurrences_exact:
  assumes wf: "wf_machine_policy (ScheduledMachinePolicy tz s)" and ab: "- max_time \<le> a" "a \<le> b"
    and b: "b + HORIZON \<le> max_time" "b - a \<le> HORIZON"
  defines "f \<equiv> operates_at fmt tz s"
  shows "case createMachineShutdownOccurrencesForInterval fmt (ScheduledMachinePolicy tz s) (iso a) (iso b) of
      Inr os \<Rightarrow>
        set os = {\<lparr>shutdown_scheduledFor = iso u, wakeScheduledFor = iso w\<rparr> | u w. a < u \<and> u \<le> b \<and> off_period f u w} \<and>
        sorted_wrt (\<lambda>p q. time_of (shutdown_scheduledFor p) < time_of (shutdown_scheduledFor q)) os
    | Inl e \<Rightarrow> e = MachineShutdownOccurrenceIntervalError ''search_exhausted'' \<and>
        (\<exists>u. a < u \<and> u \<le> b \<and> f (u - 1) \<and> \<not> f u \<and> (\<nexists>w. first_change f u w \<and> w \<le> u + HORIZON))"
proof -
  define us where "us = falling_minutes f (floor_minute a + MINUTE_IN_MILLISECONDS) b"
  have mc: "minute_constant f" unfolding f_def by (rule operates_minute_constant[OF minute_formatter_axioms wf])
  have H: "0 < HORIZON" using minute_pos by (simp add: HORIZON_def)
  have mem: "u \<in> set us \<longleftrightarrow> a < u \<and> u \<le> b \<and> f (u - 1) \<and> \<not> f u" for u
    unfolding us_def by (rule falling_minutes_mem[OF mc ab(1)]) (use b H in simp)
  have result: "createMachineShutdownOccurrencesForInterval fmt (ScheduledMachinePolicy tz s) (iso a) (iso b) =
      mapR (falling_occurrence f) us"
    unfolding f_def us_def by (rule interval_falling[OF wf ab b])
  have bound: "\<bar>u\<bar> \<le> max_time" "\<bar>u - 1\<bar> \<le> max_time" "- max_time \<le> u" "u + HORIZON \<le> max_time" if "u \<in> set us" for u
    using that mem[of u] ab b H by auto
  have al: "aligned u" if "u \<in> set us" for u
    using change_aligned[OF mc bound(1,2)[OF that]] mem[of u] that by simp
  note first = falling_occurrence_first[OF mc al bound(3,4)]
  show ?thesis
  proof (cases "mapR (falling_occurrence f) us")
    case (Inl e)
    obtain u where u: "u \<in> set us" "falling_occurrence f u = Inl e" using mapR_Inl[OF Inl] by blast
    then have "e = MachineShutdownOccurrenceIntervalError ''search_exhausted''"
        "\<nexists>w. first_change f u w \<and> w \<le> u + HORIZON"
      using first[OF u(1) u(1) u(1)] by auto
    then show ?thesis unfolding result Inl sum.case using u(1) mem[of u] by blast
  next
    case (Inr os)
    then have all2: "list_all2 (\<lambda>u o'. falling_occurrence f u = Inr o') us os" by (simp add: mapR_eq_Inr)
    have each: "\<exists>w. os ! i = \<lparr>shutdown_scheduledFor = iso (us ! i), wakeScheduledFor = iso w\<rparr> \<and> first_change f (us ! i) w"
      if "i < length us" for i
    proof -
      have "falling_occurrence f (us ! i) = Inr (os ! i)" using list_all2_nthD[OF all2 that] .
      then show ?thesis using first[of "us ! i"] nth_mem[OF that] by auto
    qed
    have len: "length os = length us" using all2 by (simp add: list_all2_lengthD)
    have "set os = {\<lparr>shutdown_scheduledFor = iso u, wakeScheduledFor = iso w\<rparr> | u w. a < u \<and> u \<le> b \<and> off_period f u w}"
      (is "_ = ?periods")
    proof (intro equalityI subsetI)
      fix p
      assume "p \<in> set os"
      then obtain i where i: "i < length us" "os ! i = p" unfolding in_set_conv_nth len by blast
      then obtain w where w: "p = \<lparr>shutdown_scheduledFor = iso (us ! i), wakeScheduledFor = iso w\<rparr>"
          "first_change f (us ! i) w" using each by blast
      have "a < us ! i \<and> us ! i \<le> b \<and> off_period f (us ! i) w"
        using mem[of "us ! i"] nth_mem[OF i(1)] w(2) by (simp add: off_period_def)
      then show "p \<in> ?periods" using w(1) by blast
    next
      fix p
      assume "p \<in> ?periods"
      then obtain u w where p: "p = \<lparr>shutdown_scheduledFor = iso u, wakeScheduledFor = iso w\<rparr>"
          "a < u" "u \<le> b" "off_period f u w" by blast
      then have "u \<in> set us" using mem[of u] by (simp add: off_period_def)
      then obtain i where i: "i < length us" "us ! i = u" by (auto simp: in_set_conv_nth)
      then obtain w' where w': "os ! i = \<lparr>shutdown_scheduledFor = iso u, wakeScheduledFor = iso w'\<rparr>"
          "first_change f u w'" using each by blast
      have "w' = w" using first_change_unique[OF w'(2)] p(4) by (simp add: off_period_def)
      then show "p \<in> set os" using w'(1) i(1) p(1) len by (metis nth_mem)
    qed
    moreover have "sorted_wrt (\<lambda>p q. time_of (shutdown_scheduledFor p) < time_of (shutdown_scheduledFor q)) os"
    proof (unfold sorted_wrt_iff_nth_less, intro allI impI)
      fix i j
      assume ij: "i < j" "j < length os"
      have time: "time_of (shutdown_scheduledFor (os ! k)) = us ! k" if "k < length us" for k
        using each[OF that] bound(1)[OF nth_mem[OF that]] by auto
      have "us ! i < us ! j"
        using sorted_falling_minutes[of f] ij len unfolding us_def by (simp add: sorted_wrt_iff_nth_less)
      then show "time_of (shutdown_scheduledFor (os ! i)) < time_of (shutdown_scheduledFor (os ! j))"
        using time ij len by simp
    qed
    ultimately show ?thesis unfolding result Inr sum.case by (rule conjI)
  qed
qed

lemma interval_split:
  assumes wf: "wf_machine_policy (ScheduledMachinePolicy tz s)" and "- max_time \<le> a" "a \<le> b" "b \<le> c"
    and "c + HORIZON \<le> max_time" "c - a \<le> HORIZON"
  shows "createMachineShutdownOccurrencesForInterval fmt (ScheduledMachinePolicy tz s) (iso a) (iso c) =
    bindR (createMachineShutdownOccurrencesForInterval fmt (ScheduledMachinePolicy tz s) (iso a) (iso b)) (\<lambda>xs.
    bindR (createMachineShutdownOccurrencesForInterval fmt (ScheduledMachinePolicy tz s) (iso b) (iso c)) (\<lambda>ys.
    Inr (xs @ ys)))"
proof -
  define f where "f = operates_at fmt tz s"
  define us where "us x y = falling_minutes f (floor_minute x + MINUTE_IN_MILLISECONDS) y" for x y
  have mc: "minute_constant f" unfolding f_def by (rule operates_minute_constant[OF minute_formatter_axioms wf])
  have H: "0 < HORIZON" using minute_pos by (simp add: HORIZON_def)
  have mem: "u \<in> set (us x y) \<longleftrightarrow> x < u \<and> u \<le> y \<and> f (u - 1) \<and> \<not> f u"
    if "- max_time \<le> x" "y \<le> max_time" for x y u
    unfolding us_def by (rule falling_minutes_mem[OF mc that])
  have sorted: "sorted_wrt (<) (us x y)" for x y unfolding us_def by (rule sorted_falling_minutes)
  have "us a c = us a b @ us b c"
  proof (rule strictly_sorted_unique[OF sorted])
    have "- max_time \<le> b" "b \<le> max_time" "c \<le> max_time" using assms(2-5) H by linarith+
    note m = mem[OF assms(2) this(3)] mem[OF assms(2) this(2)] mem[OF this(1,3)]
    have "x < y" if "x \<in> set (us a b)" "y \<in> set (us b c)" for x y
      using that unfolding m by linarith
    then show "sorted_wrt (<) (us a b @ us b c)" using sorted by (simp add: sorted_wrt_append)
    show "set (us a c) = set (us a b @ us b c)"
      unfolding set_eq_iff set_append Un_iff m using assms(3,4) by (meson linorder_not_le order_trans order_le_less_trans)
  qed
  then show ?thesis
    using assms interval_falling[OF wf, of a c] interval_falling[OF wf, of a b] interval_falling[OF wf, of b c]
    by (simp add: mapR_append f_def us_def)
qed

lemma plan_occurrence:
  assumes wf: "wf_machine_policy (ScheduledMachinePolicy tz s)"
    and t: "- max_time \<le> t" "t + MAXIMUM_SEARCH_IN_MILLISECONDS \<le> max_time"
    and plan: "PlanNextMachineShutdownOccurrence_execute fmt (ScheduledMachinePolicy tz s) (Some t) =
      Inr (OccurrencePlanned o')"
  defines "f \<equiv> operates_at fmt tz s"
  shows "\<exists>c1 c2. o' = \<lparr>shutdown_scheduledFor = iso c1, wakeScheduledFor = iso c2\<rparr> \<and> f t \<and>
    first_change f t c1 \<and> first_change f c1 c2 \<and> c2 \<le> t + MAXIMUM_SEARCH_IN_MILLISECONDS"
proof -
  define b where "b = t + MAXIMUM_SEARCH_IN_MILLISECONDS"
  define cs where "cs = change_minutes f (floor_minute t + MINUTE_IN_MILLISECONDS) b"
  have tb: "t < b" "b \<le> max_time" using t minute_pos by (simp_all add: b_def MAXIMUM_SEARCH_IN_MILLISECONDS_def)
  have mc: "minute_constant f" unfolding f_def by (rule operates_minute_constant[OF minute_formatter_axioms wf])
  have get: "GetMachinePowerPlan_execute fmt (ScheduledMachinePolicy tz s) (Some t) =
      (case cs of c1 # c2 # _ \<Rightarrow> Inr (announced_plan f t c1 c2)
       | _ \<Rightarrow> Inl (MachinePowerPlanEvaluationError ''transition_search_exhausted''))"
    unfolding cs_def f_def b_def plan_from_changes[OF wf t, symmetric]
    by (simp add: GetMachinePowerPlan_execute_def toISOString_def)
  show ?thesis
  proof (cases cs rule: remdups_adj.cases)
    case (3 c1 c2 rest)
    have c1: "first_change f t c1" "t < c1" "c1 \<le> b" "c2 # rest = change_minutes f (floor_minute c1 + MINUTE_IN_MILLISECONDS) b"
      using change_minutes_after[OF mc t(1) tb(2)] tb(1) by (simp_all add: cs_def[symmetric] 3)
    have c2: "first_change f c1 c2" "c1 < c2" "c2 \<le> b"
      using change_minutes_after[OF mc _ tb(2), of c1] c1(2,3) t(1) unfolding c1(4)[symmetric] by simp_all
    have bounds: "\<bar>t\<bar> \<le> max_time" "\<bar>c1\<bar> \<le> max_time" "\<bar>c2\<bar> \<le> max_time" using c1 c2 t tb by auto
    note created = createMachinePowerPlan_planned[OF bounds c1(2) c2(2)]
    have "f t \<and> o' = \<lparr>shutdown_scheduledFor = iso c1, wakeScheduledFor = iso c2\<rparr>"
      using plan bounds c2(2)
      by (cases "f t") (simp_all add: PlanNextMachineShutdownOccurrence_execute_def get 3 announced_plan_def
          planMachineShutdownOccurrence_def created createMachineShutdownOccurrencePlan_def literal_simps has_own_def
          createMachineShutdownOccurrence_value Let_def)
    then show ?thesis using c1(1) c2(1,3) by (auto simp: b_def)
  qed (use plan in \<open>simp_all add: PlanNextMachineShutdownOccurrence_execute_def get\<close>)
qed

lemma planned_is_executed:
  assumes wf: "wf_machine_policy (ScheduledMachinePolicy tz s)"
    and t: "- max_time \<le> t" "t + 2 * HORIZON \<le> max_time"
    and plan: "PlanNextMachineShutdownOccurrence_execute fmt (ScheduledMachinePolicy tz s) (Some t) =
      Inr (OccurrencePlanned o')"
  shows "createMachineShutdownOccurrencesForInterval fmt (ScheduledMachinePolicy tz s) (iso t)
    (shutdown_scheduledFor o') = Inr [o']"
proof -
  define f where "f = operates_at fmt tz s"
  have H: "0 < HORIZON" "MAXIMUM_SEARCH_IN_MILLISECONDS = HORIZON"
    using minute_pos by (simp_all add: HORIZON_def MAXIMUM_SEARCH_IN_MILLISECONDS_def)
  have mc: "minute_constant f" unfolding f_def by (rule operates_minute_constant[OF minute_formatter_axioms wf])
  obtain c1 c2 where o': "o' = \<lparr>shutdown_scheduledFor = iso c1, wakeScheduledFor = iso c2\<rparr>" and ft: "f t"
    and c: "first_change f t c1" "first_change f c1 c2" "c2 \<le> t + HORIZON"
    using plan_occurrence[OF wf t(1) _ plan] t(2) H by (auto simp: f_def)
  have order: "t < c1" "c1 < c2" using first_changeD(1) c by blast+
  have bounds: "\<bar>c1\<bar> \<le> max_time" "\<bar>c1 - 1\<bar> \<le> max_time" "c1 + HORIZON \<le> max_time" using order c(3) t H by auto
  let ?us = "falling_minutes f (floor_minute t + MINUTE_IN_MILLISECONDS) c1"
  have on: "f u" if "t \<le> u" "u < c1" for u using first_changeD(3)[OF c(1) that] ft by simp
  have off: "\<not> f c1" using first_changeD(2)[OF c(1)] ft by simp
  have "u \<in> set ?us \<longleftrightarrow> u = c1" for u
    using falling_minutes_mem[OF mc t(1), of c1 u] bounds(1) on[of "c1 - 1"] on[of u] off order(1)
    by (cases "u = c1") auto
  then have "set ?us = {c1}" by blast
  then have us: "?us = [c1]" by (intro strictly_sorted_unique) (simp_all add: sorted_falling_minutes)
  have "aligned c1" using change_aligned[OF mc bounds(1,2)] on[of "c1 - 1"] off order(1) by simp
  moreover have "- max_time \<le> c1" "c2 \<le> c1 + HORIZON" using bounds(1) c(3) order(1) by auto
  ultimately obtain w where "falling_occurrence f c1 = Inr \<lparr>shutdown_scheduledFor = iso c1, wakeScheduledFor = iso w\<rparr>"
      "first_change f c1 w"
    using falling_occurrence_first[OF mc _ _ bounds(3)] c(2) by blast
  then have "falling_occurrence f c1 = Inr o'" using first_change_unique[OF c(2)] by (simp add: o')
  then show ?thesis
    using interval_falling[OF wf t(1), of c1] us bounds order(1,2) c(3) by (simp add: o' f_def)
qed

end

end
