(* ===== verification/Machine_Plan_Found.thy ===== *)
theory Machine_Plan_Found
  imports Machine_Shutdown_Schedule
begin

text \<open>
  The search of eight days is long enough: in a zone with a fixed offset, an accepted schedule
  operates at least one minute a week and rests in the last minute of every day, so both
  transitions of a plan and the wake of every occurrence are found.
\<close>

section \<open>Local times as strings\<close>

lemma pad_two: "pad 2 n = [dig (n div 10 mod 10), dig (n mod 10)]"
  by (simp add: numeral_2_eq_2)

lemma dig_of_char: "dig (of_char c - 48) = c"
  by (simp add: dig_def)

definition digit_of :: "char \<Rightarrow> int" where
  "digit_of c = of_char c - 48"

lemma digit_of_values:
  "digit_of (CHR ''0'') = 0" "digit_of (CHR ''1'') = 1" "digit_of (CHR ''2'') = 2" "digit_of (CHR ''3'') = 3"
  "digit_of (CHR ''5'') = 5" "digit_of (CHR ''9'') = 9"
  by (simp_all add: digit_of_def)

lemma dig_digit_of: "dig (digit_of c) = c"
  by (simp add: digit_of_def dig_of_char)

lemma digit_of_mono: "c \<le> d \<Longrightarrow> digit_of c \<le> digit_of d"
proof -
  assume "c \<le> d"
  then have "(of_char c :: nat) \<le> of_char d" by (simp add: less_eq_char_def)
  then have "int (of_char c) \<le> int (of_char d)" by (rule of_nat_mono)
  then show ?thesis unfolding of_nat_of_char by (simp only: digit_of_def diff_right_mono)
qed

lemma pad_two_digits: "0 \<le> a \<Longrightarrow> a \<le> 9 \<Longrightarrow> 0 \<le> b \<Longrightarrow> b \<le> 9 \<Longrightarrow> pad 2 (10 * a + b) = [dig a, dig b]"
  by (simp add: pad_two)

lemma local_time_parts:
  assumes "LOCAL_TIME_PATTERN s"
  obtains h m where "0 \<le> h" "h < 24" "0 \<le> m" "m < 60" "s = pad 2 h @ '':'' @ pad 2 m"
proof -
  obtain h1 h2 m1 m2 where s: "s = [h1, h2, CHR '':'', m1, m2]"
    and h: "(h1 = CHR ''0'' \<or> h1 = CHR ''1'') \<and> CHR ''0'' \<le> h2 \<and> h2 \<le> CHR ''9'' \<or>
      h1 = CHR ''2'' \<and> CHR ''0'' \<le> h2 \<and> h2 \<le> CHR ''3''"
    and m: "CHR ''0'' \<le> m1" "m1 \<le> CHR ''5''" "CHR ''0'' \<le> m2" "m2 \<le> CHR ''9''"
    using assms by (cases s rule: LOCAL_TIME_PATTERN.cases) auto
  let ?a = "digit_of h1" and ?b = "digit_of h2" and ?c = "digit_of m1" and ?d = "digit_of m2"
  have bc: "0 \<le> ?c" "?c \<le> 5" "0 \<le> ?d" "?d \<le> 9"
    using m digit_of_mono[of "CHR ''0''"] digit_of_mono[of _ "CHR ''5''"] digit_of_mono[of _ "CHR ''9''"]
    by (simp_all add: digit_of_values)
  have ab: "0 \<le> ?b \<and> ?b \<le> 9 \<and> (?a = 0 \<or> ?a = 1 \<or> ?a = 2 \<and> ?b \<le> 3)"
    using h digit_of_mono[of "CHR ''0''" h2] digit_of_mono[of h2 "CHR ''3''"] digit_of_mono[of h2 "CHR ''9''"]
    unfolding digit_of_values by (elim disjE conjE) (simp_all add: digit_of_values)
  show thesis
  proof (rule that[of "10 * ?a + ?b" "10 * ?c + ?d"])
    show "0 \<le> 10 * ?a + ?b" "10 * ?a + ?b < 24" using ab by auto
    show "0 \<le> 10 * ?c + ?d" "10 * ?c + ?d < 60" using bc by linarith+
    have "0 \<le> ?a" "?a \<le> 9" using ab by auto
    then show "s = pad 2 (10 * ?a + ?b) @ '':'' @ pad 2 (10 * ?c + ?d)"
      using ab bc by (simp add: s pad_two_digits dig_digit_of)
  qed
qed

lemma last_minute: "LOCAL_TIME_PATTERN e \<Longrightarrow> \<not> ''23:59'' < e"
  by (cases e rule: LOCAL_TIME_PATTERN.cases) (auto simp: Cons_less_Cons not_less order.strict_iff_order)

section \<open>Every day ends at rest, every week operates\<close>

text \<open>The minute \<open>n\<close> of the local calendar: \<open>n = t div 60000 + offset\<close>.\<close>

definition inside_minute :: "int \<Rightarrow> MachineOperatingWindow \<Rightarrow> bool" where
  "inside_minute n w \<longleftrightarrow>
     inside_window (the (weekdayByEnglishName (english_weekday ((n div 1440 + 3) mod 7))))
       (pad 2 (n mod 1440 div 60) @ '':'' @ pad 2 (n mod 1440 mod 60)) (as_window w)"

lemma operates_fixed_offset:
  assumes "\<bar>t\<bar> \<le> max_time"
  shows "operates_at (fixed_offset_formatter offset) tz s t \<longleftrightarrow>
    list_ex (inside_minute (t div MINUTE_IN_MILLISECONDS + offset)) (op_windows s)"
proof -
  define n where "n = t div MINUTE_IN_MILLISECONDS + offset"
  obtain d where d: "weekdayByEnglishName (english_weekday ((n div 1440 + 3) mod 7)) = Some d"
    using english_weekday_known by blast
  have "fixed_offset_formatter offset tz t =
      [(''weekday'', english_weekday ((n div 1440 + 3) mod 7)), (''literal'', '' at ''),
       (''hour'', pad 2 (n mod 1440 div 60)), (''literal'', '':''), (''minute'', pad 2 (n mod 1440 mod 60))]"
    by (simp only: fixed_offset_by_minute n_def Let_def)
  then show ?thesis
    by (simp add: operates_at_def expectation_at_def evaluateServiceAvailabilityPolicy_def evaluateScheduledPolicy_def
        inside_minute_def getPart_def d list_ex_iff n_def[symmetric] del: english_weekday.simps)
qed

lemma fixed_offset_minute_formatter: "minute_formatter (fixed_offset_formatter offset)"
proof unfold_locales
  fix tz :: string and t :: int
  show "local_parts_ok (fixed_offset_formatter offset tz t)" by (rule fixed_offset_parts_ok)
  show "fixed_offset_formatter offset tz (t div MINUTE_IN_MILLISECONDS * MINUTE_IN_MILLISECONDS) =
      fixed_offset_formatter offset tz t"
    using minute_pos by (simp add: fixed_offset_by_minute)
qed

lemma rest_at_last_minute:
  assumes "wf_window (as_window w)" and "n mod 1440 = 1439"
  shows "\<not> inside_minute n w"
proof -
  have "pad 2 (1439 div 60) @ '':'' @ pad 2 (1439 mod 60) = ''23:59''" by code_simp
  then show ?thesis
    using assms(1) last_minute unfolding inside_minute_def inside_window_def wf_window_def assms(2) by simp
qed

definition weekday_index :: "ServiceScheduleWeekday \<Rightarrow> int" where
  "weekday_index d = getWeekdayOrder d"

lemma weekday_index: "weekdayByEnglishName (english_weekday (weekday_index d)) = Some d"
  "0 \<le> weekday_index d" "weekday_index d < 7"
  by (cases d; simp add: weekday_index_def weekday_names)+

lemma operating_minute:
  assumes "wf_window (as_window w)"
  obtains r where "0 \<le> r" and "r < 10080" and "\<And>n. n mod 10080 = r \<Longrightarrow> inside_minute n w"
proof -
  obtain h m where hm: "0 \<le> h" "h < 24" "0 \<le> m" "m < 60" "op_start w = pad 2 h @ '':'' @ pad 2 m"
    using assms local_time_parts[of "op_start w"] by (auto simp: wf_window_def)
  define k j where "k = (weekday_index (dayOfWeek w) - 3) mod 7" and "j = h * 60 + m"
  have j: "0 \<le> j" "j < 1440" "j div 60 = h" "j mod 60 = m" using hm(1-4) by (auto simp: j_def)
  have k: "0 \<le> k" "k < 7" by (simp_all add: k_def)
  have "(k + 3) mod 7 = weekday_index (dayOfWeek w) mod 7" by (simp add: k_def mod_add_left_eq)
  then have k3: "(k + 3) mod 7 = weekday_index (dayOfWeek w)"
    using weekday_index(2,3)[of "dayOfWeek w"] by simp
  show thesis
  proof (rule that[of "k * 1440 + j"])
    show "0 \<le> k * 1440 + j" "k * 1440 + j < 10080" using j(1,2) k by linarith+
    fix n
    assume n: "n mod 10080 = k * 1440 + j"
    define q where "q = n div 10080"
    have "n = 10080 * q + (k * 1440 + j)" using mult_div_mod_eq[of 10080 n] n by (simp add: q_def)
    then have n': "n = j + (7 * q + k) * 1440" by simp
    have "n mod 1440 = j" unfolding n' mod_mult_self1 using j(1,2) by simp
    moreover have "n div 1440 = 7 * q + k"
    proof -
      have "n div 1440 = (7 * q + k) + j div 1440" unfolding n' by (rule div_mult_self1) simp
      then show ?thesis using j(1,2) by simp
    qed
    moreover have "(7 * q + k + 3) mod 7 = weekday_index (dayOfWeek w)"
    proof -
      have "(7 * q + k + 3) mod 7 = (k + 3 + q * 7) mod 7" by (simp add: algebra_simps)
      also have "\<dots> = (k + 3) mod 7" by (rule mod_mult_self1)
      finally show ?thesis using k3 by simp
    qed
    moreover have "op_start w < op_end w" using assms by (simp add: wf_window_def)
    ultimately show "inside_minute n w"
      by (simp add: inside_minute_def inside_window_def weekday_index(1) j(3,4) hm(5)
          del: english_weekday.simps)
  qed
qed

section \<open>Both searches succeed\<close>

lemma instant_of_minute:
  assumes "0 < m" and "0 \<le> r" and "r < m"
  obtains u where "t < u" and "u \<le> t + m * MINUTE_IN_MILLISECONDS"
    and "(u div MINUTE_IN_MILLISECONDS + offset) mod m = r"
proof -
  define q where "q = t div MINUTE_IN_MILLISECONDS"
  define e where "e = (r - (q + offset) - 1) mod m"
  have e: "0 \<le> e" "e < m" using assms(1) by (simp_all add: e_def)
  let ?u = "(q + 1 + e) * MINUTE_IN_MILLISECONDS"
  have q: "q * MINUTE_IN_MILLISECONDS \<le> t" "t < q * MINUTE_IN_MILLISECONDS + MINUTE_IN_MILLISECONDS"
    using floor_minute_bounds[of t] by (simp_all add: q_def)
  have "0 \<le> e * MINUTE_IN_MILLISECONDS" using e(1) minute_pos by simp
  moreover have "e * MINUTE_IN_MILLISECONDS + MINUTE_IN_MILLISECONDS \<le> m * MINUTE_IN_MILLISECONDS"
    using mult_right_mono[of "e + 1" m MINUTE_IN_MILLISECONDS] e(2) minute_pos by (simp add: distrib_right)
  moreover have u: "?u = q * MINUTE_IN_MILLISECONDS + MINUTE_IN_MILLISECONDS + e * MINUTE_IN_MILLISECONDS"
    by (simp add: distrib_right)
  ultimately have "t < ?u" "?u \<le> t + m * MINUTE_IN_MILLISECONDS" using q by linarith+
  moreover have "(?u div MINUTE_IN_MILLISECONDS + offset) mod m = r"
  proof -
    have "?u div MINUTE_IN_MILLISECONDS = q + 1 + e" using minute_pos by simp
    moreover have "(q + 1 + e + offset) mod m = (q + 1 + offset + (r - (q + offset) - 1)) mod m"
    proof -
      have "q + 1 + e + offset = q + 1 + offset + e" by simp
      then show ?thesis unfolding e_def by (simp only: mod_add_right_eq)
    qed
    moreover have "q + 1 + offset + (r - (q + offset) - 1) = r" by simp
    ultimately show ?thesis using assms(2,3) by (simp only: mod_pos_pos_trivial)
  qed
  ultimately show thesis using that by blast
qed

lemma first_change_exists:
  assumes "t < u" and "f u = (\<not> f t)"
  shows "\<exists>c. first_change f t c \<and> c \<le> u"
proof -
  define P where "P d \<longleftrightarrow> f (t + 1 + int d) = (\<not> f t)" for d
  define d where "d = (LEAST d. P d)"
  have "t + 1 + int (nat (u - t - 1)) = u" using assms(1) by simp
  then have "P (nat (u - t - 1))" using assms(2) by (simp add: P_def)
  then have d: "P d" "d \<le> nat (u - t - 1)" unfolding d_def by (rule LeastI, rule Least_le)
  have "f x = f t" if "t \<le> x" "x < t + 1 + int d" for x
  proof (cases "x = t")
    case False
    then have "nat (x - t - 1) < d" using that by simp
    then have "\<not> P (nat (x - t - 1))" unfolding d_def by (rule not_less_Least)
    then show ?thesis using False that(1) by (simp add: P_def)
  qed simp
  moreover have "t < t + 1 + int d" by simp
  ultimately have "first_change f t (t + 1 + int d)" using d(1) unfolding P_def by (intro first_changeI)
  then show ?thesis using d(2) assms(1) by (intro exI[of _ "t + 1 + int d"]) simp
qed

lemma schedule_changes:
  fixes offset :: int
  assumes wf: "wf_machine_policy (ScheduledMachinePolicy tz s)" and "- max_time \<le> t"
    and "t + MAXIMUM_SEARCH_IN_MILLISECONDS \<le> max_time"
  defines "f \<equiv> operates_at (fixed_offset_formatter offset) tz s"
  shows "\<exists>c1 c2. first_change f t c1 \<and> first_change f c1 c2 \<and> c2 \<le> t + MAXIMUM_SEARCH_IN_MILLISECONDS"
proof -
  have search: "MAXIMUM_SEARCH_IN_MILLISECONDS = 10080 * MINUTE_IN_MILLISECONDS + 1440 * MINUTE_IN_MILLISECONDS"
    by (simp add: MAXIMUM_SEARCH_IN_MILLISECONDS_def)
  have "op_windows s \<noteq> []" and ws: "\<forall>w \<in> set (op_windows s). wf_window (as_window w)"
    using wf by (auto simp: wf_machine_schedule_def wf_schedule_def list_all_iff)
  then have w: "hd (op_windows s) \<in> set (op_windows s)" by simp
  then obtain r where r: "0 \<le> r" "r < 10080" "\<And>n. n mod 10080 = r \<Longrightarrow> inside_minute n (hd (op_windows s))"
    using operating_minute ws by blast
  have on: "\<exists>c. first_change f x c \<and> c \<le> x + 10080 * MINUTE_IN_MILLISECONDS"
    if x: "\<not> f x" "- max_time \<le> x" "x + 10080 * MINUTE_IN_MILLISECONDS \<le> max_time" for x
  proof -
    obtain u where u: "x < u" "u \<le> x + 10080 * MINUTE_IN_MILLISECONDS"
        "(u div MINUTE_IN_MILLISECONDS + offset) mod 10080 = r"
      using instant_of_minute[of 10080 r x offset] r(1,2) by auto
    have "\<bar>u\<bar> \<le> max_time" using u(1,2) x(2,3) by linarith
    then have "f u" using w r(3)[OF u(3)] by (auto simp: f_def operates_fixed_offset list_ex_iff)
    then show ?thesis using first_change_exists[OF u(1), of f] x(1) u(2) by force
  qed
  have off: "\<exists>c. first_change f x c \<and> c \<le> x + 1440 * MINUTE_IN_MILLISECONDS"
    if x: "f x" "- max_time \<le> x" "x + 1440 * MINUTE_IN_MILLISECONDS \<le> max_time" for x
  proof -
    obtain u where u: "x < u" "u \<le> x + 1440 * MINUTE_IN_MILLISECONDS"
        "(u div MINUTE_IN_MILLISECONDS + offset) mod 1440 = 1439"
      using instant_of_minute[of 1440 1439 x offset] by auto
    have "\<bar>u\<bar> \<le> max_time" using u(1,2) x(2,3) by linarith
    then have "\<not> f u" using ws rest_at_last_minute[OF _ u(3)] by (auto simp: f_def operates_fixed_offset list_ex_iff)
    then show ?thesis using first_change_exists[OF u(1), of f] x(1) u(2) by force
  qed
  have M: "0 < 1440 * MINUTE_IN_MILLISECONDS" "0 < 10080 * MINUTE_IN_MILLISECONDS" using minute_pos by simp_all
  show ?thesis
  proof (cases "f t")
    case True
    obtain c1 where c1: "first_change f t c1" "c1 \<le> t + 1440 * MINUTE_IN_MILLISECONDS"
      using off[OF True assms(2)] assms(3) M search by auto
    then have "\<not> f c1" "t < c1" using first_changeD(1,2)[OF c1(1)] True by auto
    then obtain c2 where "first_change f c1 c2" "c2 \<le> c1 + 10080 * MINUTE_IN_MILLISECONDS"
      using on[of c1] c1(2) assms(2,3) M search by auto
    then show ?thesis using c1 search by (intro exI[of _ c1] exI[of _ c2]) simp
  next
    case False
    obtain c1 where c1: "first_change f t c1" "c1 \<le> t + 10080 * MINUTE_IN_MILLISECONDS"
      using on[OF False assms(2)] assms(3) M search by auto
    then have "f c1" "t < c1" using first_changeD(1,2)[OF c1(1)] False by auto
    then obtain c2 where "first_change f c1 c2" "c2 \<le> c1 + 1440 * MINUTE_IN_MILLISECONDS"
      using off[of c1] c1(2) assms(2,3) M search by auto
    then show ?thesis using c1 search by (intro exI[of _ c1] exI[of _ c2]) simp
  qed
qed

section \<open>Properties\<close>

lemma fixed_offset_locale: "local_formatter (fixed_offset_formatter offset)"
  using fixed_offset_minute_formatter by (simp add: minute_formatter_def)

text \<open>
  C25. In a zone with a fixed offset (America/Sao_Paulo has had one since 2019), whatever accepted operating
  policy and whatever instant, the evaluation of the power plan succeeds: the search of eight days
  always finds both transitions, and the validation accepts the plan built from them. In a zone with
  daylight saving this may fail: a week's only window may fall into a gap of the local time.
\<close>

theorem power_plan_found:
  assumes "createMachineOperatingPolicy v = Inr policy"
    and "- max_time \<le> t" and "t + MAXIMUM_SEARCH_IN_MILLISECONDS \<le> max_time"
  shows "\<exists>p. GetMachinePowerPlan_execute (fixed_offset_formatter offset) policy (Some t) = Inr p"
proof -
  have wf: "wf_machine_policy policy" using createMachineOperatingPolicy_wf[OF assms(1)] .
  have tb: "t \<le> t + MAXIMUM_SEARCH_IN_MILLISECONDS" using minute_pos by (simp add: MAXIMUM_SEARCH_IN_MILLISECONDS_def)
  then have bound: "\<bar>t\<bar> \<le> max_time" using assms(2,3) by simp
  show ?thesis
  proof (cases policy)
    case (ScheduledMachinePolicy tz s)
    define f b where "f = operates_at (fixed_offset_formatter offset) tz s" and "b = t + MAXIMUM_SEARCH_IN_MILLISECONDS"
    have mc: "minute_constant f"
      unfolding f_def using operates_minute_constant[OF fixed_offset_minute_formatter] wf ScheduledMachinePolicy by simp
    obtain c1 c2 where c: "first_change f t c1" "first_change f c1 c2" "c2 \<le> b"
      using schedule_changes[of tz s t offset] wf assms(2,3) ScheduledMachinePolicy by (auto simp: f_def b_def)
    have order: "t < c1" "c1 < c2" using first_changeD(1) c by blast+
    obtain cs where cs: "change_minutes f (floor_minute t + MINUTE_IN_MILLISECONDS) b = c1 # cs"
        "cs = change_minutes f (floor_minute c1 + MINUTE_IN_MILLISECONDS) b"
    proof (cases "change_minutes f (floor_minute t + MINUTE_IN_MILLISECONDS) b")
      case Nil
      then show ?thesis using change_minutes_after[OF mc assms(2), of b] tb assms(3) c order by (auto simp: b_def)
    next
      case (Cons d ds)
      have d: "first_change f t d" "ds = change_minutes f (floor_minute d + MINUTE_IN_MILLISECONDS) b"
        using change_minutes_after[OF mc assms(2), of b] tb assms(3) unfolding Cons by (simp_all add: b_def)
      have "d = c1" by (rule first_change_unique[OF d(1) c(1)])
      then show ?thesis using that[of ds] d(2) Cons by simp
    qed
    have "cs \<noteq> []"
      using change_minutes_after[OF mc, of c1 b] c(2,3) order assms(2,3) unfolding cs(2)[symmetric] by (auto simp: b_def)
    then obtain d ds where "change_minutes f (floor_minute t + MINUTE_IN_MILLISECONDS) b = c1 # d # ds"
      using cs(1) by (cases cs) auto
    then show ?thesis
      using minute_formatter.plan_from_changes[OF fixed_offset_minute_formatter _ assms(2,3), of tz s offset] wf bound
      by (simp add: ScheduledMachinePolicy GetMachinePowerPlan_execute_def toISOString_def f_def b_def)
  qed (use bound in \<open>simp_all add: GetMachinePowerPlan_execute_def toISOString_def evaluateMachinePowerPlan_def
      createMachinePowerPlan_value validateTransitionCombination_def Let_def\<close>)
qed

lemma monday_machine_policy:
  "createMachineOperatingPolicy (literal_obj [(''mode'', JStr ''scheduled''), (''timezone'', JStr ''America/Sao_Paulo''),
     (''weeklySchedule'', literal_obj [(''windows'', JArr [literal_obj
        [(''dayOfWeek'', JStr ''monday''), (''start'', JStr ''08:00''), (''end'', JStr ''18:00'')]])])]) =
   Inr (ScheduledMachinePolicy ''America/Sao_Paulo''
     \<lparr>op_windows = [\<lparr>dayOfWeek = monday, op_start = ''08:00'', op_end = ''18:00''\<rparr>]\<rparr>)"
  by code_simp

theorem power_plan_found_witness:
  "\<exists>p. GetMachinePowerPlan_execute (fixed_offset_formatter (- 180)) (ScheduledMachinePolicy ''America/Sao_Paulo''
     \<lparr>op_windows = [\<lparr>dayOfWeek = monday, op_start = ''08:00'', op_end = ''18:00''\<rparr>]\<rparr>) (Some 385220000) = Inr p"
  by (rule power_plan_found[OF monday_machine_policy])
    (simp_all add: max_time_def MAXIMUM_SEARCH_IN_MILLISECONDS_def MINUTE_IN_MILLISECONDS_def)

text \<open>
  C22. The occurrences of an interval are exactly the machine's periods of rest that begin in it:
  one occurrence for every instant after \<open>completedThrough\<close> and not after \<open>tickedThrough\<close> at which
  the policy stops operating, in order, each with the first later instant at which it operates
  again, although the code looks at full minutes only. The search fails only for a rest of more
  than eight days.
\<close>

theorem shutdown_occurrences_exact:
  assumes "minute_formatter fmt" and "createMachineOperatingPolicy v = Inr (ScheduledMachinePolicy tz s)"
    and "- max_time \<le> a" and "a \<le> b" and "b + HORIZON \<le> max_time" and "b - a \<le> HORIZON"
  shows "case createMachineShutdownOccurrencesForInterval fmt (ScheduledMachinePolicy tz s) (iso a) (iso b) of
      Inr os \<Rightarrow>
        set os = {\<lparr>shutdown_scheduledFor = iso u, wakeScheduledFor = iso w\<rparr> | u w.
          a < u \<and> u \<le> b \<and> off_period (operates_at fmt tz s) u w} \<and>
        sorted_wrt (\<lambda>p q. time_of (shutdown_scheduledFor p) < time_of (shutdown_scheduledFor q)) os
    | Inl e \<Rightarrow> e = MachineShutdownOccurrenceIntervalError ''search_exhausted'' \<and>
        (\<exists>u. a < u \<and> u \<le> b \<and> operates_at fmt tz s (u - 1) \<and> \<not> operates_at fmt tz s u \<and>
          (\<nexists>w. first_change (operates_at fmt tz s) u w \<and> w \<le> u + HORIZON))"
  by (rule minute_formatter.occurrences_exact[OF assms(1) createMachineOperatingPolicy_wf[OF assms(2)] assms(3-6)])

text \<open>A machine that rests from 10:00 to 10:05 on Mondays; 10:00 is 392400000 ms after the epoch.\<close>

definition break_schedule :: MachineWeeklyOperatingSchedule where
  "break_schedule = \<lparr>op_windows = [\<lparr>dayOfWeek = monday, op_start = ''08:00'', op_end = ''10:00''\<rparr>,
     \<lparr>dayOfWeek = monday, op_start = ''10:05'', op_end = ''18:00''\<rparr>]\<rparr>"

definition break_policy_value :: jsval where
  "break_policy_value = literal_obj [(''mode'', JStr ''scheduled''), (''timezone'', JStr ''America/Sao_Paulo''),
     (''weeklySchedule'', literal_obj [(''windows'', JArr
       [literal_obj [(''dayOfWeek'', JStr ''monday''), (''start'', JStr ''10:05''), (''end'', JStr ''18:00'')],
        literal_obj [(''dayOfWeek'', JStr ''monday''), (''start'', JStr ''08:00''), (''end'', JStr ''10:00'')]])])]"

lemma break_policy:
  "createMachineOperatingPolicy break_policy_value = Inr (ScheduledMachinePolicy ''America/Sao_Paulo'' break_schedule)"
  by code_simp

lemma break_bounds: "- max_time \<le> 392310500" "392400000 + HORIZON \<le> max_time" "392400000 - 392310500 \<le> HORIZON"
    "392310500 + 2 * HORIZON \<le> max_time"
  by (simp_all add: max_time_def HORIZON_def MINUTE_IN_MILLISECONDS_def)

lemma break_shutdown:
  "createMachineShutdownOccurrencesForInterval saoPauloFormatter
      (ScheduledMachinePolicy ''America/Sao_Paulo'' break_schedule) (iso 392310500) (iso 392400000) =
    Inr [\<lparr>shutdown_scheduledFor = iso 392400000, wakeScheduledFor = iso 392700000\<rparr>]"
  by code_simp

theorem shutdown_occurrences_exact_witness:
  "{\<lparr>shutdown_scheduledFor = iso 392400000, wakeScheduledFor = iso 392700000\<rparr>} =
    {\<lparr>shutdown_scheduledFor = iso u, wakeScheduledFor = iso w\<rparr> | u w.
      392310500 < u \<and> u \<le> 392400000 \<and>
      off_period (operates_at saoPauloFormatter ''America/Sao_Paulo'' break_schedule) u w}"
  using shutdown_occurrences_exact[OF sp.minute_formatter_axioms break_policy break_bounds(1) _ break_bounds(2,3)]
  unfolding break_shutdown by simp

text \<open>
  C24. What the plan announces is what the scheduler executes: if the next shutdown occurrence
  planned at an instant exists, the interval from that instant to its scheduled time contains
  this occurrence and no other.
\<close>

theorem planned_shutdown_is_executed:
  assumes "minute_formatter fmt" and "createMachineOperatingPolicy v = Inr policy"
    and "- max_time \<le> t" and "t + 2 * HORIZON \<le> max_time"
    and "PlanNextMachineShutdownOccurrence_execute fmt policy (Some t) = Inr (OccurrencePlanned o')"
  shows "createMachineShutdownOccurrencesForInterval fmt policy (iso t) (shutdown_scheduledFor o') = Inr [o']"
proof (cases policy)
  case (ScheduledMachinePolicy tz s)
  then have "wf_machine_policy (ScheduledMachinePolicy tz s)" using createMachineOperatingPolicy_wf[OF assms(2)] by simp
  then show ?thesis
    unfolding ScheduledMachinePolicy
    by (rule minute_formatter.planned_is_executed[OF assms(1)]) (use assms(3-5) ScheduledMachinePolicy in simp_all)
next
  case AlwaysOnPolicy
  have "0 < HORIZON" using minute_pos by (simp add: HORIZON_def)
  then have "\<bar>t\<bar> \<le> max_time" using assms(3,4) by simp
  then show ?thesis
    using assms(5)
    by (simp add: AlwaysOnPolicy PlanNextMachineShutdownOccurrence_execute_def GetMachinePowerPlan_execute_def
        toISOString_def evaluateMachinePowerPlan_def createMachinePowerPlan_value validateTransitionCombination_def
        Let_def planMachineShutdownOccurrence_def createMachineShutdownOccurrencePlan_def literal_simps has_own_def)
next
  case ManualMachinePolicy
  have "0 < HORIZON" using minute_pos by (simp add: HORIZON_def)
  then have "\<bar>t\<bar> \<le> max_time" using assms(3,4) by simp
  then show ?thesis
    using assms(5)
    by (simp add: ManualMachinePolicy PlanNextMachineShutdownOccurrence_execute_def GetMachinePowerPlan_execute_def
        toISOString_def evaluateMachinePowerPlan_def createMachinePowerPlan_value validateTransitionCombination_def
        Let_def planMachineShutdownOccurrence_def createMachineShutdownOccurrencePlan_def literal_simps has_own_def)
qed

lemma break_planned:
  "bindR (PlanNextMachineShutdownOccurrence_execute saoPauloFormatter
      (ScheduledMachinePolicy ''America/Sao_Paulo'' break_schedule) (Some 392310500))
     (\<lambda>p. Inr (p = OccurrencePlanned \<lparr>shutdown_scheduledFor = iso 392400000, wakeScheduledFor = iso 392700000\<rparr>)) =
    Inr True"
  by code_simp

theorem planned_shutdown_is_executed_witness:
  "createMachineShutdownOccurrencesForInterval saoPauloFormatter
      (ScheduledMachinePolicy ''America/Sao_Paulo'' break_schedule) (iso 392310500)
      (shutdown_scheduledFor \<lparr>shutdown_scheduledFor = iso 392400000, wakeScheduledFor = iso 392700000\<rparr>) =
    Inr [\<lparr>shutdown_scheduledFor = iso 392400000, wakeScheduledFor = iso 392700000\<rparr>]"
  by (rule planned_shutdown_is_executed[OF sp.minute_formatter_axioms break_policy break_bounds(1,4)])
    (use break_planned in \<open>auto simp: result_simps\<close>)

end
