(* ===== verification/Machine_Readiness.thy ===== *)
theory Machine_Readiness
  imports Registered_Service Machine_Plan_Found "HOL-Library.Product_Lexorder"
begin

text \<open>
  Whether the machine may be shut down now (\<open>power-management\<close>): blockers and decisions
  (\<open>domain/machine-shutdown-readiness-blocker.ts\<close>, \<open>machine-shutdown-readiness-decision.ts\<close>), their
  evaluation over readers that may fail (\<open>application/evaluate-machine-shutdown-readiness.ts\<close>), and the
  reader by which the scheduler confirms an occurrence against the operating policy
  (\<open>infrastructure/scheduled-policy-machine-shutdown-confirmation-reader.ts\<close>).
\<close>

section \<open>Blockers\<close>

datatype MachineShutdownBlockerCode =
    not_due | stale | not_confirmed | confirmation_unavailable | active_tasks_present | backup_in_progress
  | backup_state_unknown | filesystem_sync_required | filesystem_state_unknown | event_recording_unavailable
  | service_readiness_unavailable | readiness_dependency_failed | service_required_during_offline_interval
  | service_running | service_failed | service_state_unknown

definition blocker_codes :: "(string \<times> MachineShutdownBlockerCode) list" where
  "blocker_codes =
     [(''not_due'', not_due), (''stale'', stale), (''not_confirmed'', not_confirmed),
      (''confirmation_unavailable'', confirmation_unavailable), (''active_tasks_present'', active_tasks_present),
      (''backup_in_progress'', backup_in_progress), (''backup_state_unknown'', backup_state_unknown),
      (''filesystem_sync_required'', filesystem_sync_required),
      (''filesystem_state_unknown'', filesystem_state_unknown),
      (''event_recording_unavailable'', event_recording_unavailable),
      (''service_readiness_unavailable'', service_readiness_unavailable),
      (''readiness_dependency_failed'', readiness_dependency_failed),
      (''service_required_during_offline_interval'', service_required_during_offline_interval),
      (''service_running'', service_running), (''service_failed'', service_failed),
      (''service_state_unknown'', service_state_unknown)]"

datatype MachineShutdownBlockerArea =
  confirmation_area | services_area | active_tasks_area | backups_area | filesystem_area | event_recording_area

definition blocker_areas :: "(string \<times> MachineShutdownBlockerArea) list" where
  "blocker_areas =
     [(''confirmation'', confirmation_area), (''services'', services_area), (''active_tasks'', active_tasks_area),
      (''backups'', backups_area), (''filesystem'', filesystem_area), (''event_recording'', event_recording_area)]"

text \<open>The string of a literal, and the literal of a string.\<close>

definition literal_name :: "(string \<times> 'a) list \<Rightarrow> 'a \<Rightarrow> string" where
  "literal_name table x = (case find (\<lambda>p. snd p = x) table of Some p \<Rightarrow> fst p | None \<Rightarrow> [])"

fun literal_of :: "(string \<times> 'a) list \<Rightarrow> jsval \<Rightarrow> 'a option" where
  "literal_of table (JStr v) = map_of table v"
| "literal_of table _ = None"

record MachineShutdownReadinessBlocker =
  blocker_area :: MachineShutdownBlockerArea
  blocker_code :: MachineShutdownBlockerCode
  blocker_serviceId :: "string option"
  blocker_firstRequiredAt :: "string option"
  activeTaskCount :: "int option"

abbreviation MachineShutdownReadinessBlockerValidationError :: "string \<Rightarrow> js_error" where
  "MachineShutdownReadinessBlockerValidationError \<equiv> NamedError ''MachineShutdownReadinessBlockerValidationError''"

fun service_id_string :: "jsval \<Rightarrow> string option" where
  "service_id_string (JStr v) = (if SERVICE_ID_PATTERN v then Some v else None)"
| "service_id_string _ = None"

fun task_count :: "jsval \<Rightarrow> int option" where
  "task_count (JNum n) = (if n < 1 \<or> n > 10000 then None else Some n)"
| "task_count _ = None"

text \<open>An own property is read by \<open>parse\<close>, which may reject its value; a missing one is absent.\<close>

definition optional_prop :: "jsval \<Rightarrow> string \<Rightarrow> (jsval \<Rightarrow> 'a option) \<Rightarrow> string \<Rightarrow> 'a option result" where
  "optional_prop input k parse code =
     (if \<not> has_own input k then Inr None
      else case parse (get_prop input k) of
        None \<Rightarrow> Inl (MachineShutdownReadinessBlockerValidationError code)
      | Some x \<Rightarrow> Inr (Some x))"

definition createMachineShutdownReadinessBlocker :: "jsval \<Rightarrow> MachineShutdownReadinessBlocker result" where
  "createMachineShutdownReadinessBlocker input =
     (if \<not> is_plain_object input then Inl (MachineShutdownReadinessBlockerValidationError ''invalid_record'')
      else if \<not> list_all (key_in [''area'', ''code'', ''serviceId'', ''firstRequiredAt'', ''activeTaskCount''])
                (own_keys input)
      then Inl (MachineShutdownReadinessBlockerValidationError ''invalid_field'')
      else case literal_of blocker_areas (get_prop input ''area'') of
        None \<Rightarrow> Inl (MachineShutdownReadinessBlockerValidationError ''invalid_area'')
      | Some area \<Rightarrow>
          (case literal_of blocker_codes (get_prop input ''code'') of
             None \<Rightarrow> Inl (MachineShutdownReadinessBlockerValidationError ''invalid_code'')
           | Some code \<Rightarrow>
               bindR (optional_prop input ''serviceId'' service_id_string ''invalid_service_id'') (\<lambda>sid.
               bindR (optional_prop input ''firstRequiredAt'' canonical_string ''invalid_timestamp'') (\<lambda>at.
               bindR (optional_prop input ''activeTaskCount'' task_count ''invalid_task_count'') (\<lambda>n.
               Inr \<lparr>blocker_area = area, blocker_code = code, blocker_serviceId = sid,
                    blocker_firstRequiredAt = at, activeTaskCount = n\<rparr>)))))"

definition blocker_value :: "MachineShutdownReadinessBlocker \<Rightarrow> jsval" where
  "blocker_value b = literal_obj
     ([(''area'', JStr (literal_name blocker_areas (blocker_area b))),
       (''code'', JStr (literal_name blocker_codes (blocker_code b)))] @
      (case blocker_serviceId b of None \<Rightarrow> [] | Some v \<Rightarrow> [(''serviceId'', JStr v)]) @
      (case blocker_firstRequiredAt b of None \<Rightarrow> [] | Some v \<Rightarrow> [(''firstRequiredAt'', JStr v)]) @
      (case activeTaskCount b of None \<Rightarrow> [] | Some n \<Rightarrow> [(''activeTaskCount'', JNum n)]))"

text \<open>A blocker with an area and a code only.\<close>

definition plain_blocker :: "MachineShutdownBlockerArea \<Rightarrow> MachineShutdownBlockerCode \<Rightarrow> MachineShutdownReadinessBlocker" where
  "plain_blocker area code =
     \<lparr>blocker_area = area, blocker_code = code, blocker_serviceId = None, blocker_firstRequiredAt = None,
      activeTaskCount = None\<rparr>"

text \<open>
  The comparator of \<open>sortMachineShutdownReadinessBlockers\<close>. The strings compared by \<open>localeCompare\<close> are
  service ids, codes and timestamps, over alphabets on which it orders like the code units.
\<close>

fun area_index :: "MachineShutdownBlockerArea \<Rightarrow> int" where
  "area_index confirmation_area = 0"
| "area_index services_area = 1"
| "area_index active_tasks_area = 2"
| "area_index backups_area = 3"
| "area_index filesystem_area = 4"
| "area_index event_recording_area = 5"

definition or_empty :: "string option \<Rightarrow> string" where
  "or_empty v = (case v of None \<Rightarrow> [] | Some s \<Rightarrow> s)"

definition compareBlockers :: "MachineShutdownReadinessBlocker \<Rightarrow> MachineShutdownReadinessBlocker \<Rightarrow> int" where
  "compareBlockers left right =
     (let a = area_index (blocker_area left) - area_index (blocker_area right);
          s = compareCanonicalValues (or_empty (blocker_serviceId left)) (or_empty (blocker_serviceId right));
          c = compareCanonicalValues (literal_name blocker_codes (blocker_code left))
                (literal_name blocker_codes (blocker_code right));
          t = compareCanonicalValues (or_empty (blocker_firstRequiredAt left))
                (or_empty (blocker_firstRequiredAt right)) in
      if a \<noteq> 0 then a else if s \<noteq> 0 then s else if c \<noteq> 0 then c else t)"

definition sortMachineShutdownReadinessBlockers ::
  "MachineShutdownReadinessBlocker list \<Rightarrow> MachineShutdownReadinessBlocker list" where
  "sortMachineShutdownReadinessBlockers blockers = js_sort compareBlockers blockers"

section \<open>Decisions\<close>

record MachineShutdownReadinessDecision =
  decision_occurrence :: MachineShutdownOccurrence
  decision_evaluatedAt :: string
  approved :: bool
  blockers :: "MachineShutdownReadinessBlocker list"

abbreviation MachineShutdownReadinessDecisionValidationError :: "string \<Rightarrow> js_error" where
  "MachineShutdownReadinessDecisionValidationError \<equiv> NamedError ''MachineShutdownReadinessDecisionValidationError''"

fun created_blockers :: "jsval \<Rightarrow> MachineShutdownReadinessBlocker list option" where
  "created_blockers (JArr vs) =
     (case mapR createMachineShutdownReadinessBlocker vs of
        Inl _ \<Rightarrow> None
      | Inr bs \<Rightarrow> Some (sortMachineShutdownReadinessBlockers bs))"
| "created_blockers _ = None"

definition createMachineShutdownReadinessDecision :: "jsval \<Rightarrow> MachineShutdownReadinessDecision result" where
  "createMachineShutdownReadinessDecision input =
     (if \<not> is_plain_object input then Inl (MachineShutdownReadinessDecisionValidationError ''invalid_record'')
      else if \<not> list_all (key_in [''occurrence'', ''evaluatedAt'', ''outcome'', ''blockers'']) (own_keys input)
      then Inl (MachineShutdownReadinessDecisionValidationError ''invalid_field'')
      else case createMachineShutdownOccurrence (get_prop input ''occurrence'') of
        Inl _ \<Rightarrow> Inl (MachineShutdownReadinessDecisionValidationError ''invalid_occurrence'')
      | Inr occurrence \<Rightarrow>
          (case canonical_string (get_prop input ''evaluatedAt'') of
             None \<Rightarrow> Inl (MachineShutdownReadinessDecisionValidationError ''invalid_evaluated_at'')
           | Some evaluatedAt \<Rightarrow>
               let outcome = get_prop input ''outcome'' in
               if outcome \<noteq> JStr ''approved'' \<and> outcome \<noteq> JStr ''rejected''
               then Inl (MachineShutdownReadinessDecisionValidationError ''invalid_outcome'')
               else (case created_blockers (get_prop input ''blockers'') of
                  None \<Rightarrow> Inl (MachineShutdownReadinessDecisionValidationError ''invalid_blockers'')
                | Some bs \<Rightarrow>
                    if outcome = JStr ''approved'' \<and> bs \<noteq> [] \<or> outcome = JStr ''rejected'' \<and> bs = []
                    then Inl (MachineShutdownReadinessDecisionValidationError ''invalid_blockers'')
                    else Inr \<lparr>decision_occurrence = occurrence, decision_evaluatedAt = evaluatedAt,
                              approved = (outcome = JStr ''approved''), blockers = bs\<rparr>)))"

text \<open>The object a caller builds, and a decision as the object it is.\<close>

definition decision_object ::
  "MachineShutdownOccurrence \<Rightarrow> string \<Rightarrow> bool \<Rightarrow> MachineShutdownReadinessBlocker list \<Rightarrow> jsval" where
  "decision_object o' at ok bs = literal_obj [(''occurrence'', shutdown_value o'), (''evaluatedAt'', JStr at),
     (''outcome'', JStr (if ok then ''approved'' else ''rejected'')), (''blockers'', JArr (map blocker_value bs))]"

definition decision_value :: "MachineShutdownReadinessDecision \<Rightarrow> jsval" where
  "decision_value d = decision_object (decision_occurrence d) (decision_evaluatedAt d) (approved d) (blockers d)"

section \<open>Evaluation\<close>

text \<open>
  What a reader of readiness answers: ready, blocked by a number of active tasks, or blocked in an
  area for a reason. The service reader answers the blockers it found, as objects still to be validated.
  The readers are typed: a value that is neither ready nor blocked, which the code would take for ready, is
  not one of them.
\<close>

datatype MachineReadinessState = ReadyState | TasksBlocked jsval | StateBlocked string string

type_synonym 'w confirmation_reader = "MachineShutdownOccurrence \<Rightarrow> string \<Rightarrow> ('w, bool) io"

record 'w ReadinessReaders =
  rd_confirmation :: "'w confirmation_reader"
  rd_services :: "MachineShutdownOccurrence \<Rightarrow> string \<Rightarrow> ('w, jsval list) io"
  rd_activeTasks :: "MachineShutdownOccurrence \<Rightarrow> string \<Rightarrow> ('w, MachineReadinessState) io"
  rd_backups :: "MachineShutdownOccurrence \<Rightarrow> string \<Rightarrow> ('w, MachineReadinessState) io"
  rd_filesystem :: "MachineShutdownOccurrence \<Rightarrow> string \<Rightarrow> ('w, MachineReadinessState) io"
  rd_eventRecording :: "MachineShutdownOccurrence \<Rightarrow> string \<Rightarrow> ('w, MachineReadinessState) io"

definition collectService ::
  "'w ReadinessReaders \<Rightarrow> MachineShutdownOccurrence \<Rightarrow> string \<Rightarrow> ('w, MachineShutdownReadinessBlocker list) io" where
  "collectService readers o' at =
     catchIO (bindIO (rd_services readers o' at) (\<lambda>found. liftIO (mapR createMachineShutdownReadinessBlocker found)))
       (\<lambda>_. liftIO (bindR (createMachineShutdownReadinessBlocker
               (blocker_value (plain_blocker services_area service_readiness_unavailable))) (\<lambda>b. Inr [b])))"

definition state_blockers :: "MachineReadinessState \<Rightarrow> MachineShutdownReadinessBlocker list result" where
  "state_blockers state =
     (case state of
        ReadyState \<Rightarrow> Inr []
      | TasksBlocked count \<Rightarrow>
          bindR (createMachineShutdownReadinessBlocker (literal_obj [(''area'', JStr ''active_tasks''),
                  (''code'', JStr ''active_tasks_present''), (''activeTaskCount'', count)])) (\<lambda>b. Inr [b])
      | StateBlocked area reason \<Rightarrow>
          bindR (createMachineShutdownReadinessBlocker (literal_obj [(''area'', JStr area), (''code'', JStr reason)]))
            (\<lambda>b. Inr [b]))"

definition collect_state ::
  "('w, MachineReadinessState) io \<Rightarrow> MachineShutdownBlockerArea \<Rightarrow> ('w, MachineShutdownReadinessBlocker list) io" where
  "collect_state read area =
     catchIO (bindIO read (\<lambda>state. liftIO (state_blockers state)))
       (\<lambda>_. liftIO (bindR (createMachineShutdownReadinessBlocker
               (blocker_value (plain_blocker area readiness_dependency_failed))) (\<lambda>b. Inr [b])))"

text \<open>\<open>Date.parse(at) < Date.parse(bound)\<close>, false when \<open>at\<close> is no timestamp.\<close>

definition earlier :: "string \<Rightarrow> string \<Rightarrow> bool" where
  "earlier at bound \<longleftrightarrow> (case date_parse at of None \<Rightarrow> False | Some t \<Rightarrow> t < time_of bound)"

definition not_earlier :: "string \<Rightarrow> string \<Rightarrow> bool" where
  "not_earlier at bound \<longleftrightarrow> (case date_parse at of None \<Rightarrow> False | Some t \<Rightarrow> t \<ge> time_of bound)"

definition rejected_decision ::
  "MachineShutdownOccurrence \<Rightarrow> string \<Rightarrow> MachineShutdownBlockerCode \<Rightarrow> MachineShutdownReadinessDecision result" where
  "rejected_decision o' at code =
     createMachineShutdownReadinessDecision (decision_object o' at False [plain_blocker confirmation_area code])"

definition evaluate_readers ::
  "'w ReadinessReaders \<Rightarrow> MachineShutdownOccurrence \<Rightarrow> string \<Rightarrow> ('w, MachineShutdownReadinessDecision) io" where
  "evaluate_readers readers o' at =
     bindIO (collectService readers o' at) (\<lambda>services.
     bindIO (collect_state (rd_activeTasks readers o' at) active_tasks_area) (\<lambda>tasks.
     bindIO (collect_state (rd_backups readers o' at) backups_area) (\<lambda>backups.
     bindIO (collect_state (rd_filesystem readers o' at) filesystem_area) (\<lambda>filesystem.
     bindIO (collect_state (rd_eventRecording readers o' at) event_recording_area) (\<lambda>events.
     let found = services @ tasks @ backups @ filesystem @ events in
     liftIO (createMachineShutdownReadinessDecision (decision_object o' at (found = []) found)))))))"

definition evaluateAt ::
  "'w ReadinessReaders \<Rightarrow> jsval \<Rightarrow> string \<Rightarrow> 'w confirmation_reader \<Rightarrow> ('w, MachineShutdownReadinessDecision) io" where
  "evaluateAt readers input at confirmationReader =
     bindIO (liftIO (createMachineShutdownOccurrence input)) (\<lambda>o'.
     if earlier at (shutdown_scheduledFor o') then liftIO (rejected_decision o' at not_due)
     else if not_earlier at (wakeScheduledFor o') then liftIO (rejected_decision o' at stale)
     else bindIO (catchIO (bindIO (confirmationReader o' at) (\<lambda>c. retIO (Some c))) (\<lambda>_. retIO None)) (\<lambda>confirmation.
       case confirmation of
         None \<Rightarrow> liftIO (rejected_decision o' at confirmation_unavailable)
       | Some c \<Rightarrow>
           if \<not> c then liftIO (rejected_decision o' at not_confirmed)
           else evaluate_readers readers o' at))"

definition EvaluateReadiness_execute ::
  "'w ReadinessReaders \<Rightarrow> ('w, int option) io \<Rightarrow> jsval \<Rightarrow> ('w, MachineShutdownReadinessDecision) io" where
  "EvaluateReadiness_execute readers clock input =
     bindIO (liftIO (createMachineShutdownOccurrence input)) (\<lambda>o'.
     bindIO clock (\<lambda>now.
     bindIO (liftIO (toISOString now)) (\<lambda>at.
     evaluateAt readers (shutdown_value o') at (rd_confirmation readers))))"

section \<open>Validated values are accepted again\<close>

lemma area_literal: "map_of blocker_areas (literal_name blocker_areas a) = Some a"
  by (cases a) (simp_all add: blocker_areas_def literal_name_def)

lemma code_literal: "map_of blocker_codes (literal_name blocker_codes c) = Some c"
  by (cases c) (simp_all add: blocker_codes_def literal_name_def)

definition wf_blocker :: "MachineShutdownReadinessBlocker \<Rightarrow> bool" where
  "wf_blocker b \<longleftrightarrow>
     (case blocker_serviceId b of None \<Rightarrow> True | Some v \<Rightarrow> SERVICE_ID_PATTERN v) \<and>
     (case blocker_firstRequiredAt b of None \<Rightarrow> True | Some v \<Rightarrow> canonical v) \<and>
     (case activeTaskCount b of None \<Rightarrow> True | Some n \<Rightarrow> 1 \<le> n \<and> n \<le> 10000)"

lemma service_id_string_Some: "service_id_string v = Some x \<longleftrightarrow> v = JStr x \<and> SERVICE_ID_PATTERN x"
  by (cases v) auto

lemma canonical_string_eq: "canonical_string v = Some x \<longleftrightarrow> v = JStr x \<and> canonical x"
  by (cases v) auto

lemma task_count_Some: "task_count v = Some n \<longleftrightarrow> v = JNum n \<and> 1 \<le> n \<and> n \<le> 10000"
  by (cases v) auto

lemma optional_prop_Inr:
  "optional_prop v k parse code = Inr x \<Longrightarrow> (case x of None \<Rightarrow> True | Some y \<Rightarrow> parse (get_prop v k) = Some y)"
  by (auto simp: optional_prop_def split: if_splits option.splits)

lemma createBlocker_wf:
  assumes "createMachineShutdownReadinessBlocker v = Inr b"
  shows "wf_blocker b"
proof -
  obtain sid at n where parts: "optional_prop v ''serviceId'' service_id_string ''invalid_service_id'' = Inr sid"
      "optional_prop v ''firstRequiredAt'' canonical_string ''invalid_timestamp'' = Inr at"
      "optional_prop v ''activeTaskCount'' task_count ''invalid_task_count'' = Inr n"
      "blocker_serviceId b = sid" "blocker_firstRequiredAt b = at" "activeTaskCount b = n"
    using assms
    by (simp add: createMachineShutdownReadinessBlocker_def result_simps split: if_split_asm option.split_asm)
      (elim exE conjE, hypsubst, simp)
  show ?thesis
    using optional_prop_Inr[OF parts(1)] optional_prop_Inr[OF parts(2)] optional_prop_Inr[OF parts(3)]
    unfolding wf_blocker_def parts(4-6)
    by (simp add: service_id_string_Some canonical_string_eq task_count_Some split: option.splits)
qed

lemma createBlocker_value:
  assumes "wf_blocker b"
  shows "createMachineShutdownReadinessBlocker (blocker_value b) = Inr b"
proof -
  obtain a c sid at n where b: "b = \<lparr>blocker_area = a, blocker_code = c, blocker_serviceId = sid,
      blocker_firstRequiredAt = at, activeTaskCount = n\<rparr>" by (cases b)
  show ?thesis
    using assms
    by (cases sid; cases at; cases n)
      (simp_all add: b wf_blocker_def createMachineShutdownReadinessBlocker_def blocker_value_def literal_simps
        optional_prop_def has_own_def area_literal code_literal)
qed

lemma wf_plain_blocker [simp]: "wf_blocker (plain_blocker a c)"
  by (simp add: wf_blocker_def plain_blocker_def)

lemma createBlockers_value:
  "list_all wf_blocker bs \<Longrightarrow> mapR createMachineShutdownReadinessBlocker (map blocker_value bs) = Inr bs"
  by (induction bs) (simp_all add: createBlocker_value)

lemma createBlockers_wf:
  assumes "mapR createMachineShutdownReadinessBlocker vs = Inr bs"
  shows "list_all wf_blocker bs"
  using assms by (auto simp: list_all_iff elim!: mapR_set createBlocker_wf)

definition wf_decision :: "MachineShutdownReadinessDecision \<Rightarrow> bool" where
  "wf_decision d \<longleftrightarrow> wf_shutdown (decision_occurrence d) \<and> canonical (decision_evaluatedAt d) \<and>
     list_all wf_blocker (blockers d) \<and> (approved d \<longleftrightarrow> blockers d = []) \<and>
     sortMachineShutdownReadinessBlockers (blockers d) = blockers d"

lemma createDecision_object:
  assumes "wf_shutdown o'" and "canonical at" and "list_all wf_blocker bs" and "ok \<longleftrightarrow> bs = []"
  shows "createMachineShutdownReadinessDecision (decision_object o' at ok bs) =
    Inr \<lparr>decision_occurrence = o', decision_evaluatedAt = at, approved = ok,
      blockers = sortMachineShutdownReadinessBlockers bs\<rparr>"
proof -
  have "sortMachineShutdownReadinessBlockers bs = [] \<longleftrightarrow> bs = []"
    by (metis length_0_conv length_js_sort sortMachineShutdownReadinessBlockers_def)
  then show ?thesis
    using assms
    by (simp add: createMachineShutdownReadinessDecision_def decision_object_def literal_simps create_shutdown_value
        createBlockers_value Let_def)
qed

text \<open>The comparator is a lexicographic product, so sorting a sorted list changes nothing.\<close>

lemma consistent_by_key:
  assumes "\<And>x y. c x y < 0 \<longleftrightarrow> k x < (k y :: 'b::linorder)" and "\<And>x y. c x y = 0 \<longleftrightarrow> k x = k y"
  shows "consistent_comparator c"
proof -
  have "c x y \<le> 0 \<longleftrightarrow> k x \<le> k y" for x y using assms[of x y] by (auto simp: le_less)
  then show ?thesis unfolding consistent_comparator_def by auto
qed

lemma compareBlockers_consistent: "consistent_comparator compareBlockers"
  by (rule consistent_by_key[where k = "\<lambda>b. (area_index (blocker_area b), or_empty (blocker_serviceId b),
        literal_name blocker_codes (blocker_code b), or_empty (blocker_firstRequiredAt b))"])
    (auto simp: compareBlockers_def Let_def compareCanonicalValues_def less_prod_simp split: if_splits)

lemma sortBlockers_again [simp]:
  "sortMachineShutdownReadinessBlockers (sortMachineShutdownReadinessBlockers bs) = sortMachineShutdownReadinessBlockers bs"
  unfolding sortMachineShutdownReadinessBlockers_def
  by (intro js_sort_sorted sorted_js_sort compareBlockers_consistent)

lemma set_sortBlockers [simp]: "set (sortMachineShutdownReadinessBlockers bs) = set bs"
  by (simp add: sortMachineShutdownReadinessBlockers_def)

lemma createDecision_value: "wf_decision d \<Longrightarrow> createMachineShutdownReadinessDecision (decision_value d) = Inr d"
  by (simp add: wf_decision_def decision_value_def createDecision_object)

lemma createDecision_wf:
  assumes "createMachineShutdownReadinessDecision v = Inr d"
  shows "wf_decision d"
proof -
  obtain o' bs where parts: "createMachineShutdownOccurrence (get_prop v ''occurrence'') = Inr o'"
      "created_blockers (get_prop v ''blockers'') = Some bs" "canonical (decision_evaluatedAt d)"
      "decision_occurrence d = o'" "blockers d = bs" "approved d \<longleftrightarrow> bs = []"
    using assms
    by (auto simp: createMachineShutdownReadinessDecision_def Let_def canonical_string_eq split: if_splits sum.splits option.splits)
  obtain vs bs' where "get_prop v ''blockers'' = JArr vs" "mapR createMachineShutdownReadinessBlocker vs = Inr bs'"
      "bs = sortMachineShutdownReadinessBlockers bs'"
    using parts(2) by (cases "get_prop v ''blockers''") (auto split: sum.splits)
  then show ?thesis
    using parts createMachineShutdownOccurrence_wf createBlockers_wf[of vs bs'] by (auto simp: wf_decision_def list_all_iff)
qed

section \<open>Readiness fails closed\<close>

lemma collect_state_returns:
  "\<exists>bs. fst (collect_state read area w) = Inr bs \<and> list_all wf_blocker bs \<and>
     (bs = [] \<longleftrightarrow> fst (read w) = Inr ReadyState) \<and> snd (collect_state read area w) = snd (read w)"
proof -
  have b: "createMachineShutdownReadinessBlocker (blocker_value (plain_blocker area readiness_dependency_failed)) =
      Inr (plain_blocker area readiness_dependency_failed)" by (simp add: createBlocker_value)
  show ?thesis
  proof (cases "read w")
    case (Pair r w')
    show ?thesis
    proof (cases r)
      case (Inl e)
      then show ?thesis by (simp add: collect_state_def catchIO_def bindIO_def liftIO_def Pair b)
    next
      case (Inr state)
      show ?thesis
      proof (cases "state_blockers state")
        case Inl
        then have "state \<noteq> ReadyState" by (auto simp: state_blockers_def)
        then show ?thesis using Inr Inl by (simp add: collect_state_def catchIO_def bindIO_def liftIO_def Pair b)
      next
        case st: (Inr bs)
        then have "list_all wf_blocker bs \<and> (bs = [] \<longleftrightarrow> state = ReadyState)"
          by (auto simp: state_blockers_def result_simps createBlocker_wf split: MachineReadinessState.splits)
        then show ?thesis using Inr st by (simp add: collect_state_def catchIO_def bindIO_def liftIO_def Pair)
      qed
    qed
  qed
qed

lemma collectService_returns:
  "\<exists>bs. fst (collectService readers o' at w) = Inr bs \<and> list_all wf_blocker bs \<and>
     (bs = [] \<longleftrightarrow> fst (rd_services readers o' at w) = Inr []) \<and>
     snd (collectService readers o' at w) = snd (rd_services readers o' at w)"
proof (cases "rd_services readers o' at w")
  case (Pair r w')
  have b: "createMachineShutdownReadinessBlocker (blocker_value (plain_blocker services_area service_readiness_unavailable)) =
      Inr (plain_blocker services_area service_readiness_unavailable)" by (simp add: createBlocker_value)
  show ?thesis
  proof (cases r)
    case (Inl e)
    then show ?thesis by (simp add: collectService_def catchIO_def bindIO_def liftIO_def Pair b)
  next
    case (Inr vs)
    then show ?thesis
      using createBlockers_wf[of vs] mapR_length[of createMachineShutdownReadinessBlocker vs]
      by (cases "mapR createMachineShutdownReadinessBlocker vs"; cases vs)
        (auto simp: collectService_def catchIO_def bindIO_def liftIO_def Pair b)
  qed
qed

text \<open>Every reader, called in turn, answers that nothing blocks the shutdown.\<close>

definition readers_ready :: "'w ReadinessReaders \<Rightarrow> MachineShutdownOccurrence \<Rightarrow> string \<Rightarrow> 'w \<Rightarrow> bool" where
  "readers_ready readers o' at w \<longleftrightarrow>
     fst (rd_services readers o' at w) = Inr [] \<and>
     (let w1 = snd (rd_services readers o' at w); w2 = snd (rd_activeTasks readers o' at w1);
          w3 = snd (rd_backups readers o' at w2); w4 = snd (rd_filesystem readers o' at w3) in
      fst (rd_activeTasks readers o' at w1) = Inr ReadyState \<and> fst (rd_backups readers o' at w2) = Inr ReadyState \<and>
      fst (rd_filesystem readers o' at w3) = Inr ReadyState \<and> fst (rd_eventRecording readers o' at w4) = Inr ReadyState)"

lemma bindIO_step: "fst (m w) = Inr x \<Longrightarrow> bindIO m f w = f x (snd (m w))"
  by (cases "m w") (simp add: bindIO_def)

lemma evaluate_readers_returns:
  assumes "wf_shutdown o'" and "canonical at"
  shows "\<exists>bs. list_all wf_blocker bs \<and> (bs = [] \<longleftrightarrow> readers_ready readers o' at w) \<and>
    fst (evaluate_readers readers o' at w) = Inr \<lparr>decision_occurrence = o', decision_evaluatedAt = at,
      approved = (bs = []), blockers = sortMachineShutdownReadinessBlockers bs\<rparr>"
proof -
  obtain b1 where b1: "fst (collectService readers o' at w) = Inr b1" "list_all wf_blocker b1"
      "b1 = [] \<longleftrightarrow> fst (rd_services readers o' at w) = Inr []"
      "snd (collectService readers o' at w) = snd (rd_services readers o' at w)"
    using collectService_returns[of readers o' at w] by (elim exE conjE) (rule that)
  define w1 where "w1 = snd (rd_services readers o' at w)"
  obtain b2 where b2: "fst (collect_state (rd_activeTasks readers o' at) active_tasks_area w1) = Inr b2"
      "list_all wf_blocker b2" "b2 = [] \<longleftrightarrow> fst (rd_activeTasks readers o' at w1) = Inr ReadyState"
      "snd (collect_state (rd_activeTasks readers o' at) active_tasks_area w1) = snd (rd_activeTasks readers o' at w1)"
    using collect_state_returns[of "rd_activeTasks readers o' at" active_tasks_area w1] by (elim exE conjE) (rule that)
  define w2 where "w2 = snd (rd_activeTasks readers o' at w1)"
  obtain b3 where b3: "fst (collect_state (rd_backups readers o' at) backups_area w2) = Inr b3"
      "list_all wf_blocker b3" "b3 = [] \<longleftrightarrow> fst (rd_backups readers o' at w2) = Inr ReadyState"
      "snd (collect_state (rd_backups readers o' at) backups_area w2) = snd (rd_backups readers o' at w2)"
    using collect_state_returns[of "rd_backups readers o' at" backups_area w2] by (elim exE conjE) (rule that)
  define w3 where "w3 = snd (rd_backups readers o' at w2)"
  obtain b4 where b4: "fst (collect_state (rd_filesystem readers o' at) filesystem_area w3) = Inr b4"
      "list_all wf_blocker b4" "b4 = [] \<longleftrightarrow> fst (rd_filesystem readers o' at w3) = Inr ReadyState"
      "snd (collect_state (rd_filesystem readers o' at) filesystem_area w3) = snd (rd_filesystem readers o' at w3)"
    using collect_state_returns[of "rd_filesystem readers o' at" filesystem_area w3] by (elim exE conjE) (rule that)
  define w4 where "w4 = snd (rd_filesystem readers o' at w3)"
  obtain b5 where b5: "fst (collect_state (rd_eventRecording readers o' at) event_recording_area w4) = Inr b5"
      "list_all wf_blocker b5" "b5 = [] \<longleftrightarrow> fst (rd_eventRecording readers o' at w4) = Inr ReadyState"
    using collect_state_returns[of "rd_eventRecording readers o' at" event_recording_area w4]
    by (elim exE conjE) (rule that)
  note worlds = w1_def w2_def w3_def w4_def
  define bs where "bs = b1 @ b2 @ b3 @ b4 @ b5"
  have wf: "list_all wf_blocker bs" using b1(2) b2(2) b3(2) b4(2) b5(2) by (simp add: bs_def)
  have ready: "bs = [] \<longleftrightarrow> readers_ready readers o' at w"
    unfolding readers_ready_def Let_def bs_def append_is_Nil_conv b1(3) b2(3) b3(3) b4(3) b5(3) worlds by (rule refl)
  have "fst (evaluate_readers readers o' at w) =
      createMachineShutdownReadinessDecision (decision_object o' at (bs = []) bs)"
    unfolding evaluate_readers_def
    by (simp add: bindIO_step[of "collectService readers o' at" w b1] b1(1,4) w1_def[symmetric]
        bindIO_step[of "collect_state (rd_activeTasks readers o' at) active_tasks_area" w1 b2] b2(1,4) w2_def[symmetric]
        bindIO_step[of "collect_state (rd_backups readers o' at) backups_area" w2 b3] b3(1,4) w3_def[symmetric]
        bindIO_step[of "collect_state (rd_filesystem readers o' at) filesystem_area" w3 b4] b4(1,4) w4_def[symmetric]
        bindIO_step[of "collect_state (rd_eventRecording readers o' at) event_recording_area" w4 b5] b5(1)
        liftIO_def Let_def bs_def)
  then show ?thesis using createDecision_object[OF assms wf] wf ready by auto
qed

lemma rejected_decision_returns:
  "wf_shutdown o' \<Longrightarrow> canonical at \<Longrightarrow> rejected_decision o' at code =
     Inr \<lparr>decision_occurrence = o', decision_evaluatedAt = at, approved = False, blockers = [plain_blocker confirmation_area code]\<rparr>"
  by (simp add: rejected_decision_def createDecision_object sortMachineShutdownReadinessBlockers_def)

lemma earlier_iff: "canonical at \<Longrightarrow> earlier at b \<longleftrightarrow> time_of at < time_of b"
  "canonical at \<Longrightarrow> not_earlier at b \<longleftrightarrow> time_of b \<le> time_of at"
  by (simp_all add: earlier_def not_earlier_def canonical_date_parse)

lemma evaluateAt_decides:
  assumes "createMachineShutdownOccurrence input = Inr o'" and "canonical at"
  shows "\<exists>d. fst (evaluateAt readers input at confirmation w) = Inr d \<and> wf_decision d \<and>
    decision_occurrence d = o' \<and> decision_evaluatedAt d = at \<and> (approved d \<longleftrightarrow> blockers d = []) \<and>
    (approved d \<longleftrightarrow>
       time_of (shutdown_scheduledFor o') \<le> time_of at \<and> time_of at < time_of (wakeScheduledFor o') \<and>
       fst (confirmation o' at w) = Inr True \<and> readers_ready readers o' at (snd (confirmation o' at w)))"
proof -
  have wf: "wf_shutdown o'" by (rule createMachineShutdownOccurrence_wf[OF assms(1)])
  obtain r w' where c: "confirmation o' at w = (r, w')" by (cases "confirmation o' at w")
  obtain bs where bs: "list_all wf_blocker bs" "bs = [] \<longleftrightarrow> readers_ready readers o' at w'"
      "fst (evaluate_readers readers o' at w') = Inr \<lparr>decision_occurrence = o', decision_evaluatedAt = at,
        approved = (bs = []), blockers = sortMachineShutdownReadinessBlockers bs\<rparr>"
    using evaluate_readers_returns[OF wf assms(2), of readers w'] by (elim exE conjE) (rule that)
  have empty: "sortMachineShutdownReadinessBlockers bs = [] \<longleftrightarrow> bs = []"
    by (metis length_0_conv length_js_sort sortMachineShutdownReadinessBlockers_def)
  have sorted1: "sortMachineShutdownReadinessBlockers [b] = [b]" for b by (simp add: sortMachineShutdownReadinessBlockers_def)
  have wfs: "list_all wf_blocker (sortMachineShutdownReadinessBlockers bs)" using bs(1) by (simp add: list_all_iff)
  note start = wf assms(2) sorted1 evaluateAt_def assms(1) liftIO_def bindIO_def earlier_iff[OF assms(2)]
    rejected_decision_returns[OF wf assms(2)] wf_decision_def
  consider "time_of at < time_of (shutdown_scheduledFor o')" |
    "time_of (shutdown_scheduledFor o') \<le> time_of at" "time_of (wakeScheduledFor o') \<le> time_of at" |
    "time_of (shutdown_scheduledFor o') \<le> time_of at" "time_of at < time_of (wakeScheduledFor o')" by linarith
  then show ?thesis
  proof cases
    case 3
    show ?thesis
    proof (cases r)
      case (Inl e)
      then show ?thesis using 3 by (simp add: start c catchIO_def retIO_def)
    next
      case (Inr b)
      then show ?thesis using 3 bs empty wfs by (cases b) (simp_all add: start c catchIO_def retIO_def)
    qed
  qed (simp_all add: start)
qed

section \<open>Confirmation against the policy\<close>

text \<open>
  \<open>new Date(scheduledAt - MINUTE).toISOString()\<close> stands outside the handler. The reader uses nothing
  of the world.
\<close>

definition policy_confirms :: "formatter \<Rightarrow> MachineOperatingPolicy \<Rightarrow> MachineShutdownOccurrence \<Rightarrow> bool result" where
  "policy_confirms fmt policy occurrence =
     (case policy of
        ScheduledMachinePolicy _ _ \<Rightarrow>
          (case createMachineShutdownOccurrence (shutdown_value occurrence) of
             Inl _ \<Rightarrow> Inr False
           | Inr o' \<Rightarrow>
               let scheduledAt = time_of (shutdown_scheduledFor o') in
               bindR (toISOString (new_date (scheduledAt - MINUTE_IN_MILLISECONDS))) (\<lambda>through.
               case createMachineShutdownOccurrencesForInterval fmt policy through (shutdown_scheduledFor o') of
                 Inl _ \<Rightarrow> Inl (NamedError ''ScheduledPolicyMachineShutdownConfirmationError'' ''policy_evaluation_failed'')
               | Inr generated \<Rightarrow>
                   Inr (case generated of [g] \<Rightarrow> isSameMachineShutdownOccurrence g o' | _ \<Rightarrow> False)))
      | _ \<Rightarrow> Inr False)"

definition policy_confirmation_reader ::
  "formatter \<Rightarrow> MachineOperatingPolicy \<Rightarrow> 'w confirmation_reader" where
  "policy_confirmation_reader fmt policy occurrence at = liftIO (policy_confirms fmt policy occurrence)"

lemma aligned_unique: "aligned x \<Longrightarrow> aligned y \<Longrightarrow> x \<le> y \<Longrightarrow> y < x + MINUTE_IN_MILLISECONDS \<Longrightarrow> y = x"
proof -
  assume "aligned x" "aligned y" "x \<le> y" "y < x + MINUTE_IN_MILLISECONDS"
  then have "floor_minute y = x" "floor_minute y = y"
    using div_minute_eq[of x y] div_minute_eq[of y y] minute_pos by simp_all
  then show ?thesis by simp
qed

lemma iso_eq_iff: "\<bar>t\<bar> \<le> max_time \<Longrightarrow> \<bar>u\<bar> \<le> max_time \<Longrightarrow> iso t = iso u \<longleftrightarrow> t = u"
  by (metis time_of_iso)

context minute_formatter
begin

lemma policy_confirms_off_period:
  assumes wf: "wf_machine_policy (ScheduledMachinePolicy tz s)"
    and u: "- max_time + MINUTE_IN_MILLISECONDS \<le> u" "u + HORIZON \<le> max_time"
    and w: "\<bar>w\<bar> \<le> max_time" "u < w"
  defines "f \<equiv> operates_at fmt tz s"
  shows "policy_confirms fmt (ScheduledMachinePolicy tz s)
      \<lparr>shutdown_scheduledFor = iso u, wakeScheduledFor = iso w\<rparr> = Inr True \<longleftrightarrow>
    off_period f u w \<and> w \<le> u + HORIZON"
proof -
  let ?a = "u - MINUTE_IN_MILLISECONDS"
  let ?o = "\<lparr>shutdown_scheduledFor = iso u, wakeScheduledFor = iso w\<rparr>"
  define us where "us = falling_minutes f (floor_minute ?a + MINUTE_IN_MILLISECONDS) u"
  have H: "0 < HORIZON" "MINUTE_IN_MILLISECONDS \<le> HORIZON" using minute_pos by (simp_all add: HORIZON_def)
  have b: "\<bar>u\<bar> \<le> max_time" "\<bar>?a\<bar> \<le> max_time" "- max_time \<le> ?a" "u \<le> max_time" "?a \<le> u" "u - ?a \<le> HORIZON"
    using u H minute_pos by auto
  have mc: "minute_constant f" unfolding f_def by (rule operates_minute_constant[OF minute_formatter_axioms wf])
  have mem: "v \<in> set us \<longleftrightarrow> ?a < v \<and> v \<le> u \<and> f (v - 1) \<and> \<not> f v" for v
    unfolding us_def by (rule falling_minutes_mem[OF mc b(3,4)])
  have al: "aligned v" if "v \<in> set us" for v
    using that b unfolding mem by (intro change_aligned[OF mc]) auto
  have one: "v = v'" if "v \<in> set us" "v' \<in> set us" for v v'
  proof (cases "v \<le> v'")
    case True
    then show ?thesis using aligned_unique[OF al[OF that(1)] al[OF that(2)]] that mem by force
  next
    case False
    then show ?thesis using aligned_unique[OF al[OF that(2)] al[OF that(1)]] that mem by force
  qed
  have result: "createMachineShutdownOccurrencesForInterval fmt (ScheduledMachinePolicy tz s) (iso ?a) (iso u) =
      mapR (falling_occurrence f) us"
    using interval_falling[OF wf b(3,5) u(2) b(6)] by (simp add: us_def f_def)
  have confirms: "policy_confirms fmt (ScheduledMachinePolicy tz s) ?o = Inr True \<longleftrightarrow>
      mapR (falling_occurrence f) us = Inr [?o]"
    using b w result
    by (auto simp: policy_confirms_def createMachineShutdownOccurrence_value toISOString_def Let_def
        isSameMachineShutdownOccurrence_def split: sum.splits list.splits)
  have first: "falling_occurrence f u = Inr ?o \<longleftrightarrow> first_change f u w \<and> w \<le> u + HORIZON" if "u \<in> set us"
  proof -
    have "- max_time \<le> u" using b by simp
    from falling_occurrence_first[OF mc al[OF that] this u(2)]
    show ?thesis
    proof (elim disjE exE conjE)
      fix w' assume w': "falling_occurrence f u = Inr \<lparr>shutdown_scheduledFor = iso u, wakeScheduledFor = iso w'\<rparr>"
        "first_change f u w'" "w' \<le> u + HORIZON"
      have "\<bar>w'\<bar> \<le> max_time" using first_changeD(1)[OF w'(2)] w'(3) u b by auto
      then have "falling_occurrence f u = Inr ?o \<longleftrightarrow> w' = w" using w(1) w'(1) by (simp add: iso_eq_iff)
      then show ?thesis using w' first_change_unique[OF w'(2)] by blast
    qed auto
  qed
  show ?thesis
  proof (cases us)
    case Nil
    then show ?thesis using mem[of u] minute_pos by (auto simp: confirms off_period_def)
  next
    case (Cons v vs)
    have "sorted_wrt (<) us" unfolding us_def by (rule sorted_falling_minutes)
    have us: "us = [v]"
    proof (cases vs)
      case (Cons v' vs')
      then have "v < v'" "v' = v" using \<open>sorted_wrt (<) us\<close> one[of v' v] \<open>us = v # vs\<close> by simp_all
      then show ?thesis by simp
    qed (simp add: Cons)
    show ?thesis
    proof (cases "v = u")
      case True
      then have "u \<in> set us" by (simp add: us)
      then show ?thesis
        using first mem[of u] True by (auto simp: confirms us off_period_def result_simps)
    next
      case False
      then have "u \<notin> set us" by (simp add: us)
      then have "\<not> off_period f u w" using mem[of u] minute_pos by (auto simp: off_period_def)
      moreover have "falling_occurrence f v \<noteq> Inr ?o"
      proof -
        have v: "v \<in> set us" "\<bar>v\<bar> \<le> max_time" using mem[of v] b by (auto simp: us)
        then have "- max_time \<le> v" "v + HORIZON \<le> max_time" using mem[of v] u by auto
        then show ?thesis
          using falling_occurrence_first[OF mc al[OF v(1)]] iso_eq_iff[OF v(2) b(1)] False by auto
      qed
      ultimately show ?thesis by (simp add: confirms us result_simps)
    qed
  qed
qed

end

section \<open>Properties\<close>

text \<open>
  C17. The scheduler's confirmation reader confirms an occurrence exactly if it is a period of rest of
  the current policy: the machine operates until just before the scheduled time, rests from then on
  and operates again first at the wake time (at most eight days later). So an occurrence generated
  under a policy that has changed since, or one whose times are off by any amount, is not confirmed.
\<close>

theorem confirmation_exact:
  assumes "minute_formatter fmt" and "createMachineOperatingPolicy v = Inr (ScheduledMachinePolicy tz s)"
    and "createMachineShutdownOccurrence x = Inr o'"
    and "- max_time + MINUTE_IN_MILLISECONDS \<le> time_of (shutdown_scheduledFor o')"
    and "time_of (shutdown_scheduledFor o') + HORIZON \<le> max_time"
  shows "policy_confirms fmt (ScheduledMachinePolicy tz s) o' = Inr True \<longleftrightarrow>
    off_period (operates_at fmt tz s) (time_of (shutdown_scheduledFor o')) (time_of (wakeScheduledFor o')) \<and>
    time_of (wakeScheduledFor o') \<le> time_of (shutdown_scheduledFor o') + HORIZON"
proof -
  have wf: "wf_shutdown o'" using assms(3) by (rule createMachineShutdownOccurrence_wf)
  have o': "o' = \<lparr>shutdown_scheduledFor = iso (time_of (shutdown_scheduledFor o')),
      wakeScheduledFor = iso (time_of (wakeScheduledFor o'))\<rparr>"
    using wf by (cases o') (simp add: wf_shutdown_def)
  have "time_of (shutdown_scheduledFor o') < time_of (wakeScheduledFor o')" using wf by (simp add: wf_shutdown_def)
  from minute_formatter.policy_confirms_off_period[OF assms(1) createMachineOperatingPolicy_wf[OF assms(2)]
      assms(4,5) time_of_bound this]
  show ?thesis by (subst o')
qed

theorem confirmation_exact_witness:
  "off_period (operates_at saoPauloFormatter ''America/Sao_Paulo'' break_schedule) 392400000 392700000"
proof -
  have created: "createMachineShutdownOccurrence
      (shutdown_value \<lparr>shutdown_scheduledFor = iso 392400000, wakeScheduledFor = iso 392700000\<rparr>) =
    Inr \<lparr>shutdown_scheduledFor = iso 392400000, wakeScheduledFor = iso 392700000\<rparr>" by code_simp
  have "policy_confirms saoPauloFormatter (ScheduledMachinePolicy ''America/Sao_Paulo'' break_schedule)
      \<lparr>shutdown_scheduledFor = iso 392400000, wakeScheduledFor = iso 392700000\<rparr> = Inr True" by code_simp
  with confirmation_exact[OF sp.minute_formatter_axioms break_policy created] show ?thesis
    by (simp add: max_time_def HORIZON_def MINUTE_IN_MILLISECONDS_def)
qed

text \<open>
  C16. Readiness fails closed: for an occurrence and a canonical time the evaluation always returns a
  decision, whatever its readers do, and approves only when the occurrence is due and not stale,
  the confirmation reader confirms it, and each of the five other readers, called in turn, answers
  without error that nothing is in the way. A reader that fails, or answers something malformed,
  yields a blocker.
\<close>

theorem readiness_fails_closed:
  assumes "createMachineShutdownOccurrence input = Inr o'" and "canonical at"
  shows "\<exists>d. fst (evaluateAt readers input at confirmation w) = Inr d \<and>
    decision_occurrence d = o' \<and> decision_evaluatedAt d = at \<and> (approved d \<longleftrightarrow> blockers d = []) \<and>
    (approved d \<longleftrightarrow>
       time_of (shutdown_scheduledFor o') \<le> time_of at \<and> time_of at < time_of (wakeScheduledFor o') \<and>
       fst (confirmation o' at w) = Inr True \<and> readers_ready readers o' at (snd (confirmation o' at w)))"
  using evaluateAt_decides[OF assms, of readers confirmation w] by (elim exE conjE) (intro exI conjI)

text \<open>A world in which nothing is in the way, and one in which the state of the backups cannot be read.\<close>

definition clear_readers :: "unit ReadinessReaders" where
  "clear_readers = \<lparr>rd_confirmation = (\<lambda>_ _. retIO True), rd_services = (\<lambda>_ _. retIO []),
     rd_activeTasks = (\<lambda>_ _. retIO ReadyState), rd_backups = (\<lambda>_ _. retIO ReadyState),
     rd_filesystem = (\<lambda>_ _. retIO ReadyState), rd_eventRecording = (\<lambda>_ _. retIO ReadyState)\<rparr>"

definition unreadable_backups :: "unit ReadinessReaders" where
  "unreadable_backups = clear_readers\<lparr>rd_backups := (\<lambda>_ _. throwIO (PortError ''backups''))\<rparr>"

theorem readiness_fails_closed_witness:
  "\<exists>d. fst (evaluateAt unreadable_backups
      (shutdown_value \<lparr>shutdown_scheduledFor = iso 392400000, wakeScheduledFor = iso 392700000\<rparr>)
      (iso 392460000) (rd_confirmation unreadable_backups) ()) = Inr d \<and> \<not> approved d"
proof -
  have "createMachineShutdownOccurrence
      (shutdown_value \<lparr>shutdown_scheduledFor = iso 392400000, wakeScheduledFor = iso 392700000\<rparr>) =
    Inr \<lparr>shutdown_scheduledFor = iso 392400000, wakeScheduledFor = iso 392700000\<rparr>" by code_simp
  moreover have "canonical (iso 392460000)" by (simp add: max_time_def)
  moreover have "\<not> readers_ready unreadable_backups
        \<lparr>shutdown_scheduledFor = iso 392400000, wakeScheduledFor = iso 392700000\<rparr> (iso 392460000) u" for u
    by (simp add: readers_ready_def unreadable_backups_def clear_readers_def throwIO_def retIO_def Let_def)
  ultimately show ?thesis
    using readiness_fails_closed[of _ _ "iso 392460000" unreadable_backups "rd_confirmation unreadable_backups" "()"]
    by simp blast
qed

end
