(* ===== verification/Machine_Preparation.thy ===== *)
theory Machine_Preparation
  imports Machine_Readiness
begin

text \<open>
  The preparation of a shutdown (\<open>power-management\<close>): the plan of steps that clears the preparable
  blockers (\<open>domain/machine-shutdown-preparation-plan.ts\<close>), the results of the steps, the events that
  record them and the report (\<open>domain/machine-shutdown-preparation-*.ts\<close>,
  \<open>machine-shutdown-service-preparation-result.ts\<close>), and the handler that runs the plan
  (\<open>application/prepare-machine-shutdown-occurrence.ts\<close>).

  The values that the handler gives to the constructors of results, events and reports have been
  built by itself or come from ports with declared types, so these constructors take typed
  arguments here; what they test of the values themselves is translated in full. An open object
  such as the detail of a step is a record of optional properties, and \<open>detail_keys\<close> its own keys.
\<close>

section \<open>Plans\<close>

datatype MachineShutdownPreparationStep =
    record_preparation_started | stop_registered_services | drain_active_tasks | complete_backup
  | synchronize_filesystem | record_preparation_completed | reevaluate_readiness | record_final_readiness

record MachineShutdownPreparationPlan =
  plan_occurrence :: MachineShutdownOccurrence
  plannedAt :: string
  plan_initialDecision :: MachineShutdownReadinessDecision
  plan_steps :: "MachineShutdownPreparationStep list"

abbreviation MachineShutdownPreparationPlanError :: "string \<Rightarrow> js_error" where
  "MachineShutdownPreparationPlanError \<equiv> NamedError ''MachineShutdownPreparationPlanError''"

definition isPreparableBlocker :: "MachineShutdownReadinessBlocker \<Rightarrow> bool" where
  "isPreparableBlocker b \<longleftrightarrow>
     (if blocker_code b = service_running then blocker_serviceId b \<noteq> None
      else blocker_code b \<in> {active_tasks_present, backup_in_progress, filesystem_sync_required})"

definition steps_for :: "MachineShutdownBlockerCode list \<Rightarrow> MachineShutdownPreparationStep list" where
  "steps_for codes =
     [record_preparation_started] @
     (if service_running \<in> set codes then [stop_registered_services] else []) @
     (if active_tasks_present \<in> set codes then [drain_active_tasks] else []) @
     (if backup_in_progress \<in> set codes then [complete_backup] else []) @
     (if filesystem_sync_required \<in> set codes then [synchronize_filesystem] else []) @
     [record_preparation_completed, reevaluate_readiness, record_final_readiness]"

definition expectedSteps :: "MachineShutdownReadinessDecision \<Rightarrow> MachineShutdownPreparationStep list option" where
  "expectedSteps decision =
     (if approved decision then Some []
      else if list_ex (\<lambda>b. \<not> isPreparableBlocker b) (blockers decision) then None
      else Some (steps_for (map blocker_code (blockers decision))))"

definition createPlanModel ::
  "MachineShutdownOccurrence \<Rightarrow> string \<Rightarrow> MachineShutdownReadinessDecision \<Rightarrow> MachineShutdownPreparationStep list \<Rightarrow>
     MachineShutdownPreparationPlan result" where
  "createPlanModel occurrenceInput at decisionInput steps =
     (if \<not> canonical at then Inl (MachineShutdownPreparationPlanError ''invalid_plan'')
      else case createMachineShutdownOccurrence (shutdown_value occurrenceInput) of
        Inl _ \<Rightarrow> Inl (MachineShutdownPreparationPlanError ''invalid_plan'')
      | Inr occurrence \<Rightarrow>
          (case createMachineShutdownReadinessDecision (decision_value decisionInput) of
             Inl _ \<Rightarrow> Inl (MachineShutdownPreparationPlanError ''invalid_plan'')
           | Inr decision \<Rightarrow>
               if shutdown_scheduledFor (decision_occurrence decision) \<noteq> shutdown_scheduledFor occurrence \<or>
                  wakeScheduledFor (decision_occurrence decision) \<noteq> wakeScheduledFor occurrence \<or>
                  decision_evaluatedAt decision \<noteq> at \<or> \<not> distinct steps \<or> expectedSteps decision \<noteq> Some steps
               then Inl (MachineShutdownPreparationPlanError ''invalid_step'')
               else Inr \<lparr>plan_occurrence = occurrence, plannedAt = at, plan_initialDecision = decision,
                         plan_steps = steps\<rparr>))"

text \<open>The planner of the application layer; \<^const>\<open>None\<close> is the outcome \<open>blocked\<close>.\<close>

definition PREPARABLE :: "MachineShutdownBlockerCode list" where
  "PREPARABLE = [service_running, active_tasks_present, backup_in_progress, filesystem_sync_required]"

definition createMachineShutdownPreparationPlan ::
  "MachineShutdownOccurrence \<Rightarrow> string \<Rightarrow> MachineShutdownReadinessDecision \<Rightarrow> MachineShutdownPreparationPlan option result" where
  "createMachineShutdownPreparationPlan occurrence processedAt initialDecision =
     (if approved initialDecision
      then bindR (createPlanModel occurrence processedAt initialDecision []) (\<lambda>plan. Inr (Some plan))
      else if list_ex (\<lambda>b. blocker_code b \<notin> set PREPARABLE \<or>
                blocker_code b = service_running \<and> (blocker_serviceId b = None \<or> blocker_serviceId b = Some []))
                (blockers initialDecision)
      then Inr None
      else bindR (createPlanModel occurrence processedAt initialDecision
             (steps_for (map blocker_code (blockers initialDecision)))) (\<lambda>plan. Inr (Some plan)))"

section \<open>Results of preparing services\<close>

datatype ServicePreparationOutcome = stopped_service | already_stopped_service | failed_service

record MachineShutdownServicePreparationStep =
  prep_serviceId :: string
  prep_serviceOutcome :: ServicePreparationOutcome
  prep_serviceFailure :: "string option"

record MachineShutdownServicePreparationResult =
  prep_requestedAt :: string
  prep_serviceSteps :: "MachineShutdownServicePreparationStep list"
  prep_successful :: bool

definition isServiceFailureCode :: "string \<Rightarrow> bool" where
  "isServiceFailureCode v \<longleftrightarrow>
     v \<in> set [''service_status_failed'', ''service_stop_not_supported'', ''service_stop_failed'', ''service_plan_invalid'']"

definition service_step_ok :: "MachineShutdownServicePreparationStep \<Rightarrow> bool" where
  "service_step_ok s \<longleftrightarrow> SERVICE_ID_PATTERN (prep_serviceId s) \<and>
     (if prep_serviceOutcome s = failed_service
      then (case prep_serviceFailure s of None \<Rightarrow> False | Some c \<Rightarrow> isServiceFailureCode c)
      else prep_serviceFailure s = None)"

definition createMachineShutdownServicePreparationResult ::
  "string \<Rightarrow> MachineShutdownServicePreparationStep list \<Rightarrow> bool \<Rightarrow> MachineShutdownServicePreparationResult result" where
  "createMachineShutdownServicePreparationResult requestedAt steps successful =
     (if \<not> canonical requestedAt then Inl (PlainError ''Invalid machine shutdown service preparation result'')
      else if \<not> list_all service_step_ok steps
      then Inl (PlainError ''Invalid machine shutdown service preparation step'')
      else if length steps < 1 \<or> length steps > 64 \<or> \<not> distinct (map prep_serviceId steps)
      then Inl (PlainError ''Invalid machine shutdown service preparation steps'')
      else let hasFailure = list_ex (\<lambda>s. prep_serviceOutcome s = failed_service) steps in
        if successful = hasFailure then Inl (PlainError ''Invalid machine shutdown service preparation success'')
        else if hasFailure \<and> prep_serviceOutcome (last steps) \<noteq> failed_service
        then Inl (PlainError ''Invalid machine shutdown service preparation failure order'')
        else Inr \<lparr>prep_requestedAt = requestedAt, prep_serviceSteps = steps, prep_successful = successful\<rparr>)"

section \<open>Details\<close>

text \<open>The objects \<open>detail\<close>, with the properties the handler ever sets.\<close>

record preparation_detail =
  d_serviceSteps :: "MachineShutdownServicePreparationStep list option"
  d_failureCode :: "string option"
  d_outcome :: "string option"
  d_remainingTaskCount :: "jsval option"
  d_stoppedCount :: "int option"
  d_alreadyStoppedCount :: "int option"
  d_failedStep :: "MachineShutdownPreparationStep option"
  d_blockerCodes :: "MachineShutdownBlockerCode list option"

definition no_detail :: preparation_detail where
  "no_detail = \<lparr>d_serviceSteps = None, d_failureCode = None, d_outcome = None, d_remainingTaskCount = None,
     d_stoppedCount = None, d_alreadyStoppedCount = None, d_failedStep = None, d_blockerCodes = None\<rparr>"

definition present :: "string \<Rightarrow> 'a option \<Rightarrow> string list" where
  "present k v = (if v = None then [] else [k])"

definition detail_keys :: "preparation_detail \<Rightarrow> string list" where
  "detail_keys d =
     present ''serviceSteps'' (d_serviceSteps d) @ present ''failureCode'' (d_failureCode d) @
     present ''outcome'' (d_outcome d) @ present ''remainingTaskCount'' (d_remainingTaskCount d) @
     present ''stoppedCount'' (d_stoppedCount d) @ present ''alreadyStoppedCount'' (d_alreadyStoppedCount d) @
     present ''failedStep'' (d_failedStep d) @ present ''blockerCodes'' (d_blockerCodes d)"

definition keys_within :: "string list \<Rightarrow> preparation_detail \<Rightarrow> bool" where
  "keys_within allowed d \<longleftrightarrow> list_all (\<lambda>k. k \<in> set allowed) (detail_keys d)"

section \<open>Results of steps\<close>

datatype StepOutcome = step_completed | step_skipped | step_blocked | step_failed

record MachineShutdownPreparationStepResult =
  step_kind :: MachineShutdownPreparationStep
  step_startedAt :: string
  step_completedAt :: string
  step_outcome :: StepOutcome
  step_detail :: "preparation_detail option"

definition isFailureCodeAllowed :: "MachineShutdownPreparationStep \<Rightarrow> StepOutcome \<Rightarrow> string \<Rightarrow> bool" where
  "isFailureCodeAllowed stepKind outcome v =
     (if stepKind = drain_active_tasks
      then (if outcome = step_blocked then v = ''active_tasks_present'' else v = ''preparation_dependency_failed'')
      else if stepKind = complete_backup
      then (if outcome = step_blocked then v = ''backup_completion_failed'' \<or> v = ''backup_completion_unknown''
            else v = ''preparation_dependency_failed'')
      else if stepKind = synchronize_filesystem
      then (if outcome = step_blocked
            then v = ''filesystem_synchronization_failed'' \<or> v = ''filesystem_synchronization_unknown''
            else v = ''preparation_dependency_failed'')
      else False)"

definition accepted_outcomes :: "MachineShutdownPreparationStep \<Rightarrow> string list" where
  "accepted_outcomes stepKind =
     (case stepKind of
        drain_active_tasks \<Rightarrow> [''drained'', ''already_drained'']
      | complete_backup \<Rightarrow> [''completed'', ''not_running'']
      | synchronize_filesystem \<Rightarrow> [''synchronized'', ''already_synchronized'']
      | _ \<Rightarrow> [])"

definition outcome_detail_error :: "MachineShutdownPreparationStep \<Rightarrow> js_error" where
  "outcome_detail_error stepKind =
     PlainError (if stepKind = drain_active_tasks then ''Invalid machine shutdown task detail''
                 else ''Invalid machine shutdown state detail'')"

definition validate_service_detail :: "StepOutcome \<Rightarrow> preparation_detail \<Rightarrow> preparation_detail result" where
  "validate_service_detail outcome d =
     (case d_serviceSteps d of
        None \<Rightarrow> Inl (PlainError ''Invalid machine shutdown service detail'')
      | Some steps \<Rightarrow>
          bindR (createMachineShutdownServicePreparationResult ''2026-01-01T00:00:00.000Z'' steps
                  (outcome \<noteq> step_failed)) (\<lambda>r.
          if \<not> keys_within [''serviceSteps'', ''failureCode''] d \<or>
             outcome = step_failed \<and> d_failureCode d = None \<or>
             outcome \<noteq> step_failed \<and> d_failureCode d \<noteq> None \<or>
             outcome = step_failed \<and> \<not> isServiceFailureCode (the (d_failureCode d))
          then Inl (PlainError ''Invalid machine shutdown service detail'')
          else Inr (no_detail\<lparr>d_serviceSteps := Some (prep_serviceSteps r),
                      d_failureCode := if outcome = step_failed then d_failureCode d else None\<rparr>)))"

definition validate_outcome_detail ::
  "MachineShutdownPreparationStep \<Rightarrow> preparation_detail \<Rightarrow> preparation_detail result" where
  "validate_outcome_detail stepKind d =
     (case d_outcome d of
        Some v \<Rightarrow>
          if length (detail_keys d) \<noteq> 1 \<or> v \<notin> set (accepted_outcomes stepKind)
          then Inl (outcome_detail_error stepKind)
          else Inr (no_detail\<lparr>d_outcome := Some v\<rparr>)
      | None \<Rightarrow> Inl (outcome_detail_error stepKind))"

definition validate_failure_detail ::
  "MachineShutdownPreparationStep \<Rightarrow> StepOutcome \<Rightarrow> preparation_detail \<Rightarrow> preparation_detail result" where
  "validate_failure_detail stepKind outcome d =
     (case d_failureCode d of
        None \<Rightarrow> Inl (PlainError ''Invalid machine shutdown preparation step detail'')
      | Some code \<Rightarrow>
          if \<not> keys_within [''failureCode'', ''remainingTaskCount''] d
          then Inl (PlainError ''Invalid machine shutdown preparation step detail'')
          else if (case d_remainingTaskCount d of None \<Rightarrow> False | Some n \<Rightarrow> task_count n = None)
          then Inl (PlainError ''Invalid machine shutdown task detail'')
          else if \<not> isFailureCodeAllowed stepKind outcome code
          then Inl (PlainError ''Invalid machine shutdown preparation failure code'')
          else if stepKind = drain_active_tasks \<and> outcome = step_blocked \<and> d_remainingTaskCount d = None
          then Inl (PlainError ''Invalid machine shutdown task detail'')
          else if stepKind \<noteq> drain_active_tasks \<and> d_remainingTaskCount d \<noteq> None
          then Inl (PlainError ''Invalid machine shutdown task detail'')
          else Inr (no_detail\<lparr>d_failureCode := Some code, d_remainingTaskCount := d_remainingTaskCount d\<rparr>))"

definition validateDetail ::
  "MachineShutdownPreparationStep \<Rightarrow> StepOutcome \<Rightarrow> preparation_detail \<Rightarrow> preparation_detail result" where
  "validateDetail stepKind outcome d =
     (if stepKind = stop_registered_services then validate_service_detail outcome d
      else if stepKind \<in> {drain_active_tasks, complete_backup, synchronize_filesystem} \<and>
              outcome \<in> {step_completed, step_skipped}
      then validate_outcome_detail stepKind d
      else if outcome \<in> {step_blocked, step_failed} then validate_failure_detail stepKind outcome d
      else Inl (PlainError ''Invalid machine shutdown preparation step detail''))"

definition recording_steps :: "MachineShutdownPreparationStep list" where
  "recording_steps =
     [record_preparation_started, record_preparation_completed, reevaluate_readiness, record_final_readiness]"

definition createMachineShutdownPreparationStepResult ::
  "MachineShutdownPreparationStep \<Rightarrow> string \<Rightarrow> string \<Rightarrow> StepOutcome \<Rightarrow> preparation_detail option \<Rightarrow>
     MachineShutdownPreparationStepResult result" where
  "createMachineShutdownPreparationStepResult stepKind startedAt completedAt outcome detailInput =
     (if \<not> canonical startedAt \<or> \<not> canonical completedAt
      then Inl (PlainError ''Invalid machine shutdown preparation step result'')
      else bindR (case detailInput of None \<Rightarrow> Inr None
                  | Some d \<Rightarrow> bindR (validateDetail stepKind outcome d) (\<lambda>v. Inr (Some v))) (\<lambda>detail.
        if stepKind \<in> set recording_steps \<and> detail \<noteq> None
        then Inl (PlainError ''Invalid machine shutdown preparation step detail'')
        else Inr \<lparr>step_kind = stepKind, step_startedAt = startedAt, step_completedAt = completedAt,
                  step_outcome = outcome, step_detail = detail\<rparr>))"

section \<open>Events\<close>

datatype MachineShutdownPreparationEventKind =
    preparation_started | services_prepared | active_tasks_prepared | backup_prepared | filesystem_prepared
  | preparation_completed | preparation_failed | final_readiness_approved | final_readiness_rejected

record MachineShutdownPreparationEvent =
  event_sequence :: int
  event_kind :: MachineShutdownPreparationEventKind
  event_occurrence :: MachineShutdownOccurrence
  event_occurredAt :: string
  event_detail :: preparation_detail

abbreviation MachineShutdownPreparationEventError :: js_error where
  "MachineShutdownPreparationEventError \<equiv> NamedError ''MachineShutdownPreparationEventError'' []"

definition detailByKind :: "MachineShutdownPreparationEventKind \<Rightarrow> string list" where
  "detailByKind eventKind =
     (case eventKind of
        preparation_started \<Rightarrow> [] | preparation_completed \<Rightarrow> [] | final_readiness_approved \<Rightarrow> []
      | services_prepared \<Rightarrow> [''stoppedCount'', ''alreadyStoppedCount'']
      | active_tasks_prepared \<Rightarrow> [''outcome''] | backup_prepared \<Rightarrow> [''outcome'']
      | filesystem_prepared \<Rightarrow> [''outcome'']
      | preparation_failed \<Rightarrow> [''failedStep'', ''failureCode'']
      | final_readiness_rejected \<Rightarrow> [''blockerCodes''])"

definition event_outcomes :: "MachineShutdownPreparationEventKind \<Rightarrow> string list" where
  "event_outcomes eventKind =
     (case eventKind of
        active_tasks_prepared \<Rightarrow> [''drained'', ''already_drained'']
      | backup_prepared \<Rightarrow> [''completed'', ''not_running'']
      | filesystem_prepared \<Rightarrow> [''synchronized'', ''already_synchronized'']
      | _ \<Rightarrow> [])"

definition isSafeFailureCode :: "string \<Rightarrow> bool" where
  "isSafeFailureCode v \<longleftrightarrow> v \<in> set
     [''active_tasks_present'', ''backup_completion_failed'', ''backup_completion_unknown'', ''event_recording_failed'',
      ''filesystem_synchronization_failed'', ''filesystem_synchronization_unknown'', ''preparation_dependency_failed'',
      ''service_preparation_failed'', ''service_status_failed'', ''service_stop_failed'', ''service_stop_not_supported'',
      ''service_plan_invalid'']"

definition nonnegative :: "int option \<Rightarrow> bool" where
  "nonnegative v \<longleftrightarrow> (case v of None \<Rightarrow> False | Some n \<Rightarrow> 0 \<le> n)"

definition createMachineShutdownPreparationEvent ::
  "int \<Rightarrow> MachineShutdownPreparationEventKind \<Rightarrow> MachineShutdownOccurrence \<Rightarrow> string \<Rightarrow> preparation_detail \<Rightarrow>
     MachineShutdownPreparationEvent result" where
  "createMachineShutdownPreparationEvent sequence eventKind occurrenceInput occurredAt d =
     (if sequence < 1 \<or> \<not> canonical occurredAt then Inl MachineShutdownPreparationEventError
      else case createMachineShutdownOccurrence (shutdown_value occurrenceInput) of
        Inl _ \<Rightarrow> Inl MachineShutdownPreparationEventError
      | Inr occurrence \<Rightarrow>
          if \<not> keys_within [''stoppedCount'', ''alreadyStoppedCount'', ''outcome'', ''failedStep'', ''failureCode'',
                ''blockerCodes''] d \<or>
             \<not> keys_within (detailByKind eventKind) d \<or>
             eventKind = services_prepared \<and> (\<not> nonnegative (d_stoppedCount d) \<or> \<not> nonnegative (d_alreadyStoppedCount d)) \<or>
             event_outcomes eventKind \<noteq> [] \<and>
               (case d_outcome d of None \<Rightarrow> True | Some v \<Rightarrow> v \<notin> set (event_outcomes eventKind)) \<or>
             eventKind = preparation_failed \<and>
               (d_failedStep d = None \<or> (case d_failureCode d of None \<Rightarrow> True | Some c \<Rightarrow> \<not> isSafeFailureCode c)) \<or>
             eventKind = final_readiness_rejected \<and>
               (case d_blockerCodes d of None \<Rightarrow> True | Some codes \<Rightarrow> codes = [])
          then Inl MachineShutdownPreparationEventError
          else Inr \<lparr>event_sequence = sequence, event_kind = eventKind, event_occurrence = occurrence,
                    event_occurredAt = occurredAt, event_detail = d\<rparr>)"

section \<open>Reports\<close>

datatype MachineShutdownPreparationOutcome =
  preparation_not_required | preparation_blocked | preparation_prepared | preparation_incomplete

record MachineShutdownPreparationReport =
  report_occurrence :: MachineShutdownOccurrence
  report_processedAt :: string
  report_initialDecision :: MachineShutdownReadinessDecision
  report_plan :: "MachineShutdownPreparationPlan option"
  report_steps :: "MachineShutdownPreparationStepResult list"
  report_events :: "MachineShutdownPreparationEvent list"
  report_finalDecision :: "MachineShutdownReadinessDecision option"
  report_outcome :: MachineShutdownPreparationOutcome

definition last_event_kind :: "MachineShutdownPreparationEvent list \<Rightarrow> MachineShutdownPreparationEventKind option" where
  "last_event_kind events = (if events = [] then None else Some (event_kind (last events)))"

definition last_step_kind :: "MachineShutdownPreparationStepResult list \<Rightarrow> MachineShutdownPreparationStep option" where
  "last_step_kind steps = (if steps = [] then None else Some (step_kind (last steps)))"

definition is_final_event :: "MachineShutdownPreparationEvent \<Rightarrow> bool" where
  "is_final_event e \<longleftrightarrow> event_kind e = final_readiness_approved \<or> event_kind e = final_readiness_rejected"

definition validateEvents :: "MachineShutdownPreparationEvent list \<Rightarrow> MachineShutdownOccurrence \<Rightarrow> string \<Rightarrow> bool" where
  "validateEvents events occurrence processedAt \<longleftrightarrow>
     list_all (\<lambda>(e, i). event_sequence e = int i + 1 \<and> event_occurredAt e = processedAt \<and>
         isSameMachineShutdownOccurrence (event_occurrence e) occurrence) (zip events [0..<length events]) \<and>
     (events \<noteq> [] \<longrightarrow> event_kind (hd events) = preparation_started) \<and>
     length (filter is_final_event events) \<le> 1"

definition validateSteps ::
  "MachineShutdownPreparationStepResult list \<Rightarrow> MachineShutdownPreparationPlan option \<Rightarrow> bool" where
  "validateSteps steps plan \<longleftrightarrow>
     (case plan of
        None \<Rightarrow> steps = []
      | Some p \<Rightarrow>
          let expected = filter (\<lambda>s. s \<noteq> record_preparation_started) (plan_steps p) in
          length steps \<le> length expected \<and> map step_kind steps = take (length steps) expected)"

definition create_step_again ::
  "MachineShutdownPreparationStepResult \<Rightarrow> MachineShutdownPreparationStepResult result" where
  "create_step_again s = createMachineShutdownPreparationStepResult (step_kind s) (step_startedAt s) (step_completedAt s)
     (step_outcome s) (step_detail s)"

definition create_event_again :: "MachineShutdownPreparationEvent \<Rightarrow> MachineShutdownPreparationEvent result" where
  "create_event_again e = createMachineShutdownPreparationEvent (event_sequence e) (event_kind e) (event_occurrence e)
     (event_occurredAt e) (event_detail e)"

definition create_plan_again :: "MachineShutdownPreparationPlan \<Rightarrow> MachineShutdownPreparationPlan result" where
  "create_plan_again p = createPlanModel (plan_occurrence p) (plannedAt p) (plan_initialDecision p) (plan_steps p)"

fun optionR :: "('a \<Rightarrow> 'b result) \<Rightarrow> 'a option \<Rightarrow> 'b option result" where
  "optionR f None = Inr None"
| "optionR f (Some x) = bindR (f x) (\<lambda>y. Inr (Some y))"

text \<open>
  The last tests of the constructor, by outcome. The two decisions of a report and of its plan are
  compared as JSON texts of validated values, which are equal exactly for equal values.
\<close>

definition report_consistent ::
  "MachineShutdownOccurrence \<Rightarrow> string \<Rightarrow> MachineShutdownReadinessDecision \<Rightarrow> MachineShutdownPreparationPlan option \<Rightarrow>
     MachineShutdownReadinessDecision option \<Rightarrow> bool" where
  "report_consistent occurrence processedAt initial plan final \<longleftrightarrow>
     isSameMachineShutdownOccurrence occurrence (decision_occurrence initial) \<and>
     decision_evaluatedAt initial = processedAt \<and>
     (case plan of None \<Rightarrow> True | Some p \<Rightarrow>
        plannedAt p = processedAt \<and> isSameMachineShutdownOccurrence (plan_occurrence p) occurrence \<and>
        plan_initialDecision p = initial) \<and>
     (case final of None \<Rightarrow> True | Some d \<Rightarrow>
        decision_evaluatedAt d = processedAt \<and> isSameMachineShutdownOccurrence (decision_occurrence d) occurrence)"

definition outcome_consistent ::
  "MachineShutdownPreparationOutcome \<Rightarrow> MachineShutdownReadinessDecision \<Rightarrow> MachineShutdownPreparationPlan option \<Rightarrow>
     MachineShutdownPreparationStepResult list \<Rightarrow> MachineShutdownPreparationEvent list \<Rightarrow>
     MachineShutdownReadinessDecision option \<Rightarrow> bool" where
  "outcome_consistent outcome initial plan steps events final \<longleftrightarrow>
     (case outcome of
        preparation_not_required \<Rightarrow>
          approved initial \<and> (case plan of None \<Rightarrow> False | Some p \<Rightarrow> plan_steps p = []) \<and> steps = [] \<and> events = [] \<and>
          final = None
      | preparation_blocked \<Rightarrow> \<not> approved initial \<and> plan = None \<and> steps = [] \<and> events = [] \<and> final = None
      | preparation_prepared \<Rightarrow>
          \<not> approved initial \<and> plan \<noteq> None \<and> (case final of None \<Rightarrow> False | Some d \<Rightarrow> approved d) \<and>
          last_event_kind events = Some final_readiness_approved \<and> last_step_kind steps = Some record_final_readiness
      | preparation_incomplete \<Rightarrow>
          \<not> approved initial \<and> plan \<noteq> None \<and>
          \<not> (case final of None \<Rightarrow> False | Some d \<Rightarrow>
              approved d \<and> last_event_kind events = Some final_readiness_approved) \<and>
          \<not> (case final of None \<Rightarrow> False | Some d \<Rightarrow>
              \<not> approved d \<and> events \<noteq> [] \<and> last_event_kind events \<noteq> Some final_readiness_rejected \<and>
              list_ex (\<lambda>e. event_kind e = final_readiness_rejected) events))"

definition createMachineShutdownPreparationReport ::
  "MachineShutdownOccurrence \<Rightarrow> string \<Rightarrow> MachineShutdownReadinessDecision \<Rightarrow> MachineShutdownPreparationPlan option \<Rightarrow>
     MachineShutdownPreparationStepResult list \<Rightarrow> MachineShutdownPreparationEvent list \<Rightarrow>
     MachineShutdownReadinessDecision option \<Rightarrow> MachineShutdownPreparationOutcome \<Rightarrow>
     MachineShutdownPreparationReport result" where
  "createMachineShutdownPreparationReport occurrenceInput processedAt initialInput planInput stepInputs eventInputs
       finalInput outcome =
     (let invalid = PlainError ''Invalid machine shutdown preparation report'' in
      if \<not> canonical processedAt then Inl invalid
      else case (createMachineShutdownOccurrence (shutdown_value occurrenceInput),
                 createMachineShutdownReadinessDecision (decision_value initialInput)) of
        (Inr occurrence, Inr initial) \<Rightarrow>
          bindR (optionR create_plan_again planInput) (\<lambda>plan.
          bindR (mapR create_step_again stepInputs) (\<lambda>steps.
          bindR (mapR create_event_again eventInputs) (\<lambda>events.
          bindR (optionR (\<lambda>d. createMachineShutdownReadinessDecision (decision_value d)) finalInput) (\<lambda>final.
          if \<not> report_consistent occurrence processedAt initial plan final then Inl invalid
          else if \<not> validateEvents events occurrence processedAt
          then Inl (PlainError ''Invalid machine shutdown preparation events'')
          else if \<not> validateSteps steps plan then Inl (PlainError ''Invalid machine shutdown preparation steps'')
          else if \<not> outcome_consistent outcome initial plan steps events final then Inl invalid
          else Inr \<lparr>report_occurrence = occurrence, report_processedAt = processedAt, report_initialDecision = initial,
                    report_plan = plan, report_steps = steps, report_events = events, report_finalDecision = final,
                    report_outcome = outcome\<rparr>))))
      | _ \<Rightarrow> Inl invalid)"

section \<open>The handler\<close>

datatype ActiveTaskDrainResult = TasksDrained | TasksAlreadyDrained | TasksRemain jsval
datatype BackupCompletionResult = BackupCompleted | BackupNotRunning | BackupStuck bool
datatype FilesystemSynchronizationResult = Synchronized | AlreadySynchronized | SynchronizationStuck bool

text \<open>The Boolean of a blocked result is whether its reason is \<open>..._failed\<close> (against \<open>..._unknown\<close>).\<close>

record 'w PreparationControllers =
  pc_services :: "(MachineShutdownOccurrence \<Rightarrow> string \<Rightarrow> string list \<Rightarrow>
    ('w, MachineShutdownServicePreparationResult) io) option"
  pc_drain :: "MachineShutdownOccurrence \<Rightarrow> string \<Rightarrow> ('w, ActiveTaskDrainResult) io"
  pc_complete :: "MachineShutdownOccurrence \<Rightarrow> string \<Rightarrow> ('w, BackupCompletionResult) io"
  pc_synchronize :: "MachineShutdownOccurrence \<Rightarrow> string \<Rightarrow> ('w, FilesystemSynchronizationResult) io"
  pc_record :: "MachineShutdownPreparationEvent \<Rightarrow> ('w, unit) io"

record preparation_state =
  ps_steps :: "MachineShutdownPreparationStepResult list"
  ps_events :: "MachineShutdownPreparationEvent list"
  ps_sequence :: int

definition preparation_start :: preparation_state where
  "preparation_start = \<lparr>ps_steps = [], ps_events = [], ps_sequence = 0\<rparr>"

text \<open>The inner function \<open>event\<close>: whether the event was recorded; if not, the sequence number is taken back.\<close>

definition record_event ::
  "'w PreparationControllers \<Rightarrow> MachineShutdownOccurrence \<Rightarrow> string \<Rightarrow> MachineShutdownPreparationEventKind \<Rightarrow>
     preparation_detail \<Rightarrow> preparation_state \<Rightarrow> ('w, bool \<times> preparation_state) io" where
  "record_event pc occurrence processedAt eventKind detail st =
     (let nextSequence = ps_sequence st + 1 in
      catchIO
        (bindIO (liftIO (createMachineShutdownPreparationEvent nextSequence eventKind occurrence processedAt detail)) (\<lambda>e.
         bindIO (pc_record pc e) (\<lambda>_.
         retIO (True, st\<lparr>ps_events := ps_events st @ [e], ps_sequence := nextSequence\<rparr>))))
        (\<lambda>_. retIO (False, st\<lparr>ps_sequence := nextSequence - 1\<rparr>)))"

definition running_service_ids :: "MachineShutdownReadinessDecision \<Rightarrow> string list" where
  "running_service_ids decision =
     sort (set_of_array (map (\<lambda>b. the (blocker_serviceId b))
       (filter (\<lambda>b. blocker_code b = service_running \<and> blocker_serviceId b \<noteq> None \<and> blocker_serviceId b \<noteq> Some [])
         (blockers decision))))"

definition count_outcome :: "ServicePreparationOutcome \<Rightarrow> MachineShutdownServicePreparationStep list \<Rightarrow> int" where
  "count_outcome oc steps = int (length (filter (\<lambda>s. prep_serviceOutcome s = oc) steps))"

definition services_answer ::
  "string list \<Rightarrow> MachineShutdownServicePreparationResult \<Rightarrow> (StepOutcome \<times> preparation_detail) result" where
  "services_answer serviceIds r =
     (let steps = prep_serviceSteps r in
      if length steps > length serviceIds \<or> list_ex (\<lambda>s. prep_serviceId s \<notin> set serviceIds) steps \<or>
         \<not> distinct (map prep_serviceId steps) \<or> prep_successful r \<and> length steps \<noteq> length serviceIds
      then Inl (PlainError ''service_preparation_result_invalid'')
      else case find (\<lambda>s. prep_serviceOutcome s = failed_service) steps of
        Some failedService \<Rightarrow>
          Inr (step_failed, no_detail\<lparr>d_failureCode := prep_serviceFailure failedService, d_serviceSteps := Some steps\<rparr>)
      | None \<Rightarrow>
          Inr (step_completed, no_detail\<lparr>d_serviceSteps := Some steps,
                 d_stoppedCount := Some (count_outcome stopped_service steps),
                 d_alreadyStoppedCount := Some (count_outcome already_stopped_service steps)\<rparr>))"

definition perform_step ::
  "'w PreparationControllers \<Rightarrow> MachineShutdownOccurrence \<Rightarrow> string \<Rightarrow> MachineShutdownReadinessDecision \<Rightarrow>
     MachineShutdownPreparationStep \<Rightarrow> ('w, StepOutcome \<times> preparation_detail) io" where
  "perform_step pc occurrence processedAt initialDecision stepKind =
     (if stepKind = stop_registered_services
      then let serviceIds = running_service_ids initialDecision in
        (case pc_services pc of
           None \<Rightarrow> retIO (step_failed, no_detail\<lparr>d_failureCode := Some ''service_stop_failed''\<rparr>)
         | Some prepare \<Rightarrow>
             bindIO (prepare occurrence processedAt serviceIds) (\<lambda>r. liftIO (services_answer serviceIds r)))
      else if stepKind = drain_active_tasks
      then bindIO (pc_drain pc occurrence processedAt) (\<lambda>r. retIO (case r of
             TasksRemain n \<Rightarrow> (step_blocked,
               no_detail\<lparr>d_failureCode := Some ''active_tasks_present'', d_remainingTaskCount := Some n\<rparr>)
           | TasksDrained \<Rightarrow> (step_completed, no_detail\<lparr>d_outcome := Some ''drained''\<rparr>)
           | TasksAlreadyDrained \<Rightarrow> (step_skipped, no_detail\<lparr>d_outcome := Some ''already_drained''\<rparr>)))
      else if stepKind = complete_backup
      then bindIO (pc_complete pc occurrence processedAt) (\<lambda>r. retIO (case r of
             BackupStuck known \<Rightarrow> (step_blocked, no_detail\<lparr>d_failureCode :=
               Some (if known then ''backup_completion_failed'' else ''backup_completion_unknown'')\<rparr>)
           | BackupCompleted \<Rightarrow> (step_completed, no_detail\<lparr>d_outcome := Some ''completed''\<rparr>)
           | BackupNotRunning \<Rightarrow> (step_skipped, no_detail\<lparr>d_outcome := Some ''not_running''\<rparr>)))
      else bindIO (pc_synchronize pc occurrence processedAt) (\<lambda>r. retIO (case r of
             SynchronizationStuck known \<Rightarrow> (step_blocked, no_detail\<lparr>d_failureCode :=
               Some (if known then ''filesystem_synchronization_failed'' else ''filesystem_synchronization_unknown'')\<rparr>)
           | Synchronized \<Rightarrow> (step_completed, no_detail\<lparr>d_outcome := Some ''synchronized''\<rparr>)
           | AlreadySynchronized \<Rightarrow> (step_skipped, no_detail\<lparr>d_outcome := Some ''already_synchronized''\<rparr>))))"

definition try_step ::
  "'w PreparationControllers \<Rightarrow> MachineShutdownOccurrence \<Rightarrow> string \<Rightarrow> MachineShutdownReadinessDecision \<Rightarrow>
     MachineShutdownPreparationStep \<Rightarrow> ('w, StepOutcome \<times> preparation_detail) io" where
  "try_step pc occurrence processedAt initialDecision stepKind =
     catchIO (perform_step pc occurrence processedAt initialDecision stepKind)
       (\<lambda>_. retIO (step_failed, no_detail\<lparr>d_failureCode := Some ''preparation_dependency_failed''\<rparr>))"

text \<open>The detail given to the constructor of the step's result, and that of the event of its completion.\<close>

definition result_detail ::
  "MachineShutdownPreparationStep \<Rightarrow> StepOutcome \<Rightarrow> preparation_detail \<Rightarrow> preparation_detail" where
  "result_detail stepKind outcome d =
     (if stepKind = stop_registered_services
      then no_detail\<lparr>d_serviceSteps := Some (case d_serviceSteps d of None \<Rightarrow> [] | Some steps \<Rightarrow> steps),
             d_failureCode := if outcome = step_failed then d_failureCode d else None\<rparr>
      else d)"

definition completed_kind :: "MachineShutdownPreparationStep \<Rightarrow> MachineShutdownPreparationEventKind" where
  "completed_kind stepKind =
     (if stepKind = stop_registered_services then services_prepared
      else if stepKind = drain_active_tasks then active_tasks_prepared
      else if stepKind = complete_backup then backup_prepared else filesystem_prepared)"

definition or_zero :: "int option \<Rightarrow> int" where
  "or_zero v = (case v of None \<Rightarrow> 0 | Some n \<Rightarrow> n)"

definition completed_detail :: "MachineShutdownPreparationStep \<Rightarrow> preparation_detail \<Rightarrow> preparation_detail" where
  "completed_detail stepKind d =
     (if stepKind = stop_registered_services
      then no_detail\<lparr>d_stoppedCount := Some (or_zero (d_stoppedCount d)),
             d_alreadyStoppedCount := Some (or_zero (d_alreadyStoppedCount d))\<rparr>
      else d)"

definition failed_detail :: "MachineShutdownPreparationStep \<Rightarrow> string \<Rightarrow> preparation_detail" where
  "failed_detail stepKind code = no_detail\<lparr>d_failedStep := Some stepKind, d_failureCode := Some code\<rparr>"

text \<open>The method \<open>report\<close>.\<close>

definition incomplete_report ::
  "MachineShutdownPreparationPlan \<Rightarrow> MachineShutdownOccurrence \<Rightarrow> string \<Rightarrow> MachineShutdownReadinessDecision \<Rightarrow>
     preparation_state \<Rightarrow> MachineShutdownReadinessDecision option \<Rightarrow> ('w, MachineShutdownPreparationReport) io" where
  "incomplete_report plan occurrence processedAt initialDecision st final =
     liftIO (createMachineShutdownPreparationReport occurrence processedAt initialDecision (Some plan) (ps_steps st)
       (ps_events st) final preparation_incomplete)"

text \<open>The loop over the steps of the plan: the report of a step that did not succeed, or the state after all of them.\<close>

fun preparation_loop ::
  "'w PreparationControllers \<Rightarrow> MachineShutdownPreparationPlan \<Rightarrow> MachineShutdownOccurrence \<Rightarrow> string \<Rightarrow>
     MachineShutdownReadinessDecision \<Rightarrow> MachineShutdownPreparationStep list \<Rightarrow> preparation_state \<Rightarrow>
     ('w, MachineShutdownPreparationReport + preparation_state) io" where
  "preparation_loop pc plan occurrence processedAt initialDecision [] st = retIO (Inr st)"
| "preparation_loop pc plan occurrence processedAt initialDecision (stepKind # rest) st =
     (if stepKind \<in> set recording_steps
      then preparation_loop pc plan occurrence processedAt initialDecision rest st
      else bindIO (try_step pc occurrence processedAt initialDecision stepKind) (\<lambda>(outcome, detail).
        bindIO (liftIO (createMachineShutdownPreparationStepResult stepKind processedAt processedAt outcome
                  (Some (result_detail stepKind outcome detail)))) (\<lambda>step.
        let st1 = st\<lparr>ps_steps := ps_steps st @ [step]\<rparr> in
        if outcome = step_blocked \<or> outcome = step_failed
        then bindIO (record_event pc occurrence processedAt preparation_failed
               (failed_detail stepKind (case d_failureCode detail of None \<Rightarrow> ''preparation_dependency_failed'' | Some c \<Rightarrow> c))
               st1) (\<lambda>(_, st2).
             bindIO (incomplete_report plan occurrence processedAt initialDecision st2 None) (\<lambda>r. retIO (Inl r)))
        else bindIO (record_event pc occurrence processedAt (completed_kind stepKind) (completed_detail stepKind detail)
               st1) (\<lambda>(recorded, st2).
             if \<not> recorded
             then bindIO (record_event pc occurrence processedAt preparation_failed
                    (failed_detail stepKind ''event_recording_failed'') st2) (\<lambda>(_, st3).
                  bindIO (incomplete_report plan occurrence processedAt initialDecision st3 None) (\<lambda>r. retIO (Inl r)))
             else preparation_loop pc plan occurrence processedAt initialDecision rest st2))))"

definition push_step ::
  "MachineShutdownPreparationStep \<Rightarrow> string \<Rightarrow> preparation_state \<Rightarrow> preparation_state result" where
  "push_step stepKind processedAt st =
     bindR (createMachineShutdownPreparationStepResult stepKind processedAt processedAt step_completed None) (\<lambda>step.
     Inr (st\<lparr>ps_steps := ps_steps st @ [step]\<rparr>))"

definition final_detail :: "MachineShutdownReadinessDecision \<Rightarrow> preparation_detail" where
  "final_detail d =
     (if approved d then no_detail else no_detail\<lparr>d_blockerCodes := Some (map blocker_code (blockers d))\<rparr>)"

text \<open>What follows the loop; \<open>evaluate\<close> is \<open>readiness.evaluateAt(occurrence, processedAt, confirmationReader)\<close>.\<close>

definition preparation_finish ::
  "'w PreparationControllers \<Rightarrow> ('w, MachineShutdownReadinessDecision) io \<Rightarrow> MachineShutdownPreparationPlan \<Rightarrow>
     MachineShutdownOccurrence \<Rightarrow> string \<Rightarrow> MachineShutdownReadinessDecision \<Rightarrow> preparation_state \<Rightarrow>
     ('w, MachineShutdownPreparationReport) io" where
  "preparation_finish pc evaluate plan occurrence processedAt initialDecision st =
     bindIO (liftIO (push_step record_preparation_completed processedAt st)) (\<lambda>st1.
     bindIO (record_event pc occurrence processedAt preparation_completed no_detail st1) (\<lambda>(recorded, st2).
     if \<not> recorded then incomplete_report plan occurrence processedAt initialDecision st2 None
     else bindIO evaluate (\<lambda>finalDecision.
       bindIO (liftIO (push_step reevaluate_readiness processedAt st2)) (\<lambda>st3.
       bindIO (record_event pc occurrence processedAt
           (if approved finalDecision then final_readiness_approved else final_readiness_rejected)
           (final_detail finalDecision) st3) (\<lambda>(recorded, st4).
       if \<not> recorded
       then bindIO (record_event pc occurrence processedAt preparation_failed
              (failed_detail record_final_readiness ''event_recording_failed'') st4) (\<lambda>(_, st5).
            incomplete_report plan occurrence processedAt initialDecision st5 (Some finalDecision))
       else bindIO (liftIO (push_step record_final_readiness processedAt st4)) (\<lambda>st5.
            liftIO (createMachineShutdownPreparationReport occurrence processedAt initialDecision (Some plan)
              (ps_steps st5) (ps_events st5) (Some finalDecision)
              (if approved finalDecision then preparation_prepared else preparation_incomplete))))))))"

definition run_preparation ::
  "'w PreparationControllers \<Rightarrow> ('w, MachineShutdownReadinessDecision) io \<Rightarrow> MachineShutdownPreparationPlan \<Rightarrow>
     MachineShutdownOccurrence \<Rightarrow> string \<Rightarrow> MachineShutdownReadinessDecision \<Rightarrow>
     ('w, MachineShutdownPreparationReport) io" where
  "run_preparation pc evaluate plan occurrence processedAt initialDecision =
     bindIO (record_event pc occurrence processedAt preparation_started no_detail preparation_start) (\<lambda>(recorded, st).
     if \<not> recorded then incomplete_report plan occurrence processedAt initialDecision st None
     else bindIO (preparation_loop pc plan occurrence processedAt initialDecision (plan_steps plan) st) (\<lambda>r.
       case r of
         Inl report \<Rightarrow> retIO report
       | Inr st \<Rightarrow> preparation_finish pc evaluate plan occurrence processedAt initialDecision st))"

definition prepareAt ::
  "'w PreparationControllers \<Rightarrow> 'w ReadinessReaders \<Rightarrow> jsval \<Rightarrow> string \<Rightarrow> MachineShutdownReadinessDecision option \<Rightarrow>
     'w confirmation_reader \<Rightarrow> ('w, MachineShutdownPreparationReport) io" where
  "prepareAt pc readers input processedAt suppliedDecision confirmationReader =
     bindIO (liftIO (createMachineShutdownOccurrence input)) (\<lambda>occurrence.
     let evaluate = evaluateAt readers (shutdown_value occurrence) processedAt confirmationReader in
     bindIO (case suppliedDecision of None \<Rightarrow> evaluate | Some d \<Rightarrow> retIO d) (\<lambda>initialDecision.
     bindIO (liftIO (createMachineShutdownPreparationPlan occurrence processedAt initialDecision)) (\<lambda>planning.
     case planning of
       None \<Rightarrow> liftIO (createMachineShutdownPreparationReport occurrence processedAt initialDecision None [] [] None
                 preparation_blocked)
     | Some plan \<Rightarrow>
         if plan_steps plan = []
         then liftIO (createMachineShutdownPreparationReport occurrence processedAt initialDecision (Some plan) [] [] None
                preparation_not_required)
         else run_preparation pc evaluate plan occurrence processedAt initialDecision)))"

section \<open>Validated parts are accepted again\<close>

lemma detail_keys_no_detail [simp]:
  "detail_keys no_detail = []" "d_serviceSteps no_detail = None" "d_failureCode no_detail = None"
  "d_outcome no_detail = None" "d_remainingTaskCount no_detail = None" "d_stoppedCount no_detail = None"
  "d_alreadyStoppedCount no_detail = None" "d_failedStep no_detail = None" "d_blockerCodes no_detail = None"
  by (simp_all add: detail_keys_def no_detail_def present_def)

lemma detail_keys_updates [simp]:
  "detail_keys (no_detail\<lparr>d_serviceSteps := a, d_failureCode := b\<rparr>) =
     present ''serviceSteps'' a @ present ''failureCode'' b"
  "detail_keys (no_detail\<lparr>d_outcome := c\<rparr>) = present ''outcome'' c"
  "detail_keys (no_detail\<lparr>d_failureCode := b\<rparr>) = present ''failureCode'' b"
  "detail_keys (no_detail\<lparr>d_failureCode := b, d_remainingTaskCount := n\<rparr>) =
     present ''failureCode'' b @ present ''remainingTaskCount'' n"
  "detail_keys (no_detail\<lparr>d_stoppedCount := x, d_alreadyStoppedCount := y\<rparr>) =
     present ''stoppedCount'' x @ present ''alreadyStoppedCount'' y"
  "detail_keys (no_detail\<lparr>d_failedStep := f, d_failureCode := b\<rparr>) =
     present ''failureCode'' b @ present ''failedStep'' f"
  "detail_keys (no_detail\<lparr>d_blockerCodes := cs\<rparr>) = present ''blockerCodes'' cs"
  by (simp_all add: detail_keys_def no_detail_def present_def)

lemma createServiceResult_steps:
  "createMachineShutdownServicePreparationResult at steps ok = Inr r \<Longrightarrow>
     r = \<lparr>prep_requestedAt = at, prep_serviceSteps = steps, prep_successful = ok\<rparr> \<and>
     (ok \<longleftrightarrow> \<not> list_ex (\<lambda>s. prep_serviceOutcome s = failed_service) steps)"
  by (auto simp: createMachineShutdownServicePreparationResult_def Let_def split: if_splits)

lemma validate_service_detail_again:
  assumes "validate_service_detail oc d = Inr d'"
  shows "validate_service_detail oc d' = Inr d'"
proof (cases "d_serviceSteps d")
  case None
  then show ?thesis using assms by (simp add: validate_service_detail_def)
next
  case (Some steps)
  show ?thesis
  proof (cases "createMachineShutdownServicePreparationResult ''2026-01-01T00:00:00.000Z'' steps (oc \<noteq> step_failed)")
    case (Inl e)
    then show ?thesis using assms Some by (simp add: validate_service_detail_def)
  next
    case (Inr r)
    have r: "prep_serviceSteps r = steps" using createServiceResult_steps[OF Inr] by simp
    show ?thesis
      using assms
      by (cases "oc = step_failed"; cases "d_failureCode d")
        (use Inr in \<open>auto simp: validate_service_detail_def Some r keys_within_def present_def split: if_split_asm\<close>)
  qed
qed

lemma validate_outcome_detail_again: "validate_outcome_detail k d = Inr d' \<Longrightarrow> validate_outcome_detail k d' = Inr d'"
  by (cases "d_outcome d") (auto simp: validate_outcome_detail_def present_def split: if_split_asm)

lemma validate_failure_detail_again:
  assumes "validate_failure_detail k oc d = Inr d'"
  shows "validate_failure_detail k oc d' = Inr d'"
  using assms
  by (cases "d_failureCode d"; cases "d_remainingTaskCount d")
    (auto simp: validate_failure_detail_def keys_within_def present_def split: if_split_asm)

lemma validateDetail_again: "validateDetail k oc d = Inr d' \<Longrightarrow> validateDetail k oc d' = Inr d'"
  unfolding validateDetail_def
  by (metis sum.distinct(1) validate_service_detail_again validate_outcome_detail_again validate_failure_detail_again)

lemma create_step_again:
  assumes "createMachineShutdownPreparationStepResult k a b oc d = Inr s"
  shows "create_step_again s = Inr s" and "step_kind s = k" and "step_outcome s = oc"
proof -
  have "create_step_again s = Inr s \<and> step_kind s = k \<and> step_outcome s = oc"
  proof (cases d)
    case None
    then show ?thesis
      using assms unfolding createMachineShutdownPreparationStepResult_def create_step_again_def
      by (simp split: if_split_asm) (erule subst, simp)
  next
    case (Some x)
    show ?thesis
    proof (cases "validateDetail k oc x")
      case (Inl e)
      then show ?thesis
        using assms Some by (simp add: createMachineShutdownPreparationStepResult_def split: if_split_asm)
    next
      case (Inr y)
      have "s = \<lparr>step_kind = k, step_startedAt = a, step_completedAt = b, step_outcome = oc, step_detail = Some y\<rparr>"
          "canonical a" "canonical b" "k \<notin> set recording_steps"
        using assms Some Inr by (simp_all add: createMachineShutdownPreparationStepResult_def split: if_split_asm)
      then show ?thesis
        using validateDetail_again[OF Inr]
        by (simp add: create_step_again_def createMachineShutdownPreparationStepResult_def)
    qed
  qed
  then show "create_step_again s = Inr s" "step_kind s = k" "step_outcome s = oc" by simp_all
qed

lemma create_event_Inr:
  assumes "createMachineShutdownPreparationEvent n k o' at d = Inr e" and "wf_shutdown o'"
  shows "e = \<lparr>event_sequence = n, event_kind = k, event_occurrence = o', event_occurredAt = at, event_detail = d\<rparr>"
  using assms(1) unfolding createMachineShutdownPreparationEvent_def create_shutdown_value[OF assms(2)] sum.case
  by (simp split: if_split_asm)

lemma create_event_again:
  "createMachineShutdownPreparationEvent n k o' at d = Inr e \<Longrightarrow> wf_shutdown o' \<Longrightarrow> create_event_again e = Inr e"
  using create_event_Inr[of n k o' at d e] by (simp add: create_event_again_def)

section \<open>The invariant of a run\<close>

text \<open>
  The events are numbered from one, begin with the start of the preparation and concern this
  occurrence and time; the results of the steps are valid and come in the order \<open>kinds\<close>.
\<close>

definition prep_inv ::
  "MachineShutdownOccurrence \<Rightarrow> string \<Rightarrow> MachineShutdownPreparationStep list \<Rightarrow> preparation_state \<Rightarrow> bool" where
  "prep_inv o' at kinds st \<longleftrightarrow>
     ps_sequence st = int (length (ps_events st)) \<and>
     map event_sequence (ps_events st) = map (\<lambda>i. int i + 1) [0..<length (ps_events st)] \<and>
     (\<forall>e \<in> set (ps_events st). create_event_again e = Inr e \<and> event_occurredAt e = at \<and> event_occurrence e = o') \<and>
     (ps_events st \<noteq> [] \<longrightarrow> event_kind (hd (ps_events st)) = preparation_started) \<and>
     (\<forall>s \<in> set (ps_steps st). create_step_again s = Inr s) \<and> map step_kind (ps_steps st) = kinds"

definition no_final :: "preparation_state \<Rightarrow> bool" where
  "no_final st \<longleftrightarrow> filter is_final_event (ps_events st) = []"

lemma prep_inv_start: "prep_inv o' at [] preparation_start" "no_final preparation_start"
  by (simp_all add: prep_inv_def preparation_start_def no_final_def)

lemma prep_inv_step:
  assumes "prep_inv o' at kinds st" and "createMachineShutdownPreparationStepResult k a b oc d = Inr step"
  shows "prep_inv o' at (kinds @ [k]) (st\<lparr>ps_steps := ps_steps st @ [step]\<rparr>)"
  using assms(1) create_step_again[OF assms(2)] by (simp add: prep_inv_def)

lemma prep_inv_event:
  assumes "prep_inv o' at kinds st" and "wf_shutdown o'" and "ps_events st = [] \<Longrightarrow> k = preparation_started"
    and "createMachineShutdownPreparationEvent (ps_sequence st + 1) k o' at d = Inr e"
  shows "prep_inv o' at kinds (st\<lparr>ps_events := ps_events st @ [e], ps_sequence := ps_sequence st + 1\<rparr>)"
    and "event_kind e = k"
proof -
  have e: "create_event_again e = Inr e"
    "e = \<lparr>event_sequence = ps_sequence st + 1, event_kind = k, event_occurrence = o', event_occurredAt = at, event_detail = d\<rparr>"
    using create_event_again[OF assms(4,2)] create_event_Inr[OF assms(4,2)] by simp_all
  then show "event_kind e = k" by simp
  have "event_kind (hd (ps_events st @ [e])) = preparation_started"
    using assms(1,3) e(2) by (cases "ps_events st") (simp_all add: prep_inv_def)
  then show "prep_inv o' at kinds (st\<lparr>ps_events := ps_events st @ [e], ps_sequence := ps_sequence st + 1\<rparr>)"
    using assms(1) e by (simp add: prep_inv_def)
qed

text \<open>Recording an event never throws: the event is appended, or the state is unchanged.\<close>

lemma record_event_returns:
  assumes "prep_inv o' at kinds st" and "wf_shutdown o'" and "ps_events st = [] \<longrightarrow> k = preparation_started"
  obtains (lost) w' where "record_event pc o' at k d st w = (Inr (False, st), w')"
  | (recorded) st' e w' where "record_event pc o' at k d st w = (Inr (True, st'), w')" and "prep_inv o' at kinds st'"
      and "ps_events st' = ps_events st @ [e]" and "event_kind e = k" and "ps_steps st' = ps_steps st"
      and "pc_record pc e w = (Inr (), w')"
proof (cases "createMachineShutdownPreparationEvent (ps_sequence st + 1) k o' at d")
  case (Inl x)
  then have "record_event pc o' at k d st w = (Inr (False, st), w)"
    by (simp add: record_event_def catchIO_def bindIO_def liftIO_def retIO_def Let_def)
  then show thesis by (rule lost)
next
  case (Inr e)
  obtain r w' where r: "pc_record pc e w = (r, w')" by (cases "pc_record pc e w")
  show thesis
  proof (cases r)
    case (Inl x)
    then have "record_event pc o' at k d st w = (Inr (False, st), w')"
      using Inr r by (simp add: record_event_def catchIO_def bindIO_def liftIO_def retIO_def Let_def)
    then show thesis by (rule lost)
  next
    case (Inr u)
    have "record_event pc o' at k d st w =
        (Inr (True, st\<lparr>ps_events := ps_events st @ [e], ps_sequence := ps_sequence st + 1\<rparr>), w')"
      using \<open>createMachineShutdownPreparationEvent (ps_sequence st + 1) k o' at d = Inr e\<close> r Inr
      by (simp add: record_event_def catchIO_def bindIO_def liftIO_def retIO_def Let_def)
    then show thesis
      by (rule recorded[where e = e])
        (simp_all add: r Inr prep_inv_event[OF assms(1,2) _
          \<open>createMachineShutdownPreparationEvent (ps_sequence st + 1) k o' at d = Inr e\<close>] mp[OF assms(3)])
  qed
qed

section \<open>Reports are accepted\<close>

definition wf_plan :: "MachineShutdownOccurrence \<Rightarrow> string \<Rightarrow> MachineShutdownReadinessDecision \<Rightarrow> MachineShutdownPreparationPlan \<Rightarrow> bool" where
  "wf_plan o' at initial plan \<longleftrightarrow> create_plan_again plan = Inr plan \<and> plan_occurrence plan = o' \<and> plannedAt plan = at \<and>
     plan_initialDecision plan = initial"

definition decision_for :: "MachineShutdownOccurrence \<Rightarrow> string \<Rightarrow> MachineShutdownReadinessDecision \<Rightarrow> bool" where
  "decision_for o' at d \<longleftrightarrow> wf_decision d \<and> decision_occurrence d = o' \<and> decision_evaluatedAt d = at"

lemma mapR_same: "(\<And>x. x \<in> set xs \<Longrightarrow> f x = Inr x) \<Longrightarrow> mapR f xs = Inr xs"
  using mapR_cong_Inr[of xs f "\<lambda>x. x"] by simp

lemma numbered:
  "map event_sequence es = map (\<lambda>i. int i + 1) [0..<length es] \<Longrightarrow> i < length es \<Longrightarrow> event_sequence (es ! i) = int i + 1"
  by (metis (no_types, lifting) add.left_neutral length_map nth_map nth_upt)

lemma validateEvents_inv:
  assumes "prep_inv o' at kinds st" and "length (filter is_final_event (ps_events st)) \<le> 1"
  shows "validateEvents (ps_events st) o' at"
proof -
  have "event_sequence (ps_events st ! i) = int i + 1" if "i < length (ps_events st)" for i
    using assms(1) that by (intro numbered) (simp_all add: prep_inv_def)
  then show ?thesis
    using assms by (auto simp: validateEvents_def prep_inv_def list_all_length isSameMachineShutdownOccurrence_def)
qed

lemma report_accepted:
  assumes inv: "prep_inv o' at kinds st" and o': "wf_shutdown o'" "canonical at" and plan: "wf_plan o' at initial plan"
    and initial: "decision_for o' at initial" "\<not> approved initial"
    and prefix: "kinds @ rest = filter (\<lambda>s. s \<noteq> record_preparation_started) (plan_steps plan)"
    and final: "\<And>d. final = Some d \<Longrightarrow> decision_for o' at d"
    and events: "length (filter is_final_event (ps_events st)) \<le> 1"
    and outcome: "outcome_consistent oc initial (Some plan) (ps_steps st) (ps_events st) final"
  shows "createMachineShutdownPreparationReport o' at initial (Some plan) (ps_steps st) (ps_events st) final oc =
    Inr \<lparr>report_occurrence = o', report_processedAt = at, report_initialDecision = initial, report_plan = Some plan,
      report_steps = ps_steps st, report_events = ps_events st, report_finalDecision = final, report_outcome = oc\<rparr>"
proof -
  have steps: "mapR create_step_again (ps_steps st) = Inr (ps_steps st)"
    using inv by (intro mapR_same) (simp add: prep_inv_def)
  have evs: "mapR create_event_again (ps_events st) = Inr (ps_events st)"
    using inv by (intro mapR_same) (simp add: prep_inv_def)
  have fin: "optionR (\<lambda>d. createMachineShutdownReadinessDecision (decision_value d)) final = Inr final"
    using final createDecision_value by (cases final) (simp_all add: decision_for_def)
  have init: "createMachineShutdownReadinessDecision (decision_value initial) = Inr initial"
    using initial createDecision_value by (simp add: decision_for_def)
  have p: "create_plan_again plan = Inr plan" using plan by (simp add: wf_plan_def)
  have "report_consistent o' at initial (Some plan) final"
    using plan initial final
    by (cases final) (simp_all add: report_consistent_def wf_plan_def decision_for_def isSameMachineShutdownOccurrence_def)
  moreover have "validateSteps (ps_steps st) (Some plan)"
  proof -
    have "length kinds = length (ps_steps st)" "map step_kind (ps_steps st) = kinds"
      using inv by (auto simp: prep_inv_def)
    then show ?thesis by (simp add: validateSteps_def prefix[symmetric])
  qed
  ultimately show ?thesis
    using validateEvents_inv[OF inv events] outcome o'(2)
    by (simp add: createMachineShutdownPreparationReport_def create_shutdown_value[OF o'(1)] init steps evs fin p Let_def)
qed

section \<open>Steps\<close>

text \<open>
  What a report asks of two controllers in the world in which they are called. The controller of the
  services answers a valid result about the requested services, one step for each if it succeeded;
  the remaining tasks are counted.
\<close>

definition services_answered ::
  "'w PreparationControllers \<Rightarrow> MachineShutdownOccurrence \<Rightarrow> string \<Rightarrow> string list \<Rightarrow> 'w \<Rightarrow> bool" where
  "services_answered pc o' at ids w \<longleftrightarrow>
     (case pc_services pc of
        None \<Rightarrow> False
      | Some prepare \<Rightarrow> \<exists>r. fst (prepare o' at ids w) = Inr r \<and>
          createMachineShutdownServicePreparationResult (prep_requestedAt r) (prep_serviceSteps r) (prep_successful r) =
            Inr r \<and>
          set (map prep_serviceId (prep_serviceSteps r)) \<subseteq> set ids \<and>
          (prep_successful r \<longrightarrow> length (prep_serviceSteps r) = length ids))"

definition tasks_counted :: "'w PreparationControllers \<Rightarrow> MachineShutdownOccurrence \<Rightarrow> string \<Rightarrow> 'w \<Rightarrow> bool" where
  "tasks_counted pc o' at w \<longleftrightarrow> (\<forall>n. fst (pc_drain pc o' at w) = Inr (TasksRemain n) \<longrightarrow> task_count n \<noteq> None)"

text \<open>
  The call that keeps a preparation from reporting, with the world it leaves: that of the missing,
  failing or wrongly answering controller of the services, or a drain whose remaining tasks are not
  counted.
\<close>

definition unreportable ::
  "'w PreparationControllers \<Rightarrow> MachineShutdownOccurrence \<Rightarrow> string \<Rightarrow> MachineShutdownReadinessDecision \<Rightarrow> 'w \<Rightarrow> bool" where
  "unreportable pc o' at initial w' \<longleftrightarrow>
     service_running \<in> set (map blocker_code (blockers initial)) \<and>
       (case pc_services pc of
          None \<Rightarrow> True
        | Some prepare \<Rightarrow> \<exists>v. snd (prepare o' at (running_service_ids initial) v) = w' \<and>
            \<not> services_answered pc o' at (running_service_ids initial) v) \<or>
     (\<exists>v. snd (pc_drain pc o' at v) = w' \<and> \<not> tasks_counted pc o' at v)"

lemma canonical_2026: "canonical ''2026-01-01T00:00:00.000Z''"
  by code_simp

lemma createServiceResult_time:
  assumes "createMachineShutdownServicePreparationResult at steps ok = Inr r"
  shows "createMachineShutdownServicePreparationResult ''2026-01-01T00:00:00.000Z'' steps ok =
    Inr (r\<lparr>prep_requestedAt := ''2026-01-01T00:00:00.000Z''\<rparr>)"
  using assms canonical_2026 unfolding createMachineShutdownServicePreparationResult_def Let_def
  by (simp split: if_split_asm) (erule subst, simp)

lemma created_service_steps:
  assumes "createMachineShutdownServicePreparationResult at steps ok = Inr r"
  shows "distinct (map prep_serviceId steps)" and "list_all service_step_ok steps" and "steps \<noteq> []"
  using assms unfolding createMachineShutdownServicePreparationResult_def Let_def
  by (simp_all split: if_split_asm)

lemma services_answer_valid:
  assumes r: "createMachineShutdownServicePreparationResult (prep_requestedAt r) (prep_serviceSteps r) (prep_successful r) = Inr r"
    and ids: "set (map prep_serviceId (prep_serviceSteps r)) \<subseteq> set ids"
    and len: "prep_successful r \<longrightarrow> length (prep_serviceSteps r) = length ids"
  shows "\<exists>oc d v. services_answer ids r = Inr (oc, d) \<and>
    validateDetail stop_registered_services oc (result_detail stop_registered_services oc d) = Inr v"
proof -
  note parts = created_service_steps[OF r]
  have ok: "prep_successful r \<longleftrightarrow> \<not> list_ex (\<lambda>s. prep_serviceOutcome s = failed_service) (prep_serviceSteps r)"
    using createServiceResult_steps[OF r] by simp
  have "length (prep_serviceSteps r) \<le> length ids"
    using parts(1) ids by (metis card_length card_mono distinct_card finite_set length_map order_trans)
  then have guard: "\<not> (length (prep_serviceSteps r) > length ids \<or>
      list_ex (\<lambda>s. prep_serviceId s \<notin> set ids) (prep_serviceSteps r) \<or>
      \<not> distinct (map prep_serviceId (prep_serviceSteps r)) \<or>
      prep_successful r \<and> length (prep_serviceSteps r) \<noteq> length ids)"
    using ids parts(1) len by (auto simp: list_ex_iff)
  note create = createServiceResult_time[OF r]
  show ?thesis
  proof (cases "find (\<lambda>s. prep_serviceOutcome s = failed_service) (prep_serviceSteps r)")
    case None
    then have "prep_successful r" using ok by (simp add: find_None list_ex_iff)
    then show ?thesis
      using None guard create
      by (simp add: services_answer_def Let_def validateDetail_def validate_service_detail_def result_detail_def
          keys_within_def present_def)
  next
    case (Some s)
    have s: "prep_serviceOutcome s = failed_service" "s \<in> set (prep_serviceSteps r)" using find_SomeD[OF Some] by simp_all
    then have f: "\<not> prep_successful r" using ok by (auto simp: list_ex_iff)
    have "service_step_ok s" using parts(2) s(2) by (simp add: list_all_iff)
    then obtain c where "prep_serviceFailure s = Some c" "isServiceFailureCode c"
      using s(1) by (cases "prep_serviceFailure s") (simp_all add: service_step_ok_def)
    then show ?thesis
      using Some guard create f
      by (simp add: services_answer_def Let_def validateDetail_def validate_service_detail_def result_detail_def
          keys_within_def present_def)
  qed
qed

definition action_steps :: "MachineShutdownPreparationStep list" where
  "action_steps = [stop_registered_services, drain_active_tasks, complete_backup, synchronize_filesystem]"

lemma not_recording: "k \<notin> set recording_steps \<longleftrightarrow> k \<in> set action_steps"
  by (cases k) (simp_all add: recording_steps_def action_steps_def)

lemmas step_simps = validateDetail_def validate_outcome_detail_def validate_failure_detail_def result_detail_def
  keys_within_def present_def accepted_outcomes_def isFailureCodeAllowed_def

lemma try_step_valid:
  assumes k: "k \<in> set action_steps"
    and services: "k = stop_registered_services \<Longrightarrow> services_answered pc o' at (running_service_ids initial) w"
    and tasks: "k = drain_active_tasks \<Longrightarrow> tasks_counted pc o' at w"
  shows "\<exists>oc d v w'. try_step pc o' at initial k w = (Inr (oc, d), w') \<and>
    validateDetail k oc (result_detail k oc d) = Inr v"
proof -
  consider "k = stop_registered_services" | "k = drain_active_tasks" | "k = complete_backup" | "k = synchronize_filesystem"
    using k by (auto simp: action_steps_def)
  then show ?thesis
  proof cases
    case 1
    obtain prepare where p: "pc_services pc = Some prepare"
      using services[OF 1] by (cases "pc_services pc") (simp_all add: services_answered_def)
    obtain r w' where r: "prepare o' at (running_service_ids initial) w = (Inr r, w')"
        "createMachineShutdownServicePreparationResult (prep_requestedAt r) (prep_serviceSteps r) (prep_successful r) = Inr r"
        "set (map prep_serviceId (prep_serviceSteps r)) \<subseteq> set (running_service_ids initial)"
        "prep_successful r \<longrightarrow> length (prep_serviceSteps r) = length (running_service_ids initial)"
    proof -
      obtain r where "fst (prepare o' at (running_service_ids initial) w) = Inr r"
          "createMachineShutdownServicePreparationResult (prep_requestedAt r) (prep_serviceSteps r) (prep_successful r) = Inr r"
          "set (map prep_serviceId (prep_serviceSteps r)) \<subseteq> set (running_service_ids initial)"
          "prep_successful r \<longrightarrow> length (prep_serviceSteps r) = length (running_service_ids initial)"
        using services[OF 1] unfolding services_answered_def p option.case by (elim exE conjE) (rule that)
      then show thesis by (intro that[of r "snd (prepare o' at (running_service_ids initial) w)"]) (simp_all add: prod_eq_iff)
    qed
    obtain oc d v where "services_answer (running_service_ids initial) r = Inr (oc, d)"
        "validateDetail stop_registered_services oc (result_detail stop_registered_services oc d) = Inr v"
      using services_answer_valid[OF r(2-4)] by blast
    then show ?thesis
      using 1 p r(1) by (simp add: try_step_def perform_step_def catchIO_def bindIO_def liftIO_def Let_def)
  next
    case 2
    obtain r w' where r: "pc_drain pc o' at w = (r, w')" by (cases "pc_drain pc o' at w")
    then have count: "r = Inr (TasksRemain n) \<Longrightarrow> task_count n \<noteq> None" for n
      using tasks[OF 2] unfolding tasks_counted_def by (metis fst_conv)
    show ?thesis
    proof (cases r)
      case (Inl e)
      then show ?thesis using 2 r
        by (simp add: try_step_def perform_step_def catchIO_def bindIO_def retIO_def step_simps)
    next
      case (Inr x)
      then show ?thesis using 2 r count
        by (cases x) (simp_all add: try_step_def perform_step_def catchIO_def bindIO_def retIO_def step_simps)
    qed
  next
    case 3
    obtain r w' where r: "pc_complete pc o' at w = (r, w')" by (cases "pc_complete pc o' at w")
    show ?thesis
    proof (cases r)
      case (Inl e)
      then show ?thesis using 3 r
        by (simp add: try_step_def perform_step_def catchIO_def bindIO_def retIO_def step_simps)
    next
      case (Inr x)
      then show ?thesis using 3 r
        by (cases x) (simp_all add: try_step_def perform_step_def catchIO_def bindIO_def retIO_def step_simps)
    qed
  next
    case 4
    obtain r w' where r: "pc_synchronize pc o' at w = (r, w')" by (cases "pc_synchronize pc o' at w")
    show ?thesis
    proof (cases r)
      case (Inl e)
      then show ?thesis using 4 r
        by (simp add: try_step_def perform_step_def catchIO_def bindIO_def retIO_def step_simps)
    next
      case (Inr x)
      then show ?thesis using 4 r
        by (cases x) (simp_all add: try_step_def perform_step_def catchIO_def bindIO_def retIO_def step_simps)
    qed
  qed
qed

section \<open>The run of a plan\<close>

lemma bindIO_assoc: "bindIO (bindIO m f) g = bindIO m (\<lambda>x. bindIO (f x) g)"
  by (rule ext) (simp add: bindIO_def split: prod.splits sum.splits)

lemma bindIO_run: "m w = (Inr x, w') \<Longrightarrow> bindIO m f w = f x w'"
  by (simp add: bindIO_def)

lemma liftIO_app: "liftIO r w = (r, w)"
  by (simp add: liftIO_def)

lemma bindIO_lift [simp]: "bindIO (liftIO (Inr x)) f = f x" "bindIO (retIO x) f = f x"
  by (simp_all add: bindIO_def liftIO_def retIO_def)

lemma plan_created:
  assumes o': "wf_shutdown o'" "canonical at" and d: "decision_for o' at d"
  shows "createMachineShutdownPreparationPlan o' at d = Inr None \<and> \<not> approved d \<or>
    (\<exists>plan. createMachineShutdownPreparationPlan o' at d = Inr (Some plan) \<and> wf_plan o' at d plan \<and>
      (approved d \<and> plan_steps plan = [] \<or>
       \<not> approved d \<and> plan_steps plan = steps_for (map blocker_code (blockers d)) \<and>
         (\<forall>b \<in> set (blockers d). blocker_code b = service_running \<longrightarrow>
           blocker_serviceId b \<noteq> None \<and> blocker_serviceId b \<noteq> Some [])))"
proof -
  have create: "createPlanModel o' at d steps = Inr \<lparr>plan_occurrence = o', plannedAt = at, plan_initialDecision = d,
      plan_steps = steps\<rparr>" if "expectedSteps d = Some steps" "distinct steps" for steps
    using that d o' createDecision_value[of d]
    by (simp add: createPlanModel_def create_shutdown_value decision_for_def)
  have wf: "wf_plan o' at d \<lparr>plan_occurrence = o', plannedAt = at, plan_initialDecision = d, plan_steps = steps\<rparr>"
    if "expectedSteps d = Some steps" "distinct steps" for steps
    using create[OF that] by (simp add: wf_plan_def create_plan_again_def)
  show ?thesis
  proof (cases "approved d")
    case True
    then show ?thesis
      using create[of "[]"] wf[of "[]"] by (simp add: createMachineShutdownPreparationPlan_def expectedSteps_def)
  next
    case False
    let ?steps = "steps_for (map blocker_code (blockers d))"
    let ?bad = "\<lambda>b. blocker_code b \<notin> set PREPARABLE \<or>
      blocker_code b = service_running \<and> (blocker_serviceId b = None \<or> blocker_serviceId b = Some [])"
    show ?thesis
    proof (cases "list_ex ?bad (blockers d)")
      case True
      then show ?thesis using False by (simp add: createMachineShutdownPreparationPlan_def)
    next
      case ok: False
      then have "\<not> list_ex (\<lambda>b. \<not> isPreparableBlocker b) (blockers d)"
        by (auto simp: list_ex_iff isPreparableBlocker_def PREPARABLE_def)
      then have e: "expectedSteps d = Some ?steps" "distinct ?steps"
        using False by (simp_all add: expectedSteps_def steps_for_def)
      have "\<forall>b \<in> set (blockers d). blocker_code b = service_running \<longrightarrow>
          blocker_serviceId b \<noteq> None \<and> blocker_serviceId b \<noteq> Some []"
        using ok by (simp add: list_ex_iff)
      then show ?thesis
        using False ok create[OF e] wf[OF e] by (simp add: createMachineShutdownPreparationPlan_def)
    qed
  qed
qed

definition successful_steps :: "preparation_state \<Rightarrow> bool" where
  "successful_steps st \<longleftrightarrow> list_all (\<lambda>s. step_outcome s \<in> {step_completed, step_skipped}) (ps_steps st)"

text \<open>The states between two steps: nothing final yet, every step so far successful.\<close>

definition between ::
  "MachineShutdownOccurrence \<Rightarrow> string \<Rightarrow> MachineShutdownPreparationStep list \<Rightarrow> preparation_state \<Rightarrow> bool" where
  "between o' at kinds st \<longleftrightarrow> prep_inv o' at kinds st \<and> no_final st \<and> ps_events st \<noteq> [] \<and> successful_steps st"

definition action_part :: "MachineShutdownPreparationStep list \<Rightarrow> MachineShutdownPreparationStep list" where
  "action_part ks = filter (\<lambda>k. k \<notin> set recording_steps) ks"

text \<open>What is fixed during a run: the plan is that of the rejected decision, so its last three steps follow the actions.\<close>

definition preparing ::
  "MachineShutdownPreparationPlan \<Rightarrow> MachineShutdownOccurrence \<Rightarrow> string \<Rightarrow> MachineShutdownReadinessDecision \<Rightarrow> bool" where
  "preparing plan o' at initial \<longleftrightarrow>
     wf_shutdown o' \<and> canonical at \<and> wf_plan o' at initial plan \<and> decision_for o' at initial \<and> \<not> approved initial \<and>
     plan_steps plan = steps_for (map blocker_code (blockers initial)) \<and>
     filter (\<lambda>s. s \<noteq> record_preparation_started) (plan_steps plan) =
       action_part (plan_steps plan) @ [record_preparation_completed, reevaluate_readiness, record_final_readiness]"

lemma preparingD:
  assumes "preparing plan o' at initial"
  shows "wf_shutdown o'" and "canonical at" and "wf_plan o' at initial plan" and "decision_for o' at initial"
    and "\<not> approved initial"
    and "filter (\<lambda>s. s \<noteq> record_preparation_started) (plan_steps plan) =
       action_part (plan_steps plan) @ [record_preparation_completed, reevaluate_readiness, record_final_readiness]"
  using assms unfolding preparing_def by blast+

lemma try_step_world: "k \<in> set action_steps \<Longrightarrow> try_step pc o' at initial k w = (x, w') \<Longrightarrow>
    (k = stop_registered_services \<longrightarrow> (\<forall>prepare. pc_services pc = Some prepare \<longrightarrow>
      snd (prepare o' at (running_service_ids initial) w) = w')) \<and>
    (k = drain_active_tasks \<longrightarrow> snd (pc_drain pc o' at w) = w')"
  by (auto simp: try_step_def perform_step_def catchIO_def bindIO_def liftIO_def retIO_def Let_def action_steps_def
      split: prod.splits sum.splits option.splits)

lemma misbehaved:
  assumes "k \<in> set action_steps" and "k \<in> set (plan_steps plan)" and "preparing plan o' at initial"
    and "try_step pc o' at initial k w = (Inr (oc, d), w')"
    and "\<nexists>v. validateDetail k oc (result_detail k oc d) = Inr v"
  shows "unreportable pc o' at initial w'"
proof -
  have planned: "service_running \<in> set (map blocker_code (blockers initial))" if "k = stop_registered_services"
    using assms(2,3) that by (auto simp: preparing_def steps_for_def split: if_split_asm)
  have "k = stop_registered_services \<and> \<not> services_answered pc o' at (running_service_ids initial) w \<or>
      k = drain_active_tasks \<and> \<not> tasks_counted pc o' at w"
    using try_step_valid[OF assms(1), of pc o' at initial w] assms(4,5) by fastforce
  then show ?thesis
    using planned try_step_world[OF assms(1,4)] by (auto simp: unreportable_def split: option.splits)
qed

lemma incomplete:
  assumes run: "preparing plan o' at initial" and "prep_inv o' at kinds st"
    and "kinds @ rest = action_part (plan_steps plan) @
      [record_preparation_completed, reevaluate_readiness, record_final_readiness]"
    and "no_final st" and "\<And>d. final = Some d \<Longrightarrow> decision_for o' at d"
  shows "incomplete_report plan o' at initial st final w =
    (Inr \<lparr>report_occurrence = o', report_processedAt = at, report_initialDecision = initial, report_plan = Some plan,
      report_steps = ps_steps st, report_events = ps_events st, report_finalDecision = final,
      report_outcome = preparation_incomplete\<rparr>, w)"
proof -
  note occurrence = preparingD(1)[OF run] and time = preparingD(2)[OF run] and plan = preparingD(3)[OF run]
    and initial = preparingD(4)[OF run] and not_approved = preparingD(5)[OF run] and plan_shape = preparingD(6)[OF run]
  have nf: "\<not> is_final_event e" if "e \<in> set (ps_events st)" for e
    using assms(4) that by (auto simp: no_final_def filter_empty_conv)
  have "last_event_kind (ps_events st) \<noteq> Some final_readiness_approved"
    using nf[of "last (ps_events st)"] by (auto simp: last_event_kind_def is_final_event_def)
  moreover have "\<not> list_ex (\<lambda>e. event_kind e = final_readiness_rejected) (ps_events st)"
    using nf by (auto simp: list_ex_iff is_final_event_def)
  ultimately have "outcome_consistent preparation_incomplete initial (Some plan) (ps_steps st) (ps_events st) final"
    using not_approved by (simp add: outcome_consistent_def split: option.splits)
  then show ?thesis
    using report_accepted[OF assms(2) occurrence time plan initial not_approved assms(3)[folded plan_shape] assms(5)] assms(4)
    by (simp add: incomplete_report_def liftIO_def no_final_def)
qed

lemma after_event:
  assumes "between o' at kinds st" and "prep_inv o' at kinds st'" and "ps_events st' = ps_events st @ [e]"
    and "event_kind e = k" and "ps_steps st' = ps_steps st" and "k \<noteq> final_readiness_approved" "k \<noteq> final_readiness_rejected"
  shows "between o' at kinds st'"
  using assms by (simp add: between_def no_final_def is_final_event_def successful_steps_def)

lemma report_of_failure:
  assumes run: "preparing plan o' at initial" and inv: "prep_inv o' at kinds st" and nf: "no_final st" and ne: "ps_events st \<noteq> []"
    and prefix: "kinds @ rest = action_part (plan_steps plan) @
      [record_preparation_completed, reevaluate_readiness, record_final_readiness]"
    and final: "\<And>d. final = Some d \<Longrightarrow> decision_for o' at d"
  shows "\<exists>r w'. bindIO (record_event pc o' at preparation_failed d st) (\<lambda>(_, st2).
      incomplete_report plan o' at initial st2 final) w = (Inr r, w') \<and>
    report_outcome r = preparation_incomplete \<and> report_occurrence r = o'"
proof -
  note occurrence = preparingD(1)[OF run] and time = preparingD(2)[OF run] and plan = preparingD(3)[OF run]
    and initial = preparingD(4)[OF run] and not_approved = preparingD(5)[OF run] and plan_shape = preparingD(6)[OF run]
  have first: "ps_events st = [] \<longrightarrow> preparation_failed = preparation_started" using ne by simp
  show ?thesis
  proof (cases rule: record_event_returns[OF inv occurrence first, of pc d w, case_names lost recorded])
    case (lost w')
    then show ?thesis using incomplete[OF run inv prefix nf, of final w'] final by (simp add: bindIO_def)
  next
    case (recorded st' e w')
    have "no_final st'" using nf recorded(3,4) by (simp add: no_final_def is_final_event_def)
    then show ?thesis
      using recorded(1) incomplete[OF run recorded(2) prefix, of final w'] final by (simp add: bindIO_def)
  qed
qed

lemma failed_step:
  assumes run: "preparing plan o' at initial" and "prep_inv o' at kinds st" and "no_final st" and "ps_events st \<noteq> []"
    and "kinds @ rest = action_part (plan_steps plan) @
      [record_preparation_completed, reevaluate_readiness, record_final_readiness]"
  shows "case fst (bindIO (record_event pc o' at preparation_failed d st) (\<lambda>(_, st2).
      bindIO (incomplete_report plan o' at initial st2 None) (\<lambda>r. retIO (Inl r))) w) of
        Inl e \<Rightarrow> False
      | Inr (Inl r) \<Rightarrow> report_outcome r = preparation_incomplete \<and> report_occurrence r = o'
      | Inr (Inr (st' :: preparation_state)) \<Rightarrow> False"
proof -
  obtain r w' where r: "bindIO (record_event pc o' at preparation_failed d st) (\<lambda>(_, st2).
      incomplete_report plan o' at initial st2 None) w = (Inr r, w')"
    and "report_outcome r = preparation_incomplete" "report_occurrence r = o'"
    using report_of_failure[OF assms, of None pc d w] by auto
  moreover have "bindIO (record_event pc o' at preparation_failed d st) (\<lambda>(_, st2).
      bindIO (incomplete_report plan o' at initial st2 None) (\<lambda>r. retIO (Inl r))) w =
    (Inr (Inl r :: MachineShutdownPreparationReport + preparation_state), w')"
    using bindIO_run[of "bindIO (record_event pc o' at preparation_failed d st) (\<lambda>(_, st2).
      incomplete_report plan o' at initial st2 None)" w, OF r, of "\<lambda>r. retIO (Inl r)"]
    unfolding bindIO_assoc by (simp add: split_def retIO_def)
  ultimately show ?thesis by simp
qed

lemma loop_returns:
  assumes run: "preparing plan o' at initial" and "between o' at kinds st" and "kinds @ action_part ks = action_part (plan_steps plan)"
  shows "case fst (preparation_loop pc plan o' at initial ks st w) of
      Inl e \<Rightarrow> unreportable pc o' at initial (snd (preparation_loop pc plan o' at initial ks st w))
    | Inr (Inl r) \<Rightarrow> report_outcome r = preparation_incomplete \<and> report_occurrence r = o'
    | Inr (Inr st') \<Rightarrow> between o' at (action_part (plan_steps plan)) st'"
  using assms(2,3)
proof (induction ks arbitrary: kinds st w)
  case Nil
  then show ?case by (simp add: retIO_def action_part_def)
next
  case (Cons k ks)
  note occurrence = preparingD(1)[OF run] and time = preparingD(2)[OF run] and plan = preparingD(3)[OF run]
    and initial = preparingD(4)[OF run] and not_approved = preparingD(5)[OF run] and plan_shape = preparingD(6)[OF run]
  show ?case
  proof (cases "k \<in> set recording_steps")
    case True
    then have "preparation_loop pc plan o' at initial (k # ks) st w = preparation_loop pc plan o' at initial ks st w" by simp
    moreover have "kinds @ action_part ks = action_part (plan_steps plan)"
      using Cons.prems(2) True by (simp add: action_part_def)
    ultimately show ?thesis using Cons.IH[OF Cons.prems(1), of w] by (simp only:)
  next
    case False
    have prefix: "(kinds @ [k]) @ action_part ks = action_part (plan_steps plan)"
      using Cons.prems(2) False by (simp add: action_part_def)
    then have prefix': "(kinds @ [k]) @ (action_part ks @
        [record_preparation_completed, reevaluate_readiness, record_final_readiness]) =
      action_part (plan_steps plan) @ [record_preparation_completed, reevaluate_readiness, record_final_readiness]"
      by (metis append_assoc)
    have "k \<in> set (action_part (plan_steps plan))" by (simp add: prefix[symmetric])
    then have mem: "k \<in> set (plan_steps plan)" by (simp add: action_part_def)
    obtain oc d w1 where t: "try_step pc o' at initial k w = (Inr (oc, d), w1)"
      by (cases "try_step pc o' at initial k w")
        (auto simp: try_step_def catchIO_def retIO_def split: prod.splits sum.splits)
    note inv = Cons.prems(1)[unfolded between_def]
    show ?thesis
    proof (cases "createMachineShutdownPreparationStepResult k at at oc (Some (result_detail k oc d))")
      case (Inl e)
      have "\<nexists>v. validateDetail k oc (result_detail k oc d) = Inr v"
        using Inl False time by (auto simp: createMachineShutdownPreparationStepResult_def)
      then have "unreportable pc o' at initial w1" using misbehaved[OF _ mem run t] False by (simp add: not_recording)
      then show ?thesis using False t Inl by (simp add: bindIO_def liftIO_def)
    next
      case (Inr step)
      let ?st1 = "st\<lparr>ps_steps := ps_steps st @ [step]\<rparr>"
      have inv1: "prep_inv o' at (kinds @ [k]) ?st1" using prep_inv_step[OF _ Inr] inv by blast
      have st1: "no_final ?st1" "ps_events ?st1 \<noteq> []" using inv by (simp_all add: no_final_def)
      show ?thesis
      proof (cases "oc = step_blocked \<or> oc = step_failed")
        case True
        show ?thesis
          using failed_step[OF run inv1 st1 prefix', of pc "failed_detail k (case d_failureCode d of
              None \<Rightarrow> ''preparation_dependency_failed'' | Some c \<Rightarrow> c)" w1] True False Inr
          by (simp add: bindIO_run[of "try_step pc o' at initial k" w, OF t] Let_def split: sum.splits)
      next
        case ok: False
        then have "between o' at (kinds @ [k]) ?st1"
          using inv inv1 st1 create_step_again(3)[OF Inr]
          by (cases oc) (simp_all add: between_def successful_steps_def)
        have first: "ps_events ?st1 = [] \<longrightarrow> completed_kind k = preparation_started" using st1 by simp
        show ?thesis
        proof (cases rule: record_event_returns[OF inv1 occurrence first, of pc "completed_detail k d" w1,
              case_names lost recorded])
          case (lost w2)
          show ?thesis
            using failed_step[OF run inv1 st1 prefix', of pc "failed_detail k ''event_recording_failed''" w2] False ok Inr
            by (simp add: bindIO_run[of "try_step pc o' at initial k" w, OF t] Let_def
                bindIO_run[of "record_event pc o' at (completed_kind k) (completed_detail k d) ?st1" w1, OF lost]
                split: sum.splits)
        next
          case (recorded st2 e w2)
          have "between o' at (kinds @ [k]) st2"
            by (rule after_event[OF \<open>between o' at (kinds @ [k]) ?st1\<close> recorded(2-5)]) (simp_all add: completed_kind_def)
          note next_step = Cons.IH[OF this prefix, of w2]
          have "preparation_loop pc plan o' at initial (k # ks) st w = preparation_loop pc plan o' at initial ks st2 w2"
            using recorded(1) False ok t Inr by (simp add: bindIO_def liftIO_def Let_def)
          then show ?thesis using next_step by (simp only:)
        qed
      qed
    qed
  qed
qed

text \<open>
  The actions of a plan carried out one after the other between two worlds: each is performed in the
  world the one before left and is completed or finds nothing to do, and the event of its completion
  is recorded before the next one starts. The steps and events are those of the report.
\<close>

fun carried_out ::
  "'w PreparationControllers \<Rightarrow> MachineShutdownOccurrence \<Rightarrow> string \<Rightarrow> MachineShutdownReadinessDecision \<Rightarrow>
     MachineShutdownPreparationStep list \<Rightarrow> MachineShutdownPreparationStepResult list \<Rightarrow>
     MachineShutdownPreparationEvent list \<Rightarrow> 'w \<Rightarrow> 'w \<Rightarrow> bool" where
  "carried_out pc o' at initial [] steps es w w' \<longleftrightarrow> steps = [] \<and> es = [] \<and> w' = w"
| "carried_out pc o' at initial (k # ks) steps es w w' \<longleftrightarrow>
     (\<exists>step steps' e es' oc d v u. steps = step # steps' \<and> es = e # es' \<and>
        perform_step pc o' at initial k w = (Inr (oc, d), v) \<and> oc \<in> {step_completed, step_skipped} \<and>
        step_kind step = k \<and> step_outcome step = oc \<and>
        pc_record pc e v = (Inr (), u) \<and> event_kind e = completed_kind k \<and>
        carried_out pc o' at initial ks steps' es' u w')"

lemma record_event_recorded:
  assumes "record_event pc o' at k d st w = (Inr (True, st'), w')"
  shows "\<exists>e. pc_record pc e w = (Inr (), w') \<and> event_kind e = k \<and> ps_events st' = ps_events st @ [e] \<and> ps_steps st' = ps_steps st"
  using assms
  by (auto simp: record_event_def catchIO_def bindIO_def liftIO_def retIO_def Let_def createMachineShutdownPreparationEvent_def
      split: prod.splits sum.splits if_split_asm)

lemma try_step_performed:
  "try_step pc o' at initial k w = (Inr (oc, d), v) \<Longrightarrow> oc \<noteq> step_failed \<Longrightarrow> perform_step pc o' at initial k w = (Inr (oc, d), v)"
  by (auto simp: try_step_def catchIO_def retIO_def split: prod.splits sum.splits)

lemma loop_carries_out:
  assumes "preparation_loop pc plan o' at initial ks st w = (Inr (Inr st'), w')"
  shows "\<exists>steps es. ps_steps st' = ps_steps st @ steps \<and> ps_events st' = ps_events st @ es \<and>
    carried_out pc o' at initial (action_part ks) steps es w w'"
  using assms
proof (induction ks arbitrary: st w)
  case Nil
  then show ?case by (simp add: retIO_def action_part_def)
next
  case (Cons k ks)
  show ?case
  proof (cases "k \<in> set recording_steps")
    case True
    then show ?thesis using Cons by (simp add: action_part_def)
  next
    case False
    obtain oc d v where t: "try_step pc o' at initial k w = (Inr (oc, d), v)"
      by (cases "try_step pc o' at initial k w")
        (auto simp: try_step_def catchIO_def retIO_def split: prod.splits sum.splits)
    obtain step where step: "createMachineShutdownPreparationStepResult k at at oc (Some (result_detail k oc d)) = Inr step"
      using Cons.prems False t
      by (cases "createMachineShutdownPreparationStepResult k at at oc (Some (result_detail k oc d))")
        (simp_all add: bindIO_def liftIO_def)
    let ?st1 = "st\<lparr>ps_steps := ps_steps st @ [step]\<rparr>"
    have ok: "oc \<in> {step_completed, step_skipped}"
      using Cons.prems False t step
      by (cases oc) (auto simp: bindIO_def liftIO_def retIO_def Let_def split: prod.splits sum.splits)
    obtain st2 u where rec: "record_event pc o' at (completed_kind k) (completed_detail k d) ?st1 v = (Inr (True, st2), u)"
      and rest: "preparation_loop pc plan o' at initial ks st2 u = (Inr (Inr st'), w')"
      using Cons.prems False t step ok
      by (auto simp: bindIO_def liftIO_def retIO_def Let_def split: prod.splits sum.splits if_split_asm)
    obtain e where e: "pc_record pc e v = (Inr (), u)" "event_kind e = completed_kind k"
        "ps_events st2 = ps_events st @ [e]" "ps_steps st2 = ps_steps st @ [step]"
      using record_event_recorded[OF rec] by auto
    obtain steps es where parts: "ps_steps st' = ps_steps st2 @ steps" "ps_events st' = ps_events st2 @ es"
        "carried_out pc o' at initial (action_part ks) steps es u w'"
      using Cons.IH[OF rest] by blast
    have acts: "action_part (k # ks) = k # action_part ks" using False by (simp add: action_part_def)
    have "perform_step pc o' at initial k w = (Inr (oc, d), v)" using try_step_performed[OF t] ok by auto
    moreover have "step_kind step = k" "step_outcome step = oc" using create_step_again[OF step] by simp_all
    ultimately have "carried_out pc o' at initial (action_part (k # ks)) (step # steps) (e # es) w w'"
      unfolding acts using e(1,2) parts(3) ok by auto
    then show ?thesis using parts e(3,4) by (intro exI[of _ "step # steps"] exI[of _ "e # es"]) simp
  qed
qed

lemma push_returns:
  assumes run: "preparing plan o' at initial" and "prep_inv o' at kinds st"
  obtains st' where "push_step k at st = Inr st'" and "prep_inv o' at (kinds @ [k]) st'"
    and "ps_events st' = ps_events st" and "successful_steps st \<longrightarrow> successful_steps st'"
    and "\<exists>step. ps_steps st' = ps_steps st @ [step]"
proof -
  note occurrence = preparingD(1)[OF run] and time = preparingD(2)[OF run] and plan = preparingD(3)[OF run]
    and initial = preparingD(4)[OF run] and not_approved = preparingD(5)[OF run] and plan_shape = preparingD(6)[OF run]
  obtain step where step: "createMachineShutdownPreparationStepResult k at at step_completed None = Inr step"
    using time by (simp add: createMachineShutdownPreparationStepResult_def)
  show thesis
    by (rule that[of "st\<lparr>ps_steps := ps_steps st @ [step]\<rparr>"])
      (use step prep_inv_step[OF assms(2) step] create_step_again(3)[OF step] in
        \<open>simp_all add: push_step_def successful_steps_def\<close>)
qed

text \<open>
  How a preparation ends well: its completion is recorded, the readiness is evaluated anew in the world
  this leaves, and the approval is recorded.
\<close>

definition final_part ::
  "'w PreparationControllers \<Rightarrow> ('w, MachineShutdownReadinessDecision) io \<Rightarrow> MachineShutdownPreparationReport \<Rightarrow>
     MachineShutdownPreparationStepResult list \<Rightarrow> MachineShutdownPreparationEvent list \<Rightarrow> 'w \<Rightarrow> 'w \<Rightarrow> bool" where
  "final_part pc evaluate r steps es w w' \<longleftrightarrow>
     (\<exists>e1 e2 d final w1 w2.
        pc_record pc e1 w = (Inr (), w1) \<and> event_kind e1 = preparation_completed \<and>
        evaluate w1 = (Inr d, w2) \<and> approved d \<and> report_finalDecision r = Some d \<and>
        pc_record pc e2 w2 = (Inr (), w') \<and> event_kind e2 = final_readiness_approved \<and>
        report_events r = es @ [e1, e2] \<and> report_steps r = steps @ final \<and>
        map step_kind final = [record_preparation_completed, reevaluate_readiness, record_final_readiness])"

text \<open>What a report of a completed preparation shows, between the worlds before and after the run.\<close>

definition prepared_report ::
  "'w PreparationControllers \<Rightarrow> ('w, MachineShutdownReadinessDecision) io \<Rightarrow> MachineShutdownPreparationPlan \<Rightarrow>
     MachineShutdownOccurrence \<Rightarrow> string \<Rightarrow> MachineShutdownReadinessDecision \<Rightarrow> MachineShutdownPreparationReport \<Rightarrow>
     'w \<Rightarrow> 'w \<Rightarrow> bool" where
  "prepared_report pc evaluate plan o' at initial r w w' \<longleftrightarrow>
     report_plan r = Some plan \<and> report_initialDecision r = initial \<and>
     list_all (\<lambda>s. step_outcome s \<in> {step_completed, step_skipped}) (report_steps r) \<and>
     map event_sequence (report_events r) = map (\<lambda>i. int i + 1) [0..<length (report_events r)] \<and>
     (\<exists>e0 steps es w0 w1.
        pc_record pc e0 w = (Inr (), w0) \<and> event_kind e0 = preparation_started \<and>
        carried_out pc o' at initial (action_part (plan_steps plan)) steps es w0 w1 \<and>
        final_part pc evaluate r steps (e0 # es) w1 w')"

lemma finish_returns:
  assumes run: "preparing plan o' at initial" and between: "between o' at (action_part (plan_steps plan)) st"
    and evaluate: "\<forall>w. \<exists>d w'. evaluate w = (Inr d, w') \<and> decision_for o' at d"
  shows "\<exists>r w'. preparation_finish pc evaluate plan o' at initial st w = (Inr r, w') \<and> report_occurrence r = o' \<and>
    (report_outcome r = preparation_incomplete \<or> report_outcome r = preparation_prepared \<and>
      report_plan r = Some plan \<and> report_initialDecision r = initial \<and>
      list_all (\<lambda>s. step_outcome s \<in> {step_completed, step_skipped}) (report_steps r) \<and>
      map event_sequence (report_events r) = map (\<lambda>i. int i + 1) [0..<length (report_events r)] \<and>
      final_part pc evaluate r (ps_steps st) (ps_events st) w w')"
proof -
  note occurrence = preparingD(1)[OF run] and time = preparingD(2)[OF run] and plan = preparingD(3)[OF run]
    and initial = preparingD(4)[OF run] and not_approved = preparingD(5)[OF run] and plan_shape = preparingD(6)[OF run]
  let ?acts = "action_part (plan_steps plan)"
  note inv = between[unfolded between_def]
  obtain st1 where st1: "push_step record_preparation_completed at st = Inr st1"
      "prep_inv o' at (?acts @ [record_preparation_completed]) st1" "ps_events st1 = ps_events st" "successful_steps st1"
      "\<exists>step. ps_steps st1 = ps_steps st @ [step]"
    using push_returns[OF run, of ?acts st record_preparation_completed] inv by blast
  have nf1: "no_final st1" and first1: "ps_events st1 = [] \<longrightarrow> preparation_completed = preparation_started"
    using inv st1(3) by (simp_all add: no_final_def)
  have pre1: "(?acts @ [record_preparation_completed]) @ [reevaluate_readiness, record_final_readiness] =
      ?acts @ [record_preparation_completed, reevaluate_readiness, record_final_readiness]" by simp
  have pre2: "(?acts @ [record_preparation_completed, reevaluate_readiness]) @ [record_final_readiness] =
      ?acts @ [record_preparation_completed, reevaluate_readiness, record_final_readiness]" by simp
  show ?thesis
  proof (cases rule: record_event_returns[OF st1(2) occurrence first1, of pc no_detail w, case_names lost recorded])
    case (lost w1)
    then show ?thesis
      using incomplete[OF run st1(2) pre1 nf1, of None w1] by (simp add: preparation_finish_def st1(1) bindIO_run)
  next
    case (recorded st2 e w1)
    have st2: "no_final st2" "ps_events st2 \<noteq> []" "successful_steps st2"
      using nf1 recorded(3-5) st1(4) by (simp_all add: no_final_def is_final_event_def successful_steps_def)
    obtain d w2 where d: "evaluate w1 = (Inr d, w2)" "decision_for o' at d" using evaluate by blast
    obtain st3 where st3: "push_step reevaluate_readiness at st2 = Inr st3"
        "prep_inv o' at (?acts @ [record_preparation_completed, reevaluate_readiness]) st3"
        "ps_events st3 = ps_events st2" "successful_steps st3" "\<exists>step. ps_steps st3 = ps_steps st2 @ [step]"
      using push_returns[OF run recorded(2), of reevaluate_readiness] st2(3) by (metis append_assoc append_Cons append_Nil)
    have nf3: "no_final st3" "ps_events st3 \<noteq> []" using st2 st3(3) by (simp_all add: no_final_def)
    define kd where "kd = (if approved d then final_readiness_approved else final_readiness_rejected)"
    have first3: "ps_events st3 = [] \<longrightarrow> kd = preparation_started" using nf3 by simp
    note exec = preparation_finish_def st1(1) st3(1) bindIO_run[of "record_event pc o' at preparation_completed no_detail st1" w, OF recorded(1)] bindIO_run[of evaluate w1, OF d(1)]
      kd_def[symmetric]
    show ?thesis
    proof (cases rule: record_event_returns[OF st3(2) occurrence first3, of pc "final_detail d" w2, case_names lost recorded])
      case (lost w3)
      then show ?thesis
        using report_of_failure[OF run st3(2) nf3 pre2, of "Some d" pc "failed_detail record_final_readiness ''event_recording_failed''" w3] d(2)
        by (auto simp: exec bindIO_run[of "record_event pc o' at kd (final_detail d) st3" w2, OF lost])
    next
      case final: (recorded st4 e' w3)
      have s4: "successful_steps st4" using st3(4) final(5) by (simp add: successful_steps_def)
      obtain st5 where st5: "push_step record_final_readiness at st4 = Inr st5"
          "prep_inv o' at (?acts @ [record_preparation_completed, reevaluate_readiness, record_final_readiness]) st5"
          "ps_events st5 = ps_events st4" "successful_steps st5" "\<exists>step. ps_steps st5 = ps_steps st4 @ [step]"
        using push_returns[OF run final(2), of record_final_readiness] s4 by (metis append_assoc append_Cons append_Nil)
      have count: "length (filter is_final_event (ps_events st5)) \<le> 1"
        using nf3(1) by (simp add: st5(3) final(3) no_final_def)
      have last: "last_event_kind (ps_events st5) = Some kd" by (simp add: st5(3) final(3,4) last_event_kind_def)
      have steps5: "map step_kind (ps_steps st5) =
          ?acts @ [record_preparation_completed, reevaluate_readiness, record_final_readiness]"
        using st5(2) by (simp add: prep_inv_def)
      then have "last (map step_kind (ps_steps st5)) = record_final_readiness" "ps_steps st5 \<noteq> []" by auto
      then have last_step: "last_step_kind (ps_steps st5) = Some record_final_readiness"
        by (simp add: last_step_kind_def last_map)
      define oc where "oc = (if approved d then preparation_prepared else preparation_incomplete)"
      have "outcome_consistent oc initial (Some plan) (ps_steps st5) (ps_events st5) (Some d)"
        using not_approved last last_step by (simp add: outcome_consistent_def oc_def kd_def)
      then have rep: "createMachineShutdownPreparationReport o' at initial (Some plan) (ps_steps st5) (ps_events st5)
          (Some d) oc = Inr \<lparr>report_occurrence = o', report_processedAt = at, report_initialDecision = initial,
            report_plan = Some plan, report_steps = ps_steps st5, report_events = ps_events st5,
            report_finalDecision = Some d, report_outcome = oc\<rparr>"
        using d(2) count
        by (intro report_accepted[OF st5(2) occurrence time plan initial not_approved, where rest = "[]"])
          (simp_all add: plan_shape)
      have numbers: "map event_sequence (ps_events st5) = map (\<lambda>i. int i + 1) [0..<length (ps_events st5)]"
        using st5(2) by (simp add: prep_inv_def)
      obtain s1 s2 s3 where parts: "ps_steps st5 = ps_steps st @ [s1, s2, s3]"
        using st1(5) st3(5) st5(5) recorded(5) final(5) by auto
      have "map step_kind [s1, s2, s3] = [record_preparation_completed, reevaluate_readiness, record_final_readiness]"
        using steps5 inv by (simp add: parts prep_inv_def)
      moreover have "ps_events st5 = ps_events st @ [e, e']" using st1(3) st3(3) st5(3) recorded(3) final(3) by simp
      ultimately have part: "kd = final_readiness_approved \<Longrightarrow> approved d \<Longrightarrow> report_finalDecision r = Some d \<Longrightarrow>
          report_events r = ps_events st5 \<Longrightarrow> report_steps r = ps_steps st5 \<Longrightarrow>
          final_part pc evaluate r (ps_steps st) (ps_events st) w w3" for r
        using recorded(4,6) final(4,6) d(1) unfolding final_part_def parts
        by (intro exI[of _ e] exI[of _ e'] exI[of _ d] exI[of _ "[s1, s2, s3]"] exI[of _ w1] exI[of _ w2]) simp
      have "preparation_finish pc evaluate plan o' at initial st w =
          (createMachineShutdownPreparationReport o' at initial (Some plan) (ps_steps st5) (ps_events st5) (Some d) oc, w3)"
        by (simp add: exec bindIO_run[of "record_event pc o' at kd (final_detail d) st3" w2, OF final(1)] st5(1)
            oc_def[symmetric])
      then show ?thesis
        using st5(4) part numbers unfolding rep by (auto simp: oc_def kd_def successful_steps_def)
    qed
  qed
qed

lemma steps_for_parts:
  "action_part (steps_for codes) = filter (\<lambda>k. k \<in> set action_steps) (steps_for codes)"
  "filter (\<lambda>s. s \<noteq> record_preparation_started) (steps_for codes) =
     action_part (steps_for codes) @ [record_preparation_completed, reevaluate_readiness, record_final_readiness]"
  by (simp_all add: action_part_def steps_for_def recording_steps_def action_steps_def)

lemma run_returns:
  assumes run: "preparing plan o' at initial"
    and evaluate: "\<forall>w. \<exists>d w'. evaluate w = (Inr d, w') \<and> decision_for o' at d"
  shows "case fst (run_preparation pc evaluate plan o' at initial w) of
      Inl e \<Rightarrow> unreportable pc o' at initial (snd (run_preparation pc evaluate plan o' at initial w))
    | Inr r \<Rightarrow> report_occurrence r = o' \<and> (report_outcome r = preparation_incomplete \<or>
        report_outcome r = preparation_prepared \<and>
          prepared_report pc evaluate plan o' at initial r w (snd (run_preparation pc evaluate plan o' at initial w)))"
proof (cases rule: record_event_returns[OF prep_inv_start(1)[of o' at] preparingD(1)[OF run],
      of preparation_started pc no_detail w, case_names start lost recorded])
  case start
  show ?case by simp
next
  case (lost w1)
  then show ?thesis
    using incomplete[OF run prep_inv_start(1), of "action_part (plan_steps plan) @ _" None w1] prep_inv_start(2)
    by (simp add: run_preparation_def bindIO_run)
next
  case (recorded st e w1)
  have "no_final st" "ps_events st \<noteq> []" "successful_steps st"
    using recorded(3-5) by (simp_all add: preparation_start_def no_final_def is_final_event_def successful_steps_def)
  then have b: "between o' at [] st" using recorded(2) by (simp add: between_def)
  have loop: "case fst (preparation_loop pc plan o' at initial (plan_steps plan) st w1) of
      Inl e \<Rightarrow> unreportable pc o' at initial (snd (preparation_loop pc plan o' at initial (plan_steps plan) st w1))
    | Inr (Inl r) \<Rightarrow> report_outcome r = preparation_incomplete \<and> report_occurrence r = o'
    | Inr (Inr st') \<Rightarrow> between o' at (action_part (plan_steps plan)) st'"
    by (rule loop_returns[OF run b]) simp
  obtain x w2 where x: "preparation_loop pc plan o' at initial (plan_steps plan) st w1 = (x, w2)"
    by (cases "preparation_loop pc plan o' at initial (plan_steps plan) st w1")
  show ?thesis
  proof (cases x)
    case (Inl e)
    then show ?thesis using loop x recorded(1) by (simp add: run_preparation_def bindIO_def)
  next
    case (Inr y)
    show ?thesis
    proof (cases y)
      case (Inl r)
      then show ?thesis using Inr loop x recorded(1) by (simp add: run_preparation_def bindIO_def retIO_def)
    next
      case st': (Inr st')
      then have "between o' at (action_part (plan_steps plan)) st'" using Inr loop x by simp
      then obtain r w3 where r: "preparation_finish pc evaluate plan o' at initial st' w2 = (Inr r, w3)"
          "report_occurrence r = o'" "report_outcome r = preparation_incomplete \<or> report_outcome r = preparation_prepared \<and>
            report_plan r = Some plan \<and> report_initialDecision r = initial \<and>
            list_all (\<lambda>s. step_outcome s \<in> {step_completed, step_skipped}) (report_steps r) \<and>
            map event_sequence (report_events r) = map (\<lambda>i. int i + 1) [0..<length (report_events r)] \<and>
            final_part pc evaluate r (ps_steps st') (ps_events st') w2 w3"
        using finish_returns[OF run _ evaluate, of st' pc w2] by blast
      obtain steps es where parts: "ps_steps st' = steps" "ps_events st' = e # es"
          "carried_out pc o' at initial (action_part (plan_steps plan)) steps es w1 w2"
        using loop_carries_out[of pc plan o' at initial "plan_steps plan" st w1 st' w2] x Inr st' recorded(3,5)
        by (auto simp: preparation_start_def)
      have "report_outcome r = preparation_incomplete \<or> report_outcome r = preparation_prepared \<and>
          prepared_report pc evaluate plan o' at initial r w w3"
        using r(3) parts(3) recorded(4,6) unfolding prepared_report_def parts(1,2) by blast
      then show ?thesis using Inr st' x recorded(1) r(1,2) by (simp add: run_preparation_def bindIO_def)
    qed
  qed
qed

section \<open>Properties\<close>

text \<open>Where the decision comes from that a preparation starts with.\<close>

definition initial_decision ::
  "MachineShutdownReadinessDecision option \<Rightarrow> ('w, MachineShutdownReadinessDecision) io \<Rightarrow>
     MachineShutdownReadinessDecision \<Rightarrow> 'w \<Rightarrow> 'w \<Rightarrow> bool" where
  "initial_decision supplied evaluate d w w' \<longleftrightarrow>
     (case supplied of None \<Rightarrow> evaluate w = (Inr d, w') | Some d' \<Rightarrow> d = d' \<and> w' = w)"

text \<open>Everything that \<open>prepareAt\<close> can answer, for a decision on this occurrence at this time.\<close>

definition preparation_answer ::
  "'w PreparationControllers \<Rightarrow> ('w, MachineShutdownReadinessDecision) io \<Rightarrow> MachineShutdownOccurrence \<Rightarrow> string \<Rightarrow>
     MachineShutdownReadinessDecision \<Rightarrow> MachineShutdownPreparationReport \<Rightarrow> 'w \<Rightarrow> 'w \<Rightarrow> bool" where
  "preparation_answer pc evaluate o' at initial r w0 w' \<longleftrightarrow>
     report_occurrence r = o' \<and> (report_outcome r = preparation_incomplete \<or> report_initialDecision r = initial) \<and>
     (case report_outcome r of
        preparation_blocked \<Rightarrow> \<not> approved initial \<and> w' = w0
      | preparation_not_required \<Rightarrow> approved initial \<and> report_steps r = [] \<and> report_events r = [] \<and> w' = w0
      | preparation_incomplete \<Rightarrow> True
      | preparation_prepared \<Rightarrow> \<not> approved initial \<and>
          (\<exists>plan. createMachineShutdownPreparationPlan o' at initial = Inr (Some plan) \<and>
            plan_steps plan = steps_for (map blocker_code (blockers initial)) \<and>
            prepared_report pc evaluate plan o' at initial r w0 w'))"

lemma prepared_report_start: "prepared_report pc evaluate plan o' at d r w w' \<Longrightarrow> report_initialDecision r = d"
  by (simp add: prepared_report_def)

lemma prepareAt_answers:
  assumes o': "createMachineShutdownOccurrence input = Inr o'" and at: "canonical at"
    and supplied: "\<forall>d. supplied = Some d \<longrightarrow> decision_for o' at d"
  shows "\<exists>d w0. initial_decision supplied (evaluateAt readers (shutdown_value o') at confirmation) d w w0 \<and>
    decision_for o' at d \<and>
    (case fst (prepareAt pc readers input at supplied confirmation w) of
      Inl e \<Rightarrow> unreportable pc o' at d (snd (prepareAt pc readers input at supplied confirmation w))
    | Inr r \<Rightarrow> preparation_answer pc (evaluateAt readers (shutdown_value o') at confirmation) o' at d r w0
        (snd (prepareAt pc readers input at supplied confirmation w)))"
proof -
  let ?evaluate = "evaluateAt readers (shutdown_value o') at confirmation"
  have wf: "wf_shutdown o'" by (rule createMachineShutdownOccurrence_wf[OF o'])
  have evaluate: "\<forall>w. \<exists>d w'. ?evaluate w = (Inr d, w') \<and> decision_for o' at d"
  proof
    fix w
    obtain d where "fst (?evaluate w) = Inr d" "wf_decision d" "decision_occurrence d = o'" "decision_evaluatedAt d = at"
      using evaluateAt_decides[OF create_shutdown_value[OF wf] at, of readers confirmation w] by (elim exE conjE) (rule that)
    then show "\<exists>d w'. ?evaluate w = (Inr d, w') \<and> decision_for o' at d"
      by (intro exI[of _ d] exI[of _ "snd (?evaluate w)"]) (simp add: decision_for_def prod_eq_iff)
  qed
  obtain d w1 where d: "(case supplied of None \<Rightarrow> ?evaluate | Some d \<Rightarrow> retIO d) w = (Inr d, w1)" "decision_for o' at d"
    using spec[OF evaluate, of w] supplied by (cases supplied) (auto simp: retIO_def)
  have init: "createMachineShutdownReadinessDecision (decision_value d) = Inr d"
    using d(2) createDecision_value by (simp add: decision_for_def)
  have same: "isSameMachineShutdownOccurrence o' (decision_occurrence d)" "decision_evaluatedAt d = at"
    using d(2) by (simp_all add: decision_for_def isSameMachineShutdownOccurrence_def)
  have initial: "initial_decision supplied ?evaluate d w w1"
    using d(1) by (auto simp: initial_decision_def retIO_def split: option.splits)
  let ?run = "prepareAt pc readers input at supplied confirmation w"
  have "case fst ?run of Inl e \<Rightarrow> unreportable pc o' at d (snd ?run)
    | Inr r \<Rightarrow> preparation_answer pc ?evaluate o' at d r w1 (snd ?run)"
  proof -
  note start = prepareAt_def o' bindIO_lift Let_def
    bindIO_run[of "case supplied of None \<Rightarrow> ?evaluate | Some d \<Rightarrow> retIO d" w, OF d(1)]
  consider (blocked) "createMachineShutdownPreparationPlan o' at d = Inr None" "\<not> approved d"
    | (empty) plan where "createMachineShutdownPreparationPlan o' at d = Inr (Some plan)" "wf_plan o' at d plan"
        "approved d" "plan_steps plan = []"
    | (run) plan where "createMachineShutdownPreparationPlan o' at d = Inr (Some plan)" "wf_plan o' at d plan"
        "\<not> approved d" "plan_steps plan = steps_for (map blocker_code (blockers d))"
        "\<forall>b \<in> set (blockers d). blocker_code b = service_running \<longrightarrow>
           blocker_serviceId b \<noteq> None \<and> blocker_serviceId b \<noteq> Some []"
    using plan_created[OF wf at d(2)] by (elim disjE exE conjE) blast+
  then show ?thesis
  proof cases
    case blocked
    have "createMachineShutdownPreparationReport o' at d None [] [] None preparation_blocked =
        Inr \<lparr>report_occurrence = o', report_processedAt = at, report_initialDecision = d, report_plan = None,
          report_steps = [], report_events = [], report_finalDecision = None, report_outcome = preparation_blocked\<rparr>"
      using blocked(2) same at
      by (simp add: createMachineShutdownPreparationReport_def create_shutdown_value[OF wf] init report_consistent_def
          validateEvents_def validateSteps_def outcome_consistent_def Let_def)
    then show ?thesis using blocked by (simp add: start liftIO_app preparation_answer_def)
  next
    case empty
    have "create_plan_again plan = Inr plan" "plan_occurrence plan = o'" "plannedAt plan = at" "plan_initialDecision plan = d"
      using empty(2) by (simp_all add: wf_plan_def)
    then have "createMachineShutdownPreparationReport o' at d (Some plan) [] [] None preparation_not_required =
        Inr \<lparr>report_occurrence = o', report_processedAt = at, report_initialDecision = d, report_plan = Some plan,
          report_steps = [], report_events = [], report_finalDecision = None, report_outcome = preparation_not_required\<rparr>"
      using empty(3,4) same at
      by (simp add: createMachineShutdownPreparationReport_def create_shutdown_value[OF wf] init report_consistent_def
          validateEvents_def validateSteps_def outcome_consistent_def isSameMachineShutdownOccurrence_def Let_def)
    then show ?thesis using empty by (simp add: start liftIO_app preparation_answer_def)
  next
    case run
    have "preparing plan o' at d"
      using wf at run(2,3) d(2) steps_for_parts(2) by (simp add: preparing_def run(4))
    note answer = run_returns[OF this evaluate, of pc w1]
    have eq: "prepareAt pc readers input at supplied confirmation w = run_preparation pc ?evaluate plan o' at d w1"
      using run(1) by (simp add: start run(4) steps_for_def)
    show ?thesis
      using answer run(1,3,4) unfolding eq
      by (cases "fst (run_preparation pc ?evaluate plan o' at d w1)") (auto simp: preparation_answer_def dest: prepared_report_start)
  qed
  qed
  then show ?thesis using initial d(2) by blast
qed

lemma carried_out_kinds: "carried_out pc o' at initial ks steps es w w' \<Longrightarrow> map step_kind steps = ks"
  by (induction ks arbitrary: steps es w) auto

text \<open>
  C8. A machine that was prepared is ready. If the preparation answers \<open>prepared\<close>, its report shows the plan
  made from the decision it started with, and this is what happened between the worlds before and after
  it: the start was recorded, every action of the plan was performed in the plan's order, each in the
  world the one before left, was completed or found nothing to do and was recorded, then the completion
  was recorded, the readiness was evaluated anew in the world after all of this and approved the
  shutdown, and the approval was recorded. The results of the steps are the rest of the plan in order,
  and the events are numbered from one without gaps.
\<close>

theorem prepared_is_ready:
  assumes "createMachineShutdownOccurrence input = Inr o'" and "canonical at"
    and "\<forall>d. supplied = Some d \<longrightarrow> decision_for o' at d"
    and "prepareAt pc readers input at supplied confirmation w = (Inr r, w')"
    and "report_outcome r = preparation_prepared"
  shows "\<exists>plan w0 e0 w1 steps es w2 e1 w3 d w4 e2.
    initial_decision supplied (evaluateAt readers (shutdown_value o') at confirmation) (report_initialDecision r) w w0 \<and>
    createMachineShutdownPreparationPlan o' at (report_initialDecision r) = Inr (Some plan) \<and> report_plan r = Some plan \<and>
    pc_record pc e0 w0 = (Inr (), w1) \<and> event_kind e0 = preparation_started \<and>
    carried_out pc o' at (report_initialDecision r) (filter (\<lambda>k. k \<in> set action_steps) (plan_steps plan)) steps es w1 w2 \<and>
    pc_record pc e1 w2 = (Inr (), w3) \<and> event_kind e1 = preparation_completed \<and>
    evaluateAt readers (shutdown_value o') at confirmation w3 = (Inr d, w4) \<and> approved d \<and>
    report_finalDecision r = Some d \<and>
    pc_record pc e2 w4 = (Inr (), w') \<and> event_kind e2 = final_readiness_approved \<and>
    report_events r = e0 # es @ [e1, e2] \<and> take (length steps) (report_steps r) = steps \<and>
    map step_kind (report_steps r) = filter (\<lambda>k. k \<noteq> record_preparation_started) (plan_steps plan) \<and>
    list_all (\<lambda>s. step_outcome s \<in> {step_completed, step_skipped}) (report_steps r) \<and>
    map event_sequence (report_events r) = map (\<lambda>i. int i + 1) [0..<length (report_events r)]"
proof -
  let ?evaluate = "evaluateAt readers (shutdown_value o') at confirmation"
  obtain d0 w0 where start: "initial_decision supplied ?evaluate d0 w w0" and "preparation_answer pc ?evaluate o' at d0 r w0 w'"
    using prepareAt_answers[OF assms(1-3), of readers confirmation w pc] unfolding assms(4) fst_conv snd_conv by auto
  then obtain plan where plan: "createMachineShutdownPreparationPlan o' at d0 = Inr (Some plan)"
      "plan_steps plan = steps_for (map blocker_code (blockers d0))"
    and "prepared_report pc ?evaluate plan o' at d0 r w0 w'"
    using assms(5) by (auto simp: preparation_answer_def)
  then obtain e0 steps es w1 w2 where r: "report_plan r = Some plan" "report_initialDecision r = d0"
      "list_all (\<lambda>s. step_outcome s \<in> {step_completed, step_skipped}) (report_steps r)"
      "map event_sequence (report_events r) = map (\<lambda>i. int i + 1) [0..<length (report_events r)]"
    and run: "pc_record pc e0 w0 = (Inr (), w1)" "event_kind e0 = preparation_started"
      "carried_out pc o' at d0 (action_part (plan_steps plan)) steps es w1 w2"
      "final_part pc ?evaluate r steps (e0 # es) w2 w'"
    unfolding prepared_report_def by blast
  note parts = steps_for_parts[of "map blocker_code (blockers d0)", folded plan(2)]
  from run(4) obtain e1 e2 d final w3 w4 where f: "pc_record pc e1 w2 = (Inr (), w3)" "event_kind e1 = preparation_completed"
      "?evaluate w3 = (Inr d, w4)" "approved d" "report_finalDecision r = Some d" "pc_record pc e2 w4 = (Inr (), w')"
      "event_kind e2 = final_readiness_approved" "report_events r = e0 # es @ [e1, e2]" "report_steps r = steps @ final"
      "map step_kind final = [record_preparation_completed, reevaluate_readiness, record_final_readiness]"
    unfolding final_part_def by auto
  have "map step_kind (report_steps r) = filter (\<lambda>k. k \<noteq> record_preparation_started) (plan_steps plan)"
    using carried_out_kinds[OF run(3)] f(10) by (simp add: f(9) parts(2))
  moreover have "take (length steps) (report_steps r) = steps" by (simp add: f(9))
  ultimately show ?thesis
    using start plan(1) r run(1,2) run(3)[unfolded parts(1)] f(1-8) unfolding r(2) by blast
qed

text \<open>
  C12. Preparation always reports, whatever fails (a controller that throws, an event that cannot be
  recorded, at any step), with one exception: it throws only if services of the decision still run and
  their controller is missing, throws or answers something invalid, or if active tasks remain without
  a valid count, and then this call was the last thing that happened. So the reports it builds pass their
  own validation. Blocked and not required preparations do nothing.
\<close>

theorem preparation_always_reports:
  assumes "createMachineShutdownOccurrence input = Inr o'" and "canonical at"
    and "\<forall>d. supplied = Some d \<longrightarrow> decision_for o' at d"
    and "prepareAt pc readers input at supplied confirmation w = (answer, w')"
  shows "\<exists>d w0. initial_decision supplied (evaluateAt readers (shutdown_value o') at confirmation) d w w0 \<and>
    (case answer of
       Inl e \<Rightarrow> unreportable pc o' at d w'
     | Inr r \<Rightarrow> report_occurrence r = o' \<and>
         (report_outcome r = preparation_not_required \<longrightarrow>
            approved d \<and> report_steps r = [] \<and> report_events r = [] \<and> w' = w0) \<and>
         (report_outcome r = preparation_blocked \<longrightarrow> \<not> approved d \<and> w' = w0))"
proof -
  let ?evaluate = "evaluateAt readers (shutdown_value o') at confirmation"
  obtain d w0 where start: "initial_decision supplied ?evaluate d w w0"
    and "case answer of Inl e \<Rightarrow> unreportable pc o' at d w' | Inr r \<Rightarrow> preparation_answer pc ?evaluate o' at d r w0 w'"
    using prepareAt_answers[OF assms(1-3), of readers confirmation w pc] unfolding assms(4) fst_conv snd_conv by blast
  then show ?thesis
    by (intro exI[of _ d] exI[of _ w0] conjI) (auto simp: preparation_answer_def split: sum.splits)
qed

text \<open>
  A service controller that throws makes the preparation throw, too, instead of reporting an
  incomplete preparation: the step result is built without service steps, which its own constructor
  rejects, so no \<open>preparation_failed\<close> event is recorded after the start of the preparation was.
\<close>

theorem failing_service_controller_throws:
  assumes "createMachineShutdownOccurrence input = Inr o'" and "canonical at" and "decision_for o' at d"
    and "createMachineShutdownPreparationPlan o' at d = Inr (Some plan)"
    and "service_running \<in> set (map blocker_code (blockers d))"
    and "record_event pc o' at preparation_started no_detail preparation_start w = (Inr (True, st), w1)"
    and "pc_services pc = Some prepare" and "prepare o' at (running_service_ids d) w1 = (Inl e, w2)"
  shows "prepareAt pc readers input at (Some d) confirmation w =
    (Inl (PlainError ''Invalid machine shutdown service preparation steps''), w2)"
proof -
  have wf: "wf_shutdown o'" by (rule createMachineShutdownOccurrence_wf[OF assms(1)])
  have na: "\<not> approved d" using assms(3,5) by (auto simp: decision_for_def wf_decision_def)
  then have plan: "plan_steps plan = steps_for (map blocker_code (blockers d))"
    using plan_created[OF wf assms(2,3)] assms(4) by auto
  define rest where "rest = tl (tl (plan_steps plan))"
  have steps: "plan_steps plan = record_preparation_started # stop_registered_services # rest"
    using assms(5) by (simp add: rest_def plan steps_for_def)
  have "try_step pc o' at d stop_registered_services w1 =
      (Inr (step_failed, no_detail\<lparr>d_failureCode := Some ''preparation_dependency_failed''\<rparr>), w2)"
    using assms(7,8) by (simp add: try_step_def perform_step_def catchIO_def bindIO_def retIO_def Let_def)
  note t = bindIO_run[of "try_step pc o' at d stop_registered_services" w1, OF this]
  have rejected: "createMachineShutdownPreparationStepResult stop_registered_services at at step_failed
      (Some (result_detail stop_registered_services step_failed
         (no_detail\<lparr>d_failureCode := Some ''preparation_dependency_failed''\<rparr>))) =
    Inl (PlainError ''Invalid machine shutdown service preparation steps'')"
    using assms(2) canonical_2026
    by (simp add: createMachineShutdownPreparationStepResult_def validateDetail_def validate_service_detail_def
        result_detail_def createMachineShutdownServicePreparationResult_def)
  have loop: "preparation_loop pc plan o' at d (plan_steps plan) st w1 =
      (Inl (PlainError ''Invalid machine shutdown service preparation steps''), w2)"
    by (simp add: steps recording_steps_def t rejected) (simp add: bindIO_def liftIO_app)
  have "run_preparation pc (evaluateAt readers (shutdown_value o') at confirmation) plan o' at d w =
      (Inl (PlainError ''Invalid machine shutdown service preparation steps''), w2)"
    unfolding run_preparation_def
    by (simp add: bindIO_run[of "record_event pc o' at preparation_started no_detail preparation_start" w, OF assms(6)])
      (simp add: bindIO_def loop)
  then show ?thesis using assms(1,4) by (simp add: prepareAt_def Let_def steps)
qed

section \<open>A sample preparation\<close>

text \<open>Shutdown at 10:00, wake at 10:05, prepared at 10:01 with the service \<open>api\<close> still running.\<close>

definition sample_shutdown :: MachineShutdownOccurrence where
  "sample_shutdown = \<lparr>shutdown_scheduledFor = iso 392400000, wakeScheduledFor = iso 392700000\<rparr>"

definition sample_decision :: MachineShutdownReadinessDecision where
  "sample_decision = \<lparr>decision_occurrence = sample_shutdown, decision_evaluatedAt = iso 392460000, approved = False,
     blockers = [(plain_blocker services_area service_running)\<lparr>blocker_serviceId := Some ''api''\<rparr>]\<rparr>"

definition service_step :: "ServicePreparationOutcome \<Rightarrow> string \<Rightarrow> MachineShutdownServicePreparationStep" where
  "service_step oc sid = \<lparr>prep_serviceId = sid, prep_serviceOutcome = oc,
     prep_serviceFailure = if oc = failed_service then Some ''service_stop_failed'' else None\<rparr>"

text \<open>A controller that stops up to 64 services and reports a failure beyond.\<close>

definition quick_stop :: "string \<Rightarrow> string list \<Rightarrow> MachineShutdownServicePreparationResult" where
  "quick_stop at ids =
     (if length ids \<le> 64
      then \<lparr>prep_requestedAt = at, prep_serviceSteps = map (service_step stopped_service) ids, prep_successful = True\<rparr>
      else \<lparr>prep_requestedAt = at, prep_serviceSteps = [service_step failed_service (hd ids)], prep_successful = False\<rparr>)"

definition quick_controllers :: "unit PreparationControllers" where
  "quick_controllers = \<lparr>pc_services = Some (\<lambda>_ at ids. retIO (quick_stop at ids)),
     pc_drain = (\<lambda>_ _. retIO TasksDrained), pc_complete = (\<lambda>_ _. retIO BackupCompleted),
     pc_synchronize = (\<lambda>_ _. retIO Synchronized), pc_record = (\<lambda>_. retIO ())\<rparr>"

definition broken_controllers :: "unit PreparationControllers" where
  "broken_controllers = quick_controllers\<lparr>pc_services := Some (\<lambda>_ _ _. throwIO (PortError ''offline''))\<rparr>"

lemma shutdown_sample_created: "createMachineShutdownOccurrence (shutdown_value sample_shutdown) = Inr sample_shutdown"
  by code_simp

lemma sample_canonical: "canonical (iso 392460000)"
  by (simp add: max_time_def)

lemma sample_decision_for: "decision_for sample_shutdown (iso 392460000) sample_decision"
proof -
  have "createMachineShutdownReadinessDecision (decision_value sample_decision) = Inr sample_decision" by code_simp
  then show ?thesis by (simp add: decision_for_def createDecision_wf) (simp add: sample_decision_def)
qed

lemma quick_answers: "\<not> unreportable quick_controllers sample_shutdown (iso 392460000) sample_decision w"
proof -
  have ids: "running_service_ids sample_decision = [''api'']" by code_simp
  have "createMachineShutdownServicePreparationResult (prep_requestedAt (quick_stop (iso 392460000) [''api'']))
      (prep_serviceSteps (quick_stop (iso 392460000) [''api''])) (prep_successful (quick_stop (iso 392460000) [''api''])) =
    Inr (quick_stop (iso 392460000) [''api''])" by code_simp
  then show ?thesis
    by (simp add: unreportable_def ids services_answered_def tasks_counted_def quick_controllers_def retIO_def)
      (simp add: quick_stop_def service_step_def)
qed

theorem preparation_always_reports_witness:
  "\<exists>r. fst (prepareAt quick_controllers clear_readers (shutdown_value sample_shutdown) (iso 392460000)
    (Some sample_decision) (\<lambda>_ _. retIO True) ()) = Inr r"
proof -
  obtain a w where run: "prepareAt quick_controllers clear_readers (shutdown_value sample_shutdown) (iso 392460000)
      (Some sample_decision) (\<lambda>_ _. retIO True) () = (a, w)" by (rule prod.exhaust)
  from preparation_always_reports[OF shutdown_sample_created sample_canonical _ run] sample_decision_for quick_answers
  show ?thesis by (cases a) (auto simp: initial_decision_def run)
qed

lemma sample_prepared:
  "(case fst (prepareAt quick_controllers clear_readers (shutdown_value sample_shutdown) (iso 392460000)
      (Some sample_decision) (\<lambda>_ _. retIO True) ()) of
      Inl _ \<Rightarrow> False | Inr r \<Rightarrow> report_outcome r = preparation_prepared)"
  by code_simp

theorem prepared_is_ready_witness:
  "\<exists>r. fst (prepareAt quick_controllers clear_readers (shutdown_value sample_shutdown) (iso 392460000)
      (Some sample_decision) (\<lambda>_ _. retIO True) ()) = Inr r \<and>
    map event_sequence (report_events r) = map (\<lambda>i. int i + 1) [0..<length (report_events r)]"
proof -
  obtain r w' where r: "prepareAt quick_controllers clear_readers (shutdown_value sample_shutdown) (iso 392460000)
      (Some sample_decision) (\<lambda>_ _. retIO True) () = (Inr r, w')" "report_outcome r = preparation_prepared"
    using sample_prepared
    by (cases "prepareAt quick_controllers clear_readers (shutdown_value sample_shutdown) (iso 392460000)
      (Some sample_decision) (\<lambda>_ _. retIO True) ()") (auto split: sum.splits)
  show ?thesis
    using prepared_is_ready[OF shutdown_sample_created sample_canonical _ r] sample_decision_for
    unfolding r(1) fst_conv by blast
qed

theorem failing_service_controller_throws_witness:
  "prepareAt broken_controllers clear_readers (shutdown_value sample_shutdown) (iso 392460000)
      (Some sample_decision) (\<lambda>_ _. retIO True) () =
    (Inl (PlainError ''Invalid machine shutdown service preparation steps''), ())"
proof -
  obtain plan where plan: "createMachineShutdownPreparationPlan sample_shutdown (iso 392460000) sample_decision =
      Inr (Some plan)"
    using plan_created[OF createMachineShutdownOccurrence_wf[OF shutdown_sample_created] sample_canonical sample_decision_for]
    by (auto simp: createMachineShutdownPreparationPlan_def sample_decision_def plain_blocker_def PREPARABLE_def result_simps)
  have ok: "(case record_event broken_controllers sample_shutdown (iso 392460000) preparation_started no_detail
      preparation_start () of (Inr (b, _), _) \<Rightarrow> b | _ \<Rightarrow> False)" by code_simp
  then obtain st where st: "record_event broken_controllers sample_shutdown (iso 392460000) preparation_started no_detail
      preparation_start () = (Inr (True, st), ())"
    by (auto split: prod.splits sum.splits)
  have codes: "service_running \<in> set (map blocker_code (blockers sample_decision))"
    by (simp add: sample_decision_def plain_blocker_def)
  have port: "pc_services broken_controllers = Some (\<lambda>_ _ _. throwIO (PortError ''offline''))"
    by (simp add: broken_controllers_def)
  show ?thesis
    by (rule failing_service_controller_throws[OF shutdown_sample_created sample_canonical sample_decision_for plan codes st port])
      (simp add: throwIO_def)
qed

end
