(* ===== verification/Machine_Execution.thy ===== *)
theory Machine_Execution
  imports Machine_Preparation
begin

text \<open>
  The execution of a shutdown occurrence (\<open>power-management\<close>): wake alarm mutations and shutdown results
  (\<open>domain/wake-alarm-state.ts\<close>, \<open>wake-alarm-mutation-result.ts\<close>, \<open>machine-shutdown-result.ts\<close>), the result
  of a claim (\<open>machine-shutdown-occurrence-claim-result.ts\<close>), the result of an execution
  (\<open>machine-shutdown-occurrence-execution-result.ts\<close>) and the handler that claims the occurrence, sets the
  wake alarm and requests the shutdown (\<open>application/execute-machine-shutdown-occurrence.ts\<close>).
\<close>

section \<open>Wake alarms\<close>

datatype WakeAlarmState = WakeUnsupported | WakeNotScheduled | WakeScheduled string

abbreviation WakeAlarmStateValidationError :: "string \<Rightarrow> js_error" where
  "WakeAlarmStateValidationError \<equiv> NamedError ''WakeAlarmStateValidationError''"

definition createWakeAlarmState :: "jsval \<Rightarrow> WakeAlarmState result" where
  "createWakeAlarmState input =
     (if \<not> is_plain_object input then Inl (WakeAlarmStateValidationError ''invalid_record'')
      else if \<not> list_all (\<lambda>k. k \<in> set [''state'', ''scheduledFor'']) (object_keys input)
      then Inl (WakeAlarmStateValidationError ''invalid_field'')
      else let state = get_prop input ''state''; hasScheduledFor = has_own input ''scheduledFor'' in
        if state \<noteq> JStr ''unsupported'' \<and> state \<noteq> JStr ''not_scheduled'' \<and> state \<noteq> JStr ''scheduled''
        then Inl (WakeAlarmStateValidationError ''invalid_state'')
        else if state = JStr ''scheduled''
        then (if \<not> hasScheduledFor then Inl (WakeAlarmStateValidationError ''missing_scheduled_for'')
              else case canonical_string (get_prop input ''scheduledFor'') of
                None \<Rightarrow> Inl (WakeAlarmStateValidationError ''invalid_scheduled_for'')
              | Some t \<Rightarrow> Inr (WakeScheduled t))
        else if hasScheduledFor then Inl (WakeAlarmStateValidationError ''unexpected_scheduled_for'')
        else Inr (if state = JStr ''unsupported'' then WakeUnsupported else WakeNotScheduled))"

datatype WakeOperation = schedule_wake | cancel_wake
datatype WakeOutcome = wake_scheduled | wake_replaced | wake_unchanged | wake_cancelled | wake_not_scheduled

definition wake_operations :: "(string \<times> WakeOperation) list" where
  "wake_operations = [(''schedule'', schedule_wake), (''cancel'', cancel_wake)]"

definition wake_outcomes :: "(string \<times> WakeOutcome) list" where
  "wake_outcomes = [(''scheduled'', wake_scheduled), (''replaced'', wake_replaced), (''unchanged'', wake_unchanged),
     (''cancelled'', wake_cancelled), (''not_scheduled'', wake_not_scheduled)]"

record WakeAlarmMutationResult =
  wake_operation :: WakeOperation
  wake_requestedAt :: string
  wake_outcome :: WakeOutcome
  wake_before :: WakeAlarmState
  wake_after :: WakeAlarmState

abbreviation WakeAlarmMutationResultValidationError :: "string \<Rightarrow> js_error" where
  "WakeAlarmMutationResultValidationError \<equiv> NamedError ''WakeAlarmMutationResultValidationError''"

text \<open>\<open>createWakeAlarmState\<close> throws its own error only, which \<open>createState\<close> translates.\<close>

definition createState :: "jsval \<Rightarrow> string \<Rightarrow> WakeAlarmState result" where
  "createState input invalidCode =
     (case createWakeAlarmState input of
        Inl _ \<Rightarrow> Inl (WakeAlarmMutationResultValidationError invalidCode)
      | Inr state \<Rightarrow> Inr state)"

definition isValidTransition :: "WakeOperation \<Rightarrow> WakeOutcome \<Rightarrow> WakeAlarmState \<Rightarrow> WakeAlarmState \<Rightarrow> bool" where
  "isValidTransition operation outcome stateBefore stateAfter \<longleftrightarrow>
     (case operation of
        schedule_wake \<Rightarrow>
          (case (outcome, stateBefore, stateAfter) of
             (wake_scheduled, WakeNotScheduled, WakeScheduled _) \<Rightarrow> True
           | (wake_replaced, WakeScheduled s, WakeScheduled t) \<Rightarrow> s \<noteq> t
           | (wake_unchanged, WakeScheduled s, WakeScheduled t) \<Rightarrow> s = t
           | _ \<Rightarrow> False)
      | cancel_wake \<Rightarrow>
          (case (outcome, stateBefore, stateAfter) of
             (wake_cancelled, WakeScheduled _, WakeNotScheduled) \<Rightarrow> True
           | (wake_not_scheduled, WakeNotScheduled, WakeNotScheduled) \<Rightarrow> True
           | _ \<Rightarrow> False))"

definition createWakeAlarmMutationResult :: "jsval \<Rightarrow> WakeAlarmMutationResult result" where
  "createWakeAlarmMutationResult input =
     (if \<not> is_plain_object input then Inl (WakeAlarmMutationResultValidationError ''invalid_record'')
      else if \<not> list_all (\<lambda>k. k \<in> set [''operation'', ''requestedAt'', ''outcome'', ''before'', ''after''])
                (object_keys input)
      then Inl (WakeAlarmMutationResultValidationError ''invalid_field'')
      else case literal_of wake_operations (get_prop input ''operation'') of
        None \<Rightarrow> Inl (WakeAlarmMutationResultValidationError ''invalid_operation'')
      | Some operation \<Rightarrow>
          (case canonical_string (get_prop input ''requestedAt'') of
             None \<Rightarrow> Inl (WakeAlarmMutationResultValidationError ''invalid_requested_at'')
           | Some at \<Rightarrow>
               (case literal_of wake_outcomes (get_prop input ''outcome'') of
                  None \<Rightarrow> Inl (WakeAlarmMutationResultValidationError ''invalid_outcome'')
                | Some outcome \<Rightarrow>
                    bindR (createState (get_prop input ''before'') ''invalid_before'') (\<lambda>stateBefore.
                    bindR (createState (get_prop input ''after'') ''invalid_after'') (\<lambda>stateAfter.
                    if stateBefore = WakeUnsupported \<or> stateAfter = WakeUnsupported
                    then Inl (WakeAlarmMutationResultValidationError ''unsupported_state'')
                    else if \<not> isValidTransition operation outcome stateBefore stateAfter
                    then Inl (WakeAlarmMutationResultValidationError ''invalid_transition'')
                    else Inr \<lparr>wake_operation = operation, wake_requestedAt = at, wake_outcome = outcome,
                              wake_before = stateBefore, wake_after = stateAfter\<rparr>)))))"

fun wake_state_value :: "WakeAlarmState \<Rightarrow> jsval" where
  "wake_state_value WakeUnsupported = literal_obj [(''state'', JStr ''unsupported'')]"
| "wake_state_value WakeNotScheduled = literal_obj [(''state'', JStr ''not_scheduled'')]"
| "wake_state_value (WakeScheduled t) = literal_obj [(''state'', JStr ''scheduled''), (''scheduledFor'', JStr t)]"

definition wake_value :: "WakeAlarmMutationResult \<Rightarrow> jsval" where
  "wake_value m = literal_obj
     [(''operation'', JStr (literal_name wake_operations (wake_operation m))), (''requestedAt'', JStr (wake_requestedAt m)),
      (''outcome'', JStr (literal_name wake_outcomes (wake_outcome m))), (''before'', wake_state_value (wake_before m)),
      (''after'', wake_state_value (wake_after m))]"

section \<open>Shutdowns and claims\<close>

record MachineShutdownResult =
  shutdown_requestedAt :: string
  shutdown_simulated :: bool

abbreviation MachineShutdownResultValidationError :: "string \<Rightarrow> js_error" where
  "MachineShutdownResultValidationError \<equiv> NamedError ''MachineShutdownResultValidationError''"

text \<open>The outcome is \<open>simulated\<close> or \<open>accepted\<close>.\<close>

definition createMachineShutdownResult :: "jsval \<Rightarrow> MachineShutdownResult result" where
  "createMachineShutdownResult input =
     (if \<not> is_plain_object input then Inl (MachineShutdownResultValidationError ''invalid_record'')
      else if \<not> list_all (\<lambda>k. k \<in> set [''operation'', ''requestedAt'', ''outcome'']) (object_keys input)
      then Inl (MachineShutdownResultValidationError ''invalid_field'')
      else if get_prop input ''operation'' \<noteq> JStr ''shutdown''
      then Inl (MachineShutdownResultValidationError ''invalid_operation'')
      else case canonical_string (get_prop input ''requestedAt'') of
        None \<Rightarrow> Inl (MachineShutdownResultValidationError ''invalid_requested_at'')
      | Some at \<Rightarrow>
          let outcome = get_prop input ''outcome'' in
          if outcome \<noteq> JStr ''simulated'' \<and> outcome \<noteq> JStr ''accepted''
          then Inl (MachineShutdownResultValidationError ''invalid_outcome'')
          else Inr \<lparr>shutdown_requestedAt = at, shutdown_simulated = (outcome = JStr ''simulated'')\<rparr>)"

definition shutdown_result_value :: "MachineShutdownResult \<Rightarrow> jsval" where
  "shutdown_result_value r = literal_obj [(''operation'', JStr ''shutdown''), (''requestedAt'', JStr (shutdown_requestedAt r)),
     (''outcome'', JStr (if shutdown_simulated r then ''simulated'' else ''accepted''))]"

text \<open>Whether the outcome is \<open>claimed\<close>, against \<open>duplicate\<close>.\<close>

definition createMachineShutdownOccurrenceClaimResult :: "jsval \<Rightarrow> bool result" where
  "createMachineShutdownOccurrenceClaimResult input =
     (if \<not> is_plain_object input
      then Inl (NamedError ''MachineShutdownOccurrenceClaimResultValidationError'' ''invalid_record'')
      else if length (own_keys input) \<noteq> 1 \<or> \<not> has_own input ''outcome''
      then Inl (NamedError ''MachineShutdownOccurrenceClaimResultValidationError'' ''invalid_field'')
      else if get_prop input ''outcome'' \<noteq> JStr ''claimed'' \<and> get_prop input ''outcome'' \<noteq> JStr ''duplicate''
      then Inl (NamedError ''MachineShutdownOccurrenceClaimResultValidationError'' ''invalid_outcome'')
      else Inr (get_prop input ''outcome'' = JStr ''claimed''))"

section \<open>Validated values are accepted again\<close>

lemma object_keys_literal [literal_simps]: "object_keys (literal_obj ps) = map fst ps"
proof -
  have "key_strings (map (\<lambda>p. KStr (fst p)) ps) = map fst ps" for ps :: "(string \<times> jsval) list" by (induction ps) simp_all
  then show ?thesis by (simp add: object_keys_def own_keys_literal)
qed

definition wf_wake_state :: "WakeAlarmState \<Rightarrow> bool" where
  "wf_wake_state s \<longleftrightarrow> (case s of WakeUnsupported \<Rightarrow> False | WakeNotScheduled \<Rightarrow> True | WakeScheduled t \<Rightarrow> canonical t)"

definition wf_wake :: "WakeAlarmMutationResult \<Rightarrow> bool" where
  "wf_wake m \<longleftrightarrow> canonical (wake_requestedAt m) \<and> wf_wake_state (wake_before m) \<and> wf_wake_state (wake_after m) \<and>
     isValidTransition (wake_operation m) (wake_outcome m) (wake_before m) (wake_after m)"

lemma createState_value: "wf_wake_state s \<Longrightarrow> createState (wake_state_value s) code = Inr s"
  by (cases s) (simp_all add: wf_wake_state_def createState_def createWakeAlarmState_def literal_simps has_own_def
      canonical_string_eq)

lemma createWake_value: "wf_wake m \<Longrightarrow> createWakeAlarmMutationResult (wake_value m) = Inr m"
proof -
  assume "wf_wake m"
  moreover have "literal_of wake_operations (JStr (literal_name wake_operations o')) = Some o'" for o'
    by (cases o') (simp_all add: wake_operations_def literal_name_def)
  moreover have "literal_of wake_outcomes (JStr (literal_name wake_outcomes o')) = Some o'" for o'
    by (cases o') (simp_all add: wake_outcomes_def literal_name_def)
  ultimately show ?thesis
    by (cases m) (auto simp: wf_wake_def createWakeAlarmMutationResult_def wake_value_def literal_simps has_own_def
        createState_value wf_wake_state_def canonical_string_eq)
qed

lemma createShutdownResult_value:
  "canonical (shutdown_requestedAt r) \<Longrightarrow> createMachineShutdownResult (shutdown_result_value r) = Inr r"
  by (cases r) (simp add: createMachineShutdownResult_def shutdown_result_value_def literal_simps has_own_def)

section \<open>Results of executions\<close>

datatype ExecutionOutcome =
    ExecutionNotDue
  | ExecutionStale
  | ExecutionDuplicate
  | ExecutionRejected MachineShutdownReadinessDecision "MachineShutdownPreparationReport option"
  | ExecutionPreparationIncomplete MachineShutdownPreparationReport
  | ExecutionExecuted WakeAlarmMutationResult MachineShutdownResult "MachineShutdownPreparationReport option"

record MachineShutdownOccurrenceExecutionResult =
  execution_occurrence :: MachineShutdownOccurrence
  execution_processedAt :: string
  execution_outcome :: ExecutionOutcome

abbreviation ExecutionResultError :: "string \<Rightarrow> js_error" where
  "ExecutionResultError \<equiv> NamedError ''MachineShutdownOccurrenceExecutionResultValidationError''"

definition report_again :: "MachineShutdownPreparationReport \<Rightarrow> MachineShutdownPreparationReport result" where
  "report_again r = createMachineShutdownPreparationReport (report_occurrence r) (report_processedAt r)
     (report_initialDecision r) (report_plan r) (report_steps r) (report_events r) (report_finalDecision r)
     (report_outcome r)"

fun outcome_report :: "ExecutionOutcome \<Rightarrow> MachineShutdownPreparationReport option" where
  "outcome_report (ExecutionRejected _ r) = r"
| "outcome_report (ExecutionPreparationIncomplete r) = Some r"
| "outcome_report (ExecutionExecuted _ _ r) = r"
| "outcome_report _ = None"

definition report_is :: "MachineShutdownPreparationOutcome list \<Rightarrow> MachineShutdownPreparationReport option \<Rightarrow> bool" where
  "report_is outcomes r \<longleftrightarrow> (case r of None \<Rightarrow> True | Some r \<Rightarrow> report_outcome r \<in> set outcomes)"

text \<open>
  The constructor on the literals of the handler, whose outcome and properties go together; the tests
  of their shape (\<open>missing_effect\<close>, \<open>unexpected_effect\<close>) cannot fail there.
\<close>

definition createMachineShutdownOccurrenceExecutionResult ::
  "MachineShutdownOccurrence \<Rightarrow> string \<Rightarrow> ExecutionOutcome \<Rightarrow> MachineShutdownOccurrenceExecutionResult result" where
  "createMachineShutdownOccurrenceExecutionResult occurrenceInput processedAt outcome =
     (case createMachineShutdownOccurrence (shutdown_value occurrenceInput) of
        Inl _ \<Rightarrow> Inl (ExecutionResultError ''invalid_occurrence'')
      | Inr occurrence \<Rightarrow>
          if \<not> canonical processedAt then Inl (ExecutionResultError ''invalid_processed_at'')
          else (case optionR report_again (outcome_report outcome) of
            Inl _ \<Rightarrow> Inl (ExecutionResultError ''invalid_effect'')
          | Inr report \<Rightarrow>
              bindR (case outcome of
                ExecutionPreparationIncomplete _ \<Rightarrow>
                  if \<not> report_is [preparation_incomplete] report then Inl (ExecutionResultError ''invalid_effect'')
                  else Inr (ExecutionPreparationIncomplete (the report))
              | ExecutionRejected decisionInput _ \<Rightarrow>
                  (case createMachineShutdownReadinessDecision (decision_value decisionInput) of
                     Inl _ \<Rightarrow> Inl (ExecutionResultError ''invalid_effect'')
                   | Inr decision \<Rightarrow>
                       if approved decision \<or> decision_evaluatedAt decision \<noteq> processedAt \<or>
                          \<not> isSameMachineShutdownOccurrence (decision_occurrence decision) occurrence \<or>
                          \<not> report_is [preparation_blocked] report
                       then Inl (ExecutionResultError ''invalid_effect'')
                       else Inr (ExecutionRejected decision report))
              | ExecutionExecuted wakeInput shutdownInput _ \<Rightarrow>
                  (case (createWakeAlarmMutationResult (wake_value wakeInput),
                         createMachineShutdownResult (shutdown_result_value shutdownInput)) of
                     (Inr wake, Inr shutdown) \<Rightarrow>
                       if wake_operation wake \<noteq> schedule_wake \<or>
                          wake_outcome wake \<notin> {wake_scheduled, wake_replaced, wake_unchanged} \<or>
                          wake_requestedAt wake \<noteq> processedAt \<or>
                          wake_after wake \<noteq> WakeScheduled (wakeScheduledFor occurrence) \<or>
                          shutdown_requestedAt shutdown \<noteq> processedAt \<or>
                          \<not> report_is [preparation_not_required, preparation_prepared] report
                       then Inl (ExecutionResultError ''invalid_effect'')
                       else Inr (ExecutionExecuted wake shutdown report)
                   | _ \<Rightarrow> Inl (ExecutionResultError ''invalid_effect''))
              | _ \<Rightarrow> Inr outcome) (\<lambda>checked.
              Inr \<lparr>execution_occurrence = occurrence, execution_processedAt = processedAt,
                   execution_outcome = checked\<rparr>)))"

section \<open>The handler\<close>

abbreviation ExecutionError :: "string \<Rightarrow> js_error" where
  "ExecutionError \<equiv> NamedError ''MachineShutdownOccurrenceExecutionError''"

text \<open>
  The audit trail of \<open>event-history\<close>: the beginning of an attempt, which returns it, and its end with a
  status and details. The attempt is given back as it came.
\<close>

record 'w AuditPort =
  audit_begin :: "jsval \<Rightarrow> ('w, jsval) io"
  audit_complete :: "jsval \<Rightarrow> string \<Rightarrow> jsval \<Rightarrow> ('w, unit) io"

record 'w ExecutionPorts =
  ex_now :: "('w, int option) io"
  ex_claim :: "MachineShutdownOccurrence \<Rightarrow> ('w, jsval) io"
  ex_wake :: "string \<Rightarrow> string \<Rightarrow> ('w, jsval) io"
  ex_shutdown :: "string \<Rightarrow> ('w, jsval) io"
  ex_readiness :: "'w ReadinessReaders option"
  ex_preparation :: "('w PreparationControllers \<times> 'w ReadinessReaders) option"
  ex_audit :: "'w AuditPort option"

record 'w ExecutionOptions =
  opt_confirmationReader :: "'w confirmation_reader option"
  opt_automaticallyPrepare :: bool

definition default_options :: "'w ExecutionOptions" where
  "default_options = \<lparr>opt_confirmationReader = None, opt_automaticallyPrepare = True\<rparr>"

definition reader_of :: "'w ExecutionOptions \<Rightarrow> 'w ReadinessReaders \<Rightarrow> 'w confirmation_reader" where
  "reader_of options readers =
     (case opt_confirmationReader options of None \<Rightarrow> rd_confirmation readers | Some r \<Rightarrow> r)"

text \<open>Claim, wake alarm, shutdown: the part of \<open>executeCore\<close> that has effects.\<close>

definition execute_effects ::
  "'w ExecutionPorts \<Rightarrow> MachineShutdownOccurrence \<Rightarrow> string \<Rightarrow> MachineShutdownPreparationReport option \<Rightarrow>
     ('w, MachineShutdownOccurrenceExecutionResult) io" where
  "execute_effects ports occurrence processedAt report =
     bindIO (catchIO (bindIO (ex_claim ports occurrence) (\<lambda>v. liftIO (createMachineShutdownOccurrenceClaimResult v)))
               (\<lambda>_. throwIO (ExecutionError ''claim_failed''))) (\<lambda>claimed.
     if \<not> claimed
     then liftIO (createMachineShutdownOccurrenceExecutionResult occurrence processedAt ExecutionDuplicate)
     else bindIO (catchIO (bindIO (ex_wake ports processedAt (wakeScheduledFor occurrence))
                    (\<lambda>v. liftIO (createWakeAlarmMutationResult v)))
                    (\<lambda>_. throwIO (ExecutionError ''wake_alarm_preparation_failed''))) (\<lambda>wake.
          bindIO (catchIO (bindIO (ex_shutdown ports processedAt) (\<lambda>v. liftIO (createMachineShutdownResult v)))
                    (\<lambda>_. throwIO (ExecutionError ''shutdown_failed_after_wake_scheduled''))) (\<lambda>shutdown.
          catchIO (liftIO (createMachineShutdownOccurrenceExecutionResult occurrence processedAt
                     (ExecutionExecuted wake shutdown report)))
                    (\<lambda>_. throwIO (ExecutionError ''shutdown_failed_after_wake_scheduled'')))))"

definition prepare_and_execute ::
  "'w ExecutionPorts \<Rightarrow> MachineShutdownOccurrence \<Rightarrow> string \<Rightarrow> 'w ExecutionOptions \<Rightarrow>
     MachineShutdownReadinessDecision option \<Rightarrow> ('w, MachineShutdownOccurrenceExecutionResult) io" where
  "prepare_and_execute ports occurrence processedAt options decision =
     (case (ex_preparation ports, decision) of
        (Some (controllers, readers), Some d) \<Rightarrow>
          if \<not> opt_automaticallyPrepare options then execute_effects ports occurrence processedAt None
          else bindIO (prepareAt controllers readers (shutdown_value occurrence) processedAt (Some d)
                        (reader_of options readers)) (\<lambda>report.
            if report_outcome report = preparation_blocked
            then liftIO (createMachineShutdownOccurrenceExecutionResult occurrence processedAt
                   (ExecutionRejected d (Some report)))
            else if report_outcome report = preparation_incomplete
            then liftIO (createMachineShutdownOccurrenceExecutionResult occurrence processedAt
                   (ExecutionPreparationIncomplete report))
            else execute_effects ports occurrence processedAt (Some report))
      | _ \<Rightarrow> execute_effects ports occurrence processedAt None)"

definition executeCore ::
  "'w ExecutionPorts \<Rightarrow> MachineShutdownOccurrence \<Rightarrow> string \<Rightarrow> 'w ExecutionOptions \<Rightarrow>
     ('w, MachineShutdownOccurrenceExecutionResult) io" where
  "executeCore ports occurrence processedAt options =
     (if earlier processedAt (shutdown_scheduledFor occurrence)
      then liftIO (createMachineShutdownOccurrenceExecutionResult occurrence processedAt ExecutionNotDue)
      else if not_earlier processedAt (wakeScheduledFor occurrence)
      then liftIO (createMachineShutdownOccurrenceExecutionResult occurrence processedAt ExecutionStale)
      else case ex_readiness ports of
        None \<Rightarrow> prepare_and_execute ports occurrence processedAt options None
      | Some readers \<Rightarrow>
          bindIO (evaluateAt readers (shutdown_value occurrence) processedAt (reader_of options readers)) (\<lambda>decision.
          if \<not> approved decision \<and> (ex_preparation ports = None \<or> \<not> opt_automaticallyPrepare options)
          then liftIO (createMachineShutdownOccurrenceExecutionResult occurrence processedAt
                 (ExecutionRejected decision None))
          else prepare_and_execute ports occurrence processedAt options (Some decision)))"

section \<open>The audited handler\<close>

definition mapExecutionFailure :: "js_error \<Rightarrow> string" where
  "mapExecutionFailure e =
     (case e of
        NamedError name code \<Rightarrow>
          if name = ''MachineShutdownOccurrenceExecutionError'' then code else ''unexpected_execution_failure''
      | _ \<Rightarrow> ''unexpected_execution_failure'')"

definition preparation_outcome_name :: "MachineShutdownPreparationOutcome \<Rightarrow> string" where
  "preparation_outcome_name oc =
     (case oc of preparation_not_required \<Rightarrow> ''not_required'' | preparation_blocked \<Rightarrow> ''blocked''
      | preparation_prepared \<Rightarrow> ''prepared'' | preparation_incomplete \<Rightarrow> ''incomplete'')"

fun execution_outcome_name :: "ExecutionOutcome \<Rightarrow> string" where
  "execution_outcome_name ExecutionNotDue = ''not_due''"
| "execution_outcome_name ExecutionStale = ''stale''"
| "execution_outcome_name ExecutionDuplicate = ''duplicate''"
| "execution_outcome_name (ExecutionRejected _ _) = ''rejected''"
| "execution_outcome_name (ExecutionPreparationIncomplete _) = ''preparation_incomplete''"
| "execution_outcome_name (ExecutionExecuted _ _ _) = ''executed''"

definition mapExecutionAudit :: "MachineShutdownOccurrenceExecutionResult \<Rightarrow> string \<times> jsval" where
  "mapExecutionAudit result =
     (let name = (''executionOutcome'', JStr (execution_outcome_name (execution_outcome result)));
          prepared = (\<lambda>r. (''preparationOutcome'', JStr (preparation_outcome_name (report_outcome r)))) in
      case execution_outcome result of
        ExecutionExecuted wake _ report \<Rightarrow>
          (''succeeded'', literal_obj ([name] @ (case report of None \<Rightarrow> [] | Some r \<Rightarrow> [prepared r]) @
             [(''wakeMutationOutcome'', JStr (literal_name wake_outcomes (wake_outcome wake))),
              (''shutdownAccepted'', JBool True)]))
      | ExecutionPreparationIncomplete report \<Rightarrow> (''rejected'', literal_obj [name, prepared report])
      | ExecutionRejected decision _ \<Rightarrow>
          (''rejected'', literal_obj [name, (''blockerCodes'',
             JArr (map (\<lambda>b. JStr (literal_name blocker_codes (blocker_code b))) (blockers decision)))])
      | _ \<Rightarrow> (''rejected'', literal_obj [name]))"

definition isAuditError :: "js_error \<Rightarrow> bool" where
  "isAuditError e = (case e of NamedError name _ \<Rightarrow> name = ''AdministrativeAuditTrailError'' | _ \<Rightarrow> False)"

definition MACHINE_AUDIT_TARGET :: jsval where
  "MACHINE_AUDIT_TARGET = literal_obj [(''kind'', JStr ''machine''), (''id'', JStr ''atlas'')]"

definition DIRECT_POWER_AUDIT_SOURCE :: jsval where
  "DIRECT_POWER_AUDIT_SOURCE = literal_obj [(''kind'', JStr ''administrative''), (''actorId'', JStr ''unattributed-local'')]"

definition SCHEDULER_POWER_AUDIT_SOURCE :: jsval where
  "SCHEDULER_POWER_AUDIT_SOURCE =
     literal_obj [(''kind'', JStr ''automated''), (''actorId'', JStr ''machine-power-scheduler'')]"

definition audit_attempt :: "string \<Rightarrow> jsval \<Rightarrow> string \<Rightarrow> (string \<times> jsval) list \<Rightarrow> jsval" where
  "audit_attempt occurredAt source operation details = literal_obj
     [(''occurredAt'', JStr occurredAt), (''source'', source), (''target'', MACHINE_AUDIT_TARGET),
      (''operation'', JStr operation), (''details'', literal_obj details)]"

text \<open>
  An operation between the beginning and the end of its attempt: if it fails, the attempt is completed
  as failed and its error stays, whatever becomes of the audit; if it succeeds and the audit then
  fails, \<open>partial\<close> says which results count as an effect that happened.
\<close>

definition audited ::
  "'w AuditPort \<Rightarrow> jsval \<Rightarrow> ('w, 'a) io \<Rightarrow> (js_error \<Rightarrow> string) \<Rightarrow> ('a \<Rightarrow> string \<times> jsval) \<Rightarrow> ('a \<Rightarrow> bool) \<Rightarrow> string \<Rightarrow>
     ('w, 'a) io" where
  "audited audit attemptInput operation failureCode terminal hasEffect partialCode =
     bindIO (audit_begin audit attemptInput) (\<lambda>attempt.
     bindIO (catchIO operation (\<lambda>e.
               bindIO (catchIO (audit_complete audit attempt ''failed'' (literal_obj [(''failureCode'', JStr (failureCode e))]))
                         (\<lambda>_. retIO ())) (\<lambda>_. throwIO e))) (\<lambda>result.
     bindIO (catchIO (audit_complete audit attempt (fst (terminal result)) (snd (terminal result)))
               (\<lambda>e. throwIO (if isAuditError e \<and> hasEffect result
                              then NamedError ''AdministrativeAuditPartialEffectError'' partialCode else e))) (\<lambda>_.
     retIO result)))"

definition is_executed :: "MachineShutdownOccurrenceExecutionResult \<Rightarrow> bool" where
  "is_executed r = (case execution_outcome r of ExecutionExecuted _ _ _ \<Rightarrow> True | _ \<Rightarrow> False)"

definition executeAt ::
  "'w ExecutionPorts \<Rightarrow> jsval \<Rightarrow> string \<Rightarrow> jsval \<Rightarrow> 'w ExecutionOptions \<Rightarrow>
     ('w, MachineShutdownOccurrenceExecutionResult) io" where
  "executeAt ports input processedAt source options =
     bindIO (liftIO (createMachineShutdownOccurrence input)) (\<lambda>occurrence.
     case ex_audit ports of
       None \<Rightarrow> executeCore ports occurrence processedAt options
     | Some audit \<Rightarrow>
         audited audit
           (audit_attempt processedAt source ''execute_machine_shutdown_occurrence''
              [(''scheduledFor'', JStr (shutdown_scheduledFor occurrence)),
               (''wakeScheduledFor'', JStr (wakeScheduledFor occurrence))])
           (executeCore ports occurrence processedAt options) mapExecutionFailure mapExecutionAudit is_executed
           ''audit_failed_after_shutdown_execution'')"

definition ExecuteMachineShutdownOccurrence_execute ::
  "'w ExecutionPorts \<Rightarrow> jsval \<Rightarrow> ('w, MachineShutdownOccurrenceExecutionResult) io" where
  "ExecuteMachineShutdownOccurrence_execute ports input =
     bindIO (liftIO (createMachineShutdownOccurrence input)) (\<lambda>occurrence.
     bindIO (ex_now ports) (\<lambda>now.
     bindIO (liftIO (toISOString now)) (\<lambda>processedAt.
     executeAt ports (shutdown_value occurrence) processedAt DIRECT_POWER_AUDIT_SOURCE default_options)))"

section \<open>The audited preparation\<close>

text \<open>The rest of \<open>application/prepare-machine-shutdown-occurrence.ts\<close>: \<open>execute\<close> and \<open>executeAsAuthorized\<close>.\<close>

definition hasPreparationEffect :: "MachineShutdownPreparationReport \<Rightarrow> bool" where
  "hasPreparationEffect report \<longleftrightarrow>
     list_ex (\<lambda>s. step_kind s \<in> {stop_registered_services, drain_active_tasks, complete_backup, synchronize_filesystem} \<and>
                 step_outcome s = step_completed) (report_steps report)"

definition mapPreparationAudit :: "MachineShutdownPreparationReport \<Rightarrow> string \<times> jsval" where
  "mapPreparationAudit report =
     (if report_outcome report \<in> {preparation_not_required, preparation_prepared} then ''succeeded'' else ''rejected'',
      literal_obj
        ([(''preparationOutcome'', JStr (preparation_outcome_name (report_outcome report)))] @
         (case report_finalDecision report of None \<Rightarrow> []
          | Some d \<Rightarrow> [(''blockerCodes'', JArr (map (\<lambda>b. JStr (literal_name blocker_codes (blocker_code b))) (blockers d)))]) @
         [(''completedStepCount'', JNum (int (length (filter (\<lambda>s. step_outcome s = step_completed) (report_steps report)))))]))"

definition prepare_executeAsAuthorized ::
  "'w PreparationControllers \<Rightarrow> 'w ReadinessReaders \<Rightarrow> 'w AuditPort option \<Rightarrow> jsval \<Rightarrow> string \<Rightarrow> jsval \<Rightarrow>
     'w confirmation_reader option \<Rightarrow> ('w, MachineShutdownPreparationReport) io" where
  "prepare_executeAsAuthorized pc readers auditPort input processedAt source confirmationReader =
     (let reader = (case confirmationReader of None \<Rightarrow> rd_confirmation readers | Some r \<Rightarrow> r) in
      bindIO (liftIO (createMachineShutdownOccurrence input)) (\<lambda>occurrence.
      let prepare = prepareAt pc readers (shutdown_value occurrence) processedAt None reader in
      case auditPort of
        None \<Rightarrow> prepare
      | Some audit \<Rightarrow>
          audited audit
            (audit_attempt processedAt source ''prepare_machine_shutdown_occurrence''
               [(''scheduledFor'', JStr (shutdown_scheduledFor occurrence)),
                (''wakeScheduledFor'', JStr (wakeScheduledFor occurrence))])
            prepare (\<lambda>_. ''preparation_dependency_failed'') mapPreparationAudit hasPreparationEffect
            ''audit_failed_after_shutdown_preparation''))"

definition PrepareMachineShutdownOccurrence_execute ::
  "('w, int option) io \<Rightarrow> 'w PreparationControllers \<Rightarrow> 'w ReadinessReaders \<Rightarrow> 'w AuditPort option \<Rightarrow> jsval \<Rightarrow>
     ('w, MachineShutdownPreparationReport) io" where
  "PrepareMachineShutdownOccurrence_execute clock pc readers auditPort input =
     bindIO clock (\<lambda>now.
     bindIO (liftIO (toISOString now)) (\<lambda>processedAt.
     prepare_executeAsAuthorized pc readers auditPort input processedAt DIRECT_POWER_AUDIT_SOURCE None))"

end
