(* ===== verification/Machine_Stores.thy ===== *)
theory Machine_Stores
  imports Stores Machine_Execution
begin

text \<open>
  The in-memory stores of the machine's scheduler (\<open>power-management/infrastructure\<close>): the claims of
  shutdown occurrences (\<open>in-memory-machine-shutdown-occurrence-claim-store.ts\<close>) and the scheduler
  cursor (\<open>in-memory-machine-power-scheduler-cursor-store.ts\<close>), with the cursor and its results
  (\<open>domain/machine-power-scheduler-cursor.ts\<close>, \<open>machine-power-scheduler-cursor-result.ts\<close>,
  \<open>machine-shutdown-occurrence-claim-pruning-result.ts\<close>). They provide the contracts \<open>claim_store\<close> and
  \<open>cursor_store\<close>. The stores' \<open>failure\<close> is a setting that makes every call fail.
\<close>

section \<open>The cursor\<close>

record MachinePowerSchedulerCursor =
  power_completedThrough :: string

abbreviation MachinePowerSchedulerCursorValidationError :: "string \<Rightarrow> js_error" where
  "MachinePowerSchedulerCursorValidationError \<equiv> NamedError ''MachinePowerSchedulerCursorValidationError''"

definition createMachinePowerSchedulerCursor :: "jsval \<Rightarrow> MachinePowerSchedulerCursor result" where
  "createMachinePowerSchedulerCursor input =
     (if \<not> is_plain_object input then Inl (MachinePowerSchedulerCursorValidationError ''invalid_record'')
      else if length (own_keys input) \<noteq> 1 \<or> \<not> has_own input ''completedThrough''
      then Inl (MachinePowerSchedulerCursorValidationError ''invalid_field'')
      else case canonical_string (get_prop input ''completedThrough'') of
        None \<Rightarrow> Inl (MachinePowerSchedulerCursorValidationError ''invalid_completed_through'')
      | Some t \<Rightarrow> Inr \<lparr>power_completedThrough = t\<rparr>)"

definition cursor_object :: "string \<Rightarrow> jsval" where
  "cursor_object t = literal_obj [(''completedThrough'', JStr t)]"

definition power_cursor_value :: "MachinePowerSchedulerCursor \<Rightarrow> jsval" where
  "power_cursor_value c = cursor_object (power_completedThrough c)"

definition isSameMachinePowerSchedulerCursor ::
  "MachinePowerSchedulerCursor option \<Rightarrow> MachinePowerSchedulerCursor option \<Rightarrow> bool" where
  "isSameMachinePowerSchedulerCursor left right \<longleftrightarrow>
     (case (left, right) of
        (Some l, Some r) \<Rightarrow> power_completedThrough l = power_completedThrough r
      | _ \<Rightarrow> left = right)"

datatype CursorAdvance = CursorAdvanced MachinePowerSchedulerCursor | CursorConflict "MachinePowerSchedulerCursor option"

abbreviation CursorAdvanceResultError :: "string \<Rightarrow> js_error" where
  "CursorAdvanceResultError \<equiv> NamedError ''MachinePowerSchedulerCursorAdvanceResultValidationError''"

definition createMachinePowerSchedulerCursorAdvanceResult :: "jsval \<Rightarrow> CursorAdvance result" where
  "createMachinePowerSchedulerCursorAdvanceResult input =
     (if \<not> is_plain_object input then Inl (CursorAdvanceResultError ''invalid_record'')
      else if \<not> list_all (key_in [''kind'', ''cursor'']) (own_keys input)
      then Inl (CursorAdvanceResultError ''invalid_field'')
      else if get_prop input ''kind'' \<noteq> JStr ''advanced'' \<and> get_prop input ''kind'' \<noteq> JStr ''conflict''
      then Inl (CursorAdvanceResultError ''invalid_kind'')
      else if \<not> has_own input ''cursor'' then Inl (CursorAdvanceResultError ''invalid_cursor'')
      else if get_prop input ''kind'' = JStr ''advanced''
      then bindR (createMachinePowerSchedulerCursor (get_prop input ''cursor'')) (\<lambda>c. Inr (CursorAdvanced c))
      else if get_prop input ''cursor'' = JNull then Inr (CursorConflict None)
      else bindR (createMachinePowerSchedulerCursor (get_prop input ''cursor'')) (\<lambda>c. Inr (CursorConflict (Some c))))"

definition advance_object :: "string \<Rightarrow> MachinePowerSchedulerCursor option \<Rightarrow> jsval" where
  "advance_object k c = literal_obj [(''kind'', JStr k),
     (''cursor'', case c of None \<Rightarrow> JNull | Some c \<Rightarrow> power_cursor_value c)]"

definition power_cursor_read ::
  "js_error option \<Rightarrow> MachinePowerSchedulerCursor option \<Rightarrow> MachinePowerSchedulerCursor option result" where
  "power_cursor_read failure cursor = (case failure of Some e \<Rightarrow> Inl e | None \<Rightarrow> Inr cursor)"

definition power_cursor_advance ::
  "js_error option \<Rightarrow> MachinePowerSchedulerCursor option \<Rightarrow> MachinePowerSchedulerCursor \<Rightarrow>
     MachinePowerSchedulerCursor option \<Rightarrow> CursorAdvance result \<times> MachinePowerSchedulerCursor option" where
  "power_cursor_advance failure expected nextInput cursor =
     (case failure of
        Some e \<Rightarrow> (Inl e, cursor)
      | None \<Rightarrow>
          (case createMachinePowerSchedulerCursor (power_cursor_value nextInput) of
             Inl e \<Rightarrow> (Inl e, cursor)
           | Inr next \<Rightarrow>
               if \<not> isSameMachinePowerSchedulerCursor expected cursor
               then (createMachinePowerSchedulerCursorAdvanceResult (advance_object ''conflict'' cursor), cursor)
               else if (case cursor of None \<Rightarrow> False
                        | Some c \<Rightarrow> power_completedThrough next \<le> power_completedThrough c)
               then (Inl (NamedError ''InMemoryMachinePowerSchedulerCursorStoreError'' ''non_forward_cursor''), cursor)
               else (createMachinePowerSchedulerCursorAdvanceResult (advance_object ''advanced'' (Some next)), Some next)))"

section \<open>The claims\<close>

text \<open>
  A map from scheduled times to sets of wake times, as lists in the order of insertion. Its keys are
  distinct and its sets not empty.
\<close>

type_synonym power_claims = "(string \<times> string list) list"

definition claim_object :: "string \<Rightarrow> jsval" where
  "claim_object outcome = literal_obj [(''outcome'', JStr outcome)]"

definition power_claim ::
  "js_error option \<Rightarrow> MachineShutdownOccurrence \<Rightarrow> power_claims \<Rightarrow> bool result \<times> power_claims" where
  "power_claim failure input claims =
     (case createMachineShutdownOccurrence (shutdown_value input) of
        Inl e \<Rightarrow> (Inl e, claims)
      | Inr occurrence \<Rightarrow>
          (case failure of
             Some e \<Rightarrow> (Inl e, claims)
           | None \<Rightarrow>
               let wakes = claims_get claims (shutdown_scheduledFor occurrence);
                   duplicate = wakeScheduledFor occurrence \<in> set wakes in
               (createMachineShutdownOccurrenceClaimResult (claim_object (if duplicate then ''duplicate'' else ''claimed'')),
                AList.update (shutdown_scheduledFor occurrence)
                  (if duplicate then wakes else wakes @ [wakeScheduledFor occurrence]) claims)))"

definition createMachineShutdownOccurrenceClaimPruningResult :: "jsval \<Rightarrow> bool result" where
  "createMachineShutdownOccurrenceClaimPruningResult input =
     (if \<not> is_plain_object input
      then Inl (NamedError ''MachineShutdownOccurrenceClaimPruningResultValidationError'' ''invalid_record'')
      else if length (own_keys input) \<noteq> 1 \<or> \<not> has_own input ''outcome''
      then Inl (NamedError ''MachineShutdownOccurrenceClaimPruningResultValidationError'' ''invalid_field'')
      else if get_prop input ''outcome'' \<noteq> JStr ''pruned'' \<and> get_prop input ''outcome'' \<noteq> JStr ''unchanged''
      then Inl (NamedError ''MachineShutdownOccurrenceClaimPruningResultValidationError'' ''invalid_outcome'')
      else Inr (get_prop input ''outcome'' = JStr ''pruned''))"

definition power_prune ::
  "js_error option \<Rightarrow> MachinePowerSchedulerCursor \<Rightarrow> power_claims \<Rightarrow> bool result \<times> power_claims" where
  "power_prune failure cursor claims =
     (case failure of
        Some e \<Rightarrow> (Inl e, claims)
      | None \<Rightarrow>
          let removed = list_ex (\<lambda>(scheduled, _). scheduled \<le> power_completedThrough cursor) claims in
          (createMachineShutdownOccurrenceClaimPruningResult (claim_object (if removed then ''pruned'' else ''unchanged'')),
           filter (\<lambda>(scheduled, wakes). \<not> scheduled \<le> power_completedThrough cursor \<and> wakes \<noteq> []) claims))"

section \<open>The contracts\<close>

definition wf_power_claims :: "power_claims \<Rightarrow> bool" where
  "wf_power_claims claims \<longleftrightarrow> distinct (map fst claims) \<and>
     list_all (\<lambda>(scheduled, wakes). wakes \<noteq> [] \<and>
       list_all (\<lambda>wake. wf_shutdown \<lparr>shutdown_scheduledFor = scheduled, wakeScheduledFor = wake\<rparr>) wakes) claims"

definition is_power_claimed :: "power_claims \<Rightarrow> MachineShutdownOccurrence \<Rightarrow> bool" where
  "is_power_claimed claims o' \<longleftrightarrow> wakeScheduledFor o' \<in> set (claims_get claims (shutdown_scheduledFor o'))"

lemma claim_result_object [simp]:
  "createMachineShutdownOccurrenceClaimResult (claim_object ''claimed'') = Inr True"
  "createMachineShutdownOccurrenceClaimResult (claim_object ''duplicate'') = Inr False"
  "createMachineShutdownOccurrenceClaimPruningResult (claim_object ''pruned'') = Inr True"
  "createMachineShutdownOccurrenceClaimPruningResult (claim_object ''unchanged'') = Inr False"
  by (simp_all add: createMachineShutdownOccurrenceClaimResult_def createMachineShutdownOccurrenceClaimPruningResult_def
      claim_object_def literal_simps has_own_def)

lemma power_claim_value:
  "wf_shutdown o' \<Longrightarrow> power_claim None o' claims =
     (Inr (\<not> is_power_claimed claims o'),
      AList.update (shutdown_scheduledFor o')
        (if is_power_claimed claims o' then claims_get claims (shutdown_scheduledFor o')
         else claims_get claims (shutdown_scheduledFor o') @ [wakeScheduledFor o']) claims)"
  by (simp add: power_claim_def create_shutdown_value is_power_claimed_def Let_def)

lemma power_prune_value:
  "power_prune None cursor claims =
     (Inr (list_ex (\<lambda>(scheduled, _). scheduled \<le> power_completedThrough cursor) claims),
      filter (\<lambda>(scheduled, wakes). \<not> scheduled \<le> power_completedThrough cursor \<and> wakes \<noteq> []) claims)"
  by (simp add: power_prune_def Let_def)

lemma claims_get_filter:
  "distinct (map fst m) \<Longrightarrow> claims_get (filter (\<lambda>(k, v). P k \<and> v \<noteq> []) m) k = (if P k then claims_get m k else [])"
  by (induction m) (auto simp: claims_get_def map_of_eq_None_iff[THEN iffD2] image_iff split: option.splits)

lemma wf_power_claims_filter: "wf_power_claims m \<Longrightarrow> wf_power_claims (filter P m)"
  by (simp add: wf_power_claims_def distinct_map_filter list_all_iff)

lemma wf_power_claims_update:
  "wf_power_claims m \<Longrightarrow> v \<noteq> [] \<Longrightarrow>
     list_all (\<lambda>wake. wf_shutdown \<lparr>shutdown_scheduledFor = k, wakeScheduledFor = wake\<rparr>) v \<Longrightarrow>
     wf_power_claims (AList.update k v m)"
  using set_update[of k v m] by (fastforce simp: wf_power_claims_def list_all_iff distinct_update)

lemma claims_get_wf:
  "wf_power_claims m \<Longrightarrow> list_all (\<lambda>wake. wf_shutdown \<lparr>shutdown_scheduledFor = k, wakeScheduledFor = wake\<rparr>) (claims_get m k)"
  by (auto simp: wf_power_claims_def claims_get_def list_all_iff dest: map_of_SomeD split: option.splits)

text \<open>
  The contract speaks of all occurrences; one that is not well formed is never granted and never
  pruned, as if it were claimed for good.
\<close>

definition power_claimed :: "power_claims \<Rightarrow> MachineShutdownOccurrence \<Rightarrow> bool" where
  "power_claimed claims o' \<longleftrightarrow> \<not> wf_shutdown o' \<or> is_power_claimed claims o'"

definition power_covered :: "MachinePowerSchedulerCursor \<Rightarrow> MachineShutdownOccurrence \<Rightarrow> bool" where
  "power_covered c o' \<longleftrightarrow> wf_shutdown o' \<and> shutdown_scheduledFor o' \<le> power_completedThrough c"

definition grant_power_claim :: "MachineShutdownOccurrence \<Rightarrow> power_claims \<Rightarrow> bool \<times> power_claims" where
  "grant_power_claim o' claims = (fst (power_claim None o' claims) = Inr True, snd (power_claim None o' claims))"

definition prune_power_claims :: "MachinePowerSchedulerCursor \<Rightarrow> power_claims \<Rightarrow> bool \<times> power_claims" where
  "prune_power_claims c claims = (fst (power_prune None c claims) = Inr True, snd (power_prune None c claims))"

lemma create_shutdown_value_same: "createMachineShutdownOccurrence (shutdown_value o') = Inr x \<Longrightarrow> x = o'"
  by (cases o') (auto simp: createMachineShutdownOccurrence_def shutdown_value_def literal_simps split: if_splits)

lemma power_claim_rejected:
  assumes "\<not> wf_shutdown o'"
  shows "\<exists>e. power_claim None o' claims = (Inl e, claims)"
proof (cases "createMachineShutdownOccurrence (shutdown_value o')")
  case (Inr x)
  then have "wf_shutdown o'" using create_shutdown_value_same createMachineShutdownOccurrence_wf by blast
  then show ?thesis using assms by blast
qed (simp add: power_claim_def)

interpretation pcs: claim_store wf_power_claims power_claimed grant_power_claim prune_power_claims power_covered
proof
  fix s :: power_claims and x y :: MachineShutdownOccurrence and c :: MachinePowerSchedulerCursor
  assume wf: "wf_power_claims s"
  show "wf_power_claims (snd (grant_power_claim x s))"
  proof (cases "wf_shutdown x")
    case True
    have "wf_shutdown \<lparr>shutdown_scheduledFor = shutdown_scheduledFor x, wakeScheduledFor = wakeScheduledFor x\<rparr>"
      using True by (simp add: wf_shutdown_def)
    then show ?thesis
      using True wf claims_get_wf[OF wf, of "shutdown_scheduledFor x"]
      by (auto simp: grant_power_claim_def power_claim_value is_power_claimed_def intro!: wf_power_claims_update)
  next
    case False
    then show ?thesis using wf power_claim_rejected[of x s] by (auto simp: grant_power_claim_def)
  qed
  show "wf_power_claims (snd (prune_power_claims c s))"
    using wf by (simp add: prune_power_claims_def power_prune_value wf_power_claims_filter)
  show "fst (grant_power_claim x s) \<longleftrightarrow> \<not> power_claimed s x"
    using power_claim_rejected[of x s] by (cases "wf_shutdown x") (auto simp: grant_power_claim_def power_claim_value power_claimed_def)
  show "power_claimed (snd (grant_power_claim x s)) y \<longleftrightarrow> y = x \<or> power_claimed s y"
    using power_claim_rejected[of x s]
    by (cases "wf_shutdown x"; cases x; cases y)
      (auto simp: grant_power_claim_def power_claim_value power_claimed_def is_power_claimed_def)
  show "power_claimed (snd (prune_power_claims c s)) y \<longleftrightarrow> power_claimed s y \<and> \<not> power_covered c y"
    using wf by (auto simp: prune_power_claims_def power_prune_value power_claimed_def is_power_claimed_def
        power_covered_def claims_get_filter wf_power_claims_def)
  show "fst (prune_power_claims c s) \<longleftrightarrow> (\<exists>y. power_claimed s y \<and> power_covered c y)"
  proof
    assume "fst (prune_power_claims c s)"
    then obtain k ws where k: "(k, ws) \<in> set s" "k \<le> power_completedThrough c"
      by (auto simp: prune_power_claims_def power_prune_value list_ex_iff)
    then have ws: "ws \<noteq> []" "list_all (\<lambda>wake. wf_shutdown \<lparr>shutdown_scheduledFor = k, wakeScheduledFor = wake\<rparr>) ws"
      "claims_get s k = ws"
      using wf map_of_claims[of s k ws] by (auto simp: wf_power_claims_def list_all_iff)
    obtain w where "w \<in> set ws" using ws(1) by (cases ws) auto
    then show "\<exists>y. power_claimed s y \<and> power_covered c y"
      using k ws
      by (intro exI[of _ "\<lparr>shutdown_scheduledFor = k, wakeScheduledFor = w\<rparr>"])
        (simp add: power_claimed_def is_power_claimed_def power_covered_def list_all_iff)
  next
    assume "\<exists>y. power_claimed s y \<and> power_covered c y"
    then obtain y where "is_power_claimed s y" "shutdown_scheduledFor y \<le> power_completedThrough c"
      by (auto simp: power_claimed_def power_covered_def)
    then show "fst (prune_power_claims c s)"
      by (auto simp: is_power_claimed_def prune_power_claims_def power_prune_value list_ex_iff dest!: in_claims_get)
  qed
qed

text \<open>The cursor store, whose result carries the cursor that it then holds.\<close>

definition advance_flag :: "CursorAdvance result \<Rightarrow> bool result" where
  "advance_flag r = bindR r (\<lambda>a. Inr (case a of CursorAdvanced _ \<Rightarrow> True | CursorConflict _ \<Rightarrow> False))"

definition advance_power_cursor ::
  "MachinePowerSchedulerCursor option \<Rightarrow> MachinePowerSchedulerCursor \<Rightarrow> MachinePowerSchedulerCursor option \<Rightarrow>
     bool result \<times> MachinePowerSchedulerCursor option" where
  "advance_power_cursor expected next cursor =
     (advance_flag (fst (power_cursor_advance None expected next cursor)), snd (power_cursor_advance None expected next cursor))"

lemma isSamePowerCursor_eq: "isSameMachinePowerSchedulerCursor a b \<longleftrightarrow> a = b"
  by (cases a; cases b) (auto simp: isSameMachinePowerSchedulerCursor_def)

lemma createPowerCursor_object:
  "createMachinePowerSchedulerCursor (cursor_object t) =
     (if canonical t then Inr \<lparr>power_completedThrough = t\<rparr>
      else Inl (MachinePowerSchedulerCursorValidationError ''invalid_completed_through''))"
  by (simp add: createMachinePowerSchedulerCursor_def cursor_object_def literal_simps has_own_def)

lemma createPowerCursor_value:
  "canonical (power_completedThrough c) \<Longrightarrow> createMachinePowerSchedulerCursor (power_cursor_value c) = Inr c"
  by (cases c) (simp add: power_cursor_value_def createPowerCursor_object)

lemma power_cursor_value_not_null: "power_cursor_value c \<noteq> JNull"
  by (simp add: power_cursor_value_def cursor_object_def literal_obj_def)

lemma advance_object_created:
  "canonical (power_completedThrough c) \<Longrightarrow>
     createMachinePowerSchedulerCursorAdvanceResult (advance_object ''advanced'' (Some c)) = Inr (CursorAdvanced c)"
  "pred_option (\<lambda>c. canonical (power_completedThrough c)) cursor \<Longrightarrow>
     createMachinePowerSchedulerCursorAdvanceResult (advance_object ''conflict'' cursor) = Inr (CursorConflict cursor)"
proof -
  note rules = createMachinePowerSchedulerCursorAdvanceResult_def advance_object_def literal_simps has_own_def
    createPowerCursor_value power_cursor_value_not_null
  show "createMachinePowerSchedulerCursorAdvanceResult (advance_object ''advanced'' (Some c)) = Inr (CursorAdvanced c)"
    if "canonical (power_completedThrough c)"
    using that by (simp add: rules)
  show "createMachinePowerSchedulerCursorAdvanceResult (advance_object ''conflict'' cursor) = Inr (CursorConflict cursor)"
    if "pred_option (\<lambda>c. canonical (power_completedThrough c)) cursor"
    using that by (cases cursor) (simp_all add: rules)
qed

lemma advance_power_cursor_value:
  assumes "pred_option (\<lambda>c. canonical (power_completedThrough c)) cursor"
  shows "advance_power_cursor expected next cursor =
    (if \<not> canonical (power_completedThrough next)
     then (Inl (MachinePowerSchedulerCursorValidationError ''invalid_completed_through''), cursor)
     else if expected \<noteq> cursor then (Inr False, cursor)
     else if (case cursor of None \<Rightarrow> False | Some c \<Rightarrow> power_completedThrough next \<le> power_completedThrough c)
     then (Inl (NamedError ''InMemoryMachinePowerSchedulerCursorStoreError'' ''non_forward_cursor''), cursor)
     else (Inr True, Some next))"
  using advance_object_created(1)[of "next"] advance_object_created(2)[OF assms]
  by (cases "next"; cases cursor)
    (simp_all add: advance_power_cursor_def power_cursor_advance_def power_cursor_value_def createPowerCursor_object
      isSamePowerCursor_eq advance_flag_def)

interpretation pcur: cursor_store "\<lambda>c. c" advance_power_cursor power_completedThrough
  "\<lambda>c. canonical (power_completedThrough c)"
proof
  fix s expected :: "MachinePowerSchedulerCursor option" and "next" :: MachinePowerSchedulerCursor
  assume "pred_option (\<lambda>c. canonical (power_completedThrough c)) s"
  note v = advance_power_cursor_value[OF this, of expected "next"]
  show "fst (advance_power_cursor expected next s) = Inr True \<longleftrightarrow>
      canonical (power_completedThrough next) \<and> s = expected \<and>
      (case expected of None \<Rightarrow> True | Some c \<Rightarrow> power_completedThrough c < power_completedThrough next)"
    unfolding v by (cases expected) (auto simp: not_le)
  show "fst (advance_power_cursor expected next s) = Inr False \<longleftrightarrow> s \<noteq> expected"
    if "canonical (power_completedThrough next)"
    unfolding v using that by (cases s) auto
  show "snd (advance_power_cursor expected next s) =
      (if fst (advance_power_cursor expected next s) = Inr True then Some next else s)"
    unfolding v by simp
qed

end
