(* ===== verification/Machine_Scheduler.thy ===== *)
theory Machine_Scheduler
  imports Machine_Stores Scheduler_Loop
begin

text \<open>
  The scheduler of shutdowns (\<open>power-management\<close>): items and reports of a tick
  (\<open>domain/machine-power-scheduler-report.ts\<close>), its results (\<open>machine-power-scheduler-result.ts\<close>), the tick
  itself (\<open>application/run-machine-power-scheduler-tick.ts\<close>) and the loop that repeats it
  (\<open>application/machine-power-scheduler-loop.ts\<close>).
\<close>

section \<open>Reports\<close>

datatype MachinePowerSchedulerItem =
    ItemCompleted MachineShutdownOccurrenceExecutionResult
  | ItemFailed MachineShutdownOccurrence string
  | ItemRejected MachineShutdownOccurrence MachineShutdownReadinessDecision "MachineShutdownPreparationReport option"

record MachinePowerSchedulerReport =
  pr_completedThrough :: string
  pr_tickedThrough :: string
  pr_results :: "MachinePowerSchedulerItem list"
  pr_complete :: bool

text \<open>The constructors on the literals of the tick.\<close>

fun createMachinePowerSchedulerItem :: "MachinePowerSchedulerItem \<Rightarrow> MachinePowerSchedulerItem result" where
  "createMachinePowerSchedulerItem (ItemCompleted execution) = Inr (ItemCompleted execution)"
| "createMachinePowerSchedulerItem (ItemFailed occurrenceInput code) =
     bindR (createMachineShutdownOccurrence (shutdown_value occurrenceInput)) (\<lambda>occurrence.
     if code \<in> set [''claim_failed'', ''wake_alarm_preparation_failed'', ''shutdown_failed_after_wake_scheduled'',
                     ''unexpected_execution_failure'']
     then Inr (ItemFailed occurrence code) else Inl (PlainError ''invalid scheduler item''))"
| "createMachinePowerSchedulerItem (ItemRejected occurrenceInput decision reportInput) =
     bindR (optionR report_again reportInput) (\<lambda>report.
     if \<not> report_is [preparation_blocked] report then Inl (PlainError ''invalid scheduler item'')
     else bindR (createMachineShutdownOccurrence (shutdown_value occurrenceInput)) (\<lambda>occurrence.
          Inr (ItemRejected occurrence decision report)))"

fun unfinished_outcome :: "ExecutionOutcome \<Rightarrow> bool" where
  "unfinished_outcome ExecutionNotDue = True"
| "unfinished_outcome (ExecutionPreparationIncomplete _) = True"
| "unfinished_outcome _ = False"

fun rejected_outcome :: "ExecutionOutcome \<Rightarrow> bool" where
  "rejected_outcome (ExecutionRejected _ _) = True"
| "rejected_outcome _ = False"

text \<open>The test \<open>complete\<close> of the tick, and that of the report, which also excludes \<open>rejected\<close>.\<close>

fun item_complete :: "MachinePowerSchedulerItem \<Rightarrow> bool" where
  "item_complete (ItemCompleted execution) \<longleftrightarrow> \<not> unfinished_outcome (execution_outcome execution)"
| "item_complete _ \<longleftrightarrow> False"

fun report_item_complete :: "MachinePowerSchedulerItem \<Rightarrow> bool" where
  "report_item_complete (ItemCompleted execution) \<longleftrightarrow>
     \<not> rejected_outcome (execution_outcome execution) \<and> \<not> unfinished_outcome (execution_outcome execution)"
| "report_item_complete _ \<longleftrightarrow> False"

definition createMachinePowerSchedulerReport ::
  "string \<Rightarrow> string \<Rightarrow> MachinePowerSchedulerItem list \<Rightarrow> bool \<Rightarrow> MachinePowerSchedulerReport result" where
  "createMachinePowerSchedulerReport through ticked items isComplete =
     (if \<not> canonical through \<or> \<not> canonical ticked then Inl (PlainError ''invalid scheduler report'')
      else bindR (mapR createMachinePowerSchedulerItem items) (\<lambda>results.
        let all = list_all report_item_complete results in
        if isComplete \<noteq> all \<or> time_of through > time_of ticked
        then Inl (PlainError ''invalid scheduler report'')
        else Inr \<lparr>pr_completedThrough = through, pr_tickedThrough = ticked, pr_results = results,
                  pr_complete = all\<rparr>))"

text \<open>The Boolean of a pruning is \<open>pruned\<close>, against \<open>unchanged\<close>.\<close>

datatype MachinePowerSchedulerResult =
    PowerInitialized MachinePowerSchedulerCursor
  | PowerIdle MachinePowerSchedulerCursor string
  | PowerBlocked MachinePowerSchedulerCursor string string
  | PowerIncomplete MachinePowerSchedulerCursor MachinePowerSchedulerReport bool
  | PowerAdvanced MachinePowerSchedulerCursor MachinePowerSchedulerCursor MachinePowerSchedulerReport bool
  | PowerConflict "MachinePowerSchedulerCursor option" MachinePowerSchedulerCursor
      "MachinePowerSchedulerCursor option" MachinePowerSchedulerReport "bool option"

section \<open>The tick\<close>

definition MAX_INTERVAL :: int where
  "MAX_INTERVAL = 8 * 24 * 60 * 60 * 1000"

record 'w TickPorts =
  tk_now :: "('w, int option) io"
  tk_read :: "('w, MachinePowerSchedulerCursor option) io"
  tk_advance :: "MachinePowerSchedulerCursor option \<Rightarrow> MachinePowerSchedulerCursor \<Rightarrow> ('w, CursorAdvance) io"
  tk_prune :: "MachinePowerSchedulerCursor \<Rightarrow> ('w, bool) io"
  tk_executeAt :: "jsval \<Rightarrow> string \<Rightarrow> jsval \<Rightarrow> 'w ExecutionOptions \<Rightarrow> ('w, MachineShutdownOccurrenceExecutionResult) io"
  tk_confirmationReader :: "'w confirmation_reader"
  tk_audit :: "'w AuditPort option"

definition execute_item ::
  "'w TickPorts \<Rightarrow> string \<Rightarrow> MachineShutdownOccurrence \<Rightarrow> ('w, MachinePowerSchedulerItem) io" where
  "execute_item ports tickedAt occurrence =
     catchIO
       (bindIO (tk_executeAt ports (shutdown_value occurrence) tickedAt SCHEDULER_POWER_AUDIT_SOURCE
                  \<lparr>opt_confirmationReader = Some (tk_confirmationReader ports), opt_automaticallyPrepare = True\<rparr>) (\<lambda>execution.
        retIO (case execution_outcome execution of
            ExecutionRejected decision report \<Rightarrow> ItemRejected occurrence decision report
          | _ \<Rightarrow> ItemCompleted execution)))
       (\<lambda>e. retIO (ItemFailed occurrence (mapExecutionFailure e)))"

fun execute_items ::
  "'w TickPorts \<Rightarrow> string \<Rightarrow> MachineShutdownOccurrence list \<Rightarrow> MachinePowerSchedulerItem list \<Rightarrow>
     ('w, MachinePowerSchedulerItem list) io" where
  "execute_items ports tickedAt [] items = retIO items"
| "execute_items ports tickedAt (occurrence # occurrences) items =
     bindIO (execute_item ports tickedAt occurrence) (\<lambda>item.
     execute_items ports tickedAt occurrences (items @ [item]))"

definition emptyReport :: "string \<Rightarrow> MachinePowerSchedulerReport result" where
  "emptyReport tickedAt = createMachinePowerSchedulerReport tickedAt tickedAt [] True"

text \<open>The interval from the cursor to the tick, once it is known to be neither empty nor too large.\<close>

definition tick_interval ::
  "formatter \<Rightarrow> MachineOperatingPolicy \<Rightarrow> 'w TickPorts \<Rightarrow> MachinePowerSchedulerCursor \<Rightarrow>
     MachinePowerSchedulerCursor \<Rightarrow> string \<Rightarrow> ('w, MachinePowerSchedulerResult) io" where
  "tick_interval fmt policy ports current ticked tickedAt =
     bindIO (liftIO (createMachineShutdownOccurrencesForInterval fmt policy (power_completedThrough current) tickedAt))
       (\<lambda>occurrences.
     bindIO (execute_items ports tickedAt occurrences []) (\<lambda>items.
     bindIO (liftIO (createMachinePowerSchedulerReport (power_completedThrough current) tickedAt items
               (list_all item_complete items))) (\<lambda>report.
     bindIO (tk_prune ports current) (\<lambda>pruning.
     if \<not> pr_complete report then retIO (PowerIncomplete current report pruning)
     else bindIO (tk_advance ports (Some current) ticked) (\<lambda>advanced.
       case advanced of
         CursorConflict c \<Rightarrow> retIO (PowerConflict (Some current) ticked c report (Some pruning))
       | CursorAdvanced _ \<Rightarrow> retIO (PowerAdvanced current ticked report pruning))))))"

definition tick_core ::
  "formatter \<Rightarrow> MachineOperatingPolicy \<Rightarrow> 'w TickPorts \<Rightarrow> string \<Rightarrow> ('w, MachinePowerSchedulerResult) io" where
  "tick_core fmt policy ports tickedAt =
     bindIO (liftIO (createMachinePowerSchedulerCursor (cursor_object tickedAt))) (\<lambda>ticked.
     bindIO (tk_read ports) (\<lambda>current.
     case current of
       None \<Rightarrow>
         bindIO (tk_advance ports None ticked) (\<lambda>initialization.
         case initialization of
           CursorConflict c \<Rightarrow>
             bindIO (liftIO (emptyReport tickedAt)) (\<lambda>report. retIO (PowerConflict None ticked c report None))
         | CursorAdvanced _ \<Rightarrow> retIO (PowerInitialized ticked))
     | Some c \<Rightarrow>
         if tickedAt = power_completedThrough c then retIO (PowerIdle c tickedAt)
         else if tickedAt < power_completedThrough c then retIO (PowerBlocked c tickedAt ''clock_regression'')
         else if time_of tickedAt - time_of (power_completedThrough c) > MAX_INTERVAL
         then retIO (PowerBlocked c tickedAt ''interval_too_large'')
         else tick_interval fmt policy ports c ticked tickedAt))"

fun scheduler_kind :: "MachinePowerSchedulerResult \<Rightarrow> string" where
  "scheduler_kind (PowerInitialized _) = ''initialized''"
| "scheduler_kind (PowerIdle _ _) = ''idle''"
| "scheduler_kind (PowerBlocked _ _ _) = ''blocked''"
| "scheduler_kind (PowerIncomplete _ _ _) = ''incomplete''"
| "scheduler_kind (PowerAdvanced _ _ _ _) = ''advanced''"
| "scheduler_kind (PowerConflict _ _ _ _ _) = ''conflict''"

definition mapSchedulerAudit :: "string \<Rightarrow> MachinePowerSchedulerResult \<Rightarrow> string \<times> jsval" where
  "mapSchedulerAudit tickedAt r =
     (let base = [(''schedulerOutcome'', JStr (scheduler_kind r)), (''tickedThrough'', JStr tickedAt)];
          count = (\<lambda>report. (''occurrenceCount'', JNum (int (length (pr_results report)))));
          through = (\<lambda>c. (''completedThrough'', JStr (power_completedThrough c))) in
      case r of
        PowerAdvanced _ cursor report _ \<Rightarrow>
          (''succeeded'', literal_obj (base @ [(''complete'', JBool (pr_complete report)), through cursor, count report]))
      | PowerInitialized _ \<Rightarrow> (''succeeded'', literal_obj (base @ [(''complete'', JBool True)]))
      | PowerIdle _ _ \<Rightarrow> (''succeeded'', literal_obj (base @ [(''complete'', JBool True)]))
      | PowerIncomplete previous report _ \<Rightarrow> (''rejected'', literal_obj (base @ [through previous, count report]))
      | PowerConflict previous _ _ report _ \<Rightarrow>
          (''rejected'', literal_obj (base @ (case previous of None \<Rightarrow> [] | Some c \<Rightarrow> [through c]) @ [count report]))
      | PowerBlocked _ _ _ \<Rightarrow> (''rejected'', literal_obj base))"

definition hasSchedulerEffect :: "MachinePowerSchedulerResult \<Rightarrow> bool" where
  "hasSchedulerEffect r \<longleftrightarrow>
     (case r of PowerInitialized _ \<Rightarrow> True | PowerAdvanced _ _ _ _ \<Rightarrow> True | _ \<Rightarrow> False)"

definition tick_executeAsAuthorized ::
  "formatter \<Rightarrow> MachineOperatingPolicy \<Rightarrow> 'w TickPorts \<Rightarrow> string \<Rightarrow> jsval \<Rightarrow> ('w, MachinePowerSchedulerResult) io" where
  "tick_executeAsAuthorized fmt policy ports tickedAt source =
     (case tk_audit ports of
        None \<Rightarrow> tick_core fmt policy ports tickedAt
      | Some audit \<Rightarrow>
          audited audit
            (audit_attempt tickedAt source ''run_machine_power_scheduler_tick'' [(''tickedThrough'', JStr tickedAt)])
            (tick_core fmt policy ports tickedAt) (\<lambda>_. ''unexpected_execution_failure'') (mapSchedulerAudit tickedAt)
            hasSchedulerEffect ''audit_failed_after_scheduler_tick'')"

definition RunMachinePowerSchedulerTick_execute ::
  "formatter \<Rightarrow> MachineOperatingPolicy \<Rightarrow> 'w TickPorts \<Rightarrow> ('w, MachinePowerSchedulerResult) io" where
  "RunMachinePowerSchedulerTick_execute fmt policy ports =
     bindIO (tk_now ports) (\<lambda>now.
     bindIO (liftIO (toISOString now)) (\<lambda>tickedAt.
     tick_executeAsAuthorized fmt policy ports tickedAt SCHEDULER_POWER_AUDIT_SOURCE))"

section \<open>The loop of the machine's scheduler\<close>

text \<open>Every result of a tick is one the loop knows, so \<open>isMachinePowerSchedulerResult\<close> accepts it.\<close>

definition power_classify :: "MachinePowerSchedulerResult \<Rightarrow> MachinePowerSchedulerResult loop_completion option" where
  "power_classify r =
     (case r of
        PowerBlocked _ _ _ \<Rightarrow> Some (LoopBlocked r)
      | PowerIncomplete _ _ _ \<Rightarrow> Some (LoopIncomplete r)
      | PowerConflict _ _ _ _ _ \<Rightarrow> Some (LoopConflict r)
      | _ \<Rightarrow> None)"

interpretation pl: scheduler_loop power_classify
  by unfold_locales (auto simp: power_classify_def split: MachinePowerSchedulerResult.splits)

section \<open>The scheduler in one process\<close>

text \<open>
  The world of a process with the in-memory stores: the claims, the cursor, what was called so far
  and everything outside. A claim is noted when it is granted, the setting of the wake alarm with the
  mutation it answered (if that is valid), the shutdown when it is requested.
\<close>

datatype power_call =
    ClaimGranted MachineShutdownOccurrence
  | WakeRequested string string "WakeAlarmMutationResult option"
  | ShutdownRequested string

record 'x PowerWorld =
  pw_claims :: power_claims
  pw_cursor :: "MachinePowerSchedulerCursor option"
  pw_calls :: "power_call list"
  pw_outside :: 'x

record 'x PowerOutside =
  po_now :: "('x, int option) io"
  po_wake :: "string \<Rightarrow> string \<Rightarrow> ('x, jsval) io"
  po_shutdown :: "string \<Rightarrow> ('x, jsval) io"
  po_readiness :: "'x ReadinessReaders option"
  po_preparation :: "('x PreparationControllers \<times> 'x ReadinessReaders) option"
  po_audit :: "'x AuditPort option"

definition on_power :: "('x, 'a) io \<Rightarrow> ('x PowerWorld, 'a) io" where
  "on_power m = (\<lambda>w. case m (pw_outside w) of (r, x) \<Rightarrow> (r, w\<lparr>pw_outside := x\<rparr>))"

definition power_readers :: "'x ReadinessReaders \<Rightarrow> 'x PowerWorld ReadinessReaders" where
  "power_readers r =
     \<lparr>rd_confirmation = (\<lambda>o' at. on_power (rd_confirmation r o' at)), rd_services = (\<lambda>o' at. on_power (rd_services r o' at)),
      rd_activeTasks = (\<lambda>o' at. on_power (rd_activeTasks r o' at)), rd_backups = (\<lambda>o' at. on_power (rd_backups r o' at)),
      rd_filesystem = (\<lambda>o' at. on_power (rd_filesystem r o' at)),
      rd_eventRecording = (\<lambda>o' at. on_power (rd_eventRecording r o' at))\<rparr>"

definition power_controllers :: "'x PreparationControllers \<Rightarrow> 'x PowerWorld PreparationControllers" where
  "power_controllers c =
     \<lparr>pc_services = map_option (\<lambda>prepare o' at ids. on_power (prepare o' at ids)) (pc_services c),
      pc_drain = (\<lambda>o' at. on_power (pc_drain c o' at)), pc_complete = (\<lambda>o' at. on_power (pc_complete c o' at)),
      pc_synchronize = (\<lambda>o' at. on_power (pc_synchronize c o' at)), pc_record = (\<lambda>e. on_power (pc_record c e))\<rparr>"

definition power_audit :: "'x AuditPort \<Rightarrow> 'x PowerWorld AuditPort" where
  "power_audit a =
     \<lparr>audit_begin = (\<lambda>v. on_power (audit_begin a v)),
      audit_complete = (\<lambda>attempt status details. on_power (audit_complete a attempt status details))\<rparr>"

definition claim_in_memory :: "MachineShutdownOccurrence \<Rightarrow> ('x PowerWorld, jsval) io" where
  "claim_in_memory o' w =
     (case power_claim None o' (pw_claims w) of
        (Inl e, claims) \<Rightarrow> (Inl e, w\<lparr>pw_claims := claims\<rparr>)
      | (Inr granted, claims) \<Rightarrow>
          (Inr (claim_object (if granted then ''claimed'' else ''duplicate'')),
           w\<lparr>pw_claims := claims, pw_calls := pw_calls w @ (if granted then [ClaimGranted o'] else [])\<rparr>))"

definition answered :: "jsval result \<Rightarrow> WakeAlarmMutationResult option" where
  "answered r = (case bindR r createWakeAlarmMutationResult of Inl _ \<Rightarrow> None | Inr m \<Rightarrow> Some m)"

definition wake_in_process :: "'x PowerOutside \<Rightarrow> string \<Rightarrow> string \<Rightarrow> ('x PowerWorld, jsval) io" where
  "wake_in_process outs at wakeAt w =
     (case po_wake outs at wakeAt (pw_outside w) of
        (r, x) \<Rightarrow> (r, w\<lparr>pw_outside := x, pw_calls := pw_calls w @ [WakeRequested at wakeAt (answered r)]\<rparr>))"

definition shutdown_in_process :: "'x PowerOutside \<Rightarrow> string \<Rightarrow> ('x PowerWorld, jsval) io" where
  "shutdown_in_process outs at w =
     (case po_shutdown outs at (pw_outside w) of
        (r, x) \<Rightarrow> (r, w\<lparr>pw_outside := x, pw_calls := pw_calls w @ [ShutdownRequested at]\<rparr>))"

definition power_execution :: "'x PowerOutside \<Rightarrow> 'x PowerWorld ExecutionPorts" where
  "power_execution outs =
     \<lparr>ex_now = on_power (po_now outs), ex_claim = claim_in_memory, ex_wake = wake_in_process outs,
      ex_shutdown = shutdown_in_process outs, ex_readiness = map_option power_readers (po_readiness outs),
      ex_preparation = map_option (\<lambda>(c, r). (power_controllers c, power_readers r)) (po_preparation outs),
      ex_audit = map_option power_audit (po_audit outs)\<rparr>"

definition power_tick_ports :: "formatter \<Rightarrow> MachineOperatingPolicy \<Rightarrow> 'x PowerOutside \<Rightarrow> 'x PowerWorld TickPorts" where
  "power_tick_ports fmt policy outs =
     \<lparr>tk_now = on_power (po_now outs),
      tk_read = (\<lambda>w. (power_cursor_read None (pw_cursor w), w)),
      tk_advance = (\<lambda>expected next w. case power_cursor_advance None expected next (pw_cursor w) of
        (r, c) \<Rightarrow> (r, w\<lparr>pw_cursor := c\<rparr>)),
      tk_prune = (\<lambda>cursor w. case power_prune None cursor (pw_claims w) of (r, cs) \<Rightarrow> (r, w\<lparr>pw_claims := cs\<rparr>)),
      tk_executeAt = executeAt (power_execution outs),
      tk_confirmationReader = policy_confirmation_reader fmt policy,
      tk_audit = map_option power_audit (po_audit outs)\<rparr>"

definition power_tick ::
  "formatter \<Rightarrow> MachineOperatingPolicy \<Rightarrow> 'x PowerOutside \<Rightarrow> ('x PowerWorld, MachinePowerSchedulerResult) io" where
  "power_tick fmt policy outs = RunMachinePowerSchedulerTick_execute fmt policy (power_tick_ports fmt policy outs)"

definition power_start :: "'x \<Rightarrow> 'x PowerWorld" where
  "power_start x = \<lparr>pw_claims = [], pw_cursor = None, pw_calls = [], pw_outside = x\<rparr>"

text \<open>
  Steps of the process: ticks, direct executions of any occurrence (\<open>execute\<close> of the handler), executions
  over the administrative interface, which confirms by a reader of its own and does not prepare, and
  changes outside. A step is a whole handler: in the source, handlers over HTTP also run while a tick
  waits for a port, and such an interleaving is not a sequence of these steps. What one execution
  guards is therefore stated below for arbitrary ports, which may change the world at every call.
\<close>

inductive power_step ::
  "formatter \<Rightarrow> MachineOperatingPolicy \<Rightarrow> 'x PowerOutside \<Rightarrow> 'x PowerWorld \<Rightarrow> 'x PowerWorld \<Rightarrow> bool"
  for fmt :: formatter and policy :: MachineOperatingPolicy and outs :: "'x PowerOutside" where
  tick: "power_step fmt policy outs w (snd (power_tick fmt policy outs w))"
| direct: "power_step fmt policy outs w (snd (ExecuteMachineShutdownOccurrence_execute (power_execution outs) v w))"
| administrative: "power_step fmt policy outs w (snd (executeAt (power_execution outs) v at source
    \<lparr>opt_confirmationReader = Some (\<lambda>o' time. on_power (reader o' time)), opt_automaticallyPrepare = False\<rparr> w))"
| outside: "power_step fmt policy outs w (w\<lparr>pw_outside := x\<rparr>)"

inductive_cases power_stepE: "power_step fmt policy outs w w'"

end
