(* ===== verification/Machine_Safety.thy ===== *)
theory Machine_Safety
  imports Machine_Scheduler
begin

text \<open>
  What the scheduler of shutdowns guarantees. For arbitrary ports: an execution asks for a shutdown only
  at the end of its own chain of recording, readiness, claim and wake alarm, and a tick executes each
  occurrence of its interval once. In one process, over sequences of whole handlers: an occurrence is claimed
  once as long as the cursor has not passed it, and ticks alone never execute one twice; a tick moves the
  cursor only over an interval whose occurrences are all done with.
\<close>

section \<open>Calls that reach only the outside\<close>

definition outside_closed :: "('x PowerWorld \<Rightarrow> bool) \<Rightarrow> bool" where
  "outside_closed I \<longleftrightarrow> (\<forall>w x. I w \<longrightarrow> I (w\<lparr>pw_outside := x\<rparr>))"

lemma preserves_on_power: "outside_closed I \<Longrightarrow> preserves I (on_power m)"
  by (rule preservesI) (simp add: on_power_def outside_closed_def split: prod.splits)

lemma preserves_evaluateAt:
  assumes I: "outside_closed I" and reader: "\<And>o' at. preserves I (reader o' at)"
  shows "preserves I (evaluateAt (power_readers rd) input at reader)"
proof -
  have ports: "preserves I (rd_services (power_readers rd) o' at)" "preserves I (rd_activeTasks (power_readers rd) o' at)"
    "preserves I (rd_backups (power_readers rd) o' at)" "preserves I (rd_filesystem (power_readers rd) o' at)"
    "preserves I (rd_eventRecording (power_readers rd) o' at)" for o' at
    by (simp_all add: power_readers_def preserves_on_power[OF I])
  have state: "preserves I (collect_state read area)" if "preserves I read" for read area
    unfolding collect_state_def by (intro preserves_intros that)
  show ?thesis
    unfolding evaluateAt_def evaluate_readers_def collectService_def Let_def
    by (intro preserves_intros reader ports state)
qed

lemma preserves_perform_step:
  assumes "outside_closed I"
  shows "preserves I (try_step (power_controllers c) o' at d k)"
  unfolding try_step_def Machine_Preparation.perform_step_def Let_def power_controllers_def
  by (auto intro!: preserves_intros preserves_on_power[OF assms] split: option.splits)

lemma preserves_record_event:
  assumes "outside_closed I"
  shows "preserves I (record_event (power_controllers c) o' at k detail st)"
  unfolding record_event_def Let_def power_controllers_def
  by (auto intro!: preserves_intros preserves_on_power[OF assms])

lemma preserves_preparation_loop:
  assumes "outside_closed I"
  shows "preserves I (preparation_loop (power_controllers c) plan o' at d ks st)"
proof (induction ks arbitrary: st)
  case (Cons k ks)
  show ?case
    unfolding preparation_loop.simps Let_def incomplete_report_def
    by (intro preserves_intros Cons.IH preserves_perform_step[OF assms] preserves_record_event[OF assms])
qed (simp add: preserves_intros)

lemma preserves_prepareAt:
  assumes I: "outside_closed I" and reader: "\<And>o' at. preserves I (reader o' at)"
  shows "preserves I (prepareAt (power_controllers c) (power_readers rd) input at supplied reader)"
proof -
  have sum: "preserves I (case r of Inl x \<Rightarrow> f x | Inr y \<Rightarrow> g y)"
    if "\<And>x. preserves I (f x)" "\<And>y. preserves I (g y)" for r f g
    using that by (cases r) simp_all
  show ?thesis
    unfolding prepareAt_def run_preparation_def preparation_finish_def incomplete_report_def Let_def
    by (intro preserves_intros sum preserves_evaluateAt[OF I reader] preserves_record_event[OF I]
        preserves_preparation_loop[OF I])
qed

lemma preserves_audited:
  assumes I: "outside_closed I" and "preserves I operation"
  shows "preserves I (audited (power_audit audit) v operation code terminal hasEffect partial)"
  unfolding audited_def power_audit_def AuditPort.simps
  by (intro preserves_intros assms(2) preserves_on_power[OF I])

section \<open>One execution\<close>

text \<open>The worlds whose stores and calls are those of \<open>w\<close>: only the outside moved on.\<close>

definition same_stores :: "'x PowerWorld \<Rightarrow> 'x PowerWorld \<Rightarrow> bool" where
  "same_stores w v \<longleftrightarrow> pw_claims v = pw_claims w \<and> pw_cursor v = pw_cursor w \<and> pw_calls v = pw_calls w"

lemma same_stores_closed: "outside_closed (same_stores w)"
  by (simp add: outside_closed_def same_stores_def)

lemma same_stores_refl [simp]: "same_stores w w"
  by (simp add: same_stores_def)

text \<open>What a granted claim leads to: the wake alarm, and if that answered, the shutdown.\<close>

definition launch :: "MachineShutdownOccurrence \<Rightarrow> string \<Rightarrow> WakeAlarmMutationResult option \<Rightarrow> power_call list" where
  "launch o' at m =
     [ClaimGranted o', WakeRequested at (wakeScheduledFor o') m] @ (if m = None then [] else [ShutdownRequested at])"

lemma execute_effects_calls:
  assumes "execute_effects (power_execution outs) o' at report w = (r, w')"
  shows "pw_cursor w' = pw_cursor w \<and> pw_claims w' = snd (power_claim None o' (pw_claims w)) \<and>
    (\<exists>m. pw_calls w' = pw_calls w @ (if fst (power_claim None o' (pw_claims w)) = Inr True then launch o' at m else []))"
proof -
  obtain granted claims where c: "power_claim None o' (pw_claims w) = (granted, claims)" by fastforce
  note defs = execute_effects_def power_execution_def ExecutionPorts.simps
  show ?thesis
  proof (cases granted)
    case (Inl e)
    then show ?thesis
      using assms c by (auto simp: defs claim_in_memory_def bindIO_def catchIO_def throwIO_def)
  next
    case (Inr g)
    let ?w1 = "w\<lparr>pw_claims := claims, pw_calls := pw_calls w @ (if g then [ClaimGranted o'] else [])\<rparr>"
    have claim: "bindIO (claim_in_memory o') (\<lambda>v. liftIO (createMachineShutdownOccurrenceClaimResult v)) w = (Inr g, ?w1)"
      using c Inr by (cases g) (simp_all add: claim_in_memory_def bindIO_def liftIO_def)
    show ?thesis
    proof (cases g)
      case False
      then show ?thesis using assms c Inr claim by (auto simp: defs bindIO_def catchIO_def liftIO_def)
    next
      case True
      obtain a x where a: "po_wake outs at (wakeScheduledFor o') (pw_outside w) = (a, x)" by fastforce
      let ?w2 = "?w1\<lparr>pw_outside := x, pw_calls := pw_calls w @ [ClaimGranted o', WakeRequested at (wakeScheduledFor o') (answered a)]\<rparr>"
      have wake: "bindIO (wake_in_process outs at (wakeScheduledFor o')) (\<lambda>v. liftIO (createWakeAlarmMutationResult v)) ?w1 =
          (bindR a createWakeAlarmMutationResult, ?w2)"
        using a True by (cases a) (simp_all add: wake_in_process_def bindIO_def liftIO_def)
      obtain b y where b: "po_shutdown outs at x = (b, y)" by fastforce
      define w3 where "w3 m = ?w2\<lparr>pw_outside := y, pw_calls := pw_calls w @ launch o' at (Some m)\<rparr>" for m
      have off: "bindIO (shutdown_in_process outs at) (\<lambda>v. liftIO (createMachineShutdownResult v)) ?w2 =
          (bindR b createMachineShutdownResult, w3 m)" if "answered a = Some m" for m
        using b that by (cases b) (simp_all add: w3_def shutdown_in_process_def bindIO_def liftIO_def launch_def)
      show ?thesis
      proof (cases "bindR a createWakeAlarmMutationResult")
        case Left: (Inl e)
        have "w' = ?w2" using assms c Inr claim wake Left True by (auto simp: defs bindIO_def catchIO_def throwIO_def)
        then show ?thesis using Inr c True Left by (auto simp: answered_def launch_def intro!: exI[of _ None])
      next
        case Right: (Inr m)
        then have "answered a = Some m" by (simp add: answered_def)
        note off = off[OF this]
        have "w' = w3 m"
          using assms c Inr claim wake Right True off
          by (cases "bindR b createMachineShutdownResult")
            (auto simp: defs bindIO_def catchIO_def throwIO_def liftIO_def split: sum.splits)
        then show ?thesis using Inr c True by (auto simp: w3_def intro!: exI[of _ "Some m"])
      qed
    qed
  qed
qed

text \<open>A confirmation reader given as an option touches none of the stores.\<close>

definition reads_only :: "'x PowerWorld ExecutionOptions \<Rightarrow> bool" where
  "reads_only opts \<longleftrightarrow>
     (\<forall>reader. opt_confirmationReader opts = Some reader \<longrightarrow> (\<forall>w o' at. preserves (same_stores w) (reader o' at)))"

lemma preserves_reader_of:
  "reads_only opts \<Longrightarrow> preserves (same_stores w) (reader_of opts (power_readers rd) o' at)"
  by (auto simp: reader_of_def reads_only_def power_readers_def preserves_on_power[OF same_stores_closed] split: option.splits)

lemma prepare_and_execute_runs:
  assumes "prepare_and_execute (power_execution outs) o' at opts decision w = (r, w')" and opts: "reads_only opts"
  shows "same_stores w w' \<or>
    (\<exists>v report. same_stores w v \<and> execute_effects (power_execution outs) o' at report v = (r, w'))"
proof (cases "execute_effects (power_execution outs) o' at None w = (r, w')")
  case True
  then show ?thesis using same_stores_refl by blast
next
  case False
  have prep: "ex_preparation (power_execution outs) =
      map_option (\<lambda>(c, r). (power_controllers c, power_readers r)) (po_preparation outs)"
    by (simp add: power_execution_def)
  obtain c rd d where p: "po_preparation outs = Some (c, rd)" "decision = Some d" "opt_automaticallyPrepare opts"
    using assms(1) False by (auto simp: prepare_and_execute_def prep split: option.splits if_splits)
  let ?reader = "reader_of opts (power_readers rd)"
  let ?prepare = "prepareAt (power_controllers c) (power_readers rd) (shutdown_value o') at (Some d) ?reader"
  obtain a v where a: "?prepare w = (a, v)" by fastforce
  have same: "same_stores w v"
    by (rule preservesD[OF preserves_prepareAt[OF same_stores_closed preserves_reader_of[OF opts]] same_stores_refl a])
  have run: "prepare_and_execute (power_execution outs) o' at opts decision w = bindIO ?prepare (\<lambda>report.
      if report_outcome report = preparation_blocked
      then liftIO (createMachineShutdownOccurrenceExecutionResult o' at (ExecutionRejected d (Some report)))
      else if report_outcome report = preparation_incomplete
      then liftIO (createMachineShutdownOccurrenceExecutionResult o' at (ExecutionPreparationIncomplete report))
      else execute_effects (power_execution outs) o' at (Some report)) w"
    by (simp add: prepare_and_execute_def prep p)
  show ?thesis
  proof (cases a)
    case (Inl e)
    then show ?thesis using same assms(1) unfolding run by (simp add: bindIO_def a)
  next
    case (Inr report)
    have "same_stores w w' \<or> execute_effects (power_execution outs) o' at (Some report) v = (r, w')"
      using same assms(1) unfolding run bindIO_run[of ?prepare w, OF a[unfolded Inr]] by (auto simp: liftIO_def split: if_splits)
    then show ?thesis using same by blast
  qed
qed

lemma executeCore_runs:
  assumes "executeCore (power_execution outs) o' at opts w = (r, w')" and opts: "reads_only opts"
  shows "same_stores w w' \<or>
    (\<exists>v report. same_stores w v \<and> execute_effects (power_execution outs) o' at report v = (r, w'))"
proof (cases "earlier at (shutdown_scheduledFor o') \<or> not_earlier at (wakeScheduledFor o')")
  case True
  then have "same_stores w w'" using assms(1) by (auto simp: executeCore_def liftIO_def split: if_splits)
  then show ?thesis ..
next
  case not_due: False
  have ports: "ex_readiness (power_execution outs) = map_option power_readers (po_readiness outs)"
    by (simp add: power_execution_def)
  show ?thesis
  proof (cases "po_readiness outs")
    case None
    then have "prepare_and_execute (power_execution outs) o' at opts None w = (r, w')"
      using assms(1) not_due ports by (simp add: executeCore_def)
    from prepare_and_execute_runs[OF this opts] show ?thesis .
  next
    case (Some rd)
    let ?evaluate = "evaluateAt (power_readers rd) (shutdown_value o') at (reader_of opts (power_readers rd))"
    obtain x v where x: "?evaluate w = (x, v)" by fastforce
    have same: "same_stores w v"
      by (rule preservesD[OF preserves_evaluateAt[OF same_stores_closed preserves_reader_of[OF opts]] same_stores_refl x])
    show ?thesis
    proof (cases x)
      case (Inl e)
      then show ?thesis using assms(1) not_due ports Some x same by (simp add: executeCore_def bindIO_def)
    next
      case (Inr d)
      then have "same_stores v w' \<or> prepare_and_execute (power_execution outs) o' at opts (Some d) v = (r, w')"
        using assms(1) not_due ports Some x
        by (auto simp: executeCore_def bindIO_run[of ?evaluate w] liftIO_def split: if_splits)
      then have "same_stores v w' \<or>
          (\<exists>u report. same_stores v u \<and> execute_effects (power_execution outs) o' at report u = (r, w'))"
        using prepare_and_execute_runs[OF _ opts] by blast
      then show ?thesis using same unfolding same_stores_def by metis
    qed
  qed
qed

text \<open>The stores after an execution: as they were, or the claim was tried, and if granted, the launch begun.\<close>

definition executed_stores :: "MachineShutdownOccurrence \<Rightarrow> string \<Rightarrow> 'x PowerWorld \<Rightarrow> 'x PowerWorld \<Rightarrow> bool" where
  "executed_stores o' at w w' \<longleftrightarrow>
     pw_cursor w' = pw_cursor w \<and>
     (pw_claims w' = pw_claims w \<and> pw_calls w' = pw_calls w \<or>
      pw_claims w' = snd (grant_power_claim o' (pw_claims w)) \<and>
      (\<exists>m. pw_calls w' = pw_calls w @ (if fst (grant_power_claim o' (pw_claims w)) then launch o' at m else [])))"

lemma executeCore_stores:
  assumes "reads_only opts" and "executeCore (power_execution outs) o' at opts w = (r, w')"
  shows "executed_stores o' at w w'"
  using executeCore_runs[OF assms(2,1)]
proof (elim disjE exE conjE)
  fix v report
  assume "same_stores w v" and "execute_effects (power_execution outs) o' at report v = (r, w')"
  then show ?thesis
    using execute_effects_calls[of outs o' at report v r w']
    by (simp add: executed_stores_def same_stores_def grant_power_claim_def)
qed (simp add: executed_stores_def same_stores_def)

text \<open>The audit runs around an operation and reaches only the outside.\<close>

lemma bindIO_split:
  "bindIO m f w = (r, w') \<Longrightarrow>
     \<exists>x v. m w = (x, v) \<and> (case x of Inl e \<Rightarrow> r = Inl e \<and> w' = v | Inr y \<Rightarrow> f y v = (r, w'))"
  by (auto simp: bindIO_def split: prod.splits sum.splits)

lemma catchIO_split:
  "catchIO m h w = (r, w') \<Longrightarrow>
     \<exists>x v. m w = (x, v) \<and> (case x of Inl e \<Rightarrow> h e v = (r, w') | Inr y \<Rightarrow> r = Inr y \<and> w' = v)"
  by (auto simp: catchIO_def split: prod.splits sum.splits)

lemma audited_stores:
  fixes operation :: "('x PowerWorld, 'a) io"
  assumes "audited (power_audit audit) input operation code terminal hasEffect partialCode w = (r, w')"
  shows "same_stores w w' \<and> (\<exists>e. r = Inl e) \<or>
    (\<exists>v q u. same_stores w v \<and> operation v = (q, u) \<and> same_stores u w' \<and> (\<forall>x. r = Inr x \<longrightarrow> q = Inr x))"
proof -
  have outside: "preserves (same_stores u) (audit_begin (power_audit audit) i)"
    "preserves (same_stores u) (audit_complete (power_audit audit) attempt status details)" for u i attempt status details
    by (simp_all add: power_audit_def preserves_on_power[OF same_stores_closed])
  define handler :: "jsval \<Rightarrow> js_error \<Rightarrow> ('x PowerWorld, 'a) io" where "handler attempt e = bindIO (catchIO (audit_complete (power_audit audit) attempt ''failed''
      (literal_obj [(''failureCode'', JStr (code e))])) (\<lambda>_. retIO ())) (\<lambda>_. throwIO e)"
    for attempt e
  define ending where "ending attempt y = bindIO (catchIO (audit_complete (power_audit audit) attempt (fst (terminal y)) (snd (terminal y)))
      (\<lambda>e. throwIO (if isAuditError e \<and> hasEffect y
         then NamedError ''AdministrativeAuditPartialEffectError'' partialCode else e))) (\<lambda>_. retIO y)" for attempt y
  have parts: "preserves (same_stores u) (handler attempt e)" "preserves (same_stores u) (ending attempt y)" for u attempt e y
    unfolding handler_def ending_def by (intro preserves_intros outside)+
  have "bindIO (audit_begin (power_audit audit) input)
      (\<lambda>attempt. bindIO (catchIO operation (handler attempt)) (ending attempt)) w = (r, w')"
    using assms by (simp add: audited_def handler_def[abs_def] ending_def[abs_def])
  from bindIO_split[OF this] obtain b v where b: "audit_begin (power_audit audit) input w = (b, v)"
    "case b of Inl e \<Rightarrow> r = Inl e \<and> w' = v
     | Inr attempt \<Rightarrow> bindIO (catchIO operation (handler attempt)) (ending attempt) v = (r, w')"
    by (elim exE conjE) (rule that)
  have v: "same_stores w v" by (rule preservesD[OF outside(1) same_stores_refl b(1)])
  show ?thesis
  proof (cases b)
    case (Inl e)
    then show ?thesis using b v by simp
  next
    case (Inr attempt)
    from bindIO_split[OF b(2)[unfolded Inr sum.case]] obtain x u' where x: "catchIO operation (handler attempt) v = (x, u')"
      "case x of Inl e \<Rightarrow> r = Inl e \<and> w' = u' | Inr y \<Rightarrow> ending attempt y u' = (r, w')"
      by (elim exE conjE) (rule that)
    have last: "same_stores u' w'"
      using x(2) preservesD[OF parts(2) same_stores_refl] by (cases x) auto
    from catchIO_split[OF x(1)] obtain q u where q: "operation v = (q, u)"
      "case q of Inl e \<Rightarrow> handler attempt e u = (x, u') | Inr y \<Rightarrow> x = Inr y \<and> u' = u"
      by (elim exE conjE) (rule that)
    have "same_stores u u'"
      using q(2) preservesD[OF parts(1) same_stores_refl] by (cases q) auto
    then have "same_stores u w'" using last by (simp add: same_stores_def)
    moreover have "q = Inr z" if answer: "r = Inr z" for z
    proof -
      have no: "\<nexists>a b. handler attempt e u = (Inr a, b)" for e
        by (auto simp: handler_def bindIO_Inr)
      obtain y where y: "x = Inr y" "ending attempt y u' = (Inr z, w')" using x(2) answer by (cases x) auto
      then have "y = z" by (auto simp: ending_def bindIO_Inr)
      moreover have "q = x" using q(2) y(1) no by (cases q) auto
      ultimately show ?thesis using y(1) by simp
    qed
    ultimately show ?thesis using v q(1) by blast
  qed
qed

lemma executed_stores_same:
  "executed_stores o' at v u \<Longrightarrow> same_stores w v \<Longrightarrow> same_stores u w' \<Longrightarrow> executed_stores o' at w w'"
  by (simp add: executed_stores_def same_stores_def)

lemma executeAt_stores:
  assumes "createMachineShutdownOccurrence input = Inr o'" and "reads_only opts"
    and "executeAt (power_execution outs) input at source opts w = (r, w')"
  shows "executed_stores o' at w w'"
proof -
  note core = executeCore_stores[OF assms(2)]
  have audit: "ex_audit (power_execution outs) = map_option power_audit (po_audit outs)" by (simp add: power_execution_def)
  show ?thesis
  proof (cases "po_audit outs")
    case None
    then show ?thesis using assms(3) core by (simp add: executeAt_def assms(1) audit)
  next
    case (Some a)
    have same: "executed_stores o' at w w'" if "same_stores w w'"
      using that by (simp add: executed_stores_def same_stores_def)
    from assms(3) have "audited (power_audit a) (audit_attempt at source ''execute_machine_shutdown_occurrence''
        [(''scheduledFor'', JStr (shutdown_scheduledFor o')), (''wakeScheduledFor'', JStr (wakeScheduledFor o'))])
        (executeCore (power_execution outs) o' at opts) mapExecutionFailure mapExecutionAudit is_executed
        ''audit_failed_after_shutdown_execution'' w = (r, w')"
      by (simp add: executeAt_def assms(1) audit Some)
    from audited_stores[OF this] show ?thesis
      by (elim disjE exE conjE) (auto intro: same executed_stores_same[OF core])
  qed
qed

section \<open>Invariants\<close>

lemma reads_only_options:
  "reads_only default_options"
  "reads_only \<lparr>opt_confirmationReader = Some (policy_confirmation_reader fmt policy), opt_automaticallyPrepare = b\<rparr>"
  "reads_only \<lparr>opt_confirmationReader = Some (\<lambda>o' at. on_power (reader o' at)), opt_automaticallyPrepare = b\<rparr>"
  by (simp_all add: reads_only_def default_options_def policy_confirmation_reader_def[abs_def] preserves_lift
      preserves_on_power[OF same_stores_closed])

text \<open>The occurrences whose claim was granted.\<close>

fun granted :: "power_call list \<Rightarrow> MachineShutdownOccurrence list" where
  "granted [] = []"
| "granted (ClaimGranted o' # cs) = o' # granted cs"
| "granted (_ # cs) = granted cs"

lemma granted_append [simp]: "granted (xs @ ys) = granted xs @ granted ys"
  by (induction xs rule: granted.induct) simp_all

lemma granted_launch [simp]: "granted (launch o' at m) = [o']"
  by (simp add: launch_def)

definition power_passed :: "MachinePowerSchedulerCursor option \<Rightarrow> MachineShutdownOccurrence \<Rightarrow> bool" where
  "power_passed cursor o' \<longleftrightarrow>
     (case cursor of None \<Rightarrow> False | Some c \<Rightarrow> shutdown_scheduledFor o' \<le> power_completedThrough c)"

definition power_cursor_in_range :: "MachinePowerSchedulerCursor option \<Rightarrow> bool" where
  "power_cursor_in_range cursor \<longleftrightarrow>
     (case cursor of None \<Rightarrow> True | Some c \<Rightarrow> \<exists>t. four_digit_year t \<and> power_completedThrough c = iso t)"

text \<open>
  An occurrence once granted is still claimed, unless the cursor has passed it; so none is granted
  twice before the cursor passes it. Without direct executions (\<open>unattended\<close>), none is ever.
\<close>

definition power_inv :: "bool \<Rightarrow> 'x PowerWorld \<Rightarrow> bool" where
  "power_inv unattended w \<longleftrightarrow>
     wf_power_claims (pw_claims w) \<and> power_cursor_in_range (pw_cursor w) \<and>
     (\<forall>o' \<in> set (granted (pw_calls w)). power_claimed (pw_claims w) o' \<or> power_passed (pw_cursor w) o') \<and>
     distinct (filter (\<lambda>o'. unattended \<or> \<not> power_passed (pw_cursor w) o') (granted (pw_calls w)))"

definition power_at :: "bool \<Rightarrow> MachinePowerSchedulerCursor option \<Rightarrow> 'x PowerWorld \<Rightarrow> bool" where
  "power_at unattended cursor w \<longleftrightarrow> power_inv unattended w \<and> pw_cursor w = cursor"

lemma power_inv_closed:
  "outside_closed (power_inv unattended)"
  "outside_closed (power_at unattended cursor)"
  by (auto simp: outside_closed_def power_inv_def power_at_def)

lemma executed_stores_inv:
  assumes "power_at unattended cursor w" and "executed_stores o' at w w'" and "unattended \<longrightarrow> \<not> power_passed cursor o'"
  shows "power_at unattended cursor w'"
proof -
  let ?claims = "pw_claims w" and ?keep = "\<lambda>o'. unattended \<or> \<not> power_passed cursor o'"
  have inv: "wf_power_claims ?claims" "power_cursor_in_range cursor" "pw_cursor w = cursor"
    and granted: "\<forall>o' \<in> set (granted (pw_calls w)). power_claimed ?claims o' \<or> power_passed cursor o'"
    and once: "distinct (filter ?keep (granted (pw_calls w)))"
    using assms(1) by (auto simp: power_at_def power_inv_def)
  show ?thesis
  proof (cases "pw_claims w' = ?claims \<and> pw_calls w' = pw_calls w")
    case True
    then show ?thesis using inv granted once assms(2) by (simp add: power_at_def power_inv_def executed_stores_def)
  next
    case False
    then obtain m where run: "pw_claims w' = snd (grant_power_claim o' ?claims)" "pw_cursor w' = cursor"
        "pw_calls w' = pw_calls w @ (if fst (grant_power_claim o' ?claims) then launch o' at m else [])"
      using assms(2) inv(3) by (auto simp: executed_stores_def)
    have claims: "wf_power_claims (pw_claims w')" "power_claimed (pw_claims w') y \<longleftrightarrow> y = o' \<or> power_claimed ?claims y"
      "fst (grant_power_claim o' ?claims) \<longleftrightarrow> \<not> power_claimed ?claims o'" for y
      using pcs.valid_claim[OF inv(1)] pcs.claimed_claim[OF inv(1)] pcs.claim_granted[OF inv(1)] run(1) by simp_all
    show ?thesis
    proof (cases "power_claimed ?claims o'")
      case True
      then show ?thesis using inv granted once run(2,3) claims by (auto simp: power_at_def power_inv_def)
    next
      case new: False
      have calls: "pw_calls w' = pw_calls w @ launch o' at m" using run(3) claims(3) new by simp
      have fresh: "?keep o' \<Longrightarrow> o' \<notin> set (granted (pw_calls w))" using new granted assms(3) by blast
      have "distinct (filter ?keep (granted (pw_calls w')))"
        unfolding calls using once fresh by simp
      moreover have "\<forall>y \<in> set (granted (pw_calls w')). power_claimed (pw_claims w') y \<or> power_passed cursor y"
        unfolding calls using granted claims(2) by auto
      ultimately show ?thesis using inv(2) run(2) claims(1) by (simp add: power_at_def power_inv_def)
    qed
  qed
qed

lemma preserves_executeAt:
  assumes "reads_only opts"
    and "\<And>o'. createMachineShutdownOccurrence input = Inr o' \<Longrightarrow> unattended \<longrightarrow> \<not> power_passed cursor o'"
  shows "preserves (power_at unattended cursor) (executeAt (power_execution outs) input at source opts)"
proof (rule preservesI)
  fix w :: "'a PowerWorld"
  assume w: "power_at unattended cursor w"
  obtain r w' where run: "executeAt (power_execution outs) input at source opts w = (r, w')" by fastforce
  show "power_at unattended cursor (snd (executeAt (power_execution outs) input at source opts w))"
  proof (cases "createMachineShutdownOccurrence input")
    case (Inl e)
    then show ?thesis using w by (simp add: executeAt_def bindIO_def liftIO_def)
  next
    case (Inr o')
    from executed_stores_inv[OF w executeAt_stores[OF Inr assms(1) run]] assms(2)[OF Inr]
    show ?thesis by (simp add: run)
  qed
qed

section \<open>The tick\<close>

lemma occurrences_loop_times:
  assumes "occurrences_loop fmt tz sched upper candidate = Inr os" and "o' \<in> set os"
  shows "wf_shutdown o' \<and> (\<exists>u. candidate \<le> u \<and> u \<le> upper \<and> shutdown_scheduledFor o' = iso u)"
  using assms
proof (induction fmt tz sched upper candidate arbitrary: os rule: occurrences_loop.induct)
  case (1 fmt tz sched upper candidate)
  let ?rest = "occurrences_loop fmt tz sched upper (candidate + MINUTE_IN_MILLISECONDS)"
  have le: "candidate \<le> upper" using "1.prems" by (cases "candidate \<le> upper") (simp_all add: occurrences_loop.simps)
  have later: "\<exists>u. candidate \<le> u \<and> u \<le> upper \<and> shutdown_scheduledFor o' = iso u"
    if "\<exists>u. candidate + MINUTE_IN_MILLISECONDS \<le> u \<and> u \<le> upper \<and> shutdown_scheduledFor o' = iso u"
  proof -
    from that obtain u where "candidate + MINUTE_IN_MILLISECONDS \<le> u" "u \<le> upper" "shutdown_scheduledFor o' = iso u" by blast
    moreover have "candidate \<le> u" using calculation(1) minute_pos by linarith
    ultimately show ?thesis by blast
  qed
  obtain was where was: "isOperating fmt tz sched (candidate - MINUTE_IN_MILLISECONDS) = Inr was"
    using "1.prems"(1) le by (subst (asm) occurrences_loop.simps) (auto simp: result_simps)
  obtain now where now: "(if was then isOperating fmt tz sched candidate else Inr True) = Inr now"
    using "1.prems"(1) le was by (subst (asm) occurrences_loop.simps) (auto simp: result_simps)
  show ?case
  proof (cases "was \<and> \<not> now")
    case True
    then obtain first rest where r: "shutdown_occurrence_of fmt tz sched candidate = Inr first"
        "?rest = Inr rest" "os = first # rest"
      using "1.prems"(1) le was now by (subst (asm) occurrences_loop.simps) (auto simp: result_simps)
    show ?thesis
    proof (cases "o' = first")
      case same: True
      have "shutdown_scheduledFor first = iso candidate"
        using r(1) by (auto simp: shutdown_occurrence_of_def result_simps toISOString_def new_date_def
            split: option.splits if_splits dest!: create_shutdown_value_same)
      moreover have "wf_shutdown first"
        using r(1) by (auto simp: shutdown_occurrence_of_def result_simps createMachineShutdownOccurrence_wf
            split: option.splits)
      ultimately show ?thesis using same le by blast
    next
      case False
      then have "o' \<in> set rest" using "1.prems"(2) r(3) by simp
      then show ?thesis using "1.IH"(1)[OF le True r(2)] later by blast
    qed
  next
    case False
    then have "?rest = Inr os"
      using "1.prems"(1) le was now by (subst (asm) occurrences_loop.simps) (auto simp: result_simps)
    then show ?thesis using "1.IH"(2)[OF le False _ "1.prems"(2)] later by blast
  qed
qed

lemma interval_times:
  assumes "createMachineShutdownOccurrencesForInterval fmt policy (iso a) (iso b) = Inr os" and "o' \<in> set os"
    and "\<bar>a\<bar> \<le> max_time" and "\<bar>b\<bar> \<le> max_time"
  shows "wf_shutdown o' \<and> (\<exists>u. a < u \<and> u \<le> b \<and> shutdown_scheduledFor o' = iso u)"
proof -
  obtain tz sched where "occurrences_loop fmt tz sched b
      (a div MINUTE_IN_MILLISECONDS * MINUTE_IN_MILLISECONDS + MINUTE_IN_MILLISECONDS) = Inr os"
    using assms
    by (cases policy) (simp_all add: createMachineShutdownOccurrencesForInterval_def Let_def split: if_splits)
  from occurrences_loop_times[OF this assms(2)]
  obtain u where "wf_shutdown o'" "a div MINUTE_IN_MILLISECONDS * MINUTE_IN_MILLISECONDS + MINUTE_IN_MILLISECONDS \<le> u" "u \<le> b"
      "shutdown_scheduledFor o' = iso u" by blast
  moreover have "a < a div MINUTE_IN_MILLISECONDS * MINUTE_IN_MILLISECONDS + MINUTE_IN_MILLISECONDS"
    using div_upper[OF minute_pos, of a] by (simp add: mult.commute)
  ultimately show ?thesis by (meson order_less_le_trans)
qed

lemma interval_not_passed:
  assumes "createMachineShutdownOccurrencesForInterval fmt policy (power_completedThrough c) (iso b) = Inr os"
    and "o' \<in> set os" and "four_digit_year b" and "power_cursor_in_range (Some c)"
  shows "\<not> power_passed (Some c) o' \<and> wf_shutdown o'"
proof -
  obtain a where a: "four_digit_year a" "power_completedThrough c = iso a"
    using assms(4) by (auto simp: power_cursor_in_range_def)
  obtain u where u: "a < u" "u \<le> b" "shutdown_scheduledFor o' = iso u" "wf_shutdown o'"
    using interval_times[OF assms(1)[unfolded a(2)] assms(2)] four_digit_year_bound a(1) assms(3) by blast
  then have "four_digit_year u" using a(1) assms(3) by (auto simp: four_digit_year_def)
  then show ?thesis using a u by (simp add: power_passed_def)
qed

lemma power_tick_ports_simps [simp]:
  "tk_now (power_tick_ports fmt policy outs) = on_power (po_now outs)"
  "tk_read (power_tick_ports fmt policy outs) w = (power_cursor_read None (pw_cursor w), w)"
  "tk_executeAt (power_tick_ports fmt policy outs) = executeAt (power_execution outs)"
  "tk_confirmationReader (power_tick_ports fmt policy outs) = policy_confirmation_reader fmt policy"
  "tk_audit (power_tick_ports fmt policy outs) = map_option power_audit (po_audit outs)"
  by (simp_all add: power_tick_ports_def)

lemma preserves_execute_items:
  assumes "\<forall>o' \<in> set os. \<not> power_passed cursor o'"
  shows "preserves (power_at unattended cursor)
    (execute_items (power_tick_ports fmt policy outs) at os items)"
  using assms
proof (induction os arbitrary: items)
  case (Cons o' os)
  let ?opts = "\<lparr>opt_confirmationReader = Some (policy_confirmation_reader fmt policy), opt_automaticallyPrepare = True\<rparr>"
  have "preserves (power_at unattended cursor)
      (executeAt (power_execution outs) (shutdown_value o') at SCHEDULER_POWER_AUDIT_SOURCE ?opts)"
    using Cons.prems
    by (intro preserves_executeAt[OF reads_only_options(2)]) (auto dest!: create_shutdown_value_same)
  then have "preserves (power_at unattended cursor) (execute_item (power_tick_ports fmt policy outs) at o')"
    unfolding execute_item_def power_tick_ports_simps by (intro preserves_intros)
  then show ?case
    unfolding execute_items.simps using Cons by (intro preserves_intros) simp_all
qed (simp add: preserves_intros)

lemma preserves_power_prune:
  "preserves (power_at unattended (Some c)) (tk_prune (power_tick_ports fmt policy outs) c)"
proof (rule preservesI)
  fix w :: "'a PowerWorld"
  assume w: "power_at unattended (Some c) w"
  then have wf: "wf_power_claims (pw_claims w)" by (simp add: power_at_def power_inv_def)
  obtain r cl where p: "power_prune None c (pw_claims w) = (r, cl)" by fastforce
  then have "wf_power_claims cl" "power_claimed cl y \<longleftrightarrow> power_claimed (pw_claims w) y \<and> \<not> power_covered c y" for y
    using pcs.valid_prune[OF wf, of c] pcs.claimed_prune[OF wf, of c] by (simp_all add: prune_power_claims_def)
  then have "power_at unattended (Some c) (w\<lparr>pw_claims := cl\<rparr>)"
    using w by (auto simp: power_at_def power_inv_def power_passed_def power_covered_def)
  then show "power_at unattended (Some c) (snd (tk_prune (power_tick_ports fmt policy outs) c w))"
    by (simp add: power_tick_ports_def p)
qed

lemma power_passed_forward:
  "(case cursor of None \<Rightarrow> True | Some c \<Rightarrow> power_completedThrough c < power_completedThrough next) \<Longrightarrow>
     power_passed cursor o' \<Longrightarrow> power_passed (Some next) o'"
  by (auto simp: power_passed_def split: option.splits)

lemma power_inv_advanced:
  assumes "power_inv unattended w" and "power_cursor_in_range (Some next)"
    and "case pw_cursor w of None \<Rightarrow> True | Some c \<Rightarrow> power_completedThrough c < power_completedThrough next"
  shows "power_inv unattended (w\<lparr>pw_cursor := Some next\<rparr>)"
proof -
  note forward = power_passed_forward[OF assms(3)]
  have "distinct (filter (\<lambda>o'. unattended \<or> \<not> power_passed (Some next) o') xs)"
    if "distinct (filter (\<lambda>o'. unattended \<or> \<not> power_passed (pw_cursor w) o') xs)" for xs
  proof -
    have "filter (\<lambda>o'. unattended \<or> \<not> power_passed (Some next) o') xs =
        filter (\<lambda>o'. unattended \<or> \<not> power_passed (Some next) o') (filter (\<lambda>o'. unattended \<or> \<not> power_passed (pw_cursor w) o') xs)"
      unfolding filter_filter using forward by (intro filter_cong) auto
    then show ?thesis using distinct_filter[OF that] by simp
  qed
  then show ?thesis using assms(1,2) forward by (auto simp: power_inv_def)
qed

lemma power_advance_value:
  assumes "power_cursor_in_range (pw_cursor w)"
  shows "\<exists>r c. tk_advance (power_tick_ports fmt policy outs) expected next w = (r, w\<lparr>pw_cursor := c\<rparr>) \<and>
    (if canonical (power_completedThrough next) \<and> pw_cursor w = expected \<and>
        (case expected of None \<Rightarrow> True | Some c \<Rightarrow> power_completedThrough c < power_completedThrough next)
     then r = Inr (CursorAdvanced next) \<and> c = Some next
     else c = pw_cursor w \<and> (\<forall>n. r \<noteq> Inr (CursorAdvanced n)))"
proof -
  have ok: "pred_option (\<lambda>c. canonical (power_completedThrough c)) (pw_cursor w)"
    using assms four_digit_year_bound by (auto simp: power_cursor_in_range_def split: option.splits)
  obtain r c where rc: "power_cursor_advance None expected next (pw_cursor w) = (r, c)" by fastforce
  have c: "c = (if fst (advance_power_cursor expected next (pw_cursor w)) = Inr True then Some next else pw_cursor w)"
    using pcur.read_advance[OF ok, of expected "next"] rc by (simp add: advance_power_cursor_def)
  have yes: "fst (advance_power_cursor expected next (pw_cursor w)) = Inr True \<longleftrightarrow>
      canonical (power_completedThrough next) \<and> pw_cursor w = expected \<and>
      (case expected of None \<Rightarrow> True | Some c \<Rightarrow> power_completedThrough c < power_completedThrough next)"
    by (rule pcur.advance_success[OF ok])
  have flag: "fst (advance_power_cursor expected next (pw_cursor w)) = advance_flag r"
    by (simp add: advance_power_cursor_def rc)
  have "advance_flag r = Inr True \<longleftrightarrow> (\<exists>n. r = Inr (CursorAdvanced n))"
    by (cases r) (auto simp: advance_flag_def split: CursorAdvance.splits)
  moreover have "n = next" if "r = Inr (CursorAdvanced n)" for n
    using that rc flag yes advance_object_created(1)[of "next"] ok
    by (auto simp: power_cursor_advance_def createPowerCursor_value advance_flag_def isSamePowerCursor_eq split: if_splits option.splits)
  ultimately show ?thesis
    using rc c yes flag by (auto simp: power_tick_ports_def)
qed

section \<open>What a tick reports\<close>

text \<open>Every value a call returns.\<close>

definition yields :: "('a \<Rightarrow> bool) \<Rightarrow> ('w, 'a) io \<Rightarrow> bool" where
  "yields P m \<longleftrightarrow> (\<forall>w x w'. m w = (Inr x, w') \<longrightarrow> P x)"

lemma yieldsD: "yields P m \<Longrightarrow> m w = (Inr x, w') \<Longrightarrow> P x"
  unfolding yields_def by blast

named_theorems yields_intros "rules for the values of state-passing programs"

lemma yields_basic [yields_intros]:
  "P x \<Longrightarrow> yields P (retIO x)"
  "yields P (throwIO e)"
  "(\<And>x. r = Inr x \<Longrightarrow> P x) \<Longrightarrow> yields P (liftIO r)"
  by (simp_all add: yields_def)

lemma yields_bind [yields_intros]: "(\<And>x. yields P (f x)) \<Longrightarrow> yields P (bindIO m f)"
  by (auto simp: yields_def bindIO_Inr)

lemma yields_catch [yields_intros]: "yields P m \<Longrightarrow> (\<And>e. yields P (h e)) \<Longrightarrow> yields P (catchIO m h)"
  by (auto simp: yields_def catchIO_def split: prod.splits sum.splits)

lemma yields_same: "yields P m \<Longrightarrow> (\<And>y. yields (\<lambda>x. x = y) (f y)) \<Longrightarrow> yields P (bindIO m f)"
  by (fastforce simp: yields_def bindIO_Inr)

lemma yields_audited:
  assumes "yields P operation"
  shows "yields P (audited audit input operation code terminal hasEffect partialCode)"
  unfolding audited_def by (intro yields_bind yields_same[OF yields_catch[OF assms]]) (intro yields_intros refl)+

lemma yields_if [yields_intros]:
  "(b \<Longrightarrow> yields P m) \<Longrightarrow> (\<not> b \<Longrightarrow> yields P n) \<Longrightarrow> yields P (if b then m else n)"
  by simp

lemma yields_cases [yields_intros]:
  "yields P m \<Longrightarrow> (\<And>x. yields P (f x)) \<Longrightarrow> yields P (case v of None \<Rightarrow> m | Some x \<Rightarrow> f x)"
  "(\<And>x y. yields P (g x y)) \<Longrightarrow> yields P (case p of (x, y) \<Rightarrow> g x y)"
  by (simp_all split: option.splits prod.splits)

lemma created_execution_occurrence:
  "createMachineShutdownOccurrenceExecutionResult o' at oc = Inr r \<Longrightarrow> execution_occurrence r = o'"
  by (auto simp: createMachineShutdownOccurrenceExecutionResult_def result_simps dest!: create_shutdown_value_same
      split: sum.splits if_splits)

lemma yields_execution:
  assumes "createMachineShutdownOccurrence input = Inr o'"
  shows "yields (\<lambda>r. execution_occurrence r = o') (executeAt ports input at source opts)"
proof -
  note made = created_execution_occurrence
  have "yields (\<lambda>r. execution_occurrence r = o') (execute_effects ports o' at report)" for report
    unfolding execute_effects_def by (intro yields_intros made)
  then have "yields (\<lambda>r. execution_occurrence r = o') (prepare_and_execute ports o' at opts d)" for d
    unfolding prepare_and_execute_def by (auto intro!: yields_intros made split: option.splits)
  then have "yields (\<lambda>r. execution_occurrence r = o') (executeCore ports o' at opts)"
    unfolding executeCore_def by (intro yields_intros made)
  then show ?thesis
    unfolding executeAt_def assms bindIO_lift by (intro yields_cases yields_audited)
qed

fun item_occurrence :: "MachinePowerSchedulerItem \<Rightarrow> MachineShutdownOccurrence" where
  "item_occurrence (ItemCompleted e) = execution_occurrence e"
| "item_occurrence (ItemFailed o' _) = o'"
| "item_occurrence (ItemRejected o' _ _) = o'"

lemma yields_item:
  assumes "wf_shutdown o'"
  shows "yields (\<lambda>i. item_occurrence i = o') (execute_item (power_tick_ports fmt policy outs) at o')"
proof -
  have item: "yields (\<lambda>i. item_occurrence i = o')
      (bindIO m (\<lambda>e. retIO (case execution_outcome e of
         ExecutionRejected decision report \<Rightarrow> ItemRejected o' decision report | _ \<Rightarrow> ItemCompleted e)))"
    if m: "yields (\<lambda>e. execution_occurrence e = o') m" for m
  proof -
    have "item_occurrence (case execution_outcome e of
        ExecutionRejected decision report \<Rightarrow> ItemRejected o' decision report | _ \<Rightarrow> ItemCompleted e) = o'"
      if "execution_occurrence e = o'" for e
      using that by (cases "execution_outcome e") simp_all
    then show ?thesis using m by (fastforce simp: yields_def bindIO_Inr)
  qed
  show ?thesis
    unfolding execute_item_def power_tick_ports_simps
    by (intro yields_catch item yields_execution create_shutdown_value assms yields_basic) simp
qed

text \<open>An item for each occurrence, in their order.\<close>

definition items_for :: "MachineShutdownOccurrence list \<Rightarrow> MachinePowerSchedulerItem list \<Rightarrow> bool" where
  "items_for os items \<longleftrightarrow> map item_occurrence items = os"

lemma yields_items:
  assumes "\<forall>o' \<in> set os. wf_shutdown o'"
  shows "yields (\<lambda>items. map item_occurrence items = map item_occurrence acc @ os)
    (execute_items (power_tick_ports fmt policy outs) at os acc)"
  using assms
proof (induction os arbitrary: acc)
  case (Cons o' os)
  have "yields (\<lambda>items. map item_occurrence items = map item_occurrence acc @ o' # os)
      (execute_items (power_tick_ports fmt policy outs) at os (acc @ [item]))" if "item_occurrence item = o'" for item
    using Cons.IH[of "acc @ [item]"] Cons.prems that by simp
  then show ?case
    using yields_item[of o' fmt policy outs at] Cons.prems by (auto simp: yields_def bindIO_Inr)
qed (simp add: yields_intros)

lemma created_item: "createMachinePowerSchedulerItem i = Inr j \<Longrightarrow> item_occurrence j = item_occurrence i"
  by (cases i) (auto simp: result_simps dest!: create_shutdown_value_same split: if_splits)

text \<open>A completed item whose outcome leaves nothing to do.\<close>

fun done_with :: "MachineShutdownOccurrence \<Rightarrow> MachinePowerSchedulerItem \<Rightarrow> bool" where
  "done_with o' (ItemCompleted e) \<longleftrightarrow> execution_occurrence e = o' \<and>
     (case execution_outcome e of ExecutionStale \<Rightarrow> True | ExecutionDuplicate \<Rightarrow> True
        | ExecutionExecuted _ _ _ \<Rightarrow> True | _ \<Rightarrow> False)"
| "done_with o' _ \<longleftrightarrow> False"

lemma complete_items:
  assumes "createMachinePowerSchedulerReport through ticked items b = Inr report" and "pr_complete report"
  shows "list_all2 done_with (map item_occurrence items) (pr_results report)"
proof -
  have r: "mapR createMachinePowerSchedulerItem items = Inr (pr_results report)" "list_all report_item_complete (pr_results report)"
    using assms by (auto simp: createMachinePowerSchedulerReport_def result_simps Let_def split: if_splits)
  have finished: "done_with (item_occurrence j) j" if "report_item_complete j" for j
    using that by (cases j) (auto split: ExecutionOutcome.splits)
  from r(1) have "list_all2 (\<lambda>i j. createMachinePowerSchedulerItem i = Inr j) items (pr_results report)"
    by (simp add: mapR_eq_Inr)
  then show ?thesis using r(2)
  proof (induction rule: list_all2_induct)
    case (Cons i items j js)
    then show ?case using finished[of j] created_item[of i j] by simp
  qed simp
qed

section \<open>The outcome of a tick\<close>

text \<open>Triples: from a world where \<open>P\<close> holds, the call ends with a result and a world for which \<open>Q\<close> holds.\<close>

definition triple :: "('w \<Rightarrow> bool) \<Rightarrow> ('w, 'a) io \<Rightarrow> ('a result \<Rightarrow> 'w \<Rightarrow> bool) \<Rightarrow> bool" where
  "triple P m Q \<longleftrightarrow> (\<forall>w. P w \<longrightarrow> (case m w of (r, w') \<Rightarrow> Q r w'))"

lemma tripleD: "triple P m Q \<Longrightarrow> P w \<Longrightarrow> m w = (r, w') \<Longrightarrow> Q r w'"
  by (fastforce simp: triple_def)

lemma triple_bind:
  "triple P m (\<lambda>r w. case r of Inl e \<Rightarrow> Q (Inl e) w | Inr x \<Rightarrow> R x w) \<Longrightarrow> (\<And>x. triple (R x) (f x) Q) \<Longrightarrow>
     triple P (bindIO m f) Q"
  by (fastforce simp: triple_def bindIO_def split: prod.splits sum.splits)

lemma triple_lift: "(\<And>w. P w \<Longrightarrow> Q r w) \<Longrightarrow> triple P (liftIO r) Q"
  by (simp add: triple_def liftIO_def)

lemma triple_ret: "(\<And>w. P w \<Longrightarrow> Q (Inr x) w) \<Longrightarrow> triple P (retIO x) Q"
  by (simp add: triple_def retIO_def)

lemma triple_if: "(b \<Longrightarrow> triple P m Q) \<Longrightarrow> (\<not> b \<Longrightarrow> triple P n Q) \<Longrightarrow> triple P (if b then m else n) Q"
  by simp

lemma triple_preserves:
  assumes "preserves I m" and "yields Y m" and "\<And>w. P w \<Longrightarrow> I w" and "\<And>e w. I w \<Longrightarrow> Q (Inl e) w"
    and "\<And>x w. I w \<Longrightarrow> Y x \<Longrightarrow> Q (Inr x) w"
  shows "triple P m Q"
  unfolding triple_def
proof (intro allI impI)
  fix w
  assume w: "P w"
  obtain r w' where m: "m w = (r, w')" by fastforce
  have "I w'" by (rule preservesD[OF assms(1) assms(3)[OF w] m])
  then have "Q r w'" using assms(4,5) yieldsD[OF assms(2)] m by (cases r) auto
  then show "case m w of (r, w') \<Rightarrow> Q r w'" by (simp add: m)
qed

lemma yields_any: "yields (\<lambda>_. True) m"
  by (simp add: yields_def)

text \<open>What the result of a tick says of the cursor and the calls before it and the world after it.\<close>

definition tick_outcome ::
  "formatter \<Rightarrow> MachineOperatingPolicy \<Rightarrow> MachinePowerSchedulerCursor option \<Rightarrow> power_call list \<Rightarrow>
     MachinePowerSchedulerResult \<Rightarrow> 'x PowerWorld \<Rightarrow> bool" where
  "tick_outcome fmt policy cursor calls res w' \<longleftrightarrow>
     (case res of
        PowerInitialized c \<Rightarrow> cursor = None \<and> pw_cursor w' = Some c \<and> pw_calls w' = calls
      | PowerIdle c _ \<Rightarrow> cursor = Some c \<and> pw_cursor w' = Some c \<and> pw_calls w' = calls
      | PowerBlocked c _ _ \<Rightarrow> cursor = Some c \<and> pw_cursor w' = Some c \<and> pw_calls w' = calls
      | PowerIncomplete c report _ \<Rightarrow> cursor = Some c \<and> pw_cursor w' = Some c \<and> \<not> pr_complete report
      | PowerAdvanced c next report _ \<Rightarrow>
          cursor = Some c \<and> pw_cursor w' = Some next \<and> power_completedThrough c < power_completedThrough next \<and>
          (\<exists>os. createMachineShutdownOccurrencesForInterval fmt policy (power_completedThrough c)
                 (power_completedThrough next) = Inr os \<and> list_all2 done_with os (pr_results report))
      | PowerConflict _ _ _ _ _ \<Rightarrow> False)"

definition ticked ::
  "formatter \<Rightarrow> MachineOperatingPolicy \<Rightarrow> bool \<Rightarrow> MachinePowerSchedulerCursor option \<Rightarrow>
     power_call list \<Rightarrow> MachinePowerSchedulerResult result \<Rightarrow> 'x PowerWorld \<Rightarrow> bool" where
  "ticked fmt policy unattended cursor calls r w' \<longleftrightarrow>
     power_inv unattended w' \<and> (\<forall>res. r = Inr res \<longrightarrow> tick_outcome fmt policy cursor calls res w')"

lemma advance_triple:
  assumes "four_digit_year b" and "case cursor of None \<Rightarrow> True | Some c \<Rightarrow> power_completedThrough c < iso b"
  shows "triple (power_at unattended cursor)
    (tk_advance (power_tick_ports fmt policy outs) cursor \<lparr>power_completedThrough = iso b\<rparr>)
    (\<lambda>r w. (\<exists>n. r = Inr (CursorAdvanced n)) \<and>
       power_at unattended (Some \<lparr>power_completedThrough = iso b\<rparr>) w)"
  unfolding triple_def
proof (intro allI impI)
  fix w :: "'a PowerWorld"
  let ?next = "\<lparr>power_completedThrough = iso b\<rparr>"
  assume w: "power_at unattended cursor w"
  then have inv: "power_inv unattended w" "pw_cursor w = cursor" "power_cursor_in_range (pw_cursor w)"
    by (auto simp: power_at_def power_inv_def)
  have less: "case pw_cursor w of None \<Rightarrow> True | Some c \<Rightarrow> power_completedThrough c < power_completedThrough ?next"
    using assms(2) inv(2) by (cases cursor) simp_all
  have "power_cursor_in_range (Some ?next)" using assms(1) by (auto simp: power_cursor_in_range_def)
  then have "power_inv unattended (w\<lparr>pw_cursor := Some ?next\<rparr>)"
    using power_inv_advanced[OF inv(1) _ less] by blast
  moreover have "tk_advance (power_tick_ports fmt policy outs) cursor ?next w =
      (Inr (CursorAdvanced ?next), w\<lparr>pw_cursor := Some ?next\<rparr>)"
  proof -
    have "canonical (power_completedThrough ?next)" using four_digit_year_bound[OF assms(1)] by simp
    moreover have "case cursor of None \<Rightarrow> True | Some c \<Rightarrow> power_completedThrough c < power_completedThrough ?next"
      using less inv(2) by simp
    ultimately show ?thesis
      using power_advance_value[OF inv(3), of fmt policy outs cursor ?next] inv(2) by (elim exE conjE) simp
  qed
  ultimately show "case tk_advance (power_tick_ports fmt policy outs) cursor ?next w of (r, w) \<Rightarrow>
      (\<exists>n. r = Inr (CursorAdvanced n)) \<and> power_at unattended (Some ?next) w"
    by (simp add: power_at_def)
qed

lemma tick_interval_ticked:
  assumes b: "four_digit_year b" and later: "power_completedThrough c < iso b" and range: "power_cursor_in_range (Some c)"
  shows "triple (power_at unattended (Some c))
    (tick_interval fmt policy (power_tick_ports fmt policy outs) c \<lparr>power_completedThrough = iso b\<rparr> (iso b))
    (ticked fmt policy unattended (Some c) calls)"
proof -
  let ?at = "power_at unattended (Some c)" and ?Q = "ticked fmt policy unattended (Some c) calls"
  let ?interval = "createMachineShutdownOccurrencesForInterval fmt policy (power_completedThrough c) (iso b)"
  have failed: "?Q (Inl e) w" if "?at w" for e w using that by (simp add: ticked_def power_at_def)
  have incomplete: "?Q (Inr (PowerIncomplete c report pruning)) w" if "?at w" "\<not> pr_complete report" for report pruning w
    using that by (simp add: ticked_def power_at_def tick_outcome_def)
  have advanced: "?Q (Inr (PowerAdvanced c \<lparr>power_completedThrough = iso b\<rparr> report pruning)) w"
    if "power_at unattended (Some \<lparr>power_completedThrough = iso b\<rparr>) w" "?interval = Inr os"
      "list_all2 done_with os (pr_results report)" for os report pruning w
    using that later by (simp add: ticked_def power_at_def tick_outcome_def)
  have each: "\<forall>o' \<in> set os. \<not> power_passed (Some c) o'" "\<forall>o' \<in> set os. wf_shutdown o'" if "?interval = Inr os" for os
    using interval_not_passed[OF that _ b range] by blast+
  have canonical: "canonical (iso b)" using four_digit_year_bound[OF b] by simp
  show ?thesis
    unfolding tick_interval_def
  proof (rule triple_bind[where R = "\<lambda>os w. ?at w \<and> ?interval = Inr os"], goal_cases)
    case 1
    show ?case by (rule triple_lift) (simp add: failed split: sum.splits)
  next
    case (2 os)
    show ?case
    proof (rule triple_bind[where R = "\<lambda>items w. ?at w \<and> ?interval = Inr os \<and> map item_occurrence items = os"], goal_cases)
      case 1
      show ?case
      proof (cases "?interval = Inr os")
        case True
        show ?thesis
          using failed True
          by (intro triple_preserves[OF preserves_execute_items[OF each(1)[OF True]] yields_items[OF each(2)[OF True]]])
            simp_all
      qed (simp add: triple_def)
    next
      case (2 items)
      let ?report = "createMachinePowerSchedulerReport (power_completedThrough c) (iso b) items (list_all item_complete items)"
      show ?case
      proof (rule triple_bind[where R = "\<lambda>report w. ?at w \<and> ?interval = Inr os \<and> map item_occurrence items = os \<and>
            ?report = Inr report"], goal_cases)
        case 1
        show ?case by (rule triple_lift) (simp add: failed split: sum.splits)
      next
        case (2 report)
        show ?case
        proof (rule triple_bind[where R = "\<lambda>_ w. ?at w \<and> ?interval = Inr os \<and> map item_occurrence items = os \<and>
              ?report = Inr report"], goal_cases)
          case 1
          show ?case
            using failed by (auto simp: triple_def split: sum.splits dest: preservesD[OF preserves_power_prune])
        next
          case (2 pruning)
          show ?case
          proof (intro triple_if triple_ret, goal_cases)
            case 1
            then show ?case by (intro incomplete) simp_all
          next
            case 2
            then have complete: "?report = Inr report \<Longrightarrow> list_all2 done_with (map item_occurrence items) (pr_results report)"
              using complete_items by blast
            show ?case
              unfolding triple_def bindIO_def
              using advance_triple[OF b, of "Some c" unattended fmt policy outs] later complete advanced
              by (fastforce simp: triple_def retIO_def split: prod.splits)
          qed
        qed
      qed
    qed
  qed
qed

lemma tick_core_ticked:
  assumes w: "power_at unattended cursor w" and t: "four_digit_year t"
    and run: "tick_core fmt policy (power_tick_ports fmt policy outs) (iso t) w = (r, w')"
  shows "ticked fmt policy unattended cursor (pw_calls w) r w'"
proof -
  let ?P = "power_tick_ports fmt policy outs" and ?next = "\<lparr>power_completedThrough = iso t\<rparr>"
  have canonical: "canonical (iso t)" using four_digit_year_bound[OF t] by simp
  have inv: "power_inv unattended w" "pw_cursor w = cursor" "power_cursor_in_range cursor"
    using w by (auto simp: power_at_def power_inv_def)
  have core: "tick_core fmt policy ?P (iso t) w = (case cursor of
      None \<Rightarrow> bindIO (tk_advance ?P None ?next) (\<lambda>initialization. case initialization of
          CursorConflict c \<Rightarrow> bindIO (liftIO (emptyReport (iso t))) (\<lambda>report. retIO (PowerConflict None ?next c report None))
        | CursorAdvanced _ \<Rightarrow> retIO (PowerInitialized ?next)) w
    | Some c \<Rightarrow>
        (if iso t = power_completedThrough c then retIO (PowerIdle c (iso t))
         else if iso t < power_completedThrough c then retIO (PowerBlocked c (iso t) ''clock_regression'')
         else if time_of (iso t) - time_of (power_completedThrough c) > MAX_INTERVAL
         then retIO (PowerBlocked c (iso t) ''interval_too_large'')
         else tick_interval fmt policy ?P c ?next (iso t)) w)"
    using canonical inv(2)
    by (simp add: tick_core_def createPowerCursor_object power_cursor_read_def bindIO_def[of "tk_read ?P"] split: option.splits)
  show ?thesis
  proof (cases cursor)
    case None
    obtain a v where a: "tk_advance ?P None ?next w = (a, v)" by fastforce
    then obtain n where n: "a = Inr (CursorAdvanced n)" "power_at unattended (Some ?next) v"
      using tripleD[OF advance_triple[OF t, of None unattended fmt policy outs] _ a] w None by auto
    have "pw_calls v = pw_calls w" using a by (auto simp: power_tick_ports_def split: prod.splits)
    moreover have "r = Inr (PowerInitialized ?next) \<and> w' = v"
      using run core n(1) a None by (simp add: bindIO_def retIO_def)
    ultimately show ?thesis using n(2) None by (simp add: ticked_def tick_outcome_def power_at_def)
  next
    case (Some c)
    show ?thesis
    proof (cases "power_completedThrough c < iso t \<and> time_of (iso t) - time_of (power_completedThrough c) \<le> MAX_INTERVAL")
      case True
      then have "\<not> iso t = power_completedThrough c" "\<not> iso t < power_completedThrough c"
          "\<not> time_of (iso t) - time_of (power_completedThrough c) > MAX_INTERVAL" by auto
      then have "tick_interval fmt policy ?P c ?next (iso t) w = (r, w')"
        using run core unfolding Some option.case by (simp only: if_False)
      then show ?thesis
        using tripleD[OF tick_interval_ticked[OF t, of c unattended fmt policy outs "pw_calls w"]] True inv w Some by simp
    next
      case False
      then have "w' = w \<and> (\<exists>why. r = Inr (PowerIdle c (iso t)) \<or> r = Inr (PowerBlocked c (iso t) why))"
        using run unfolding core Some option.case
        by (cases "iso t" "power_completedThrough c" rule: linorder_cases) (auto split: if_splits)
      then show ?thesis using inv Some by (auto simp: ticked_def tick_outcome_def)
    qed
  qed
qed

definition power_clock_in_range :: "'x PowerOutside \<Rightarrow> bool" where
  "power_clock_in_range outs \<longleftrightarrow> (\<forall>u t u'. po_now outs u = (Inr (Some t), u') \<longrightarrow> four_digit_year t)"

lemma power_at_same: "same_stores w v \<Longrightarrow> power_at unattended cursor v = power_at unattended cursor w"
  by (auto simp: power_at_def power_inv_def same_stores_def)

lemma ticked_later:
  "ticked fmt policy unattended cursor calls q u \<Longrightarrow> same_stores u w' \<Longrightarrow> (\<forall>x. r = Inr x \<longrightarrow> q = Inr x) \<Longrightarrow>
     ticked fmt policy unattended cursor calls r w'"
proof -
  assume u: "ticked fmt policy unattended cursor calls q u" and same: "same_stores u w'"
    and answer: "\<forall>x. r = Inr x \<longrightarrow> q = Inr x"
  have "power_inv unattended w' = power_inv unattended u"
    using same by (simp add: power_inv_def same_stores_def)
  moreover have "tick_outcome fmt policy cursor calls res w' = tick_outcome fmt policy cursor calls res u" for res
    using same by (cases res) (simp_all add: tick_outcome_def same_stores_def)
  ultimately show ?thesis using u answer unfolding ticked_def by blast
qed

lemma ticked_failed:
  "power_at unattended cursor w \<Longrightarrow> same_stores w w' \<Longrightarrow> ticked fmt policy unattended cursor calls (Inl e) w'"
  by (auto simp: ticked_def power_at_def power_inv_def same_stores_def)

lemma power_tick_ticked:
  assumes clock: "power_clock_in_range outs" and w: "power_at unattended cursor w"
    and run: "power_tick fmt policy outs w = (r, w')"
  shows "ticked fmt policy unattended cursor (pw_calls w) r w'"
proof -
  let ?P = "power_tick_ports fmt policy outs"
  from bindIO_split[OF run[unfolded power_tick_def RunMachinePowerSchedulerTick_execute_def power_tick_ports_simps]]
  obtain x v where
    x: "on_power (po_now outs) w = (x, v)" "case x of Inl e \<Rightarrow> r = Inl e \<and> w' = v
      | Inr instant \<Rightarrow> bindIO (liftIO (toISOString instant)) (\<lambda>tickedAt.
          tick_executeAsAuthorized fmt policy ?P tickedAt SCHEDULER_POWER_AUDIT_SOURCE) v = (r, w')"
    by (elim exE conjE) (rule that)
  have v: "same_stores w v" by (rule preservesD[OF preserves_on_power[OF same_stores_closed] same_stores_refl x(1)])
  show ?thesis
  proof (cases "\<exists>t. x = Inr (Some t)")
    case False
    then have "(\<exists>e. r = Inl e) \<and> w' = v"
      using x(2) by (cases x) (auto simp: toISOString_def bindIO_def liftIO_def split: option.splits)
    then show ?thesis using ticked_failed[OF w v] by auto
  next
    case True
    then obtain t where t: "x = Inr (Some t)" by blast
    have year: "four_digit_year t"
      using clock x(1) t by (auto simp: power_clock_in_range_def on_power_def split: prod.splits)
    have auth: "tick_executeAsAuthorized fmt policy ?P (iso t) SCHEDULER_POWER_AUDIT_SOURCE v = (r, w')"
      using x(2) t by (simp add: toISOString_def)
    have core: "ticked fmt policy unattended cursor (pw_calls w) q u"
      if "same_stores v u0" "tick_core fmt policy ?P (iso t) u0 = (q, u)" for u0 q u
    proof -
      have "same_stores w u0" using v that(1) by (simp add: same_stores_def)
      then have "power_at unattended cursor u0" "pw_calls u0 = pw_calls w"
        using w power_at_same by (blast, simp add: same_stores_def)
      then show ?thesis using tick_core_ticked[OF _ year that(2), of unattended cursor] by simp
    qed
    show ?thesis
    proof (cases "po_audit outs")
      case None
      then show ?thesis using auth core[OF same_stores_refl] by (simp add: tick_executeAsAuthorized_def)
    next
      case (Some a)
      then have "audited (power_audit a) (audit_attempt (iso t) SCHEDULER_POWER_AUDIT_SOURCE
          ''run_machine_power_scheduler_tick'' [(''tickedThrough'', JStr (iso t))])
          (tick_core fmt policy ?P (iso t)) (\<lambda>_. ''unexpected_execution_failure'') (mapSchedulerAudit (iso t))
          hasSchedulerEffect ''audit_failed_after_scheduler_tick'' v = (r, w')"
        using auth by (simp add: tick_executeAsAuthorized_def)
      from audited_stores[OF this] show ?thesis
      proof (elim disjE exE conjE)
        fix e
        assume "same_stores v w'" "r = Inl e"
        then show ?thesis using ticked_failed[OF w] v by (simp add: same_stores_def)
      qed (auto intro: ticked_later[OF core])
    qed
  qed
qed

section \<open>Reachable worlds\<close>

lemma power_inv_outside [simp]:
  "power_inv unattended (w\<lparr>pw_outside := x\<rparr>) = power_inv unattended w"
  by (simp add: power_inv_def)

lemma preserves_direct:
  "preserves (power_at False cursor) (ExecuteMachineShutdownOccurrence_execute (power_execution outs) input)"
  unfolding ExecuteMachineShutdownOccurrence_execute_def
  by (intro preserves_intros preserves_executeAt[OF reads_only_options(1)])
    (simp_all add: power_execution_def preserves_on_power[OF power_inv_closed(2)])

text \<open>The steps without direct executions: only the scheduler runs.\<close>

inductive unattended_step ::
  "formatter \<Rightarrow> MachineOperatingPolicy \<Rightarrow> 'x PowerOutside \<Rightarrow> 'x PowerWorld \<Rightarrow> 'x PowerWorld \<Rightarrow> bool"
  for fmt :: formatter and policy :: MachineOperatingPolicy and outs :: "'x PowerOutside" where
  tick: "unattended_step fmt policy outs w (snd (power_tick fmt policy outs w))"
| outside: "unattended_step fmt policy outs w (w\<lparr>pw_outside := x\<rparr>)"

lemma tick_inv:
  assumes "power_clock_in_range outs" and "power_inv unattended w"
  shows "power_inv unattended (snd (power_tick fmt policy outs w))"
proof -
  obtain r w' where run: "power_tick fmt policy outs w = (r, w')" by fastforce
  have "power_at unattended (pw_cursor w) w" using assms(2) by (simp add: power_at_def)
  from power_tick_ticked[OF assms(1) this run] show ?thesis by (simp add: run ticked_def)
qed

lemma power_step_inv:
  assumes clock: "power_clock_in_range outs" and "power_step fmt policy outs w w'" and inv: "power_inv False w"
  shows "power_inv False w'"
  using assms(2)
proof cases
  case tick
  then show ?thesis using tick_inv[OF clock inv] by simp
next
  case (direct v)
  have "power_at False (pw_cursor w) w" using inv by (simp add: power_at_def)
  then show ?thesis
    using preserves_direct[of "pw_cursor w" outs v] direct by (auto simp: preserves_def power_at_def)
next
  case (administrative v source reader)
  have "power_at False (pw_cursor w) w" using inv by (simp add: power_at_def)
  then show ?thesis
    using preserves_executeAt[OF reads_only_options(3), of v False "pw_cursor w" outs source reader] administrative
    by (auto simp: preserves_def power_at_def)
next
  case outside
  then show ?thesis using inv by simp
qed

lemma power_inv_start: "power_inv unattended (power_start x)"
  by (simp add: power_inv_def power_start_def wf_power_claims_def power_cursor_in_range_def)

lemma power_reachable_inv:
  assumes "power_clock_in_range outs" and "(power_step fmt policy outs)\<^sup>*\<^sup>* (power_start x) w"
  shows "power_inv False w"
  using assms(2)
  by (induction rule: rtranclp_induct) (auto intro: power_inv_start power_step_inv[OF assms(1)])

lemma unattended_reachable_inv:
  assumes "power_clock_in_range outs" and "(unattended_step fmt policy outs)\<^sup>*\<^sup>* (power_start x) w"
  shows "power_inv True w"
  using assms(2)
proof (induction rule: rtranclp_induct)
  case (step v w)
  from step.hyps(2) show ?case
  proof cases
    case tick
    then show ?thesis using tick_inv[OF assms(1) step.IH] by simp
  next
    case outside
    then show ?thesis using step.IH by simp
  qed
qed (rule power_inv_start)

section \<open>What one execution guards\<close>

text \<open>
  The readiness of one execution, from the world in which it starts to the one in which it claims the
  occurrence: the evaluation by the confirmation reader of the options (or that of the handler) approved
  it, or rejected it and the preparation, where the options ask for one, was carried out to its
  end, whose last evaluation approved it. Without readers nothing is checked.
\<close>

definition cleared ::
  "'w ExecutionPorts \<Rightarrow> 'w ExecutionOptions \<Rightarrow> MachineShutdownOccurrence \<Rightarrow> string \<Rightarrow> 'w \<Rightarrow> 'w \<Rightarrow> bool" where
  "cleared ports options o' at w w' \<longleftrightarrow>
     (case ex_readiness ports of
        None \<Rightarrow> w' = w
      | Some readers \<Rightarrow>
          \<exists>d w1. evaluateAt readers (shutdown_value o') at (reader_of options readers) w = (Inr d, w1) \<and>
            (approved d \<and> w' = w1 \<or>
             \<not> approved d \<and> opt_automaticallyPrepare options \<and>
             (\<exists>controllers readers' report d' v u e.
                ex_preparation ports = Some (controllers, readers') \<and>
                prepareAt controllers readers' (shutdown_value o') at (Some d) (reader_of options readers') w1 = (Inr report, w') \<and>
                report_outcome report = preparation_prepared \<and> report_finalDecision report = Some d' \<and>
                evaluateAt readers' (shutdown_value o') at (reader_of options readers') v = (Inr d', u) \<and> approved d' \<and>
                pc_record controllers e u = (Inr (), w'))))"

text \<open>From the claim to the request of the shutdown.\<close>

definition launching :: "'w ExecutionPorts \<Rightarrow> MachineShutdownOccurrence \<Rightarrow> string \<Rightarrow> 'w \<Rightarrow> 'w \<Rightarrow> bool" where
  "launching ports o' at w w' \<longleftrightarrow>
     (\<exists>claim w1 wake m.
        ex_claim ports o' w = (Inr claim, w1) \<and> createMachineShutdownOccurrenceClaimResult claim = Inr True \<and>
        ex_wake ports at (wakeScheduledFor o') w1 = (Inr wake, w') \<and> createWakeAlarmMutationResult wake = Inr m)"

lemma effects_guarded:
  assumes "execute_effects ports o' at report w = (r, w')"
  shows "(\<forall>sd. execute_effects (ports\<lparr>ex_shutdown := sd\<rparr>) o' at report w = (r, w')) \<or>
    (\<exists>v. launching ports o' at w v \<and>
      (\<forall>sd. sd at v = ex_shutdown ports at v \<longrightarrow> execute_effects (ports\<lparr>ex_shutdown := sd\<rparr>) o' at report w = (r, w')))"
proof (cases "\<exists>v. launching ports o' at w v")
  case True
  then obtain claim w1 wake m v where parts: "ex_claim ports o' w = (Inr claim, w1)"
      "createMachineShutdownOccurrenceClaimResult claim = Inr True"
      "ex_wake ports at (wakeScheduledFor o') w1 = (Inr wake, v)" "createWakeAlarmMutationResult wake = Inr m"
    by (auto simp: launching_def)
  then have "execute_effects (ports\<lparr>ex_shutdown := sd\<rparr>) o' at report w = (r, w')"
    if "sd at v = ex_shutdown ports at v" for sd
    using assms that by (simp add: execute_effects_def bindIO_def catchIO_def liftIO_def)
  moreover have "launching ports o' at w v" using parts unfolding launching_def by blast
  ultimately show ?thesis by blast
next
  case False
  obtain a w1 where a: "ex_claim ports o' w = (a, w1)" by fastforce
  obtain b v where b: "ex_wake ports at (wakeScheduledFor o') w1 = (b, v)" by fastforce
  have "(\<forall>c. a = Inr c \<longrightarrow> createMachineShutdownOccurrenceClaimResult c \<noteq> Inr True) \<or>
      (\<forall>c. b = Inr c \<longrightarrow> (\<forall>m. createWakeAlarmMutationResult c \<noteq> Inr m))"
    using False a b unfolding launching_def by blast
  then have "execute_effects (ports\<lparr>ex_shutdown := sd\<rparr>) o' at report w = execute_effects ports o' at report w" for sd
    using a b by (auto simp: execute_effects_def bindIO_def catchIO_def liftIO_def throwIO_def split: sum.splits)
  then show ?thesis using assms by simp
qed

lemma prepare_guarded:
  assumes "prepare_and_execute ports o' at options decision w = (r, w')" 
    and wf: "wf_shutdown o'" "canonical at" and decision: "\<And>d. decision = Some d \<Longrightarrow> decision_for o' at d"
    and rejected: "\<And>d. decision = Some d \<Longrightarrow> \<not> approved d \<Longrightarrow> ex_preparation ports \<noteq> None \<and> opt_automaticallyPrepare options"
  shows "(\<forall>sd. prepare_and_execute (ports\<lparr>ex_shutdown := sd\<rparr>) o' at options decision w = (r, w')) \<or>
    (\<exists>u v. (case decision of None \<Rightarrow> u = w
        | Some d \<Rightarrow> approved d \<and> u = w \<or>
            \<not> approved d \<and> opt_automaticallyPrepare options \<and>
            (\<exists>controllers readers' report d' v u' e.
                ex_preparation ports = Some (controllers, readers') \<and>
                prepareAt controllers readers' (shutdown_value o') at (Some d) (reader_of options readers') w = (Inr report, u) \<and>
                report_outcome report = preparation_prepared \<and> report_finalDecision report = Some d' \<and>
                evaluateAt readers' (shutdown_value o') at (reader_of options readers') v = (Inr d', u') \<and> approved d' \<and>
                pc_record controllers e u' = (Inr (), u))) \<and>
      launching ports o' at u v \<and>
      (\<forall>sd. sd at v = ex_shutdown ports at v \<longrightarrow>
        prepare_and_execute (ports\<lparr>ex_shutdown := sd\<rparr>) o' at options decision w = (r, w')))"
proof (cases "decision = None \<or> ex_preparation ports = None \<or> \<not> opt_automaticallyPrepare options")
  case True
  then have run: "prepare_and_execute (ports\<lparr>ex_shutdown := sd\<rparr>) o' at options decision w =
      execute_effects (ports\<lparr>ex_shutdown := sd\<rparr>) o' at None w" for sd
    by (auto simp: prepare_and_execute_def split: option.splits)
  have "execute_effects ports o' at None w = (r, w')"
    using assms(1) True by (auto simp: prepare_and_execute_def split: option.splits)
  from effects_guarded[OF this] show ?thesis
    unfolding run using True rejected by (cases decision) auto
next
  case False
  then obtain d controllers readers where p: "decision = Some d" "ex_preparation ports = Some (controllers, readers)"
      "opt_automaticallyPrepare options" by auto
  let ?prepare = "prepareAt controllers readers (shutdown_value o') at (Some d) (reader_of options readers)"
  obtain a u where a: "?prepare w = (a, u)" by fastforce
  have run: "prepare_and_execute (ports\<lparr>ex_shutdown := sd\<rparr>) o' at options decision w =
      (case a of Inl e \<Rightarrow> (Inl e, u) | Inr report \<Rightarrow>
        (if report_outcome report = preparation_blocked
         then liftIO (createMachineShutdownOccurrenceExecutionResult o' at (ExecutionRejected d (Some report)))
         else if report_outcome report = preparation_incomplete
         then liftIO (createMachineShutdownOccurrenceExecutionResult o' at (ExecutionPreparationIncomplete report))
         else execute_effects (ports\<lparr>ex_shutdown := sd\<rparr>) o' at (Some report)) u)" for sd
    by (simp add: prepare_and_execute_def p bindIO_def a)
  have same: "ports\<lparr>ex_shutdown := ex_shutdown ports\<rparr> = ports" by simp
  note this_run = run[of "ex_shutdown ports", unfolded same assms(1)]
  show ?thesis
  proof (cases "\<exists>report. a = Inr report \<and> report_outcome report \<noteq> preparation_blocked \<and> report_outcome report \<noteq> preparation_incomplete")
    case False
    then have "prepare_and_execute (ports\<lparr>ex_shutdown := sd\<rparr>) o' at options decision w = (r, w')" for sd
      using run[of sd] this_run by (auto split: sum.splits)
    then show ?thesis by blast
  next
    case True
    then obtain report where report: "a = Inr report" "report_outcome report \<noteq> preparation_blocked"
        "report_outcome report \<noteq> preparation_incomplete" by blast
    have eff: "prepare_and_execute (ports\<lparr>ex_shutdown := sd\<rparr>) o' at options decision w =
        execute_effects (ports\<lparr>ex_shutdown := sd\<rparr>) o' at (Some report) u" for sd
      using report by (simp add: run)
    have now: "execute_effects ports o' at (Some report) u = (r, w')" using this_run report by simp
    note o' = create_shutdown_value[OF wf(1)]
    have supplied: "\<forall>d'. Some d = Some d' \<longrightarrow> decision_for o' at d'" using decision p(1) by simp
    have clear: "approved d \<and> u = w \<or> \<not> approved d \<and> (\<exists>d' v u' e. report_outcome report = preparation_prepared \<and>
        report_finalDecision report = Some d' \<and>
        evaluateAt readers (shutdown_value o') at (reader_of options readers) v = (Inr d', u') \<and> approved d' \<and>
        pc_record controllers e u' = (Inr (), u))"
    proof -
      let ?evaluate = "evaluateAt readers (shutdown_value o') at (reader_of options readers)"
      have answer: "preparation_answer controllers ?evaluate o' at d report w u"
        using prepareAt_answers[OF o' wf(2) supplied, of readers "reader_of options readers" w controllers]
        unfolding a report(1) fst_conv snd_conv by (auto simp: initial_decision_def)
      show ?thesis
      proof (cases "report_outcome report")
        case preparation_prepared
        then show ?thesis
          using answer unfolding preparation_answer_def prepared_report_def final_part_def by auto
      qed (use answer report in \<open>simp_all add: preparation_answer_def\<close>)
    qed
    from effects_guarded[OF now] show ?thesis
    proof (elim disjE exE conjE)
      assume "\<forall>sd. execute_effects (ports\<lparr>ex_shutdown := sd\<rparr>) o' at (Some report) u = (r, w')"
      then show ?thesis unfolding eff by blast
    next
      fix v
      assume l: "launching ports o' at u v" and again: "\<forall>sd. sd at v = ex_shutdown ports at v \<longrightarrow>
        execute_effects (ports\<lparr>ex_shutdown := sd\<rparr>) o' at (Some report) u = (r, w')"
      show ?thesis
        by (intro disjI2 exI[of _ u] exI[of _ v] conjI l again[folded eff])
          (use clear a report(1) p in \<open>auto\<close>)
    qed
  qed
qed

lemma core_guarded:
  assumes run: "executeCore ports o' at options w = (r, w')" and wf: "wf_shutdown o'" "canonical at"
  shows "(\<forall>sd. executeCore (ports\<lparr>ex_shutdown := sd\<rparr>) o' at options w = (r, w')) \<or>
    time_of (shutdown_scheduledFor o') \<le> time_of at \<and> time_of at < time_of (wakeScheduledFor o') \<and>
    (\<exists>u v. cleared ports options o' at w u \<and> launching ports o' at u v \<and>
      (\<forall>sd. sd at v = ex_shutdown ports at v \<longrightarrow> executeCore (ports\<lparr>ex_shutdown := sd\<rparr>) o' at options w = (r, w')))"
proof (cases "earlier at (shutdown_scheduledFor o') \<or> not_earlier at (wakeScheduledFor o')")
  case True
  then have "executeCore (ports\<lparr>ex_shutdown := sd\<rparr>) o' at options w = (r, w')" for sd
    using run by (auto simp: executeCore_def)
  then show ?thesis by blast
next
  case False
  then have due: "time_of (shutdown_scheduledFor o') \<le> time_of at" "time_of at < time_of (wakeScheduledFor o')"
    by (simp_all add: earlier_iff[OF wf(2)] not_less not_le)
  show ?thesis
  proof (cases "ex_readiness ports")
    case None
    then have eq: "executeCore (ports\<lparr>ex_shutdown := sd\<rparr>) o' at options w =
        prepare_and_execute (ports\<lparr>ex_shutdown := sd\<rparr>) o' at options None w" for sd
      using False by (simp add: executeCore_def)
    have "prepare_and_execute ports o' at options None w = (r, w')" using run False None by (simp add: executeCore_def)
    from prepare_guarded[OF this wf] show ?thesis
      unfolding eq using due None by (simp add: cleared_def)
  next
    case (Some readers)
    let ?evaluate = "evaluateAt readers (shutdown_value o') at (reader_of options readers)"
    obtain d w1 where d: "?evaluate w = (Inr d, w1)" "decision_for o' at d"
    proof -
      have "\<exists>d. fst (?evaluate w) = Inr d \<and> decision_for o' at d"
        using evaluateAt_decides[OF create_shutdown_value[OF wf(1)] wf(2), of readers "reader_of options readers" w]
        by (auto simp: decision_for_def)
      then show thesis using that by (metis prod.collapse)
    qed
    have eq: "executeCore (ports\<lparr>ex_shutdown := sd\<rparr>) o' at options w =
        (if \<not> approved d \<and> (ex_preparation ports = None \<or> \<not> opt_automaticallyPrepare options)
         then liftIO (createMachineShutdownOccurrenceExecutionResult o' at (ExecutionRejected d None))
         else prepare_and_execute (ports\<lparr>ex_shutdown := sd\<rparr>) o' at options (Some d)) w1" for sd
      using False Some by (simp add: executeCore_def bindIO_run[of ?evaluate w, OF d(1)])
    have same: "ports\<lparr>ex_shutdown := ex_shutdown ports\<rparr> = ports" by simp
    note this_run = eq[of "ex_shutdown ports", unfolded same run]
    show ?thesis
    proof (cases "\<not> approved d \<and> (ex_preparation ports = None \<or> \<not> opt_automaticallyPrepare options)")
      case True
      then show ?thesis using eq this_run by simp
    next
      case go: False
      have "prepare_and_execute ports o' at options (Some d) w1 = (r, w')" using this_run unfolding if_not_P[OF go] by simp
      from prepare_guarded[OF this wf] d(2) go show ?thesis
        unfolding eq if_not_P[OF go] using due Some d(1) by (auto simp: cleared_def)
    qed
  qed
qed

text \<open>What the beginning of an execution records.\<close>

definition execution_attempt :: "string \<Rightarrow> jsval \<Rightarrow> MachineShutdownOccurrence \<Rightarrow> jsval" where
  "execution_attempt at source o' = audit_attempt at source ''execute_machine_shutdown_occurrence''
     [(''scheduledFor'', JStr (shutdown_scheduledFor o')), (''wakeScheduledFor'', JStr (wakeScheduledFor o'))]"

text \<open>The audit runs an operation at most once, in the world the beginning of the attempt leaves.\<close>

lemma audited_same:
  assumes "audit_begin audit input w = (Inr attempt, w0)" and "operation w0 = operation' w0"
  shows "audited audit input operation code terminal hasEffect partialCode w =
    audited audit input operation' code terminal hasEffect partialCode w"
  using assms by (simp add: audited_def bindIO_def catchIO_def)

section \<open>What one tick executes\<close>

text \<open>The item of the report for an occurrence, from what its execution answered.\<close>

definition item_of ::
  "MachineShutdownOccurrence \<Rightarrow> MachineShutdownOccurrenceExecutionResult result \<Rightarrow> MachinePowerSchedulerItem" where
  "item_of o' answer =
     (case answer of
        Inl e \<Rightarrow> ItemFailed o' (mapExecutionFailure e)
      | Inr execution \<Rightarrow>
          (case execution_outcome execution of
             ExecutionRejected decision report \<Rightarrow> ItemRejected o' decision report
           | _ \<Rightarrow> ItemCompleted execution))"

text \<open>
  The executions of occurrences between two worlds, one after the other, each in the world the one before
  left, at the instant of the tick and confirmed by its reader.
\<close>

fun executed_in_turn ::
  "'w TickPorts \<Rightarrow> string \<Rightarrow> MachineShutdownOccurrence list \<Rightarrow> MachinePowerSchedulerItem list \<Rightarrow> 'w \<Rightarrow> 'w \<Rightarrow> bool" where
  "executed_in_turn ports at [] items w w' \<longleftrightarrow> items = [] \<and> w' = w"
| "executed_in_turn ports at (o' # os) items w w' \<longleftrightarrow>
     (\<exists>answer v items'.
        tk_executeAt ports (shutdown_value o') at SCHEDULER_POWER_AUDIT_SOURCE
          \<lparr>opt_confirmationReader = Some (tk_confirmationReader ports), opt_automaticallyPrepare = True\<rparr> w = (answer, v) \<and>
        items = item_of o' answer # items' \<and> executed_in_turn ports at os items' v w')"

text \<open>
  The end of a tick: the report is built, the claims are pruned up to the cursor that was read, and the
  cursor is advanced if and only if the report is complete.
\<close>

definition concluded ::
  "'w TickPorts \<Rightarrow> MachinePowerSchedulerCursor \<Rightarrow> string \<Rightarrow> MachinePowerSchedulerItem list \<Rightarrow> 'w \<Rightarrow>
     MachinePowerSchedulerResult result \<Rightarrow> 'w \<Rightarrow> bool" where
  "concluded ports c at items w r w' \<longleftrightarrow>
     (case createMachinePowerSchedulerReport (power_completedThrough c) at items (list_all item_complete items) of
        Inl e \<Rightarrow> r = Inl e \<and> w' = w
      | Inr report \<Rightarrow>
          \<exists>pruning v. tk_prune ports c w = (pruning, v) \<and>
            (case pruning of
               Inl e \<Rightarrow> r = Inl e \<and> w' = v
             | Inr pruned \<Rightarrow>
                 if \<not> pr_complete report then r = Inr (PowerIncomplete c report pruned) \<and> w' = v
                 else \<exists>advanced. tk_advance ports (Some c) \<lparr>power_completedThrough = at\<rparr> v = (advanced, w') \<and>
                   r = (case advanced of
                          Inl e \<Rightarrow> Inl e
                        | Inr (CursorConflict x) \<Rightarrow> Inr (PowerConflict (Some c) \<lparr>power_completedThrough = at\<rparr> x report (Some pruned))
                        | Inr (CursorAdvanced _) \<Rightarrow> Inr (PowerAdvanced c \<lparr>power_completedThrough = at\<rparr> report pruned))))"

lemma execute_item_answer:
  "tk_executeAt ports (shutdown_value o') at SCHEDULER_POWER_AUDIT_SOURCE
     \<lparr>opt_confirmationReader = Some (tk_confirmationReader ports), opt_automaticallyPrepare = True\<rparr> w = (answer, v) \<Longrightarrow>
   execute_item ports at o' w = (Inr (item_of o' answer), v)"
  by (cases answer) (auto simp: execute_item_def item_of_def bindIO_def catchIO_def retIO_def split: ExecutionOutcome.splits)

lemma execute_items_in_turn:
  "\<exists>items w'. execute_items ports at os acc w = (Inr (acc @ items), w') \<and> executed_in_turn ports at os items w w'"
proof (induction os arbitrary: acc w)
  case Nil
  show ?case by (simp add: retIO_def)
next
  case (Cons o' os)
  obtain answer v where a: "tk_executeAt ports (shutdown_value o') at SCHEDULER_POWER_AUDIT_SOURCE
      \<lparr>opt_confirmationReader = Some (tk_confirmationReader ports), opt_automaticallyPrepare = True\<rparr> w = (answer, v)"
    by fastforce
  from Cons.IH[of "acc @ [item_of o' answer]" v] obtain items w' where
    "execute_items ports at os (acc @ [item_of o' answer]) v = (Inr ((acc @ [item_of o' answer]) @ items), w')"
    "executed_in_turn ports at os items v w'" by blast
  then show ?case
    using a by (intro exI[of _ "item_of o' answer # items"] exI[of _ w'])
      (simp add: bindIO_run[of "execute_item ports at o'" w, OF execute_item_answer[OF a]])
qed

text \<open>A tick with something to do: the cursor it read, the world this left, and the occurrences of the interval.\<close>

definition tick_due ::
  "formatter \<Rightarrow> MachineOperatingPolicy \<Rightarrow> 'w TickPorts \<Rightarrow> string \<Rightarrow> 'w \<Rightarrow> MachinePowerSchedulerCursor \<Rightarrow> 'w \<Rightarrow>
     MachineShutdownOccurrence list \<Rightarrow> bool" where
  "tick_due fmt policy ports at w c w0 os \<longleftrightarrow>
     tk_read ports w = (Inr (Some c), w0) \<and> power_completedThrough c < at \<and>
     time_of at - time_of (power_completedThrough c) \<le> MAX_INTERVAL \<and>
     createMachineShutdownOccurrencesForInterval fmt policy (power_completedThrough c) at = Inr os"

lemma tick_due_run:
  assumes at: "canonical at" and due: "tick_due fmt policy ports at w c w0 os"
  shows "tick_core fmt policy ports at w = bindIO (execute_items ports at os []) (\<lambda>items.
     bindIO (liftIO (createMachinePowerSchedulerReport (power_completedThrough c) at items
               (list_all item_complete items))) (\<lambda>report.
     bindIO (tk_prune ports c) (\<lambda>pruning.
     if \<not> pr_complete report then retIO (PowerIncomplete c report pruning)
     else bindIO (tk_advance ports (Some c) \<lparr>power_completedThrough = at\<rparr>) (\<lambda>advanced.
       case advanced of
         CursorConflict x \<Rightarrow> retIO (PowerConflict (Some c) \<lparr>power_completedThrough = at\<rparr> x report (Some pruning))
       | CursorAdvanced _ \<Rightarrow> retIO (PowerAdvanced c \<lparr>power_completedThrough = at\<rparr> report pruning))))) w0"
proof -
  have "createMachinePowerSchedulerCursor (cursor_object at) = Inr \<lparr>power_completedThrough = at\<rparr>"
    using at by (simp add: createPowerCursor_object)
  moreover have "at \<noteq> power_completedThrough c" "\<not> at < power_completedThrough c"
      "\<not> time_of at - time_of (power_completedThrough c) > MAX_INTERVAL"
    using due by (auto simp: tick_due_def dest: less_asym)
  ultimately show ?thesis
    using due by (simp add: tick_core_def tick_due_def tick_interval_def bindIO_run[of "tk_read ports" w])
qed

lemma tick_not_due:
  assumes at: "canonical at" and none: "\<nexists>c w0 os. tick_due fmt policy ports at w c w0 os"
  shows "tick_core fmt policy (ports\<lparr>tk_executeAt := execute\<rparr>) at w = tick_core fmt policy ports at w"
proof -
  have cursor: "createMachinePowerSchedulerCursor (cursor_object at) = Inr \<lparr>power_completedThrough = at\<rparr>"
    using at by (simp add: createPowerCursor_object)
  obtain r w0 where r: "tk_read ports w = (r, w0)" by fastforce
  have core: "tick_core fmt policy ports' at w = (case r of
      Inl e \<Rightarrow> (Inl e, w0)
    | Inr None \<Rightarrow>
         bindIO (tk_advance ports' None \<lparr>power_completedThrough = at\<rparr>) (\<lambda>initialization.
         case initialization of
           CursorConflict c \<Rightarrow>
             bindIO (liftIO (emptyReport at)) (\<lambda>report. retIO (PowerConflict None \<lparr>power_completedThrough = at\<rparr> c report None))
         | CursorAdvanced _ \<Rightarrow> retIO (PowerInitialized \<lparr>power_completedThrough = at\<rparr>)) w0
    | Inr (Some c) \<Rightarrow>
        (if at = power_completedThrough c then retIO (PowerIdle c at)
         else if at < power_completedThrough c then retIO (PowerBlocked c at ''clock_regression'')
         else if time_of at - time_of (power_completedThrough c) > MAX_INTERVAL
         then retIO (PowerBlocked c at ''interval_too_large'')
         else tick_interval fmt policy ports' c \<lparr>power_completedThrough = at\<rparr> at) w0)"
    if "tk_read ports' = tk_read ports" for ports'
    using r that by (simp add: tick_core_def cursor bindIO_def[of "tk_read ports"] split: sum.splits option.splits)
  show ?thesis
  proof (cases "\<exists>c. r = Inr (Some c)")
    case False
    then show ?thesis unfolding core[OF refl] using core[of "ports\<lparr>tk_executeAt := execute\<rparr>"]
      by (auto split: sum.splits option.splits)
  next
    case True
    then obtain c where c: "r = Inr (Some c)" by blast
    show ?thesis
    proof (cases "power_completedThrough c < at \<and> time_of at - time_of (power_completedThrough c) \<le> MAX_INTERVAL")
      case False
      then have "at = power_completedThrough c \<or> at < power_completedThrough c \<or>
          time_of at - time_of (power_completedThrough c) > MAX_INTERVAL" by (metis linorder_neqE not_le)
      then show ?thesis unfolding core[OF refl] using core[of "ports\<lparr>tk_executeAt := execute\<rparr>"] by (auto simp: c)
    next
      case True
      then obtain e where "createMachineShutdownOccurrencesForInterval fmt policy (power_completedThrough c) at = Inl e"
        using none r c unfolding tick_due_def by (metis sum.exhaust)
      then have "tick_interval fmt policy ports' c x at w0 = (Inl e, w0)" for ports' :: "'a TickPorts" and x
        by (simp add: tick_interval_def bindIO_def liftIO_def)
      then show ?thesis unfolding core[OF refl] using core[of "ports\<lparr>tk_executeAt := execute\<rparr>"] by (simp add: c)
    qed
  qed
qed

lemma concludes:
  assumes "bindIO (liftIO (createMachinePowerSchedulerReport (power_completedThrough c) at items
               (list_all item_complete items))) (\<lambda>report.
     bindIO (tk_prune ports c) (\<lambda>pruning.
     if \<not> pr_complete report then retIO (PowerIncomplete c report pruning)
     else bindIO (tk_advance ports (Some c) \<lparr>power_completedThrough = at\<rparr>) (\<lambda>advanced.
       case advanced of
         CursorConflict x \<Rightarrow> retIO (PowerConflict (Some c) \<lparr>power_completedThrough = at\<rparr> x report (Some pruning))
       | CursorAdvanced _ \<Rightarrow> retIO (PowerAdvanced c \<lparr>power_completedThrough = at\<rparr> report pruning)))) w = (r, w')"
  shows "concluded ports c at items w r w'"
proof -
  let ?report = "createMachinePowerSchedulerReport (power_completedThrough c) at items (list_all item_complete items)"
  obtain p v where p: "tk_prune ports c w = (p, v)" by fastforce
  obtain a u where a: "tk_advance ports (Some c) \<lparr>power_completedThrough = at\<rparr> v = (a, u)" by fastforce
  show ?thesis
  proof (cases ?report)
    case (Inl e)
    then show ?thesis using assms by (simp add: concluded_def bindIO_def liftIO_def)
  next
    case (Inr report)
    show ?thesis
    proof (cases p)
      case (Inl e)
      then show ?thesis using assms Inr p by (simp add: concluded_def bindIO_def liftIO_def)
    next
      case pruned: (Inr y)
      show ?thesis
      proof (cases a)
        case (Inl e)
        then show ?thesis using assms Inr p pruned a
          by (simp add: concluded_def bindIO_def liftIO_def retIO_def split: if_splits)
      next
        case (Inr z)
        then show ?thesis using assms \<open>?report = Inr report\<close> p pruned a
          by (cases z) (simp_all add: concluded_def bindIO_def liftIO_def retIO_def split: if_splits)
      qed
    qed
  qed
qed

section \<open>Properties\<close>

text \<open>
  C1. No shutdown without its launch. For arbitrary ports, which may change the world at every call (so
  whatever other handlers do while the execution waits), and for any options: the result of an
  execution either does not depend on the controller that shuts the machine down, so it was not asked,
  or the controller was asked in exactly one world (all that matters of it is its answer there). This world
  lies at the end of this chain, in this execution: the beginning of the attempt was recorded where there is
  an audit trail; the occurrence is due and its wake time lies ahead; where readiness is checked, it was
  evaluated with the confirmation reader of the given options and approved, or the preparation
  of the rejected decision ended with such an approval; in the world this left, the claim was granted;
  and the wake alarm, asked for the wake time, answered a valid result.
\<close>

theorem machine_shutdown_guarded:
  assumes "canonical at" and "executeAt ports input at source options w = (r, w')"
  shows "(\<forall>sd. executeAt (ports\<lparr>ex_shutdown := sd\<rparr>) input at source options w = (r, w')) \<or>
    (\<exists>o' w0 w1 v. createMachineShutdownOccurrence input = Inr o' \<and>
       time_of (shutdown_scheduledFor o') \<le> time_of at \<and> time_of at < time_of (wakeScheduledFor o') \<and>
       (case ex_audit ports of
          None \<Rightarrow> w0 = w
        | Some audit \<Rightarrow> \<exists>attempt. audit_begin audit (execution_attempt at source o') w = (Inr attempt, w0)) \<and>
       cleared ports options o' at w0 w1 \<and> launching ports o' at w1 v \<and>
       (\<forall>sd. sd at v = ex_shutdown ports at v \<longrightarrow>
          executeAt (ports\<lparr>ex_shutdown := sd\<rparr>) input at source options w = (r, w')))"
proof (cases "createMachineShutdownOccurrence input")
  case (Inl e)
  then show ?thesis using assms(2) by (simp add: executeAt_def bindIO_def liftIO_def)
next
  case (Inr o')
  note wf = createMachineShutdownOccurrence_wf[OF Inr] assms(1)
  have same: "ports\<lparr>ex_shutdown := ex_shutdown ports\<rparr> = ports" by simp
  show ?thesis
  proof (cases "ex_audit ports")
    case None
    then have eq: "executeAt (ports\<lparr>ex_shutdown := sd\<rparr>) input at source options w =
        executeCore (ports\<lparr>ex_shutdown := sd\<rparr>) o' at options w" for sd
      by (simp add: executeAt_def Inr)
    from core_guarded[OF eq[of "ex_shutdown ports", unfolded same assms(2), symmetric] wf] show ?thesis
      unfolding eq using Inr None by auto
  next
    case (Some audit)
    define attempt where "attempt = execution_attempt at source o'"
    have eq: "executeAt (ports\<lparr>ex_shutdown := sd\<rparr>) input at source options =
        audited audit attempt (executeCore (ports\<lparr>ex_shutdown := sd\<rparr>) o' at options) mapExecutionFailure mapExecutionAudit
          is_executed ''audit_failed_after_shutdown_execution''" for sd
      by (simp add: executeAt_def Inr Some attempt_def execution_attempt_def)
    note this_run = eq[of "ex_shutdown ports", unfolded same, THEN fun_cong, of w, unfolded assms(2)]
    obtain b w0 where b: "audit_begin audit attempt w = (b, w0)" by fastforce
    show ?thesis
    proof (cases b)
      case (Inl e)
      then have "executeAt (ports\<lparr>ex_shutdown := sd\<rparr>) input at source options w = (r, w')" for sd
        using this_run b by (simp add: eq audited_def bindIO_def)
      then show ?thesis by blast
    next
      case begun: (Inr v0)
      obtain q u where q: "executeCore ports o' at options w0 = (q, u)" by fastforce
      have again: "executeAt (ports\<lparr>ex_shutdown := sd\<rparr>) input at source options w = (r, w')"
        if "executeCore (ports\<lparr>ex_shutdown := sd\<rparr>) o' at options w0 = (q, u)" for sd
        using this_run audited_same[OF b[unfolded begun], of "executeCore (ports\<lparr>ex_shutdown := sd\<rparr>) o' at options"
            "executeCore ports o' at options"] q that by (simp add: eq)
      from core_guarded[OF q wf] show ?thesis
      proof (elim disjE exE conjE)
        assume "\<forall>sd. executeCore (ports\<lparr>ex_shutdown := sd\<rparr>) o' at options w0 = (q, u)"
        then show ?thesis using again by blast
      next
        fix w1 v
        assume parts: "time_of (shutdown_scheduledFor o') \<le> time_of at" "time_of at < time_of (wakeScheduledFor o')"
          "cleared ports options o' at w0 w1" "launching ports o' at w1 v"
          and "\<forall>sd. sd at v = ex_shutdown ports at v \<longrightarrow> executeCore (ports\<lparr>ex_shutdown := sd\<rparr>) o' at options w0 = (q, u)"
        then have last: "\<forall>sd. sd at v = ex_shutdown ports at v \<longrightarrow>
            executeAt (ports\<lparr>ex_shutdown := sd\<rparr>) input at source options w = (r, w')" using again by blast
        have "case ex_audit ports of
            None \<Rightarrow> w0 = w
          | Some audit \<Rightarrow> \<exists>attempt. audit_begin audit (execution_attempt at source o') w = (Inr attempt, w0)"
          using Some b begun by (auto simp: attempt_def)
        then show ?thesis using Inr parts last by blast
      qed
    qed
  qed
qed

text \<open>
  C37. A tick executes every occurrence of its interval exactly once, and nothing else. Whatever its ports
  do: if it reads a cursor before the instant of the tick, at most eight days back, it executes the
  occurrences between the two in order, each in the world the execution before left, at the instant of
  the tick, with automatic preparation and with the confirmation of the policy's reader; then it reports what
  the executions answered, prunes the claims up to the cursor it read, and advances the cursor to its
  instant only if the report is complete. Otherwise it executes nothing.
\<close>

theorem tick_executes_each_once:
  assumes "canonical at"
  shows "(\<forall>c w0 os. tick_due fmt policy ports at w c w0 os \<longrightarrow>
      (\<exists>items w1 r w'. executed_in_turn ports at os items w0 w1 \<and> concluded ports c at items w1 r w' \<and>
         tick_core fmt policy ports at w = (r, w'))) \<and>
    ((\<nexists>c w0 os. tick_due fmt policy ports at w c w0 os) \<longrightarrow>
      (\<forall>execute. tick_core fmt policy (ports\<lparr>tk_executeAt := execute\<rparr>) at w = tick_core fmt policy ports at w))"
proof (intro conjI allI impI)
  fix c w0 os
  assume due: "tick_due fmt policy ports at w c w0 os"
  from execute_items_in_turn[of ports at os "[]" w0] obtain items w1 where
    items: "execute_items ports at os [] w0 = (Inr items, w1)" "executed_in_turn ports at os items w0 w1" by auto
  obtain r w' where run: "tick_core fmt policy ports at w = (r, w')" by fastforce
  note tail = run[unfolded tick_due_run[OF assms due] bindIO_run[of "execute_items ports at os []" w0, OF items(1)]]
  have "concluded ports c at items w1 r w'"
    by (rule concludes[OF tail])
  then show "\<exists>items w1 r w'. executed_in_turn ports at os items w0 w1 \<and> concluded ports c at items w1 r w' \<and>
      tick_core fmt policy ports at w = (r, w')" using items(2) run by blast
qed (rule tick_not_due[OF assms])

text \<open>
  C3. The scheduler shuts the machine down at most once per occurrence: as long as only its ticks run, no
  claim is ever granted twice, although the claims of passed occurrences are pruned and incomplete
  intervals are run again.
\<close>

theorem scheduler_claims_once:
  assumes "power_clock_in_range outs" and "(unattended_step fmt policy outs)\<^sup>*\<^sup>* (power_start x) w"
  shows "distinct (granted (pw_calls w))"
proof -
  have "distinct (filter (\<lambda>o'. True \<or> \<not> power_passed (pw_cursor w) o') (granted (pw_calls w)))"
    using unattended_reachable_inv[OF assms] unfolding power_inv_def by blast
  then show ?thesis by simp
qed

text \<open>
  C19. With direct executions too, an occurrence that the cursor has not passed is claimed at most once, and
  once claimed stays claimed.
\<close>

theorem claimed_until_passed:
  assumes "power_clock_in_range outs" and "(power_step fmt policy outs)\<^sup>*\<^sup>* (power_start x) w"
  shows "distinct (filter (\<lambda>o'. \<not> power_passed (pw_cursor w) o') (granted (pw_calls w))) \<and>
    (\<forall>o'. o' \<in> set (granted (pw_calls w)) \<and> \<not> power_passed (pw_cursor w) o' \<longrightarrow> power_claimed (pw_claims w) o')"
  using power_reachable_inv[OF assms] by (auto simp: power_inv_def)

text \<open>
  C7. What a tick answers is what happened: it moves the cursor only on \<open>initialized\<close> and \<open>advanced\<close>, the
  latter only forward, from the cursor it read, and over an interval for each of whose occurrences, in
  order, its report has an item that is executed, duplicate or stale; after \<open>incomplete\<close> the cursor
  stays, so the interval is run again; idle and blocked ticks call nothing; in one process there is no
  conflict.
\<close>

theorem tick_answers_what_happened:
  assumes "power_clock_in_range outs" and "(power_step fmt policy outs)\<^sup>*\<^sup>* (power_start x) w"
    and "power_tick fmt policy outs w = (Inr res, w')"
  shows "case res of
      PowerInitialized c \<Rightarrow> pw_cursor w = None \<and> pw_cursor w' = Some c \<and> pw_calls w' = pw_calls w
    | PowerIdle c _ \<Rightarrow> pw_cursor w = Some c \<and> pw_cursor w' = Some c \<and> pw_calls w' = pw_calls w
    | PowerBlocked c _ _ \<Rightarrow> pw_cursor w = Some c \<and> pw_cursor w' = Some c \<and> pw_calls w' = pw_calls w
    | PowerIncomplete c report _ \<Rightarrow> pw_cursor w = Some c \<and> pw_cursor w' = Some c \<and> \<not> pr_complete report
    | PowerAdvanced c next report _ \<Rightarrow>
        pw_cursor w = Some c \<and> pw_cursor w' = Some next \<and> power_completedThrough c < power_completedThrough next \<and>
        (\<exists>os. createMachineShutdownOccurrencesForInterval fmt policy (power_completedThrough c)
               (power_completedThrough next) = Inr os \<and> list_all2 done_with os (pr_results report))
    | PowerConflict _ _ _ _ _ \<Rightarrow> False"
proof -
  have "power_at False (pw_cursor w) w"
    using power_reachable_inv[OF assms(1,2)] by (simp add: power_at_def)
  from power_tick_ticked[OF assms(1) this assms(3)] show ?thesis
    unfolding ticked_def tick_outcome_def by simp
qed

text \<open>
  C39. A wake alarm that answers validly, but was not set for the wake time (it may have been cancelled, or
  set for another time), does not keep the machine from being shut down: the handler checks the answer
  against the occurrence only in the result it builds after the shutdown was requested.
\<close>

theorem unconfirmed_wake_still_shuts_down:
  assumes "wf_shutdown o'" and "\<not> is_power_claimed (pw_claims w) o'" and "wf_wake m"
    and "po_wake outs at (wakeScheduledFor o') (pw_outside w) = (Inr (wake_value m), x)"
    and "wake_after m \<noteq> WakeScheduled (wakeScheduledFor o')"
  shows "fst (execute_effects (power_execution outs) o' at report w) =
      Inl (NamedError ''MachineShutdownOccurrenceExecutionError'' ''shutdown_failed_after_wake_scheduled'') \<and>
    pw_calls (snd (execute_effects (power_execution outs) o' at report w)) =
      pw_calls w @ [ClaimGranted o', WakeRequested at (wakeScheduledFor o') (Some m), ShutdownRequested at]"
proof -
  obtain b y where b: "po_shutdown outs at x = (b, y)" by fastforce
  note wake = createWake_value[OF assms(3)]
  have result: "\<exists>e. createMachineShutdownOccurrenceExecutionResult o' at (ExecutionExecuted m s report) = Inl e" for s
    using assms(5) wake create_shutdown_value[OF assms(1)]
    by (auto simp: createMachineShutdownOccurrenceExecutionResult_def split: sum.splits)
  obtain e where e: "bindR b createMachineShutdownResult = Inl e \<or>
      (\<exists>s. bindR b createMachineShutdownResult = Inr s \<and>
        createMachineShutdownOccurrenceExecutionResult o' at (ExecutionExecuted m s report) = Inl e)"
    using result by (cases "bindR b createMachineShutdownResult") auto
  obtain claims where c: "power_claim None o' (pw_claims w) = (Inr True, claims)"
    using power_claim_value[OF assms(1)] assms(2) by simp
  have shut: "(\<forall>e. b = Inl e \<longrightarrow> bindR b createMachineShutdownResult = Inl e) \<and>
      (\<forall>v. b = Inr v \<longrightarrow> bindR b createMachineShutdownResult = createMachineShutdownResult v)" by simp
  show ?thesis
    using e shut
    by (cases b) (auto simp: execute_effects_def power_execution_def claim_in_memory_def wake_in_process_def
        shutdown_in_process_def c assms(4) wake b answered_def bindIO_def catchIO_def throwIO_def liftIO_def)
qed

text \<open>
  The runs of the witnesses: the clock shows the minute before the break of the schedule and then its
  first minute; the wake alarm and the shutdown answer.
\<close>

definition break_outs :: "bool PowerOutside" where
  "break_outs =
     \<lparr>po_now = (\<lambda>later. (Inr (Some (if later then 392400000 else 392340000)), True)),
      po_wake = (\<lambda>at wake. retIO (wake_value \<lparr>wake_operation = schedule_wake, wake_requestedAt = at,
        wake_outcome = wake_scheduled, wake_before = WakeNotScheduled, wake_after = WakeScheduled wake\<rparr>)),
      po_shutdown = (\<lambda>at. retIO (shutdown_result_value \<lparr>shutdown_requestedAt = at, shutdown_simulated = False\<rparr>)),
      po_readiness = None, po_preparation = None, po_audit = None\<rparr>"

abbreviation "break_plan \<equiv> ScheduledMachinePolicy ''America/Sao_Paulo'' break_schedule"

lemma break_clock: "power_clock_in_range break_outs"
  by (auto simp: power_clock_in_range_def break_outs_def four_digit_year_def)

lemma break_occurrences:
  "createMachineShutdownOccurrencesForInterval saoPauloFormatter break_plan (iso 392340000) (iso 392400000) = Inr [sample_shutdown]"
  by code_simp

lemma sample_wf: "wf_shutdown sample_shutdown"
  by (rule createMachineShutdownOccurrence_wf[OF shutdown_sample_created])

abbreviation "break_wake \<equiv> \<lparr>wake_operation = schedule_wake, wake_requestedAt = iso 392400000,
   wake_outcome = wake_scheduled, wake_before = WakeNotScheduled, wake_after = WakeScheduled (iso 392700000)\<rparr>"

lemma break_iso: "canonical (iso 392340000)" "canonical (iso 392400000)" "canonical (iso 392700000)"
   "time_of (iso 392340000) = 392340000" "time_of (iso 392400000) = 392400000" "time_of (iso 392700000) = 392700000"
  by (simp_all add: max_time_def)

lemma break_launch:
  "execute_effects (power_execution break_outs) sample_shutdown (iso 392400000) None (w\<lparr>pw_claims := []\<rparr>) =
    (Inr \<lparr>execution_occurrence = sample_shutdown, execution_processedAt = iso 392400000,
       execution_outcome = ExecutionExecuted break_wake \<lparr>shutdown_requestedAt = iso 392400000, shutdown_simulated = False\<rparr> None\<rparr>,
     w\<lparr>pw_claims := [(iso 392400000, [iso 392700000])],
       pw_calls := pw_calls w @ launch sample_shutdown (iso 392400000) (Some break_wake)\<rparr>)"
proof -
  have wake: "createWakeAlarmMutationResult (wake_value break_wake) = Inr break_wake"
    by (rule createWake_value) (simp add: wf_wake_def wf_wake_state_def isValidTransition_def break_iso)
  note shut = createShutdownResult_value[of "\<lparr>shutdown_requestedAt = iso 392400000, shutdown_simulated = False\<rparr>", simplified, OF break_iso(2)]
  show ?thesis
    by (simp add: execute_effects_def power_execution_def claim_in_memory_def power_claim_def shutdown_sample_created[unfolded sample_shutdown_def]
      claims_get_def bindIO_def catchIO_def liftIO_def wake_in_process_def shutdown_in_process_def break_outs_def
      wake shut answered_def retIO_def createMachineShutdownOccurrenceExecutionResult_def report_is_def break_iso
      sample_shutdown_def launch_def)
qed

lemma break_first_tick:
  "power_tick saoPauloFormatter break_plan break_outs (power_start False) =
    (Inr (PowerInitialized \<lparr>power_completedThrough = iso 392340000\<rparr>),
     \<lparr>pw_claims = [], pw_cursor = Some \<lparr>power_completedThrough = iso 392340000\<rparr>, pw_calls = [], pw_outside = True\<rparr>)"
proof -
  have "advance_object ''advanced'' (Some \<lparr>power_completedThrough = iso 392340000\<rparr>) = advance_object ''advanced'' (Some \<lparr>power_completedThrough = iso 392340000\<rparr>)" ..
  note adv = advance_object_created(1)[of "\<lparr>power_completedThrough = iso 392340000\<rparr>", simplified, OF break_iso(1)]
  show ?thesis
    by (simp add: power_tick_def RunMachinePowerSchedulerTick_execute_def power_start_def on_power_def break_outs_def
        toISOString_def tick_executeAsAuthorized_def tick_core_def createPowerCursor_object break_iso power_cursor_read_def
        power_tick_ports_def power_cursor_advance_def createPowerCursor_value power_cursor_value_def adv
        isSameMachinePowerSchedulerCursor_def bindIO_def liftIO_def retIO_def)
qed

lemma break_execution:
  "executeAt (power_execution break_outs) (shutdown_value sample_shutdown) (iso 392400000) source opts (w\<lparr>pw_claims := []\<rparr>) =
    execute_effects (power_execution break_outs) sample_shutdown (iso 392400000) None (w\<lparr>pw_claims := []\<rparr>)"
proof -
  have "\<not> earlier (iso 392400000) (shutdown_scheduledFor sample_shutdown)" "\<not> not_earlier (iso 392400000) (wakeScheduledFor sample_shutdown)"
    by (simp_all add: earlier_iff break_iso sample_shutdown_def)
  then show ?thesis
    by (simp add: executeAt_def shutdown_sample_created executeCore_def prepare_and_execute_def power_execution_def break_outs_def)
qed

text \<open>The world after the first tick, and after the second.\<close>

definition break_before :: "bool PowerWorld" where
  "break_before = \<lparr>pw_claims = [], pw_cursor = Some \<lparr>power_completedThrough = iso 392340000\<rparr>, pw_calls = [], pw_outside = True\<rparr>"

definition break_after :: "bool PowerWorld" where
  "break_after = \<lparr>pw_claims = [(iso 392400000, [iso 392700000])], pw_cursor = Some \<lparr>power_completedThrough = iso 392400000\<rparr>,
     pw_calls = launch sample_shutdown (iso 392400000) (Some break_wake), pw_outside = True\<rparr>"

lemma break_items:
  "\<exists>e. execution_outcome e = ExecutionExecuted break_wake \<lparr>shutdown_requestedAt = iso 392400000, shutdown_simulated = False\<rparr> None \<and>
    execute_items (power_tick_ports saoPauloFormatter break_plan break_outs) (iso 392400000) [sample_shutdown] [] break_before =
      (Inr [ItemCompleted e], break_after\<lparr>pw_cursor := pw_cursor break_before\<rparr>)"
  using break_launch[of break_before] break_execution[of _ _ break_before]
  by (auto simp: execute_item_def bindIO_def catchIO_def retIO_def break_before_def break_after_def)

lemma break_interval:
  "\<exists>report pruning. tick_interval saoPauloFormatter break_plan (power_tick_ports saoPauloFormatter break_plan break_outs)
      \<lparr>power_completedThrough = iso 392340000\<rparr> \<lparr>power_completedThrough = iso 392400000\<rparr> (iso 392400000) break_before =
    (Inr (PowerAdvanced \<lparr>power_completedThrough = iso 392340000\<rparr> \<lparr>power_completedThrough = iso 392400000\<rparr> report pruning),
     break_after)"
proof -
  let ?P = "power_tick_ports saoPauloFormatter break_plan break_outs"
  obtain e where e: "execution_outcome e = ExecutionExecuted break_wake \<lparr>shutdown_requestedAt = iso 392400000, shutdown_simulated = False\<rparr> None"
    "execute_items ?P (iso 392400000) [sample_shutdown] [] break_before =
      (Inr [ItemCompleted e], break_after\<lparr>pw_cursor := pw_cursor break_before\<rparr>)"
    using break_items by blast
  let ?w = "break_after\<lparr>pw_cursor := pw_cursor break_before\<rparr>"
  obtain report where report: "createMachinePowerSchedulerReport (iso 392340000) (iso 392400000) [ItemCompleted e] True = Inr report"
      "pr_complete report"
    using e(1) by (simp add: createMachinePowerSchedulerReport_def break_iso)
  have less: "\<not> iso 392400000 \<le> iso 392340000" by (simp add: four_digit_year_def)
  have prune: "tk_prune ?P \<lparr>power_completedThrough = iso 392340000\<rparr> ?w = (Inr False, ?w)"
    using less by (simp add: power_tick_ports_def power_prune_value break_after_def)
  have adv: "tk_advance ?P (Some \<lparr>power_completedThrough = iso 392340000\<rparr>) \<lparr>power_completedThrough = iso 392400000\<rparr> ?w =
      (Inr (CursorAdvanced \<lparr>power_completedThrough = iso 392400000\<rparr>), break_after)"
    using less advance_object_created(1)[of "\<lparr>power_completedThrough = iso 392400000\<rparr>"] break_iso(2)
    by (simp add: power_tick_ports_def power_cursor_advance_def createPowerCursor_value isSamePowerCursor_eq break_before_def
        break_after_def)
  note steps = bindIO_run[of "execute_items ?P (iso 392400000) [sample_shutdown] []" break_before, OF e(2)]
    bindIO_run[of "tk_prune ?P \<lparr>power_completedThrough = iso 392340000\<rparr>" ?w, OF prune]
    bindIO_run[of "tk_advance ?P (Some \<lparr>power_completedThrough = iso 392340000\<rparr>) \<lparr>power_completedThrough = iso 392400000\<rparr>" ?w, OF adv]
  have item: "list_all item_complete [ItemCompleted e]" using e(1) by simp
  show ?thesis
    unfolding tick_interval_def MachinePowerSchedulerCursor.simps break_occurrences bindIO_lift steps
    using item report by (intro exI[of _ report] exI[of _ False]) (simp add: steps retIO_def)
qed

lemma break_second_tick:
  "\<exists>report pruning. power_tick saoPauloFormatter break_plan break_outs break_before =
    (Inr (PowerAdvanced \<lparr>power_completedThrough = iso 392340000\<rparr> \<lparr>power_completedThrough = iso 392400000\<rparr> report pruning),
     break_after)"
proof -
  let ?P = "power_tick_ports saoPauloFormatter break_plan break_outs"
  have "\<not> iso 392400000 < iso 392340000" "iso 392400000 \<noteq> iso 392340000"
    by (simp_all add: four_digit_year_def iso_inject max_time_def)
  then have "tick_core saoPauloFormatter break_plan ?P (iso 392400000) break_before =
      tick_interval saoPauloFormatter break_plan ?P \<lparr>power_completedThrough = iso 392340000\<rparr>
        \<lparr>power_completedThrough = iso 392400000\<rparr> (iso 392400000) break_before"
    by (simp add: tick_core_def createPowerCursor_object break_iso bindIO_def[of "tk_read ?P"] power_cursor_read_def
        break_before_def MAX_INTERVAL_def)
  moreover have "power_tick saoPauloFormatter break_plan break_outs break_before =
      tick_core saoPauloFormatter break_plan ?P (iso 392400000) break_before"
  proof -
    have "on_power (po_now break_outs) break_before = (Inr (Some 392400000), break_before)"
      by (simp add: on_power_def break_outs_def break_before_def)
    note clock = bindIO_run[of "on_power (po_now break_outs)" break_before, OF this]
    have "po_audit break_outs = None" by (simp add: break_outs_def)
    then show ?thesis
      by (simp add: clock power_tick_def RunMachinePowerSchedulerTick_execute_def toISOString_def tick_executeAsAuthorized_def)
  qed
  ultimately show ?thesis using break_interval by simp
qed

lemma break_reachable:
  "(unattended_step saoPauloFormatter break_plan break_outs)\<^sup>*\<^sup>* (power_start False) break_after"
  "(power_step saoPauloFormatter break_plan break_outs)\<^sup>*\<^sup>* (power_start False) break_before"
  "(power_step saoPauloFormatter break_plan break_outs)\<^sup>*\<^sup>* (power_start False) break_after"
proof -
  have one: "snd (power_tick saoPauloFormatter break_plan break_outs (power_start False)) = break_before"
    by (simp add: break_first_tick break_before_def)
  have two: "snd (power_tick saoPauloFormatter break_plan break_outs break_before) = break_after"
    using break_second_tick by auto
  note step = unattended_step.tick[of saoPauloFormatter break_plan break_outs "power_start False", unfolded one]
    unattended_step.tick[of saoPauloFormatter break_plan break_outs break_before, unfolded two]
  show "(unattended_step saoPauloFormatter break_plan break_outs)\<^sup>*\<^sup>* (power_start False) break_after"
    by (rule rtranclp.rtrancl_into_rtrancl, rule r_into_rtranclp, rule step(1), rule step(2))
  note step = power_step.tick[of saoPauloFormatter break_plan break_outs "power_start False", unfolded one]
    power_step.tick[of saoPauloFormatter break_plan break_outs break_before, unfolded two]
  show before: "(power_step saoPauloFormatter break_plan break_outs)\<^sup>*\<^sup>* (power_start False) break_before"
    by (rule r_into_rtranclp, rule step(1))
  show "(power_step saoPauloFormatter break_plan break_outs)\<^sup>*\<^sup>* (power_start False) break_after"
    by (rule rtranclp.rtrancl_into_rtrancl, rule before, rule step(2))
qed

lemma break_executed:
  "executeAt (power_execution break_outs) (shutdown_value sample_shutdown) (iso 392400000) DIRECT_POWER_AUDIT_SOURCE
     default_options (power_start True) \<noteq>
   executeAt (power_execution break_outs\<lparr>ex_shutdown := \<lambda>_. throwIO (PortError ''refused'')\<rparr>) (shutdown_value sample_shutdown)
     (iso 392400000) DIRECT_POWER_AUDIT_SOURCE default_options (power_start True)"
proof -
  have "(case fst (executeAt (power_execution break_outs) (shutdown_value sample_shutdown) (iso 392400000)
      DIRECT_POWER_AUDIT_SOURCE default_options (power_start True)) of Inl _ \<Rightarrow> False | Inr _ \<Rightarrow> True)" by code_simp
  moreover have "(case fst (executeAt (power_execution break_outs\<lparr>ex_shutdown := \<lambda>_. throwIO (PortError ''refused'')\<rparr>)
      (shutdown_value sample_shutdown) (iso 392400000) DIRECT_POWER_AUDIT_SOURCE default_options (power_start True)) of
        Inl _ \<Rightarrow> True | Inr _ \<Rightarrow> False)" by code_simp
  ultimately show ?thesis by (auto split: sum.splits)
qed

theorem machine_shutdown_guarded_witness:
  "\<exists>o' w v. time_of (shutdown_scheduledFor o') \<le> 392400000 \<and> 392400000 < time_of (wakeScheduledFor o') \<and>
     launching (power_execution break_outs) o' (iso 392400000) w v"
proof -
  obtain r w' where run: "executeAt (power_execution break_outs) (shutdown_value sample_shutdown) (iso 392400000)
      DIRECT_POWER_AUDIT_SOURCE default_options (power_start True) = (r, w')" by (rule prod.exhaust)
  have "\<not> (\<forall>sd. executeAt (power_execution break_outs\<lparr>ex_shutdown := sd\<rparr>) (shutdown_value sample_shutdown) (iso 392400000)
      DIRECT_POWER_AUDIT_SOURCE default_options (power_start True) = (r, w'))"
    using break_executed unfolding run by metis
  then show ?thesis
    using machine_shutdown_guarded[OF break_iso(2) run] unfolding break_iso by blast
qed

theorem tick_executes_each_once_witness:
  "\<exists>items w r w'. executed_in_turn (power_tick_ports saoPauloFormatter break_plan break_outs) (iso 392400000)
       [sample_shutdown] items break_before w \<and>
     concluded (power_tick_ports saoPauloFormatter break_plan break_outs) \<lparr>power_completedThrough = iso 392340000\<rparr>
       (iso 392400000) items w r w'"
proof -
  have "iso 392340000 < iso 392400000" by code_simp
  then have "tick_due saoPauloFormatter break_plan (power_tick_ports saoPauloFormatter break_plan break_outs) (iso 392400000)
      break_before \<lparr>power_completedThrough = iso 392340000\<rparr> break_before [sample_shutdown]"
    using break_occurrences
    by (simp add: tick_due_def break_before_def power_cursor_read_def createPowerCursor_object MAX_INTERVAL_def break_iso)
  then show ?thesis
    using tick_executes_each_once[OF break_iso(2), of saoPauloFormatter break_plan
        "power_tick_ports saoPauloFormatter break_plan break_outs" break_before] by blast
qed

theorem scheduler_claims_once_witness:
  "distinct (granted (pw_calls break_after)) \<and> granted (pw_calls break_after) = [sample_shutdown]"
  using scheduler_claims_once[OF break_clock break_reachable(1)] by (simp add: break_after_def)

lemma break_direct:
  "pw_calls (snd (ExecuteMachineShutdownOccurrence_execute (power_execution break_outs) (shutdown_value sample_shutdown)
     (power_start True))) = launch sample_shutdown (iso 392400000) (Some break_wake)" (is "?calls = _")
  "pw_cursor (snd (ExecuteMachineShutdownOccurrence_execute (power_execution break_outs) (shutdown_value sample_shutdown)
     (power_start True))) = None" (is "?cursor = _")
proof -
  have now: "ex_now (power_execution break_outs) (power_start True) = (Inr (Some 392400000), power_start True)"
    by (simp add: power_execution_def on_power_def break_outs_def power_start_def)
  have start: "(power_start True)\<lparr>pw_claims := []\<rparr> = power_start True" by (simp add: power_start_def)
  have "ExecuteMachineShutdownOccurrence_execute (power_execution break_outs) (shutdown_value sample_shutdown) (power_start True) =
      execute_effects (power_execution break_outs) sample_shutdown (iso 392400000) None (power_start True)"
    by (simp add: ExecuteMachineShutdownOccurrence_execute_def shutdown_sample_created toISOString_def
        bindIO_run[of "ex_now (power_execution break_outs)", OF now] break_execution[of _ _ "power_start True", unfolded start])
  then show "?calls = launch sample_shutdown (iso 392400000) (Some break_wake)" "?cursor = None"
    using break_launch[of "power_start True", unfolded start] by (simp_all add: power_start_def)
qed

theorem claimed_until_passed_witness:
  "power_claimed (pw_claims (snd (ExecuteMachineShutdownOccurrence_execute (power_execution break_outs)
     (shutdown_value sample_shutdown) (power_start True)))) sample_shutdown"
proof -
  let ?w = "snd (ExecuteMachineShutdownOccurrence_execute (power_execution break_outs) (shutdown_value sample_shutdown)
      (power_start True))"
  have "(power_step saoPauloFormatter break_plan break_outs)\<^sup>*\<^sup>* (power_start True) ?w"
    by (rule r_into_rtranclp, rule power_step.direct)
  from claimed_until_passed[OF break_clock this] show ?thesis by (simp add: break_direct power_passed_def)
qed

theorem tick_answers_what_happened_witness:
  "\<exists>os items. createMachineShutdownOccurrencesForInterval saoPauloFormatter break_plan (iso 392340000) (iso 392400000) = Inr os \<and>
     os \<noteq> [] \<and> list_all2 done_with os items"
proof -
  obtain report pruning where "power_tick saoPauloFormatter break_plan break_outs break_before =
      (Inr (PowerAdvanced \<lparr>power_completedThrough = iso 392340000\<rparr> \<lparr>power_completedThrough = iso 392400000\<rparr> report pruning),
       break_after)"
    using break_second_tick by blast
  from tick_answers_what_happened[OF break_clock break_reachable(2) this]
  show ?thesis using break_occurrences by auto
qed

text \<open>The wake alarm of this run cancels instead of scheduling.\<close>

definition cancelling_outs :: "bool PowerOutside" where
  "cancelling_outs = break_outs\<lparr>po_wake := (\<lambda>at wake. retIO (wake_value \<lparr>wake_operation = cancel_wake, wake_requestedAt = at,
     wake_outcome = wake_not_scheduled, wake_before = WakeNotScheduled, wake_after = WakeNotScheduled\<rparr>))\<rparr>"

theorem unconfirmed_wake_still_shuts_down_witness:
  "ShutdownRequested (iso 392400000) \<in> set (pw_calls (snd (execute_effects (power_execution cancelling_outs) sample_shutdown
     (iso 392400000) None (power_start True))))"
proof -
  let ?m = "\<lparr>wake_operation = cancel_wake, wake_requestedAt = iso 392400000,
     wake_outcome = wake_not_scheduled, wake_before = WakeNotScheduled, wake_after = WakeNotScheduled\<rparr>"
  have wake: "po_wake cancelling_outs (iso 392400000) (wakeScheduledFor sample_shutdown) (pw_outside (power_start True)) =
      (Inr (wake_value ?m), True)"
    by (simp add: cancelling_outs_def power_start_def retIO_def)
  have "wf_wake ?m" by (simp add: wf_wake_def wf_wake_state_def isValidTransition_def break_iso)
  from unconfirmed_wake_still_shuts_down[OF sample_wf _ this wake] show ?thesis
    by (simp add: is_power_claimed_def power_start_def claims_get_def)
qed

end
