(* ===== verification/Administrative_Access.thy ===== *)
theory Administrative_Access
  imports Machine_Readiness
begin

text \<open>
  Who may do what (\<open>access-control\<close>): roles, permissions and operations with their tables
  (\<open>domain/administrative-role.ts\<close>, \<open>administrative-permission.ts\<close>, \<open>administrative-operation.ts\<close>),
  principals, authentication results and authorization decisions with their validating constructors
  (\<open>domain/administrative-principal.ts\<close>, \<open>administrative-authentication-result.ts\<close>,
  \<open>administrative-authorization-decision.ts\<close>), the two use cases that answer who is asking and whether it is
  allowed (\<open>application/authenticate-administrative-request.ts\<close>, \<open>authorize-administrative-operation.ts\<close>),
  and the in-memory reader of role assignments. Roles, permissions and operations are string literals
  in the source and strings here.
\<close>

section \<open>Roles, permissions and operations\<close>

definition ADMINISTRATIVE_ROLES :: "string list" where
  "ADMINISTRATIVE_ROLES =
     [''power_operator'', ''scheduler_operator'', ''auditor'', ''service_operator'', ''backup_operator'',
      ''audit_operator'', ''administrator'']"

abbreviation AdministrativeRoleValidationError :: "string \<Rightarrow> js_error" where
  "AdministrativeRoleValidationError \<equiv> NamedError ''AdministrativeRoleValidationError''"

text \<open>A string of a fixed list, as the constructors of the three vocabularies test it.\<close>

fun one_of :: "string list \<Rightarrow> js_error \<Rightarrow> jsval \<Rightarrow> string result" where
  "one_of names e (JStr v) = (if v \<in> set names then Inr v else Inl e)"
| "one_of names e _ = Inl e"

definition createAdministrativeRole :: "jsval \<Rightarrow> string result" where
  "createAdministrativeRole = one_of ADMINISTRATIVE_ROLES (AdministrativeRoleValidationError ''invalid_role'')"

definition createAdministrativeRoleCollection :: "jsval \<Rightarrow> string list result" where
  "createAdministrativeRoleCollection input =
     (case input of
        JArr vs \<Rightarrow>
          if length vs < 1 \<or> length vs > 7
          then Inl (AdministrativeRoleValidationError ''invalid_role_collection'')
          else bindR (mapR createAdministrativeRole vs) (\<lambda>roles.
            if length (set_of_array roles) \<noteq> length roles
            then Inl (AdministrativeRoleValidationError ''invalid_role_collection'') else Inr roles)
      | _ \<Rightarrow> Inl (AdministrativeRoleValidationError ''invalid_role_collection''))"

definition ADMINISTRATIVE_PERMISSIONS :: "string list" where
  "ADMINISTRATIVE_PERMISSIONS =
     [''power.wake.read'', ''power.wake.schedule'', ''power.wake.cancel'', ''power.shutdown.request'',
      ''power.shutdown.prepare'', ''power.shutdown.execute'', ''power.scheduler.tick'',
      ''power.schedule.read'', ''power.schedule.write'', ''event_history.read'', ''services.read'',
      ''services.start'', ''services.stop'', ''services.restart'', ''services.availability.read'',
      ''services.availability.write'', ''operations.read'', ''dashboard.read'', ''security.posture.read'',
      ''infrastructure.diagnostics.read'', ''backups.targets.read'', ''backups.runs.read'', ''backups.run'',
      ''backups.schedule.read'', ''backups.schedule.write'', ''backups.retention.read'',
      ''backups.retention.write'', ''backups.retention.prune'', ''backups.scheduler.tick'',
      ''event_history.integrity.read'', ''event_history.rotation.run'', ''event_history.retention.read'',
      ''event_history.retention.write'', ''event_history.retention.prune'', ''event_history.exports.read'',
      ''event_history.exports.create'', ''event_history.exports.download'', ''event_history.exports.prune'']"

definition createAdministrativePermission :: "jsval \<Rightarrow> string result" where
  "createAdministrativePermission =
     one_of ADMINISTRATIVE_PERMISSIONS (NamedError ''AdministrativePermissionValidationError'' ''invalid_permission'')"

definition ADMINISTRATIVE_OPERATIONS :: "string list" where
  "ADMINISTRATIVE_OPERATIONS =
     [''read_wake_alarm'', ''schedule_wake_alarm'', ''cancel_wake_alarm'', ''request_machine_shutdown'',
      ''prepare_machine_shutdown_occurrence'', ''execute_machine_shutdown_occurrence'',
      ''run_machine_power_scheduler_tick'', ''read_machine_operating_policy'',
      ''read_machine_operating_policy_preview'', ''update_machine_operating_policy'',
      ''remove_machine_operating_policy'', ''read_administrative_event_history'', ''read_registered_services'',
      ''read_registered_service'', ''read_registered_service_logs'', ''read_registered_service_resources'',
      ''start_registered_service'', ''stop_registered_service'', ''restart_registered_service'',
      ''read_registered_service_availability'', ''read_registered_service_availability_preview'',
      ''read_registered_service_schedule'', ''read_registered_service_schedule_preview'',
      ''update_registered_service_availability'', ''remove_registered_service_availability'',
      ''update_registered_service_schedule'', ''remove_registered_service_schedule'',
      ''read_operations_overview'', ''read_administrative_dashboard'',
      ''read_administrative_security_posture'', ''read_infrastructure_diagnostics'',
      ''read_registered_backup_targets'', ''read_registered_backup_target'', ''read_backup_runs'',
      ''read_backup_run'', ''run_registered_backup'', ''read_backup_schedule'', ''update_backup_schedule'',
      ''remove_backup_schedule'', ''read_backup_retention'', ''update_backup_retention'',
      ''run_backup_retention_prune'', ''run_backup_scheduler_tick'', ''verify_event_history_integrity'',
      ''rotate_event_history'', ''read_event_history_retention'', ''update_event_history_retention'',
      ''prune_event_history'', ''list_event_history_exports'', ''read_event_history_export'',
      ''create_event_history_export'', ''download_event_history_export'', ''prune_event_history_exports'']"

definition ADMINISTRATIVE_ROLE_PERMISSIONS :: "(string \<times> string list) list" where
  "ADMINISTRATIVE_ROLE_PERMISSIONS =
     [(''power_operator'',
        [''power.wake.read'', ''power.wake.schedule'', ''power.wake.cancel'', ''power.shutdown.request'',
         ''power.shutdown.prepare'', ''power.shutdown.execute'', ''power.schedule.read'',
         ''power.schedule.write'', ''operations.read'', ''dashboard.read'']),
      (''scheduler_operator'',
        [''power.scheduler.tick'', ''operations.read'', ''dashboard.read'']),
      (''auditor'',
        [''event_history.read'', ''event_history.integrity.read'', ''event_history.exports.read'',
         ''event_history.exports.create'', ''event_history.exports.download'', ''operations.read'',
         ''dashboard.read'', ''backups.targets.read'', ''backups.runs.read'', ''security.posture.read'',
         ''infrastructure.diagnostics.read'']),
      (''service_operator'',
        [''services.read'', ''services.start'', ''services.stop'', ''services.restart'',
         ''services.availability.read'', ''services.availability.write'', ''operations.read'',
         ''dashboard.read'']),
      (''backup_operator'',
        [''backups.targets.read'', ''backups.runs.read'', ''backups.run'', ''backups.schedule.read'',
         ''backups.schedule.write'', ''backups.retention.read'', ''backups.retention.write'',
         ''backups.retention.prune'', ''backups.scheduler.tick'', ''operations.read'', ''dashboard.read'']),
      (''audit_operator'',
        [''event_history.read'', ''event_history.integrity.read'', ''event_history.rotation.run'',
         ''event_history.retention.read'', ''event_history.retention.write'',
         ''event_history.retention.prune'', ''event_history.exports.read'', ''event_history.exports.create'',
         ''event_history.exports.download'', ''event_history.exports.prune'', ''operations.read'',
         ''dashboard.read'', ''security.posture.read'']),
      (''administrator'',
        [''power.wake.read'', ''power.wake.schedule'', ''power.wake.cancel'', ''power.shutdown.request'',
         ''power.shutdown.prepare'', ''power.shutdown.execute'', ''power.scheduler.tick'',
         ''power.schedule.read'', ''power.schedule.write'', ''event_history.read'', ''services.read'',
         ''services.start'', ''services.stop'', ''services.restart'', ''services.availability.read'',
         ''services.availability.write'', ''operations.read'', ''dashboard.read'', ''security.posture.read'',
         ''backups.targets.read'', ''backups.runs.read'', ''backups.run'', ''backups.schedule.read'',
         ''backups.schedule.write'', ''backups.retention.read'', ''backups.retention.write'',
         ''backups.retention.prune'', ''backups.scheduler.tick'', ''event_history.integrity.read'',
         ''event_history.rotation.run'', ''event_history.retention.read'', ''event_history.retention.write'',
         ''event_history.retention.prune'', ''event_history.exports.read'', ''event_history.exports.create'',
         ''event_history.exports.download'', ''event_history.exports.prune'',
         ''infrastructure.diagnostics.read''])]"

definition OPERATION_PERMISSIONS :: "(string \<times> string) list" where
  "OPERATION_PERMISSIONS =
     [(''read_wake_alarm'', ''power.wake.read''), (''schedule_wake_alarm'', ''power.wake.schedule''),
      (''cancel_wake_alarm'', ''power.wake.cancel''),
      (''request_machine_shutdown'', ''power.shutdown.request''),
      (''prepare_machine_shutdown_occurrence'', ''power.shutdown.prepare''),
      (''execute_machine_shutdown_occurrence'', ''power.shutdown.execute''),
      (''run_machine_power_scheduler_tick'', ''power.scheduler.tick''),
      (''read_machine_operating_policy'', ''power.schedule.read''),
      (''read_machine_operating_policy_preview'', ''power.schedule.read''),
      (''update_machine_operating_policy'', ''power.schedule.write''),
      (''remove_machine_operating_policy'', ''power.schedule.write''),
      (''read_administrative_event_history'', ''event_history.read''),
      (''read_registered_services'', ''services.read''), (''read_registered_service'', ''services.read''),
      (''read_registered_service_logs'', ''services.read''),
      (''read_registered_service_resources'', ''services.read''),
      (''start_registered_service'', ''services.start''), (''stop_registered_service'', ''services.stop''),
      (''restart_registered_service'', ''services.restart''),
      (''read_registered_service_availability'', ''services.availability.read''),
      (''read_registered_service_availability_preview'', ''services.availability.read''),
      (''read_registered_service_schedule'', ''services.availability.read''),
      (''read_registered_service_schedule_preview'', ''services.availability.read''),
      (''update_registered_service_availability'', ''services.availability.write''),
      (''remove_registered_service_availability'', ''services.availability.write''),
      (''update_registered_service_schedule'', ''services.availability.write''),
      (''remove_registered_service_schedule'', ''services.availability.write''),
      (''read_operations_overview'', ''operations.read''),
      (''read_administrative_dashboard'', ''dashboard.read''),
      (''read_administrative_security_posture'', ''security.posture.read''),
      (''read_infrastructure_diagnostics'', ''infrastructure.diagnostics.read''),
      (''read_registered_backup_targets'', ''backups.targets.read''),
      (''read_registered_backup_target'', ''backups.targets.read''),
      (''read_backup_runs'', ''backups.runs.read''), (''read_backup_run'', ''backups.runs.read''),
      (''run_registered_backup'', ''backups.run''), (''read_backup_schedule'', ''backups.schedule.read''),
      (''update_backup_schedule'', ''backups.schedule.write''),
      (''remove_backup_schedule'', ''backups.schedule.write''),
      (''read_backup_retention'', ''backups.retention.read''),
      (''update_backup_retention'', ''backups.retention.write''),
      (''run_backup_retention_prune'', ''backups.retention.prune''),
      (''run_backup_scheduler_tick'', ''backups.scheduler.tick''),
      (''verify_event_history_integrity'', ''event_history.integrity.read''),
      (''rotate_event_history'', ''event_history.rotation.run''),
      (''read_event_history_retention'', ''event_history.retention.read''),
      (''update_event_history_retention'', ''event_history.retention.write''),
      (''prune_event_history'', ''event_history.retention.prune''),
      (''list_event_history_exports'', ''event_history.exports.read''),
      (''read_event_history_export'', ''event_history.exports.read''),
      (''create_event_history_export'', ''event_history.exports.create''),
      (''download_event_history_export'', ''event_history.exports.download''),
      (''prune_event_history_exports'', ''event_history.exports.prune'')]"

definition createAdministrativeOperation :: "jsval \<Rightarrow> string result" where
  "createAdministrativeOperation =
     one_of ADMINISTRATIVE_OPERATIONS (NamedError ''AdministrativeOperationValidationError'' ''invalid_operation'')"

text \<open>Indexing the tables; a name that is no key reads as undefined.\<close>

definition permissionForAdministrativeOperation :: "string \<Rightarrow> string option" where
  "permissionForAdministrativeOperation operation = map_of OPERATION_PERMISSIONS operation"

definition roleHasAdministrativePermission :: "string \<Rightarrow> string \<Rightarrow> bool result" where
  "roleHasAdministrativePermission role permission =
     (case map_of ADMINISTRATIVE_ROLE_PERMISSIONS role of
        None \<Rightarrow> Inl (NamedError ''TypeError'' ''undefined'')
      | Some permissions \<Rightarrow> Inr (permission \<in> set permissions))"

text \<open>An optional string as a property value.\<close>

definition opt_value :: "string option \<Rightarrow> jsval" where
  "opt_value v = (case v of None \<Rightarrow> JUndefined | Some s \<Rightarrow> JStr s)"

section \<open>Principals\<close>

datatype AdministrativePrincipalKind = HumanPrincipal | ServicePrincipal

record AdministrativePrincipal =
  principalId :: string
  principal_kind :: AdministrativePrincipalKind

text \<open>\<open>/^[0-9a-f]{8}-[0-9a-f]{4}-[1-5][0-9a-f]{3}-[89ab][0-9a-f]{3}-[0-9a-f]{12}$/\<close>, one class per character.\<close>

definition hex_digits :: string where
  "hex_digits = ''0123456789abcdef''"

definition uuid_classes :: "string list" where
  "uuid_classes = replicate 8 hex_digits @ [''-''] @ replicate 4 hex_digits @ [''-'', ''12345''] @
     replicate 3 hex_digits @ [''-'', ''89ab''] @ replicate 3 hex_digits @ [''-''] @ replicate 12 hex_digits"

definition CANONICAL_UUID :: "string \<Rightarrow> bool" where
  "CANONICAL_UUID v = list_all2 (\<lambda>c cs. c \<in> set cs) v uuid_classes"

abbreviation AdministrativePrincipalValidationError :: js_error where
  "AdministrativePrincipalValidationError \<equiv> NamedError ''AdministrativePrincipalValidationError'' ''invalid_principal''"

fun principal_kind_of :: "jsval \<Rightarrow> AdministrativePrincipalKind option" where
  "principal_kind_of (JStr v) =
     (if v = ''human'' then Some HumanPrincipal else if v = ''service'' then Some ServicePrincipal else None)"
| "principal_kind_of _ = None"

definition createAdministrativePrincipal :: "jsval \<Rightarrow> AdministrativePrincipal result" where
  "createAdministrativePrincipal input =
     (if \<not> is_plain_object input then Inl AdministrativePrincipalValidationError
      else let n = length (own_keys input) in
        if n < 1 \<or> n > 2 \<or> \<not> has_own input ''principalId'' \<or> n = 2 \<and> \<not> has_own input ''kind''
        then Inl AdministrativePrincipalValidationError
        else case get_prop input ''principalId'' of
          JStr pid \<Rightarrow>
            if \<not> CANONICAL_UUID pid then Inl AdministrativePrincipalValidationError
            else (case (if has_own input ''kind'' then principal_kind_of (get_prop input ''kind'') else Some HumanPrincipal) of
                    None \<Rightarrow> Inl AdministrativePrincipalValidationError
                  | Some k \<Rightarrow> Inr \<lparr>principalId = pid, principal_kind = k\<rparr>)
        | _ \<Rightarrow> Inl AdministrativePrincipalValidationError)"

definition isCanonicalAdministrativePrincipalId :: "string \<Rightarrow> bool" where
  "isCanonicalAdministrativePrincipalId v = CANONICAL_UUID v"

definition administrativePrincipalActorId :: "AdministrativePrincipal \<Rightarrow> string" where
  "administrativePrincipalActorId p =
     (case principal_kind p of
        ServicePrincipal \<Rightarrow> ''service:'' @ principalId p
      | HumanPrincipal \<Rightarrow> ''administrator:'' @ principalId p)"

fun principal_kind_name :: "AdministrativePrincipalKind \<Rightarrow> string" where
  "principal_kind_name HumanPrincipal = ''human''"
| "principal_kind_name ServicePrincipal = ''service''"

definition principal_value :: "AdministrativePrincipal \<Rightarrow> jsval" where
  "principal_value p =
     literal_obj [(''principalId'', JStr (principalId p)), (''kind'', JStr (principal_kind_name (principal_kind p)))]"

definition wf_principal :: "AdministrativePrincipal \<Rightarrow> bool" where
  "wf_principal p \<longleftrightarrow> CANONICAL_UUID (principalId p)"

lemma createAdministrativePrincipal_wf: "createAdministrativePrincipal v = Inr p \<Longrightarrow> wf_principal p"
  by (auto simp: createAdministrativePrincipal_def wf_principal_def Let_def
      split: if_splits jsval.splits option.splits)

lemma createAdministrativePrincipal_value:
  "wf_principal p \<Longrightarrow> createAdministrativePrincipal (principal_value p) = Inr p"
  by (cases "principal_kind p")
    (auto simp: createAdministrativePrincipal_def principal_value_def wf_principal_def has_own_def literal_simps)

section \<open>Authentication\<close>

text \<open>The reason of a refusal is the raw value: it was only compared after conversion to a string.\<close>

datatype AdministrativeAuthenticationResult =
    Authenticated AdministrativePrincipal
  | Unauthenticated jsval
  | AuthenticationUnavailable

definition AUTHENTICATION_REASONS :: "string list" where
  "AUTHENTICATION_REASONS =
     [''credentials_absent'', ''credentials_invalid'', ''signature_invalid'', ''issuer_mismatch'',
      ''audience_mismatch'', ''claims_invalid'', ''key_unavailable'']"

definition createAdministrativeAuthenticationResult :: "jsval \<Rightarrow> AdministrativeAuthenticationResult result" where
  "createAdministrativeAuthenticationResult input =
     (let invalid = Inl (PlainError ''Invalid authentication result''); n = length (own_keys input);
          outcome = get_prop input ''outcome''; reason = get_prop input ''reason'' in
      if \<not> is_plain_object input then invalid
      else if outcome = JStr ''authenticated''
      then if n \<noteq> 2 \<or> \<not> has_own input ''principal'' then invalid
           else bindR (createAdministrativePrincipal (get_prop input ''principal'')) (\<lambda>p. Inr (Authenticated p))
      else if outcome = JStr ''unauthenticated''
      then if n \<noteq> 2 \<or> \<not> list_ex (\<lambda>name. string_is name reason) AUTHENTICATION_REASONS then invalid
           else Inr (Unauthenticated reason)
      else if outcome = JStr ''unavailable'' \<and> n = 2 \<and> reason = JStr ''identity_provider_unavailable''
      then Inr AuthenticationUnavailable
      else invalid)"

definition AuthenticateAdministrativeRequest_execute ::
  "('w, jsval) io \<Rightarrow> ('w, AdministrativeAuthenticationResult) io" where
  "AuthenticateAdministrativeRequest_execute provider =
     catchIO (bindIO provider (\<lambda>v. liftIO (createAdministrativeAuthenticationResult v)))
       (\<lambda>_. retIO AuthenticationUnavailable)"

text \<open>The provider of a composition without credentials.\<close>

definition DenyAll_authenticate :: "('w, jsval) io" where
  "DenyAll_authenticate =
     retIO (literal_obj [(''outcome'', JStr ''unauthenticated''), (''reason'', JStr ''credentials_absent'')])"

section \<open>Authorization decisions\<close>

datatype AuthorizationOutcome = Allowed | Denied string

record AdministrativeAuthorizationDecision =
  decision_principal :: AdministrativePrincipal
  decision_operation :: string
  decision_permission :: string
  decision_evaluatedAt :: string
  decision_outcome :: AuthorizationOutcome

definition ADMINISTRATIVE_AUTHORIZATION_DENY_REASONS :: "string list" where
  "ADMINISTRATIVE_AUTHORIZATION_DENY_REASONS =
     [''principal_unknown'', ''permission_denied'', ''role_assignment_unavailable'', ''authorization_policy_unavailable'']"

definition createAdministrativeAuthorizationDecision :: "jsval \<Rightarrow> AdministrativeAuthorizationDecision result" where
  "createAdministrativeAuthorizationDecision input =
     (let invalid = Inl (PlainError ''Invalid authorization decision'') in
      if \<not> is_plain_object input then invalid
      else let n = length (own_keys input) in
        bindR (createAdministrativePrincipal (get_prop input ''principal'')) (\<lambda>principal.
        bindR (createAdministrativeOperation (get_prop input ''operation'')) (\<lambda>operation.
        bindR (createAdministrativePermission (get_prop input ''permission'')) (\<lambda>permission.
        if permissionForAdministrativeOperation operation \<noteq> Some permission then invalid
        else case canonical_string (get_prop input ''evaluatedAt'') of
          None \<Rightarrow> invalid
        | Some evaluatedAt \<Rightarrow>
            let decision = (\<lambda>oc. \<lparr>decision_principal = principal, decision_operation = operation,
                  decision_permission = permission, decision_evaluatedAt = evaluatedAt, decision_outcome = oc\<rparr>) in
            if get_prop input ''outcome'' = JStr ''allowed''
            then if n \<noteq> 5 \<or> has_own input ''reason'' then invalid else Inr (decision Allowed)
            else case get_prop input ''reason'' of
              JStr reason \<Rightarrow>
                if get_prop input ''outcome'' \<noteq> JStr ''denied'' \<or> n \<noteq> 6 \<or>
                   reason \<notin> set ADMINISTRATIVE_AUTHORIZATION_DENY_REASONS
                then invalid else Inr (decision (Denied reason))
            | _ \<Rightarrow> invalid))))"

definition createAllowedAdministrativeAuthorizationDecision ::
  "AdministrativePrincipal \<Rightarrow> string \<Rightarrow> string \<Rightarrow> AdministrativeAuthorizationDecision result" where
  "createAllowedAdministrativeAuthorizationDecision p operation evaluatedAt =
     createAdministrativeAuthorizationDecision (literal_obj
       [(''principal'', principal_value p), (''operation'', JStr operation), (''evaluatedAt'', JStr evaluatedAt),
        (''permission'', opt_value (permissionForAdministrativeOperation operation)), (''outcome'', JStr ''allowed'')])"

definition createDeniedAdministrativeAuthorizationDecision ::
  "AdministrativePrincipal \<Rightarrow> string \<Rightarrow> string \<Rightarrow> string \<Rightarrow> AdministrativeAuthorizationDecision result" where
  "createDeniedAdministrativeAuthorizationDecision p operation evaluatedAt reason =
     createAdministrativeAuthorizationDecision (literal_obj
       [(''principal'', principal_value p), (''operation'', JStr operation), (''evaluatedAt'', JStr evaluatedAt),
        (''reason'', JStr reason),
        (''permission'', opt_value (permissionForAdministrativeOperation operation)), (''outcome'', JStr ''denied'')])"

section \<open>Authorizing an operation\<close>

datatype RoleAssignment = Assigned "string list" | UnknownPrincipal | AssignmentUnavailable

text \<open>\<open>roles.some(...)\<close> with a callback that may throw.\<close>

fun someR :: "('a \<Rightarrow> bool result) \<Rightarrow> 'a list \<Rightarrow> bool result" where
  "someR f [] = Inr False"
| "someR f (x # xs) = bindR (f x) (\<lambda>b. if b then Inr True else someR f xs)"

definition AuthorizeAdministrativeOperation_execute ::
  "(AdministrativePrincipal \<Rightarrow> ('w, RoleAssignment) io) \<Rightarrow> jsval \<Rightarrow> jsval \<Rightarrow> string \<Rightarrow>
     ('w, AdministrativeAuthorizationDecision) io" where
  "AuthorizeAdministrativeOperation_execute roles principalInput operationInput evaluatedAt =
     bindIO (liftIO (createAdministrativePrincipal principalInput)) (\<lambda>principal.
     bindIO (liftIO (createAdministrativeOperation operationInput)) (\<lambda>operation.
     if \<not> canonical evaluatedAt then throwIO (PlainError ''Invalid authorization evaluation timestamp'')
     else let denied = createDeniedAdministrativeAuthorizationDecision principal operation evaluatedAt;
              permission = permissionForAdministrativeOperation operation in
       bindIO (catchIO (bindIO (roles principal) (\<lambda>a. retIO (Some a))) (\<lambda>_. retIO None)) (\<lambda>assignment.
       case assignment of
         None \<Rightarrow> liftIO (denied ''role_assignment_unavailable'')
       | Some UnknownPrincipal \<Rightarrow> liftIO (denied ''principal_unknown'')
       | Some AssignmentUnavailable \<Rightarrow> liftIO (denied ''role_assignment_unavailable'')
       | Some (Assigned names) \<Rightarrow>
           catchIO (liftIO (bindR (someR (\<lambda>role.
               case permission of None \<Rightarrow> Inr False | Some p \<Rightarrow> roleHasAdministrativePermission role p) names) (\<lambda>allowed.
             if allowed then createAllowedAdministrativeAuthorizationDecision principal operation evaluatedAt
             else denied ''permission_denied'')))
           (\<lambda>_. liftIO (createAdministrativeAuthorizationDecision (literal_obj
              [(''principal'', principal_value principal), (''operation'', JStr operation),
               (''permission'', opt_value permission), (''evaluatedAt'', JStr evaluatedAt), (''outcome'', JStr ''denied''),
               (''reason'', JStr ''authorization_policy_unavailable'')]))))))"

section \<open>The in-memory role assignments\<close>

text \<open>
  \<open>infrastructure/in-memory-administrative-role-assignment-reader.ts\<close>: the constructor validates the
  assignments, a failing reader rejects every call.
\<close>

record RoleAssignmentReader =
  reader_assignments :: "(string \<times> string list) list"
  reader_failure :: "js_error option"
  reader_lookups :: "string list"

definition isAssignmentRecord :: "jsval \<Rightarrow> bool" where
  "isAssignmentRecord input \<longleftrightarrow>
     is_object input \<and> length (own_keys input) = 2 \<and> has_own input ''principalId'' \<and> has_own input ''roles''"

fun assign_roles :: "jsval list \<Rightarrow> (string \<times> string list) list \<Rightarrow> (string \<times> string list) list result" where
  "assign_roles [] m = Inr m"
| "assign_roles (assignment # rest) m =
     (if \<not> isAssignmentRecord assignment then Inl (PlainError ''Invalid role assignment configuration'')
      else bindR (createAdministrativePrincipal (literal_obj [(''principalId'', get_prop assignment ''principalId'')])) (\<lambda>p.
        if map_of m (principalId p) \<noteq> None then Inl (PlainError ''Duplicate principal assignment'')
        else bindR (createAdministrativeRoleCollection (get_prop assignment ''roles'')) (\<lambda>roles.
          assign_roles rest (m @ [(principalId p, roles)]))))"

definition create_RoleAssignmentReader :: "jsval list \<Rightarrow> js_error option \<Rightarrow> RoleAssignmentReader result" where
  "create_RoleAssignmentReader assignments failure =
     bindR (assign_roles assignments []) (\<lambda>m.
     Inr \<lparr>reader_assignments = m, reader_failure = failure, reader_lookups = []\<rparr>)"

definition role_read :: "AdministrativePrincipal \<Rightarrow> (RoleAssignmentReader, RoleAssignment) io" where
  "role_read p reader =
     (case createAdministrativePrincipal (principal_value p) of
        Inl e \<Rightarrow> (Inl e, reader)
      | Inr validated \<Rightarrow>
          (let reader' = reader\<lparr>reader_lookups := reader_lookups reader @ [principalId validated]\<rparr> in
           case reader_failure reader of
             Some e \<Rightarrow> (Inl e, reader')
           | None \<Rightarrow>
               (Inr (case map_of (reader_assignments reader) (principalId validated) of
                       Some roles \<Rightarrow> Assigned roles | None \<Rightarrow> UnknownPrincipal), reader')))"

section \<open>The tables\<close>

lemma operations_listed: "map fst OPERATION_PERMISSIONS = ADMINISTRATIVE_OPERATIONS"
  by (simp add: OPERATION_PERMISSIONS_def ADMINISTRATIVE_OPERATIONS_def)

lemma permissions_listed: "set (map snd OPERATION_PERMISSIONS) \<subseteq> set ADMINISTRATIVE_PERMISSIONS"
  by (simp add: OPERATION_PERMISSIONS_def ADMINISTRATIVE_PERMISSIONS_def)

lemma operation_permission:
  assumes "op \<in> set ADMINISTRATIVE_OPERATIONS"
  obtains p where "permissionForAdministrativeOperation op = Some p" "p \<in> set ADMINISTRATIVE_PERMISSIONS"
proof -
  have "op \<in> fst ` set OPERATION_PERMISSIONS" using assms by (simp flip: operations_listed)
  then obtain p where p: "map_of OPERATION_PERMISSIONS op = Some p" by (cases "map_of OPERATION_PERMISSIONS op") (auto simp: map_of_eq_None_iff)
  then have "p \<in> set (map snd OPERATION_PERMISSIONS)" using map_of_SomeD by force
  then show thesis using that[of p] p permissions_listed unfolding permissionForAdministrativeOperation_def by blast
qed

lemma roles_have_permissions:
  "list_all (\<lambda>r. map_of ADMINISTRATIVE_ROLE_PERMISSIONS r \<noteq> None) ADMINISTRATIVE_ROLES"
  by code_simp

lemma one_of_Inr: "one_of names e v = Inr s \<longleftrightarrow> v = JStr s \<and> s \<in> set names"
  by (cases v) auto

lemma role_collection_known:
  assumes "createAdministrativeRoleCollection v = Inr roles"
  shows "roles \<noteq> []" and "set roles \<subseteq> set ADMINISTRATIVE_ROLES"
proof -
  obtain vs where v: "v = JArr vs" "vs \<noteq> []" "mapR createAdministrativeRole vs = Inr roles"
    using assms by (auto simp: createAdministrativeRoleCollection_def result_simps split: jsval.splits if_splits)
  then show "roles \<noteq> []" using mapR_length[OF v(3)] by auto
  show "set roles \<subseteq> set ADMINISTRATIVE_ROLES"
  proof
    fix r assume "r \<in> set roles"
    then obtain x where "createAdministrativeRole x = Inr r" using mapR_set[OF v(3)] by blast
    then show "r \<in> set ADMINISTRATIVE_ROLES" by (simp add: createAdministrativeRole_def one_of_Inr)
  qed
qed

text \<open>
  Separation of duties: apart from the administrator, no role that may change the history of events may
  also read or change the power of the machine, the services or the backups.
\<close>

definition history_changing :: "string list" where
  "history_changing = [''event_history.rotation.run'', ''event_history.retention.write'',
     ''event_history.retention.prune'', ''event_history.exports.prune'']"

definition in_area :: "string list \<Rightarrow> string \<Rightarrow> bool" where
  "in_area areas permission \<longleftrightarrow> list_ex (\<lambda>a. take (length a) permission = a) areas"

lemma duties_separated:
  "list_all (\<lambda>(role, permissions). role = ''administrator'' \<or>
       \<not> (list_ex (\<lambda>p. p \<in> set history_changing) permissions \<and>
          list_ex (in_area [''power.'', ''services.'', ''backups.'']) permissions))
     ADMINISTRATIVE_ROLE_PERMISSIONS"
  by code_simp

section \<open>What authorization decides\<close>

definition role_known :: "string \<Rightarrow> bool" where
  "role_known role \<longleftrightarrow> role \<in> set (map fst ADMINISTRATIVE_ROLE_PERMISSIONS)"

definition role_grants :: "string \<Rightarrow> string \<Rightarrow> bool" where
  "role_grants permission role \<longleftrightarrow> (case map_of ADMINISTRATIVE_ROLE_PERMISSIONS role of
     None \<Rightarrow> False | Some permissions \<Rightarrow> permission \<in> set permissions)"

text \<open>The first assigned role that decides: one that grants the permission, or one the tables do not know.\<close>

definition authorization_outcome :: "string \<Rightarrow> RoleAssignment result \<Rightarrow> AuthorizationOutcome" where
  "authorization_outcome permission assignment =
     (case assignment of
        Inr UnknownPrincipal \<Rightarrow> Denied ''principal_unknown''
      | Inr (Assigned names) \<Rightarrow>
          (case find (\<lambda>r. role_grants permission r \<or> \<not> role_known r) names of
             None \<Rightarrow> Denied ''permission_denied''
           | Some r \<Rightarrow> if role_grants permission r then Allowed else Denied ''authorization_policy_unavailable'')
      | _ \<Rightarrow> Denied ''role_assignment_unavailable'')"

lemma role_grants_cases:
  "roleHasAdministrativePermission role permission =
     (if role_known role then Inr (role_grants permission role) else Inl (NamedError ''TypeError'' ''undefined''))"
proof (cases "map_of ADMINISTRATIVE_ROLE_PERMISSIONS role")
  case None
  then have "\<not> role_known role" unfolding role_known_def using map_of_eq_None_iff by (metis list.set_map)
  then show ?thesis using None by (simp add: roleHasAdministrativePermission_def)
next
  case (Some ps)
  then have "role_known role"
    unfolding role_known_def by (metis fst_conv image_eqI list.set_map map_of_SomeD)
  then show ?thesis using Some by (simp add: roleHasAdministrativePermission_def role_grants_def)
qed

lemma role_grants_known: "role_grants permission role \<Longrightarrow> role_known role"
  unfolding role_grants_def role_known_def
  by (auto split: option.splits dest!: map_of_SomeD intro: rev_image_eqI)

lemma someR_roles:
  "someR (\<lambda>r. roleHasAdministrativePermission r permission) names =
     (case find (\<lambda>r. role_grants permission r \<or> \<not> role_known r) names of
        None \<Rightarrow> Inr False
      | Some r \<Rightarrow> if role_grants permission r then Inr True else Inl (NamedError ''TypeError'' ''undefined''))"
proof (induction names)
  case Nil
  show ?case by simp
next
  case (Cons r rs)
  show ?case using Cons.IH role_grants_known[of permission r] by (auto simp: role_grants_cases)
qed

lemma decision_created:
  assumes "op \<in> set ADMINISTRATIVE_OPERATIONS" and "permissionForAdministrativeOperation op = Some perm"
    and "wf_principal p" and "canonical at"
  shows "createAllowedAdministrativeAuthorizationDecision p op at =
      Inr \<lparr>decision_principal = p, decision_operation = op, decision_permission = perm,
        decision_evaluatedAt = at, decision_outcome = Allowed\<rparr>" (is ?allowed)
    and "reason \<in> set ADMINISTRATIVE_AUTHORIZATION_DENY_REASONS \<Longrightarrow>
      createDeniedAdministrativeAuthorizationDecision p op at reason =
      Inr \<lparr>decision_principal = p, decision_operation = op, decision_permission = perm,
        decision_evaluatedAt = at, decision_outcome = Denied reason\<rparr>"
proof -
  have perm: "perm \<in> set ADMINISTRATIVE_PERMISSIONS" using operation_permission[OF assms(1)] assms(2) by force
  note made = createAdministrativeAuthorizationDecision_def createAdministrativeOperation_def
    createAdministrativePermission_def literal_simps createAdministrativePrincipal_value[OF assms(3)]
    has_own_def opt_value_def Let_def
  show ?allowed
    using assms perm by (simp add: createAllowedAdministrativeAuthorizationDecision_def made)
  show "createDeniedAdministrativeAuthorizationDecision p op at reason =
      Inr \<lparr>decision_principal = p, decision_operation = op, decision_permission = perm,
        decision_evaluatedAt = at, decision_outcome = Denied reason\<rparr>"
    if "reason \<in> set ADMINISTRATIVE_AUTHORIZATION_DENY_REASONS"
    using assms perm that by (simp add: createDeniedAdministrativeAuthorizationDecision_def made)
qed

lemma deny_reasons:
  "''role_assignment_unavailable'' \<in> set ADMINISTRATIVE_AUTHORIZATION_DENY_REASONS"
  "''principal_unknown'' \<in> set ADMINISTRATIVE_AUTHORIZATION_DENY_REASONS"
  "''permission_denied'' \<in> set ADMINISTRATIVE_AUTHORIZATION_DENY_REASONS"
  "''authorization_policy_unavailable'' \<in> set ADMINISTRATIVE_AUTHORIZATION_DENY_REASONS"
  by (simp_all add: ADMINISTRATIVE_AUTHORIZATION_DENY_REASONS_def)

lemma authorize_run:
  assumes op: "op \<in> set ADMINISTRATIVE_OPERATIONS" and perm: "permissionForAdministrativeOperation op = Some perm"
    and "wf_principal p" and "canonical at"
  shows "AuthorizeAdministrativeOperation_execute roles (principal_value p) (JStr op) at w =
    (Inr \<lparr>decision_principal = p, decision_operation = op, decision_permission = perm, decision_evaluatedAt = at,
       decision_outcome = authorization_outcome perm (fst (roles p w))\<rparr>, snd (roles p w))"
proof -
  note created = decision_created[OF op perm assms(3,4)]
  have known: "perm \<in> set ADMINISTRATIVE_PERMISSIONS" using operation_permission[OF op] perm by force
  have raw: "createAdministrativeAuthorizationDecision (literal_obj
      [(''principal'', principal_value p), (''operation'', JStr op), (''permission'', opt_value (Some perm)),
       (''evaluatedAt'', JStr at), (''outcome'', JStr ''denied''), (''reason'', JStr ''authorization_policy_unavailable'')]) =
    Inr \<lparr>decision_principal = p, decision_operation = op, decision_permission = perm,
        decision_evaluatedAt = at, decision_outcome = Denied ''authorization_policy_unavailable''\<rparr>"
    using op perm known assms(4) deny_reasons(4)
    by (simp add: createAdministrativeAuthorizationDecision_def createAdministrativeOperation_def
        createAdministrativePermission_def literal_simps createAdministrativePrincipal_value[OF assms(3)]
        has_own_def opt_value_def Let_def)
  have operation: "createAdministrativeOperation (JStr op) = Inr op" using op by (simp add: createAdministrativeOperation_def)
  show ?thesis
    by (cases "roles p w")
      (auto simp: AuthorizeAdministrativeOperation_execute_def io_defs operation perm
        createAdministrativePrincipal_value[OF assms(3)] assms(4) raw someR_roles created deny_reasons
        authorization_outcome_def Let_def split: sum.splits RoleAssignment.splits option.splits)
qed

section \<open>Properties\<close>

text \<open>
  C18. Authorization decides by the tables alone and fails closed: the answer is always a decision about
  the operation asked for, allowed exactly when the reader of assignments answers with roles the first of
  which to decide grants the permission of the operation; a failing reader, an unknown principal, roles
  without the permission and a role outside the tables are denials, each with its reason.
\<close>

theorem authorization_exact:
  assumes "op \<in> set ADMINISTRATIVE_OPERATIONS" and "wf_principal p" and "canonical at"
  shows "\<exists>perm. permissionForAdministrativeOperation op = Some perm \<and> perm \<in> set ADMINISTRATIVE_PERMISSIONS \<and>
    AuthorizeAdministrativeOperation_execute roles (principal_value p) (JStr op) at w =
      (Inr \<lparr>decision_principal = p, decision_operation = op, decision_permission = perm, decision_evaluatedAt = at,
         decision_outcome = authorization_outcome perm (fst (roles p w))\<rparr>, snd (roles p w))"
proof -
  obtain perm where perm: "permissionForAdministrativeOperation op = Some perm" "perm \<in> set ADMINISTRATIVE_PERMISSIONS"
    using operation_permission[OF assms(1)] by blast
  show ?thesis by (rule exI[of _ perm]) (simp add: perm authorize_run[OF assms(1) perm(1) assms(2,3)])
qed

definition sample_principal :: AdministrativePrincipal where
  "sample_principal = \<lparr>principalId = ''01234567-89ab-4cde-8f01-23456789abcd'', principal_kind = HumanPrincipal\<rparr>"

lemma sample_principal_wf: "wf_principal sample_principal"
  by code_simp

definition sample_reader :: RoleAssignmentReader where
  "sample_reader = \<lparr>reader_assignments = [(principalId sample_principal, [''auditor'', ''power_operator''])],
     reader_failure = None, reader_lookups = []\<rparr>"

lemma sample_reader_created:
  "create_RoleAssignmentReader
     [literal_obj [(''principalId'', JStr (principalId sample_principal)),
        (''roles'', JArr [JStr ''auditor'', JStr ''power_operator''])]] None = Inr sample_reader"
  by code_simp

lemma authorization_exact_witness:
  "fst (AuthorizeAdministrativeOperation_execute role_read (principal_value sample_principal)
     (JStr ''request_machine_shutdown'') (iso 392460000) sample_reader) =
   Inr \<lparr>decision_principal = sample_principal, decision_operation = ''request_machine_shutdown'',
     decision_permission = ''power.shutdown.request'', decision_evaluatedAt = iso 392460000,
     decision_outcome = Allowed\<rparr>"
proof -
  have op: "''request_machine_shutdown'' \<in> set ADMINISTRATIVE_OPERATIONS"
    "permissionForAdministrativeOperation ''request_machine_shutdown'' = Some ''power.shutdown.request''"
    by code_simp+
  have at: "canonical (iso 392460000)" by (simp add: max_time_def)
  have "authorization_outcome ''power.shutdown.request'' (fst (role_read sample_principal sample_reader)) = Allowed"
    by code_simp
  then show ?thesis
    using authorization_exact[OF op(1) sample_principal_wf at, of role_read sample_reader] op(2) by simp
qed

end
