(* ===== verification/Administrative_Event.thy ===== *)
theory Administrative_Event
  imports Administrative_Access Machine_Scheduler
begin

text \<open>
  The administrative events (\<open>event-history/domain/administrative-event.ts\<close>): one constructor validates
  every event that is recorded, its source, its target and, operation by operation and status by status,
  its details. The constructor also guards what is read back, so the central fact is that what it accepted
  once it accepts again, unchanged.
\<close>

section \<open>Vocabularies\<close>

definition ADMINISTRATIVE_EVENT_OPERATIONS :: "string list" where
  "ADMINISTRATIVE_EVENT_OPERATIONS =
     [''authorize_administrative_operation'', ''schedule_wake_alarm'', ''cancel_wake_alarm'',
      ''request_machine_shutdown'', ''prepare_machine_shutdown_occurrence'',
      ''execute_machine_shutdown_occurrence'', ''run_machine_power_scheduler_tick'',
      ''start_registered_service'', ''stop_registered_service'', ''restart_registered_service'',
      ''update_registered_service_availability'', ''remove_registered_service_availability'',
      ''update_registered_service_schedule'', ''remove_registered_service_schedule'',
      ''update_machine_operating_policy'', ''remove_machine_operating_policy'', ''run_registered_backup'',
      ''update_backup_schedule'', ''remove_backup_schedule'', ''update_backup_retention'',
      ''run_backup_retention_prune'', ''run_backup_scheduler_tick'', ''verify_event_history_integrity'',
      ''rotate_administrative_event_history'', ''update_administrative_event_history_retention'',
      ''prune_administrative_event_history'', ''create_administrative_event_history_export'',
      ''prune_administrative_event_history_exports'', ''recover_administrative_event_history_stale_lock'',
      ''migrate_administrative_event_history_v1'', ''read_event_history_retention'',
      ''list_event_history_exports'', ''read_event_history_export'', ''download_event_history_export'',
      ''read_administrative_security_posture'']"

definition ADMINISTRATIVE_EVENT_STATUSES :: "string list" where
  "ADMINISTRATIVE_EVENT_STATUSES =
     [''started'', ''succeeded'', ''rejected'', ''failed'']"

definition ADMINISTRATIVE_EVENT_PREPARATION_OUTCOMES :: "string list" where
  "ADMINISTRATIVE_EVENT_PREPARATION_OUTCOMES =
     [''not_required'', ''blocked'', ''prepared'', ''incomplete'']"

definition ADMINISTRATIVE_EVENT_EXECUTION_OUTCOMES :: "string list" where
  "ADMINISTRATIVE_EVENT_EXECUTION_OUTCOMES =
     [''not_due'', ''stale'', ''rejected'', ''preparation_incomplete'', ''duplicate'', ''executed'']"

definition ADMINISTRATIVE_EVENT_SCHEDULER_OUTCOMES :: "string list" where
  "ADMINISTRATIVE_EVENT_SCHEDULER_OUTCOMES =
     [''initialized'', ''idle'', ''blocked'', ''incomplete'', ''advanced'', ''conflict'']"

definition ADMINISTRATIVE_AUTHORIZATION_REASON_CODES :: "string list" where
  "ADMINISTRATIVE_AUTHORIZATION_REASON_CODES =
     [''credentials_absent'', ''credentials_invalid'', ''identity_provider_unavailable'',
      ''principal_unknown'', ''permission_denied'', ''role_assignment_unavailable'',
      ''authorization_policy_unavailable'']"

definition SAFE_FAILURE_CODES :: "string list" where
  "SAFE_FAILURE_CODES =
     [''backup_operation_failed'', ''administrative_audit_failed'',
      ''audit_failed_after_event_history_operation'', ''audit_failed_after_wake_alarm_mutation'',
      ''audit_failed_after_shutdown_request'', ''audit_failed_after_shutdown_execution'',
      ''audit_failed_after_shutdown_preparation'', ''audit_failed_after_scheduler_tick'', ''claim_failed'',
      ''wake_alarm_preparation_failed'', ''shutdown_failed_after_wake_scheduled'',
      ''preparation_dependency_failed'', ''service_stop_failed'', ''backup_completion_failed'',
      ''filesystem_synchronization_failed'', ''event_recording_failed'', ''unexpected_execution_failure'',
      ''clock_regression'', ''interval_too_large'', ''cursor_conflict'', ''helper_unavailable'',
      ''helper_installation_invalid'', ''helper_timeout'', ''helper_output_invalid'',
      ''helper_operation_rejected'', ''helper_operation_failed'', ''helper_not_found'',
      ''helper_not_regular_file'', ''helper_symbolic_link_rejected'', ''helper_owner_invalid'',
      ''helper_not_executable'', ''helper_parent_invalid'', ''helper_inspection_failed'',
      ''helper_start_failed'', ''helper_io_failed'', ''helper_exit_failed'', ''helper_terminated'',
      ''helper_stdout_too_large'', ''helper_stderr_too_large'', ''helper_protocol_invalid'',
      ''unsupported_platform'', ''backup_completion_unknown'', ''filesystem_synchronization_unknown'',
      ''confirmation_unavailable'', ''event_recording_unavailable'', ''readiness_dependency_failed'',
      ''service_readiness_unavailable'', ''service_required_during_offline_interval'', ''service_failed'',
      ''machine_schedule_operation_failed'', ''service_state_unknown'', ''backup_state_unknown'',
      ''filesystem_state_unknown'', ''event_history_path_invalid'', ''event_history_parent_invalid'',
      ''event_history_file_invalid'', ''event_history_permissions_unsafe'', ''event_history_read_failed'',
      ''event_history_write_failed'', ''event_history_sync_failed'', ''event_history_corrupted'',
      ''event_history_capacity_exceeded'', ''administrative_event_recording_failed'']"

definition ADMINISTRATIVE_EVENT_BLOCKER_CODES :: "string list" where
  "ADMINISTRATIVE_EVENT_BLOCKER_CODES =
     [''not_due'', ''stale'', ''not_confirmed'', ''confirmation_unavailable'', ''active_tasks_present'',
      ''backup_in_progress'', ''backup_state_unknown'', ''filesystem_sync_required'',
      ''filesystem_state_unknown'', ''event_recording_unavailable'', ''service_readiness_unavailable'',
      ''readiness_dependency_failed'', ''service_required_during_offline_interval'', ''service_running'',
      ''service_failed'', ''service_state_unknown'']"

abbreviation event_error :: "string \<Rightarrow> js_error" where
  "event_error \<equiv> NamedError ''AdministrativeEventValidationError''"

section \<open>Records\<close>

record AdministrativeEventSource =
  source_kind :: string
  actorId :: string

record AdministrativeEventTarget =
  target_kind :: string
  target_id :: string

record AdministrativeEventInput =
  attemptId :: string
  occurredAt :: string
  event_source :: AdministrativeEventSource
  event_target :: AdministrativeEventTarget
  event_operation :: string
  event_status :: string
  event_details :: "jsval option"

record AdministrativeEvent =
  event_sequence_number :: int
  event_input :: AdministrativeEventInput

definition requireRecord :: "jsval \<Rightarrow> jsval result" where
  "requireRecord input = (if is_plain_object input then Inr input else Inl (event_error ''invalid_record''))"

fun is_string_key :: "jskey \<Rightarrow> bool" where
  "is_string_key (KStr _) = True"
| "is_string_key (KSym _) = False"

definition ownKeys :: "jsval \<Rightarrow> string list result" where
  "ownKeys v =
     (if list_all is_string_key (own_keys v) then Inr (key_strings (own_keys v)) else Inl (event_error ''invalid_field''))"

definition assertFields :: "jsval \<Rightarrow> string list \<Rightarrow> unit result" where
  "assertFields v optional =
     bindR (ownKeys v) (\<lambda>keys.
       if \<not> set keys \<subseteq> set optional \<or> length keys < length (filter (\<lambda>k. k \<noteq> ''details'') optional)
       then Inl (event_error ''invalid_field'') else Inr ())"

definition assertAllowedKeys :: "jsval \<Rightarrow> string list \<Rightarrow> unit result" where
  "assertAllowedKeys v allowed =
     bindR (ownKeys v) (\<lambda>keys. if set keys \<subseteq> set allowed then Inr () else Inl (event_error ''invalid_details''))"

definition event_hasExactFields :: "jsval \<Rightarrow> string list \<Rightarrow> bool result" where
  "event_hasExactFields v names =
     bindR (ownKeys v) (\<lambda>keys. Inr (length keys = length names \<and> set keys \<subseteq> set names))"

definition valid_source :: "string \<Rightarrow> string \<Rightarrow> bool" where
  "valid_source k actor \<longleftrightarrow>
     (let attributedTo = (\<lambda>p. take (length p) actor = p \<and>
            isCanonicalAdministrativePrincipalId (drop (length p) actor)) in
      k = ''administrative'' \<and>
        (actor = ''unattributed-local'' \<or> actor = ''unauthenticated'' \<or>
         attributedTo ''administrator:'' \<or> attributedTo ''service:'') \<or>
      k = ''automated'' \<and> actor = ''machine-power-scheduler'' \<or>
      k = ''system'' \<and> actor = ''atlas-manager'')"

text \<open>A test of a value against a type, whose failure throws.\<close>

definition requireR :: "js_error \<Rightarrow> 'a option \<Rightarrow> 'a result" where
  "requireR e v = (case v of None \<Rightarrow> Inl e | Some x \<Rightarrow> Inr x)"

fun source_of :: "jsval \<Rightarrow> jsval \<Rightarrow> AdministrativeEventSource option" where
  "source_of (JStr k) (JStr actor) = (if valid_source k actor then Some \<lparr>source_kind = k, actorId = actor\<rparr> else None)"
| "source_of _ _ = None"

definition createSource :: "jsval \<Rightarrow> AdministrativeEventSource result" where
  "createSource input =
     bindR (requireRecord input) (\<lambda>v.
     bindR (assertFields v [''kind'', ''actorId'']) (\<lambda>_.
     requireR (event_error ''invalid_source'') (source_of (get_prop v ''kind'') (get_prop v ''actorId''))))"

definition createTarget :: "jsval \<Rightarrow> AdministrativeEventTarget result" where
  "createTarget input =
     bindR (requireRecord input) (\<lambda>v.
     bindR (assertFields v [''kind'', ''id'']) (\<lambda>_.
       if get_prop v ''kind'' \<noteq> JStr ''machine'' \<or> get_prop v ''id'' \<noteq> JStr ''atlas''
       then Inl (event_error ''invalid_target'')
       else Inr \<lparr>target_kind = ''machine'', target_id = ''atlas''\<rparr>))"

section \<open>Fields of the details\<close>

abbreviation invalid_details :: js_error where
  "invalid_details \<equiv> event_error ''invalid_details''"

definition requireTimestampField :: "jsval \<Rightarrow> string \<Rightarrow> jsval result" where
  "requireTimestampField v field =
     (if isCanonicalTimestamp (get_prop v field) then Inr (get_prop v field) else Inl invalid_details)"

definition requireName :: "string list \<Rightarrow> js_error \<Rightarrow> jsval \<Rightarrow> string \<Rightarrow> jsval result" where
  "requireName names e v field = bindR (one_of names e (get_prop v field)) (\<lambda>s. Inr (JStr s))"

definition requireFailureCode :: "jsval \<Rightarrow> jsval result" where
  "requireFailureCode v = requireName SAFE_FAILURE_CODES (event_error ''invalid_failure_code'') v ''failureCode''"

text \<open>\<open>if (!Object.hasOwn(record, field)) return undefined\<close>\<close>

definition optional_field :: "jsval \<Rightarrow> string \<Rightarrow> jsval result \<Rightarrow> jsval option result" where
  "optional_field v field require = (if \<not> has_own v field then Inr None else bindR require (\<lambda>x. Inr (Some x)))"

definition requireMutationOutcome :: "jsval \<Rightarrow> string \<Rightarrow> string list \<Rightarrow> jsval result" where
  "requireMutationOutcome v field allowed = requireName allowed invalid_details v field"

definition requireExecutionOutcome :: "jsval \<Rightarrow> jsval result" where
  "requireExecutionOutcome v = requireName ADMINISTRATIVE_EVENT_EXECUTION_OUTCOMES invalid_details v ''executionOutcome''"

definition requireSchedulerOutcome :: "jsval \<Rightarrow> jsval result" where
  "requireSchedulerOutcome v = requireName ADMINISTRATIVE_EVENT_SCHEDULER_OUTCOMES invalid_details v ''schedulerOutcome''"

definition optionalTimestamp :: "jsval \<Rightarrow> string \<Rightarrow> jsval option result" where
  "optionalTimestamp v field = optional_field v field (requireTimestampField v field)"

definition optionalPreparationOutcome :: "jsval \<Rightarrow> jsval option result" where
  "optionalPreparationOutcome v = optional_field v ''preparationOutcome''
     (requireName ADMINISTRATIVE_EVENT_PREPARATION_OUTCOMES invalid_details v ''preparationOutcome'')"

definition optionalMutationOutcome :: "jsval \<Rightarrow> string \<Rightarrow> string list \<Rightarrow> jsval option result" where
  "optionalMutationOutcome v field allowed = optional_field v field (requireMutationOutcome v field allowed)"

definition optionalFailureCode :: "jsval \<Rightarrow> jsval option result" where
  "optionalFailureCode v = optional_field v ''failureCode'' (requireFailureCode v)"

fun is_bool :: "jsval \<Rightarrow> bool" where
  "is_bool (JBool _) = True"
| "is_bool _ = False"

definition optionalBoolean :: "jsval \<Rightarrow> string \<Rightarrow> jsval option result" where
  "optionalBoolean v field = optional_field v field
     (if is_bool (get_prop v field) then Inr (get_prop v field) else Inl invalid_details)"

definition optionalAccepted :: "jsval \<Rightarrow> jsval option result" where
  "optionalAccepted v = optional_field v ''shutdownAccepted''
     (if get_prop v ''shutdownAccepted'' = JBool True then Inr (JBool True) else Inl invalid_details)"

fun isBoundedCount :: "jsval \<Rightarrow> bool" where
  "isBoundedCount (JNum n) = (0 \<le> n \<and> n \<le> 100000)"
| "isBoundedCount _ = False"

definition optionalCount :: "jsval \<Rightarrow> jsval option result" where
  "optionalCount v =
     (if \<not> has_own v ''completedStepCount'' \<and> \<not> has_own v ''occurrenceCount'' then Inr None
      else let field = (if has_own v ''completedStepCount'' then ''completedStepCount'' else ''occurrenceCount'') in
        if isBoundedCount (get_prop v field) then Inr (Some (get_prop v field)) else Inl invalid_details)"

definition requireBlockerCodes :: "jsval \<Rightarrow> jsval result" where
  "requireBlockerCodes v =
     (case get_prop v ''blockerCodes'' of
        JArr vs \<Rightarrow> bindR (mapR (one_of ADMINISTRATIVE_EVENT_BLOCKER_CODES invalid_details) vs) (\<lambda>cs. Inr (JArr (map JStr cs)))
      | _ \<Rightarrow> Inl invalid_details)"

definition optionalBlockerCodes :: "jsval \<Rightarrow> jsval option result" where
  "optionalBlockerCodes v = optional_field v ''blockerCodes'' (requireBlockerCodes v)"

definition freezeDefined :: "(string \<times> jsval option) list \<Rightarrow> jsval" where
  "freezeDefined values = literal_obj (concat (map (\<lambda>(k, v). case v of None \<Rightarrow> [] | Some x \<Rightarrow> [(k, x)]) values))"

definition failureDetails :: "jsval \<Rightarrow> jsval result" where
  "failureDetails v =
     bindR (assertAllowedKeys v [''failureCode'']) (\<lambda>_.
     bindR (requireFailureCode v) (\<lambda>c. Inr (literal_obj [(''failureCode'', c)])))"

section \<open>Details by operation\<close>

text \<open>
  \<open>createDetails\<close> goes through the operations in the order of these definitions. A record of details is
  the value itself; the result has the fields that were checked.
\<close>

definition authorize_details :: "string \<Rightarrow> jsval \<Rightarrow> jsval result" where
  "authorize_details status v =
     (if status \<noteq> ''succeeded'' \<and> status \<noteq> ''rejected'' then Inl invalid_details
      else bindR (assertAllowedKeys v [''requestedOperation'', ''permission'', ''decision'', ''reasonCode'']) (\<lambda>_.
        case (get_prop v ''requestedOperation'', get_prop v ''permission'', get_prop v ''decision'') of
          (JStr op, JStr permission, JStr decision) \<Rightarrow>
            if op \<notin> set ADMINISTRATIVE_OPERATIONS \<or> permission \<notin> set ADMINISTRATIVE_PERMISSIONS \<or>
               permissionForAdministrativeOperation op \<noteq> Some permission \<or>
               (decision \<noteq> ''allowed'' \<and> decision \<noteq> ''denied'') \<or>
               (status = ''succeeded'' \<and> decision \<noteq> ''allowed'') \<or>
               (status = ''rejected'' \<and> decision \<noteq> ''denied'')
            then Inl invalid_details
            else let base = [(''requestedOperation'', JStr op), (''permission'', JStr permission), (''decision'', JStr decision)] in
              if decision = ''allowed''
              then if has_own v ''reasonCode'' then Inl invalid_details else Inr (literal_obj base)
              else bindR (requireName ADMINISTRATIVE_AUTHORIZATION_REASON_CODES invalid_details v ''reasonCode'') (\<lambda>c.
                Inr (literal_obj (base @ [(''reasonCode'', c)])))
        | _ \<Rightarrow> Inl invalid_details))"

text \<open>Operations on a registered backup and on a registered service: the details name their subject.\<close>

definition subject_details ::
  "string \<Rightarrow> (jsval \<Rightarrow> bool) \<Rightarrow> string \<Rightarrow> jsval \<Rightarrow> jsval result" where
  "subject_details field failure_ok status v =
     (case get_prop v field of
        JStr sid \<Rightarrow>
          if \<not> SERVICE_ID_PATTERN sid \<or> length sid > 64 then Inl invalid_details
          else if status = ''started''
          then bindR (event_hasExactFields v [field]) (\<lambda>ok.
            if ok then Inr (literal_obj [(field, JStr sid)]) else Inl invalid_details)
          else if status = ''succeeded''
          then bindR (event_hasExactFields v [field, ''outcome'']) (\<lambda>ok.
            if ok \<and> get_prop v ''outcome'' = JStr ''succeeded''
            then Inr (literal_obj [(field, JStr sid), (''outcome'', JStr ''succeeded'')]) else Inl invalid_details)
          else if status = ''failed''
          then bindR (event_hasExactFields v [field, ''failureCode'']) (\<lambda>ok.
            if ok \<and> failure_ok (get_prop v ''failureCode'')
            then Inr (literal_obj [(field, JStr sid), (''failureCode'', get_prop v ''failureCode'')]) else Inl invalid_details)
          else Inl invalid_details
      | _ \<Rightarrow> Inl invalid_details)"

fun is_safe_failure :: "jsval \<Rightarrow> bool" where
  "is_safe_failure (JStr c) = (c \<in> set SAFE_FAILURE_CODES)"
| "is_safe_failure _ = False"

definition backup_details :: "string \<Rightarrow> jsval \<Rightarrow> jsval result" where
  "backup_details = subject_details ''targetId'' is_safe_failure"

definition service_details :: "string \<Rightarrow> jsval \<Rightarrow> jsval result" where
  "service_details = subject_details ''serviceId'' (\<lambda>c. c = JStr ''service_failed'')"

text \<open>The ticks of the backup scheduler and the changes of the machine's operating policy.\<close>

fun is_string :: "jsval \<Rightarrow> bool" where
  "is_string (JStr _) = True"
| "is_string _ = False"

definition outcome_details :: "string \<Rightarrow> jsval \<Rightarrow> jsval result" where
  "outcome_details status v =
     (if status = ''started''
      then bindR (event_hasExactFields v []) (\<lambda>ok. if ok then Inr (literal_obj []) else Inl invalid_details)
      else if status = ''succeeded''
      then bindR (event_hasExactFields v [''outcome'']) (\<lambda>ok.
        if ok \<and> is_string (get_prop v ''outcome'') then Inr (literal_obj [(''outcome'', get_prop v ''outcome'')])
        else Inl invalid_details)
      else if status = ''failed''
      then bindR (event_hasExactFields v [''failureCode'']) (\<lambda>ok.
        if ok \<and> is_safe_failure (get_prop v ''failureCode'')
        then Inr (literal_obj [(''failureCode'', get_prop v ''failureCode'')]) else Inl invalid_details)
      else Inl invalid_details)"

fun own_pair :: "jsval \<Rightarrow> string \<Rightarrow> (string \<times> jsval option)" where
  "own_pair v k = (k, if has_own v k then Some (get_prop v k) else None)"

fun is_sha256 :: "jsval \<Rightarrow> bool" where
  "is_sha256 (JStr v) = (length v = 64 \<and> set v \<subseteq> set hex_digits)"
| "is_sha256 _ = False"

definition createEventHistoryOperationalDetails :: "jsval \<Rightarrow> string \<Rightarrow> jsval result" where
  "createEventHistoryOperationalDetails v status =
     (if status = ''started''
      then bindR (assertAllowedKeys v [''fromSequence'', ''throughSequence'']) (\<lambda>_.
        if list_ex (\<lambda>f. has_own v f \<and> \<not> isBoundedCount (get_prop v f)) [''fromSequence'', ''throughSequence'']
        then Inl invalid_details
        else Inr (freezeDefined [own_pair v ''fromSequence'', own_pair v ''throughSequence'']))
      else if status = ''failed'' \<or> status = ''rejected'' then failureDetails v
      else if status \<noteq> ''succeeded'' then Inl invalid_details
      else bindR (assertAllowedKeys v [''outcome'', ''firstSequence'', ''lastSequence'', ''processedSegmentCount'',
                    ''processedExportCount'', ''exportId'']) (\<lambda>_.
        if has_own v ''outcome'' \<and> \<not> is_string (get_prop v ''outcome'') then Inl invalid_details
        else if list_ex (\<lambda>f. has_own v f \<and> \<not> isBoundedCount (get_prop v f))
                 [''firstSequence'', ''lastSequence'', ''processedSegmentCount'', ''processedExportCount'']
        then Inl invalid_details
        else if has_own v ''exportId'' \<and> \<not> is_sha256 (get_prop v ''exportId'') then Inl invalid_details
        else Inr v))"

definition schedule_wake_details :: "string \<Rightarrow> jsval \<Rightarrow> jsval result" where
  "schedule_wake_details status v =
     (if status = ''started''
      then bindR (assertAllowedKeys v [''scheduledFor'']) (\<lambda>_.
           bindR (requireTimestampField v ''scheduledFor'') (\<lambda>s. Inr (literal_obj [(''scheduledFor'', s)])))
      else if status = ''succeeded''
      then bindR (requireTimestampField v ''scheduledFor'') (\<lambda>s.
           bindR (requireMutationOutcome v ''mutationOutcome'' [''scheduled'', ''replaced'', ''unchanged'']) (\<lambda>m.
           Inr (literal_obj [(''scheduledFor'', s), (''mutationOutcome'', m)])))
      else failureDetails v)"

definition cancel_wake_details :: "string \<Rightarrow> jsval \<Rightarrow> jsval result" where
  "cancel_wake_details status v =
     (if status = ''started'' then bindR (assertAllowedKeys v []) (\<lambda>_. Inr (literal_obj []))
      else if status = ''succeeded''
      then bindR (requireMutationOutcome v ''mutationOutcome'' [''cancelled'', ''not_scheduled'']) (\<lambda>m.
           Inr (literal_obj [(''mutationOutcome'', m)]))
      else failureDetails v)"

definition request_shutdown_details :: "string \<Rightarrow> jsval \<Rightarrow> jsval result" where
  "request_shutdown_details status v =
     (if status = ''started'' then bindR (assertAllowedKeys v []) (\<lambda>_. Inr (literal_obj []))
      else if status = ''succeeded''
      then bindR (event_hasExactFields v [''accepted'']) (\<lambda>ok.
        if ok \<and> get_prop v ''accepted'' = JBool True then Inr (literal_obj [(''accepted'', JBool True)])
        else Inl invalid_details)
      else failureDetails v)"

definition occurrence_started_details :: "jsval \<Rightarrow> jsval result" where
  "occurrence_started_details v =
     bindR (assertAllowedKeys v [''scheduledFor'', ''wakeScheduledFor'']) (\<lambda>_.
     bindR (requireTimestampField v ''scheduledFor'') (\<lambda>s.
     bindR (requireTimestampField v ''wakeScheduledFor'') (\<lambda>w.
     Inr (literal_obj [(''scheduledFor'', s), (''wakeScheduledFor'', w)]))))"

definition prepare_details :: "string \<Rightarrow> jsval \<Rightarrow> jsval result" where
  "prepare_details status v =
     (if status = ''started'' then occurrence_started_details v
      else
        bindR (assertAllowedKeys v [''preparationOutcome'', ''blockerCodes'', ''completedStepCount'', ''failureCode'']) (\<lambda>_.
        bindR (optionalPreparationOutcome v) (\<lambda>outcome.
        bindR (optionalBlockerCodes v) (\<lambda>codes.
        bindR (optionalCount v) (\<lambda>n.
        bindR (optionalFailureCode v) (\<lambda>failure.
        let answer = Inr (freezeDefined [(''preparationOutcome'', outcome), (''blockerCodes'', codes),
               (''completedStepCount'', n), (''failureCode'', failure)]) in
        if status = ''succeeded''
        then if outcome \<notin> {Some (JStr ''not_required''), Some (JStr ''prepared'')} \<or> failure \<noteq> None
             then Inl invalid_details else answer
        else if status = ''rejected''
        then if outcome \<notin> {Some (JStr ''blocked''), Some (JStr ''incomplete'')} \<or> failure \<noteq> None
             then Inl invalid_details else answer
        else if status = ''failed'' then failureDetails v
        else Inl invalid_details))))))"

definition execute_details :: "string \<Rightarrow> jsval \<Rightarrow> jsval result" where
  "execute_details status v =
     (if status = ''started'' then occurrence_started_details v
      else
        bindR (assertAllowedKeys v [''executionOutcome'', ''preparationOutcome'', ''wakeMutationOutcome'',
                 ''shutdownAccepted'', ''failureCode'', ''blockerCodes'']) (\<lambda>_.
        if status = ''failed'' then failureDetails v
        else
        bindR (requireExecutionOutcome v) (\<lambda>outcome.
        bindR (optionalPreparationOutcome v) (\<lambda>preparation.
        bindR (optionalMutationOutcome v ''wakeMutationOutcome'' [''scheduled'', ''replaced'', ''unchanged'']) (\<lambda>wake.
        bindR (optionalAccepted v) (\<lambda>accepted.
        bindR (optionalFailureCode v) (\<lambda>failure.
        bindR (optionalBlockerCodes v) (\<lambda>codes.
        let answer = Inr (freezeDefined [(''executionOutcome'', Some outcome), (''preparationOutcome'', preparation),
               (''wakeMutationOutcome'', wake), (''shutdownAccepted'', accepted), (''failureCode'', failure),
               (''blockerCodes'', codes)]) in
        if status = ''succeeded''
        then if outcome \<noteq> JStr ''executed'' \<or>
                preparation \<notin> {None, Some (JStr ''not_required''), Some (JStr ''prepared'')} \<or>
                wake = None \<or> accepted \<noteq> Some (JBool True) \<or> failure \<noteq> None
             then Inl invalid_details else answer
        else if status = ''rejected''
        then if failure \<noteq> None \<or> accepted \<noteq> None then Inl invalid_details
             else if outcome = JStr ''preparation_incomplete'' \<and>
                     (preparation \<noteq> Some (JStr ''incomplete'') \<or> wake \<noteq> None \<or> codes \<noteq> None)
             then Inl invalid_details
             else if outcome = JStr ''rejected'' \<and>
                     (codes \<in> {None, Some (JArr [])} \<or> preparation \<noteq> None \<or> wake \<noteq> None)
             then Inl invalid_details
             else if outcome \<noteq> JStr ''preparation_incomplete'' \<and> outcome \<noteq> JStr ''rejected'' \<and>
                     (preparation \<noteq> None \<or> wake \<noteq> None \<or> codes \<noteq> None)
             then Inl invalid_details else answer
        else Inl invalid_details))))))))"

text \<open>The last case, the tick of the machine's scheduler; every remaining operation ends here too.\<close>

definition tick_details :: "string \<Rightarrow> jsval \<Rightarrow> jsval result" where
  "tick_details status v =
     (if status = ''started''
      then bindR (assertAllowedKeys v [''tickedThrough'']) (\<lambda>_.
           bindR (requireTimestampField v ''tickedThrough'') (\<lambda>t. Inr (literal_obj [(''tickedThrough'', t)])))
      else
        bindR (assertAllowedKeys v [''schedulerOutcome'', ''completedThrough'', ''tickedThrough'', ''occurrenceCount'',
                 ''complete'', ''failureCode'']) (\<lambda>_.
        if status = ''failed'' then failureDetails v
        else
        bindR (requireSchedulerOutcome v) (\<lambda>outcome.
        bindR (optionalTimestamp v ''completedThrough'') (\<lambda>through.
        bindR (optionalTimestamp v ''tickedThrough'') (\<lambda>ticked.
        bindR (optionalCount v) (\<lambda>n.
        bindR (optionalBoolean v ''complete'') (\<lambda>complete.
        bindR (optionalFailureCode v) (\<lambda>failure.
        let answer = Inr (freezeDefined [(''schedulerOutcome'', Some outcome), (''completedThrough'', through),
               (''tickedThrough'', ticked), (''occurrenceCount'', n), (''complete'', complete), (''failureCode'', failure)]) in
        if status = ''succeeded''
        then if outcome \<notin> {JStr ''initialized'', JStr ''idle'', JStr ''advanced''} \<or> failure \<noteq> None
             then Inl invalid_details else answer
        else if status = ''rejected''
        then if outcome \<notin> {JStr ''blocked'', JStr ''incomplete'', JStr ''conflict''} \<or> failure \<noteq> None
             then Inl invalid_details else answer
        else Inl invalid_details))))))))"

definition backup_operations :: "string list" where
  "backup_operations = [''run_registered_backup'', ''update_backup_schedule'', ''remove_backup_schedule'',
     ''update_backup_retention'', ''run_backup_retention_prune'']"

definition outcome_operations :: "string list" where
  "outcome_operations = [''run_backup_scheduler_tick'', ''update_machine_operating_policy'',
     ''remove_machine_operating_policy'']"

definition history_operations :: "string list" where
  "history_operations = [''verify_event_history_integrity'', ''rotate_administrative_event_history'',
     ''update_administrative_event_history_retention'', ''prune_administrative_event_history'',
     ''create_administrative_event_history_export'', ''prune_administrative_event_history_exports'',
     ''recover_administrative_event_history_stale_lock'', ''migrate_administrative_event_history_v1'',
     ''read_event_history_retention'', ''list_event_history_exports'', ''read_event_history_export'',
     ''download_event_history_export'']"

definition service_operations :: "string list" where
  "service_operations = [''start_registered_service'', ''stop_registered_service'', ''restart_registered_service'',
     ''update_registered_service_availability'', ''remove_registered_service_availability'',
     ''update_registered_service_schedule'', ''remove_registered_service_schedule'']"

definition details_of :: "string \<Rightarrow> string \<Rightarrow> jsval \<Rightarrow> jsval result" where
  "details_of operation status v =
     (if operation = ''authorize_administrative_operation'' then authorize_details status v
      else if operation \<in> set backup_operations then backup_details status v
      else if operation \<in> set outcome_operations then outcome_details status v
      else if operation \<in> set history_operations then createEventHistoryOperationalDetails v status
      else if operation \<in> set service_operations then service_details status v
      else if operation = ''schedule_wake_alarm'' then schedule_wake_details status v
      else if operation = ''cancel_wake_alarm'' then cancel_wake_details status v
      else if operation = ''request_machine_shutdown'' then request_shutdown_details status v
      else if operation = ''prepare_machine_shutdown_occurrence'' then prepare_details status v
      else if operation = ''execute_machine_shutdown_occurrence'' then execute_details status v
      else tick_details status v)"

definition createDetails :: "string \<Rightarrow> string \<Rightarrow> jsval \<Rightarrow> jsval option result" where
  "createDetails operation status input =
     (if input = JUndefined
      then if (operation = ''cancel_wake_alarm'' \<or> operation = ''request_machine_shutdown'') \<and> status = ''started''
           then Inr None else Inl invalid_details
      else bindR (requireRecord input) (\<lambda>v. bindR (details_of operation status v) (\<lambda>d. Inr (Some d))))"

section \<open>Events\<close>

definition isAttemptId :: "jsval \<Rightarrow> string option" where
  "isAttemptId v = (case v of JStr a \<Rightarrow> if CANONICAL_UUID a then Some a else None | _ \<Rightarrow> None)"

definition createAdministrativeEventInput :: "jsval \<Rightarrow> AdministrativeEventInput result" where
  "createAdministrativeEventInput input =
     bindR (requireRecord input) (\<lambda>v.
     bindR (assertFields v [''attemptId'', ''occurredAt'', ''source'', ''target'', ''operation'', ''status'', ''details'']) (\<lambda>_.
     bindR (createSource (get_prop v ''source'')) (\<lambda>source.
     bindR (createTarget (get_prop v ''target'')) (\<lambda>target.
     bindR (one_of ADMINISTRATIVE_EVENT_OPERATIONS (event_error ''invalid_operation'') (get_prop v ''operation'')) (\<lambda>operation.
     bindR (one_of ADMINISTRATIVE_EVENT_STATUSES (event_error ''invalid_status'') (get_prop v ''status'')) (\<lambda>status.
     bindR (requireR (event_error ''invalid_attempt_id'') (isAttemptId (get_prop v ''attemptId''))) (\<lambda>attempt.
     bindR (requireR (event_error ''invalid_occurred_at'') (canonical_string (get_prop v ''occurredAt''))) (\<lambda>at.
     bindR (if has_own v ''details'' then createDetails operation status (get_prop v ''details'') else Inr None) (\<lambda>details.
     Inr \<lparr>attemptId = attempt, occurredAt = at, event_source = source, event_target = target,
       event_operation = operation, event_status = status, event_details = details\<rparr>)))))))))"

text \<open>A safe integer between two bounds.\<close>

fun bounded_int :: "int \<Rightarrow> int \<Rightarrow> jsval \<Rightarrow> int option" where
  "bounded_int low high (JNum n) = (if low \<le> n \<and> n \<le> high then Some n else None)"
| "bounded_int low high _ = None"

definition createAdministrativeEvent :: "jsval \<Rightarrow> AdministrativeEvent result" where
  "createAdministrativeEvent input =
     bindR (requireRecord input) (\<lambda>v.
     bindR (assertFields v [''sequence'', ''attemptId'', ''occurredAt'', ''source'', ''target'', ''operation'', ''status'',
              ''details'']) (\<lambda>_.
     bindR (requireR (event_error ''invalid_sequence'') (bounded_int 1 9007199254740991 (get_prop v ''sequence''))) (\<lambda>n.
     bindR (createAdministrativeEventInput (literal_obj
             ([(''attemptId'', get_prop v ''attemptId''), (''occurredAt'', get_prop v ''occurredAt''),
               (''source'', get_prop v ''source''), (''target'', get_prop v ''target''),
               (''operation'', get_prop v ''operation''), (''status'', get_prop v ''status'')] @
              (if has_own v ''details'' then [(''details'', get_prop v ''details'')] else [])))) (\<lambda>e.
     Inr \<lparr>event_sequence_number = n, event_input = e\<rparr>))))"

section \<open>What is accepted once is accepted again\<close>

lemma map_of_defined:
  "distinct (map fst kvs) \<Longrightarrow>
   map_of (concat (map (\<lambda>(k, v). case v of None \<Rightarrow> [] | Some x \<Rightarrow> [(k, x)]) kvs)) k = Option.bind (map_of kvs k) id"
proof (induction kvs)
  case Nil
  show ?case by simp
next
  case (Cons p kvs)
  obtain j v where p: "p = (j, v)" by (cases p)
  have "map_of kvs j = None" using Cons.prems p by (simp add: map_of_eq_None_iff)
  then show ?case using Cons p by (cases v) auto
qed

lemma get_prop_freezeDefined:
  assumes "distinct (map fst kvs)"
  shows "get_prop (freezeDefined kvs) k = (case Option.bind (map_of kvs k) id of None \<Rightarrow> JUndefined | Some x \<Rightarrow> x)"
  unfolding freezeDefined_def get_prop_literal map_of_defined[OF assms] by (rule refl)

lemma has_own_freezeDefined:
  assumes "distinct (map fst kvs)"
  shows "has_own (freezeDefined kvs) k \<longleftrightarrow> Option.bind (map_of kvs k) id \<noteq> None"
proof -
  have "has_own (freezeDefined kvs) k \<longleftrightarrow>
      map_of (concat (map (\<lambda>(k, v). case v of None \<Rightarrow> [] | Some x \<Rightarrow> [(k, x)]) kvs)) k \<noteq> None"
    unfolding freezeDefined_def has_own_def own_keys_literal map_of_eq_None_iff by force
  then show ?thesis unfolding map_of_defined[OF assms] .
qed

lemma ownKeys_literal: "ownKeys (literal_obj ps) = Inr (map fst ps)"
proof -
  have "list_all is_string_key (map (\<lambda>p. KStr (fst p)) ps)" for ps :: "(string \<times> jsval) list" by (induction ps) auto
  moreover have "key_strings (map (\<lambda>p. KStr (fst p)) ps) = map fst ps" for ps :: "(string \<times> jsval) list" by (induction ps) auto
  ultimately show ?thesis by (simp add: ownKeys_def own_keys_literal)
qed

lemma assertAllowedKeys_freezeDefined:
  assumes "set (map fst kvs) \<subseteq> set allowed"
  shows "assertAllowedKeys (freezeDefined kvs) allowed = Inr ()"
proof -
  have "set (map fst (concat (map (\<lambda>(k, v). case v of None \<Rightarrow> [] | Some x \<Rightarrow> [(k, x)]) kvs))) \<subseteq> set (map fst kvs)"
    by (induction kvs) (auto split: option.splits prod.splits intro: rev_image_eqI)
  then show ?thesis using assms unfolding assertAllowedKeys_def freezeDefined_def ownKeys_literal by auto
qed

lemma is_plain_freezeDefined: "is_plain_object (freezeDefined kvs)"
  by (simp add: freezeDefined_def is_plain_object_literal)

text \<open>A checked field is accepted again wherever it stands.\<close>

lemma requireName_again: "requireName ns e v k = Inr x \<Longrightarrow> get_prop d k = x \<Longrightarrow> requireName ns e d k = Inr x"
  by (cases x) (auto simp: requireName_def result_simps one_of_Inr)

lemma requireTimestamp_again:
  "requireTimestampField v k = Inr x \<Longrightarrow> get_prop d k = x \<Longrightarrow> requireTimestampField d k = Inr x"
  by (auto simp: requireTimestampField_def split: if_splits)

lemma optional_field_again:
  assumes "optional_field v k (req v) = Inr x" and "has_own d k \<longleftrightarrow> x \<noteq> None" and "\<And>y. x = Some y \<Longrightarrow> get_prop d k = y"
    and "\<And>y. req v = Inr y \<Longrightarrow> get_prop d k = y \<Longrightarrow> req d = Inr y"
  shows "optional_field d k (req d) = Inr x"
  using assms by (cases x) (auto simp: optional_field_def result_simps split: if_splits)

lemma one_of_again: "mapR (one_of ns e) vs = Inr cs \<Longrightarrow> mapR (one_of ns e) (map JStr cs) = Inr cs"
  by (induction vs arbitrary: cs) (auto simp: result_simps one_of_Inr)

lemma requireBlockerCodes_again:
  "requireBlockerCodes v = Inr x \<Longrightarrow> get_prop d ''blockerCodes'' = x \<Longrightarrow> requireBlockerCodes d = Inr x"
  by (auto simp: requireBlockerCodes_def result_simps dest: one_of_again split: jsval.splits)

lemma optionalCount_again:
  assumes "optionalCount v = Inr x" and "has_own d ''completedStepCount'' \<longleftrightarrow> x \<noteq> None \<and> counted"
    and "has_own d ''occurrenceCount'' \<longleftrightarrow> x \<noteq> None \<and> \<not> counted"
    and "\<And>y. x = Some y \<Longrightarrow> get_prop d (if counted then ''completedStepCount'' else ''occurrenceCount'') = y"
  shows "optionalCount d = Inr x"
  using assms by (cases x; cases counted) (auto simp: optionalCount_def Let_def split: if_splits)

lemma assertAllowedKeys_literal:
  "assertAllowedKeys (literal_obj ps) allowed = (if fst ` set ps \<subseteq> set allowed then Inr () else Inl invalid_details)"
  by (simp add: assertAllowedKeys_def ownKeys_literal)

lemma event_hasExactFields_literal:
  "event_hasExactFields (literal_obj ps) ns = Inr (length ps = length ns \<and> fst ` set ps \<subseteq> set ns)"
  by (simp add: event_hasExactFields_def ownKeys_literal)

lemma has_own_literal: "has_own (literal_obj ps) k \<longleftrightarrow> k \<in> fst ` set ps"
  by (auto simp: has_own_def literal_simps)

lemmas detail_literals = assertAllowedKeys_literal event_hasExactFields_literal has_own_literal get_prop_literal
  is_plain_object_literal

lemmas event_simps = result_simps detail_literals ex_bool_eq

lemmas failure_simps = failureDetails_def requireFailureCode_def requireName_def result_simps one_of_Inr detail_literals

lemma failure_again: "failureDetails v = Inr d \<Longrightarrow> failureDetails d = Inr d \<and> is_plain_object d \<and>
    (\<exists>c \<in> set SAFE_FAILURE_CODES. d = literal_obj [(''failureCode'', JStr c)])"
  by (auto simp: failure_simps)

lemma subject_again: "subject_details field ok st v = Inr d \<Longrightarrow> field \<noteq> ''outcome'' \<Longrightarrow> field \<noteq> ''failureCode'' \<Longrightarrow>
    subject_details field ok st d = Inr d \<and> is_plain_object d"
  by (clarsimp simp: subject_details_def event_simps split: jsval.split_asm if_split_asm)

lemma outcome_again: "outcome_details st v = Inr d \<Longrightarrow> outcome_details st d = Inr d \<and> is_plain_object d"
  by (clarsimp simp: outcome_details_def event_simps split: if_split_asm)

lemma schedule_wake_again: "schedule_wake_details st v = Inr d \<Longrightarrow> schedule_wake_details st d = Inr d \<and> is_plain_object d"
  by (clarsimp simp: schedule_wake_details_def event_simps requireTimestampField_def requireMutationOutcome_def
      requireName_def one_of_Inr failureDetails_def requireFailureCode_def split: if_split_asm)

lemma cancel_wake_again: "cancel_wake_details st v = Inr d \<Longrightarrow> cancel_wake_details st d = Inr d \<and> is_plain_object d"
  by (clarsimp simp: cancel_wake_details_def event_simps requireMutationOutcome_def
      requireName_def one_of_Inr failureDetails_def requireFailureCode_def split: if_split_asm)

lemma request_shutdown_again: "request_shutdown_details st v = Inr d \<Longrightarrow> request_shutdown_details st d = Inr d \<and> is_plain_object d"
  by (clarsimp simp: request_shutdown_details_def event_simps failureDetails_def requireFailureCode_def requireName_def one_of_Inr split: if_split_asm)

lemma occurrence_started_again: "occurrence_started_details v = Inr d \<Longrightarrow> occurrence_started_details d = Inr d \<and> is_plain_object d"
  by (clarsimp simp: occurrence_started_details_def event_simps requireTimestampField_def split: if_split_asm)

lemma authorize_again: "authorize_details st v = Inr d \<Longrightarrow> authorize_details st d = Inr d \<and> is_plain_object d"
  by (clarsimp simp: authorize_details_def event_simps requireName_def one_of_Inr Let_def
      split: jsval.split_asm if_split_asm)

lemmas defined_simps = get_prop_freezeDefined has_own_freezeDefined assertAllowedKeys_freezeDefined
  is_plain_freezeDefined

lemmas optional_defs = optionalPreparationOutcome_def optionalMutationOutcome_def optionalFailureCode_def
  optionalBoolean_def optionalTimestamp_def optionalAccepted_def optionalBlockerCodes_def

text \<open>Each optional field of a frozen record is found again as it was.\<close>

lemma optional_defined:
  assumes "optional_field v k (req v) = Inr x" and "distinct (map fst kvs)" and "map_of kvs k = Some x"
    and "\<And>y. req v = Inr y \<Longrightarrow> get_prop (freezeDefined kvs) k = y \<Longrightarrow> req (freezeDefined kvs) = Inr y"
  shows "optional_field (freezeDefined kvs) k (req (freezeDefined kvs)) = Inr x"
  using assms(1)
  by (rule optional_field_again) (auto simp: defined_simps assms(2,3) intro: assms(4))

named_theorems again "what a validator accepted is accepted again"

lemma optionalPreparationOutcome_again [again]:
  "optionalPreparationOutcome v = Inr x \<Longrightarrow> distinct (map fst kvs) \<Longrightarrow> map_of kvs ''preparationOutcome'' = Some x \<Longrightarrow>
   optionalPreparationOutcome (freezeDefined kvs) = Inr x"
  unfolding optionalPreparationOutcome_def
  by (erule (2) optional_defined[where req = "\<lambda>v. requireName ADMINISTRATIVE_EVENT_PREPARATION_OUTCOMES invalid_details v ''preparationOutcome''"])
    (auto intro: requireName_again)

lemma optionalMutationOutcome_again [again]:
  "optionalMutationOutcome v k ns = Inr x \<Longrightarrow> distinct (map fst kvs) \<Longrightarrow> map_of kvs k = Some x \<Longrightarrow>
   optionalMutationOutcome (freezeDefined kvs) k ns = Inr x"
  unfolding optionalMutationOutcome_def requireMutationOutcome_def

  by (erule (2) optional_defined[where req = "\<lambda>v. requireName ns invalid_details v k"])
    (auto intro: requireName_again)

lemma optionalFailureCode_again [again]:
  "optionalFailureCode v = Inr x \<Longrightarrow> distinct (map fst kvs) \<Longrightarrow> map_of kvs ''failureCode'' = Some x \<Longrightarrow>
   optionalFailureCode (freezeDefined kvs) = Inr x"
  unfolding optionalFailureCode_def requireFailureCode_def
  by (erule (2) optional_defined[where req = "\<lambda>v. requireName SAFE_FAILURE_CODES (event_error ''invalid_failure_code'') v ''failureCode''"])
    (auto intro: requireName_again)

lemma optionalTimestamp_again [again]:
  "optionalTimestamp v k = Inr x \<Longrightarrow> distinct (map fst kvs) \<Longrightarrow> map_of kvs k = Some x \<Longrightarrow>
   optionalTimestamp (freezeDefined kvs) k = Inr x"
  unfolding optionalTimestamp_def
  by (erule (2) optional_defined[where req = "\<lambda>v. requireTimestampField v k"])
    (auto intro: requireTimestamp_again)

lemma optionalBoolean_again [again]:
  "optionalBoolean v k = Inr x \<Longrightarrow> distinct (map fst kvs) \<Longrightarrow> map_of kvs k = Some x \<Longrightarrow>
   optionalBoolean (freezeDefined kvs) k = Inr x"
  unfolding optionalBoolean_def
  by (erule (2) optional_defined[where req = "\<lambda>v. if is_bool (get_prop v k) then Inr (get_prop v k) else Inl invalid_details"])
    (auto split: if_split_asm)

lemma optionalAccepted_again [again]:
  "optionalAccepted v = Inr x \<Longrightarrow> distinct (map fst kvs) \<Longrightarrow> map_of kvs ''shutdownAccepted'' = Some x \<Longrightarrow>
   optionalAccepted (freezeDefined kvs) = Inr x"
  unfolding optionalAccepted_def
  by (erule (2) optional_defined[where req = "\<lambda>v. if get_prop v ''shutdownAccepted'' = JBool True then Inr (JBool True) else Inl invalid_details"])
    (auto split: if_split_asm)

lemma optionalBlockerCodes_again [again]:
  "optionalBlockerCodes v = Inr x \<Longrightarrow> distinct (map fst kvs) \<Longrightarrow> map_of kvs ''blockerCodes'' = Some x \<Longrightarrow>
   optionalBlockerCodes (freezeDefined kvs) = Inr x"
  unfolding optionalBlockerCodes_def
  by (erule (2) optional_defined[where req = "\<lambda>v. requireBlockerCodes v"])
    (auto intro: requireBlockerCodes_again)

lemma optionalCount_defined [again]:
  assumes "optionalCount v = Inr x" and "distinct (map fst kvs)"
    and "map_of kvs ''completedStepCount'' = Some x \<and> map_of kvs ''occurrenceCount'' = None \<or>
         map_of kvs ''occurrenceCount'' = Some x \<and> map_of kvs ''completedStepCount'' = None"
  shows "optionalCount (freezeDefined kvs) = Inr x"
  using assms(1)
  by (rule optionalCount_again[where counted = "map_of kvs ''completedStepCount'' \<noteq> None"])
    (use assms(2,3) in \<open>auto simp: defined_simps\<close>)

lemma requireName_defined [again]:
  "requireName ns e v k = Inr x \<Longrightarrow> distinct (map fst kvs) \<Longrightarrow> map_of kvs k = Some (Some x) \<Longrightarrow>
   requireName ns e (freezeDefined kvs) k = Inr x"
  by (rule requireName_again) (simp_all add: defined_simps)

lemma failure_literal_absent:
  assumes "k \<noteq> ''failureCode''"
  shows "optional_field (literal_obj [(''failureCode'', c)]) k r = Inr None"
  using assms by (simp add: optional_field_def has_own_literal)

lemma failure_form:
  assumes "failureDetails v = Inr d"
  obtains c where "c \<in> set SAFE_FAILURE_CODES" "d = literal_obj [(''failureCode'', JStr c)]"
  using assms by (auto simp: failureDetails_def requireFailureCode_def requireName_def result_simps one_of_Inr)

lemma failure_details_literal:
  "c \<in> set SAFE_FAILURE_CODES \<Longrightarrow> failureDetails (literal_obj [(''failureCode'', JStr c)]) =
     Inr (literal_obj [(''failureCode'', JStr c)])"
  "c \<in> set SAFE_FAILURE_CODES \<Longrightarrow> requireFailureCode (literal_obj [(''failureCode'', JStr c)]) = Inr (JStr c)"
  by (simp_all add: failureDetails_def requireFailureCode_def requireName_def detail_literals)

lemma prepare_again:
  assumes "prepare_details st v = Inr d"
  shows "prepare_details st d = Inr d \<and> is_plain_object d"
proof -
  consider (start) "st = ''started''" | (failed) "st = ''failed''" "failureDetails v = Inr d"
    | (other) outcome codes n where "st \<noteq> ''started''" "st \<noteq> ''failed''"
      "optionalPreparationOutcome v = Inr outcome" "optionalBlockerCodes v = Inr codes"
      "(optionalCount v = Inr n)"
      "d = freezeDefined [(''preparationOutcome'', outcome), (''blockerCodes'', codes), (''completedStepCount'', n),
         (''failureCode'', None)]"
      "st = ''succeeded'' \<and> outcome \<in> {Some (JStr ''not_required''), Some (JStr ''prepared'')} \<or>
       st = ''rejected'' \<and> outcome \<in> {Some (JStr ''blocked''), Some (JStr ''incomplete'')}"
    using assms unfolding prepare_details_def Let_def
    by (auto simp: result_simps split: if_split_asm)
  then show ?thesis
  proof cases
    case start
    then show ?thesis using assms occurrence_started_again by (simp add: prepare_details_def)
  next
    case failed
    obtain c where c: "c \<in> set SAFE_FAILURE_CODES" "d = literal_obj [(''failureCode'', JStr c)]"
      using failure_form[OF failed(2)] .
    then show ?thesis
      by (simp add: prepare_details_def failed(1) detail_literals failure_details_literal failure_literal_absent
          optionalPreparationOutcome_def optionalBlockerCodes_def optionalCount_def optionalFailureCode_def
          optional_field_def)
  next
    case other
    note fields = optionalPreparationOutcome_again[OF other(3)] optionalBlockerCodes_again[OF other(4)]
      optionalCount_defined[OF other(5)]
    show ?thesis
      using other(1,2,7)
      by (auto simp: prepare_details_def Let_def other(6) defined_simps fields optionalFailureCode_def optional_field_def)
  qed
qed

lemma execute_again:
  assumes "execute_details st v = Inr d"
  shows "execute_details st d = Inr d \<and> is_plain_object d"
proof -
  consider (start) "st = ''started''" | (failed) "st = ''failed''" | (finished) "st = ''succeeded'' \<or> st = ''rejected''"
    | (unknown) "st \<noteq> ''started''" "st \<noteq> ''failed''" "st \<noteq> ''succeeded''" "st \<noteq> ''rejected''"
    by blast
  then show ?thesis
  proof cases
    case start
    then show ?thesis using assms occurrence_started_again by (simp add: execute_details_def)
  next
    case failed
    then have "failureDetails v = Inr d" using assms by (auto simp: execute_details_def result_simps)
    from failure_form[OF this] obtain c where c: "c \<in> set SAFE_FAILURE_CODES" "d = literal_obj [(''failureCode'', JStr c)]" .
    then show ?thesis by (simp add: execute_details_def failed detail_literals failure_details_literal)
  next
    case finished
    obtain outcome preparation wake accepted failure codes where parts:
      "requireExecutionOutcome v = Inr outcome" "optionalPreparationOutcome v = Inr preparation"
      "optionalMutationOutcome v ''wakeMutationOutcome'' [''scheduled'', ''replaced'', ''unchanged''] = Inr wake"
      "optionalAccepted v = Inr accepted" "optionalFailureCode v = Inr failure" "optionalBlockerCodes v = Inr codes"
      using assms finished unfolding execute_details_def Let_def by (auto simp: result_simps split: if_split_asm)
    have d: "d = freezeDefined [(''executionOutcome'', Some outcome), (''preparationOutcome'', preparation),
         (''wakeMutationOutcome'', wake), (''shutdownAccepted'', accepted), (''failureCode'', failure), (''blockerCodes'', codes)]"
      using assms finished unfolding execute_details_def Let_def by (auto simp: parts result_simps split: if_split_asm)
    note fields = optionalPreparationOutcome_again[OF parts(2)] optionalBlockerCodes_again[OF parts(6)]
      optionalMutationOutcome_again[OF parts(3)] optionalAccepted_again[OF parts(4)] optionalFailureCode_again[OF parts(5)]
      requireName_defined[OF parts(1)[unfolded requireExecutionOutcome_def], folded requireExecutionOutcome_def]
    have again: "requireExecutionOutcome d = Inr outcome" "optionalPreparationOutcome d = Inr preparation"
      "optionalMutationOutcome d ''wakeMutationOutcome'' [''scheduled'', ''replaced'', ''unchanged''] = Inr wake"
      "optionalAccepted d = Inr accepted" "optionalFailureCode d = Inr failure" "optionalBlockerCodes d = Inr codes"
      "assertAllowedKeys d [''executionOutcome'', ''preparationOutcome'', ''wakeMutationOutcome'',
        ''shutdownAccepted'', ''failureCode'', ''blockerCodes''] = Inr ()"
      unfolding d by (simp_all add: fields assertAllowedKeys_freezeDefined)
    have keys: "assertAllowedKeys v [''executionOutcome'', ''preparationOutcome'', ''wakeMutationOutcome'',
        ''shutdownAccepted'', ''failureCode'', ''blockerCodes''] = Inr ()"
      using assms finished unfolding execute_details_def by (auto simp: result_simps split: if_split_asm)
    have "execute_details st d = execute_details st v"
      using finished unfolding execute_details_def again parts keys by auto
    then show ?thesis using assms d is_plain_freezeDefined by simp
  next
    case unknown
    then show ?thesis using assms unfolding execute_details_def Let_def by (simp add: result_simps)
  qed
qed

lemma tick_again:
  assumes "tick_details st v = Inr d"
  shows "tick_details st d = Inr d \<and> is_plain_object d"
proof -
  consider (start) "st = ''started''" | (failed) "st = ''failed''" "failureDetails v = Inr d"
    | (other) outcome through ticked n complete where "st \<noteq> ''started''" "st \<noteq> ''failed''"
      "requireSchedulerOutcome v = Inr outcome" "optionalTimestamp v ''completedThrough'' = Inr through"
      "optionalTimestamp v ''tickedThrough'' = Inr ticked" "optionalCount v = Inr n"
      "optionalBoolean v ''complete'' = Inr complete"
      "d = freezeDefined [(''schedulerOutcome'', Some outcome), (''completedThrough'', through),
         (''tickedThrough'', ticked), (''occurrenceCount'', n), (''complete'', complete), (''failureCode'', None)]"
      "st = ''succeeded'' \<and> outcome \<in> {JStr ''initialized'', JStr ''idle'', JStr ''advanced''} \<or>
       st = ''rejected'' \<and> outcome \<in> {JStr ''blocked'', JStr ''incomplete'', JStr ''conflict''}"
    using assms unfolding tick_details_def Let_def
    by (simp add: result_simps split: if_split_asm; elim exE conjE; blast)
  then show ?thesis
  proof cases
    case start
    then show ?thesis using assms
      by (clarsimp simp: tick_details_def event_simps requireTimestampField_def split: if_split_asm)
  next
    case failed
    obtain c where c: "c \<in> set SAFE_FAILURE_CODES" "d = literal_obj [(''failureCode'', JStr c)]"
      using failure_form[OF failed(2)] .
    then show ?thesis
      by (simp add: tick_details_def failed(1) detail_literals failure_details_literal)
  next
    case other
    note fields = optionalTimestamp_again[OF other(4)] optionalTimestamp_again[OF other(5)]
      optionalCount_defined[OF other(6)] optionalBoolean_again[OF other(7)]
      requireName_defined[OF other(3)[unfolded requireSchedulerOutcome_def]]
    show ?thesis
      using other(1,2,9)
      by (auto simp: tick_details_def Let_def other(8) defined_simps fields optionalFailureCode_def optional_field_def
        requireSchedulerOutcome_def)
  qed
qed

lemma history_again:
  assumes "createEventHistoryOperationalDetails v st = Inr d" and "is_plain_object v"
  shows "createEventHistoryOperationalDetails d st = Inr d \<and> is_plain_object d"
proof -
  consider (start) "st = ''started''" | (failed) "st = ''failed'' \<or> st = ''rejected''" "failureDetails v = Inr d"
    | (other) "d = v" using assms unfolding createEventHistoryOperationalDetails_def
    by (simp add: result_simps split: if_split_asm)
  then show ?thesis
  proof cases
    case start
    then show ?thesis using assms(1)
      by (clarsimp simp: createEventHistoryOperationalDetails_def event_simps defined_simps split: if_split_asm)
  next
    case failed
    obtain c where c: "c \<in> set SAFE_FAILURE_CODES" "d = literal_obj [(''failureCode'', JStr c)]"
      using failure_form[OF failed(2)] .
    then show ?thesis using failed(1)
      by (auto simp: createEventHistoryOperationalDetails_def detail_literals failure_details_literal)
  next
    case other
    then show ?thesis using assms by simp
  qed
qed

definition accepts_again :: "(string \<Rightarrow> jsval \<Rightarrow> jsval result) \<Rightarrow> bool" where
  "accepts_again f \<longleftrightarrow>
     (\<forall>st v d. is_plain_object v \<longrightarrow> f st v = Inr d \<longrightarrow> f st d = Inr d \<and> is_plain_object d)"

lemma accepts_againI:
  "(\<And>st v d. is_plain_object v \<Longrightarrow> f st v = Inr d \<Longrightarrow> f st d = Inr d \<and> is_plain_object d) \<Longrightarrow> accepts_again f"
  unfolding accepts_again_def by blast

lemma accepts_again_if:
  "accepts_again f \<Longrightarrow> accepts_again g \<Longrightarrow> accepts_again (\<lambda>st v. if b then f st v else g st v)"
  by (cases b) simp_all

lemma details_accepted_again:
  "accepts_again authorize_details" "accepts_again backup_details" "accepts_again service_details"
  "accepts_again outcome_details" "accepts_again (\<lambda>st v. createEventHistoryOperationalDetails v st)"
  "accepts_again schedule_wake_details" "accepts_again cancel_wake_details" "accepts_again request_shutdown_details"
  "accepts_again prepare_details" "accepts_again execute_details" "accepts_again tick_details"
  unfolding backup_details_def service_details_def
  by (rule accepts_againI, (erule authorize_again | erule subject_again, simp, simp | erule outcome_again |
      erule (1) history_again | erule schedule_wake_again | erule cancel_wake_again | erule request_shutdown_again |
      erule prepare_again | erule execute_again | erule tick_again))+

lemma details_of_again: "accepts_again (details_of op)"
  unfolding details_of_def by (intro accepts_again_if details_accepted_again)

lemma createDetails_again:
  assumes "createDetails op st v = Inr (Some d)"
  shows "createDetails op st d = Inr (Some d)"
proof -
  have "details_of op st v = Inr d" "is_plain_object v"
    using assms by (auto simp: createDetails_def requireRecord_def result_simps split: if_split_asm)
  then have "details_of op st d = Inr d" "is_plain_object d"
    using details_of_again[of op] unfolding accepts_again_def by blast+
  then show ?thesis by (cases d) (auto simp: createDetails_def requireRecord_def)
qed

section \<open>Events as values\<close>

definition source_value :: "AdministrativeEventSource \<Rightarrow> jsval" where
  "source_value s = literal_obj [(''kind'', JStr (source_kind s)), (''actorId'', JStr (actorId s))]"

definition target_value :: "AdministrativeEventTarget \<Rightarrow> jsval" where
  "target_value t = literal_obj [(''kind'', JStr (target_kind t)), (''id'', JStr (target_id t))]"

definition event_input_fields :: "AdministrativeEventInput \<Rightarrow> (string \<times> jsval) list" where
  "event_input_fields e =
     [(''attemptId'', JStr (attemptId e)), (''occurredAt'', JStr (occurredAt e)), (''source'', source_value (event_source e)),
      (''target'', target_value (event_target e)), (''operation'', JStr (event_operation e)),
      (''status'', JStr (event_status e))] @ (case event_details e of None \<Rightarrow> [] | Some d \<Rightarrow> [(''details'', d)])"

definition event_input_value :: "AdministrativeEventInput \<Rightarrow> jsval" where
  "event_input_value e = literal_obj (event_input_fields e)"

definition event_value :: "AdministrativeEvent \<Rightarrow> jsval" where
  "event_value e = literal_obj ((''sequence'', JNum (event_sequence_number e)) # event_input_fields (event_input e))"

text \<open>What the constructor guarantees: it accepts the event again, as a value.\<close>

definition wf_event_input :: "AdministrativeEventInput \<Rightarrow> bool" where
  "wf_event_input e \<longleftrightarrow>
     createSource (source_value (event_source e)) = Inr (event_source e) \<and>
     createTarget (target_value (event_target e)) = Inr (event_target e) \<and>
     event_operation e \<in> set ADMINISTRATIVE_EVENT_OPERATIONS \<and> event_status e \<in> set ADMINISTRATIVE_EVENT_STATUSES \<and>
     CANONICAL_UUID (attemptId e) \<and> canonical (occurredAt e) \<and>
     (\<forall>d. event_details e = Some d \<longrightarrow> createDetails (event_operation e) (event_status e) d = Inr (Some d))"

lemma bounded_int_Some: "bounded_int l h x = Some n \<longleftrightarrow> x = JNum n \<and> l \<le> n \<and> n \<le> h"
  by (cases x) auto

lemma isAttemptId_eq: "isAttemptId v = Some a \<longleftrightarrow> v = JStr a \<and> CANONICAL_UUID a"
  by (cases v) (auto simp: isAttemptId_def)

lemma requireR_Inr: "requireR e v = Inr x \<longleftrightarrow> v = Some x"
  by (cases v) (auto simp: requireR_def)

lemma source_of_Some:
  "source_of x y = Some s \<longleftrightarrow> x = JStr (source_kind s) \<and> y = JStr (actorId s) \<and> valid_source (source_kind s) (actorId s)"
  by (cases "(x, y)" rule: source_of.cases) auto

lemma source_again: "createSource v = Inr s \<Longrightarrow> createSource (source_value s) = Inr s"
  by (clarsimp simp: createSource_def source_value_def requireRecord_def assertFields_def ownKeys_literal requireR_Inr
      source_of_Some detail_literals result_simps)

lemma target_again: "createTarget v = Inr t \<Longrightarrow> createTarget (target_value t) = Inr t"
  by (auto simp: createTarget_def target_value_def requireRecord_def assertFields_def ownKeys_literal
      event_simps split: if_split_asm)

lemma createAdministrativeEventInput_wf:
  assumes "createAdministrativeEventInput v = Inr e"
  shows "wf_event_input e"
proof -
  obtain v' source target op st attempt at details where
      v: "createSource (get_prop v' ''source'') = Inr source" "createTarget (get_prop v' ''target'') = Inr target"
      "op \<in> set ADMINISTRATIVE_EVENT_OPERATIONS" "st \<in> set ADMINISTRATIVE_EVENT_STATUSES"
      "CANONICAL_UUID attempt" "canonical at"
      "(if has_own v' ''details'' then createDetails op st (get_prop v' ''details'') else Inr None) = Inr details"
    and e: "e = \<lparr>attemptId = attempt, occurredAt = at, event_source = source, event_target = target,
       event_operation = op, event_status = st, event_details = details\<rparr>"
    using assms unfolding createAdministrativeEventInput_def
    by (auto simp: result_simps one_of_Inr canonical_string_eq isAttemptId_eq requireR_Inr simp del: if_split)
  have "createDetails op st d = Inr (Some d)" if "details = Some d" for d
    using v(7) that createDetails_again by (auto split: if_split_asm)
  then show ?thesis
    unfolding wf_event_input_def e using source_again[OF v(1)] target_again[OF v(2)] v(3-6) by simp
qed

lemma createAdministrativeEventInput_fields:
  assumes "wf_event_input e"
  shows "createAdministrativeEventInput (literal_obj (event_input_fields e)) = Inr e"
proof -
  note wf = assms[unfolded wf_event_input_def]
  have attempt: "isAttemptId (JStr (attemptId e)) = Some (attemptId e)" using wf by (simp add: isAttemptId_eq)
  have at: "canonical_string (JStr (occurredAt e)) = Some (occurredAt e)" using wf by (simp add: canonical_string_eq)
  show ?thesis
    using wf
    by (cases "event_details e")
      (simp_all add: createAdministrativeEventInput_def event_input_fields_def requireRecord_def requireR_def
        assertFields_def ownKeys_literal detail_literals attempt at)
qed

lemma createAdministrativeEventInput_value:
  "wf_event_input e \<Longrightarrow> createAdministrativeEventInput (event_input_value e) = Inr e"
  unfolding event_input_value_def by (rule createAdministrativeEventInput_fields)

lemma createAdministrativeEvent_value:
  assumes "wf_event_input (event_input e)" and "isSafeInteger (event_sequence_number e)" and "1 \<le> event_sequence_number e"
  shows "createAdministrativeEvent (event_value e) = Inr e"
  using createAdministrativeEventInput_fields[OF assms(1)] assms(2,3)
  by (cases "event_details (event_input e)")
    (simp_all add: createAdministrativeEvent_def event_value_def event_input_fields_def requireRecord_def
      assertFields_def ownKeys_literal detail_literals requireR_def isSafeInteger_def)

end
