(* ===== verification/Event_History.thy ===== *)
theory Event_History
  imports Administrative_Event
begin

text \<open>
  The history of administrative events (\<open>event-history\<close>): the audit trail records the beginning and the end of
  an attempt (\<open>application/administrative-audit-trail.ts\<close>), and the in-memory history numbers and stores the
  events and answers queries in pages (\<open>domain/administrative-event-history-query.ts\<close>,
  \<open>administrative-event-history-page.ts\<close>, \<open>infrastructure/in-memory-administrative-event-history.ts\<close>).
\<close>

section \<open>The audit trail\<close>

text \<open>
  \<open>application/administrative-audit-trail.ts\<close> over a recorder and a generator of attempt ids, as an audit
  port of the use cases: the attempt is an object with the data of \<open>begin\<close>, \<open>audit_begin\<close> returns it.
\<close>

definition AdministrativeAuditTrailError :: js_error where
  "AdministrativeAuditTrailError = NamedError ''AdministrativeAuditTrailError'' ''administrative_audit_failed''"

fun js_truthy :: "jsval \<Rightarrow> bool" where
  "js_truthy JUndefined = False"
| "js_truthy JNull = False"
| "js_truthy (JBool b) = b"
| "js_truthy (JNum n) = (n \<noteq> 0)"
| "js_truthy (JStr v) = (v \<noteq> [])"
| "js_truthy _ = True"

definition with_details :: "jsval \<Rightarrow> (string \<times> jsval) list" where
  "with_details details = (if js_truthy details then [(''details'', details)] else [])"

type_synonym 'w recorder = "AdministrativeEventInput \<Rightarrow> ('w, AdministrativeEvent) io"

definition trail_record :: "'w recorder \<Rightarrow> AdministrativeEventInput \<Rightarrow> ('w, AdministrativeEvent) io" where
  "trail_record recorder e = catchIO (recorder e) (\<lambda>_. throwIO AdministrativeAuditTrailError)"

definition trail_begin :: "'w recorder \<Rightarrow> ('w, string) io \<Rightarrow> jsval \<Rightarrow> ('w, jsval) io" where
  "trail_begin recorder generate input =
     bindIO generate (\<lambda>attempt.
     let fields = map (\<lambda>k. (k, get_prop input k)) in
     bindIO (liftIO (createAdministrativeEventInput (literal_obj
         ((''attemptId'', JStr attempt) # fields [''occurredAt'', ''source'', ''target'', ''operation''] @
          (''status'', JStr ''started'') # with_details (get_prop input ''details''))))) (\<lambda>startedInput.
     bindIO (trail_record recorder startedInput) (\<lambda>started.
     retIO (literal_obj ((''attemptId'', JStr attempt) # (''started'', event_value started) #
         fields [''operation'', ''occurredAt'', ''source'', ''target''])))))"

definition trail_complete :: "'w recorder \<Rightarrow> jsval \<Rightarrow> string \<Rightarrow> jsval \<Rightarrow> ('w, AdministrativeEvent) io" where
  "trail_complete recorder attempt status details =
     (let fields = map (\<lambda>k. (k, get_prop attempt k)) in
      bindIO (liftIO (createAdministrativeEventInput (literal_obj
         (fields [''attemptId'', ''occurredAt'', ''source'', ''target'', ''operation''] @
          (''status'', JStr status) # with_details details)))) (\<lambda>e.
      trail_record recorder e))"

definition audit_trail :: "'w recorder \<Rightarrow> ('w, string) io \<Rightarrow> 'w AuditPort" where
  "audit_trail recorder generate =
     \<lparr>audit_begin = trail_begin recorder generate,
      audit_complete = (\<lambda>attempt status details. bindIO (trail_complete recorder attempt status details) (\<lambda>_. retIO ()))\<rparr>"

section \<open>Queries and pages\<close>

record AdministrativeEventHistoryQuery =
  afterSequence :: int
  query_limit :: int
  query_source :: "string option"
  query_operation :: "string option"
  query_status :: "string option"
  query_attemptId :: "string option"
  occurredFrom :: "string option"
  occurredTo :: "string option"

abbreviation query_error :: "string \<Rightarrow> js_error" where
  "query_error \<equiv> NamedError ''AdministrativeEventHistoryQueryError''"

text \<open>The operations a query may name.\<close>

definition query_operations :: "string list" where
  "query_operations = [''authorize_administrative_operation'', ''schedule_wake_alarm'', ''cancel_wake_alarm'',
     ''request_machine_shutdown'', ''prepare_machine_shutdown_occurrence'', ''execute_machine_shutdown_occurrence'',
     ''run_machine_power_scheduler_tick'', ''verify_event_history_integrity'', ''rotate_administrative_event_history'',
     ''update_administrative_event_history_retention'', ''prune_administrative_event_history'',
     ''create_administrative_event_history_export'', ''prune_administrative_event_history_exports'',
     ''recover_administrative_event_history_stale_lock'', ''migrate_administrative_event_history_v1'']"

text \<open>\<open>value ?? default\<close>, and a field that is undefined or passes its test.\<close>

definition nullish_or :: "jsval \<Rightarrow> jsval \<Rightarrow> jsval" where
  "nullish_or v d = (if v = JUndefined \<or> v = JNull then d else v)"

definition absent_or :: "js_error \<Rightarrow> (jsval \<Rightarrow> string option) \<Rightarrow> jsval \<Rightarrow> string option result" where
  "absent_or e test v = (if v = JUndefined then Inr None else bindR (requireR e (test v)) (\<lambda>s. Inr (Some s)))"

fun name_of :: "string list \<Rightarrow> jsval \<Rightarrow> string option" where
  "name_of names (JStr v) = (if v \<in> set names then Some v else None)"
| "name_of names _ = None"

definition createAdministrativeEventHistoryQuery :: "jsval \<Rightarrow> AdministrativeEventHistoryQuery result" where
  "createAdministrativeEventHistoryQuery raw =
     (let input = (if raw = JUndefined then literal_obj [] else raw) in
      if \<not> is_plain_object input then Inl (query_error ''invalid_record'')
      else if \<not> list_all (key_in [''afterSequence'', ''limit'', ''source'', ''operation'', ''status'', ''attemptId'',
                  ''occurredFrom'', ''occurredTo'']) (own_keys input)
      then Inl (query_error ''invalid_field'')
      else
        bindR (requireR (query_error ''invalid_after_sequence'')
                 (bounded_int 0 9007199254740991 (nullish_or (get_prop input ''afterSequence'') (JNum 0)))) (\<lambda>after.
        bindR (requireR (query_error ''invalid_limit'')
                 (bounded_int 1 100 (nullish_or (get_prop input ''limit'') (JNum 50)))) (\<lambda>limit.
        bindR (absent_or (query_error ''invalid_source'') (name_of [''administrative'', ''automated'', ''system''])
                 (get_prop input ''source'')) (\<lambda>source.
        bindR (absent_or (query_error ''invalid_operation'') (name_of query_operations) (get_prop input ''operation'')) (\<lambda>operation.
        bindR (absent_or (query_error ''invalid_status'') (name_of ADMINISTRATIVE_EVENT_STATUSES)
                 (get_prop input ''status'')) (\<lambda>status.
        bindR (absent_or (query_error ''invalid_attempt_id'') isAttemptId (get_prop input ''attemptId'')) (\<lambda>attempt.
        bindR (absent_or (query_error ''invalid_occurred_from'') canonical_string (get_prop input ''occurredFrom'')) (\<lambda>from.
        bindR (absent_or (query_error ''invalid_occurred_to'') canonical_string (get_prop input ''occurredTo'')) (\<lambda>to.
        if (case (from, to) of (Some f, Some t) \<Rightarrow> t \<le> f | _ \<Rightarrow> False)
        then Inl (query_error ''invalid_time_interval'')
        else Inr \<lparr>afterSequence = after, query_limit = limit, query_source = source, query_operation = operation,
               query_status = status, query_attemptId = attempt, occurredFrom = from, occurredTo = to\<rparr>)))))))))"

record AdministrativeEventHistoryPage =
  page_events :: "AdministrativeEvent list"
  page_hasMore :: bool
  nextAfterSequence :: "int option"

abbreviation page_error :: "string \<Rightarrow> js_error" where
  "page_error \<equiv> NamedError ''AdministrativeEventHistoryPageValidationError''"

definition createAdministrativeEventHistoryPage :: "jsval \<Rightarrow> AdministrativeEventHistoryPage result" where
  "createAdministrativeEventHistoryPage input =
     (if \<not> is_plain_object input then Inl (page_error ''invalid_record'')
      else if \<not> list_all (key_in [''events'', ''hasMore'']) (own_keys input) then Inl (page_error ''invalid_field'')
      else case get_prop input ''events'' of
        JArr vs \<Rightarrow>
          (case get_prop input ''hasMore'' of
             JBool hasMore \<Rightarrow>
               (case mapR createAdministrativeEvent vs of
                  Inl _ \<Rightarrow> Inl (page_error ''invalid_events'')
                | Inr events \<Rightarrow> Inr \<lparr>page_events = events, page_hasMore = hasMore,
                    nextAfterSequence = (if events = [] then None else Some (event_sequence_number (last events)))\<rparr>)
           | _ \<Rightarrow> Inl (page_error ''invalid_has_more''))
      | _ \<Rightarrow> Inl (page_error ''invalid_events''))"

section \<open>The in-memory history\<close>

text \<open>
  The state is the list of recorded events. Every call waits for the one before (\<open>#tail\<close>), so calls are
  functions on the state; \<open>recordFailure\<close> and \<open>queryFailure\<close> are settings that make a call fail.
\<close>

abbreviation history_error :: "string \<Rightarrow> js_error" where
  "history_error \<equiv> NamedError ''InMemoryAdministrativeEventHistoryError''"

definition recordOne :: "bool \<Rightarrow> AdministrativeEventInput \<Rightarrow> (AdministrativeEvent list, AdministrativeEvent) io" where
  "recordOne recordFailure e events =
     (if recordFailure then (Inl (history_error ''event_history_write_failed''), events)
      else case createAdministrativeEvent (literal_obj
               ((''sequence'', JNum (int (length events) + 1)) # event_input_fields e)) of
        Inl err \<Rightarrow> (Inl err, events)
      | Inr event \<Rightarrow> (createAdministrativeEvent (event_value event), events @ [event]))"

definition history_record :: "bool \<Rightarrow> AdministrativeEventInput \<Rightarrow> (AdministrativeEvent list, AdministrativeEvent) io" where
  "history_record recordFailure e =
     bindIO (liftIO (createAdministrativeEventInput (event_input_value e))) (recordOne recordFailure)"

definition matches_option :: "'a option \<Rightarrow> ('a \<Rightarrow> bool) \<Rightarrow> bool" where
  "matches_option v P = (case v of None \<Rightarrow> True | Some x \<Rightarrow> P x)"

definition matchesQuery :: "AdministrativeEvent \<Rightarrow> AdministrativeEventHistoryQuery \<Rightarrow> bool" where
  "matchesQuery event query \<longleftrightarrow>
     (let e = event_input event in
      event_sequence_number event > afterSequence query \<and>
      matches_option (query_source query) (\<lambda>k. source_kind (event_source e) = k) \<and>
      matches_option (query_operation query) (\<lambda>op. event_operation e = op) \<and>
      matches_option (query_status query) (\<lambda>st. event_status e = st) \<and>
      matches_option (query_attemptId query) (\<lambda>a. attemptId e = a) \<and>
      matches_option (occurredFrom query) (\<lambda>from. occurredAt e \<ge> from) \<and>
      matches_option (occurredTo query) (\<lambda>to. occurredAt e < to))"

definition queryOne :: "bool \<Rightarrow> AdministrativeEventHistoryQuery \<Rightarrow> (AdministrativeEvent list, AdministrativeEventHistoryPage) io" where
  "queryOne queryFailure query events =
     (if queryFailure then (Inl (history_error ''event_history_read_failed''), events)
      else let found = filter (\<lambda>e. matchesQuery e query) events in
        (bindR (mapR (\<lambda>e. createAdministrativeEvent (event_value e)) (take (nat (query_limit query)) found)) (\<lambda>page.
         createAdministrativeEventHistoryPage (literal_obj
           [(''events'', JArr (map event_value page)),
            (''hasMore'', JBool (int (length found) > query_limit query))])), events))"

definition history_query :: "bool \<Rightarrow> jsval \<Rightarrow> (AdministrativeEvent list, AdministrativeEventHistoryPage) io" where
  "history_query queryFailure input =
     bindIO (liftIO (createAdministrativeEventHistoryQuery input)) (queryOne queryFailure)"

definition history_check :: "bool \<Rightarrow> (AdministrativeEvent list, string option) io" where
  "history_check ready = retIO (if ready then None else Some ''event_history_unavailable'')"

definition history_snapshots :: "AdministrativeEvent list \<Rightarrow> AdministrativeEvent list result" where
  "history_snapshots events = mapR (\<lambda>e. createAdministrativeEvent (event_value e)) events"

text \<open>A generator with a fixed list of ids; its state is the rest of the list.\<close>

definition generate_id :: "(string list, string) io" where
  "generate_id ids =
     (case ids of
        i # rest \<Rightarrow> if i = [] then (Inl (PlainError ''No deterministic administrative attempt ID remains''), ids) else (Inr i, rest)
      | [] \<Rightarrow> (Inl (PlainError ''No deterministic administrative attempt ID remains''), ids))"

section \<open>The invariant of the history\<close>

definition wf_history :: "AdministrativeEvent list \<Rightarrow> bool" where
  "wf_history events \<longleftrightarrow> int (length events) \<le> 9007199254740991 \<and>
     map event_sequence_number events = map (\<lambda>i. int i + 1) [0..<length events] \<and>
     list_all (\<lambda>e. wf_event_input (event_input e)) events"

lemma wf_history_event:
  assumes "wf_history events" and "e \<in> set events"
  shows "wf_event_input (event_input e)" and "createAdministrativeEvent (event_value e) = Inr e"
proof -
  show wf: "wf_event_input (event_input e)" using assms by (auto simp: wf_history_def list_all_iff)
  have "event_sequence_number e \<in> set (map (\<lambda>i. int i + 1) [0..<length events])"
    using assms unfolding wf_history_def by (metis image_eqI list.set_map)
  then have "1 \<le> event_sequence_number e" "event_sequence_number e \<le> 9007199254740991"
    using assms(1) by (auto simp: wf_history_def)
  then show "createAdministrativeEvent (event_value e) = Inr e"
    using createAdministrativeEvent_value[OF wf] by (simp add: isSafeInteger_def)
qed

lemma event_value_of:
  "literal_obj ((''sequence'', JNum n) # event_input_fields e) =
     event_value \<lparr>event_sequence_number = n, event_input = e\<rparr>"
  by (simp add: event_value_def)

lemma recordOne_run:
  assumes "wf_event_input e" and "int (length events) < 9007199254740991"
  shows "recordOne False e events =
    (let event = \<lparr>event_sequence_number = int (length events) + 1, event_input = e\<rparr> in (Inr event, events @ [event]))"
  using createAdministrativeEvent_value[of "\<lparr>event_sequence_number = int (length events) + 1, event_input = e\<rparr>"] assms
  by (simp add: recordOne_def event_value_of isSafeInteger_def Let_def)

lemma history_record_run:
  assumes "wf_event_input e" and "int (length events) < 9007199254740991"
  shows "history_record False e events =
    (let event = \<lparr>event_sequence_number = int (length events) + 1, event_input = e\<rparr> in (Inr event, events @ [event]))"
  by (simp add: history_record_def io_defs createAdministrativeEventInput_value[OF assms(1)] recordOne_run[OF assms])

lemma sequence_exhausted:
  "9007199254740991 < n \<Longrightarrow>
   createAdministrativeEvent (literal_obj ((''sequence'', JNum n) # event_input_fields e)) = Inl (event_error ''invalid_sequence'')"
  by (cases "event_details e")
    (simp_all add: createAdministrativeEvent_def event_input_fields_def requireRecord_def
      assertFields_def ownKeys_literal detail_literals requireR_def)

lemma wf_history_append:
  assumes "wf_history events" and "wf_event_input e" and "int (length events) < 9007199254740991"
  shows "wf_history (events @ [\<lparr>event_sequence_number = int (length events) + 1, event_input = e\<rparr>])"
  using assms by (simp add: wf_history_def)

text \<open>A call that fails leaves the history as it was; one that succeeds appends its event.\<close>

lemma history_record_cases:
  assumes "wf_history events" and "history_record failing e events = (r, events')"
  shows "(\<exists>err. r = Inl err) \<and> events' = events \<or>
    (\<exists>event. r = Inr event \<and> events' = events @ [event] \<and>
       createAdministrativeEventInput (event_input_value e) = Inr (event_input event) \<and>
       event_sequence_number event = int (length events) + 1 \<and> wf_history events')"
proof (cases "createAdministrativeEventInput (event_input_value e)")
  case (Inl err)
  then show ?thesis using assms(2) by (auto simp: history_record_def io_defs)
next
  case (Inr e')
  then have wf: "wf_event_input e'" by (rule createAdministrativeEventInput_wf)
  have run: "recordOne failing e' events = (r, events')" using assms(2) Inr by (simp add: history_record_def io_defs)
  show ?thesis
  proof (cases "failing \<or> \<not> int (length events) < 9007199254740991")
    case True
    then have "\<exists>err. recordOne failing e' events = (Inl err, events)"
      by (auto simp: recordOne_def sequence_exhausted)
    then show ?thesis using run by auto
  next
    case False
    then show ?thesis
      using run recordOne_run[OF wf, of events] wf_history_append[OF assms(1) wf] Inr by (auto simp: Let_def)
  qed
qed

section \<open>Pages\<close>

lemma wf_history_sorted: "wf_history events \<Longrightarrow> sorted_wrt (\<lambda>a b. event_sequence_number a < event_sequence_number b) events"
proof -
  assume wf: "wf_history events"
  have "sorted_wrt (<) (map (\<lambda>i. int i + 1) [0..<n])" for n
    by (auto simp: sorted_wrt_map sorted_wrt_iff_nth_less)
  then have "sorted_wrt (<) (map event_sequence_number events)" using wf by (simp add: wf_history_def)
  then show ?thesis by (simp add: sorted_wrt_map)
qed

text \<open>Cutting an increasing list at an element it contains.\<close>

lemma filter_after_last_taken:
  fixes f :: "'a \<Rightarrow> int"
  assumes "sorted_wrt (\<lambda>a b. f a < f b) xs" and "take n xs \<noteq> []"
  shows "filter (\<lambda>x. f (last (take n xs)) < f x) xs = drop n xs"
proof -
  have parts: "sorted_wrt (\<lambda>a b. f a < f b) (take n xs @ drop n xs)" using assms(1) by simp
  have "f x \<le> f (last (take n xs))" if "x \<in> set (take n xs)" for x
  proof -
    have "sorted_wrt (\<lambda>a b. f a < f b) (butlast (take n xs) @ [last (take n xs)])"
      using parts assms(2) by (simp add: sorted_wrt_append del: append_take_drop_id)
    then show ?thesis using that assms(2) unfolding sorted_wrt_append
      by (metis append_butlast_last_id in_set_conv_decomp less_imp_le order_refl set_ConsD append_Nil in_set_butlastD Un_iff set_append singletonD list.set(1) list.set_intros(1) empty_iff insert_iff list.simps(15))
  qed
  then have "filter (\<lambda>x. f (last (take n xs)) < f x) (take n xs) = []" by (auto simp: filter_empty_conv not_less)
  moreover have "filter (\<lambda>x. f (last (take n xs)) < f x) (drop n xs) = drop n xs"
    using parts assms(2) by (auto simp: sorted_wrt_append filter_id_conv simp del: append_take_drop_id)
  ultimately show ?thesis by (metis append_Nil append_take_drop_id filter_append)
qed

lemma query_limits:
  assumes "createAdministrativeEventHistoryQuery v = Inr q"
  shows "1 \<le> query_limit q" and "0 \<le> afterSequence q"
proof -
  show "1 \<le> query_limit q" "0 \<le> afterSequence q"
    using assms unfolding createAdministrativeEventHistoryQuery_def Let_def
    by (auto simp: result_simps requireR_Inr bounded_int_Some split: if_split_asm)
qed

lemma page_created:
  assumes "\<And>e. e \<in> set events \<Longrightarrow> createAdministrativeEvent (event_value e) = Inr e"
  shows "createAdministrativeEventHistoryPage (literal_obj [(''events'', JArr (map event_value events)), (''hasMore'', JBool b)]) =
    Inr \<lparr>page_events = events, page_hasMore = b,
      nextAfterSequence = (if events = [] then None else Some (event_sequence_number (last events)))\<rparr>"
proof -
  have "mapR createAdministrativeEvent (map event_value events) = Inr events"
    using assms by (induction events) auto
  then show ?thesis by (simp add: createAdministrativeEventHistoryPage_def detail_literals own_keys_literal)
qed

lemma queryOne_run:
  assumes "wf_history events"
  shows "queryOne False q events =
    (let found = filter (\<lambda>e. matchesQuery e q) events; page = take (nat (query_limit q)) found in
     (Inr \<lparr>page_events = page, page_hasMore = int (length found) > query_limit q,
        nextAfterSequence = (if page = [] then None else Some (event_sequence_number (last page)))\<rparr>, events))"
proof -
  have "createAdministrativeEvent (event_value e) = Inr e"
    if "e \<in> set (take (nat (query_limit q)) (filter (\<lambda>e. matchesQuery e q) events))" for e
    using that wf_history_event(2)[OF assms] by (meson filter_is_subset in_set_takeD subsetD)
  moreover from this have "mapR (\<lambda>e. createAdministrativeEvent (event_value e))
      (take (nat (query_limit q)) (filter (\<lambda>e. matchesQuery e q) events)) =
      Inr (map id (take (nat (query_limit q)) (filter (\<lambda>e. matchesQuery e q) events)))"
    by (intro mapR_cong_Inr) auto
  ultimately show ?thesis unfolding queryOne_def Let_def by (simp add: page_created)
qed

section \<open>Properties\<close>

text \<open>
  C21. Following the pages of a query reads every matching event exactly once, in order: a page has at
  most \<open>limit\<close> events, they are the first that match, and the events that match after
  \<open>nextAfterSequence\<close> are the remaining ones; \<open>hasMore\<close> says whether there are any.
\<close>

theorem history_pages:
  assumes "wf_history events" and "createAdministrativeEventHistoryQuery v = Inr q"
  shows "\<exists>page. history_query False v events = (Inr page, events) \<and> int (length (page_events page)) \<le> query_limit q \<and>
    (case nextAfterSequence page of
       None \<Rightarrow> page_events page = [] \<and> \<not> page_hasMore page \<and> filter (\<lambda>e. matchesQuery e q) events = []
     | Some n \<Rightarrow> \<exists>rest. rest = filter (\<lambda>e. matchesQuery e (q\<lparr>afterSequence := n\<rparr>)) events \<and>
         filter (\<lambda>e. matchesQuery e q) events = page_events page @ rest \<and> (page_hasMore page \<longleftrightarrow> rest \<noteq> []))"
proof -
  define found where "found = filter (\<lambda>e. matchesQuery e q) events"
  define page where "page = take (nat (query_limit q)) found"
  let ?after = "\<lambda>n. filter (\<lambda>e. matchesQuery e (q\<lparr>afterSequence := n\<rparr>)) events"
  have run: "history_query False v events =
      (Inr \<lparr>page_events = page, page_hasMore = int (length found) > query_limit q,
        nextAfterSequence = (if page = [] then None else Some (event_sequence_number (last page)))\<rparr>, events)"
  proof -
    have "history_query False v events = queryOne False q events" by (simp add: history_query_def io_defs assms(2))
    then show ?thesis by (simp only: queryOne_run[OF assms(1)] Let_def found_def page_def)
  qed
  have limit: "1 \<le> query_limit q" using query_limits[OF assms(2)] by simp
  have sorted: "sorted_wrt (\<lambda>a b. event_sequence_number a < event_sequence_number b) found"
    unfolding found_def using wf_history_sorted[OF assms(1)] by (rule sorted_wrt_filter)
  have short: "int (length page) \<le> query_limit q" using limit by (simp add: page_def)
  have rest: "found = page @ ?after (event_sequence_number (last page)) \<and>
      (int (length found) > query_limit q \<longleftrightarrow> ?after (event_sequence_number (last page)) \<noteq> [])" if "page \<noteq> []"
  proof -
    have "last page \<in> set found" using that unfolding page_def by (meson in_set_takeD last_in_set)
    then have "afterSequence q < event_sequence_number (last page)" by (auto simp: found_def matchesQuery_def Let_def)
    then have "?after (event_sequence_number (last page)) =
        filter (\<lambda>e. event_sequence_number (last page) < event_sequence_number e) found"
      unfolding found_def filter_filter by (intro filter_cong) (auto simp: matchesQuery_def Let_def)
    also have "\<dots> = drop (nat (query_limit q)) found"
      using filter_after_last_taken[OF sorted] that unfolding page_def by blast
    finally show ?thesis using limit by (auto simp: page_def)
  qed
  show ?thesis
  proof (cases "page = []")
    case True
    then have "found = []" using limit by (simp add: page_def)
    then show ?thesis using run True short limit by (auto simp: found_def)
  next
    case False
    then show ?thesis using run short rest by (auto simp: found_def)
  qed
qed

definition sample_event :: AdministrativeEventInput where
  "sample_event = \<lparr>attemptId = ''01234567-89ab-4cde-8f01-23456789abcd'', occurredAt = iso 392460000,
     event_source = \<lparr>source_kind = ''administrative'', actorId = ''unattributed-local''\<rparr>,
     event_target = \<lparr>target_kind = ''machine'', target_id = ''atlas''\<rparr>,
     event_operation = ''request_machine_shutdown'', event_status = ''started'', event_details = None\<rparr>"

lemma sample_event_wf: "wf_event_input sample_event"
proof -
  have "createSource (source_value (event_source sample_event)) = Inr (event_source sample_event)" by code_simp
  moreover have "createTarget (target_value (event_target sample_event)) = Inr (event_target sample_event)" by code_simp
  moreover have "event_operation sample_event \<in> set ADMINISTRATIVE_EVENT_OPERATIONS"
    "event_status sample_event \<in> set ADMINISTRATIVE_EVENT_STATUSES" "CANONICAL_UUID (attemptId sample_event)" by code_simp+
  moreover have "canonical (occurredAt sample_event)" by (simp add: sample_event_def max_time_def)
  ultimately show ?thesis by (simp add: wf_event_input_def sample_event_def)
qed

definition sample_history :: "AdministrativeEvent list" where
  "sample_history = map (\<lambda>n. \<lparr>event_sequence_number = n, event_input = sample_event\<rparr>) [1, 2, 3]"

lemma sample_history_wf: "wf_history sample_history"
  by (simp add: wf_history_def sample_history_def sample_event_wf upt_rec)

definition sample_query :: AdministrativeEventHistoryQuery where
  "sample_query = \<lparr>afterSequence = 0, query_limit = 2, query_source = None, query_operation = None,
     query_status = Some ''started'', query_attemptId = None, occurredFrom = None, occurredTo = None\<rparr>"

lemma history_pages_witness:
  "\<exists>page. history_query False (literal_obj [(''limit'', JNum 2), (''status'', JStr ''started'')]) sample_history =
      (Inr page, sample_history) \<and> int (length (page_events page)) \<le> 2 \<and>
    (case nextAfterSequence page of
       None \<Rightarrow> page_events page = [] \<and> \<not> page_hasMore page \<and> filter (\<lambda>e. matchesQuery e sample_query) sample_history = []
     | Some n \<Rightarrow> \<exists>rest. rest = filter (\<lambda>e. matchesQuery e (sample_query\<lparr>afterSequence := n\<rparr>)) sample_history \<and>
         filter (\<lambda>e. matchesQuery e sample_query) sample_history = page_events page @ rest \<and>
         (page_hasMore page \<longleftrightarrow> rest \<noteq> []))"
proof -
  have "createAdministrativeEventHistoryQuery (literal_obj [(''limit'', JNum 2), (''status'', JStr ''started'')]) =
      Inr sample_query" by code_simp
  from history_pages[OF sample_history_wf this] show ?thesis by (simp add: sample_query_def)
qed

text \<open>
  C23. What was accepted once is accepted again, unchanged: the constructor of events, which guards every
  record that is read back, is the identity on what it returned, whatever the operation, the status and the
  details, so a recorded history can be read.
\<close>

theorem event_accepted_again:
  assumes "createAdministrativeEvent v = Inr e"
  shows "createAdministrativeEvent (event_value e) = Inr e"
proof -
  obtain x where "createAdministrativeEventInput x = Inr (event_input e)" and "isSafeInteger (event_sequence_number e)"
      "1 \<le> event_sequence_number e"
    using assms unfolding createAdministrativeEvent_def
    by (auto simp: result_simps requireR_Inr bounded_int_Some isSafeInteger_def)
  then show ?thesis using createAdministrativeEvent_value createAdministrativeEventInput_wf by blast
qed

lemma event_accepted_again_witness:
  "createAdministrativeEvent (event_value \<lparr>event_sequence_number = 1, event_input = sample_event\<rparr>) =
     Inr \<lparr>event_sequence_number = 1, event_input = sample_event\<rparr>"
proof -
  have "createAdministrativeEvent (event_value \<lparr>event_sequence_number = 1, event_input = sample_event\<rparr>) =
      Inr \<lparr>event_sequence_number = 1, event_input = sample_event\<rparr>"
    by (rule createAdministrativeEvent_value) (simp_all add: sample_event_wf isSafeInteger_def)
  from event_accepted_again[OF this] show ?thesis .
qed

text \<open>Two limits: a query cannot name every operation that is recorded, and an event may omit its details.\<close>

lemma query_rejects_recorded_operation:
  "''start_registered_service'' \<in> set ADMINISTRATIVE_EVENT_OPERATIONS \<and>
   createAdministrativeEventHistoryQuery (literal_obj [(''operation'', JStr ''start_registered_service'')]) =
     Inl (query_error ''invalid_operation'')"
  by code_simp

lemma details_may_be_missing:
  "createAdministrativeEventInput (event_input_value (sample_event\<lparr>event_operation := ''start_registered_service''\<rparr>)) =
     Inr (sample_event\<lparr>event_operation := ''start_registered_service''\<rparr>) \<and>
   createDetails ''start_registered_service'' ''started'' JUndefined = Inl invalid_details"
proof
  have "''start_registered_service'' \<in> set ADMINISTRATIVE_EVENT_OPERATIONS" by code_simp
  then have "wf_event_input (sample_event\<lparr>event_operation := ''start_registered_service''\<rparr>)"
    using sample_event_wf by (simp add: wf_event_input_def sample_event_def)
  then show "createAdministrativeEventInput (event_input_value (sample_event\<lparr>event_operation := ''start_registered_service''\<rparr>)) =
     Inr (sample_event\<lparr>event_operation := ''start_registered_service''\<rparr>)" by (rule createAdministrativeEventInput_value)
qed (simp add: createDetails_def)

end
