(* ===== verification/Power_Administration.thy ===== *)
theory Power_Administration
  imports Event_History
begin

text \<open>
  The direct operations on the power of the machine (\<open>power-management/application\<close>): schedule, read and
  cancel the wake alarm, request a shutdown, read, preview, set and remove the operating policy, over the
  controllers of the machine and with the audit around each change; and the mock adapters of the wake
  alarm and of the shutdown (\<open>power-management/infrastructure/mock-wake-alarm-state.ts\<close> and others), which are
  what a composition without effects uses.
\<close>

section \<open>Wake alarm schedules\<close>

record WakeAlarmSchedule =
  alarm_scheduledFor :: string

abbreviation WakeAlarmScheduleValidationError :: "string \<Rightarrow> js_error" where
  "WakeAlarmScheduleValidationError \<equiv> NamedError ''WakeAlarmScheduleValidationError''"

definition createWakeAlarmSchedule :: "jsval \<Rightarrow> WakeAlarmSchedule result" where
  "createWakeAlarmSchedule input =
     (if \<not> is_plain_object input then Inl (WakeAlarmScheduleValidationError ''invalid_record'')
      else if \<not> list_all (\<lambda>k. k = ''scheduledFor'') (object_keys input)
      then Inl (WakeAlarmScheduleValidationError ''invalid_field'')
      else if \<not> has_own input ''scheduledFor'' then Inl (WakeAlarmScheduleValidationError ''missing_scheduled_for'')
      else bindR (requireR (WakeAlarmScheduleValidationError ''invalid_scheduled_for'')
                    (canonical_string (get_prop input ''scheduledFor''))) (\<lambda>t.
        Inr \<lparr>alarm_scheduledFor = t\<rparr>))"

text \<open>
  Every caller gives \<open>assertWakeAlarmScheduleIsFuture\<close> the time of a validated schedule, for which the test
  \<open>isComparableTimestamp\<close> succeeds at its first step; the argument is such a schedule here.
\<close>

definition assertWakeAlarmScheduleIsFuture :: "string \<Rightarrow> WakeAlarmSchedule \<Rightarrow> unit result" where
  "assertWakeAlarmScheduleIsFuture requestedAt schedule =
     (if \<not> canonical requestedAt then Inl (WakeAlarmScheduleValidationError ''invalid_requested_at'')
      else if time_of (alarm_scheduledFor schedule) \<le> time_of requestedAt
      then Inl (WakeAlarmScheduleValidationError ''scheduled_for_not_future'') else Inr ())"

section \<open>Use cases\<close>

record 'w WakeAlarmController =
  wc_schedule :: "string \<Rightarrow> string \<Rightarrow> ('w, WakeAlarmMutationResult) io"
  wc_cancel :: "string \<Rightarrow> ('w, WakeAlarmMutationResult) io"

definition audit_option ::
  "'w AuditPort option \<Rightarrow> jsval \<Rightarrow> ('w, 'a) io \<Rightarrow> ('a \<Rightarrow> (string \<times> jsval) list) \<Rightarrow> string \<Rightarrow> ('w, 'a) io" where
  "audit_option audit attempt operation details partialCode =
     (case audit of
        None \<Rightarrow> operation
      | Some port \<Rightarrow>
          audited port attempt operation (\<lambda>_. ''helper_operation_failed'')
            (\<lambda>r. (''succeeded'', literal_obj (details r))) (\<lambda>_. True) partialCode)"

definition attempt_without_details :: "string \<Rightarrow> jsval \<Rightarrow> string \<Rightarrow> jsval" where
  "attempt_without_details at source operation = literal_obj
     [(''occurredAt'', JStr at), (''source'', source), (''target'', MACHINE_AUDIT_TARGET),
      (''operation'', JStr operation)]"

definition ScheduleWakeAlarm_executeAsAuthorized ::
  "'w WakeAlarmController \<Rightarrow> 'w AuditPort option \<Rightarrow> jsval \<Rightarrow> string \<Rightarrow> jsval \<Rightarrow> ('w, WakeAlarmMutationResult) io" where
  "ScheduleWakeAlarm_executeAsAuthorized wc audit input requestedAt source =
     bindIO (liftIO (createWakeAlarmSchedule input)) (\<lambda>schedule.
     bindIO (liftIO (assertWakeAlarmScheduleIsFuture requestedAt schedule)) (\<lambda>_.
     let for = alarm_scheduledFor schedule in
     audit_option audit
       (audit_attempt requestedAt source ''schedule_wake_alarm'' [(''scheduledFor'', JStr for)])
       (wc_schedule wc requestedAt for)
       (\<lambda>r. [(''scheduledFor'', JStr for), (''mutationOutcome'', JStr (literal_name wake_outcomes (wake_outcome r)))])
       ''audit_failed_after_wake_alarm_mutation''))"

definition ScheduleWakeAlarm_execute ::
  "('w, int option) io \<Rightarrow> 'w WakeAlarmController \<Rightarrow> 'w AuditPort option \<Rightarrow> jsval \<Rightarrow> ('w, WakeAlarmMutationResult) io" where
  "ScheduleWakeAlarm_execute clock wc audit input =
     bindIO (liftIO (createWakeAlarmSchedule input)) (\<lambda>schedule.
     bindIO (now_iso clock) (\<lambda>requestedAt.
     bindIO (liftIO (assertWakeAlarmScheduleIsFuture requestedAt schedule)) (\<lambda>_.
     ScheduleWakeAlarm_executeAsAuthorized wc audit input requestedAt DIRECT_POWER_AUDIT_SOURCE)))"

definition CancelWakeAlarm_executeAsAuthorized ::
  "'w WakeAlarmController \<Rightarrow> 'w AuditPort option \<Rightarrow> string \<Rightarrow> jsval \<Rightarrow> ('w, WakeAlarmMutationResult) io" where
  "CancelWakeAlarm_executeAsAuthorized wc audit requestedAt source =
     audit_option audit (attempt_without_details requestedAt source ''cancel_wake_alarm'') (wc_cancel wc requestedAt)
       (\<lambda>r. [(''mutationOutcome'', JStr (literal_name wake_outcomes (wake_outcome r)))])
       ''audit_failed_after_wake_alarm_mutation''"

definition CancelWakeAlarm_execute ::
  "('w, int option) io \<Rightarrow> 'w WakeAlarmController \<Rightarrow> 'w AuditPort option \<Rightarrow> ('w, WakeAlarmMutationResult) io" where
  "CancelWakeAlarm_execute clock wc audit =
     bindIO (now_iso clock) (\<lambda>requestedAt.
     CancelWakeAlarm_executeAsAuthorized wc audit requestedAt DIRECT_POWER_AUDIT_SOURCE)"

definition RequestMachineShutdown_executeAsAuthorized ::
  "(string \<Rightarrow> ('w, MachineShutdownResult) io) \<Rightarrow> 'w AuditPort option \<Rightarrow> string \<Rightarrow> jsval \<Rightarrow> ('w, MachineShutdownResult) io" where
  "RequestMachineShutdown_executeAsAuthorized requestShutdown audit requestedAt source =
     audit_option audit (attempt_without_details requestedAt source ''request_machine_shutdown'')
       (requestShutdown requestedAt) (\<lambda>_. [(''accepted'', JBool True)]) ''audit_failed_after_shutdown_request''"

definition RequestMachineShutdown_execute ::
  "('w, int option) io \<Rightarrow> (string \<Rightarrow> ('w, MachineShutdownResult) io) \<Rightarrow> 'w AuditPort option \<Rightarrow>
     ('w, MachineShutdownResult) io" where
  "RequestMachineShutdown_execute clock requestShutdown audit =
     bindIO (now_iso clock) (\<lambda>requestedAt.
     RequestMachineShutdown_executeAsAuthorized requestShutdown audit requestedAt DIRECT_POWER_AUDIT_SOURCE)"

record WakeAlarmObservation =
  observation_observedAt :: string
  observation_wakeAlarm :: WakeAlarmState

abbreviation WakeAlarmObservationValidationError :: "string \<Rightarrow> js_error" where
  "WakeAlarmObservationValidationError \<equiv> NamedError ''WakeAlarmObservationValidationError''"

definition createWakeAlarmObservation :: "jsval \<Rightarrow> WakeAlarmObservation result" where
  "createWakeAlarmObservation input =
     (if \<not> is_plain_object input then Inl (WakeAlarmObservationValidationError ''invalid_record'')
      else if \<not> list_all (\<lambda>k. k = ''observedAt'' \<or> k = ''wakeAlarm'') (object_keys input)
      then Inl (WakeAlarmObservationValidationError ''invalid_field'')
      else bindR (requireR (WakeAlarmObservationValidationError ''invalid_observed_at'')
                    (canonical_string (get_prop input ''observedAt''))) (\<lambda>at.
        case createWakeAlarmState (get_prop input ''wakeAlarm'') of
          Inl (NamedError name code) \<Rightarrow>
            Inl (if name = ''WakeAlarmStateValidationError''
                 then WakeAlarmObservationValidationError ''invalid_wake_alarm'' else NamedError name code)
        | Inl e \<Rightarrow> Inl e
        | Inr alarm \<Rightarrow> Inr \<lparr>observation_observedAt = at, observation_wakeAlarm = alarm\<rparr>))"

definition GetNextWakeAlarm_executeAt ::
  "(string \<Rightarrow> ('w, WakeAlarmObservation) io) \<Rightarrow> string \<Rightarrow> ('w, WakeAlarmObservation) io" where
  "GetNextWakeAlarm_executeAt reader observedAt =
     (if \<not> canonical observedAt then throwIO (PlainError ''Invalid wake-alarm observation timestamp'')
      else reader observedAt)"

definition GetNextWakeAlarm_execute ::
  "('w, int option) io \<Rightarrow> (string \<Rightarrow> ('w, WakeAlarmObservation) io) \<Rightarrow> ('w, WakeAlarmObservation) io" where
  "GetNextWakeAlarm_execute clock reader = bindIO (now_iso clock) (GetNextWakeAlarm_executeAt reader)"

section \<open>The declared operating policy\<close>

record 'w MachineOperatingPolicyStore =
  ps_find :: "('w, MachineOperatingPolicy option) io"
  ps_save :: "MachineOperatingPolicy \<Rightarrow> ('w, unit) io"
  ps_remove :: "('w, unit) io"

datatype MachineOperatingPolicySource = PolicyPersisted | PolicyEnvironmentDefault

definition GetMachineOperatingPolicy_execute ::
  "MachineOperatingPolicy \<Rightarrow> 'w MachineOperatingPolicyStore option \<Rightarrow>
     ('w, MachineOperatingPolicy \<times> MachineOperatingPolicySource) io" where
  "GetMachineOperatingPolicy_execute environmentDefault store =
     bindIO (case store of None \<Rightarrow> retIO None | Some s \<Rightarrow> ps_find s) (\<lambda>persisted.
     case persisted of
       Some policy \<Rightarrow> retIO (policy, PolicyPersisted)
     | None \<Rightarrow> retIO (environmentDefault, PolicyEnvironmentDefault))"

definition SetMachineOperatingPolicy_execute ::
  "'w MachineOperatingPolicyStore \<Rightarrow> jsval \<Rightarrow> ('w, MachineOperatingPolicy) io" where
  "SetMachineOperatingPolicy_execute store input =
     bindIO (liftIO (createMachineOperatingPolicy input)) (\<lambda>policy.
     bindIO (ps_save store policy) (\<lambda>_. retIO policy))"

definition RemoveMachineOperatingPolicy_execute :: "'w MachineOperatingPolicyStore \<Rightarrow> ('w, unit) io" where
  "RemoveMachineOperatingPolicy_execute store = ps_remove store"

definition PreviewMachineOperatingPolicy_execute ::
  "formatter \<Rightarrow> ('w, int option) io \<Rightarrow> jsval \<Rightarrow> ('w, MachinePowerPlan) io" where
  "PreviewMachineOperatingPolicy_execute fmt clock candidatePolicy =
     bindIO (liftIO (createMachineOperatingPolicy candidatePolicy)) (\<lambda>policy.
     bindIO (now_iso clock) (\<lambda>evaluatedAt.
     liftIO (evaluateMachinePowerPlan fmt policy evaluatedAt)))"

text \<open>\<open>infrastructure/in-memory-machine-operating-policy-store.ts\<close>, whose state is the policy.\<close>

definition in_memory_policy_store :: "MachineOperatingPolicy option MachineOperatingPolicyStore" where
  "in_memory_policy_store =
     \<lparr>ps_find = (\<lambda>p. (Inr p, p)), ps_save = (\<lambda>policy _. (Inr (), Some policy)), ps_remove = (\<lambda>_. (Inr (), None))\<rparr>"

lemma policy_set_then_get:
  assumes "SetMachineOperatingPolicy_execute in_memory_policy_store input p = (Inr policy, p')"
  shows "GetMachineOperatingPolicy_execute environmentDefault (Some in_memory_policy_store) p' =
    (Inr (policy, PolicyPersisted), p')"
  using assms
  by (auto simp: SetMachineOperatingPolicy_execute_def GetMachineOperatingPolicy_execute_def in_memory_policy_store_def
      io_defs split: sum.splits)

lemma policy_removed_is_default:
  "GetMachineOperatingPolicy_execute environmentDefault (Some in_memory_policy_store)
     (snd (RemoveMachineOperatingPolicy_execute in_memory_policy_store p)) =
   (Inr (environmentDefault, PolicyEnvironmentDefault), None)"
  by (simp add: RemoveMachineOperatingPolicy_execute_def GetMachineOperatingPolicy_execute_def
      in_memory_policy_store_def io_defs)

section \<open>The mock wake alarm\<close>

abbreviation UnsupportedWakeAlarmMutationError :: js_error where
  "UnsupportedWakeAlarmMutationError \<equiv> NamedError ''UnsupportedWakeAlarmMutationError'' ''''"

definition create_MockWakeAlarmState :: "jsval \<Rightarrow> WakeAlarmState result" where
  "create_MockWakeAlarmState initialWakeAlarm =
     createWakeAlarmState (if initialWakeAlarm = JUndefined \<or> initialWakeAlarm = JNull
       then literal_obj [(''state'', JStr ''not_scheduled'')] else initialWakeAlarm)"

definition mock_read :: "(WakeAlarmState, WakeAlarmState) io" where
  "mock_read = (\<lambda>alarm. (createWakeAlarmState (wake_state_value alarm), alarm))"

definition mock_mutate :: "WakeOperation \<Rightarrow> string \<Rightarrow> WakeOutcome \<Rightarrow> WakeAlarmState \<Rightarrow> WakeAlarmState \<Rightarrow>
    (WakeAlarmState, WakeAlarmMutationResult) io" where
  "mock_mutate operation requestedAt outcome old new = (\<lambda>alarm.
     case createWakeAlarmMutationResult (wake_value \<lparr>wake_operation = operation, wake_requestedAt = requestedAt,
            wake_outcome = outcome, wake_before = old, wake_after = new\<rparr>) of
       Inl e \<Rightarrow> (Inl e, alarm)
     | Inr r \<Rightarrow> (Inr r, wake_after r))"

definition mock_schedule :: "string \<Rightarrow> string \<Rightarrow> (WakeAlarmState, WakeAlarmMutationResult) io" where
  "mock_schedule requestedAt for =
     bindIO mock_read (\<lambda>old.
     if old = WakeUnsupported then throwIO UnsupportedWakeAlarmMutationError
     else bindIO (liftIO (createWakeAlarmState (wake_state_value (WakeScheduled for)))) (\<lambda>new.
       case new of
         WakeScheduled t \<Rightarrow>
           mock_mutate schedule_wake requestedAt
             (case old of WakeScheduled s \<Rightarrow> if s = t then wake_unchanged else wake_replaced | _ \<Rightarrow> wake_scheduled) old new
       | _ \<Rightarrow> throwIO (PlainError ''Mock wake-alarm state produced an invalid schedule'')))"

definition mock_cancel :: "string \<Rightarrow> (WakeAlarmState, WakeAlarmMutationResult) io" where
  "mock_cancel requestedAt =
     bindIO mock_read (\<lambda>old.
     case old of
       WakeUnsupported \<Rightarrow> throwIO UnsupportedWakeAlarmMutationError
     | WakeScheduled _ \<Rightarrow>
         bindIO (liftIO (createWakeAlarmState (wake_state_value WakeNotScheduled)))
           (mock_mutate cancel_wake requestedAt wake_cancelled old)
     | WakeNotScheduled \<Rightarrow> mock_mutate cancel_wake requestedAt wake_not_scheduled old old)"

definition failing_or :: "js_error option \<Rightarrow> ('w, 'a) io \<Rightarrow> ('w, 'a) io" where
  "failing_or failure call = (case failure of Some e \<Rightarrow> throwIO e | None \<Rightarrow> call)"

definition MockWakeAlarmController :: "js_error option \<Rightarrow> js_error option \<Rightarrow> WakeAlarmState WakeAlarmController" where
  "MockWakeAlarmController scheduleFailure cancelFailure =
     \<lparr>wc_schedule = (\<lambda>at for. failing_or scheduleFailure (mock_schedule at for)),
      wc_cancel = (\<lambda>at. failing_or cancelFailure (mock_cancel at))\<rparr>"

definition MockWakeAlarmReader_read :: "js_error option \<Rightarrow> string \<Rightarrow> (WakeAlarmState, WakeAlarmObservation) io" where
  "MockWakeAlarmReader_read failure observedAt = failing_or failure
     (bindIO mock_read (\<lambda>alarm. liftIO (createWakeAlarmObservation (literal_obj
        [(''observedAt'', JStr observedAt), (''wakeAlarm'', wake_state_value alarm)]))))"

definition MockMachineShutdown_request :: "js_error option \<Rightarrow> string \<Rightarrow> ('w, MachineShutdownResult) io" where
  "MockMachineShutdown_request failure requestedAt = failing_or failure
     (liftIO (createMachineShutdownResult (literal_obj
        [(''operation'', JStr ''shutdown''), (''requestedAt'', JStr requestedAt), (''outcome'', JStr ''simulated'')])))"

lemma createWakeAlarmState_value: "wf_wake_state s \<Longrightarrow> createWakeAlarmState (wake_state_value s) = Inr s"
  by (cases s) (simp_all add: wf_wake_state_def createWakeAlarmState_def literal_simps has_own_def canonical_string_eq)

text \<open>The mock alarm is one optional time: scheduling sets it, cancelling clears it, and each answer is valid.\<close>

lemma mock_schedule_run:
  assumes "wf_wake_state alarm" and "canonical at" and "canonical for"
  shows "\<exists>m. mock_schedule at for alarm = (Inr m, WakeScheduled for) \<and> wf_wake m \<and> wake_operation m = schedule_wake \<and>
    wake_requestedAt m = at \<and> wake_before m = alarm \<and> wake_after m = WakeScheduled for \<and>
    wake_outcome m \<in> {wake_scheduled, wake_replaced, wake_unchanged}"
proof -
  define oc where "oc = (case alarm of WakeScheduled s \<Rightarrow> if s = for then wake_unchanged else wake_replaced | _ \<Rightarrow> wake_scheduled)"
  define m where "m = \<lparr>wake_operation = schedule_wake, wake_requestedAt = at, wake_outcome = oc, wake_before = alarm,
    wake_after = WakeScheduled for\<rparr>"
  have "wf_wake m" using assms by (cases alarm) (auto simp: wf_wake_def m_def oc_def isValidTransition_def wf_wake_state_def)
  moreover from createWake_value[OF this] have "mock_mutate schedule_wake at oc alarm (WakeScheduled for) alarm =
      (Inr m, WakeScheduled for)" by (simp add: mock_mutate_def m_def)
  moreover have "alarm \<noteq> WakeUnsupported" "createWakeAlarmState (wake_state_value (WakeScheduled for)) = Inr (WakeScheduled for)"
    using assms createWakeAlarmState_value[of "WakeScheduled for"] by (auto simp: wf_wake_state_def)
  ultimately have "mock_schedule at for alarm = (Inr m, WakeScheduled for)"
    using createWakeAlarmState_value[OF assms(1)]
    by (simp add: mock_schedule_def mock_read_def io_defs oc_def)
  moreover have "oc \<in> {wake_scheduled, wake_replaced, wake_unchanged}" by (simp add: oc_def split: WakeAlarmState.splits)
  ultimately show ?thesis using \<open>wf_wake m\<close> by (auto simp: m_def)
qed

lemma mock_cancel_run:
  assumes "wf_wake_state alarm" and "canonical at"
  shows "\<exists>m. mock_cancel at alarm = (Inr m, WakeNotScheduled) \<and> wf_wake m \<and> wake_before m = alarm \<and>
    wake_outcome m = (if alarm = WakeNotScheduled then wake_not_scheduled else wake_cancelled)"
proof -
  define m where "m = \<lparr>wake_operation = cancel_wake, wake_requestedAt = at,
    wake_outcome = (if alarm = WakeNotScheduled then wake_not_scheduled else wake_cancelled),
    wake_before = alarm, wake_after = WakeNotScheduled\<rparr>"
  have wf: "wf_wake m"
    using assms by (cases alarm) (auto simp: wf_wake_def m_def isValidTransition_def wf_wake_state_def)
  have "mock_cancel at alarm = (Inr m, WakeNotScheduled)"
    using assms createWake_value[OF wf] createWakeAlarmState_value[OF assms(1)]
      createWakeAlarmState_value[of WakeNotScheduled]
    by (cases alarm) (simp_all add: mock_cancel_def mock_read_def mock_mutate_def io_defs m_def wf_wake_state_def)
  then show ?thesis using wf by (auto simp: m_def)
qed

end
