(* ===== verification/Protected_Administration.thy ===== *)
theory Protected_Administration
  imports Power_Administration Reconciliation
begin

text \<open>
  The protected administration (\<open>access-control/composition/create-protected-administration.ts\<close>): a
  coordinator that authenticates, authorizes and audits before it runs an operation, the wrappers that
  record the beginning and the end of a change, and the facades through which every administrative request
  reaches the use cases of the machine and of the services. The audit of decisions is
  \<open>application/administrative-authorization-audit.ts\<close>.
\<close>

section \<open>The audit of authorization decisions\<close>

record 'w ProtectedPorts =
  pa_now :: "('w, int option) io"
  pa_authenticate :: "('w, jsval) io"
  pa_roles :: "AdministrativePrincipal \<Rightarrow> ('w, RoleAssignment) io"
  pa_record :: "'w recorder"
  pa_generate :: "('w, string) io"

abbreviation AdministrativeAccessControlError :: "string \<Rightarrow> js_error" where
  "AdministrativeAccessControlError \<equiv> NamedError ''AdministrativeAccessControlError''"

definition authorization_record ::
  "'w ProtectedPorts \<Rightarrow> string \<Rightarrow> string option \<Rightarrow> bool \<Rightarrow> jsval \<Rightarrow> string \<Rightarrow> jsval \<Rightarrow> ('w, unit) io" where
  "authorization_record ports operation permission allowed reasonCode at source =
     bindIO (pa_generate ports) (\<lambda>attempt.
     catchIO
       (bindIO (liftIO (createAdministrativeEventInput (literal_obj
           [(''attemptId'', JStr attempt), (''occurredAt'', JStr at), (''source'', source),
            (''target'', MACHINE_AUDIT_TARGET), (''operation'', JStr ''authorize_administrative_operation''),
            (''status'', JStr (if allowed then ''succeeded'' else ''rejected'')),
            (''details'', literal_obj
               ([(''requestedOperation'', JStr operation), (''permission'', opt_value permission),
                 (''decision'', JStr (if allowed then ''allowed'' else ''denied''))] @
                (if js_truthy reasonCode then [(''reasonCode'', reasonCode)] else [])))])))
         (\<lambda>e. bindIO (pa_record ports e) (\<lambda>_. retIO ())))
       (\<lambda>_. throwIO (AdministrativeAccessControlError ''authorization_audit_unavailable'')))"

definition recordDecision ::
  "'w ProtectedPorts \<Rightarrow> AdministrativeAuthorizationDecision \<Rightarrow> jsval \<Rightarrow> ('w, unit) io" where
  "recordDecision ports decision source =
     authorization_record ports (decision_operation decision) (Some (decision_permission decision))
       (decision_outcome decision = Allowed)
       (case decision_outcome decision of Allowed \<Rightarrow> JUndefined | Denied reason \<Rightarrow> JStr reason)
       (decision_evaluatedAt decision) source"

definition recordRejection ::
  "'w ProtectedPorts \<Rightarrow> string \<Rightarrow> string \<Rightarrow> jsval \<Rightarrow> jsval \<Rightarrow> ('w, unit) io" where
  "recordRejection ports operation occurredAt' source reasonCode =
     authorization_record ports operation (permissionForAdministrativeOperation operation) False reasonCode occurredAt' source"

section \<open>The coordinator\<close>

definition auditReasonForAuthenticationFailure :: "jsval \<Rightarrow> string" where
  "auditReasonForAuthenticationFailure reason =
     (if reason = JStr ''credentials_absent'' then ''credentials_absent''
      else if reason = JStr ''key_unavailable'' then ''identity_provider_unavailable''
      else ''credentials_invalid'')"

definition administrative_source :: "string \<Rightarrow> jsval" where
  "administrative_source actor = literal_obj [(''kind'', JStr ''administrative''), (''actorId'', JStr actor)]"

definition sourceForPrincipal :: "AdministrativePrincipal \<Rightarrow> jsval" where
  "sourceForPrincipal p = administrative_source (administrativePrincipalActorId p)"

text \<open>The errors of an operation that reach the caller as they are; every other becomes one error.\<close>

definition passed_messages :: "string list" where
  "passed_messages = [''registered_service_not_found'', ''registered_backup_target_not_found'', ''backup_run_not_found'',
     ''backup_target_disabled'', ''backup_target_not_scheduled'', ''backup_operation_busy'']"

definition passed_classes :: "string list" where
  "passed_classes = [''AdministrativeAuditPartialEffectError'', ''AdministrativeAuditTrailError'',
     ''WakeAlarmScheduleValidationError'', ''BackupTargetValidationError'', ''MachineOperatingPolicyValidationError'',
     ''MachineWeeklyOperatingScheduleValidationError'', ''MachineShutdownOccurrenceExecutionError'']"

fun passes_through :: "js_error \<Rightarrow> bool" where
  "passes_through (NamedError name message) = (name \<in> set passed_classes \<or> message \<in> set passed_messages)"
| "passes_through (PlainError message) = (message \<in> set passed_messages)"
| "passes_through RegisteredServiceNotFoundError = True"
| "passes_through ServiceAvailabilityPolicyValidationError = True"
| "passes_through (ServiceAvailabilityModeValidationError _) = True"
| "passes_through (ServiceScheduleValidationError _) = True"
| "passes_through ServiceScheduleTimezoneValidationError = True"
| "passes_through _ = False"

definition run_invoke :: "('w, 'a) io \<Rightarrow> ('w, 'a) io" where
  "run_invoke invoke = catchIO invoke
     (\<lambda>e. throwIO (if passes_through e then e else AdministrativeAccessControlError ''protected_operation_failed''))"

definition run_decided ::
  "'w ProtectedPorts \<Rightarrow> string \<Rightarrow> string \<Rightarrow> AdministrativePrincipal \<Rightarrow> (string \<Rightarrow> jsval \<Rightarrow> ('w, 'a) io) \<Rightarrow> ('w, 'a) io" where
  "run_decided ports operation evaluatedAt p invoke =
     bindIO (catchIO (AuthorizeAdministrativeOperation_execute (pa_roles ports) (principal_value p) (JStr operation) evaluatedAt)
               (\<lambda>_. throwIO (AdministrativeAccessControlError ''administrative_authorization_unavailable''))) (\<lambda>decision.
     bindIO (catchIO (recordDecision ports decision (sourceForPrincipal p))
               (\<lambda>_. throwIO (AdministrativeAccessControlError ''authorization_audit_unavailable''))) (\<lambda>_.
     case decision_outcome decision of
       Denied reason \<Rightarrow> throwIO (AdministrativeAccessControlError
         (if reason = ''role_assignment_unavailable'' \<or> reason = ''authorization_policy_unavailable''
          then ''administrative_authorization_unavailable'' else ''administrative_authorization_denied''))
     | Allowed \<Rightarrow> run_invoke (invoke evaluatedAt (sourceForPrincipal p))))"

definition run_refused :: "'w ProtectedPorts \<Rightarrow> string \<Rightarrow> string \<Rightarrow> string \<Rightarrow> string \<Rightarrow> ('w, 'a) io" where
  "run_refused ports operation evaluatedAt reason code =
     bindIO (catchIO (recordRejection ports operation evaluatedAt (administrative_source ''unauthenticated'') (JStr reason))
               (\<lambda>_. throwIO (AdministrativeAccessControlError ''authorization_audit_unavailable''))) (\<lambda>_.
     throwIO (AdministrativeAccessControlError code))"

definition run ::
  "'w ProtectedPorts \<Rightarrow> string \<Rightarrow> (string \<Rightarrow> jsval \<Rightarrow> ('w, 'a) io) \<Rightarrow> (string \<Rightarrow> unit result) option \<Rightarrow> ('w, 'a) io" where
  "run ports operation invoke validate =
     bindIO (now_iso (pa_now ports)) (\<lambda>evaluatedAt.
     bindIO (liftIO (case validate of None \<Rightarrow> Inr () | Some test \<Rightarrow> test evaluatedAt)) (\<lambda>_.
     bindIO (AuthenticateAdministrativeRequest_execute (pa_authenticate ports)) (\<lambda>authentication.
     case authentication of
       AuthenticationUnavailable \<Rightarrow>
         run_refused ports operation evaluatedAt ''identity_provider_unavailable'' ''administrative_identity_unavailable''
     | Unauthenticated reason \<Rightarrow>
         run_refused ports operation evaluatedAt (auditReasonForAuthenticationFailure reason)
           ''administrative_authentication_required''
     | Authenticated p \<Rightarrow> run_decided ports operation evaluatedAt p invoke)))"

section \<open>Recorded changes\<close>

definition is_partial_effect :: "js_error \<Rightarrow> bool" where
  "is_partial_effect e = (case e of NamedError name _ \<Rightarrow> name = ''AdministrativeAuditPartialEffectError'' | _ \<Rightarrow> False)"

text \<open>
  The body that the four wrappers of changes repeat: an attempt is recorded before the change, its end
  after it. A change that succeeded and cannot be recorded is a partial effect; one that failed is
  recorded as failed, and the failure to record that replaces the error. The error of a partial effect
  carries the result of the change in the code, and only its name and code here.
\<close>

definition recorded_change ::
  "'w AuditPort \<Rightarrow> jsval \<Rightarrow> (string \<times> jsval) list \<Rightarrow> (string \<times> jsval) list \<Rightarrow> string \<Rightarrow> ('w, 'a) io \<Rightarrow> ('w, 'a) io" where
  "recorded_change audit attemptInput success failure partialCode invoke =
     bindIO (audit_begin audit attemptInput) (\<lambda>attempt.
     catchIO
       (bindIO invoke (\<lambda>result.
        bindIO (catchIO (audit_complete audit attempt ''succeeded'' (literal_obj success))
                  (\<lambda>_. throwIO (NamedError ''AdministrativeAuditPartialEffectError'' partialCode))) (\<lambda>_.
        retIO result)))
       (\<lambda>e. if is_partial_effect e then throwIO e
            else bindIO (catchIO (audit_complete audit attempt ''failed'' (literal_obj failure))
                           (\<lambda>_. throwIO AdministrativeAuditTrailError)) (\<lambda>_. throwIO e)))"

definition operationAudit :: "'w ProtectedPorts \<Rightarrow> 'w AuditPort" where
  "operationAudit ports = audit_trail (pa_record ports) (pa_generate ports)"

definition runServiceMutation :: "'w ProtectedPorts \<Rightarrow> string \<Rightarrow> string \<Rightarrow> ('w, 'a) io \<Rightarrow> ('w, 'a) io" where
  "runServiceMutation ports operation sid invoke =
     run ports operation (\<lambda>at source.
       recorded_change (operationAudit ports) (audit_attempt at source operation [(''serviceId'', JStr sid)])
         [(''serviceId'', JStr sid), (''outcome'', JStr ''succeeded'')]
         [(''serviceId'', JStr sid), (''failureCode'', JStr ''service_failed'')]
         ''audit_failed_after_service_operation'' invoke) None"

definition runBackupMutation :: "'w ProtectedPorts \<Rightarrow> string \<Rightarrow> string \<Rightarrow> ('w, 'a) io \<Rightarrow> ('w, 'a) io" where
  "runBackupMutation ports operation targetId' invoke =
     run ports operation (\<lambda>at source.
       recorded_change (operationAudit ports) (audit_attempt at source operation [(''targetId'', JStr targetId')])
         [(''targetId'', JStr targetId'), (''outcome'', JStr ''succeeded'')]
         [(''targetId'', JStr targetId'), (''failureCode'', JStr ''backup_operation_failed'')]
         ''audit_failed_after_backup_operation'' invoke) None"

definition runMachineScheduleMutation :: "'w ProtectedPorts \<Rightarrow> string \<Rightarrow> ('w, 'a) io \<Rightarrow> ('w, 'a) io" where
  "runMachineScheduleMutation ports operation invoke =
     run ports operation (\<lambda>at source.
       recorded_change (operationAudit ports) (audit_attempt at source operation [])
         [(''outcome'', JStr ''succeeded'')] [(''failureCode'', JStr ''machine_schedule_operation_failed'')]
         ''audit_failed_after_machine_schedule_operation'' invoke) None"

definition history_permission_operation :: "string \<Rightarrow> string" where
  "history_permission_operation operation =
     (if operation = ''rotate_administrative_event_history'' then ''rotate_event_history''
      else if operation = ''update_administrative_event_history_retention'' then ''update_event_history_retention''
      else if operation = ''prune_administrative_event_history'' then ''prune_event_history''
      else if operation = ''create_administrative_event_history_export'' then ''create_event_history_export''
      else ''prune_event_history_exports'')"

definition runEventHistoryMutation ::
  "'w ProtectedPorts \<Rightarrow> string \<Rightarrow> ('w, 'a) io \<Rightarrow> jsval \<Rightarrow> ('w, 'a) io" where
  "runEventHistoryMutation ports operation invoke details =
     run ports (history_permission_operation operation) (\<lambda>at source.
       recorded_change (operationAudit ports)
         (literal_obj [(''occurredAt'', JStr at), (''source'', source), (''target'', MACHINE_AUDIT_TARGET),
            (''operation'', JStr operation), (''details'', details)])
         [(''outcome'', JStr ''succeeded'')] [(''failureCode'', JStr ''administrative_audit_failed'')]
         ''audit_failed_after_event_history_operation'' invoke) None"

text \<open>The tick of the backup scheduler has a wrapper of its own: its completion is inside the \<open>try\<close>.\<close>

definition protected_runBackupSchedulerTick :: "'w ProtectedPorts \<Rightarrow> ('w, 'a) io \<Rightarrow> ('w, 'a) io" where
  "protected_runBackupSchedulerTick ports invoke =
     run ports ''run_backup_scheduler_tick'' (\<lambda>at source.
       bindIO (audit_begin (operationAudit ports) (audit_attempt at source ''run_backup_scheduler_tick'' [])) (\<lambda>attempt.
       catchIO
         (bindIO invoke (\<lambda>result.
          bindIO (audit_complete (operationAudit ports) attempt ''succeeded'' (literal_obj [(''outcome'', JStr ''succeeded'')])) (\<lambda>_.
          retIO result)))
         (\<lambda>e. bindIO (catchIO (audit_complete (operationAudit ports) attempt ''failed''
                                (literal_obj [(''failureCode'', JStr ''backup_operation_failed'')]))
                        (\<lambda>_. throwIO AdministrativeAuditTrailError)) (\<lambda>_. throwIO e)))) None"

section \<open>Facades\<close>

text \<open>
  The capabilities a request may use, over the use cases of the components. \<open>machine\<close> and \<open>services\<close> are
  absent in a composition without them.
\<close>

definition require_composed :: "string \<Rightarrow> 'c option \<Rightarrow> ('c \<Rightarrow> ('w, 'a) io) \<Rightarrow> ('w, 'a) io" where
  "require_composed message capabilities f =
     (case capabilities of None \<Rightarrow> throwIO (PlainError message) | Some c \<Rightarrow> f c)"

record 'w PowerCapabilities =
  pc_wake :: "'w WakeAlarmController"
  pc_reader :: "string \<Rightarrow> ('w, WakeAlarmObservation) io"
  pc_shutdown :: "string \<Rightarrow> ('w, MachineShutdownResult) io"
  pc_audit :: "'w AuditPort option"
  pc_preparation :: "'w PreparationControllers"
  pc_readiness :: "'w ReadinessReaders"
  pc_execution :: "'w ExecutionPorts"
  pc_tick :: "'w TickPorts"

abbreviation require_power :: "'w PowerCapabilities option \<Rightarrow> ('w PowerCapabilities \<Rightarrow> ('w, 'a) io) \<Rightarrow> ('w, 'a) io" where
  "require_power \<equiv> require_composed ''Power-management composition is unavailable''"

definition protected_getNextWakeAlarm ::
  "'w ProtectedPorts \<Rightarrow> 'w PowerCapabilities option \<Rightarrow> ('w, WakeAlarmObservation) io" where
  "protected_getNextWakeAlarm ports machine =
     run ports ''read_wake_alarm'' (\<lambda>at _. require_power machine (\<lambda>c. GetNextWakeAlarm_executeAt (pc_reader c) at)) None"

definition protected_scheduleWakeAlarm ::
  "'w ProtectedPorts \<Rightarrow> 'w PowerCapabilities option \<Rightarrow> jsval \<Rightarrow> ('w, WakeAlarmMutationResult) io" where
  "protected_scheduleWakeAlarm ports machine input =
     run ports ''schedule_wake_alarm''
       (\<lambda>at source. require_power machine (\<lambda>c.
          ScheduleWakeAlarm_executeAsAuthorized (pc_wake c) (pc_audit c) input at source))
       (Some (\<lambda>at. bindR (createWakeAlarmSchedule input) (assertWakeAlarmScheduleIsFuture at)))"

definition protected_cancelWakeAlarm ::
  "'w ProtectedPorts \<Rightarrow> 'w PowerCapabilities option \<Rightarrow> ('w, WakeAlarmMutationResult) io" where
  "protected_cancelWakeAlarm ports machine =
     run ports ''cancel_wake_alarm'' (\<lambda>at source. require_power machine (\<lambda>c.
       CancelWakeAlarm_executeAsAuthorized (pc_wake c) (pc_audit c) at source)) None"

definition protected_requestMachineShutdown ::
  "'w ProtectedPorts \<Rightarrow> 'w PowerCapabilities option \<Rightarrow> ('w, MachineShutdownResult) io" where
  "protected_requestMachineShutdown ports machine =
     run ports ''request_machine_shutdown'' (\<lambda>at source. require_power machine (\<lambda>c.
       RequestMachineShutdown_executeAsAuthorized (pc_shutdown c) (pc_audit c) at source)) None"

definition protected_prepareMachineShutdownOccurrence ::
  "'w ProtectedPorts \<Rightarrow> 'w PowerCapabilities option \<Rightarrow> 'w confirmation_reader option \<Rightarrow> jsval \<Rightarrow>
     ('w, MachineShutdownPreparationReport) io" where
  "protected_prepareMachineShutdownOccurrence ports machine confirmationReader input =
     run ports ''prepare_machine_shutdown_occurrence'' (\<lambda>at source. require_power machine (\<lambda>c.
       prepare_executeAsAuthorized (pc_preparation c) (pc_readiness c) (pc_audit c) input at source confirmationReader)) None"

definition protected_executeMachineShutdownOccurrence ::
  "'w ProtectedPorts \<Rightarrow> 'w PowerCapabilities option \<Rightarrow> 'w confirmation_reader option \<Rightarrow> jsval \<Rightarrow>
     ('w, MachineShutdownOccurrenceExecutionResult) io" where
  "protected_executeMachineShutdownOccurrence ports machine confirmationReader input =
     run ports ''execute_machine_shutdown_occurrence'' (\<lambda>at source. require_power machine (\<lambda>c.
       executeAt (pc_execution c) input at source
         (case confirmationReader of None \<Rightarrow> default_options
          | Some reader \<Rightarrow> \<lparr>opt_confirmationReader = Some reader, opt_automaticallyPrepare = False\<rparr>))) None"

definition protected_runMachinePowerSchedulerTick ::
  "formatter \<Rightarrow> MachineOperatingPolicy \<Rightarrow> 'w ProtectedPorts \<Rightarrow> 'w PowerCapabilities option \<Rightarrow>
     ('w, MachinePowerSchedulerResult) io" where
  "protected_runMachinePowerSchedulerTick fmt policy ports machine =
     run ports ''run_machine_power_scheduler_tick'' (\<lambda>at source. require_power machine (\<lambda>c.
       tick_executeAsAuthorized fmt policy (pc_tick c) at source)) None"

abbreviation require_store ::
  "'w MachineOperatingPolicyStore option \<Rightarrow> ('w MachineOperatingPolicyStore \<Rightarrow> ('w, 'a) io) \<Rightarrow> ('w, 'a) io" where
  "require_store \<equiv> require_composed ''Machine operating policy persistence is unavailable''"

definition protected_getMachineOperatingPolicy ::
  "'w ProtectedPorts \<Rightarrow> MachineOperatingPolicy \<Rightarrow> 'w MachineOperatingPolicyStore option \<Rightarrow>
     ('w, MachineOperatingPolicy \<times> MachineOperatingPolicySource) io" where
  "protected_getMachineOperatingPolicy ports environmentDefault store =
     run ports ''read_machine_operating_policy'' (\<lambda>_ _. GetMachineOperatingPolicy_execute environmentDefault store) None"

definition protected_previewMachineOperatingPolicy ::
  "formatter \<Rightarrow> 'w ProtectedPorts \<Rightarrow> jsval \<Rightarrow> ('w, MachinePowerPlan) io" where
  "protected_previewMachineOperatingPolicy fmt ports candidate =
     run ports ''read_machine_operating_policy_preview''
       (\<lambda>_ _. PreviewMachineOperatingPolicy_execute fmt (pa_now ports) candidate) None"

definition protected_setMachineOperatingPolicy ::
  "'w ProtectedPorts \<Rightarrow> 'w MachineOperatingPolicyStore option \<Rightarrow> jsval \<Rightarrow> ('w, MachineOperatingPolicy) io" where
  "protected_setMachineOperatingPolicy ports store input =
     runMachineScheduleMutation ports ''update_machine_operating_policy''
       (require_store store (\<lambda>s. SetMachineOperatingPolicy_execute s input))"

definition protected_removeMachineOperatingPolicy ::
  "'w ProtectedPorts \<Rightarrow> MachineOperatingPolicy \<Rightarrow> 'w MachineOperatingPolicyStore option \<Rightarrow>
     ('w, MachineOperatingPolicy \<times> MachineOperatingPolicySource) io" where
  "protected_removeMachineOperatingPolicy ports environmentDefault store =
     runMachineScheduleMutation ports ''remove_machine_operating_policy''
       (require_store store (\<lambda>s. bindIO (RemoveMachineOperatingPolicy_execute s) (\<lambda>_.
          GetMachineOperatingPolicy_execute environmentDefault store)))"

record 'w ServiceCapabilities =
  sc_orchestration :: "'w OrchestrationPorts"
  sc_reconciliation :: "'w ReconciliationPorts"

abbreviation require_services :: "'w ServiceCapabilities option \<Rightarrow> ('w ServiceCapabilities \<Rightarrow> ('w, 'a) io) \<Rightarrow> ('w, 'a) io" where
  "require_services \<equiv> require_composed ''Service-management composition is unavailable''"

text \<open>\<open>start\<close>, \<open>stop\<close> and \<open>restart\<close> of a service differ in the operation they name and ask for.\<close>

definition protected_control ::
  "'w ProtectedPorts \<Rightarrow> 'w ServiceCapabilities option \<Rightarrow> SupportedServiceOperation \<Rightarrow> string \<Rightarrow> ('w, OrchestrationResult) io" where
  "protected_control ports services operation sid =
     runServiceMutation ports
       (case operation of start \<Rightarrow> ''start_registered_service'' | stop \<Rightarrow> ''stop_registered_service''
        | restart \<Rightarrow> ''restart_registered_service'') sid
       (require_services services (\<lambda>c. orchestrate_execute (sc_orchestration c) sid operation manual_authority))"

definition protected_setAvailability ::
  "'w ProtectedPorts \<Rightarrow> 'w ServiceCapabilities option \<Rightarrow> string \<Rightarrow> jsval \<Rightarrow> ('w, ServiceAvailabilityOverride) io" where
  "protected_setAvailability ports services sid input =
     runServiceMutation ports ''update_registered_service_availability'' sid
       (require_services services (\<lambda>c. SetOverride_execute (sc_reconciliation c) sid input))"

definition protected_removeAvailability ::
  "'w ProtectedPorts \<Rightarrow> 'w ServiceCapabilities option \<Rightarrow> string \<Rightarrow> ('w, unit) io" where
  "protected_removeAvailability ports services sid =
     runServiceMutation ports ''remove_registered_service_availability'' sid
       (require_services services (\<lambda>c. CancelOverride_execute (sc_reconciliation c) sid))"

definition protected_setSchedule ::
  "'w ProtectedPorts \<Rightarrow> 'w ServiceCapabilities option \<Rightarrow> string \<Rightarrow> jsval \<Rightarrow> ('w, ServiceAvailabilityPolicy) io" where
  "protected_setSchedule ports services sid input =
     runServiceMutation ports ''update_registered_service_schedule'' sid
       (require_services services (\<lambda>c. UpdatePolicy_execute (sc_reconciliation c) sid input))"

definition listed_service :: "'w ReconciliationPorts \<Rightarrow> string \<Rightarrow> ('w, RegisteredService) io" where
  "listed_service rc sid =
     bindIO (rc_list rc) (\<lambda>services.
     case find (\<lambda>s. service_id s = sid) services of
       None \<Rightarrow> throwIO (PlainError ''registered_service_not_found'') | Some s \<Rightarrow> retIO s)"

definition protected_removeSchedule ::
  "'w ProtectedPorts \<Rightarrow> 'w ServiceCapabilities option \<Rightarrow> string \<Rightarrow> ('w, ServiceAvailabilityPolicy) io" where
  "protected_removeSchedule ports services sid =
     runServiceMutation ports ''remove_registered_service_schedule'' sid
       (require_services services (\<lambda>c.
          bindIO (listed_service (sc_reconciliation c) sid) (\<lambda>service.
          bindIO (RemovePolicy_execute (sc_reconciliation c) sid) (\<lambda>_.
          retIO (availabilityPolicy service)))))"

definition protected_getSchedule ::
  "'w ProtectedPorts \<Rightarrow> 'w ServiceCapabilities option \<Rightarrow> string \<Rightarrow> ('w, ServiceAvailabilityPolicy \<times> string) io" where
  "protected_getSchedule ports services sid =
     run ports ''read_registered_service_schedule'' (\<lambda>observedAt _. require_services services (\<lambda>c.
       bindIO (listed_service (sc_reconciliation c) sid) (\<lambda>service.
       retIO (availabilityPolicy service, observedAt)))) None"

definition protected_getAvailability ::
  "formatter \<Rightarrow> 'w ProtectedPorts \<Rightarrow> 'w ServiceCapabilities option \<Rightarrow> string \<Rightarrow>
     ('w, ServiceAvailabilityPolicy \<times> (ServiceAvailabilityExpectation \<times> ServiceAvailabilityOverride option) \<times> string) io" where
  "protected_getAvailability fmt ports services sid =
     run ports ''read_registered_service_availability'' (\<lambda>observedAt _. require_services services (\<lambda>c.
       bindIO (listed_service (sc_reconciliation c) sid) (\<lambda>service.
       bindIO (resolve_availability fmt (sc_reconciliation c) sid) (\<lambda>availability.
       retIO (availabilityPolicy service, availability, observedAt))))) None"

definition protected_getEventHistory ::
  "'w ProtectedPorts \<Rightarrow> (jsval \<Rightarrow> ('w, AdministrativeEventHistoryPage) io) \<Rightarrow> jsval \<Rightarrow>
     ('w, AdministrativeEventHistoryPage) io" where
  "protected_getEventHistory ports query input =
     run ports ''read_administrative_event_history'' (\<lambda>_ _. query input) None"

section \<open>Operations on the history\<close>

text \<open>
  The operations of the segmented store (\<open>application/ports/administrative-event-history-operations.ts\<close>).
  The store itself works on files and is not modelled, apart from the test of an export request
  (\<open>parseExportRequest\<close>).
\<close>

record 'w HistoryOperations =
  ho_verifyIntegrity :: "('w, jsval) io"
  ho_rotate :: "('w, jsval) io"
  ho_getRetentionSummary :: "('w, jsval) io"
  ho_setRetentionPolicy :: "jsval \<Rightarrow> ('w, jsval) io"
  ho_pruneSegments :: "('w, jsval) io"
  ho_listExports :: "('w, jsval) io"
  ho_createExport :: "jsval \<Rightarrow> ('w, jsval) io"
  ho_getExport :: "string \<Rightarrow> ('w, jsval) io"
  ho_readExport :: "string \<Rightarrow> ('w, jsval) io"
  ho_pruneExports :: "('w, jsval) io"

abbreviation require_history :: "'w HistoryOperations option \<Rightarrow> ('w HistoryOperations \<Rightarrow> ('w, 'a) io) \<Rightarrow> ('w, 'a) io" where
  "require_history \<equiv> require_composed ''Event-history operational composition is unavailable''"

definition parseExportRequest :: "jsval \<Rightarrow> (int \<times> int) result" where
  "parseExportRequest input =
     (let invalid = NamedError ''SegmentedEventHistoryError'' ''event_history_export_corrupt'' in
      if \<not> is_object input \<or> length (own_keys input) \<noteq> 2 then Inl invalid
      else bindR (requireR invalid (bounded_int 1 9007199254740991 (get_prop input ''fromSequence''))) (\<lambda>fromSequence.
        bindR (requireR invalid (bounded_int 1 9007199254740991 (get_prop input ''throughSequence''))) (\<lambda>throughSequence.
        Inr (fromSequence, throughSequence))))"

definition protected_verifyEventHistoryIntegrity :: "'w ProtectedPorts \<Rightarrow> 'w HistoryOperations option \<Rightarrow> ('w, jsval) io" where
  "protected_verifyEventHistoryIntegrity ports history =
     run ports ''verify_event_history_integrity'' (\<lambda>_ _. require_history history ho_verifyIntegrity) None"

definition protected_rotateEventHistory :: "'w ProtectedPorts \<Rightarrow> 'w HistoryOperations option \<Rightarrow> ('w, jsval) io" where
  "protected_rotateEventHistory ports history =
     runEventHistoryMutation ports ''rotate_administrative_event_history'' (require_history history ho_rotate) (literal_obj [])"

definition protected_getEventHistoryRetention :: "'w ProtectedPorts \<Rightarrow> 'w HistoryOperations option \<Rightarrow> ('w, jsval) io" where
  "protected_getEventHistoryRetention ports history =
     run ports ''read_event_history_retention'' (\<lambda>_ _. require_history history ho_getRetentionSummary) None"

definition protected_setEventHistoryRetention ::
  "'w ProtectedPorts \<Rightarrow> 'w HistoryOperations option \<Rightarrow> jsval \<Rightarrow> ('w, jsval) io" where
  "protected_setEventHistoryRetention ports history policy =
     runEventHistoryMutation ports ''update_administrative_event_history_retention''
       (require_history history (\<lambda>h. ho_setRetentionPolicy h policy)) (literal_obj [])"

definition protected_pruneEventHistory :: "'w ProtectedPorts \<Rightarrow> 'w HistoryOperations option \<Rightarrow> ('w, jsval) io" where
  "protected_pruneEventHistory ports history =
     runEventHistoryMutation ports ''prune_administrative_event_history'' (require_history history ho_pruneSegments) (literal_obj [])"

definition protected_listEventHistoryExports :: "'w ProtectedPorts \<Rightarrow> 'w HistoryOperations option \<Rightarrow> ('w, jsval) io" where
  "protected_listEventHistoryExports ports history =
     run ports ''list_event_history_exports'' (\<lambda>_ _. require_history history ho_listExports) None"

definition protected_getEventHistoryExport ::
  "'w ProtectedPorts \<Rightarrow> 'w HistoryOperations option \<Rightarrow> string \<Rightarrow> ('w, jsval) io" where
  "protected_getEventHistoryExport ports history exportId =
     run ports ''read_event_history_export'' (\<lambda>_ _. require_history history (\<lambda>h.
       bindIO (ho_getExport h exportId) (\<lambda>v.
       if v = JUndefined then throwIO (PlainError ''event_history_export_not_found'') else retIO v))) None"

fun typeof_object :: "jsval \<Rightarrow> bool" where
  "typeof_object (JArr _) = True"
| "typeof_object v = is_object v"

definition protected_createEventHistoryExport ::
  "'w ProtectedPorts \<Rightarrow> 'w HistoryOperations option \<Rightarrow> jsval \<Rightarrow> ('w, jsval) io" where
  "protected_createEventHistoryExport ports history request =
     runEventHistoryMutation ports ''create_administrative_event_history_export''
       (require_history history (\<lambda>h. ho_createExport h request))
       (if typeof_object request then request else literal_obj [])"

definition protected_downloadEventHistoryExport ::
  "'w ProtectedPorts \<Rightarrow> 'w HistoryOperations option \<Rightarrow> string \<Rightarrow> ('w, jsval) io" where
  "protected_downloadEventHistoryExport ports history exportId =
     run ports ''download_event_history_export'' (\<lambda>_ _. require_history history (\<lambda>h. ho_readExport h exportId)) None"

definition protected_pruneEventHistoryExports :: "'w ProtectedPorts \<Rightarrow> 'w HistoryOperations option \<Rightarrow> ('w, jsval) io" where
  "protected_pruneEventHistoryExports ports history =
     runEventHistoryMutation ports ''prune_administrative_event_history_exports'' (require_history history ho_pruneExports) (literal_obj [])"

end
