(* ===== verification/Protection_Safety.thy ===== *)
theory Protection_Safety
  imports Protected_Administration
begin

text \<open>
  What the coordinator of the protected administration guarantees.
\<close>

section \<open>Authorization events\<close>

definition administrative_event ::
  "string \<Rightarrow> string \<Rightarrow> string \<Rightarrow> string \<Rightarrow> string \<Rightarrow> jsval \<Rightarrow> AdministrativeEventInput" where
  "administrative_event attempt at actor operation status details =
     \<lparr>attemptId = attempt, occurredAt = at,
      event_source = \<lparr>source_kind = ''administrative'', actorId = actor\<rparr>,
      event_target = \<lparr>target_kind = ''machine'', target_id = ''atlas''\<rparr>,
      event_operation = operation, event_status = status, event_details = Some details\<rparr>"

definition authorization_event ::
  "string \<Rightarrow> string option \<Rightarrow> string \<Rightarrow> string \<Rightarrow> string \<Rightarrow> AdministrativeEventInput" where
  "authorization_event operation refusal at actor attempt =
     administrative_event attempt at actor ''authorize_administrative_operation''
       (case refusal of None \<Rightarrow> ''succeeded'' | Some _ \<Rightarrow> ''rejected'')
       (literal_obj
          ([(''requestedOperation'', JStr operation), (''permission'', opt_value (permissionForAdministrativeOperation operation)),
            (''decision'', JStr (case refusal of None \<Rightarrow> ''allowed'' | Some _ \<Rightarrow> ''denied''))] @
           (case refusal of None \<Rightarrow> [] | Some reason \<Rightarrow> [(''reasonCode'', JStr reason)])))"

text \<open>An event as the audit builds it is accepted exactly if its attempt id, time, actor and details are.\<close>

lemma createSource_administrative:
  "valid_source ''administrative'' actor \<Longrightarrow>
   createSource (administrative_source actor) = Inr \<lparr>source_kind = ''administrative'', actorId = actor\<rparr>"
  by (simp add: createSource_def administrative_source_def requireRecord_def assertFields_def ownKeys_literal
      detail_literals requireR_def)

lemma createTarget_machine: "createTarget MACHINE_AUDIT_TARGET = Inr \<lparr>target_kind = ''machine'', target_id = ''atlas''\<rparr>"
  by (simp add: createTarget_def MACHINE_AUDIT_TARGET_def requireRecord_def assertFields_def ownKeys_literal detail_literals)

lemma event_accepted:
  assumes "fst ` set kvs = {''attemptId'', ''occurredAt'', ''source'', ''target'', ''operation'', ''status'', ''details''}"
    and "length kvs = 7"
    and "map_of kvs ''attemptId'' = Some (JStr attempt)" and "map_of kvs ''occurredAt'' = Some (JStr at)"
    and "map_of kvs ''source'' = Some (administrative_source actor)" and "map_of kvs ''target'' = Some MACHINE_AUDIT_TARGET"
    and "map_of kvs ''operation'' = Some (JStr operation)" and "map_of kvs ''status'' = Some (JStr status)"
    and "map_of kvs ''details'' = Some details"
    and "canonical at" and "valid_source ''administrative'' actor"
    and "operation \<in> set ADMINISTRATIVE_EVENT_OPERATIONS" and "status \<in> set ADMINISTRATIVE_EVENT_STATUSES"
    and "createDetails operation status details = Inr (Some details)"
  shows "createAdministrativeEventInput (literal_obj kvs) =
    (if CANONICAL_UUID attempt then Inr (administrative_event attempt at actor operation status details)
     else Inl (event_error ''invalid_attempt_id''))"
proof -
  have "canonical_string (JStr at) = Some at" using assms(10) by (simp add: canonical_string_eq)
  moreover have "isAttemptId (JStr attempt) = (if CANONICAL_UUID attempt then Some attempt else None)"
    by (simp add: isAttemptId_def)
  ultimately show ?thesis
    using assms
    by (simp add: createAdministrativeEventInput_def requireRecord_def assertFields_def ownKeys_literal
      detail_literals requireR_def createSource_administrative createTarget_machine administrative_event_def)
qed


lemma valid_actors:
  "valid_source ''administrative'' ''unauthenticated''"
  "wf_principal p \<Longrightarrow> valid_source ''administrative'' (administrativePrincipalActorId p)"
  by (cases "principal_kind p"; simp add: valid_source_def wf_principal_def administrativePrincipalActorId_def
      isCanonicalAdministrativePrincipalId_def Let_def)+

lemma audit_vocabulary:
  "''authorize_administrative_operation'' \<in> set ADMINISTRATIVE_EVENT_OPERATIONS"
  "''started'' \<in> set ADMINISTRATIVE_EVENT_STATUSES" "''succeeded'' \<in> set ADMINISTRATIVE_EVENT_STATUSES"
  "''rejected'' \<in> set ADMINISTRATIVE_EVENT_STATUSES" "''failed'' \<in> set ADMINISTRATIVE_EVENT_STATUSES"
  by (simp_all add: ADMINISTRATIVE_EVENT_OPERATIONS_def ADMINISTRATIVE_EVENT_STATUSES_def)

lemma literal_not_undefined: "literal_obj ps \<noteq> JUndefined"
  by (simp add: literal_obj_def)

lemma authorization_details:
  assumes "op \<in> set ADMINISTRATIVE_OPERATIONS" and "permissionForAdministrativeOperation op = Some perm"
  shows "createDetails ''authorize_administrative_operation'' ''succeeded'' (literal_obj
      [(''requestedOperation'', JStr op), (''permission'', JStr perm), (''decision'', JStr ''allowed'')]) =
    Inr (Some (literal_obj
      [(''requestedOperation'', JStr op), (''permission'', JStr perm), (''decision'', JStr ''allowed'')]))"
   "reason \<in> set ADMINISTRATIVE_AUTHORIZATION_REASON_CODES \<Longrightarrow>
    createDetails ''authorize_administrative_operation'' ''rejected'' (literal_obj
      [(''requestedOperation'', JStr op), (''permission'', JStr perm), (''decision'', JStr ''denied''),
       (''reasonCode'', JStr reason)]) =
    Inr (Some (literal_obj
      [(''requestedOperation'', JStr op), (''permission'', JStr perm), (''decision'', JStr ''denied''),
       (''reasonCode'', JStr reason)]))"
proof -
  have perm: "perm \<in> set ADMINISTRATIVE_PERMISSIONS" using operation_permission[OF assms(1)] assms(2) by force
  note made = createDetails_def details_of_def authorize_details_def requireRecord_def requireName_def detail_literals
    literal_not_undefined
  show "createDetails ''authorize_administrative_operation'' ''succeeded'' (literal_obj
      [(''requestedOperation'', JStr op), (''permission'', JStr perm), (''decision'', JStr ''allowed'')]) =
    Inr (Some (literal_obj
      [(''requestedOperation'', JStr op), (''permission'', JStr perm), (''decision'', JStr ''allowed'')]))"
    using assms perm by (simp add: made)
  show "createDetails ''authorize_administrative_operation'' ''rejected'' (literal_obj
      [(''requestedOperation'', JStr op), (''permission'', JStr perm), (''decision'', JStr ''denied''),
       (''reasonCode'', JStr reason)]) =
    Inr (Some (literal_obj
      [(''requestedOperation'', JStr op), (''permission'', JStr perm), (''decision'', JStr ''denied''),
       (''reasonCode'', JStr reason)]))" if "reason \<in> set ADMINISTRATIVE_AUTHORIZATION_REASON_CODES"
    using assms perm that by (simp add: made)
qed

text \<open>Recording one event: an attempt id is drawn, the event goes to the recorder.\<close>

definition put_on_record :: "'w ProtectedPorts \<Rightarrow> (string \<Rightarrow> AdministrativeEventInput) \<Rightarrow> 'w \<Rightarrow> bool \<times> 'w" where
  "put_on_record ports event w =
     (case pa_generate ports w of
        (Inl _, w') \<Rightarrow> (False, w')
      | (Inr attempt, w') \<Rightarrow>
          if \<not> CANONICAL_UUID attempt then (False, w')
          else case pa_record ports (event attempt) w' of
            (Inl _, w'') \<Rightarrow> (False, w'') | (Inr _, w'') \<Rightarrow> (True, w''))"

lemma authorization_recorded:
  assumes op: "op \<in> set ADMINISTRATIVE_OPERATIONS" and at: "canonical at" and actor: "valid_source ''administrative'' actor"
    and reason: "refusal = None \<or> (\<exists>c \<in> set ADMINISTRATIVE_AUTHORIZATION_REASON_CODES. refusal = Some c)"
  shows "(\<exists>e. authorization_record ports op (permissionForAdministrativeOperation op) (refusal = None) (opt_value refusal) at
      (administrative_source actor) w =
    (case put_on_record ports (authorization_event op refusal at actor) w of
       (True, w') \<Rightarrow> (Inr (), w') | (False, w') \<Rightarrow> (Inl e, w')))"
proof -
  obtain perm where perm: "permissionForAdministrativeOperation op = Some perm" using operation_permission[OF op] by blast
  define details where "details = literal_obj
      ([(''requestedOperation'', JStr op), (''permission'', JStr perm),
        (''decision'', JStr (if refusal = None then ''allowed'' else ''denied''))] @
       (if js_truthy (opt_value refusal) then [(''reasonCode'', opt_value refusal)] else []))"
  have "\<forall>c \<in> set ADMINISTRATIVE_AUTHORIZATION_REASON_CODES. c \<noteq> []" by code_simp
  then have details: "details = literal_obj
      ([(''requestedOperation'', JStr op), (''permission'', JStr perm),
        (''decision'', JStr (case refusal of None \<Rightarrow> ''allowed'' | Some _ \<Rightarrow> ''denied''))] @
       (case refusal of None \<Rightarrow> [] | Some c \<Rightarrow> [(''reasonCode'', JStr c)]))"
    using reason by (auto simp: details_def opt_value_def)
  define status where "status = (if refusal = None then ''succeeded'' else ''rejected'')"
  have accepted: "createDetails ''authorize_administrative_operation'' status details = Inr (Some details)"
    using reason authorization_details[OF op perm] by (auto simp: details status_def)
  let ?input = "\<lambda>attempt. literal_obj
      [(''attemptId'', JStr attempt), (''occurredAt'', JStr at), (''source'', administrative_source actor),
       (''target'', MACHINE_AUDIT_TARGET), (''operation'', JStr ''authorize_administrative_operation''),
       (''status'', JStr status), (''details'', details)]"
  have event: "authorization_event op refusal at actor attempt =
      administrative_event attempt at actor ''authorize_administrative_operation'' status details" for attempt
    by (cases refusal) (simp_all add: authorization_event_def status_def details perm opt_value_def)
  have created: "createAdministrativeEventInput (?input attempt) =
    (if CANONICAL_UUID attempt then Inr (authorization_event op refusal at actor attempt)
     else Inl (event_error ''invalid_attempt_id''))" for attempt
    unfolding event
    by (rule event_accepted[OF _ _ _ _ _ _ _ _ _ at actor audit_vocabulary(1) _ accepted])
      (auto simp: status_def audit_vocabulary)
  have permission: "opt_value (Some perm) = JStr perm" by (simp add: opt_value_def)
  have run: "authorization_record ports op (Some perm) (refusal = None) (opt_value refusal) at (administrative_source actor) =
      bindIO (pa_generate ports) (\<lambda>attempt. catchIO
        (bindIO (liftIO (createAdministrativeEventInput (?input attempt))) (\<lambda>e. bindIO (pa_record ports e) (\<lambda>_. retIO ())))
        (\<lambda>_. throwIO (AdministrativeAccessControlError ''authorization_audit_unavailable'')))"
    by (simp only: authorization_record_def permission status_def details_def)
  show ?thesis
    unfolding perm run created
    by (simp add: put_on_record_def io_defs split: sum.split prod.split)
qed


section \<open>The coordinator decides, records, then acts\<close>

text \<open>Who may act, from the answers of the identity provider and of the reader of roles.\<close>

datatype Admission =
    Admitted AdministrativePrincipal
  | Refused (refused_actor: string) (refusal_reason: string) (refusal_code: string)

definition denial_code :: "string \<Rightarrow> string" where
  "denial_code reason =
     (if reason = ''role_assignment_unavailable'' \<or> reason = ''authorization_policy_unavailable''
      then ''administrative_authorization_unavailable'' else ''administrative_authorization_denied'')"

definition admission :: "'w ProtectedPorts \<Rightarrow> string \<Rightarrow> 'w \<Rightarrow> Admission \<times> 'w" where
  "admission ports permission w =
     (case pa_authenticate ports w of (answer, w') \<Rightarrow>
        case bindR answer createAdministrativeAuthenticationResult of
          Inr (Authenticated p) \<Rightarrow>
            (case pa_roles ports p w' of (assignment, w'') \<Rightarrow>
               (case authorization_outcome permission assignment of
                  Allowed \<Rightarrow> Admitted p
                | Denied reason \<Rightarrow> Refused (administrativePrincipalActorId p) reason (denial_code reason), w''))
        | Inr (Unauthenticated reason) \<Rightarrow>
            (Refused ''unauthenticated'' (auditReasonForAuthenticationFailure reason) ''administrative_authentication_required'', w')
        | _ \<Rightarrow> (Refused ''unauthenticated'' ''identity_provider_unavailable'' ''administrative_identity_unavailable'', w'))"

text \<open>The event that records the decision.\<close>

fun admission_event :: "string \<Rightarrow> string \<Rightarrow> Admission \<Rightarrow> string \<Rightarrow> AdministrativeEventInput" where
  "admission_event op at (Admitted p) = authorization_event op None at (administrativePrincipalActorId p)"
| "admission_event op at (Refused actor reason _) = authorization_event op (Some reason) at actor"

lemma authentication_run:
  "AuthenticateAdministrativeRequest_execute provider w =
     (case provider w of (answer, w') \<Rightarrow>
        (Inr (case bindR answer createAdministrativeAuthenticationResult of
                Inr a \<Rightarrow> a | Inl _ \<Rightarrow> AuthenticationUnavailable), w'))"
proof -
  obtain answer w' where "provider w = (answer, w')" by fastforce
  then show ?thesis by (cases answer) (simp_all add: AuthenticateAdministrativeRequest_execute_def io_defs split: sum.split)
qed

lemma authenticated_wf: "createAdministrativeAuthenticationResult v = Inr (Authenticated p) \<Longrightarrow> wf_principal p"
  unfolding createAdministrativeAuthenticationResult_def Let_def
  by (auto simp: result_simps dest: createAdministrativePrincipal_wf split: if_split_asm)

lemma refusal_reasons:
  "auditReasonForAuthenticationFailure r \<in> set ADMINISTRATIVE_AUTHORIZATION_REASON_CODES"
  "''identity_provider_unavailable'' \<in> set ADMINISTRATIVE_AUTHORIZATION_REASON_CODES"
  "authorization_outcome permission assignment = Denied reason \<Longrightarrow> reason \<in> set ADMINISTRATIVE_AUTHORIZATION_REASON_CODES"
  by (auto simp: auditReasonForAuthenticationFailure_def ADMINISTRATIVE_AUTHORIZATION_REASON_CODES_def
      authorization_outcome_def split: sum.splits RoleAssignment.splits option.splits if_splits)

lemma run_refused_exact:
  assumes op: "op \<in> set ADMINISTRATIVE_OPERATIONS" and at: "canonical at"
    and reason: "reason \<in> set ADMINISTRATIVE_AUTHORIZATION_REASON_CODES"
  shows "run_refused ports op at reason code w =
    (case put_on_record ports (authorization_event op (Some reason) at ''unauthenticated'') w of
       (True, w') \<Rightarrow> (Inl (AdministrativeAccessControlError code), w')
     | (False, w') \<Rightarrow> (Inl (AdministrativeAccessControlError ''authorization_audit_unavailable''), w'))"
proof -
  obtain e where "authorization_record ports op (permissionForAdministrativeOperation op) False (JStr reason) at
      (administrative_source ''unauthenticated'') w =
    (case put_on_record ports (authorization_event op (Some reason) at ''unauthenticated'') w of
       (True, w') \<Rightarrow> (Inr (), w') | (False, w') \<Rightarrow> (Inl e, w'))"
    using authorization_recorded[OF op at valid_actors(1), of "Some reason" ports w] reason by (auto simp: opt_value_def)
  then show ?thesis
    by (simp add: run_refused_def recordRejection_def io_defs split: prod.split bool.split)
qed

lemma run_decided_exact:
  assumes op: "op \<in> set ADMINISTRATIVE_OPERATIONS" and perm: "permissionForAdministrativeOperation op = Some perm"
    and p: "wf_principal p" and at: "canonical at"
  shows "run_decided ports op at p invoke w =
    (let w1 = snd (pa_roles ports p w); outcome = authorization_outcome perm (fst (pa_roles ports p w));
         refusal = (case outcome of Allowed \<Rightarrow> None | Denied reason \<Rightarrow> Some reason) in
     case put_on_record ports (authorization_event op refusal at (administrativePrincipalActorId p)) w1 of
       (True, w2) \<Rightarrow> (case refusal of
          None \<Rightarrow> run_invoke (invoke at (sourceForPrincipal p)) w2
        | Some reason \<Rightarrow> (Inl (AdministrativeAccessControlError (denial_code reason)), w2))
     | (False, w2) \<Rightarrow> (Inl (AdministrativeAccessControlError ''authorization_audit_unavailable''), w2))"
proof -
  let ?w1 = "snd (pa_roles ports p w)" and ?outcome = "authorization_outcome perm (fst (pa_roles ports p w))"
  let ?refusal = "case ?outcome of Allowed \<Rightarrow> None | Denied reason \<Rightarrow> Some reason"
  have "?refusal = None \<or> (\<exists>c \<in> set ADMINISTRATIVE_AUTHORIZATION_REASON_CODES. ?refusal = Some c)"
    using refusal_reasons(3) by (auto split: AuthorizationOutcome.split)
  from authorization_recorded[OF op at valid_actors(2)[OF p] this, of ports ?w1]
  obtain e where "authorization_record ports op (Some perm) (?refusal = None) (opt_value ?refusal) at (sourceForPrincipal p) ?w1 =
      (case put_on_record ports (authorization_event op ?refusal at (administrativePrincipalActorId p)) ?w1 of
         (True, w') \<Rightarrow> (Inr (), w') | (False, w') \<Rightarrow> (Inl e, w'))"
    unfolding perm sourceForPrincipal_def by blast
  then show ?thesis
    by (cases ?outcome)
      (simp_all add: run_decided_def recordDecision_def authorize_run[OF op perm p at] io_defs opt_value_def Let_def
        denial_code_def split: prod.split bool.split)
qed

lemma run_exact:
  assumes op: "op \<in> set ADMINISTRATIVE_OPERATIONS" and perm: "permissionForAdministrativeOperation op = Some perm"
    and clock: "now_iso (pa_now ports) w = (Inr at, w0)" and at: "canonical at"
    and valid: "(case validate of None \<Rightarrow> Inr () | Some test \<Rightarrow> test at) = Inr ()"
  shows "run ports op invoke validate w =
    (let (decision, w1) = admission ports perm w0; (recorded, w2) = put_on_record ports (admission_event op at decision) w1 in
     if \<not> recorded then (Inl (AdministrativeAccessControlError ''authorization_audit_unavailable''), w2)
     else case decision of
       Refused _ _ code \<Rightarrow> (Inl (AdministrativeAccessControlError code), w2)
     | Admitted p \<Rightarrow> run_invoke (invoke at (sourceForPrincipal p)) w2)"
proof -
  obtain answer w1 where answer: "pa_authenticate ports w0 = (answer, w1)" by fastforce
  have run: "run ports op invoke validate w =
      (case (case bindR answer createAdministrativeAuthenticationResult of Inr a \<Rightarrow> a | Inl _ \<Rightarrow> AuthenticationUnavailable) of
         AuthenticationUnavailable \<Rightarrow>
           run_refused ports op at ''identity_provider_unavailable'' ''administrative_identity_unavailable''
       | Unauthenticated reason \<Rightarrow>
           run_refused ports op at (auditReasonForAuthenticationFailure reason) ''administrative_authentication_required''
       | Authenticated p \<Rightarrow> run_decided ports op at p invoke) w1"
    by (simp add: run_def io_defs clock valid authentication_run answer split: AdministrativeAuthenticationResult.split)
  show ?thesis
  proof (cases "bindR answer createAdministrativeAuthenticationResult")
    case (Inl e)
    show ?thesis unfolding run using op at
      by (simp add: Inl admission_def answer run_refused_exact refusal_reasons split: prod.split bool.split)
  next
    case (Inr a)
    show ?thesis
    proof (cases a)
      case (Authenticated p)
      then have "wf_principal p" using Inr authenticated_wf by (cases answer) auto
      note decided = run_decided_exact[OF op perm this at, of ports invoke w1]
      obtain assignment w2 where "pa_roles ports p w1 = (assignment, w2)" by fastforce
      with decided show ?thesis
        unfolding run
        by (cases "authorization_outcome perm assignment")
          (simp_all add: Inr Authenticated admission_def answer Let_def split: prod.split bool.split)
    next
      case (Unauthenticated r)
      show ?thesis unfolding run using op at
        by (simp add: Inr Unauthenticated admission_def answer run_refused_exact refusal_reasons split: prod.split bool.split)
    next
      case AuthenticationUnavailable
      show ?thesis unfolding run using op at
        by (simp add: Inr AuthenticationUnavailable admission_def answer run_refused_exact refusal_reasons
            split: prod.split bool.split)
    qed
  qed
qed


lemma admitted_by:
  assumes "admission ports perm w = (Admitted p, w')"
  obtains v names role where "pa_authenticate ports w = (Inr v, snd (pa_authenticate ports w))"
    "createAdministrativeAuthenticationResult v = Inr (Authenticated p)"
    "pa_roles ports p (snd (pa_authenticate ports w)) = (Inr (Assigned names), w')"
    "role \<in> set names" "role_grants perm role"
proof -
  obtain v w1 where v: "pa_authenticate ports w = (Inr v, w1)"
      "createAdministrativeAuthenticationResult v = Inr (Authenticated p)"
      "pa_roles ports p w1 = (fst (pa_roles ports p w1), w')"
      "authorization_outcome perm (fst (pa_roles ports p w1)) = Allowed"
    using assms unfolding admission_def
    by (auto simp: result_simps split: prod.splits sum.splits AdministrativeAuthenticationResult.splits AuthorizationOutcome.splits)
  then obtain names role where "fst (pa_roles ports p w1) = Inr (Assigned names)" "role \<in> set names" "role_grants perm role"
    by (auto simp: authorization_outcome_def find_Some_iff split: sum.splits RoleAssignment.splits option.splits if_splits)
      (meson nth_mem)
  then show thesis using that v by simp
qed

lemma run_without_time:
  assumes "op \<in> set ADMINISTRATIVE_OPERATIONS" and "wf_principal p" and "\<not> canonical at"
  shows "run_decided ports op at p invoke w =
    (Inl (AdministrativeAccessControlError ''administrative_authorization_unavailable''), w)"
  using assms by (simp add: run_decided_def AuthorizeAdministrativeOperation_execute_def io_defs
      createAdministrativePrincipal_value createAdministrativeOperation_def)

text \<open>Without a time, a valid input or a decision the operation is refused whatever it is.\<close>

lemma run_refused_early:
  assumes op: "op \<in> set ADMINISTRATIVE_OPERATIONS"
    and "\<not> (\<exists>at w0. now_iso (pa_now ports) w = (Inr at, w0) \<and> canonical at \<and>
           (case validate of None \<Rightarrow> Inr () | Some test \<Rightarrow> test at) = Inr ())"
  shows "\<exists>e w'. \<forall>invoke. run ports op invoke validate w = (Inl e, w')"
proof -
  obtain clock w0 where clock: "now_iso (pa_now ports) w = (clock, w0)" by fastforce
  show ?thesis
  proof (cases "\<exists>at. clock = Inr at \<and> (case validate of None \<Rightarrow> Inr () | Some test \<Rightarrow> test at) = Inr ()")
    case False
    then consider e where "clock = Inl e"
      | at e where "clock = Inr at" "(case validate of None \<Rightarrow> Inr () | Some test \<Rightarrow> test at) = Inl e"
      by (metis (full_types) old.unit.exhaust sumE)
    then show ?thesis by cases (auto simp: run_def io_defs clock)
  next
    case True
    then obtain at where at: "clock = Inr at" and valid: "(case validate of None \<Rightarrow> Inr () | Some test \<Rightarrow> test at) = Inr ()"
      by blast
    then have untimed: "\<not> canonical at" using assms(2) clock by blast
    obtain answer w1 where answer: "pa_authenticate ports w0 = (answer, w1)" by fastforce
    let ?a = "case bindR answer createAdministrativeAuthenticationResult of Inr a \<Rightarrow> a | Inl _ \<Rightarrow> AuthenticationUnavailable"
    have wf: "wf_principal p" if "?a = Authenticated p" for p
      using that by (cases answer) (auto dest: authenticated_wf split: sum.splits)
    show ?thesis
      by (cases ?a) (auto simp: run_def io_defs clock at valid authentication_run answer
          run_without_time[OF op wf untimed] run_refused_def split: prod.splits sum.splits)
  qed
qed

section \<open>Recorded changes\<close>

text \<open>The attempt that a started change keeps, and the two calls on it.\<close>

definition attempt_object :: "string \<Rightarrow> AdministrativeEvent \<Rightarrow> string \<Rightarrow> string \<Rightarrow> string \<Rightarrow> jsval" where
  "attempt_object attempt begun at actor operation = literal_obj
     [(''attemptId'', JStr attempt), (''started'', event_value begun), (''operation'', JStr operation),
      (''occurredAt'', JStr at), (''source'', administrative_source actor), (''target'', MACHINE_AUDIT_TARGET)]"

lemma js_truthy_literal: "js_truthy (literal_obj ps)"
  by (simp add: literal_obj_def)

lemma audit_begin_run:
  assumes at: "canonical at" and actor: "valid_source ''administrative'' actor" and op: "op \<in> set ADMINISTRATIVE_EVENT_OPERATIONS"
    and details: "createDetails op ''started'' details = Inr (Some details)" and "js_truthy details"
    and attempt: "pa_generate ports w = (Inr attempt, w')" "CANONICAL_UUID attempt"
  shows "audit_begin (operationAudit ports) (literal_obj
      [(''occurredAt'', JStr at), (''source'', administrative_source actor), (''target'', MACHINE_AUDIT_TARGET),
       (''operation'', JStr op), (''details'', details)]) w =
    (case pa_record ports (administrative_event attempt at actor op ''started'' details) w' of
       (Inl _, w'') \<Rightarrow> (Inl AdministrativeAuditTrailError, w'')
     | (Inr begun, w'') \<Rightarrow> (Inr (attempt_object attempt begun at actor op), w''))"
proof -
  let ?fields = "[(''attemptId'', JStr attempt), (''occurredAt'', JStr at), (''source'', administrative_source actor),
      (''target'', MACHINE_AUDIT_TARGET), (''operation'', JStr op), (''status'', JStr ''started''), (''details'', details)]"
  have "createAdministrativeEventInput (literal_obj ?fields) =
      Inr (administrative_event attempt at actor op ''started'' details)"
    by (subst event_accepted[OF _ _ _ _ _ _ _ _ _ at actor op audit_vocabulary(2) details]) (auto simp: attempt)
  then show ?thesis
    by (simp add: operationAudit_def audit_trail_def trail_begin_def trail_record_def io_defs attempt(1) detail_literals
        with_details_def assms(5) attempt_object_def split: prod.split sum.split)
qed

lemma audit_begin_refused:
  assumes at: "canonical at" and actor: "valid_source ''administrative'' actor" and op: "op \<in> set ADMINISTRATIVE_EVENT_OPERATIONS"
    and details: "createDetails op ''started'' details = Inl invalid_details" and "js_truthy details"
    and attempt: "pa_generate ports w = (Inr attempt, w')"
  shows "audit_begin (operationAudit ports) (literal_obj
      [(''occurredAt'', JStr at), (''source'', administrative_source actor), (''target'', MACHINE_AUDIT_TARGET),
       (''operation'', JStr op), (''details'', details)]) w =
    (Inl (if CANONICAL_UUID attempt then invalid_details else event_error ''invalid_attempt_id''), w')"
proof -
  have "canonical_string (JStr at) = Some at" using at by (simp add: canonical_string_eq)
  moreover have "isAttemptId (JStr attempt) = (if CANONICAL_UUID attempt then Some attempt else None)"
    by (simp add: isAttemptId_def)
  ultimately show ?thesis
    using assms audit_vocabulary(2)
    by (simp add: operationAudit_def audit_trail_def trail_begin_def io_defs detail_literals with_details_def
        createAdministrativeEventInput_def requireRecord_def assertFields_def ownKeys_literal requireR_def
        createSource_administrative createTarget_machine)
qed

lemma audit_complete_run:
  assumes "canonical at" and "valid_source ''administrative'' actor" and "op \<in> set ADMINISTRATIVE_EVENT_OPERATIONS"
    and "status \<in> set ADMINISTRATIVE_EVENT_STATUSES"
    and "createDetails op status details = Inr (Some details)" and "js_truthy details" and "CANONICAL_UUID attempt"
  shows "audit_complete (operationAudit ports) (attempt_object attempt begun at actor op) status details w =
    (case pa_record ports (administrative_event attempt at actor op status details) w of
       (Inl _, w') \<Rightarrow> (Inl AdministrativeAuditTrailError, w') | (Inr _, w') \<Rightarrow> (Inr (), w'))"
proof -
  let ?fields = "[(''attemptId'', JStr attempt), (''occurredAt'', JStr at), (''source'', administrative_source actor),
      (''target'', MACHINE_AUDIT_TARGET), (''operation'', JStr op), (''status'', JStr status), (''details'', details)]"
  have "createAdministrativeEventInput (literal_obj ?fields) = Inr (administrative_event attempt at actor op status details)"
    by (subst event_accepted[OF _ _ _ _ _ _ _ _ _ assms(1-5)]) (auto simp: assms(7))
  then show ?thesis
    by (simp add: operationAudit_def audit_trail_def trail_complete_def trail_record_def io_defs detail_literals
        with_details_def assms(6) attempt_object_def split: prod.split sum.split)
qed

text \<open>A change between its two events, from the events alone.\<close>

definition change_between ::
  "'w recorder \<Rightarrow> (string \<Rightarrow> AdministrativeEventInput) \<Rightarrow> string \<Rightarrow> ('w, 'a) io \<Rightarrow> ('w, 'a) io" where
  "change_between recorder event partialCode invoke w =
     (case recorder (event ''started'') w of
        (Inl _, w1) \<Rightarrow> (Inl AdministrativeAuditTrailError, w1)
      | (Inr _, w1) \<Rightarrow>
          (case invoke w1 of
             (Inr result, w2) \<Rightarrow>
               (case recorder (event ''succeeded'') w2 of
                  (Inr _, w3) \<Rightarrow> (Inr result, w3)
                | (Inl _, w3) \<Rightarrow> (Inl (NamedError ''AdministrativeAuditPartialEffectError'' partialCode), w3))
           | (Inl e, w2) \<Rightarrow>
               if is_partial_effect e then (Inl e, w2)
               else (case recorder (event ''failed'') w2 of
                  (Inr _, w3) \<Rightarrow> (Inl e, w3) | (Inl _, w3) \<Rightarrow> (Inl AdministrativeAuditTrailError, w3))))"

definition change_event ::
  "string \<Rightarrow> jsval \<Rightarrow> (string \<times> jsval) list \<Rightarrow> (string \<times> jsval) list \<Rightarrow> string \<Rightarrow> string \<Rightarrow> string \<Rightarrow> string \<Rightarrow>
     AdministrativeEventInput" where
  "change_event op details success failure at actor attempt status =
     administrative_event attempt at actor op status
       (if status = ''started'' then details else if status = ''succeeded'' then literal_obj success else literal_obj failure)"

lemma recorded_change_run:
  assumes at: "canonical at" and actor: "valid_source ''administrative'' actor" and op: "op \<in> set ADMINISTRATIVE_EVENT_OPERATIONS"
    and started: "createDetails op ''started'' details = Inr (Some details)" "js_truthy details"
    and success: "createDetails op ''succeeded'' (literal_obj success) = Inr (Some (literal_obj success))"
    and failure: "createDetails op ''failed'' (literal_obj failure) = Inr (Some (literal_obj failure))"
    and attempt: "pa_generate ports w = (Inr attempt, w')" "CANONICAL_UUID attempt"
  shows "recorded_change (operationAudit ports) (literal_obj
      [(''occurredAt'', JStr at), (''source'', administrative_source actor), (''target'', MACHINE_AUDIT_TARGET),
       (''operation'', JStr op), (''details'', details)]) success failure partialCode invoke w =
    change_between (pa_record ports) (change_event op details success failure at actor attempt) partialCode invoke w'"
proof -
  note complete = audit_complete_run[OF at actor op _ _ js_truthy_literal attempt(2)]
  note runs = audit_begin_run[OF at actor op started attempt] complete[OF audit_vocabulary(3) success]
    complete[OF audit_vocabulary(5) failure]
  have "is_partial_effect (NamedError ''AdministrativeAuditPartialEffectError'' partialCode)"
    by (simp add: is_partial_effect_def)
  then show ?thesis
    by (auto simp: recorded_change_def change_between_def change_event_def bindIO_def catchIO_def throwIO_def retIO_def runs
        split: prod.split sum.split)
qed

lemma kinds_disjoint:
  "list_all (\<lambda>op. op \<noteq> ''authorize_administrative_operation'' \<and>
      op \<notin> set backup_operations \<and> op \<notin> set outcome_operations \<and> op \<notin> set history_operations) service_operations"
  "list_all (\<lambda>op. op \<noteq> ''authorize_administrative_operation'' \<and> op \<notin> set backup_operations) outcome_operations"
  "list_all (\<lambda>op. op \<noteq> ''authorize_administrative_operation'' \<and>
      op \<notin> set backup_operations \<and> op \<notin> set outcome_operations) history_operations"
  by code_simp+

lemma details_by_kind:
  "op \<in> set service_operations \<Longrightarrow> details_of op = service_details"
  "op \<in> set outcome_operations \<Longrightarrow> details_of op = outcome_details"
  "op \<in> set history_operations \<Longrightarrow> details_of op = (\<lambda>st v. createEventHistoryOperationalDetails v st)"
  using kinds_disjoint unfolding list_all_iff by (auto simp: fun_eq_iff details_of_def)

lemma change_operations:
  "set service_operations \<subseteq> set ADMINISTRATIVE_EVENT_OPERATIONS" "set service_operations \<subseteq> set ADMINISTRATIVE_OPERATIONS"
  "set outcome_operations \<subseteq> set ADMINISTRATIVE_EVENT_OPERATIONS" "set outcome_operations \<subseteq> set ADMINISTRATIVE_OPERATIONS"
  "set history_operations \<subseteq> set ADMINISTRATIVE_EVENT_OPERATIONS"
  by code_simp+

lemma service_change_details:
  assumes "op \<in> set service_operations" and "SERVICE_ID_PATTERN sid" and "length sid \<le> 64"
  shows "createDetails op ''started'' (literal_obj [(''serviceId'', JStr sid)]) = Inr (Some (literal_obj [(''serviceId'', JStr sid)]))"
    and "createDetails op ''succeeded'' (literal_obj [(''serviceId'', JStr sid), (''outcome'', JStr ''succeeded'')]) =
      Inr (Some (literal_obj [(''serviceId'', JStr sid), (''outcome'', JStr ''succeeded'')]))"
    and "createDetails op ''failed'' (literal_obj [(''serviceId'', JStr sid), (''failureCode'', JStr ''service_failed'')]) =
      Inr (Some (literal_obj [(''serviceId'', JStr sid), (''failureCode'', JStr ''service_failed'')]))"
  using assms(2,3)
  by (simp_all add: createDetails_def details_by_kind(1)[OF assms(1)] requireRecord_def service_details_def subject_details_def
      detail_literals literal_not_undefined)

lemma machine_change_details:
  assumes "op \<in> set outcome_operations"
  shows "createDetails op ''started'' (literal_obj []) = Inr (Some (literal_obj []))"
    and "createDetails op ''succeeded'' (literal_obj [(''outcome'', JStr ''succeeded'')]) =
      Inr (Some (literal_obj [(''outcome'', JStr ''succeeded'')]))"
    and "c \<in> set SAFE_FAILURE_CODES \<Longrightarrow> createDetails op ''failed'' (literal_obj [(''failureCode'', JStr c)]) =
      Inr (Some (literal_obj [(''failureCode'', JStr c)]))"
  by (simp_all add: createDetails_def details_by_kind(2)[OF assms(1)] requireRecord_def outcome_details_def
      detail_literals literal_not_undefined)

definition service_event :: "string \<Rightarrow> string \<Rightarrow> string \<Rightarrow> string \<Rightarrow> string \<Rightarrow> string \<Rightarrow> AdministrativeEventInput" where
  "service_event op sid = change_event op (literal_obj [(''serviceId'', JStr sid)])
     [(''serviceId'', JStr sid), (''outcome'', JStr ''succeeded'')]
     [(''serviceId'', JStr sid), (''failureCode'', JStr ''service_failed'')]"

text \<open>An admitted operation, after its decision was recorded.\<close>

lemma run_admitted:
  assumes "op \<in> set ADMINISTRATIVE_OPERATIONS" and "permissionForAdministrativeOperation op = Some perm"
    and "now_iso (pa_now ports) w = (Inr at, w0)" and "canonical at"
    and "admission ports perm w0 = (Admitted p, w1)"
    and "put_on_record ports (authorization_event op None at (administrativePrincipalActorId p)) w1 = (True, w2)"
  shows "run ports op invoke None w = run_invoke (invoke at (administrative_source (administrativePrincipalActorId p))) w2"
  using run_exact[OF assms(1-4), of None] assms(5,6) by (simp add: sourceForPrincipal_def)

lemma admitted_wf: "admission ports perm w = (Admitted p, w') \<Longrightarrow> wf_principal p"
  by (erule admitted_by) (rule authenticated_wf)

text \<open>The two changes of the machine's operating policy are recorded in the same way.\<close>

lemma machine_change_recorded:
  assumes op: "op \<in> set outcome_operations"
    and perm: "permissionForAdministrativeOperation op = Some perm"
    and clock: "now_iso (pa_now ports) w = (Inr at, w0)" "canonical at"
    and admitted: "admission ports perm w0 = (Admitted p, w1)"
    and recorded: "put_on_record ports (authorization_event op None at (administrativePrincipalActorId p)) w1 = (True, w2)"
    and attempt: "pa_generate ports w2 = (Inr attempt, w3)" "CANONICAL_UUID attempt"
  shows "runMachineScheduleMutation ports op invoke w =
    run_invoke (\<lambda>_. change_between (pa_record ports)
      (change_event op (literal_obj []) [(''outcome'', JStr ''succeeded'')]
         [(''failureCode'', JStr ''machine_schedule_operation_failed'')] at (administrativePrincipalActorId p) attempt)
      ''audit_failed_after_machine_schedule_operation'' invoke w3) w2"
proof -
  have known: "op \<in> set ADMINISTRATIVE_EVENT_OPERATIONS" "op \<in> set ADMINISTRATIVE_OPERATIONS"
    using op change_operations by blast+
  have actor: "valid_source ''administrative'' (administrativePrincipalActorId p)"
    by (rule valid_actors(2)[OF admitted_wf[OF admitted]])
  have "''machine_schedule_operation_failed'' \<in> set SAFE_FAILURE_CODES" by code_simp
  note details = machine_change_details(1,2)[OF op] machine_change_details(3)[OF op this]
  show ?thesis
    by (simp add: runMachineScheduleMutation_def run_admitted[OF known(2) perm clock admitted recorded] run_invoke_def catchIO_def
        audit_attempt_def recorded_change_run[OF clock(2) actor known(1) details(1) js_truthy_literal details(2,3) attempt])
qed

text \<open>
  The tick of the backup scheduler differs: its success is recorded inside the \<open>try\<close>, so a tick that
  succeeded and whose success could not be recorded is recorded as failed.
\<close>

lemma backup_tick_recorded_as_failed:
  fixes at p attempt
  defines "event \<equiv> change_event ''run_backup_scheduler_tick'' (literal_obj []) [(''outcome'', JStr ''succeeded'')]
      [(''failureCode'', JStr ''backup_operation_failed'')] at (administrativePrincipalActorId p) attempt"
  assumes clock: "now_iso (pa_now ports) w = (Inr at, w0)" "canonical at"
    and admitted: "admission ports ''backups.scheduler.tick'' w0 = (Admitted p, w1)"
    and recorded: "put_on_record ports (authorization_event ''run_backup_scheduler_tick'' None at
      (administrativePrincipalActorId p)) w1 = (True, w2)"
    and attempt: "pa_generate ports w2 = (Inr attempt, w3)" "CANONICAL_UUID attempt"
    and events: "pa_record ports (event ''started'') w3 = (Inr e, w4)" "invoke w4 = (Inr result, w5)"
      "pa_record ports (event ''succeeded'') w5 = (Inl failure, w6)" "pa_record ports (event ''failed'') w6 = (Inr e', w7)"
  shows "protected_runBackupSchedulerTick ports invoke w = (Inl AdministrativeAuditTrailError, w7)"
proof -
  let ?op = "''run_backup_scheduler_tick''"
  have op: "?op \<in> set outcome_operations" "?op \<in> set ADMINISTRATIVE_EVENT_OPERATIONS" "?op \<in> set ADMINISTRATIVE_OPERATIONS"
    "permissionForAdministrativeOperation ?op = Some ''backups.scheduler.tick''"
    "''backup_operation_failed'' \<in> set SAFE_FAILURE_CODES" "passes_through AdministrativeAuditTrailError" by code_simp+
  have actor: "valid_source ''administrative'' (administrativePrincipalActorId p)"
    by (rule valid_actors(2)[OF admitted_wf[OF admitted]])
  note details = machine_change_details(1,2)[OF op(1)] machine_change_details(3)[OF op(1) op(5)]
  note runs = audit_begin_run[OF clock(2) actor op(2) details(1) js_truthy_literal attempt]
    audit_complete_run[OF clock(2) actor op(2) audit_vocabulary(3) details(2) js_truthy_literal attempt(2)]
    audit_complete_run[OF clock(2) actor op(2) audit_vocabulary(5) details(3) js_truthy_literal attempt(2)]
  show ?thesis
    using events
    by (simp add: protected_runBackupSchedulerTick_def run_admitted[OF op(3,4) clock admitted recorded] run_invoke_def
        audit_attempt_def bindIO_def catchIO_def throwIO_def retIO_def runs event_def change_event_def op(6))
qed

lemma refused_for_all:
  fixes invoke :: "string \<Rightarrow> jsval \<Rightarrow> ('w, 'a) io"
  assumes "run ports op invoke validate w = (r, w')"
    and "\<exists>e w''. \<forall>invoke' :: string \<Rightarrow> jsval \<Rightarrow> ('w, 'a) io. run ports op invoke' validate w = (Inl e, w'')"
  shows "\<exists>e. r = Inl e \<and> (\<forall>invoke'. run ports op invoke' validate w = (r, w'))"
proof -
  obtain e w'' where all: "\<forall>invoke' :: string \<Rightarrow> jsval \<Rightarrow> ('w, 'a) io. run ports op invoke' validate w = (Inl e, w'')"
    using assms(2) by blast
  then have "r = Inl e" "w' = w''" using assms(1) by simp_all
  then show ?thesis using all by blast
qed

section \<open>Properties\<close>

text \<open>
  C4. No protected operation runs unguarded. Whatever the ports do, a call of the coordinator either ends
  with an error that does not depend on the operation, which was never started, or it ran the operation
  after the input was validated, the identity provider authenticated a principal, the reader of roles
  assigned it a role that grants the permission of the operation, and the decision was recorded; the
  operation is told the time of the decision and the principal as the source of its own events.
\<close>

theorem protected_operation_guarded:
  fixes invoke :: "string \<Rightarrow> jsval \<Rightarrow> ('w, 'a) io"
  assumes op: "op \<in> set ADMINISTRATIVE_OPERATIONS" and run: "run ports op invoke validate w = (r, w')"
  shows "(\<exists>e. r = Inl e \<and> (\<forall>invoke'. run ports op invoke' validate w = (r, w'))) \<or>
    (\<exists>at p perm names w0 w1 w2 w3 v role.
       now_iso (pa_now ports) w = (Inr at, w0) \<and>
       (\<forall>test. validate = Some test \<longrightarrow> test at = Inr ()) \<and>
       pa_authenticate ports w0 = (Inr v, w1) \<and> createAdministrativeAuthenticationResult v = Inr (Authenticated p) \<and>
       permissionForAdministrativeOperation op = Some perm \<and>
       pa_roles ports p w1 = (Inr (Assigned names), w2) \<and> role \<in> set names \<and> role_grants perm role \<and>
       put_on_record ports (authorization_event op None at (administrativePrincipalActorId p)) w2 = (True, w3) \<and>
       (r, w') = run_invoke (invoke at (sourceForPrincipal p)) w3)" (is "?refused \<or> ?ran")
proof -
  obtain perm where perm: "permissionForAdministrativeOperation op = Some perm" using operation_permission[OF op] by blast
  note refused = refused_for_all[OF run]
  show ?thesis
  proof (cases "\<exists>at w0. now_iso (pa_now ports) w = (Inr at, w0) \<and> canonical at \<and>
           (case validate of None \<Rightarrow> Inr () | Some test \<Rightarrow> test at) = Inr ()")
    case False
    show ?thesis by (intro disjI1 refused run_refused_early[OF op False])
  next
    case True
    then obtain at w0 where clock: "now_iso (pa_now ports) w = (Inr at, w0)" and at: "canonical at"
      and valid: "(case validate of None \<Rightarrow> Inr () | Some test \<Rightarrow> test at) = Inr ()" by blast
    obtain decision w1 where decision: "admission ports perm w0 = (decision, w1)" by fastforce
    obtain recorded w2 where recorded: "put_on_record ports (admission_event op at decision) w1 = (recorded, w2)" by fastforce
    have ran: "run ports op invoke' validate w =
       (if \<not> recorded then (Inl (AdministrativeAccessControlError ''authorization_audit_unavailable''), w2)
        else case decision of
          Refused _ _ code \<Rightarrow> (Inl (AdministrativeAccessControlError code), w2)
        | Admitted p \<Rightarrow> run_invoke (invoke' at (sourceForPrincipal p)) w2)" for invoke'
      by (simp add: run_exact[OF op perm clock at valid] decision recorded)
    show ?thesis
    proof (cases "\<exists>p. recorded \<and> decision = Admitted p")
      case False
      then show ?thesis by (intro disjI1 refused) (cases decision; auto simp: ran)
    next
      case True
      then obtain p where p: "recorded" "decision = Admitted p" by blast
      obtain v names role where admitted: "pa_authenticate ports w0 = (Inr v, snd (pa_authenticate ports w0))"
          "createAdministrativeAuthenticationResult v = Inr (Authenticated p)"
          "pa_roles ports p (snd (pa_authenticate ports w0)) = (Inr (Assigned names), w1)"
          "role \<in> set names" "role_grants perm role"
        using decision unfolding p(2) by (rule admitted_by)
      have "put_on_record ports (authorization_event op None at (administrativePrincipalActorId p)) w1 = (True, w2)"
        using recorded p by simp
      moreover have "(r, w') = run_invoke (invoke at (sourceForPrincipal p)) w2" using run by (simp add: ran p)
      moreover have "\<forall>test. validate = Some test \<longrightarrow> test at = Inr ()" using valid by auto
      ultimately have ?ran using clock perm admitted by blast
      then show ?thesis ..
    qed
  qed
qed

section \<open>A small composition\<close>

text \<open>Ports over the in-memory history, for the examples: the principal of the sample reader asks.\<close>

definition sample_attempt :: string where
  "sample_attempt = ''01234567-89ab-4cde-8f01-23456789abcd''"

definition history_ports :: "AdministrativeEvent list ProtectedPorts" where
  "history_ports = \<lparr>pa_now = retIO (Some 392460000),
     pa_authenticate = retIO (literal_obj [(''outcome'', JStr ''authenticated''), (''principal'', principal_value sample_principal)]),
     pa_roles = (\<lambda>p events. (fst (role_read p sample_reader), events)),
     pa_record = history_record False, pa_generate = retIO sample_attempt\<rparr>"

lemma authorization_event_wf:
  assumes "op \<in> set ADMINISTRATIVE_OPERATIONS" and "canonical at" and "valid_source ''administrative'' actor"
    and "CANONICAL_UUID attempt" and "refusal = None \<or> (\<exists>c \<in> set ADMINISTRATIVE_AUTHORIZATION_REASON_CODES. refusal = Some c)"
  shows "wf_event_input (authorization_event op refusal at actor attempt)"
proof -
  obtain perm where perm: "permissionForAdministrativeOperation op = Some perm" using operation_permission[OF assms(1)] by blast
  have "source_value \<lparr>source_kind = ''administrative'', actorId = actor\<rparr> = administrative_source actor"
    "target_value \<lparr>target_kind = ''machine'', target_id = ''atlas''\<rparr> = MACHINE_AUDIT_TARGET"
    by (simp_all add: source_value_def administrative_source_def target_value_def MACHINE_AUDIT_TARGET_def)
  then show ?thesis
    using assms authorization_details[OF assms(1) perm] createSource_administrative[OF assms(3)] createTarget_machine
    by (auto simp: wf_event_input_def authorization_event_def administrative_event_def perm opt_value_def audit_vocabulary)
qed

lemma sample_time_canonical: "canonical (iso 392460000)" by (simp add: max_time_def)

lemma sample_request_run:
  "run history_ports ''request_machine_shutdown'' (\<lambda>at _. retIO at) None [] =
    (Inr (iso 392460000), [\<lparr>event_sequence_number = 1, event_input =
       authorization_event ''request_machine_shutdown'' None (iso 392460000) (administrativePrincipalActorId sample_principal)
         sample_attempt\<rparr>])"
proof -
  have op: "''request_machine_shutdown'' \<in> set ADMINISTRATIVE_OPERATIONS"
    "permissionForAdministrativeOperation ''request_machine_shutdown'' = Some ''power.shutdown.request''" by code_simp+
  have role: "authorization_outcome ''power.shutdown.request'' (fst (role_read sample_principal sample_reader)) = Allowed"
    by code_simp
  have clock: "now_iso (pa_now history_ports) [] = (Inr (iso 392460000), [])"
    by (simp add: now_iso_def history_ports_def io_defs toISOString_def)
  have "createAdministrativeAuthenticationResult
      (literal_obj [(''outcome'', JStr ''authenticated''), (''principal'', principal_value sample_principal)]) =
    Inr (Authenticated sample_principal)" by code_simp
  then have decision: "admission history_ports ''power.shutdown.request'' [] = (Admitted sample_principal, [])"
    by (simp add: admission_def history_ports_def io_defs role)
  have "CANONICAL_UUID sample_attempt" by code_simp
  moreover from this have "wf_event_input (authorization_event ''request_machine_shutdown'' None (iso 392460000)
      (administrativePrincipalActorId sample_principal) sample_attempt)"
    by (intro authorization_event_wf op(1) sample_time_canonical valid_actors(2) sample_principal_wf) simp_all
  ultimately have "put_on_record history_ports (authorization_event ''request_machine_shutdown'' None (iso 392460000)
      (administrativePrincipalActorId sample_principal)) [] =
    (True, [\<lparr>event_sequence_number = 1, event_input =
       authorization_event ''request_machine_shutdown'' None (iso 392460000) (administrativePrincipalActorId sample_principal)
         sample_attempt\<rparr>])"
    by (simp add: put_on_record_def history_ports_def io_defs history_record_run Let_def)
  then show ?thesis
    using run_exact[OF op clock sample_time_canonical, where validate = None and invoke = "\<lambda>at _. retIO at"]
    by (simp add: decision run_invoke_def io_defs)
qed


lemma protected_operation_guarded_witness:
  "\<exists>at p perm names w0 w1 w2 w3 v role.
     now_iso (pa_now history_ports) [] = (Inr at, w0) \<and>
     pa_authenticate history_ports w0 = (Inr v, w1) \<and> createAdministrativeAuthenticationResult v = Inr (Authenticated p) \<and>
     permissionForAdministrativeOperation ''request_machine_shutdown'' = Some perm \<and>
     pa_roles history_ports p w1 = (Inr (Assigned names), w2) \<and> role \<in> set names \<and> role_grants perm role \<and>
     put_on_record history_ports
       (authorization_event ''request_machine_shutdown'' None at (administrativePrincipalActorId p)) w2 = (True, w3) \<and>
     (Inr (iso 392460000), w3) = run_invoke (retIO at) w3"
proof -
  have op: "''request_machine_shutdown'' \<in> set ADMINISTRATIVE_OPERATIONS" by code_simp
  from protected_operation_guarded[OF op sample_request_run] show ?thesis
    by (clarsimp simp: run_invoke_def io_defs) blast
qed


text \<open>
  C14. A change of a service is recorded before and after it. For an admitted caller and a valid service id,
  the started event reaches the recorder before the change begins, and the change is not attempted if it
  cannot be recorded; a change that succeeded is answered only after its succeeded event was recorded, and
  reported as a partial effect otherwise; a change that failed is recorded as failed and its own error
  reaches the caller, unless that event cannot be recorded either.
\<close>

theorem service_change_recorded:
  assumes op: "op \<in> set service_operations" and sid: "SERVICE_ID_PATTERN sid" "length sid \<le> 64"
    and perm: "permissionForAdministrativeOperation op = Some perm"
    and clock: "now_iso (pa_now ports) w = (Inr at, w0)" "canonical at"
    and admitted: "admission ports perm w0 = (Admitted p, w1)"
    and recorded: "put_on_record ports (authorization_event op None at (administrativePrincipalActorId p)) w1 = (True, w2)"
    and attempt: "pa_generate ports w2 = (Inr attempt, w3)" "CANONICAL_UUID attempt"
  shows "runServiceMutation ports op sid invoke w =
    run_invoke (\<lambda>_. change_between (pa_record ports)
      (service_event op sid at (administrativePrincipalActorId p) attempt)
      ''audit_failed_after_service_operation'' invoke w3) w2"
proof -
  have known: "op \<in> set ADMINISTRATIVE_EVENT_OPERATIONS" "op \<in> set ADMINISTRATIVE_OPERATIONS"
    using op change_operations by blast+
  have actor: "valid_source ''administrative'' (administrativePrincipalActorId p)"
    by (rule valid_actors(2)[OF admitted_wf[OF admitted]])
  note details = service_change_details[OF op sid]
  show ?thesis
    by (simp add: runServiceMutation_def run_admitted[OF known(2) perm clock admitted recorded] run_invoke_def catchIO_def
        audit_attempt_def recorded_change_run[OF clock(2) actor known(1) details(1) js_truthy_literal details(2,3) attempt]
        service_event_def)
qed


text \<open>Every step of the sample composition, for a principal with one role.\<close>

definition ports_as :: "string \<Rightarrow> AdministrativeEvent list ProtectedPorts" where
  "ports_as role = history_ports\<lparr>pa_roles := \<lambda>_. retIO (Assigned [role])\<rparr>"

definition decision_event :: "string \<Rightarrow> AdministrativeEvent" where
  "decision_event op = \<lparr>event_sequence_number = 1, event_input =
     authorization_event op None (iso 392460000) (administrativePrincipalActorId sample_principal) sample_attempt\<rparr>"

lemma sample_authenticated:
  "createAdministrativeAuthenticationResult
     (literal_obj [(''outcome'', JStr ''authenticated''), (''principal'', principal_value sample_principal)]) =
   Inr (Authenticated sample_principal)"
  by code_simp

lemma sample_clock: "now_iso (pa_now (ports_as role)) w = (Inr (iso 392460000), w)"
  by (simp add: now_iso_def ports_as_def history_ports_def io_defs toISOString_def)

lemma sample_generate: "pa_generate (ports_as role) w = (Inr sample_attempt, w)"
  by (simp add: ports_as_def history_ports_def io_defs)

lemma sample_attempt_canonical: "CANONICAL_UUID sample_attempt"
  by code_simp

lemma sample_admitted:
  assumes "role_grants perm role"
  shows "admission (ports_as role) perm w = (Admitted sample_principal, w)"
  using assms by (simp add: admission_def ports_as_def history_ports_def io_defs sample_authenticated authorization_outcome_def)

lemma sample_decision:
  assumes "op \<in> set ADMINISTRATIVE_OPERATIONS"
  shows "put_on_record (ports_as role) (authorization_event op None (iso 392460000) (administrativePrincipalActorId sample_principal)) [] =
    (True, [decision_event op])"
proof -
  have "CANONICAL_UUID sample_attempt" by code_simp
  moreover from this have "wf_event_input (authorization_event op None (iso 392460000)
      (administrativePrincipalActorId sample_principal) sample_attempt)"
    by (intro authorization_event_wf assms sample_time_canonical valid_actors(2) sample_principal_wf) simp_all
  ultimately show ?thesis
    by (simp add: put_on_record_def ports_as_def history_ports_def decision_event_def io_defs history_record_run Let_def)
qed

lemma service_change_recorded_witness:
  "runServiceMutation (ports_as ''service_operator'') ''start_registered_service'' ''web'' (\<lambda>events. (Inr (length events), events)) [] =
    run_invoke (\<lambda>_. change_between (history_record False)
      (service_event ''start_registered_service'' ''web'' (iso 392460000) (administrativePrincipalActorId sample_principal)
         sample_attempt)
      ''audit_failed_after_service_operation'' (\<lambda>events. (Inr (length events), events))
      [decision_event ''start_registered_service'']) [decision_event ''start_registered_service'']"
proof -
  have op: "''start_registered_service'' \<in> set service_operations" "''start_registered_service'' \<in> set ADMINISTRATIVE_OPERATIONS"
    "permissionForAdministrativeOperation ''start_registered_service'' = Some ''services.start''"
    "role_grants ''services.start'' ''service_operator''" "SERVICE_ID_PATTERN ''web''" by code_simp+
  from service_change_recorded[OF op(1) op(5) _ op(3) sample_clock sample_time_canonical sample_admitted[OF op(4)]
      sample_decision[OF op(2)] sample_generate sample_attempt_canonical]
  show ?thesis by (simp add: ports_as_def history_ports_def)
qed


text \<open>
  C10. The coordinator implements its specification: with a clock in range and valid input, a call decides
  from the answers of the identity provider and the reader of roles alone, records the decision as one valid
  event with the reason of a refusal, and then answers the refusal or runs the operation. A decision that
  cannot be recorded ends the call, whatever the decision was.
\<close>

theorem coordinator_decides_records_acts:
  assumes "op \<in> set ADMINISTRATIVE_OPERATIONS" and "permissionForAdministrativeOperation op = Some perm"
    and "now_iso (pa_now ports) w = (Inr at, w0)" and "canonical at"
    and "(case validate of None \<Rightarrow> Inr () | Some test \<Rightarrow> test at) = Inr ()"
  shows "run ports op invoke validate w =
    (let (decision, w1) = admission ports perm w0; (recorded, w2) = put_on_record ports (admission_event op at decision) w1 in
     if \<not> recorded then (Inl (AdministrativeAccessControlError ''authorization_audit_unavailable''), w2)
     else case decision of
       Refused _ _ code \<Rightarrow> (Inl (AdministrativeAccessControlError code), w2)
     | Admitted p \<Rightarrow> run_invoke (invoke at (sourceForPrincipal p)) w2)"
  by (rule run_exact[OF assms])

lemma coordinator_decides_records_acts_witness:
  "run ((ports_as ''service_operator'')\<lparr>pa_authenticate := DenyAll_authenticate\<rparr>) ''start_registered_service'' (\<lambda>at _. retIO at) None [] =
    (Inl (AdministrativeAccessControlError ''administrative_authentication_required''),
     [\<lparr>event_sequence_number = 1, event_input =
        authorization_event ''start_registered_service'' (Some ''credentials_absent'') (iso 392460000) ''unauthenticated''
          sample_attempt\<rparr>])"
proof -
  let ?ports = "(ports_as ''service_operator'')\<lparr>pa_authenticate := DenyAll_authenticate\<rparr>"
  have op: "''start_registered_service'' \<in> set ADMINISTRATIVE_OPERATIONS"
    "permissionForAdministrativeOperation ''start_registered_service'' = Some ''services.start''" by code_simp+
  have "createAdministrativeAuthenticationResult (literal_obj
      [(''outcome'', JStr ''unauthenticated''), (''reason'', JStr ''credentials_absent'')]) =
    Inr (Unauthenticated (JStr ''credentials_absent''))" by code_simp
  then have decision: "admission ?ports ''services.start'' [] =
      (Refused ''unauthenticated'' ''credentials_absent'' ''administrative_authentication_required'', [])"
    by (simp add: admission_def DenyAll_authenticate_def io_defs auditReasonForAuthenticationFailure_def)
  have "''credentials_absent'' \<in> set ADMINISTRATIVE_AUTHORIZATION_REASON_CODES" by code_simp
  then have "wf_event_input (authorization_event ''start_registered_service'' (Some ''credentials_absent'')
      (iso 392460000) ''unauthenticated'' sample_attempt)"
    by (intro authorization_event_wf op sample_time_canonical valid_actors sample_attempt_canonical) simp
  then have "put_on_record ?ports (authorization_event ''start_registered_service'' (Some ''credentials_absent'')
      (iso 392460000) ''unauthenticated'') [] =
    (True, [\<lparr>event_sequence_number = 1, event_input =
        authorization_event ''start_registered_service'' (Some ''credentials_absent'') (iso 392460000) ''unauthenticated''
          sample_attempt\<rparr>])"
    using sample_attempt_canonical
    by (simp add: put_on_record_def ports_as_def history_ports_def io_defs history_record_run Let_def)
  then show ?thesis
    using coordinator_decides_records_acts[OF op, of ?ports "[]" "iso 392460000" "[]" None "\<lambda>at _. retIO at"]
      sample_clock sample_time_canonical decision by simp
qed

text \<open>
  C40. An export of later events is refused before it begins. The details of the started event count its
  bounds as bounded counts, at most 100000, while the store accepts any safe positive integers: for an
  admitted caller, a request that the store would parse and whose last sequence number is above 100000 ends with
  \<open>protected_operation_failed\<close>, neither recorded nor passed to the store.
\<close>

theorem late_events_cannot_be_exported:
  assumes range: "1 \<le> fromSequence" "fromSequence \<le> throughSequence"
      "100000 < throughSequence" "throughSequence \<le> 9007199254740991"
    and clock: "now_iso (pa_now ports) w = (Inr at, w0)" "canonical at"
    and admitted: "admission ports ''event_history.exports.create'' w0 = (Admitted p, w1)"
    and recorded: "put_on_record ports (authorization_event ''create_event_history_export'' None at
      (administrativePrincipalActorId p)) w1 = (True, w2)"
    and attempt: "pa_generate ports w2 = (Inr attempt, w3)"
  defines "request \<equiv> literal_obj [(''fromSequence'', JNum fromSequence), (''throughSequence'', JNum throughSequence)]"
  shows "parseExportRequest request = Inr (fromSequence, throughSequence) \<and>
    protected_createEventHistoryExport ports history request w =
      (Inl (AdministrativeAccessControlError ''protected_operation_failed''), w3)"
proof
  show "parseExportRequest request = Inr (fromSequence, throughSequence)"
    using range by (simp add: parseExportRequest_def request_def literal_simps requireR_def)
  let ?op = "''create_administrative_event_history_export''"
  have op: "history_permission_operation ?op = ''create_event_history_export''"
    "''create_event_history_export'' \<in> set ADMINISTRATIVE_OPERATIONS"
    "permissionForAdministrativeOperation ''create_event_history_export'' = Some ''event_history.exports.create''"
    "?op \<in> set history_operations" by code_simp+
  have "createDetails ?op ''started'' request = Inl invalid_details"
    using range
    by (simp add: createDetails_def details_by_kind(3)[OF op(4)] requireRecord_def request_def detail_literals
        createEventHistoryOperationalDetails_def literal_not_undefined)
  then obtain e where begun: "e \<in> {''invalid_details'', ''invalid_attempt_id''}" "audit_begin (operationAudit ports) (literal_obj
        [(''occurredAt'', JStr at), (''source'', administrative_source (administrativePrincipalActorId p)),
         (''target'', MACHINE_AUDIT_TARGET), (''operation'', JStr ?op), (''details'', request)]) w2 = (Inl (event_error e), w3)"
    using audit_begin_refused[OF clock(2) valid_actors(2)[OF admitted_wf[OF admitted]] _ _ _ attempt, of ?op request]
      op(4) change_operations(5) by (cases "CANONICAL_UUID attempt") (auto simp: request_def js_truthy_literal)
  have "\<not> passes_through (event_error e)"
    using begun(1) by (auto simp: passed_classes_def passed_messages_def)
  moreover have "typeof_object request" by (simp add: request_def literal_obj_def)
  ultimately show "protected_createEventHistoryExport ports history request w =
      (Inl (AdministrativeAccessControlError ''protected_operation_failed''), w3)"
    by (simp add: protected_createEventHistoryExport_def runEventHistoryMutation_def op(1)
        run_admitted[OF op(2,3) clock admitted recorded] run_invoke_def catchIO_def throwIO_def recorded_change_def bindIO_def begun(2))
qed

lemma late_events_cannot_be_exported_witness:
  "\<forall>history. protected_createEventHistoryExport (ports_as ''auditor'') history
     (literal_obj [(''fromSequence'', JNum 100001), (''throughSequence'', JNum 100100)]) [] =
   (Inl (AdministrativeAccessControlError ''protected_operation_failed''), [decision_event ''create_event_history_export''])"
proof -
  have op: "role_grants ''event_history.exports.create'' ''auditor''"
    "''create_event_history_export'' \<in> set ADMINISTRATIVE_OPERATIONS" by code_simp+
  show ?thesis
    using late_events_cannot_be_exported[OF _ _ _ _ sample_clock sample_time_canonical sample_admitted[OF op(1)] sample_decision[OF op(2)]
        sample_generate, of 100001 100100] by simp
qed

end
