(* ===== verification/Spec2Isabelle.thy ===== *)
theory Spec2Isabelle
  imports Weekly_Schedule Availability Dependency_Graph Registered_Service Orchestration_Plan Orchestration Services_Stop Memory_Scheduler Scheduler_Loop Availability_Interval Machine_Safety Protection_Safety
begin

text \<open>
  Atlas Manager, the administration server of one machine (TypeScript, under \<open>src/\<close>). The
  development models the code that decides and acts: which services should run and when, in which
  order they are started and stopped, when the machine is shut down and woken, and the two schedulers
  that carry this out. Paths below are relative to \<open>src/\<close>.

  \<^bold>\<open>The parts of the program and how they interact.\<close>
  A registered service has dependencies, supported operations, a readiness policy and an availability
  policy: manual, disabled, or a weekly schedule in a time zone. Overrides replace the policy for a
  while. The reconciliation scheduler repeats a cycle: it reads its cursor, computes the scheduled
  transitions between the cursor and the clock, claims each occurrence in the claim store, orchestrates
  a start or stop in dependency order, prunes, and advances the cursor unless an occurrence failed.
  An orchestration asks the planner for the steps over the dependency graph and runs them over
  controllers and readiness probes. The machine has an operating schedule too. Its scheduler repeats a
  tick of the same form over shutdown occurrences: for each it evaluates readiness, prepares the
  machine if necessary (stop services, drain tasks, complete backups, synchronize the file systems,
  evaluate again), claims the occurrence, sets the wake alarm and requests the shutdown. Requests of
  administrators reach all of this through the protected administration: a coordinator that asks an identity
  provider who calls, a reader of roles what the caller may do, records the decision as an event of the
  administrative history, and only then runs the operation, whose changes are recorded before and after.

  \<^bold>\<open>How the model is built.\<close>
  An unknown value that reaches a validator is a \<open>jsval\<close> (Prelude). A function that throws returns
  a \<open>result\<close>, a sum with the error on the left; an asynchronous function is an \<open>io\<close>, a function from
  a world to a result and a world, and \<open>await\<close> is \<open>bindIO\<close>, \<open>try\<close>/\<open>catch\<close> is \<open>catchIO\<close>. Ports of the
  application layer are records of such functions over a world of any type, and may fail at every
  call. Time zone data (\<open>Intl.DateTimeFormat\<close>), the clock, the Docker, PM2 and helper processes are
  parameters; what the code relies on of the formatter are the locales \<open>local_formatter\<close> and
  \<open>minute_formatter\<close>, met by \<open>saoPauloFormatter\<close>. Code that runs several handlers in
  an order the environment chooses is an inductive step relation, and its properties are invariants of
  the reachable states. A statement for arbitrary ports covers interleaving, since a port may change its
  world as the handlers that run meanwhile would. Each contract between components is a locale, interpreted on the code's model
  where it is provided: \<open>keyed_store\<close>, \<open>conditional_store\<close>, \<open>claim_store\<close> and \<open>cursor_store\<close> (Stores,
  Machine_Stores), \<open>dependency_order\<close> (Dependency_Graph), \<open>scheduler_loop\<close> (Scheduler_Loop,
  Machine_Scheduler).

  \<^bold>\<open>Theories.\<close>
  \<^item> Prelude: JavaScript values, errors, results, state passing, sorting with a comparator, lists.
  \<^item> Iso_Date: time values, \<open>toISOString\<close>, \<open>Date.parse\<close> on canonical strings; parsing inverts printing
    and the order of the strings is the order of time.
  \<^item> Weekly_Schedule, Availability: \<open>service-scheduling/domain\<close>. Constructors accept exactly the
    disjoint schedules; the transitions of an interval are the changes of the expectation, and replaying
    them gives the expectation at every instant.
  \<^item> Registered_Service: \<open>service-management/domain/registered-service.ts\<close> and its value objects; the
    invariant \<open>wf_service\<close>.
  \<^item> Dependency_Graph: \<open>service-management/domain/dependency-graph.ts\<close>; acceptance, closures and
    topological orders against the reachability relation.
  \<^item> Orchestration_Plan, Orchestration: \<open>plan-registered-service-orchestration.ts\<close>,
    \<open>orchestrate-registered-service-control.ts\<close>, \<open>wait-for-registered-service-readiness.ts\<close>; the plan of
    each operation, the order of the calls it leads to, and the record of the outcome.
  \<^item> Services_Stop: \<open>orchestrate-registered-services-stop.ts\<close>, the order and record of a set of stops.
  \<^item> Stores: the in-memory catalog, override, policy, claim and cursor stores of
    \<open>service-management/infrastructure\<close>.
  \<^item> Reconciliation_Domain, Reconciliation, Memory_Scheduler: decisions, occurrences, tick and cycle of
    the reconciliation (\<open>service-management/application\<close>), the use cases on overrides and policies, and the
    cycle on the in-memory stores as a step relation, in which handlers over HTTP may change overrides, policies
    and everything outside at every call a cycle waits for (\<open>out_others\<close>); the catalog is fixed.
  \<^item> Scheduler_Loop: the loop of both schedulers as a step relation over \<open>start\<close>, \<open>stop\<close>, the end of a
    cycle and timer callbacks.
  \<^item> Availability_Interval: whether a service is required during an interval.
  \<^item> Machine_Schedule, Machine_Power_Plan, Machine_Shutdown_Schedule, Machine_Plan_Found:
    \<open>power-management/domain\<close>, operating policies, power plans and shutdown occurrences. The sampling
    loops compute exactly the periods of rest, and an accepted schedule always has a plan.
  \<^item> Machine_Readiness: blockers, decisions, their evaluation, and the confirmation of an occurrence
    against the policy.
  \<^item> Machine_Preparation: plans, steps, events and reports of a preparation and the handler
    \<open>prepare-machine-shutdown-occurrence.ts\<close>.
  \<^item> Machine_Execution: wake alarm and shutdown results, the handler
    \<open>execute-machine-shutdown-occurrence.ts\<close>, and the audit around it and around the preparation.
  \<^item> Machine_Stores, Machine_Scheduler, Machine_Safety: the claim and cursor stores, the tick
    \<open>run-machine-power-scheduler-tick.ts\<close>, the scheduler in one process as a step relation, and its
    guarantees. A step (\<open>power_step\<close>) is a whole tick, direct execution or execution over HTTP (which
    confirms by its own reader and does not prepare).
  \<^item> Administrative_Access: \<open>access-control/domain\<close> and its use cases; roles, permissions, operations,
    principals, authentication results and authorization decisions. Authorization is the tables, and fails closed.
  \<^item> Administrative_Event, Event_History: \<open>event-history\<close>; the validation of an event by operation and status,
    the audit trail, queries and pages, and the in-memory history with its invariant \<open>wf_history\<close>. What is
    accepted once is accepted again; the pages of a query cover its answer.
  \<^item> Power_Administration: the use cases on the wake alarm, the shutdown request and the operating policy
    (\<open>power-management/application\<close>), the in-memory policy store and the mock wake alarm.
  \<^item> Protected_Administration: \<open>access-control/composition/create-protected-administration.ts\<close>, the coordinator,
    the recorded changes and the facades over the use cases.
  \<^item> Protection_Safety: the coordinator against its specification \<open>admission\<close> and \<open>put_on_record\<close>, the recorded
    changes against \<open>change_between\<close>, and the requests the audit refuses.
  \<^bold>\<open>What the properties show.\<close>
  For the machine (C1, C3, C7, C8, C12, C16, C17, C19, C22, C24, C25, C37, C39): for arbitrary ports, an
  execution asks for the shutdown only at the end of its own chain of recorded attempt, due occurrence, approved
  readiness, granted claim and answered wake alarm (C1); a preparation that answers \<open>prepared\<close> carried out
  its plan, evaluated the readiness again and recorded the approval, in this order (C8), and a preparation
  always reports, except right after an invalid answer of the service or the drain controller (C12); a tick executes
  each occurrence of its interval once, in order, as the policy confirms it (C37). Over sequences of whole
  handlers, no occurrence is claimed twice by the scheduler, and a tick moves the cursor only over what was done
  with (C3, C7, C19). Readiness fails closed; planner, scheduler and confirmation agree on the periods of rest.
  For the services (C2, C5, C6, C9, C11, C13, C15, C20, C26, C32, C34 to C36): an occurrence is orchestrated
  at most once over every interleaving; a cycle works through exactly the interval it moves the cursor over
  (C9), and a tick through every occurrence of every service, in dependency order (C11); a scheduled start checks its
  dependencies before it does anything (C34); starts follow dependencies, stops precede them; results record what
  happened. For administration (C4, C10, C14, C18, C21, C23, C40): no operation runs before an authenticated,
  authorized and recorded decision; changes are recorded before and after; the history can be read back.
  For policies and time (C27, C30, C31, C33, C38) and for the loops (C28, C29): see the theories. C25 holds
  for zones of fixed offset, and C30 for policies that are always or scheduled, intervals from a full minute and overrides that expire
  on one (lemmas show that the evaluator is not exact for a manual policy, nor from within a minute). The restart of a service starts stopped dependents
  of its active dependents again, which the lemmas \<open>restart_plan_order\<close> and
  \<open>restart_starts_stopped_service\<close> record.

  \<^bold>\<open>Bounds and fuel.\<close>
  No definition uses fuel. Loops over time (transitions, power plans, occurrences, intervals) recurse on
  the minutes left to their upper bound; the queue traversals of the graph on the nodes not yet taken; the wait for
  readiness on the attempts left. Dates are integers clipped as \<open>new Date\<close> does, which stays
  below \<open>2 ^ 53\<close>, and years print in the four-digit form only between 0 and 9999; the hypotheses
  \<open>canonical\<close> and \<open>power_clock_in_range\<close> say where this is used. Characters are UTF-16 units below 256.
  \<^bold>\<open>Not modelled.\<close>
  The file stores, the Docker, PM2, probe and power helper adapters, backups and diagnostics
  are calls of the file system and of other processes. Composition modules only wire the use cases; their
  effect on the schedulers is in Memory_Scheduler and Machine_Scheduler. The tokens and keys of Cloudflare
  Access, the segmented store of the history, the HTTP interface, the command line and the dashboard parse,
  transport and store; of the protected administration the facades of backups, logs, resources, diagnostics,
  overview and dashboard are left out.
  Not covered by a step relation: executions of shutdowns over HTTP that run while a tick waits for a port
  (C1 covers each of them, C3, C7 and C19 speak of sequences of whole handlers). States that ports under \<open>src\<close> answer to the
  readiness evaluation are typed, so malformed ones do not occur; the result that
  \<open>AdministrativeAuditPartialEffectError\<close> carries is dropped.
  Getters that a JavaScript proxy could intercept, and property enumeration of exotic objects,
  are outside the values of the Prelude.
\<close>

end
